(* ===== verification/Prelude.thy ===== *)
theory Prelude
  imports Complex_Main "HOL-Library.Word" "HOL-Library.AList"
begin

text \<open>
  Shared vocabulary of the development: the exceptions of the program as one
  datatype, results as sums, the clock, bytes, Python strings and their
  encodings (hexadecimal, UTF-8, decimal, big-endian), and the dynamically
  typed values that JSON messages are made of.

  Conventions.
  \<^item> A Python exception is a constructor of \<open>exn\<close>; messages are dropped. A
    function that may raise returns \<open>'a res = exn + 'a\<close>; an operation on an
    object returns the result together with the object's new state, also when it
    raises, because the code keeps the mutations made before a \<open>raise\<close>.
  \<^item> \<open>time.time()\<close> is an argument of type \<open>time\<close> (a rational number of
    seconds; the rounding of floats is not modelled). An operation that reads the
    clock twice takes two readings. Random bytes and UUIDs are arguments too.
  \<^item> A Python \<open>str\<close> is a \<open>string\<close> whose characters stand for the code points
    U+0000 to U+00FF; every identifier and number on the wire is ASCII.
\<close>

section \<open>Exceptions and results\<close>

datatype exn =
    ValueError | TypeError | KeyError | AttributeError | OverflowError | LookupError
  | UnicodeDecodeError | JSONDecodeError | RuntimeError | InvalidTag
  | SessionError | SessionExpiredError | SessionRevokedError | SessionNotActiveError
  | SessionReorderError
  | UXSPStoreError
  | ReplayError | StaleEnvelopeError | DuplicateNonceError | FutureEnvelopeError
  | HybridEnvelopeValidationError
  | EnvelopeValidationError | EnvelopeTooLargeError | EnvelopeExpiredError
  | CardExpiredError | CardRevokedError
  | UntrustedCardError | InvalidCardSignatureError | ExpiredCardError
  | CardNotYetValidError | RevokedCardError
  | HandshakeError | HandshakeAuthError | HandshakeProofError | HandshakeExpiredError
  | ChunkFormatError | ChunkValidationError
  | PayloadFormatError | PayloadValidationError
  | RateLimitExceededError string rat
  | CardNotFoundError | DuplicateCardError | KeyStoreBackendError
  | UXSPWebSocketError | UnexpectedFrameError | SessionNotEstablishedError
  | FrameTooLargeError
  | StructError
  | ImportError | OSError | DriverError | UniqueViolation | KeyStoreError
  | UXSPHTTPError | MissingUXSPHeaderError | WrongRecipientError | UXSPVersionMismatchError
  | SecureSendError | SecureReceiveError | PeerNotFoundError | TypeMismatchError
  | MessageExpiredError | DuplicateMessageError | InvalidSenderError
  | SchemaValidationError
  | UXSPClientError | ProtocolFallbackError | UXSPPeerResolutionError

text \<open>
  The subclasses of \<open>ValueError\<close> among them, for handlers that catch it:
  \<open>UnicodeDecodeError\<close> and \<open>json.JSONDecodeError\<close> of the standard library,
  \<open>EnvelopeValidationError\<close> of \<open>crypto/hybrid.py\<close> (a different class from the one
  of the same name in \<open>core/envelope.py\<close>), the card errors of
  \<open>core/identity.py\<close> with their subclass \<open>InvalidSenderError\<close>, and
  \<open>SchemaValidationError\<close>. \<open>DriverError\<close> and \<open>UniqueViolation\<close> stand for the exceptions of the
  Redis and PostgreSQL drivers, the latter for those with \<open>pgcode\<close> 23505.
\<close>

definition is_ValueError :: "exn \<Rightarrow> bool" where
  "is_ValueError e \<longleftrightarrow>
     e \<in> {ValueError, UnicodeDecodeError, JSONDecodeError, HybridEnvelopeValidationError,
          CardExpiredError, CardRevokedError, InvalidSenderError, SchemaValidationError}"

type_synonym 'a res = "exn + 'a"

definition rbind :: "'a res \<Rightarrow> ('a \<Rightarrow> 'b res) \<Rightarrow> 'b res" where
  "rbind m f = (case m of Inl e \<Rightarrow> Inl e | Inr x \<Rightarrow> f x)"

definition guard :: "bool \<Rightarrow> exn \<Rightarrow> 'a res \<Rightarrow> 'a res" where
  "guard b e k = (if b then k else Inl e)"

definition is_ok :: "'a res \<Rightarrow> bool" where
  "is_ok r = (case r of Inl e \<Rightarrow> False | Inr x \<Rightarrow> True)"

lemma rbind_simps [simp]: "rbind (Inl e) f = Inl e" "rbind (Inr x) f = f x"
  by (simp_all add: rbind_def)

lemma guard_simps [simp]: "guard True e k = k" "guard False e k = Inl e"
  by (simp_all add: guard_def)

lemma is_ok_simps [simp]: "is_ok (Inl e) = False" "is_ok (Inr x) = True"
  by (simp_all add: is_ok_def)

lemma rbind_Inr_iff: "rbind m f = Inr y \<longleftrightarrow> (\<exists>x. m = Inr x \<and> f x = Inr y)"
  by (cases m) simp_all

lemma guard_Inr_iff: "guard b e k = Inr y \<longleftrightarrow> b \<and> k = Inr y"
  by (simp add: guard_def)

lemma rbind_Inl_iff:
  "rbind m f = Inl e \<longleftrightarrow> m = Inl e \<or> (\<exists>x. m = Inr x \<and> f x = Inl e)"
  by (cases m) simp_all

lemma guard_Inl_iff: "guard b e k = Inl e' \<longleftrightarrow> \<not> b \<and> e = e' \<or> b \<and> k = Inl e'"
  by (auto simp add: guard_def)

lemma is_ok_iff: "is_ok r \<longleftrightarrow> (\<exists>x. r = Inr x)"
  by (cases r) simp_all

definition rescue :: "(exn \<Rightarrow> bool) \<Rightarrow> exn \<Rightarrow> 'a res \<Rightarrow> 'a res" where
  \<comment> \<open>\<open>try: m except (\<dots>) as e: raise e' from e\<close>\<close>
  "rescue caught e' m = (case m of Inl e \<Rightarrow> Inl (if caught e then e' else e) | Inr x \<Rightarrow> Inr x)"

lemma rescue_simps [simp]:
  "rescue c e (Inr x) = Inr x" "rescue c e (Inl d) = Inl (if c d then e else d)"
  by (simp_all add: rescue_def)

lemma rescue_Inr_iff: "rescue c e m = Inr x \<longleftrightarrow> m = Inr x"
  by (cases m) simp_all

lemmas res_Inr_iffs = rbind_Inr_iff guard_Inr_iff rescue_Inr_iff

definition subscript :: "('k \<times> 'v) list \<Rightarrow> 'k \<Rightarrow> 'v res" where
  \<comment> \<open>\<open>d[k]\<close>\<close>
  "subscript d k = (case map_of d k of None \<Rightarrow> Inl KeyError | Some v \<Rightarrow> Inr v)"

lemma subscript_Inr_iff: "subscript d k = Inr v \<longleftrightarrow> map_of d k = Some v"
  by (simp add: subscript_def split: option.split)

lemma subscript_Some [simp]: "map_of d k = Some v \<Longrightarrow> subscript d k = Inr v"
  by (simp add: subscript_def)

fun res_map :: "('a \<Rightarrow> 'b res) \<Rightarrow> 'a list \<Rightarrow> 'b list res" where
  "res_map f [] = Inr []"
| "res_map f (x # xs) = rbind (f x) (\<lambda>y. rbind (res_map f xs) (\<lambda>ys. Inr (y # ys)))"

lemma res_map_Inr_iff: "res_map f xs = Inr ys \<longleftrightarrow> list_all2 (\<lambda>x y. f x = Inr y) xs ys"
  by (induction xs arbitrary: ys) (auto simp: rbind_Inr_iff list_all2_Cons1)

lemma res_map_map: "(\<And>x. x \<in> set xs \<Longrightarrow> f (g x) = Inr x) \<Longrightarrow> res_map f (map g xs) = Inr xs"
  by (induction xs) auto

type_synonym time = rat

definition trunc :: "time \<Rightarrow> int" where
  \<comment> \<open>\<open>int(x)\<close> of a finite float\<close>
  "trunc q = (if q < 0 then - \<lfloor>- q\<rfloor> else \<lfloor>q\<rfloor>)"

definition FLOAT_LIMIT :: int where
  \<comment> \<open>the least integer that \<open>float(n)\<close> refuses with \<open>OverflowError\<close>\<close>
  "FLOAT_LIMIT = 2 ^ 1024 - 2 ^ 970"

definition age_of :: "time \<Rightarrow> int \<Rightarrow> time res" where
  \<comment> \<open>\<open>time.time() - ts\<close> for an integer \<open>ts\<close>, which is converted to a float first\<close>
  "age_of now ts = guard (\<bar>ts\<bar> < FLOAT_LIMIT) OverflowError (Inr (now - of_int ts))"

lemma trunc_le: "0 \<le> q \<Longrightarrow> of_int (trunc q) \<le> q \<and> q < of_int (trunc q) + 1"
  by (simp add: trunc_def not_less) linarith

lemma FLOAT_LIMIT_large: "10 ^ 18 \<le> FLOAT_LIMIT"
  by (simp add: FLOAT_LIMIT_def)

lemma age_of_ok [simp]: "\<bar>ts\<bar> \<le> 10 ^ 18 - 1 \<Longrightarrow> age_of now ts = Inr (now - of_int ts)"
  using FLOAT_LIMIT_large by (simp add: age_of_def)

section \<open>Bytes and hexadecimal\<close>

type_synonym byte = "8 word"
type_synonym bytes = "byte list"

definition byte_of :: "nat \<Rightarrow> byte" where
  "byte_of n = word_of_nat n"

lemma unat_byte_less [simp]: "unat (b :: byte) < 256"
  using unsigned_less [of b] by simp

lemma unat_byte_of [simp]: "n < 256 \<Longrightarrow> unat (byte_of n) = n"
  by (simp add: byte_of_def unat_of_nat take_bit_eq_mod)

lemma byte_of_unat [simp]: "byte_of (unat b) = b"
  by (simp add: byte_of_def)

definition hexdigits :: string where
  "hexdigits = ''0123456789abcdef''"

definition hex :: "bytes \<Rightarrow> string" where
  \<comment> \<open>\<open>bytes.hex()\<close>: two lower-case digits per byte\<close>
  "hex bs = concat (map (\<lambda>b. [hexdigits ! (unat b div 16), hexdigits ! (unat b mod 16)]) bs)"

definition hexval :: "char \<Rightarrow> nat option" where
  "hexval c = (let n = of_char c :: nat in
     if 48 \<le> n \<and> n \<le> 57 then Some (n - 48)
     else if 97 \<le> n \<and> n \<le> 102 then Some (n - 87)
     else if 65 \<le> n \<and> n \<le> 70 then Some (n - 55)
     else None)"

definition is_space :: "char \<Rightarrow> bool" where
  \<comment> \<open>the ASCII white space that \<open>bytes.fromhex\<close> skips\<close>
  "is_space c \<longleftrightarrow> (let n = of_char c :: nat in n = 32 \<or> (9 \<le> n \<and> n \<le> 13))"

fun fromhex :: "string \<Rightarrow> bytes option" where
  \<comment> \<open>\<open>bytes.fromhex(s)\<close>: pairs of digits in either case, white space between the
      pairs ignored; \<open>None\<close> where the method raises \<open>ValueError\<close>\<close>
  "fromhex [] = Some []"
| "fromhex (c # cs) =
     (if is_space c then fromhex cs
      else case cs of
             [] \<Rightarrow> None
           | d # ds \<Rightarrow> (case (hexval c, hexval d) of
                          (Some a, Some b) \<Rightarrow> map_option ((#) (byte_of (16 * a + b))) (fromhex ds)
                        | _ \<Rightarrow> None))"

lemma hex_Nil [simp]: "hex [] = []"
  by (simp add: hex_def)

lemma hex_Cons:
  "hex (b # bs) = hexdigits ! (unat b div 16) # hexdigits ! (unat b mod 16) # hex bs"
  by (simp add: hex_def)

lemma length_hex [simp]: "length (hex bs) = 2 * length bs"
  by (induction bs) (simp_all add: hex_Cons)

lemma hexdigit_table:
  "\<forall>n \<in> set [0..<16]. hexval (hexdigits ! n) = Some n \<and> \<not> is_space (hexdigits ! n)"
  by code_simp

lemma hexval_hexdigit: "n < 16 \<Longrightarrow> hexval (hexdigits ! n) = Some n \<and> \<not> is_space (hexdigits ! n)"
  using hexdigit_table by simp

lemma fromhex_hex [simp]: "fromhex (hex bs) = Some bs"
proof (induction bs)
  case Nil
  then show ?case by simp
next
  case (Cons b bs)
  have "unat b div 16 < 16" "unat b mod 16 < 16"
    by (simp_all add: less_mult_imp_div_less)
  moreover have "byte_of (16 * (unat b div 16) + unat b mod 16) = b"
    by simp
  ultimately show ?case
    using Cons by (simp add: hex_Cons hexval_hexdigit)
qed

lemma hex_inject [simp]: "hex a = hex b \<longleftrightarrow> a = b"
  by (metis fromhex_hex option.inject)

section \<open>Big-endian integers\<close>

text \<open>\<open>struct.pack(">I", n)\<close>, \<open>n.to_bytes(k, "big")\<close> and their readers.\<close>

fun be_bytes :: "nat \<Rightarrow> nat \<Rightarrow> bytes" where
  "be_bytes 0 n = []"
| "be_bytes (Suc k) n = be_bytes k (n div 256) @ [byte_of (n mod 256)]"

definition be_nat :: "bytes \<Rightarrow> nat" where
  "be_nat bs = foldl (\<lambda>acc b. acc * 256 + unat b) 0 bs"

lemma length_be_bytes [simp]: "length (be_bytes k n) = k"
  by (induction k arbitrary: n) simp_all

lemma be_nat_snoc: "be_nat (bs @ [b]) = be_nat bs * 256 + unat b"
  by (simp add: be_nat_def)

lemma be_nat_be_bytes [simp]: "n < 256 ^ k \<Longrightarrow> be_nat (be_bytes k n) = n"
proof (induction k arbitrary: n)
  case 0
  then show ?case by (simp add: be_nat_def)
next
  case (Suc k)
  have "n div 256 < 256 ^ k"
    using Suc.prems by (simp add: less_mult_imp_div_less mult.commute)
  then have "be_nat (be_bytes k (n div 256)) = n div 256"
    by (rule Suc.IH)
  moreover have "unat (byte_of (n mod 256)) = n mod 256"
    by simp
  ultimately show ?case
    by (simp add: be_nat_snoc)
qed

section \<open>UTF-8 and decimal text\<close>

fun utf8 :: "string \<Rightarrow> bytes" where
  \<comment> \<open>\<open>s.encode()\<close>: one byte below U+0080, two below U+0100\<close>
  "utf8 [] = []"
| "utf8 (c # cs) =
     (let n = of_char c :: nat in
      if n < 128 then byte_of n # utf8 cs
      else byte_of (192 + n div 64) # byte_of (128 + n mod 64) # utf8 cs)"

fun utf8_decode :: "bytes \<Rightarrow> string option" where
  \<comment> \<open>\<open>b.decode("utf-8")\<close>; \<open>None\<close> where it raises \<open>UnicodeDecodeError\<close> (and, a limit of
      the model, for code points above U+00FF)\<close>
  "utf8_decode [] = Some []"
| "utf8_decode (b # bs) =
     (if unat b < 128 then map_option ((#) (char_of (unat b))) (utf8_decode bs)
      else case bs of
             [] \<Rightarrow> None
           | c # cs \<Rightarrow>
               if 194 \<le> unat b \<and> unat b \<le> 195 \<and> 128 \<le> unat c \<and> unat c \<le> 191
               then map_option ((#) (char_of ((unat b - 192) * 64 + (unat c - 128)))) (utf8_decode cs)
               else None)"

lemma of_char_less_256: "of_char c < (256 :: nat)"
  by (metis mod_less_divisor of_char_mod_256 zero_less_numeral)

lemma split_64:
  assumes "(n::nat) < 256" and "128 \<le> n"
  shows "n div 64 = 2 \<and> n = 128 + n mod 64 \<or> n div 64 = 3 \<and> n = 192 + n mod 64"
proof -
  have e: "n = 64 * (n div 64) + n mod 64"
    by simp
  have "n div 64 = 2 \<or> n div 64 = 3"
    using assms by arith
  then show ?thesis
  proof
    assume "n div 64 = 2"
    with e show ?thesis by (intro disjI1 conjI) linarith+
  next
    assume "n div 64 = 3"
    with e show ?thesis by (intro disjI2 conjI) linarith+
  qed
qed

lemma utf8_decode_utf8 [simp]: "utf8_decode (utf8 s) = Some s"
proof (induction s)
  case Nil
  then show ?case by simp
next
  case (Cons c cs)
  let ?n = "of_char c :: nat"
  have n: "?n < 256" by (rule of_char_less_256)
  show ?case
  proof (cases "?n < 128")
    case True
    then show ?thesis
      using Cons n by (simp add: Let_def)
  next
    case False
    have "?n mod 64 \<le> 63" by simp
    then have m: "unat (byte_of (128 + ?n mod 64)) = 128 + ?n mod 64"
      by (intro unat_byte_of) simp
    from n False have "?n div 64 = 2 \<and> ?n = 128 + ?n mod 64 \<or> ?n div 64 = 3 \<and> ?n = 192 + ?n mod 64"
      by (intro split_64) simp_all
    with False show ?thesis
      using Cons by (auto simp: Let_def m)
  qed
qed

lemma utf8_inject [simp]: "utf8 a = utf8 b \<longleftrightarrow> a = b"
  by (metis option.inject utf8_decode_utf8)

lemma length_utf8_le: "length (utf8 s) \<le> 2 * length s"
  by (induction s) (auto simp: Let_def)

lemma utf8_append: "utf8 (a @ b) = utf8 a @ utf8 b"
  by (induction a) (simp_all add: Let_def)


definition digit :: "nat \<Rightarrow> char" where
  "digit n = char_of (48 + n)"

fun str_nat :: "nat \<Rightarrow> string" where
  "str_nat n = (if n < 10 then [digit n] else str_nat (n div 10) @ [digit (n mod 10)])"

declare str_nat.simps [simp del]

definition str_int :: "int \<Rightarrow> string" where
  \<comment> \<open>\<open>str(n)\<close> of an integer\<close>
  "str_int n = (if n < 0 then CHR 0x2D # str_nat (nat (- n)) else str_nat (nat n))"

definition digitval :: "char \<Rightarrow> nat option" where
  "digitval c = (let n = of_char c :: nat in if 48 \<le> n \<and> n \<le> 57 then Some (n - 48) else None)"

fun digits_acc :: "bool \<Rightarrow> nat \<Rightarrow> string \<Rightarrow> nat option" where
  \<comment> \<open>decimal digits with single underscores between them; the flag says that the
      last character was a digit\<close>
  "digits_acc d acc [] = (if d then Some acc else None)"
| "digits_acc d acc (c # cs) =
     (case digitval c of
        Some v \<Rightarrow> digits_acc True (acc * 10 + v) cs
      | None \<Rightarrow> if c = CHR 0x5F \<and> d then digits_acc False acc cs else None)"

definition is_uspace :: "char \<Rightarrow> bool" where
  \<comment> \<open>\<open>str.isspace\<close>: the white space that \<open>str.strip\<close> and \<open>int\<close> skip\<close>
  "is_uspace c \<longleftrightarrow> (let n = of_char c :: nat in
     n = 32 \<or> (9 \<le> n \<and> n \<le> 13) \<or> (28 \<le> n \<and> n \<le> 31) \<or> n = 133 \<or> n = 160)"

definition upper :: "string \<Rightarrow> string" where
  \<comment> \<open>\<open>s.upper()\<close>, but for the two letters whose capital lies above U+00FF\<close>
  "upper s = concat (map (\<lambda>c. let n = of_char c :: nat in
     if 97 \<le> n \<and> n \<le> 122 then [char_of (n - 32)]
     else if 224 \<le> n \<and> n \<le> 254 \<and> n \<noteq> 247 then [char_of (n - 32)]
     else if n = 223 then ''SS'' else [c]) s)"

definition lstrip :: "string \<Rightarrow> string" where
  "lstrip s = dropWhile is_uspace s"

definition strip :: "string \<Rightarrow> string" where
  \<comment> \<open>\<open>s.strip()\<close>\<close>
  "strip s = rev (lstrip (rev (lstrip s)))"

definition int_of_str :: "string \<Rightarrow> int option" where
  \<comment> \<open>\<open>int(s)\<close>: surrounding white space, a sign, digits; \<open>None\<close> where it raises
      \<open>ValueError\<close>\<close>
  "int_of_str s = (case strip s of
     [] \<Rightarrow> None
   | c # cs \<Rightarrow>
       if c = CHR 0x2D then map_option (\<lambda>n. - int n) (digits_acc False 0 cs)
       else if c = CHR 0x2B then map_option int (digits_acc False 0 cs)
       else map_option int (digits_acc False 0 (c # cs)))"

lemma of_char_digit: "n < 10 \<Longrightarrow> of_char (digit n) = 48 + n"
  by (simp add: digit_def)

lemma digitval_digit [simp]: "n < 10 \<Longrightarrow> digitval (digit n) = Some n"
  by (simp add: digitval_def of_char_digit Let_def)

lemma str_nat_nonempty [simp]: "str_nat n \<noteq> []"
  by (subst str_nat.simps) simp

lemma digits_acc_str_nat: "digits_acc d 0 (str_nat n @ ys) = digits_acc True n ys"
proof (induction n arbitrary: d ys rule: str_nat.induct)
  case (1 n)
  show ?case
  proof (cases "n < 10")
    case True
    then show ?thesis by (simp add: str_nat.simps [of n])
  next
    case False
    with 1 [of d "digit (n mod 10) # ys"] show ?thesis
      by (simp add: str_nat.simps [of n])
  qed
qed

lemma length_str_nat: "n < 10 ^ k \<Longrightarrow> 0 < k \<Longrightarrow> length (str_nat n) \<le> k"
proof (induction k arbitrary: n)
  case (Suc k)
  show ?case
  proof (cases "n < 10")
    case False
    then have "k \<noteq> 0" using Suc.prems by (cases k) auto
    moreover have "n div 10 < 10 ^ k" using Suc.prems by (simp add: less_mult_imp_div_less mult.commute)
    ultimately show ?thesis using Suc.IH [of "n div 10"] False by (simp add: str_nat.simps [of n])
  qed (simp add: str_nat.simps [of n])
qed simp

lemma length_str_int: "\<bar>n\<bar> < 10 ^ k \<Longrightarrow> 0 < k \<Longrightarrow> length (str_int n) \<le> k + 1"
  using length_str_nat [of "nat \<bar>n\<bar>" k] by (auto simp: str_int_def nat_less_iff)

lemma str_nat_digits: "c \<in> set (str_nat n) \<Longrightarrow> \<exists>k<10. c = digit k"
proof (induction n rule: str_nat.induct)
  case (1 n)
  show ?case
  proof (cases "n < 10")
    case True
    with 1 show ?thesis by (auto simp: str_nat.simps [of n])
  next
    case False
    with 1 show ?thesis
      by (auto simp: str_nat.simps [of n]) (metis mod_less_divisor zero_less_numeral)
  qed
qed


lemma strip_id: "\<forall>c \<in> set s. \<not> is_uspace c \<Longrightarrow> strip s = s"
proof -
  assume *: "\<forall>c \<in> set s. \<not> is_uspace c"
  have drop: "dropWhile is_uspace t = t" if "\<forall>c \<in> set t. \<not> is_uspace c" for t
    using that by (cases t) auto
  show ?thesis
    using * by (simp add: strip_def lstrip_def drop)
qed

lemma digit_not_space: "k < 10 \<Longrightarrow> \<not> is_uspace (digit k) \<and> digit k \<noteq> CHR 0x2D \<and> digit k \<noteq> CHR 0x2B"
proof -
  assume k: "k < 10"
  then have "digit k \<noteq> c" if "of_char c < (48 :: nat)" for c
    using of_char_digit [OF k] that by auto
  then show ?thesis
    using k of_char_digit [OF k] by (simp add: is_uspace_def Let_def)
qed

lemma int_of_str_str_int [simp]: "int_of_str (str_int n) = Some n"
proof -
  have sp: "\<forall>c \<in> set (str_nat m). \<not> is_uspace c \<and> c \<noteq> CHR 0x2D \<and> c \<noteq> CHR 0x2B" for m
    by (metis digit_not_space str_nat_digits)
  have d: "digits_acc False 0 (str_nat m) = Some m" for m
    using digits_acc_str_nat [of False m "[]"] by simp
  show ?thesis
  proof (cases "n < 0")
    case True
    have "\<not> is_uspace CHR 0x2D" by (simp add: is_uspace_def Let_def)
    then have "strip (str_int n) = CHR 0x2D # str_nat (nat (- n))"
      using True sp [of "nat (- n)"] by (subst strip_id) (auto simp: str_int_def)
    with True show ?thesis by (simp add: int_of_str_def d)
  next
    case False
    obtain c cs where c: "str_nat (nat n) = c # cs"
      by (cases "str_nat (nat n)") auto
    with sp [of "nat n"] have "c \<noteq> CHR 0x2D" "c \<noteq> CHR 0x2B" by auto
    moreover have "strip (str_int n) = c # cs"
      using False sp [of "nat n"] c by (subst strip_id) (auto simp: str_int_def)
    ultimately show ?thesis
      using False d [of "nat n"] c by (simp add: int_of_str_def)
  qed
qed

lemma str_int_inject [simp]: "str_int a = str_int b \<longleftrightarrow> a = b"
  by (metis int_of_str_str_int option.inject)

section \<open>Dynamically typed values\<close>

text \<open>
  What a message dictionary may hold: the values \<open>json.loads\<close> produces. A float is a
  rational (rounding is not modelled) or one of the three special values; the JSON
  text \<open>1e999\<close> is \<open>PosInf\<close>.
\<close>

datatype pyfloat = Fin rat | PosInf | NegInf | NaN

datatype pyval =
    PNone | PBool bool | PInt int | PFloat pyfloat | PStr string
  | PList "pyval list" | PDict "(string \<times> pyval) list"

type_synonym dict = "(string \<times> pyval) list"

definition dget :: "dict \<Rightarrow> string \<Rightarrow> pyval" where
  \<comment> \<open>\<open>d.get(k)\<close>: \<open>None\<close> for a missing key\<close>
  "dget d k = (case map_of d k of None \<Rightarrow> PNone | Some v \<Rightarrow> v)"

definition has_key :: "dict \<Rightarrow> string \<Rightarrow> bool" where
  "has_key d k \<longleftrightarrow> map_of d k \<noteq> None"

fun is_PStr :: "pyval \<Rightarrow> bool" where
  "is_PStr (PStr s) = True"
| "is_PStr _ = False"

definition py_int :: "pyval \<Rightarrow> int res" where
  \<comment> \<open>\<open>int(v)\<close>: floats are truncated, \<open>int(float('inf'))\<close> raises \<open>OverflowError\<close>\<close>
  "py_int v = (case v of
     PInt n \<Rightarrow> Inr n
   | PBool b \<Rightarrow> Inr (if b then 1 else 0)
   | PFloat (Fin q) \<Rightarrow> Inr (trunc q)
   | PFloat PosInf \<Rightarrow> Inl OverflowError
   | PFloat NegInf \<Rightarrow> Inl OverflowError
   | PFloat NaN \<Rightarrow> Inl ValueError
   | PStr s \<Rightarrow> (case int_of_str s of None \<Rightarrow> Inl ValueError | Some n \<Rightarrow> Inr n)
   | PNone \<Rightarrow> Inl TypeError
   | PList xs \<Rightarrow> Inl TypeError
   | PDict d \<Rightarrow> Inl TypeError)"

definition py_fromhex :: "pyval \<Rightarrow> bytes res" where
  \<comment> \<open>\<open>bytes.fromhex(v)\<close>\<close>
  "py_fromhex v = (case v of
     PStr s \<Rightarrow> (case fromhex s of None \<Rightarrow> Inl ValueError | Some b \<Rightarrow> Inr b)
   | _ \<Rightarrow> Inl TypeError)"

lemma py_fromhex_hex [simp]: "py_fromhex (PStr (hex b)) = Inr b"
  by (simp add: py_fromhex_def)

definition is_ValueTypeError :: "exn \<Rightarrow> bool" where
  \<comment> \<open>\<open>except (TypeError, ValueError)\<close>\<close>
  "is_ValueTypeError e \<longleftrightarrow> is_ValueError e \<or> e = TypeError"

fun opt_str :: "pyval \<Rightarrow> string option res" where
  "opt_str PNone = Inr None"
| "opt_str (PStr s) = Inr (Some s)"
| "opt_str _ = Inl TypeError"

fun the_str :: "pyval \<Rightarrow> string res" where
  "the_str (PStr s) = Inr s"
| "the_str _ = Inl TypeError"

definition dget_default :: "dict \<Rightarrow> string \<Rightarrow> pyval \<Rightarrow> pyval" where
  "dget_default d k v = (if has_key d k then dget d k else v)"

fun the_int :: "pyval \<Rightarrow> int res" where
  "the_int (PInt n) = Inr n"
| "the_int _ = Inl TypeError"

definition opt_val :: "string option \<Rightarrow> pyval" where
  "opt_val x = (case x of None \<Rightarrow> PNone | Some s \<Rightarrow> PStr s)"

lemma opt_val_simps [simp]: "opt_val None = PNone" "opt_val (Some s) = PStr s"
  by (simp_all add: opt_val_def)

definition contains_text :: "string \<Rightarrow> string \<Rightarrow> bool" where
  \<comment> \<open>\<open>p in s\<close>\<close>
  "contains_text p s \<longleftrightarrow> (\<exists>i \<in> set [0..<length s + 1]. take (length p) (drop i s) = p)"

definition starts_with :: "string \<Rightarrow> string \<Rightarrow> bool" where
  "starts_with p s \<longleftrightarrow> take (length p) s = p"

definition py_truthy :: "pyval \<Rightarrow> bool" where
  \<comment> \<open>\<open>bool(v)\<close>\<close>
  "py_truthy v = (case v of
     PNone \<Rightarrow> False | PBool b \<Rightarrow> b | PInt n \<Rightarrow> n \<noteq> 0 | PFloat (Fin q) \<Rightarrow> q \<noteq> 0
   | PFloat _ \<Rightarrow> True | PStr s \<Rightarrow> s \<noteq> [] | PList xs \<Rightarrow> xs \<noteq> [] | PDict d \<Rightarrow> d \<noteq> [])"

lemma py_int_PInt [simp]: "py_int (PInt n) = Inr n"
  by (simp add: py_int_def)

lemma py_int_decimal [simp]: "py_int (PStr (str_int n)) = Inr n"
  by (simp add: py_int_def)

section \<open>Text of the standard library\<close>

text \<open>
  Four functions of Python whose text format is not modelled: the decimal text of a finite
  float, \<open>str\<close> of floats, lists and dictionaries, and ISO 8601 time stamps (a text without
  a zone is read as UTC, as every caller does).
\<close>

record pylib =
  float_repr :: "rat \<Rightarrow> string"
  str_other :: "pyval \<Rightarrow> string"
  isoformat :: "time \<Rightarrow> string"
  fromisoformat :: "string \<Rightarrow> time option"

definition py_str :: "pylib \<Rightarrow> pyval \<Rightarrow> string" where
  \<comment> \<open>\<open>str(v)\<close>\<close>
  "py_str L v = (case v of
     PStr s \<Rightarrow> s | PInt n \<Rightarrow> str_int n | PNone \<Rightarrow> ''None''
   | PBool b \<Rightarrow> (if b then ''True'' else ''False'') | _ \<Rightarrow> str_other L v)"

lemma py_str_simps [simp]: "py_str L (PStr s) = s" "py_str L (PInt n) = str_int n"
  by (simp_all add: py_str_def)

definition demo_lib :: pylib where
  \<comment> \<open>a time stamp is the decimal text of the whole seconds\<close>
  "demo_lib = \<lparr>float_repr = (\<lambda>q. str_int (trunc q)), str_other = (\<lambda>v. []),
     isoformat = (\<lambda>t. str_int (trunc t)), fromisoformat = (\<lambda>s. map_option of_int (int_of_str s))\<rparr>"

text \<open>The text codecs, of which the program names UTF-8 only.\<close>

record codecs =
  encode_with :: "string \<Rightarrow> string \<Rightarrow> bytes res"  \<comment> \<open>\<open>text.encode(encoding)\<close>: encoding, text\<close>
  decode_with :: "string \<Rightarrow> bytes \<Rightarrow> string res"

section \<open>Ordered dictionaries\<close>

text \<open>
  A Python \<open>dict\<close> (or \<open>OrderedDict\<close>) whose iteration order or length matters is an
  association list with distinct keys: \<open>d[k] = v\<close> is \<open>AList.update\<close> (in place for a
  known key, at the end for a new one), \<open>del d[k]\<close> and \<open>pop\<close> are \<open>AList.delete\<close>.
\<close>

abbreviation keys_distinct :: "('k \<times> 'v) list \<Rightarrow> bool" where
  "keys_distinct d \<equiv> distinct (map fst d)"

lemma map_of_update [simp]: "map_of (AList.update k v d) = (map_of d)(k \<mapsto> v)"
  by (rule ext) (simp add: update_conv')

lemma map_of_delete [simp]: "map_of (AList.delete k d) = (map_of d)(k := None)"
  by (rule ext) (simp add: delete_conv')

lemma keys_distinct_update [simp]: "keys_distinct d \<Longrightarrow> keys_distinct (AList.update k v d)"
  by (rule distinct_update)

lemma keys_distinct_delete [simp]: "keys_distinct d \<Longrightarrow> keys_distinct (AList.delete k d)"
  by (rule distinct_delete)

lemma keys_distinct_filter [simp]: "keys_distinct d \<Longrightarrow> keys_distinct (filter P d)"
  by (simp add: distinct_map_filter)

lemma map_of_filter_Some:
  "keys_distinct d \<Longrightarrow> map_of (filter P d) k = Some v \<longleftrightarrow> map_of d k = Some v \<and> P (k, v)"
  by (induction d) (auto simp: map_of_eq_None_iff image_iff dest: map_of_SomeD)

lemma length_update_new:
  "map_of d k = None \<Longrightarrow> length (AList.update k v d) = Suc (length d)"
  by (induction d) (auto split: if_splits)

end
