(* ===== verification/Crypto.thy ===== *)
theory Crypto
  imports Prelude
begin

text \<open>
  The primitive layer: \<open>uxsp/crypto/symmetric.py\<close>, \<open>kdf.py\<close>, \<open>asymmetric.py\<close> and
  \<open>pqc.py\<close>. The ciphers, hashes and signature schemes themselves are third-party
  code (\<open>cryptography\<close>, \<open>liboqs\<close>, \<open>argon2\<close>, OpenSSL behind \<open>hashlib\<close> and \<open>hmac\<close>);
  they are the fields of the record \<open>prims\<close>, an argument of every definition that
  uses them. What the program relies on is stated as named predicates on such a record
  (\<open>aead_laws\<close>, \<open>hkdf_laws\<close>, \<open>exchange_laws\<close>, \<open>signature_laws\<close>), and \<open>demo_prims\<close> is a
  concrete record that satisfies them all.

  The \<open>isinstance\<close> tests for \<open>bytes\<close>, \<open>bytearray\<close> and \<open>str\<close> arguments are the types
  of the definitions; a caller that passes another type is outside the model.
\<close>

section \<open>Third-party primitives\<close>

record prims =
  aesgcm_encrypt :: "bytes \<Rightarrow> bytes \<Rightarrow> bytes \<Rightarrow> bytes option \<Rightarrow> bytes"
    \<comment> \<open>key, nonce, data, associated data\<close>
  aesgcm_decrypt :: "bytes \<Rightarrow> bytes \<Rightarrow> bytes \<Rightarrow> bytes option \<Rightarrow> bytes res"
    \<comment> \<open>key, nonce, ciphertext, associated data; \<open>InvalidTag\<close> or another exception\<close>
  hkdf_sha256 :: "int \<Rightarrow> bytes option \<Rightarrow> bytes \<Rightarrow> bytes \<Rightarrow> bytes res"
    \<comment> \<open>length, salt, info, input key material\<close>
  hmac_sha256 :: "bytes \<Rightarrow> bytes \<Rightarrow> bytes"
  sha256 :: "bytes \<Rightarrow> bytes"
  x25519_public :: "bytes \<Rightarrow> bytes"
  x25519_exchange :: "bytes \<Rightarrow> bytes \<Rightarrow> bytes res"
  ed25519_public :: "bytes \<Rightarrow> bytes"
  ed25519_sign :: "bytes \<Rightarrow> bytes \<Rightarrow> bytes res"
    \<comment> \<open>private key, message\<close>
  ed25519_key :: "bytes \<Rightarrow> bool"
    \<comment> \<open>the private keys that the package accepts\<close>
  ed25519_verify :: "bytes \<Rightarrow> bytes \<Rightarrow> bytes \<Rightarrow> bool"
    \<comment> \<open>public key, signature, message; a malformed key or signature is \<open>False\<close>\<close>
  kem_public :: "bytes \<Rightarrow> bytes"
  kem_key :: "bytes \<Rightarrow> bool"
  kem_encap :: "bytes \<Rightarrow> bytes \<Rightarrow> (bytes \<times> bytes) res"
    \<comment> \<open>randomness, public key; ciphertext and shared secret\<close>
  kem_decap :: "bytes \<Rightarrow> bytes \<Rightarrow> bytes res"
    \<comment> \<open>private key, ciphertext\<close>
  mldsa_public :: "bytes \<Rightarrow> bytes"
  mldsa_key :: "bytes \<Rightarrow> bool"
  mldsa_sign :: "bytes \<Rightarrow> bytes \<Rightarrow> bytes \<Rightarrow> bytes res"
    \<comment> \<open>private key, randomness, message\<close>
  mldsa_verify :: "bytes \<Rightarrow> bytes \<Rightarrow> bytes \<Rightarrow> bool res"
    \<comment> \<open>message, signature, public key\<close>
  argon2id_raw :: "bytes \<Rightarrow> bytes \<Rightarrow> int \<Rightarrow> int \<Rightarrow> int \<Rightarrow> int \<Rightarrow> bytes"
    \<comment> \<open>secret, salt, time cost, memory cost, parallelism, hash length\<close>
  kem_mechanisms :: "string list"
  sig_mechanisms :: "string list"

section \<open>Symmetric encryption\<close>

definition KEY_SIZE :: nat where "KEY_SIZE = 32"
definition NONCE_SIZE :: nat where "NONCE_SIZE = 12"

definition zeroize :: "bytes \<Rightarrow> bytes" where
  \<comment> \<open>the contents of the buffer after the loop of \<open>zeroize(buf)\<close>\<close>
  "zeroize buf = map (\<lambda>_. 0) buf"

definition sym_encrypt :: "prims \<Rightarrow> bytes \<Rightarrow> bytes \<Rightarrow> bytes \<Rightarrow> bytes option \<Rightarrow> (bytes \<times> bytes) res" where
  \<comment> \<open>\<open>symmetric.encrypt\<close>; \<open>urandom\<close> is what \<open>os.urandom(NONCE_SIZE)\<close> returns; the result
      is the pair of the entries \<open>ciphertext\<close> and \<open>nonce\<close>\<close>
  "sym_encrypt P urandom data key ad =
     guard (length key = KEY_SIZE) ValueError
       (Inr (aesgcm_encrypt P key urandom data ad, urandom))"

definition sym_decrypt :: "prims \<Rightarrow> bytes \<Rightarrow> bytes \<Rightarrow> bytes \<Rightarrow> bytes option \<Rightarrow> bytes res" where
  "sym_decrypt P ciphertext nonce key ad =
     guard (length key = KEY_SIZE) ValueError
      (guard (length nonce = NONCE_SIZE) ValueError
        (case aesgcm_decrypt P key nonce ciphertext ad of
           Inl e \<Rightarrow> Inl (if e = InvalidTag then ValueError else e)
         | Inr m \<Rightarrow> Inr m))"

definition encrypt_str :: "prims \<Rightarrow> bytes \<Rightarrow> string \<Rightarrow> bytes \<Rightarrow> bytes option \<Rightarrow> (string \<times> string) res" where
  "encrypt_str P urandom text key ad =
     guard (length key = KEY_SIZE) ValueError
      (rbind (sym_encrypt P urandom (utf8 text) key ad)
        (\<lambda>(ct, nonce). Inr (hex ct, hex nonce)))"

definition decrypt_str :: "prims \<Rightarrow> string \<Rightarrow> string \<Rightarrow> bytes \<Rightarrow> bytes option \<Rightarrow> string res" where
  "decrypt_str P ciphertext_hex nonce_hex key ad =
     guard (length key = KEY_SIZE) ValueError
      (guard (length nonce_hex = NONCE_SIZE * 2) ValueError
        (case (fromhex ciphertext_hex, fromhex nonce_hex) of
           (Some ct, Some nonce) \<Rightarrow>
             rbind (sym_decrypt P ct nonce key ad)
               (\<lambda>m. case utf8_decode m of None \<Rightarrow> Inl UnicodeDecodeError | Some t \<Rightarrow> Inr t)
         | _ \<Rightarrow> Inl ValueError))"

section \<open>Key derivation\<close>

definition derive_key :: "prims \<Rightarrow> bytes \<Rightarrow> int \<Rightarrow> bytes option \<Rightarrow> bytes \<Rightarrow> bytes res" where
  "derive_key P ikm length' salt info =
     guard (0 < length') ValueError (hkdf_sha256 P length' salt info ikm)"

definition derive_multiple_keys :: "prims \<Rightarrow> bytes \<Rightarrow> bytes option \<Rightarrow> (string \<times> bytes) list res" where
  "derive_multiple_keys P ikm salt =
     rbind (derive_key P ikm 32 salt (utf8 ''UXSP-encryption-v1'')) (\<lambda>enc.
     rbind (derive_key P ikm 32 salt (utf8 ''UXSP-integrity-v1'')) (\<lambda>integ.
     rbind (derive_key P ikm 16 salt (utf8 ''UXSP-session-id-v1'')) (\<lambda>sid.
     Inr [(''encryption'', enc), (''integrity'', integ), (''session_id'', sid)])))"

definition derive_key_from_password ::
    "prims \<Rightarrow> bytes \<Rightarrow> string \<Rightarrow> bytes option \<Rightarrow> int \<Rightarrow> int \<Rightarrow> int \<Rightarrow> int \<Rightarrow> (bytes \<times> bytes) res" where
  \<comment> \<open>\<open>urandom\<close> is the random salt drawn when none is given; the result is \<open>key\<close> and \<open>salt\<close>\<close>
  "derive_key_from_password P urandom password salt length' time_cost memory_cost parallelism =
     guard (0 < length') ValueError
      (guard (1 \<le> time_cost) ValueError
       (guard (8 \<le> memory_cost) ValueError
        (guard (1 \<le> parallelism) ValueError
         (rbind (case salt of
                   None \<Rightarrow> Inr urandom
                 | Some s \<Rightarrow> guard (8 \<le> length s) ValueError (Inr s))
          (\<lambda>salt'. Inr (argon2id_raw P (utf8 password) salt' time_cost memory_cost parallelism length',
                        salt'))))))"

section \<open>Classical and post-quantum primitives\<close>

definition compute_shared_secret :: "prims \<Rightarrow> bytes \<Rightarrow> bytes \<Rightarrow> bytes res" where
  "compute_shared_secret P my_private their_public = x25519_exchange P my_private their_public"

definition ed_sign :: "prims \<Rightarrow> bytes \<Rightarrow> bytes \<Rightarrow> bytes res" where
  "ed_sign P message private_key = ed25519_sign P private_key message"

definition ed_verify :: "prims \<Rightarrow> bytes \<Rightarrow> bytes \<Rightarrow> bytes \<Rightarrow> bool" where
  "ed_verify P message signature public_key = ed25519_verify P public_key signature message"

definition sign_str :: "prims \<Rightarrow> string \<Rightarrow> bytes \<Rightarrow> string res" where
  "sign_str P text private_key = rbind (ed_sign P (utf8 text) private_key) (\<lambda>s. Inr (hex s))"

definition verify_str :: "prims \<Rightarrow> string \<Rightarrow> string \<Rightarrow> bytes \<Rightarrow> bool" where
  "verify_str P text signature_hex public_key =
     (case fromhex signature_hex of None \<Rightarrow> False | Some s \<Rightarrow> ed_verify P (utf8 text) s public_key)"

definition detect_kem :: "prims \<Rightarrow> string res" where
  "detect_kem P =
     (case filter (\<lambda>c. c \<in> set (kem_mechanisms P)) [''ML-KEM-768'', ''Kyber768''] of
        [] \<Rightarrow> Inl RuntimeError | c # _ \<Rightarrow> Inr c)"

definition detect_sig :: "prims \<Rightarrow> string res" where
  "detect_sig P =
     (case filter (\<lambda>c. c \<in> set (sig_mechanisms P)) [''ML-DSA-65'', ''Dilithium3''] of
        [] \<Rightarrow> Inl RuntimeError | c # _ \<Rightarrow> Inr c)"

definition pqc_algorithms :: "prims \<Rightarrow> string \<times> string" where
  \<comment> \<open>\<open>_KEM_ALGORITHM\<close> and \<open>_SIG_ALGORITHM\<close> as the module sets them: both empty when either detection raises\<close>
  "pqc_algorithms P =
     (case rbind (detect_kem P) (\<lambda>k. rbind (detect_sig P) (\<lambda>s. Inr (k, s))) of Inl e \<Rightarrow> ([], []) | Inr ks \<Rightarrow> ks)"

definition kem_algorithm :: "prims \<Rightarrow> string" where "kem_algorithm P = fst (pqc_algorithms P)"

definition sig_algorithm :: "prims \<Rightarrow> string" where "sig_algorithm P = snd (pqc_algorithms P)"

lemmas algorithm_defs = kem_algorithm_def sig_algorithm_def pqc_algorithms_def detect_kem_def detect_sig_def

definition encapsulate :: "prims \<Rightarrow> bytes \<Rightarrow> bytes \<Rightarrow> (bytes \<times> bytes) res" where
  \<comment> \<open>randomness, recipient's public key; the entries \<open>ciphertext\<close> and \<open>shared_secret\<close>\<close>
  "encapsulate P rnd recipient_public_key =
     guard (kem_algorithm P \<noteq> []) RuntimeError (kem_encap P rnd recipient_public_key)"

definition decapsulate :: "prims \<Rightarrow> bytes \<Rightarrow> bytes \<Rightarrow> bytes res" where
  "decapsulate P ciphertext private_key =
     guard (kem_algorithm P \<noteq> []) RuntimeError (kem_decap P private_key ciphertext)"

definition pqc_sign :: "prims \<Rightarrow> bytes \<Rightarrow> bytes \<Rightarrow> bytes \<Rightarrow> bytes res" where
  "pqc_sign P rnd message private_key =
     guard (sig_algorithm P \<noteq> []) RuntimeError (mldsa_sign P private_key rnd message)"

definition pqc_verify :: "prims \<Rightarrow> bytes \<Rightarrow> bytes \<Rightarrow> bytes \<Rightarrow> bool res" where
  "pqc_verify P message signature public_key =
     guard (sig_algorithm P \<noteq> []) RuntimeError
       (case mldsa_verify P message signature public_key of
          Inr b \<Rightarrow> Inr b
        | Inl e \<Rightarrow> if is_ValueError e \<or> e \<in> {TypeError, RuntimeError} then Inr False else Inl e)"

section \<open>What the program relies on\<close>

definition aead_laws :: "prims \<Rightarrow> bool" where
  "aead_laws P \<longleftrightarrow> (\<forall>k n m a. length k = KEY_SIZE \<longrightarrow> length n = NONCE_SIZE \<longrightarrow>
     aesgcm_decrypt P k n (aesgcm_encrypt P k n m a) a = Inr m)"

definition hkdf_laws :: "prims \<Rightarrow> bool" where
  "hkdf_laws P \<longleftrightarrow> (\<forall>len salt info ikm. 0 < len \<longrightarrow> len \<le> 8160 \<longrightarrow>
     (\<exists>k. hkdf_sha256 P len salt info ikm = Inr k \<and> length k = nat len))"

definition exchange_laws :: "prims \<Rightarrow> bool" where
  \<comment> \<open>Diffie-Hellman agreement on generated keys, and KEM correctness\<close>
  "exchange_laws P \<longleftrightarrow>
     (\<forall>a b. length a = 32 \<longrightarrow> length b = 32 \<longrightarrow>
        (\<exists>s. x25519_exchange P a (x25519_public P b) = Inr s \<and>
             x25519_exchange P b (x25519_public P a) = Inr s)) \<and>
     (\<forall>r sk. kem_key P sk \<longrightarrow>
        (\<exists>ct ss. kem_encap P r (kem_public P sk) = Inr (ct, ss) \<and> kem_decap P sk ct = Inr ss))
     \<and> kem_algorithm P \<noteq> []"

definition signature_laws :: "prims \<Rightarrow> bool" where
  \<comment> \<open>a signature that was made with an acceptable key verifies\<close>
  "signature_laws P \<longleftrightarrow>
     (\<forall>sk m. ed25519_key P sk \<longrightarrow> (\<exists>s. ed25519_sign P sk m = Inr s \<and> ed25519_verify P (ed25519_public P sk) s m)) \<and>
     (\<forall>sk r m. mldsa_key P sk \<longrightarrow> (\<exists>s. mldsa_sign P sk r m = Inr s \<and> mldsa_verify P m s (mldsa_public P sk) = Inr True))
     \<and> sig_algorithm P \<noteq> []"

definition acceptable_keys :: "prims \<Rightarrow> bytes \<Rightarrow> bytes \<Rightarrow> bytes \<Rightarrow> bytes \<Rightarrow> bool" where
  \<comment> \<open>what the key generators of the packages return: keys of X25519, ML-KEM, Ed25519 and ML-DSA\<close>
  "acceptable_keys P xsk ksk ssk qsk \<longleftrightarrow> length xsk = 32 \<and> kem_key P ksk \<and> ed25519_key P ssk \<and> mldsa_key P qsk"

definition size_laws :: "prims \<Rightarrow> bool" where
  \<comment> \<open>the sizes of the fields of a handshake\<close>
  "size_laws P \<longleftrightarrow> (\<forall>k m. length (hmac_sha256 P k m) = 32) \<and>
     (\<forall>sk. length sk = 32 \<longrightarrow> length (x25519_public P sk) = 32) \<and>
     (\<forall>r pk ct ss. kem_encap P r pk = Inr (ct, ss) \<longrightarrow> length ct \<le> 2048)"

lemma aead_lawsD:
  "aead_laws P \<Longrightarrow> length k = KEY_SIZE \<Longrightarrow> length n = NONCE_SIZE \<Longrightarrow>
   aesgcm_decrypt P k n (aesgcm_encrypt P k n m a) a = Inr m"
  by (simp add: aead_laws_def)

lemma hkdf_lawsE:
  assumes "hkdf_laws P" and "0 < len" and "len \<le> 8160"
  obtains k where "hkdf_sha256 P len salt info ikm = Inr k" and "length k = nat len"
  using assms unfolding hkdf_laws_def by blast

lemma sym_decrypt_encrypt:
  assumes "aead_laws P" and "sym_encrypt P n m k a = Inr (ct, n')" and "length n = NONCE_SIZE"
  shows "n' = n \<and> sym_decrypt P ct n' k a = Inr m"
  using assms by (auto simp: sym_encrypt_def sym_decrypt_def guard_Inr_iff aead_lawsD)

lemma sym_encrypt_ok [simp]:
  "length k = KEY_SIZE \<Longrightarrow> sym_encrypt P n m k a = Inr (aesgcm_encrypt P k n m a, n)"
  by (simp add: sym_encrypt_def)

lemma sym_encrypt_nonce: "sym_encrypt P n m k a = Inr (ct, n') \<Longrightarrow> n' = n \<and> length k = KEY_SIZE"
  by (auto simp: sym_encrypt_def guard_Inr_iff)

lemma length_zeroize [simp]: "length (zeroize b) = length b"
  by (simp add: zeroize_def)

lemma zeroize_eq: "zeroize b = replicate (length b) 0"
  by (simp add: zeroize_def map_replicate_const)

lemma zeroize_idem [simp]: "zeroize (zeroize b) = zeroize b"
  by (simp add: zeroize_eq)

lemma is_ValueError_simps [simp]:
  "is_ValueError ValueError" "is_ValueError UnicodeDecodeError" "is_ValueError JSONDecodeError"
  "is_ValueError HybridEnvelopeValidationError"
  "\<not> is_ValueError TypeError" "\<not> is_ValueError KeyError" "\<not> is_ValueError OverflowError"
  "\<not> is_ValueError RuntimeError" "\<not> is_ValueError InvalidTag" "\<not> is_ValueError AttributeError"
  by (simp_all add: is_ValueError_def)

section \<open>A concrete instance\<close>

text \<open>
  Toy primitives that satisfy all these laws, for the witnesses: the cipher appends
  key, nonce and associated data as its tag, a private key is its own public key, the
  Diffie-Hellman secret is the bytewise sum of the two keys, and a signature is the
  key followed by the message.
\<close>

definition pad_to :: "nat \<Rightarrow> bytes \<Rightarrow> bytes" where
  "pad_to n b = take n (b @ replicate n 0)"

lemma length_pad_to [simp]: "length (pad_to n b) = n"
  by (simp add: pad_to_def)

definition demo_tag :: "bytes \<Rightarrow> bytes \<Rightarrow> bytes option \<Rightarrow> bytes" where
  "demo_tag k n a = k @ n @ (case a of None \<Rightarrow> [] | Some b \<Rightarrow> b)"

definition demo_prims :: prims where
  "demo_prims = \<lparr>
     aesgcm_encrypt = (\<lambda>k n m a. m @ demo_tag k n a),
     aesgcm_decrypt = (\<lambda>k n c a. let t = demo_tag k n a; l = length c - length t in
        if length t \<le> length c \<and> drop l c = t then Inr (take l c) else Inl InvalidTag),
     hkdf_sha256 = (\<lambda>len salt info ikm. if 8160 < len then Inl ValueError
        else Inr (pad_to (nat len) (rev info @ ikm))),
     hmac_sha256 = (\<lambda>k m. pad_to 32 (k @ m)),
     sha256 = (\<lambda>m. pad_to 32 m),
     x25519_public = (\<lambda>sk. sk),
     x25519_exchange = (\<lambda>sk pk. if length pk \<noteq> 32 then Inl ValueError
        else Inr (map2 (+) sk pk)),
     ed25519_public = (\<lambda>sk. sk),
     ed25519_sign = (\<lambda>sk m. Inr (sk @ m)),
     ed25519_key = (\<lambda>sk. True),
     ed25519_verify = (\<lambda>pk s m. s = pk @ m),
     kem_public = (\<lambda>sk. sk),
     kem_key = (\<lambda>sk. True),
     kem_encap = (\<lambda>r pk. Inr (pad_to 32 r, pad_to 32 r @ pk)),
     kem_decap = (\<lambda>sk ct. Inr (ct @ sk)),
     mldsa_public = (\<lambda>sk. sk),
     mldsa_key = (\<lambda>sk. True),
     mldsa_sign = (\<lambda>sk r m. Inr (sk @ m)),
     mldsa_verify = (\<lambda>m s pk. Inr (s = pk @ m)),
     argon2id_raw = (\<lambda>pw salt t m p len. pad_to (nat len) (pw @ salt)),
     kem_mechanisms = [''ML-KEM-768''],
     sig_mechanisms = [''ML-DSA-65''] \<rparr>"

lemma map2_add_commute: "map2 (+) (a :: bytes) b = map2 (+) b a"
  by (induction a b rule: list_induct2') (simp_all add: add.commute)

lemma demo_aead: "aead_laws demo_prims"
  by (simp add: aead_laws_def demo_prims_def Let_def)

lemma demo_hkdf: "hkdf_laws demo_prims"
  by (simp add: hkdf_laws_def demo_prims_def)

lemma demo_exchange: "exchange_laws demo_prims"
  by (simp add: exchange_laws_def demo_prims_def algorithm_defs map2_add_commute)

lemma demo_signature: "signature_laws demo_prims"
  by (simp add: signature_laws_def demo_prims_def algorithm_defs)

lemma demo_sizes: "size_laws demo_prims"
  by (auto simp: size_laws_def demo_prims_def)

lemmas demo_laws = demo_aead demo_hkdf demo_exchange demo_signature

section \<open>Properties\<close>

text \<open>\<open>decrypt_str\<close> inverts \<open>encrypt_str\<close> under the same key and associated
  data, for every 32-byte key, 12-byte random nonce and text.\<close>

theorem decrypt_str_encrypt_str:
  assumes "aead_laws P" and "length key = 32" and "length urandom = 12"
  shows "\<exists>ct nonce. encrypt_str P urandom text key ad = Inr (ct, nonce) \<and>
           decrypt_str P ct nonce key ad = Inr text"
  using assms
  by (simp add: encrypt_str_def decrypt_str_def KEY_SIZE_def NONCE_SIZE_def sym_encrypt_def
      sym_decrypt_def aead_lawsD [unfolded KEY_SIZE_def NONCE_SIZE_def])

theorem decrypt_str_encrypt_str_witness:
  "\<exists>ct nonce. encrypt_str demo_prims (replicate 12 7) ''hi'' (replicate 32 1) None = Inr (ct, nonce) \<and>
     decrypt_str demo_prims ct nonce (replicate 32 1) None = Inr ''hi''"
  by (rule decrypt_str_encrypt_str [OF demo_aead]) simp_all

end
