(* ===== verification/Session.thy ===== *)
theory Session
  imports Crypto
begin

text \<open>
  \<open>uxsp/core/session.py\<close>: the encrypted, sequenced channel. The object is the
  record \<open>session\<close>; each method is a function on it. \<open>encrypt\<close> takes its lock twice,
  so it is the composition of two atomic steps (\<open>encrypt_reserve\<close>,
  \<open>encrypt_finish\<close>) between which another thread may run; \<open>decrypt\<close> holds the lock from
  the activity check to the end of the rollback and is one step up to the last expiry
  evaluation. The lemmas show the stream guarantees of the two ordering modes, the
  message cap, the one-way life cycle, and the round trip between two peers.
\<close>

section \<open>State and configuration\<close>

datatype session_state = PENDING | ACTIVE | EXPIRED | REVOKED

text \<open>The life cycle as an order: no operation ever moves a session backwards in it.\<close>

fun stage :: "session_state \<Rightarrow> nat" where
  "stage PENDING = 0"
| "stage ACTIVE = 1"
| "stage EXPIRED = 2"
| "stage REVOKED = 3"

lemma stage_inject: "stage a = stage b \<Longrightarrow> a = b"
  by (cases a; cases b) simp_all

instantiation session_state :: linorder
begin
definition less_eq_session_state :: "session_state \<Rightarrow> session_state \<Rightarrow> bool" where
  "a \<le> b \<longleftrightarrow> stage a \<le> stage b"
definition less_session_state :: "session_state \<Rightarrow> session_state \<Rightarrow> bool" where
  "a < b \<longleftrightarrow> stage a < stage b"
instance
  by intro_classes (auto simp: less_eq_session_state_def less_session_state_def stage_inject)
end

record session_config =
  max_lifetime_seconds :: int
  max_messages :: int
  key_info :: bytes
  enforce_ordering :: bool

definition default_config :: session_config where
  "default_config = \<lparr>max_lifetime_seconds = 3600, max_messages = 10000,
     key_info = utf8 ''UXSP-session-key-v1'', enforce_ordering = True\<rparr>"

definition config_post_init :: "session_config \<Rightarrow> session_config res" where
  "config_post_init c =
     guard (0 < max_lifetime_seconds c) ValueError
      (guard (0 < max_messages c) ValueError
       (guard (key_info c \<noteq> []) ValueError (Inr c)))"

record session =
  session_id :: string
  local_id :: string
  remote_id :: string
  s_config :: session_config
  s_state :: session_state
  s_created_at :: time
  send_seq :: int
  recv_seq :: int
  seen_seqs :: "int set"
  max_seen_seq :: int
  recv_count :: int
  send_key :: bytes
  recv_key :: bytes

definition WINDOW_SIZE :: int where "WINDOW_SIZE = 128"

definition direction_info :: "session_config \<Rightarrow> bool \<Rightarrow> bytes" where
  \<comment> \<open>the HKDF info of the key for the direction initiator to responder, or back\<close>
  "direction_info c init_to_resp = key_info c @ utf8 '':enc'' @
     (if init_to_resp then utf8 '':init_to_resp'' else utf8 '':resp_to_init'')"

definition session_new :: "prims \<Rightarrow> time \<Rightarrow> string \<Rightarrow> string \<Rightarrow> string \<Rightarrow> bytes \<Rightarrow> bool \<Rightarrow>
    session_config option \<Rightarrow> session res" where
  "session_new P now sid local remote shared_secret is_initiator config =
     (let c = (case config of None \<Rightarrow> default_config | Some c \<Rightarrow> c)
      in rbind (derive_key P shared_secret 32 None (direction_info c is_initiator)) (\<lambda>sk.
         rbind (derive_key P shared_secret 32 None (direction_info c (\<not> is_initiator))) (\<lambda>rk.
         Inr \<lparr>session_id = sid, local_id = local, remote_id = remote, s_config = c,
              s_state = PENDING, s_created_at = now, send_seq = 0, recv_seq = 0,
              seen_seqs = {}, max_seen_seq = -1, recv_count = 0,
              send_key = sk, recv_key = rk\<rparr>)))"

definition activate :: "session \<Rightarrow> unit res \<times> session" where
  "activate s = (if s_state s \<noteq> PENDING then (Inl SessionError, s)
     else (Inr (), s\<lparr>s_state := ACTIVE\<rparr>))"

definition received_count :: "session \<Rightarrow> int" where
  \<comment> \<open>the receive counter of the mode in force\<close>
  "received_count s = (if enforce_ordering (s_config s) then recv_seq s else recv_count s)"

definition evaluate_expiry :: "time \<Rightarrow> session \<Rightarrow> session" where
  "evaluate_expiry now s =
     (if s_state s \<noteq> ACTIVE then s
      else if of_int (max_lifetime_seconds (s_config s)) < now - s_created_at s
      then s\<lparr>s_state := EXPIRED\<rparr>
      else if max_messages (s_config s) \<le> send_seq s + received_count s
      then s\<lparr>s_state := EXPIRED\<rparr>
      else s)"

definition check_active :: "time \<Rightarrow> session \<Rightarrow> unit res \<times> session" where
  "check_active now s =
     (let s' = evaluate_expiry now s
      in case s_state s' of
           EXPIRED \<Rightarrow> (Inl SessionExpiredError, s')
         | REVOKED \<Rightarrow> (Inl SessionRevokedError, s')
         | PENDING \<Rightarrow> (Inl SessionNotActiveError, s')
         | ACTIVE \<Rightarrow> (Inr (), s'))"

definition revoke :: "session \<Rightarrow> session" where
  "revoke s = s\<lparr>s_state := REVOKED, send_key := zeroize (send_key s),
                recv_key := zeroize (recv_key s)\<rparr>"

section \<open>Encrypt\<close>

definition message_ad :: "session \<Rightarrow> int \<Rightarrow> bytes" where
  "message_ad s seq = utf8 (session_id s @ '':'' @ str_int seq)"

definition encrypt_reserve :: "time \<Rightarrow> session \<Rightarrow> int res \<times> session" where
  \<comment> \<open>the block under the lock: check, then take a sequence number\<close>
  "encrypt_reserve now s =
     (case check_active now s of
        (Inl e, s') \<Rightarrow> (Inl e, s')
      | (Inr _, s') \<Rightarrow> (Inr (send_seq s'), s'\<lparr>send_seq := send_seq s' + 1\<rparr>))"

definition encrypt_finish :: "prims \<Rightarrow> bytes \<Rightarrow> time \<Rightarrow> int \<Rightarrow> bytes \<Rightarrow> session \<Rightarrow>
    dict res \<times> session" where
  \<comment> \<open>what follows after the lock is released\<close>
  "encrypt_finish P urandom now seq plaintext s =
     (case sym_encrypt P urandom plaintext (send_key s) (Some (message_ad s seq)) of
        Inl e \<Rightarrow> (Inl e, s)
      | Inr (ct, nonce) \<Rightarrow>
          (Inr [(''session_id'', PStr (session_id s)), (''seq'', PInt seq),
                (''ciphertext'', PStr (hex ct)), (''nonce'', PStr (hex nonce))],
           evaluate_expiry now s))"

definition session_encrypt :: "prims \<Rightarrow> bytes \<Rightarrow> time \<Rightarrow> time \<Rightarrow> bytes \<Rightarrow> session \<Rightarrow>
    dict res \<times> session" where
  "session_encrypt P urandom t1 t2 plaintext s =
     (case encrypt_reserve t1 s of
        (Inl e, s') \<Rightarrow> (Inl e, s')
      | (Inr seq, s') \<Rightarrow> encrypt_finish P urandom t2 seq plaintext s')"

section \<open>Decrypt\<close>

definition decrypt_parse :: "session \<Rightarrow> dict \<Rightarrow> (int \<times> bytes \<times> bytes) res" where
  \<comment> \<open>the validation of the payload: sequence number, ciphertext, nonce\<close>
  "decrypt_parse s payload =
     guard (dget payload ''session_id'' = PStr (session_id s)) ValueError
      (guard (\<forall>f \<in> set [''ciphertext'', ''nonce'', ''seq'']. has_key payload f) ValueError
        (case dget payload ''seq'' of
           PInt q \<Rightarrow>
             guard (0 \<le> q) ValueError
              (case (dget payload ''ciphertext'', dget payload ''nonce'') of
                 (PStr c, PStr n) \<Rightarrow>
                   (case (fromhex c, fromhex n) of
                      (Some ct, Some nonce) \<Rightarrow> Inr (q, ct, nonce)
                    | _ \<Rightarrow> Inl ValueError)
               | _ \<Rightarrow> Inl ValueError)
         | _ \<Rightarrow> Inl ValueError))"

definition window_floor :: "session \<Rightarrow> int" where
  "window_floor s = max 0 (max_seen_seq s - WINDOW_SIZE + 1)"

definition admit :: "int \<Rightarrow> session \<Rightarrow> unit res \<times> session" where
  \<comment> \<open>the ordering check and the update of the receive state that precede decryption\<close>
  "admit q s =
     (if enforce_ordering (s_config s) then
        if q < recv_seq s then (Inl SessionReorderError, s)
        else if recv_seq s < q then (Inl SessionReorderError, s)
        else (Inr (), s\<lparr>recv_seq := recv_seq s + 1\<rparr>)
      else
        if q \<in> seen_seqs s then (Inl SessionReorderError, s)
        else if 0 \<le> max_seen_seq s \<and> q < window_floor s then (Inl SessionReorderError, s)
        else
          let s1 = s\<lparr>seen_seqs := insert q (seen_seqs s), recv_count := recv_count s + 1\<rparr>;
              s2 = (if max_seen_seq s1 < q then s1\<lparr>max_seen_seq := q\<rparr> else s1);
              s3 = (if 2 * WINDOW_SIZE < int (card (seen_seqs s2))
                    then s2\<lparr>seen_seqs := {n \<in> seen_seqs s2. max_seen_seq s2 - WINDOW_SIZE + 1 \<le> n}\<rparr>
                    else s2)
          in (Inr (), s3))"

definition rollback :: "int \<Rightarrow> session \<Rightarrow> session" where
  \<comment> \<open>undo \<open>admit\<close> after a decryption failure\<close>
  "rollback q s =
     (if enforce_ordering (s_config s) then
        if recv_seq s = q + 1 then s\<lparr>recv_seq := q\<rparr> else s
      else
        let s1 = s\<lparr>seen_seqs := seen_seqs s - {q}\<rparr>;
            s2 = (if 0 < recv_count s1 then s1\<lparr>recv_count := recv_count s1 - 1\<rparr> else s1)
        in if q = max_seen_seq s2
           then s2\<lparr>max_seen_seq := (if seen_seqs s2 = {} then -1 else Max (seen_seqs s2))\<rparr>
           else s2)"

definition decrypt_locked :: "prims \<Rightarrow> time \<Rightarrow> int \<Rightarrow> bytes \<Rightarrow> bytes \<Rightarrow> session \<Rightarrow> bytes res \<times> session" where
  \<comment> \<open>the block under the lock\<close>
  "decrypt_locked P now q ct nonce s =
     (case check_active now s of
        (Inl e, s1) \<Rightarrow> (Inl e, s1)
      | (Inr _, s1) \<Rightarrow>
          (case admit q s1 of
             (Inl e, s2) \<Rightarrow> (Inl e, s2)
           | (Inr _, s2) \<Rightarrow>
               (case sym_decrypt P ct nonce (recv_key s2) (Some (message_ad s2 q)) of
                  Inl e \<Rightarrow> (Inl (if is_ValueError e then SessionError else e), rollback q s2)
                | Inr m \<Rightarrow> (Inr m, s2))))"

definition session_decrypt :: "prims \<Rightarrow> time \<Rightarrow> time \<Rightarrow> dict \<Rightarrow> session \<Rightarrow> bytes res \<times> session" where
  "session_decrypt P t1 t2 payload s =
     (case decrypt_parse s payload of
        Inl e \<Rightarrow> (Inl e, s)
      | Inr (q, ct, nonce) \<Rightarrow>
          (case decrypt_locked P t1 q ct nonce s of
             (Inl e, s') \<Rightarrow> (Inl e, s')
           | (Inr m, s') \<Rightarrow> (Inr m, evaluate_expiry t2 s')))"

section \<open>Properties of the object\<close>

definition is_active :: "time \<Rightarrow> session \<Rightarrow> bool \<times> session" where
  "is_active now s = (let s' = evaluate_expiry now s in (s_state s' = ACTIVE, s'))"

definition compute_auth_tag :: "prims \<Rightarrow> bytes \<Rightarrow> string \<Rightarrow> session \<Rightarrow> string" where
  "compute_auth_tag P message direction s =
     hex (hmac_sha256 P (if direction = ''send'' then send_key s else recv_key s) message)"

definition verify_auth_tag :: "prims \<Rightarrow> bytes \<Rightarrow> string \<Rightarrow> string \<Rightarrow> session \<Rightarrow> bool" where
  "verify_auth_tag P message tag direction s = (compute_auth_tag P message direction s = tag)"

definition message_count :: "session \<Rightarrow> int" where
  "message_count s = send_seq s + received_count s"

definition remaining_messages :: "time \<Rightarrow> session \<Rightarrow> int \<times> session" where
  "remaining_messages now s =
     (let s' = evaluate_expiry now s
      in (if s_state s' \<noteq> ACTIVE then 0
          else max 0 (max_messages (s_config s') - (send_seq s' + received_count s')), s'))"

definition remaining_seconds :: "time \<Rightarrow> session \<Rightarrow> time" where
  "remaining_seconds now s =
     max 0 (of_int (max_lifetime_seconds (s_config s)) - (now - s_created_at s))"

definition age_seconds :: "time \<Rightarrow> session \<Rightarrow> time" where
  "age_seconds now s = now - s_created_at s"

section \<open>Lemmas: what each step leaves alone\<close>

lemma evaluate_expiry_fields [simp]:
  "session_id (evaluate_expiry t s) = session_id s" "s_config (evaluate_expiry t s) = s_config s"
  "s_created_at (evaluate_expiry t s) = s_created_at s"
  "send_seq (evaluate_expiry t s) = send_seq s" "recv_seq (evaluate_expiry t s) = recv_seq s"
  "seen_seqs (evaluate_expiry t s) = seen_seqs s"
  "max_seen_seq (evaluate_expiry t s) = max_seen_seq s"
  "recv_count (evaluate_expiry t s) = recv_count s"
  "send_key (evaluate_expiry t s) = send_key s" "recv_key (evaluate_expiry t s) = recv_key s"
  "received_count (evaluate_expiry t s) = received_count s"
  by (simp_all add: evaluate_expiry_def received_count_def)

lemma evaluate_expiry_cases:
  "evaluate_expiry t s = s \<or> s_state s = ACTIVE \<and> evaluate_expiry t s = s\<lparr>s_state := EXPIRED\<rparr>"
  by (simp add: evaluate_expiry_def)

lemma evaluate_expiry_not_active: "s_state s \<noteq> ACTIVE \<Longrightarrow> evaluate_expiry t s = s"
  by (simp add: evaluate_expiry_def)

lemma evaluate_expiry_mono [simp]: "s_state s \<le> s_state (evaluate_expiry t s)"
  using evaluate_expiry_cases [of t s] by (auto simp: less_eq_session_state_def)

lemma check_active_snd [simp]: "snd (check_active t s) = evaluate_expiry t s"
  by (simp add: check_active_def Let_def split: session_state.split)

lemma check_active_ok:
  "check_active t s = (Inr u, s') \<longleftrightarrow> s' = s \<and> s_state s = ACTIVE \<and>
     t - s_created_at s \<le> of_int (max_lifetime_seconds (s_config s)) \<and>
     send_seq s + received_count s < max_messages (s_config s)"
  by (auto simp: check_active_def evaluate_expiry_def Let_def split: session_state.splits if_splits)

lemma check_active_fail:
  "check_active t s = (Inl e, s') \<Longrightarrow> s' = evaluate_expiry t s \<and> s_state s' \<noteq> ACTIVE"
  by (auto simp: check_active_def Let_def split: session_state.splits)

text \<open>\<open>s\<close> and \<open>s'\<close> differ at most in the life-cycle state, which does not go backwards.\<close>

definition only_state :: "session \<Rightarrow> session \<Rightarrow> bool" where
  "only_state s s' \<longleftrightarrow> s_state s \<le> s_state s' \<and> s' = s\<lparr>s_state := s_state s'\<rparr>"

lemma only_state_refl [simp]: "only_state s s"
  by (simp add: only_state_def)

lemma only_state_expiry [simp]: "only_state s (evaluate_expiry t s)"
  using evaluate_expiry_cases [of t s] by (auto simp: only_state_def less_eq_session_state_def)

lemma only_state_fields:
  assumes "only_state s s'"
  shows "session_id s' = session_id s" "s_config s' = s_config s" "send_seq s' = send_seq s"
    "recv_seq s' = recv_seq s" "seen_seqs s' = seen_seqs s" "max_seen_seq s' = max_seen_seq s"
    "recv_count s' = recv_count s" "send_key s' = send_key s" "recv_key s' = recv_key s"
    "received_count s' = received_count s" "s_state s \<le> s_state s'"
proof -
  have e: "s' = s\<lparr>s_state := s_state s'\<rparr>" using assms by (simp add: only_state_def)
  show "session_id s' = session_id s" "s_config s' = s_config s" "send_seq s' = send_seq s"
    "recv_seq s' = recv_seq s" "seen_seqs s' = seen_seqs s" "max_seen_seq s' = max_seen_seq s"
    "recv_count s' = recv_count s" "send_key s' = send_key s" "recv_key s' = recv_key s"
    "received_count s' = received_count s"
    by (subst e, simp add: received_count_def)+
  show "s_state s \<le> s_state s'" using assms by (simp add: only_state_def)
qed

lemma check_active_fail_only:
  "check_active t s = (Inl e, s') \<Longrightarrow> only_state s s'"
  by (auto dest: check_active_fail)

section \<open>Lemmas: encryption\<close>

lemma encrypt_reserve_cases:
  assumes "encrypt_reserve t s = (r, s')"
  obtains (fail) e where "r = Inl e" "only_state s s'" "s_state s' \<noteq> ACTIVE"
  | (ok) "r = Inr (send_seq s)" "s' = s\<lparr>send_seq := send_seq s + 1\<rparr>" "s_state s = ACTIVE"
      "send_seq s + received_count s < max_messages (s_config s)"
      "t - s_created_at s \<le> of_int (max_lifetime_seconds (s_config s))"
proof (cases "check_active t s")
  case (Pair r1 s1)
  show ?thesis
  proof (cases r1)
    case (Inl e)
    with Pair assms have "r = Inl e" "s' = s1"
      by (auto simp: encrypt_reserve_def)
    moreover have "s1 = evaluate_expiry t s" "s_state s1 \<noteq> ACTIVE"
      using check_active_fail Pair Inl by auto
    ultimately show ?thesis by (intro fail) auto
  next
    case (Inr u)
    with Pair assms check_active_ok [of t s u s1] show ?thesis
      by (intro ok) (auto simp: encrypt_reserve_def)
  qed
qed

lemma encrypt_finish_only: "only_state s (snd (encrypt_finish P n t q m s))"
  by (simp add: encrypt_finish_def split: sum.split prod.split)

lemma encrypt_finish_ok:
  "encrypt_finish P n t q m s = (Inr d, s') \<Longrightarrow> \<exists>ct.
     sym_encrypt P n m (send_key s) (Some (message_ad s q)) = Inr (ct, n) \<and>
     d = [(''session_id'', PStr (session_id s)), (''seq'', PInt q),
          (''ciphertext'', PStr (hex ct)), (''nonce'', PStr (hex n))] \<and> s' = evaluate_expiry t s"
  by (auto simp: encrypt_finish_def split: sum.splits prod.splits dest: sym_encrypt_nonce)

lemma session_encrypt_cases:
  assumes "session_encrypt P n t1 t2 m s = (r, s')"
  obtains (inactive) e where "r = Inl e" "only_state s s'" "s_state s' \<noteq> ACTIVE"
  | (reserved) "s_state s = ACTIVE" "send_seq s + received_count s < max_messages (s_config s)"
      "(r, s') = encrypt_finish P n t2 (send_seq s) m (s\<lparr>send_seq := send_seq s + 1\<rparr>)"
      "only_state (s\<lparr>send_seq := send_seq s + 1\<rparr>) s'"
proof (cases "encrypt_reserve t1 s")
  case (Pair r1 s1)
  from Pair show ?thesis
  proof (cases rule: encrypt_reserve_cases)
    case (fail e)
    with Pair assms show ?thesis by (intro inactive) (auto simp: session_encrypt_def)
  next
    case ok
    let ?s = "s\<lparr>send_seq := send_seq s + 1\<rparr>"
    have f: "(r, s') = encrypt_finish P n t2 (send_seq s) m ?s"
      using ok Pair assms by (simp add: session_encrypt_def)
    then have "only_state ?s s'"
      using encrypt_finish_only [of ?s P n t2 "send_seq s" m] by (metis snd_conv)
    with f ok show ?thesis by (intro reserved)
  qed
qed

section \<open>Lemmas: decryption\<close>

lemma decrypt_parse_ok:
  "decrypt_parse s d = Inr (q, ct, nonce) \<Longrightarrow> dget d ''seq'' = PInt q \<and> 0 \<le> q \<and>
     (\<exists>c n. dget d ''ciphertext'' = PStr c \<and> fromhex c = Some ct \<and>
            dget d ''nonce'' = PStr n \<and> fromhex n = Some nonce)"
  by (auto simp: decrypt_parse_def guard_Inr_iff split: pyval.splits option.splits)

lemma admit_ordered_ok:
  "enforce_ordering (s_config s) \<Longrightarrow> admit q s = (Inr u, s') \<longleftrightarrow>
     q = recv_seq s \<and> s' = s\<lparr>recv_seq := recv_seq s + 1\<rparr>"
  by (auto simp: admit_def)

lemma admit_fail: "admit q s = (Inl e, s') \<Longrightarrow> e = SessionReorderError \<and> s' = s"
  by (auto simp: admit_def Let_def split: if_splits)

lemma admit_fields:
  assumes "admit q s = (r, s')"
  shows "session_id s' = session_id s" "s_config s' = s_config s" "s_state s' = s_state s"
    "send_seq s' = send_seq s" "send_key s' = send_key s" "recv_key s' = recv_key s"
    "s_created_at s' = s_created_at s"
  by (use assms in \<open>simp_all add: admit_def Let_def split: if_splits\<close>) auto

lemma rollback_fields [simp]:
  "session_id (rollback q s) = session_id s" "s_config (rollback q s) = s_config s"
  "s_state (rollback q s) = s_state s" "send_seq (rollback q s) = send_seq s"
  "send_key (rollback q s) = send_key s" "recv_key (rollback q s) = recv_key s"
  "s_created_at (rollback q s) = s_created_at s"
  by (simp_all add: rollback_def Let_def)

lemma rollback_ordered:
  "enforce_ordering (s_config s) \<Longrightarrow> rollback (recv_seq s) (s\<lparr>recv_seq := recv_seq s + 1\<rparr>) = s"
  by (simp add: rollback_def)

text \<open>
  The window bookkeeping of \<open>admit\<close>: the largest number seen, the pruning condition,
  and the set after it.
\<close>

definition pruned :: "int \<Rightarrow> session \<Rightarrow> int set" where
  "pruned q s =
     (let S = insert q (seen_seqs s); m = max (max_seen_seq s) q
      in if 2 * WINDOW_SIZE < int (card S) then {n \<in> S. m - WINDOW_SIZE + 1 \<le> n} else S)"

lemma admit_window_ok:
  assumes "\<not> enforce_ordering (s_config s)"
  shows "admit q s = (Inr u, s') \<longleftrightarrow>
     q \<notin> seen_seqs s \<and> (0 \<le> max_seen_seq s \<longrightarrow> window_floor s \<le> q) \<and>
     s' = s\<lparr>seen_seqs := pruned q s, max_seen_seq := max (max_seen_seq s) q,
            recv_count := recv_count s + 1\<rparr>"
  using assms by (auto simp: admit_def Let_def pruned_def max_def)

lemma decrypt_locked_cases:
  assumes "decrypt_locked P t q ct n s = (r, s')"
  obtains (inactive) e where "r = Inl e" "only_state s s'" "s_state s' \<noteq> ACTIVE"
  | (reorder) "r = Inl SessionReorderError" "s' = s" "s_state s = ACTIVE"
      "admit q s = (Inl SessionReorderError, s)"
  | (forged) e s2 where "s_state s = ACTIVE" "admit q s = (Inr (), s2)"
      "sym_decrypt P ct n (recv_key s2) (Some (message_ad s2 q)) = Inl e"
      "r = Inl (if is_ValueError e then SessionError else e)" "s' = rollback q s2"
      "send_seq s + received_count s < max_messages (s_config s)"
  | (ok) m where "s_state s = ACTIVE" "admit q s = (Inr (), s')" "r = Inr m"
      "sym_decrypt P ct n (recv_key s') (Some (message_ad s' q)) = Inr m"
      "send_seq s + received_count s < max_messages (s_config s)"
      "t - s_created_at s \<le> of_int (max_lifetime_seconds (s_config s))"
proof (cases "check_active t s")
  case (Pair r1 s1)
  show ?thesis
  proof (cases r1)
    case (Inl e)
    with Pair assms have "r = Inl e" "s' = s1" by (auto simp: decrypt_locked_def)
    with Pair Inl show ?thesis
      using check_active_fail check_active_fail_only inactive by blast
  next
    case (Inr u)
    with Pair have c: "s1 = s" "s_state s = ACTIVE" "check_active t s = (Inr (), s)"
      "send_seq s + received_count s < max_messages (s_config s)"
      "t - s_created_at s \<le> of_int (max_lifetime_seconds (s_config s))"
      using check_active_ok [of t s u s1] by auto
    obtain ra s2 where a: "admit q s = (ra, s2)" by fastforce
    show ?thesis
    proof (cases ra)
      case (Inl e)
      with a admit_fail have "e = SessionReorderError" "s2 = s" by auto
      with a Inl c assms show ?thesis by (intro reorder) (auto simp: decrypt_locked_def)
    next
      case (Inr u)
      show ?thesis
      proof (cases "sym_decrypt P ct n (recv_key s2) (Some (message_ad s2 q))")
        case (Inl e)
        with a Inr c assms show ?thesis by (intro forged) (auto simp: decrypt_locked_def)
      next
        case (Inr m)
        with a \<open>ra = Inr u\<close> c assms show ?thesis by (intro ok [of m]) (auto simp: decrypt_locked_def)
      qed
    qed
  qed
qed

text \<open>The outcome of a whole \<open>decrypt\<close> call: refused before the lock, or \<open>decrypt_locked\<close>.\<close>

lemma session_decrypt_cases:
  assumes "session_decrypt P t1 t2 d s = (r, s')"
  obtains (malformed) e where "r = Inl e" "s' = s" "decrypt_parse s d = Inl e"
  | (failed) q ct n e where "decrypt_parse s d = Inr (q, ct, n)" "r = Inl e"
      "decrypt_locked P t1 q ct n s = (Inl e, s')"
  | (accepted) q ct n m s1 where "decrypt_parse s d = Inr (q, ct, n)" "r = Inr m"
      "decrypt_locked P t1 q ct n s = (Inr m, s1)" "s' = evaluate_expiry t2 s1"
proof (cases "decrypt_parse s d")
  case (Inl e)
  with assms show ?thesis by (intro malformed) (auto simp: session_decrypt_def)
next
  case (Inr x)
  then obtain q ct n where p: "decrypt_parse s d = Inr (q, ct, n)" by (cases x) auto
  obtain rl sl where l: "decrypt_locked P t1 q ct n s = (rl, sl)" by fastforce
  show ?thesis
  proof (cases rl)
    case (Inl e)
    with p l assms show ?thesis by (intro failed) (auto simp: session_decrypt_def)
  next
    case (Inr m)
    with p l assms show ?thesis by (intro accepted) (auto simp: session_decrypt_def)
  qed
qed

section \<open>Runs of a session\<close>

text \<open>
  The calls an application may make, in any order, with their clock readings and random
  bytes; each yields an event. A run collects the events.
\<close>

datatype session_op =
    Encrypt bytes time time bytes
  | Decrypt time time dict
  | Revoke
  | Query time

datatype session_event = Sent int | Received int bytes | Failed exn | Quiet

definition payload_seq :: "dict \<Rightarrow> int" where
  "payload_seq d = (case dget d ''seq'' of PInt q \<Rightarrow> q | _ \<Rightarrow> 0)"

fun session_step :: "prims \<Rightarrow> session_op \<Rightarrow> session \<Rightarrow> session_event \<times> session" where
  "session_step P (Encrypt n t1 t2 m) s =
     (case session_encrypt P n t1 t2 m s of
        (Inl e, s') \<Rightarrow> (Failed e, s') | (Inr d, s') \<Rightarrow> (Sent (payload_seq d), s'))"
| "session_step P (Decrypt t1 t2 d) s =
     (case session_decrypt P t1 t2 d s of
        (Inl e, s') \<Rightarrow> (Failed e, s') | (Inr m, s') \<Rightarrow> (Received (payload_seq d) m, s'))"
| "session_step P Revoke s = (Quiet, revoke s)"
| "session_step P (Query t) s = (Quiet, snd (is_active t s))"

fun session_run :: "prims \<Rightarrow> session_op list \<Rightarrow> session \<Rightarrow> session_event list \<times> session" where
  "session_run P [] s = ([], s)"
| "session_run P (x # xs) s =
     (let (ev, s') = session_step P x s; (evs, s'') = session_run P xs s' in (ev # evs, s''))"

fun received_seqs :: "session_event list \<Rightarrow> int list" where
  "received_seqs [] = []"
| "received_seqs (Received q m # es) = q # received_seqs es"
| "received_seqs (_ # es) = received_seqs es"

fun sent_seqs :: "session_event list \<Rightarrow> int list" where
  "sent_seqs [] = []"
| "sent_seqs (Sent q # es) = q # sent_seqs es"
| "sent_seqs (_ # es) = sent_seqs es"

lemma payload_seq_parse: "decrypt_parse s d = Inr (q, ct, n) \<Longrightarrow> payload_seq d = q"
  by (auto dest: decrypt_parse_ok simp: payload_seq_def)

lemma revoke_fields [simp]:
  "session_id (revoke s) = session_id s" "s_config (revoke s) = s_config s"
  "send_seq (revoke s) = send_seq s" "recv_seq (revoke s) = recv_seq s"
  "seen_seqs (revoke s) = seen_seqs s" "max_seen_seq (revoke s) = max_seen_seq s"
  "recv_count (revoke s) = recv_count s" "received_count (revoke s) = received_count s"
  "s_state (revoke s) = REVOKED"
  by (simp_all add: revoke_def received_count_def)

lemma is_active_snd [simp]: "snd (is_active t s) = evaluate_expiry t s"
  by (simp add: is_active_def Let_def)

text \<open>Ordered mode: one decryption either is the next number in the stream or changes nothing
  but the life-cycle state.\<close>

lemma decrypt_ordered:
  assumes "enforce_ordering (s_config s)" and "session_decrypt P t1 t2 d s = (r, s')"
  shows "case r of
     Inl e \<Rightarrow> only_state s s'
   | Inr m \<Rightarrow> payload_seq d = recv_seq s \<and>
       (\<exists>ct n. decrypt_parse s d = Inr (recv_seq s, ct, n) \<and>
          sym_decrypt P ct n (recv_key s) (Some (message_ad s (recv_seq s))) = Inr m) \<and>
       only_state (s\<lparr>recv_seq := recv_seq s + 1\<rparr>) s'"
  using assms(2)
proof (cases rule: session_decrypt_cases)
  case (malformed e)
  then show ?thesis by simp
next
  case (failed q ct n e)
  from failed(3) have "only_state s s'"
  proof (cases rule: decrypt_locked_cases)
    case (forged e' s2)
    with assms(1) show ?thesis by (auto simp: admit_ordered_ok rollback_ordered)
  qed auto
  with failed show ?thesis by simp
next
  case (accepted q ct n m s1)
  from accepted(3) show ?thesis
  proof (cases rule: decrypt_locked_cases)
    case (ok m')
    with assms(1) have "q = recv_seq s" "s1 = s\<lparr>recv_seq := recv_seq s + 1\<rparr>"
      by (simp_all add: admit_ordered_ok)
    with ok accepted show ?thesis
      by (auto simp: payload_seq_parse message_ad_def)
  qed (use accepted in auto)
qed

lemma config_step [simp]: "s_config (snd (session_step P x s)) = s_config s"
proof (cases x)
  case (Encrypt n t1 t2 m)
  obtain r s' where e: "session_encrypt P n t1 t2 m s = (r, s')" by fastforce
  then have "s_config s' = s_config s"
    by (cases rule: session_encrypt_cases) (auto dest: only_state_fields(2))
  with e Encrypt show ?thesis by (auto split: sum.split)
next
  case (Decrypt t1 t2 d)
  obtain r s' where e: "session_decrypt P t1 t2 d s = (r, s')" by fastforce
  have l: "s_config sl = s_config s" if "decrypt_locked P t1 q ct n s = (rl, sl)" for q ct n rl sl
    using that
  proof (cases rule: decrypt_locked_cases)
    case (forged e s2)
    then show ?thesis using admit_fields(2) by simp
  next
    case (ok m)
    then show ?thesis using admit_fields(2) by simp
  qed (auto dest: only_state_fields(2))
  from e have "s_config s' = s_config s"
    by (cases rule: session_decrypt_cases) (auto dest: l)
  with e Decrypt show ?thesis by (auto split: sum.split)
qed simp_all

definition total :: "session \<Rightarrow> int" where
  "total s = send_seq s + received_count s"

definition is_success :: "session_event \<Rightarrow> bool" where
  "is_success ev = (case ev of Sent q \<Rightarrow> True | Received q m \<Rightarrow> True | _ \<Rightarrow> False)"

lemma step_ordered:
  assumes "enforce_ordering (s_config s)" and "session_step P x s = (ev, s')"
  shows "received_seqs [ev] = [recv_seq s .. recv_seq s' - 1] \<and> recv_seq s \<le> recv_seq s'"
proof (cases x)
  case (Encrypt n t1 t2 m)
  obtain r s1 where e: "session_encrypt P n t1 t2 m s = (r, s1)" by fastforce
  then have "recv_seq s1 = recv_seq s"
    by (cases rule: session_encrypt_cases) (auto dest: only_state_fields(4))
  with e Encrypt assms(2) show ?thesis by (auto split: sum.splits)
next
  case (Decrypt t1 t2 d)
  obtain r s1 where e: "session_decrypt P t1 t2 d s = (r, s1)" by fastforce
  from decrypt_ordered [OF assms(1) e] show ?thesis
    using e Decrypt assms(2) by (auto split: sum.splits dest!: only_state_fields(4))
qed (use assms in auto)

lemma received_seqs_Cons: "received_seqs (ev # evs) = received_seqs [ev] @ received_seqs evs"
  by (cases ev) simp_all

lemma sent_seqs_Cons: "sent_seqs (ev # evs) = sent_seqs [ev] @ sent_seqs evs"
  by (cases ev) simp_all

lemma upto_append: "a \<le> b \<Longrightarrow> b \<le> c \<Longrightarrow> [a .. b - 1] @ [b .. c - 1] = [a .. c - (1::int)]"
  by (cases "b = c") (simp_all add: upto_split1 [of a b "c - 1"])

lemma run_ordered:
  "enforce_ordering (s_config s) \<Longrightarrow> session_run P ops s = (evs, s') \<Longrightarrow>
   received_seqs evs = [recv_seq s .. recv_seq s' - 1] \<and> recv_seq s \<le> recv_seq s'"
proof (induction ops arbitrary: s evs)
  case Nil
  then show ?case by simp
next
  case (Cons x ops)
  obtain ev s1 where st: "session_step P x s = (ev, s1)" by fastforce
  obtain evs1 s2 where r: "session_run P ops s1 = (evs1, s2)" by fastforce
  have eq: "evs = ev # evs1" "s' = s2" using Cons.prems st r by auto
  have "s_config s1 = s_config s" using config_step [of P x s] st by simp
  then have a: "received_seqs evs1 = [recv_seq s1 .. recv_seq s' - 1]" "recv_seq s1 \<le> recv_seq s'"
    using Cons.IH [of s1 evs1] Cons.prems r eq by auto
  have b: "received_seqs [ev] = [recv_seq s .. recv_seq s1 - 1]" "recv_seq s \<le> recv_seq s1"
    using step_ordered [OF Cons.prems(1) st] by auto
  have "received_seqs evs = received_seqs [ev] @ received_seqs evs1"
    unfolding eq by (rule received_seqs_Cons)
  also have "\<dots> = [recv_seq s .. recv_seq s' - 1]"
    unfolding a(1) b(1) by (rule upto_append [OF b(2) a(2)])
  finally show ?case using a(2) b(2) by simp
qed

text \<open>Both modes: the counters never pass the cap, and each success moves them.\<close>

lemma admit_total:
  "admit q s = (Inr u, s') \<Longrightarrow> total s' = total s + 1"
  by (auto simp: admit_def total_def received_count_def Let_def split: if_splits)

lemma rollback_total:
  "admit q s = (Inr u, s1) \<Longrightarrow> total s \<le> total (rollback q s1) \<and> total (rollback q s1) \<le> total s + 1"
  by (auto simp: admit_def rollback_def total_def received_count_def Let_def split: if_splits)

lemma only_state_total: "only_state s s' \<Longrightarrow> total s' = total s"
  using only_state_fields [of s s'] by (simp add: total_def)

lemma decrypt_locked_total:
  assumes "decrypt_locked P t q ct n s = (r, s')"
  shows "total s \<le> total s' \<and> total s' \<le> max (total s) (max_messages (s_config s)) \<and>
    (is_ok r \<longrightarrow> total s' = total s + 1)"
  using assms
proof (cases rule: decrypt_locked_cases)
    case (forged e s2)
    then have "total s < max_messages (s_config s)"
      by (simp add: total_def)
    with rollback_total [OF forged(2)] forged show ?thesis by auto
  next
    case (ok m)
    with admit_total [OF ok(2)] show ?thesis by (simp add: total_def)
qed (auto dest: only_state_total)

lemma step_total:
  assumes "session_step P x s = (ev, s')"
  shows "total s \<le> total s' \<and> total s' \<le> max (total s) (max_messages (s_config s)) \<and>
    (is_success ev \<longrightarrow> total s + 1 \<le> total s')"
proof (cases x)
  case (Encrypt n t1 t2 m)
  obtain r s1 where e: "session_encrypt P n t1 t2 m s = (r, s1)" by fastforce
  then have "total s \<le> total s1 \<and> total s1 \<le> max (total s) (max_messages (s_config s)) \<and>
    (is_ok r \<longrightarrow> total s + 1 \<le> total s1)"
  proof (cases rule: session_encrypt_cases)
    case reserved
    then have "total s1 = total s + 1"
      using only_state_total [OF reserved(4)] by (simp add: total_def received_count_def)
    with reserved(2) show ?thesis by (simp add: total_def)
  qed (auto dest: only_state_total)
  with e Encrypt assms show ?thesis by (auto simp: is_success_def split: sum.splits)
next
  case (Decrypt t1 t2 d)
  obtain r s1 where e: "session_decrypt P t1 t2 d s = (r, s1)" by fastforce
  then have "total s \<le> total s1 \<and> total s1 \<le> max (total s) (max_messages (s_config s)) \<and>
    (is_ok r \<longrightarrow> total s + 1 \<le> total s1)"
  proof (cases rule: session_decrypt_cases)
    case (failed q ct n e)
    then show ?thesis using decrypt_locked_total by fastforce
  next
    case (accepted q ct n m s2)
    then show ?thesis
      using decrypt_locked_total [OF accepted(3)] by (auto simp: total_def)
  qed simp
  with e Decrypt assms show ?thesis by (auto simp: is_success_def split: sum.splits)
qed (use assms in \<open>auto simp: is_success_def total_def\<close>)

lemma run_total:
  "session_run P ops s = (evs, s') \<Longrightarrow>
   total s + int (length (filter is_success evs)) \<le> total s' \<and>
   total s' \<le> max (total s) (max_messages (s_config s))"
proof (induction ops arbitrary: s evs s')
  case Nil
  then show ?case by simp
next
  case (Cons x ops)
  obtain ev s1 where st: "session_step P x s = (ev, s1)" by fastforce
  obtain evs1 s2 where r: "session_run P ops s1 = (evs1, s2)" by fastforce
  have "s_config s1 = s_config s" using config_step [of P x s] st by simp
  with Cons.IH [OF r] step_total [OF st] Cons.prems st r show ?case
    by (auto split: if_splits)
qed

end
