(* ===== verification/SessionGuarantees.thy ===== *)
theory SessionGuarantees
  imports Session
begin

text \<open>
  The guarantees of \<open>uxsp/core/session.py\<close> over whole runs: the ordered stream, the
  sliding window and its limit, the message cap, termination of a revoked session, the
  round trip between two peers, and the race between \<open>encrypt\<close> and \<open>revoke\<close>.
\<close>

section \<open>The sliding window\<close>

text \<open>
  The invariant of the unordered mode, for the set \<open>A\<close> of numbers accepted so far: each
  is remembered or lies below the window.
\<close>

definition max_ok :: "int set \<Rightarrow> int \<Rightarrow> bool" where
  \<comment> \<open>\<open>max_seen_seq\<close> is the largest remembered number, -1 when there is none\<close>
  "max_ok S m \<longleftrightarrow> (if S = {} then m = -1 else m \<in> S \<and> (\<forall>x \<in> S. x \<le> m))"

definition win_inv :: "int set \<Rightarrow> session \<Rightarrow> bool" where
  "win_inv A s \<longleftrightarrow> \<not> enforce_ordering (s_config s) \<and> finite (seen_seqs s) \<and>
     (\<forall>q \<in> seen_seqs s. 0 \<le> q) \<and> (\<forall>q \<in> A. 0 \<le> q) \<and> 0 \<le> recv_count s \<and>
     max_ok (seen_seqs s) (max_seen_seq s) \<and>
     (\<forall>q \<in> A. q \<in> seen_seqs s \<or> q < max_seen_seq s - WINDOW_SIZE + 1)"

definition prune_safe :: "session \<Rightarrow> int \<Rightarrow> bool" where
  \<comment> \<open>accepting \<open>q\<close> does not prune the set on the strength of \<open>q\<close> itself\<close>
  "prune_safe s q \<longleftrightarrow> int (card (seen_seqs s)) < 2 * WINDOW_SIZE \<or> q \<le> max_seen_seq s"

fun forgery_safe :: "prims \<Rightarrow> session_op list \<Rightarrow> session \<Rightarrow> bool" where
  \<comment> \<open>every decryption that fails happens in a \<open>prune_safe\<close> state\<close>
  "forgery_safe P [] s = True"
| "forgery_safe P (x # xs) s =
     ((case x of
         Decrypt t1 t2 d \<Rightarrow> is_ok (fst (session_decrypt P t1 t2 d s)) \<or> prune_safe s (payload_seq d)
       | _ \<Rightarrow> True)
      \<and> forgery_safe P xs (snd (session_step P x s)))"

lemma win_inv_only_state: "only_state s s' \<Longrightarrow> win_inv A s \<Longrightarrow> win_inv A s'"
  by (simp add: win_inv_def only_state_fields)

lemma max_ok_Max: "finite S \<Longrightarrow> max_ok S (if S = {} then -1 else Max S)"
  by (simp add: max_ok_def)

lemma max_ok_unique: "max_ok S m \<Longrightarrow> max_ok S m' \<Longrightarrow> m = m'"
  by (auto simp: max_ok_def split: if_splits intro: antisym)

lemma win_inv_max: "win_inv A s \<Longrightarrow> q \<in> seen_seqs s \<Longrightarrow> q \<le> max_seen_seq s"
  by (auto simp: win_inv_def max_ok_def split: if_splits)

lemma win_inv_max_mem: "win_inv A s \<Longrightarrow> seen_seqs s \<noteq> {} \<Longrightarrow> max_seen_seq s \<in> seen_seqs s"
  by (auto simp: win_inv_def max_ok_def)

lemma win_inv_empty: "win_inv A s \<Longrightarrow> seen_seqs s = {} \<Longrightarrow> max_seen_seq s = -1"
  by (auto simp: win_inv_def max_ok_def)

lemma window_fresh:
  assumes "win_inv A s" and "admit q s = (Inr u, s')" and "0 \<le> q"
  shows "q \<notin> A"
proof
  assume "q \<in> A"
  have a: "q \<notin> seen_seqs s" "0 \<le> max_seen_seq s \<Longrightarrow> window_floor s \<le> q"
    using assms by (auto simp: admit_window_ok win_inv_def)
  with \<open>q \<in> A\<close> assms(1) have "q < max_seen_seq s - WINDOW_SIZE + 1"
    by (auto simp: win_inv_def)
  with a(2) assms(3) show False by (auto simp: window_floor_def WINDOW_SIZE_def)
qed

lemma pruned_mem:
  assumes "win_inv A s" and "x \<in> insert q (seen_seqs s)"
  shows "x \<in> pruned q s \<or> x < max (max_seen_seq s) q - WINDOW_SIZE + 1"
  using assms by (auto simp: pruned_def Let_def)

lemma pruned_sub: "pruned q s \<subseteq> insert q (seen_seqs s)"
  by (auto simp: pruned_def Let_def)

lemma pruned_max_ok:
  assumes "win_inv A s" and "0 \<le> q"
  shows "max_ok (pruned q s) (max (max_seen_seq s) q)"
proof -
  let ?m = "max (max_seen_seq s) q"
  have "?m \<in> insert q (seen_seqs s)"
    using assms(2) win_inv_max_mem [OF assms(1)] win_inv_empty [OF assms(1)]
    by (cases "seen_seqs s = {}") (simp_all add: max_def)
  then have "?m \<in> pruned q s"
    by (simp add: pruned_def Let_def WINDOW_SIZE_def)
  moreover have "\<forall>x \<in> pruned q s. x \<le> ?m"
    using win_inv_max [OF assms(1)] pruned_sub [of q s] by (force simp: le_max_iff_disj)
  ultimately show ?thesis by (auto simp: max_ok_def)
qed

lemma pruned_finite: "win_inv A s \<Longrightarrow> finite (pruned q s)"
  by (simp add: win_inv_def pruned_def Let_def)

lemma window_accept:
  assumes "win_inv A s" and "admit q s = (Inr u, s')" and "0 \<le> q"
  shows "win_inv (insert q A) s'"
proof -
  have ord: "\<not> enforce_ordering (s_config s)" using assms(1) by (simp add: win_inv_def)
  have s': "s' = s\<lparr>seen_seqs := pruned q s, max_seen_seq := max (max_seen_seq s) q,
      recv_count := recv_count s + 1\<rparr>" and fl: "0 \<le> max_seen_seq s \<Longrightarrow> window_floor s \<le> q"
    using assms(2) by (auto simp: admit_window_ok [OF ord])
  note pruned_finite [OF assms(1), of q]
  moreover have "\<forall>x \<in> pruned q s. 0 \<le> x"
    using assms pruned_sub by (fastforce simp: win_inv_def)
  moreover have "x \<in> pruned q s \<or> x < max (max_seen_seq s) q - WINDOW_SIZE + 1"
    if "x \<in> insert q A" for x
    using that assms(1) pruned_mem [OF assms(1), of x q] by (auto simp: win_inv_def)
  ultimately show ?thesis
    using assms(1,3) pruned_max_ok [OF assms(1,3)] by (auto simp: win_inv_def s')
qed

lemma window_rollback:
  assumes "win_inv A s" and "admit q s = (Inr u, s2)" and "0 \<le> q" and "prune_safe s q"
  shows "win_inv A (rollback q s2)"
proof -
  have ord: "\<not> enforce_ordering (s_config s)" and fin: "finite (seen_seqs s)"
    using assms(1) by (simp_all add: win_inv_def)
  have s2: "s2 = s\<lparr>seen_seqs := pruned q s, max_seen_seq := max (max_seen_seq s) q,
      recv_count := recv_count s + 1\<rparr>" and new: "q \<notin> seen_seqs s"
    using assms(2) by (auto simp: admit_window_ok [OF ord])
  have c: "0 \<le> recv_count s" using assms(1) by (simp add: win_inv_def)
  show ?thesis
  proof (cases "q \<le> max_seen_seq s")
    case True
    then have ne: "seen_seqs s \<noteq> {}" using assms(3) win_inv_empty [OF assms(1)] by auto
    with win_inv_max_mem [OF assms(1)] have mm: "max_seen_seq s \<in> seen_seqs s" by blast
    with new True have lt: "q < max_seen_seq s" by (metis order_le_less)
    have mp: "max_seen_seq s \<in> pruned q s - {q}"
      using mm lt by (auto simp: pruned_def Let_def WINDOW_SIZE_def)
    have r: "rollback q s2 = s\<lparr>seen_seqs := pruned q s - {q}\<rparr>"
      using ord lt c by (simp add: rollback_def s2 Let_def max_def)
    have sub: "pruned q s - {q} \<subseteq> seen_seqs s" using pruned_sub [of q s] by blast
    have "max_ok (pruned q s - {q}) (max_seen_seq s)"
      using mp sub win_inv_max [OF assms(1)] by (auto simp: max_ok_def)
    moreover have "x \<in> pruned q s - {q} \<or> x < max_seen_seq s - WINDOW_SIZE + 1" if "x \<in> A" for x
      using that assms(1) pruned_mem [OF assms(1), of x q] new True
      by (auto simp: win_inv_def max_def)
    ultimately show ?thesis
      using assms(1) sub finite_subset [OF sub fin] by (auto simp: r win_inv_def)
  next
    case False
    then have "\<not> 2 * WINDOW_SIZE < int (card (insert q (seen_seqs s)))"
      using assms(4) fin new by (simp add: prune_safe_def)
    then have "pruned q s = insert q (seen_seqs s)" by (simp add: pruned_def Let_def)
    moreover have "max_seen_seq s = (if seen_seqs s = {} then -1 else Max (seen_seqs s))"
      using assms(1) max_ok_unique [OF _ max_ok_Max [OF fin]] by (simp only: win_inv_def)
    ultimately have "rollback q s2 = s"
      using False ord new c by (simp add: rollback_def s2 Let_def max_def)
    with assms(1) show ?thesis by simp
  qed
qed

lemma win_inv_revoke: "win_inv A s \<Longrightarrow> win_inv A (revoke s)"
  by (simp add: win_inv_def)

lemma window_step:
  assumes "win_inv A s" and "session_step P x s = (ev, s')" and "forgery_safe P [x] s"
  shows "win_inv (A \<union> set (received_seqs [ev])) s' \<and> distinct (received_seqs [ev]) \<and>
    A \<inter> set (received_seqs [ev]) = {}"
proof (cases x)
  case (Encrypt n t1 t2 m)
  obtain r s1 where e: "session_encrypt P n t1 t2 m s = (r, s1)" by fastforce
  then have "win_inv A s1"
  proof (cases rule: session_encrypt_cases)
    case (inactive e)
    with assms(1) show ?thesis by (auto intro: win_inv_only_state)
  next
    case reserved
    have "win_inv A (s\<lparr>send_seq := send_seq s + 1\<rparr>)" using assms(1) by (simp add: win_inv_def)
    with reserved(4) show ?thesis by (rule win_inv_only_state)
  qed
  with e Encrypt assms(2) show ?thesis by (auto split: sum.splits)
next
  case (Decrypt t1 t2 d)
  obtain r s1 where e: "session_decrypt P t1 t2 d s = (r, s1)" by fastforce
  from e show ?thesis
  proof (cases rule: session_decrypt_cases)
    case (malformed e')
    with e Decrypt assms show ?thesis by auto
  next
    case (failed q ct n e')
    have q: "0 \<le> q" "payload_seq d = q"
      using failed(1) by (auto dest: decrypt_parse_ok payload_seq_parse)
    from failed(3) have "win_inv A s1"
    proof (cases rule: decrypt_locked_cases)
      case (forged e2 s2)
      have "prune_safe s q" using assms(3) Decrypt e failed q by simp
      with forged q assms(1) show ?thesis by (auto intro: window_rollback)
    qed (use assms(1) in \<open>auto intro: win_inv_only_state\<close>)
    with e Decrypt failed assms(2) show ?thesis by auto
  next
    case (accepted q ct n m s2)
    have q: "0 \<le> q" "payload_seq d = q"
      using accepted(1) by (auto dest: decrypt_parse_ok payload_seq_parse)
    from accepted(3) have a: "admit q s = (Inr (), s2)"
      by (cases rule: decrypt_locked_cases) auto
    have "win_inv (insert q A) s1" "q \<notin> A"
      using window_accept [OF assms(1) a q(1)] window_fresh [OF assms(1) a q(1)]
      by (simp_all add: accepted(4) win_inv_only_state [OF only_state_expiry])
    with e Decrypt accepted q assms(2) show ?thesis by auto
  qed
qed (use assms in \<open>auto simp: win_inv_revoke intro: win_inv_only_state [OF only_state_expiry]\<close>)

lemma window_run:
  "win_inv A s \<Longrightarrow> forgery_safe P ops s \<Longrightarrow> session_run P ops s = (evs, s') \<Longrightarrow>
   distinct (received_seqs evs) \<and> A \<inter> set (received_seqs evs) = {}"
proof (induction ops arbitrary: A s evs s')
  case Nil
  then show ?case by simp
next
  case (Cons x ops)
  obtain ev s1 where st: "session_step P x s = (ev, s1)" by fastforce
  obtain evs1 s2 where r: "session_run P ops s1 = (evs1, s2)" by fastforce
  have ev: "evs = ev # evs1" using Cons.prems st r by auto
  have "forgery_safe P [x] s" "forgery_safe P ops s1" using Cons.prems st by simp_all
  then have w: "win_inv (A \<union> set (received_seqs [ev])) s1" "distinct (received_seqs [ev])"
    "A \<inter> set (received_seqs [ev]) = {}"
    using window_step [OF Cons.prems(1) st] by blast+
  from Cons.IH [OF w(1) \<open>forgery_safe P ops s1\<close> r] w show ?case
    unfolding ev received_seqs_Cons [of ev evs1] by auto
qed

section \<open>Terminal states and sequence numbers\<close>

lemma terminal_iff: "EXPIRED \<le> st \<longleftrightarrow> st = EXPIRED \<or> st = REVOKED"
  by (cases st) (simp_all add: less_eq_session_state_def)

lemma le_REVOKED [simp]: "st \<le> REVOKED"
  by (cases st) (simp_all add: less_eq_session_state_def)

lemma decrypt_locked_stage:
  assumes "decrypt_locked P t q ct n s = (r, s')"
  shows "s_state s \<le> s_state s' \<and> send_seq s' = send_seq s \<and>
    (EXPIRED \<le> s_state s \<longrightarrow> \<not> is_ok r)"
  using assms
proof (cases rule: decrypt_locked_cases)
  case (inactive e)
  with only_state_fields [of s s'] show ?thesis by simp
next
  case (forged e s2)
  with admit_fields [of q s "Inr ()" s2] show ?thesis by (simp add: terminal_iff)
next
  case (ok m)
  with admit_fields [of q s "Inr ()" s'] show ?thesis by (simp add: terminal_iff)
qed simp

lemma step_stage:
  assumes "session_step P x s = (ev, s')"
  shows "s_state s \<le> s_state s' \<and> (EXPIRED \<le> s_state s \<longrightarrow> \<not> is_success ev) \<and>
    send_seq s \<le> send_seq s' \<and> set (sent_seqs [ev]) \<subseteq> {send_seq s ..< send_seq s'}"
proof (cases x)
  case (Encrypt n t1 t2 m)
  obtain r s1 where e: "session_encrypt P n t1 t2 m s = (r, s1)" by fastforce
  then show ?thesis
  proof (cases rule: session_encrypt_cases)
    case (inactive e')
    with only_state_fields [of s s1] e Encrypt assms show ?thesis by (auto simp: is_success_def)
  next
    case reserved
    have ps: "payload_seq dd = send_seq s" if "r = Inr dd" for dd
      using encrypt_finish_ok [OF reserved(3) [symmetric, unfolded that]]
      by (auto simp: payload_seq_def dget_def)
    have "s_state s \<le> s_state s1" "send_seq s1 = send_seq s + 1"
      using only_state_fields [OF reserved(4)] by simp_all
    with reserved(1) ps e Encrypt assms show ?thesis
      by (cases r) (auto simp: terminal_iff is_success_def)
  qed
next
  case (Decrypt t1 t2 d)
  obtain r s1 where e: "session_decrypt P t1 t2 d s = (r, s1)" by fastforce
  have "s_state s \<le> s_state s1 \<and> send_seq s1 = send_seq s \<and> (EXPIRED \<le> s_state s \<longrightarrow> \<not> is_ok r)"
    using e
  proof (cases rule: session_decrypt_cases)
    case (failed q ct n e')
    with decrypt_locked_stage [OF failed(3)] show ?thesis by simp
  next
    case (accepted q ct n m s2)
    with decrypt_locked_stage [OF accepted(3)] evaluate_expiry_mono [of s2 t2] show ?thesis
      by (auto intro: order_trans)
  qed simp
  with e Decrypt assms show ?thesis by (auto simp: is_success_def split: sum.splits)
qed (use assms in \<open>auto simp: is_success_def\<close>)

lemma run_stage:
  "session_run P ops s = (evs, s') \<Longrightarrow> s_state s \<le> s_state s' \<and>
   (EXPIRED \<le> s_state s \<longrightarrow> filter is_success evs = [])"
proof (induction ops arbitrary: s evs s')
  case (Cons x ops)
  obtain ev s1 where st: "session_step P x s = (ev, s1)" by fastforce
  obtain evs1 s2 where r: "session_run P ops s1 = (evs1, s2)" by fastforce
  from Cons.IH [OF r] step_stage [OF st] Cons.prems st r show ?case
    by (auto intro: order_trans)
qed simp

lemma run_sent:
  "session_run P ops s = (evs, s') \<Longrightarrow> send_seq s \<le> send_seq s' \<and>
   sorted_wrt (<) (sent_seqs evs) \<and> set (sent_seqs evs) \<subseteq> {send_seq s ..< send_seq s'}"
proof (induction ops arbitrary: s evs s')
  case (Cons x ops)
  obtain ev s1 where st: "session_step P x s = (ev, s1)" by fastforce
  obtain evs1 s2 where r: "session_run P ops s1 = (evs1, s2)" by fastforce
  have ev: "evs = ev # evs1" "s' = s2" using Cons.prems st r by auto
  have "length (sent_seqs [ev]) \<le> 1" by (cases ev) simp_all
  then have "sorted_wrt (<) (sent_seqs [ev])" by (cases "sent_seqs [ev]") auto
  with Cons.IH [OF r] step_stage [OF st] show ?case
    unfolding ev sent_seqs_Cons [of ev evs1]
    by (fastforce simp: sorted_wrt_append)
qed simp

section \<open>Two peers\<close>

text \<open>
  A conversation over a reliable network: each entry names the direction, the random
  nonce, the two clock readings of \<open>encrypt\<close>, the two of \<open>decrypt\<close>, and the
  message; the results are what the receivers' \<open>decrypt\<close> returned.
\<close>

type_synonym delivery = "bytes \<times> time \<times> time \<times> time \<times> time \<times> bytes"

fun deliver :: "prims \<Rightarrow> delivery \<Rightarrow> session \<Rightarrow> session \<Rightarrow> bytes res \<times> session \<times> session" where
  "deliver P (n, t1, t2, t3, t4, m) a b =
     (case session_encrypt P n t1 t2 m a of
        (Inl e, a') \<Rightarrow> (Inl e, a', b)
      | (Inr d, a') \<Rightarrow> (case session_decrypt P t3 t4 d b of (r, b') \<Rightarrow> (r, a', b')))"

fun talk :: "prims \<Rightarrow> (bool \<times> delivery) list \<Rightarrow> session \<Rightarrow> session \<Rightarrow> bytes res list" where
  "talk P [] x y = []"
| "talk P ((True, d) # ds) x y =
     (let (r, x', y') = deliver P d x y in r # talk P ds x' y')"
| "talk P ((False, d) # ds) x y =
     (let (r, y', x') = deliver P d y x in r # talk P ds x' y')"

definition timely :: "session \<Rightarrow> time \<Rightarrow> bool" where
  "timely s t \<longleftrightarrow> t - s_created_at s \<le> of_int (max_lifetime_seconds (s_config s))"

fun delivery_ok :: "session \<Rightarrow> session \<Rightarrow> delivery \<Rightarrow> bool" where
  "delivery_ok a b (n, t1, t2, t3, t4, m) \<longleftrightarrow>
     length n = NONCE_SIZE \<and> timely a t1 \<and> timely a t2 \<and> timely b t3 \<and> timely b t4"

text \<open>What one direction from \<open>a\<close> to \<open>b\<close> needs: the same key and the receiver's counters
  in step with the sender's.\<close>

definition linked :: "session \<Rightarrow> session \<Rightarrow> bool" where
  "linked a b \<longleftrightarrow> session_id b = session_id a \<and> length (send_key a) = KEY_SIZE \<and>
     recv_key b = send_key a \<and> 0 \<le> send_seq a \<and>
     (if enforce_ordering (s_config b) then recv_seq b = send_seq a
      else (\<forall>q \<in> seen_seqs b. q < send_seq a) \<and> max_seen_seq b < send_seq a)"

definition ready :: "nat \<Rightarrow> session \<Rightarrow> bool" where
  \<comment> \<open>the session can still handle \<open>k\<close> messages\<close>
  "ready k s \<longleftrightarrow> (0 < k \<longrightarrow> s_state s = ACTIVE \<and> total s + int k \<le> max_messages (s_config s))"

lemma timely_expiry [simp]: "timely (evaluate_expiry t' s) t = timely s t"
  by (simp add: timely_def)

lemma linked_expiry [simp]:
  "linked (evaluate_expiry t a) b = linked a b" "linked a (evaluate_expiry t b) = linked a b"
  by (simp_all add: linked_def)

lemma ready_after:
  assumes "s_state s = ACTIVE" and "timely s t" and "total s + int k \<le> max_messages (s_config s)"
  shows "ready k (evaluate_expiry t s)"
  using assms by (auto simp: ready_def evaluate_expiry_def timely_def total_def not_less)

lemma encrypt_ready:
  assumes "ready (Suc k) a" and "timely a t1" and "timely a t2" and "length (send_key a) = KEY_SIZE"
  shows "session_encrypt P n t1 t2 m a =
    (Inr [(''session_id'', PStr (session_id a)), (''seq'', PInt (send_seq a)),
       (''ciphertext'', PStr (hex (aesgcm_encrypt P (send_key a) n m (Some (message_ad a (send_seq a)))))),
       (''nonce'', PStr (hex n))], evaluate_expiry t2 (a\<lparr>send_seq := send_seq a + 1\<rparr>))"
proof -
  have "check_active t1 a = (Inr (), a)"
    using assms by (simp add: check_active_ok ready_def timely_def total_def)
  then show ?thesis
    using assms(4) by (simp add: session_encrypt_def encrypt_reserve_def encrypt_finish_def message_ad_def)
qed

lemma admit_linked:
  assumes "linked a b"
  obtains b' where "admit (send_seq a) b = (Inr (), b')" "total b' = total b + 1"
    "linked (a\<lparr>send_seq := send_seq a + 1\<rparr>) b'"
    "session_id b' = session_id b" "s_config b' = s_config b" "s_state b' = s_state b"
    "send_seq b' = send_seq b" "send_key b' = send_key b" "recv_key b' = recv_key b"
    "s_created_at b' = s_created_at b"
proof -
  obtain u b' where a: "admit (send_seq a) b = (Inr u, b')"
  proof (cases "enforce_ordering (s_config b)")
    case True
    with assms that show ?thesis by (auto simp: admit_def linked_def)
  next
    case False
    have "send_seq a \<notin> seen_seqs b \<and> (0 \<le> max_seen_seq b \<longrightarrow> window_floor b \<le> send_seq a)"
      using assms False by (auto simp: linked_def window_floor_def WINDOW_SIZE_def)
    then show ?thesis using that admit_window_ok [OF False] by blast
  qed
  have "linked (a\<lparr>send_seq := send_seq a + 1\<rparr>) b'"
  proof (cases "enforce_ordering (s_config b)")
    case True
    with a assms show ?thesis by (auto simp: admit_ordered_ok linked_def)
  next
    case False
    with a assms pruned_sub [of "send_seq a" b] show ?thesis
      by (force simp: admit_window_ok linked_def)
  qed
  with a admit_total [OF a] admit_fields [OF a] that show ?thesis by simp
qed

lemma deliver_linked:
  assumes "aead_laws P" and "linked a b" "linked b a" and "ready (Suc k) a" "ready (Suc k) b"
    and "delivery_ok a b d"
  obtains a' b' where "deliver P d a b = (Inr (snd (snd (snd (snd (snd d))))), a', b')"
    "linked a' b'" "linked b' a'" "ready k a'" "ready k b'"
    "timely a' = timely a" "timely b' = timely b"
proof -
  obtain n t1 t2 t3 t4 m where d: "d = (n, t1, t2, t3, t4, m)" by (cases d) blast
  let ?a = "a\<lparr>send_seq := send_seq a + 1\<rparr>" and ?k = "send_key a"
  let ?ct = "aesgcm_encrypt P ?k n m (Some (message_ad a (send_seq a)))"
  let ?d = "[(''session_id'', PStr (session_id a)), (''seq'', PInt (send_seq a)),
       (''ciphertext'', PStr (hex ?ct)), (''nonce'', PStr (hex n))]"
  have len: "length ?k = KEY_SIZE" "length n = NONCE_SIZE" and id: "session_id b = session_id a"
    and key: "recv_key b = ?k" and pos: "0 \<le> send_seq a"
    using assms d by (simp_all add: linked_def)
  have e: "session_encrypt P n t1 t2 m a = (Inr ?d, evaluate_expiry t2 ?a)"
    using assms(4,6) d len by (intro encrypt_ready [of k]) simp_all
  obtain b' where b': "admit (send_seq a) b = (Inr (), b')" "total b' = total b + 1" "linked ?a b'"
    "session_id b' = session_id b" "s_config b' = s_config b" "s_state b' = s_state b"
    "send_seq b' = send_seq b" "send_key b' = send_key b" "recv_key b' = recv_key b"
    "s_created_at b' = s_created_at b"
    by (rule admit_linked [OF assms(2)])
  have "check_active t3 b = (Inr (), b)"
    using assms(5,6) d by (simp add: check_active_ok ready_def timely_def total_def)
  moreover have "decrypt_parse b ?d = Inr (send_seq a, ?ct, n)"
    using pos id by (simp add: decrypt_parse_def dget_def has_key_def)
  moreover have "sym_decrypt P ?ct n ?k (Some (message_ad a (send_seq a))) = Inr m"
    using assms(1) len by (simp add: sym_decrypt_def aead_lawsD)
  ultimately have "session_decrypt P t3 t4 ?d b = (Inr m, evaluate_expiry t4 b')"
    using b' key id by (simp add: session_decrypt_def decrypt_locked_def message_ad_def)
  then have del: "deliver P d a b = (Inr m, evaluate_expiry t2 ?a, evaluate_expiry t4 b')"
    using e d by simp
  have tm: "timely b' = timely b" "timely ?a = timely a"
    using b' by (auto simp: timely_def)
  have "total ?a + int k \<le> max_messages (s_config a)" "total b' + int k \<le> max_messages (s_config b)"
    "s_state a = ACTIVE" "s_state b = ACTIVE"
    using assms(4,5) b' by (auto simp: ready_def total_def received_count_def)
  then have "ready k (evaluate_expiry t2 ?a)" "ready k (evaluate_expiry t4 b')"
    using assms(6) b' d tm by (auto intro!: ready_after)
  moreover have "linked b' ?a"
    using assms(3) b' by (simp add: linked_def)
  moreover have "timely (evaluate_expiry t2 ?a) = timely a" "timely (evaluate_expiry t4 b') = timely b"
    using tm by auto
  ultimately show ?thesis
    using that [of "evaluate_expiry t2 ?a" "evaluate_expiry t4 b'"] del b'(3) d by simp
qed

lemma talk_linked:
  "aead_laws P \<Longrightarrow> linked x y \<Longrightarrow> linked y x \<Longrightarrow> ready (length ds) x \<Longrightarrow> ready (length ds) y \<Longrightarrow>
   \<forall>(dir, d) \<in> set ds. if dir then delivery_ok x y d else delivery_ok y x d \<Longrightarrow>
   talk P ds x y = map (\<lambda>(dir, n, t1, t2, t3, t4, m). Inr m) ds"
proof (induction ds arbitrary: x y)
  case (Cons c ds)
  obtain dir d where c: "c = (dir, d)" by (cases c)
  have ok: "delivery_ok x' y' e = delivery_ok x y e \<and> delivery_ok y' x' e = delivery_ok y x e"
    if "timely x' = timely x" "timely y' = timely y" for x' y' e
    using that by (cases e) simp
  show ?case
  proof (cases dir)
    case True
    with Cons.prems c obtain x' y' where h: "deliver P d x y = (Inr (snd (snd (snd (snd (snd d))))), x', y')"
      "linked x' y'" "linked y' x'" "ready (length ds) x'" "ready (length ds) y'"
      "timely x' = timely x" "timely y' = timely y"
      using deliver_linked [of P x y "length ds" d] by auto
    from Cons.IH [OF Cons.prems(1) h(2-5)] Cons.prems(6) ok [OF h(6,7)] h(1) True c show ?thesis
      by (simp add: split_beta)
  next
    case False
    with Cons.prems c obtain y' x' where h: "deliver P d y x = (Inr (snd (snd (snd (snd (snd d))))), y', x')"
      "linked y' x'" "linked x' y'" "ready (length ds) y'" "ready (length ds) x'"
      "timely y' = timely y" "timely x' = timely x"
      using deliver_linked [of P y x "length ds" d] by auto
    from Cons.IH [OF Cons.prems(1) h(3,2) h(5,4)] Cons.prems(6) ok [OF h(7,6)] h(1) False c
    show ?thesis by (simp add: split_beta)
  qed
qed simp

lemma session_new_ok:
  assumes "hkdf_laws P"
  shows "\<exists>k1 k2. length k1 = KEY_SIZE \<and> length k2 = KEY_SIZE \<and>
    (\<forall>now sid l r. session_new P now sid l r secret True config = Inr
       \<lparr>session_id = sid, local_id = l, remote_id = r,
        s_config = (case config of None \<Rightarrow> default_config | Some c \<Rightarrow> c),
        s_state = PENDING, s_created_at = now, send_seq = 0, recv_seq = 0,
        seen_seqs = {}, max_seen_seq = -1, recv_count = 0, send_key = k1, recv_key = k2\<rparr>) \<and>
    (\<forall>now sid l r. session_new P now sid l r secret False config = Inr
       \<lparr>session_id = sid, local_id = l, remote_id = r,
        s_config = (case config of None \<Rightarrow> default_config | Some c \<Rightarrow> c),
        s_state = PENDING, s_created_at = now, send_seq = 0, recv_seq = 0,
        seen_seqs = {}, max_seen_seq = -1, recv_count = 0, send_key = k2, recv_key = k1\<rparr>)"
proof -
  let ?c = "case config of None \<Rightarrow> default_config | Some c \<Rightarrow> c"
  obtain k1 where "hkdf_sha256 P 32 None (direction_info ?c True) secret = Inr k1" "length k1 = nat 32"
    by (rule hkdf_lawsE [OF assms, of 32]) simp_all
  moreover obtain k2 where "hkdf_sha256 P 32 None (direction_info ?c False) secret = Inr k2"
      "length k2 = nat 32"
    by (rule hkdf_lawsE [OF assms, of 32]) simp_all
  ultimately show ?thesis
    by (intro exI [of _ k1] exI [of _ k2])
      (simp add: session_new_def Let_def derive_key_def KEY_SIZE_def)
qed

section \<open>A forgery against a full window\<close>

text \<open>
  A number beyond the window that arrives when 256 numbers are remembered: \<open>admit\<close>
  prunes all of them, and the rollback then takes the newcomer out as well.
\<close>

lemma admit_rollback_reset:
  assumes "win_inv A s" and "int (card (seen_seqs s)) = 2 * WINDOW_SIZE"
    and "max_seen_seq s + WINDOW_SIZE \<le> q"
  shows "\<exists>s2. admit q s = (Inr (), s2) \<and>
    rollback q s2 = s\<lparr>seen_seqs := {}, max_seen_seq := -1\<rparr>"
proof -
  have ord: "\<not> enforce_ordering (s_config s)" and fin: "finite (seen_seqs s)"
    and c: "0 \<le> recv_count s" using assms(1) by (simp_all add: win_inv_def)
  have le: "x \<le> max_seen_seq s" if "x \<in> seen_seqs s" for x
    using win_inv_max [OF assms(1) that] .
  have new: "q \<notin> seen_seqs s" using le [of q] assms(3) by (auto simp: WINDOW_SIZE_def)
  have m: "max (max_seen_seq s) q = q" using assms(3) by (simp add: WINDOW_SIZE_def)
  have pr: "pruned q s = {q}"
    using new fin assms(2,3) le by (force simp: pruned_def Let_def m WINDOW_SIZE_def)
  have a: "admit q s = (Inr (), s\<lparr>seen_seqs := {q}, max_seen_seq := q,
      recv_count := recv_count s + 1\<rparr>)"
    using new assms(3) by (simp add: admit_window_ok [OF ord] pr m window_floor_def WINDOW_SIZE_def)
  have "rollback q (s\<lparr>seen_seqs := {q}, max_seen_seq := q, recv_count := recv_count s + 1\<rparr>) =
      s\<lparr>seen_seqs := {}, max_seen_seq := -1\<rparr>"
    using ord c by (simp add: rollback_def Let_def)
  with a show ?thesis by blast
qed

lemma admit_empty:
  "\<not> enforce_ordering (s_config s) \<Longrightarrow> seen_seqs s = {} \<Longrightarrow> max_seen_seq s = -1 \<Longrightarrow>
   \<exists>s'. admit q s = (Inr (), s')"
  by (simp add: admit_window_ok)

section \<open>A concrete session\<close>

definition demo_session :: "bool \<Rightarrow> bool \<Rightarrow> session" where
  "demo_session ordered initiator = \<lparr>session_id = ''s'', local_id = ''l'', remote_id = ''r'',
     s_config = default_config\<lparr>enforce_ordering := ordered\<rparr>, s_state = ACTIVE, s_created_at = 0,
     send_seq = 0, recv_seq = 0, seen_seqs = {}, max_seen_seq = -1, recv_count = 0,
     send_key = replicate 32 (if initiator then 1 else 2),
     recv_key = replicate 32 (if initiator then 2 else 1)\<rparr>"

definition demo_payload :: "int \<Rightarrow> dict" where
  \<comment> \<open>what the demo initiator's \<open>encrypt\<close> sends as its message number \<open>q\<close>\<close>
  "demo_payload q = [(''session_id'', PStr ''s''), (''seq'', PInt q),
     (''ciphertext'', PStr (hex ([104] @ demo_tag (replicate 32 1) (replicate 12 9)
        (Some (utf8 (''s:'' @ str_int q)))))), (''nonce'', PStr (hex (replicate 12 9)))]"

definition forged_payload :: "int \<Rightarrow> dict" where
  "forged_payload q = [(''session_id'', PStr ''s''), (''seq'', PInt q), (''ciphertext'', PStr []),
     (''nonce'', PStr (hex (replicate 12 0)))]"

lemma demo_payload_parse:
  "session_id s = ''s'' \<Longrightarrow> 0 \<le> q \<Longrightarrow> decrypt_parse s (demo_payload q) =
     Inr (q, [104] @ demo_tag (replicate 32 1) (replicate 12 9) (Some (utf8 (''s:'' @ str_int q))),
       replicate 12 9)"
  by (simp add: decrypt_parse_def demo_payload_def dget_def has_key_def)

lemma forged_payload_parse:
  "session_id s = ''s'' \<Longrightarrow> 0 \<le> q \<Longrightarrow>
   decrypt_parse s (forged_payload q) = Inr (q, [], replicate 12 0)"
  by (simp add: decrypt_parse_def forged_payload_def dget_def has_key_def)

lemma demo_sym_decrypt:
  "sym_decrypt demo_prims ([104] @ demo_tag (replicate 32 1) (replicate 12 9) a) (replicate 12 9)
     (replicate 32 1) a = Inr [104]"
  by (simp add: sym_decrypt_def demo_prims_def KEY_SIZE_def NONCE_SIZE_def Let_def)

lemma forged_sym_decrypt:
  "sym_decrypt demo_prims [] (replicate 12 0) (replicate 32 k) a = Inl ValueError"
  by (simp add: sym_decrypt_def demo_prims_def KEY_SIZE_def NONCE_SIZE_def Let_def demo_tag_def)

section \<open>Properties\<close>

text \<open>C1: Ordered mode delivers the stream: over any run of \<open>encrypt\<close>, \<open>decrypt\<close>,
  \<open>revoke\<close> and \<open>is_active\<close> calls with arbitrary (forged, replayed, reordered) payloads,
  the numbers of the accepted messages are exactly \<open>recv_seq\<close>, \<open>recv_seq\<close> + 1, ... in this
  order without gap or repetition, and the numbers of the sent messages strictly increase.\<close>

theorem session_ordered_stream:
  assumes "enforce_ordering (s_config s)" and "session_run P ops s = (evs, s')"
  shows "received_seqs evs = [recv_seq s .. recv_seq s' - 1] \<and> recv_seq s \<le> recv_seq s' \<and>
    sorted_wrt (<) (sent_seqs evs) \<and> set (sent_seqs evs) \<subseteq> {send_seq s ..< send_seq s'}"
  using run_ordered [OF assms] run_sent [OF assms(2)] by blast

theorem session_ordered_stream_witness:
  "received_seqs (fst (session_run demo_prims [Decrypt 1 1 (demo_payload 0),
      Decrypt 1 1 (demo_payload 0), Encrypt (replicate 12 3) 1 1 [5], Decrypt 1 1 (demo_payload 2),
      Decrypt 1 1 (demo_payload 1)] (demo_session True False))) = [0, 1]"
proof -
  let ?r = "session_run demo_prims [Decrypt 1 1 (demo_payload 0),
      Decrypt 1 1 (demo_payload 0), Encrypt (replicate 12 3) 1 1 [5], Decrypt 1 1 (demo_payload 2),
      Decrypt 1 1 (demo_payload 1)] (demo_session True False)"
  have "enforce_ordering (s_config (demo_session True False))"
    by (simp add: demo_session_def default_config_def)
  moreover have "?r = (fst ?r, snd ?r)" by simp
  ultimately have "received_seqs (fst ?r) = [recv_seq (demo_session True False) .. recv_seq (snd ?r) - 1]"
    using session_ordered_stream by blast
  moreover have "recv_seq (snd ?r) = 2" by code_simp
  ultimately show ?thesis by (simp add: demo_session_def upto.simps)
qed

text \<open>C2: In the ordered mode a payload that \<open>decrypt\<close> refuses, malformed, out of order, forged or late,
  changes nothing in the session but possibly its life-cycle state (forward, to expired); an
  accepted payload authenticated under the receive key with the session id and the expected
  number as associated data, and moves the expected number by one. (In the unordered mode a refused
  payload may also change the replay window, see C4.)\<close>

theorem session_failed_decrypt:
  assumes "enforce_ordering (s_config s)" and "session_decrypt P t1 t2 d s = (r, s')"
  shows "(case r of
      Inl e \<Rightarrow> s' = s\<lparr>s_state := s_state s'\<rparr> \<and> s_state s \<le> s_state s'
    | Inr m \<Rightarrow> (\<exists>ct n. decrypt_parse s d = Inr (recv_seq s, ct, n) \<and>
          sym_decrypt P ct n (recv_key s) (Some (message_ad s (recv_seq s))) = Inr m) \<and>
        recv_seq s' = recv_seq s + 1)"
proof (cases r)
  case (Inl e)
  with decrypt_ordered [OF assms] show ?thesis by (simp add: only_state_def)
next
  case (Inr m)
  with decrypt_ordered [OF assms] show ?thesis by (auto dest: only_state_fields(4))
qed

theorem session_failed_decrypt_witness:
  "snd (session_decrypt demo_prims 1 1 (forged_payload 0) (demo_session True False)) =
     demo_session True False"
proof -
  let ?s = "demo_session True False"
  have o: "enforce_ordering (s_config ?s)" by (simp add: demo_session_def default_config_def)
  have d: "session_decrypt demo_prims 1 1 (forged_payload 0) ?s = (Inl SessionError, ?s)"
    by (simp add: session_decrypt_def forged_payload_parse decrypt_locked_def check_active_def
        evaluate_expiry_def admit_def rollback_def forged_sym_decrypt received_count_def
        demo_session_def default_config_def)
  from session_failed_decrypt [OF o d] d show ?thesis by (simp add: demo_session_def)
qed

text \<open>C3: The sliding window of the unordered mode never accepts a sequence number twice, over
  any run, as long as no forgery arrives that would prune a full window (\<open>forgery_safe\<close>).\<close>

theorem session_window_no_replay:
  assumes "\<not> enforce_ordering (s_config s)" and "seen_seqs s = {}" and "max_seen_seq s = -1"
    and "recv_count s = 0" and "forgery_safe P ops s" and "session_run P ops s = (evs, s')"
  shows "distinct (received_seqs evs)"
proof -
  have "win_inv {} s" using assms(1-4) by (simp add: win_inv_def max_ok_def)
  with window_run [OF _ assms(5,6)] show ?thesis by blast
qed

theorem session_window_no_replay_witness:
  "distinct (received_seqs (fst (session_run demo_prims [Decrypt 1 1 (demo_payload 1),
      Decrypt 1 1 (forged_payload 900), Decrypt 1 1 (demo_payload 1),
      Decrypt 1 1 (demo_payload 0)] (demo_session False False))))"
proof -
  let ?ops = "[Decrypt 1 1 (demo_payload 1), Decrypt 1 1 (forged_payload 900),
    Decrypt 1 1 (demo_payload 1), Decrypt 1 1 (demo_payload 0)]"
  have "forgery_safe demo_prims ?ops (demo_session False False)" by code_simp
  then show ?thesis
    by (intro session_window_no_replay [OF _ _ _ _ _ prod.collapse [symmetric]])
      (simp_all add: demo_session_def default_config_def)
qed

text \<open>C4: The forgery that C3 excludes empties the replay window. When the window remembers 256
  numbers, one payload with a number 128 or more above the largest seen, needing no key,
  makes \<open>decrypt\<close> raise and leaves no number remembered; every payload that the session
  had accepted before is then accepted again.\<close>

theorem session_window_reset:
  assumes "win_inv A s" and "int (card (seen_seqs s)) = 2 * WINDOW_SIZE"
    and "check_active t1 s = (Inr (), s)"
    and "decrypt_parse s d = Inr (q, ct, n)" and "max_seen_seq s + WINDOW_SIZE \<le> q"
    and "sym_decrypt P ct n (recv_key s) (Some (message_ad s q)) = Inl e"
    and "session_decrypt P t1 t2 d s = (r, s')"
  shows "\<not> is_ok r \<and> s' = s\<lparr>seen_seqs := {}, max_seen_seq := -1\<rparr> \<and>
    (\<forall>d' q' ct' n' m t'. decrypt_parse s d' = Inr (q', ct', n') \<longrightarrow>
       sym_decrypt P ct' n' (recv_key s) (Some (message_ad s q')) = Inr m \<longrightarrow>
       fst (session_decrypt P t1 t' d' s') = Inr m)"
proof -
  let ?s = "s\<lparr>seen_seqs := {}, max_seen_seq := -1\<rparr>"
  obtain s2 where a: "admit q s = (Inr (), s2)" "rollback q s2 = ?s"
    using admit_rollback_reset [OF assms(1,2,5)] by blast
  have k: "recv_key s2 = recv_key s" "message_ad s2 q = message_ad s q"
    using admit_fields [OF a(1)] by (simp_all add: message_ad_def)
  have r: "\<not> is_ok r" "s' = ?s"
    using assms(3,4,6,7) a k by (auto simp: session_decrypt_def decrypt_locked_def)
  have ord: "\<not> enforce_ordering (s_config ?s)" using assms(1) by (simp add: win_inv_def)
  have act: "check_active t1 ?s = (Inr (), ?s)"
    using assms(3) ord by (simp add: check_active_ok received_count_def)
  have "fst (session_decrypt P t1 t' d' ?s) = Inr m"
    if p: "decrypt_parse s d' = Inr (q', ct', n')"
      and m: "sym_decrypt P ct' n' (recv_key s) (Some (message_ad s q')) = Inr m" for d' q' ct' n' m t'
  proof -
    obtain s3 where a3: "admit q' ?s = (Inr (), s3)" using admit_empty [OF ord] by auto
    have "recv_key s3 = recv_key s" "message_ad s3 q' = message_ad s q'"
      using admit_fields [OF a3] by (simp_all add: message_ad_def)
    moreover have "decrypt_parse ?s d' = Inr (q', ct', n')"
      using p by (simp add: decrypt_parse_def)
    ultimately show ?thesis
      using m act a3 by (simp add: session_decrypt_def decrypt_locked_def)
  qed
  with r show ?thesis by blast
qed

theorem session_window_reset_witness:
  "let s = (demo_session False False)\<lparr>seen_seqs := {0..255}, max_seen_seq := 255, recv_count := 256\<rparr>;
       s' = snd (session_decrypt demo_prims 1 1 (forged_payload 400) s)
   in fst (session_decrypt demo_prims 1 1 (demo_payload 7) s) = Inl SessionReorderError \<and>
      fst (session_decrypt demo_prims 1 1 (demo_payload 7) s') = Inr [104]"
proof -
  let ?s = "(demo_session False False)\<lparr>seen_seqs := {0..255}, max_seen_seq := 255, recv_count := 256\<rparr>"
  have k: "recv_key ?s = replicate 32 1" "session_id ?s = ''s''" by (simp_all add: demo_session_def)
  have w: "win_inv {0..255} ?s"
    by (simp add: win_inv_def max_ok_def demo_session_def default_config_def)
  have c: "int (card (seen_seqs ?s)) = 2 * WINDOW_SIZE" by (simp add: WINDOW_SIZE_def)
  have act: "check_active 1 ?s = (Inr (), ?s)"
    by (simp add: check_active_ok demo_session_def default_config_def received_count_def)
  have p: "decrypt_parse ?s (forged_payload 400) = Inr (400, [], replicate 12 0)"
    by (rule forged_payload_parse) (simp_all add: k)
  have "max_seen_seq ?s + WINDOW_SIZE \<le> 400" by (simp add: WINDOW_SIZE_def)
  moreover have "sym_decrypt demo_prims [] (replicate 12 0) (recv_key ?s) (Some (message_ad ?s 400))
      = Inl ValueError" unfolding k by (rule forged_sym_decrypt)
  ultimately have "\<forall>d' q' ct' n' m t'. decrypt_parse ?s d' = Inr (q', ct', n') \<longrightarrow>
       sym_decrypt demo_prims ct' n' (recv_key ?s) (Some (message_ad ?s q')) = Inr m \<longrightarrow>
       fst (session_decrypt demo_prims 1 t' d'
         (snd (session_decrypt demo_prims 1 1 (forged_payload 400) ?s))) = Inr m"
    using session_window_reset [OF w c act p _ _ prod.collapse [symmetric]] by blast
  then have "fst (session_decrypt demo_prims 1 1 (demo_payload 7)
      (snd (session_decrypt demo_prims 1 1 (forged_payload 400) ?s))) = Inr [104]"
    using demo_payload_parse [of ?s 7] demo_sym_decrypt [of "Some (utf8 (''s:'' @ str_int 7))"] k
    by (simp only: message_ad_def) simp
  moreover have "fst (session_decrypt demo_prims 1 1 (demo_payload 7) ?s) = Inl SessionReorderError"
    using demo_payload_parse [of ?s 7] k act
    by (simp add: session_decrypt_def decrypt_locked_def admit_def demo_session_def default_config_def)
  ultimately show ?thesis unfolding Let_def by blast
qed

text \<open>C5: The message cap: in any run, in either mode, the number of successful \<open>encrypt\<close> and
  \<open>decrypt\<close> calls is at most \<open>max_messages\<close> less the messages counted before.\<close>

theorem session_message_cap:
  assumes "session_run P ops s = (evs, s')" and "message_count s \<le> max_messages (s_config s)"
  shows "int (length (filter is_success evs)) \<le> max_messages (s_config s) - message_count s \<and>
    message_count s' \<le> max_messages (s_config s)"
  using run_total [OF assms(1)] assms(2) by (simp add: total_def message_count_def)

theorem session_message_cap_witness:
  "let s = (demo_session True False)\<lparr>send_seq := 9999\<rparr>;
       evs = fst (session_run demo_prims [Decrypt 1 1 (demo_payload 0), Decrypt 1 1 (demo_payload 1)] s)
   in int (length (filter is_success evs)) \<le> 1"
proof -
  let ?s = "(demo_session True False)\<lparr>send_seq := 9999\<rparr>"
  have "message_count ?s = 9999" "max_messages (s_config ?s) = 10000"
    by (simp_all add: message_count_def received_count_def demo_session_def default_config_def)
  then show ?thesis
    using session_message_cap [OF prod.collapse [symmetric], of ?s demo_prims
        "[Decrypt 1 1 (demo_payload 0), Decrypt 1 1 (demo_payload 1)]"]
    unfolding Let_def by linarith
qed

text \<open>C6: The life cycle only moves forward, and an expired or revoked session is silent: no later
  call sends or accepts a message, whatever the clock says.\<close>

theorem session_end_is_final:
  assumes "session_run P ops s = (evs, s')"
  shows "s_state s \<le> s_state s' \<and>
    (EXPIRED \<le> s_state s \<longrightarrow> EXPIRED \<le> s_state s' \<and> (\<forall>ev \<in> set evs. \<not> is_success ev))"
  using run_stage [OF assms] by (auto simp: filter_empty_conv intro: order_trans)

theorem session_end_is_final_witness:
  "filter is_success (fst (session_run demo_prims [Decrypt 1 1 (demo_payload 0), Query 0,
      Encrypt (replicate 12 1) 0 0 []] (revoke (demo_session True False)))) = []"
proof -
  have "EXPIRED \<le> s_state (revoke (demo_session True False))" by simp
  with session_end_is_final [OF prod.collapse [symmetric]] show ?thesis unfolding filter_empty_conv by blast
qed

text \<open>C7: Two sessions made with opposite roles from the same secret, session id and
  configuration understand each other: every message of a conversation in both directions,
  delivered in order and within the limits of lifetime and message count, is decrypted to
  what was encrypted, in the ordered and in the window mode.\<close>

theorem session_conversation:
  assumes "aead_laws P" and "hkdf_laws P"
  shows "\<exists>x y. session_new P t sid a b secret True config = Inr x \<and>
    session_new P t' sid b a secret False config = Inr y \<and>
    (int (length ds) \<le> max_messages (s_config x) \<longrightarrow>
     (\<forall>(dir, d) \<in> set ds. if dir then delivery_ok x y d else delivery_ok y x d) \<longrightarrow>
     talk P ds (snd (activate x)) (snd (activate y)) =
       map (\<lambda>(dir, n, t1, t2, t3, t4, m). Inr m) ds)"
proof -
  obtain k1 k2 where k: "length k1 = KEY_SIZE" "length k2 = KEY_SIZE"
    and new: "\<And>now sid l r. session_new P now sid l r secret True config = Inr
       \<lparr>session_id = sid, local_id = l, remote_id = r,
        s_config = (case config of None \<Rightarrow> default_config | Some c \<Rightarrow> c),
        s_state = PENDING, s_created_at = now, send_seq = 0, recv_seq = 0,
        seen_seqs = {}, max_seen_seq = -1, recv_count = 0, send_key = k1, recv_key = k2\<rparr>"
    "\<And>now sid l r. session_new P now sid l r secret False config = Inr
       \<lparr>session_id = sid, local_id = l, remote_id = r,
        s_config = (case config of None \<Rightarrow> default_config | Some c \<Rightarrow> c),
        s_state = PENDING, s_created_at = now, send_seq = 0, recv_seq = 0,
        seen_seqs = {}, max_seen_seq = -1, recv_count = 0, send_key = k2, recv_key = k1\<rparr>"
    using session_new_ok [OF assms(2), of secret config] by blast
  let ?x = "projr (session_new P t sid a b secret True config)"
  let ?y = "projr (session_new P t' sid b a secret False config)"
  have l: "linked (snd (activate ?x)) (snd (activate ?y))"
    "linked (snd (activate ?y)) (snd (activate ?x))"
    using k by (simp_all add: new linked_def activate_def)
  have r: "ready (length ds) (snd (activate ?x))" "ready (length ds) (snd (activate ?y))"
    if "int (length ds) \<le> max_messages (s_config ?x)"
    using that by (simp_all add: new ready_def activate_def total_def received_count_def)
  have t: "delivery_ok (snd (activate ?x)) (snd (activate ?y)) d = delivery_ok ?x ?y d"
    "delivery_ok (snd (activate ?y)) (snd (activate ?x)) d = delivery_ok ?y ?x d" for d
    by (cases d, simp add: new activate_def timely_def)+
  show ?thesis
    using talk_linked [OF assms(1) l r]
    by (intro exI [of _ ?x] exI [of _ ?y]) (simp add: t, simp add: new)
qed

theorem session_conversation_witness:
  "\<exists>x y. session_new demo_prims 0 ''s'' ''a'' ''b'' (replicate 32 7) True None = Inr x \<and>
     session_new demo_prims 0 ''s'' ''b'' ''a'' (replicate 32 7) False None = Inr y \<and>
     talk demo_prims [(True, replicate 12 0, 1, 1, 2, 2, [1, 2]),
         (False, replicate 12 1, 3, 3, 4, 4, [3])] (snd (activate x)) (snd (activate y)) =
       [Inr [1, 2], Inr [3]]"
proof -
  let ?ds = "[(True, replicate 12 0, 1, 1, 2, 2, [1, 2]), (False, replicate 12 1, 3, 3, 4, 4, [3])] :: (bool \<times> delivery) list"
  obtain x y where n: "session_new demo_prims 0 ''s'' ''a'' ''b'' (replicate 32 7) True None = Inr x"
      "session_new demo_prims 0 ''s'' ''b'' ''a'' (replicate 32 7) False None = Inr y"
    and c: "int (length ?ds) \<le> max_messages (s_config x) \<longrightarrow>
     (\<forall>(dir, d) \<in> set ?ds. if dir then delivery_ok x y d else delivery_ok y x d) \<longrightarrow>
     talk demo_prims ?ds (snd (activate x)) (snd (activate y)) =
       map (\<lambda>(dir, n, t1, t2, t3, t4, m). Inr m) ?ds"
    using session_conversation [OF demo_aead demo_hkdf, of 0 "''s''" "''a''" "''b''" "replicate 32 7"
        None 0 ?ds] by blast
  have "s_config x = default_config" "s_config y = default_config" "s_created_at x = 0"
    "s_created_at y = 0"
    using n by (auto simp: session_new_def rbind_Inr_iff)
  then have "int (length ?ds) \<le> max_messages (s_config x)"
    "\<forall>(dir, d) \<in> set ?ds. if dir then delivery_ok x y d else delivery_ok y x d"
    by (simp_all add: timely_def default_config_def NONCE_SIZE_def)
  with c n show ?thesis by simp
qed

text \<open>\<open>encrypt\<close> reads the send key after it has released the lock. When \<open>revoke\<close> runs in
  that gap, the message goes out encrypted under 32 zero bytes, a key that everyone knows.\<close>

theorem session_revoke_race:
  assumes "aead_laws P" and "length (send_key s) = KEY_SIZE" and "length n = NONCE_SIZE"
    and "encrypt_reserve t1 s = (Inr q, s1)"
  shows "\<exists>ct. fst (encrypt_finish P n t2 q m (revoke s1)) =
      Inr [(''session_id'', PStr (session_id s)), (''seq'', PInt q),
           (''ciphertext'', PStr (hex ct)), (''nonce'', PStr (hex n))] \<and>
    sym_decrypt P ct n (replicate 32 0) (Some (message_ad s q)) = Inr m"
proof -
  from assms(4) have s1: "s1 = s\<lparr>send_seq := send_seq s + 1\<rparr>"
    by (cases rule: encrypt_reserve_cases) simp_all
  have "send_key (revoke s1) = replicate 32 0"
    using assms(2) by (simp add: revoke_def s1 zeroize_eq KEY_SIZE_def)
  then have "sym_encrypt P n m (send_key (revoke s1)) (Some (message_ad s q)) =
      Inr (aesgcm_encrypt P (replicate 32 0) n m (Some (message_ad s q)), n)"
    by (simp add: KEY_SIZE_def)
  then show ?thesis
    using assms(1,3)
    by (simp add: encrypt_finish_def message_ad_def revoke_def s1 sym_decrypt_def aead_lawsD KEY_SIZE_def)
qed

theorem session_revoke_race_witness:
  "\<exists>ct. sym_decrypt demo_prims ct (replicate 12 4) (replicate 32 0)
     (Some (message_ad (demo_session True True) 0)) = Inr [42]"
proof -
  let ?s = "demo_session True True"
  have "encrypt_reserve 1 ?s = (Inr 0, ?s\<lparr>send_seq := 1\<rparr>)"
    by (simp add: encrypt_reserve_def check_active_def evaluate_expiry_def received_count_def
        demo_session_def default_config_def)
  from session_revoke_race [OF demo_aead _ _ this, of "replicate 12 4" 1 "[42]"] show ?thesis
    by (auto simp: demo_session_def KEY_SIZE_def NONCE_SIZE_def)
qed

section \<open>Well-formed sessions\<close>

text \<open>The invariant of the object: keys of the right length, wiped once the session is revoked; counters that
  are not negative; only the receive state of the mode in force is used; the set of numbers seen is
  finite and bounded, and \<open>max_seen_seq\<close> is its maximum.\<close>

definition window_wf :: "session \<Rightarrow> bool" where
  "window_wf s \<longleftrightarrow> finite (seen_seqs s) \<and> (\<forall>q \<in> seen_seqs s. 0 \<le> q) \<and>
     int (card (seen_seqs s)) \<le> 2 * WINDOW_SIZE \<and> max_ok (seen_seqs s) (max_seen_seq s)"

definition session_wf :: "session \<Rightarrow> bool" where
  "session_wf s \<longleftrightarrow> length (send_key s) = 32 \<and> length (recv_key s) = 32 \<and>
     (s_state s = REVOKED \<longrightarrow> send_key s = replicate 32 0 \<and> recv_key s = replicate 32 0) \<and>
     0 \<le> send_seq s \<and> 0 \<le> recv_seq s \<and> 0 \<le> recv_count s \<and> window_wf s \<and>
     (if enforce_ordering (s_config s) then seen_seqs s = {} \<and> recv_count s = 0 else recv_seq s = 0)"

lemma expiry_revoked [simp]: "s_state (evaluate_expiry t s) = REVOKED \<longleftrightarrow> s_state s = REVOKED"
  by (simp add: evaluate_expiry_def)

lemma wf_expiry [simp]: "session_wf (evaluate_expiry t s) = session_wf s"
  by (simp add: session_wf_def window_wf_def)

lemma wf_check_active: "check_active t s = (r, s') \<Longrightarrow> session_wf s' = session_wf s"
  by (metis check_active_snd snd_conv wf_expiry)

lemma wf_encrypt:
  assumes "session_wf s" and "session_encrypt P n t1 t2 m s = (r, s')"
  shows "session_wf s'"
proof -
  obtain ra s1 where a: "check_active t1 s = (ra, s1)" by (rule prod.exhaust)
  have w: "session_wf s1" using assms(1) wf_check_active [OF a] by simp
  then have "session_wf (s1\<lparr>send_seq := send_seq s1 + 1\<rparr>)" by (simp add: session_wf_def window_wf_def)
  with w assms(2) a show ?thesis
    by (auto simp: session_encrypt_def encrypt_reserve_def encrypt_finish_def split: sum.splits prod.splits)
qed

lemma card_recent: "int (card {n \<in> S. m - WINDOW_SIZE + 1 \<le> n}) \<le> 2 * WINDOW_SIZE" if "\<forall>n \<in> S. n \<le> m" for S :: "int set"
proof -
  have "{n \<in> S. m - WINDOW_SIZE + 1 \<le> n} \<subseteq> {m - WINDOW_SIZE + 1 .. m}" using that by auto
  then have "card {n \<in> S. m - WINDOW_SIZE + 1 \<le> n} \<le> card {m - WINDOW_SIZE + 1 .. m}" by (intro card_mono) simp_all
  then show ?thesis by (simp add: WINDOW_SIZE_def)
qed

lemma max_ok_le: "max_ok S m \<Longrightarrow> n \<in> S \<Longrightarrow> n \<le> m"
  by (auto simp: max_ok_def split: if_splits)

lemma window_pruned:
  assumes "window_wf s" and "0 \<le> q"
  shows "finite (pruned q s)" "\<forall>n \<in> pruned q s. 0 \<le> n" "int (card (pruned q s)) \<le> 2 * WINDOW_SIZE"
    "max_ok (pruned q s) (max (max_seen_seq s) q)"
proof -
  let ?S = "insert q (seen_seqs s)" and ?m = "max (max_seen_seq s) q"
  have s: "finite (seen_seqs s)" "\<forall>n \<in> seen_seqs s. 0 \<le> n" "max_ok (seen_seqs s) (max_seen_seq s)"
    using assms(1) by (simp_all add: window_wf_def)
  have le: "\<forall>n \<in> ?S. n \<le> ?m" using max_ok_le [OF s(3)] by (auto simp: le_max_iff_disj)
  have "?m \<in> ?S" using s(3) assms(2) by (cases "seen_seqs s = {}") (auto simp: max_ok_def max_def)
  then have m: "?m \<in> pruned q s" by (simp add: pruned_def Let_def WINDOW_SIZE_def)
  have sub: "pruned q s \<subseteq> ?S" by (rule pruned_sub)
  show "finite (pruned q s)" "\<forall>n \<in> pruned q s. 0 \<le> n"
    using sub s assms(2) by (auto intro: finite_subset)
  show "int (card (pruned q s)) \<le> 2 * WINDOW_SIZE"
    using card_recent [OF le] by (simp add: pruned_def Let_def)
  show "max_ok (pruned q s) ?m" using m sub le by (auto simp: max_ok_def)
qed

lemma wf_admit:
  assumes "session_wf s" and "admit q s = (Inr u, s')" and "0 \<le> q"
  shows "session_wf s'"
proof (cases "enforce_ordering (s_config s)")
  case True
  with assms show ?thesis by (auto simp: admit_ordered_ok session_wf_def window_wf_def)
next
  case False
  then have "s' = s\<lparr>seen_seqs := pruned q s, max_seen_seq := max (max_seen_seq s) q, recv_count := recv_count s + 1\<rparr>"
    using assms(2) by (simp add: admit_window_ok)
  with False assms(1) window_pruned [of s q] assms(3) show ?thesis by (auto simp: session_wf_def window_wf_def)
qed

lemma wf_rollback:
  assumes "session_wf s" and "0 \<le> q"
  shows "session_wf (rollback q s)"
proof (cases "enforce_ordering (s_config s)")
  case True
  with assms show ?thesis by (auto simp: rollback_def session_wf_def window_wf_def)
next
  case False
  let ?S = "seen_seqs s - {q}"
  have w: "finite (seen_seqs s)" "max_ok (seen_seqs s) (max_seen_seq s)" "int (card (seen_seqs s)) \<le> 2 * WINDOW_SIZE"
    using assms(1) by (simp_all add: session_wf_def window_wf_def)
  have "card ?S \<le> card (seen_seqs s)" by (intro card_mono w) auto
  with w(3) have c: "int (card ?S) \<le> 2 * WINDOW_SIZE" by linarith
  define m where "m = (if q = max_seen_seq s then if ?S = {} then -1 else Max ?S else max_seen_seq s)"
  define n where "n = (if 0 < recv_count s then recv_count s - 1 else recv_count s)"
  have "max_ok ?S (max_seen_seq s)" if "q \<noteq> max_seen_seq s" using that w(2) by (auto simp: max_ok_def split: if_splits)
  then have m: "max_ok ?S m" unfolding m_def using max_ok_Max [OF finite_Diff [OF w(1)], of "{q}"] by presburger
  have "rollback q s = s\<lparr>seen_seqs := ?S, recv_count := n, max_seen_seq := m\<rparr>"
    using False by (simp add: rollback_def Let_def m_def n_def)
  moreover have "0 \<le> n" using assms(1) by (simp add: n_def session_wf_def)
  ultimately show ?thesis using False assms(1) c m by (simp add: session_wf_def window_wf_def)
qed

lemma wf_decrypt:
  assumes "session_wf s" and "session_decrypt P t1 t2 d s = (r, s')"
  shows "session_wf s'"
proof (cases "decrypt_parse s d")
  case (Inl e)
  with assms show ?thesis by (simp add: session_decrypt_def)
next
  case (Inr x)
  then obtain q ct n where p: "decrypt_parse s d = Inr (q, ct, n)" by (cases x) auto
  have q: "0 \<le> q" using decrypt_parse_ok [OF p] by simp
  obtain rl sl where l: "decrypt_locked P t1 q ct n s = (rl, sl)" by (rule prod.exhaust)
  obtain ra s1 where a: "check_active t1 s = (ra, s1)" by (rule prod.exhaust)
  obtain rb s2 where b: "admit q s1 = (rb, s2)" by (rule prod.exhaust)
  have w: "session_wf s1" using assms(1) wf_check_active [OF a] by simp
  then have "session_wf s2"
    using wf_admit [OF w _ q] b admit_fail by (cases rb) auto
  with w wf_rollback [OF _ q] l a b have "session_wf sl"
    by (auto simp: decrypt_locked_def split: sum.splits)
  with p l assms(2) show ?thesis by (auto simp: session_decrypt_def split: sum.splits)
qed

lemma derive_length: "hkdf_laws P \<Longrightarrow> derive_key P x 32 None i = Inr k \<Longrightarrow> length k = 32"
  by (rule hkdf_lawsE [of P 32 None i x]) (auto simp: derive_key_def guard_def split: if_splits)

lemma wf_step: "session_wf s \<Longrightarrow> session_wf (snd (session_step P x s))"
proof (cases x)
  case Revoke
  assume "session_wf s"
  with Revoke show ?thesis by (simp add: session_wf_def window_wf_def revoke_def zeroize_def map_replicate_const)
qed (auto split: prod.splits sum.splits intro: wf_encrypt wf_decrypt)

lemma wf_run: "session_wf s \<Longrightarrow> session_wf (snd (session_run P ops s))"
  by (induction ops arbitrary: s) (auto simp: split_beta wf_step)

text \<open>C14: Every session object is well formed at any time, whatever calls are made and whatever payloads
  arrive: keys of 32 bytes, zero once revoked; no negative counter; a record of the receive state of
  one mode only; and at most 256 remembered sequence numbers, of which \<open>max_seen_seq\<close> is the largest.\<close>

theorem session_well_formed:
  assumes "hkdf_laws P" and "session_new P now sid a b secret is_initiator config = Inr s"
    and "session_run P ops (if started then snd (activate s) else s) = (evs, s')"
  shows "session_wf s'"
proof -
  have "session_wf s" using assms(2)
    by (auto simp: session_new_def Let_def res_Inr_iffs session_wf_def window_wf_def max_ok_def WINDOW_SIZE_def
        derive_length [OF assms(1)])
  then have "session_wf (if started then snd (activate s) else s)"
    by (auto simp: activate_def session_wf_def window_wf_def)
  from wf_run [OF this, of P ops] assms(3) show ?thesis by simp
qed

theorem session_well_formed_witness:
  "\<exists>s. session_new demo_prims 0 ''s'' ''a'' ''b'' (replicate 32 7) True None = Inr s \<and>
     session_wf (snd (session_run demo_prims [Decrypt 1 1 (demo_payload 7), Query 5, Revoke] (snd (activate s))))"
proof -
  have "\<exists>k. derive_key demo_prims (replicate 32 7) 32 None i = Inr k" for i
    by (rule hkdf_lawsE [OF demo_hkdf, of 32 None i "replicate 32 7"]) (simp_all add: derive_key_def guard_def)
  then obtain s where s: "session_new demo_prims 0 ''s'' ''a'' ''b'' (replicate 32 7) True None = Inr s"
    by (auto simp: session_new_def Let_def) (metis rbind_simps(2))
  from session_well_formed [OF demo_hkdf s, where started = True, OF prod.collapse [symmetric]] s show ?thesis
    unfolding if_True by blast
qed

end
