(* ===== verification/Hybrid.thy ===== *)
theory Hybrid
  imports Crypto
begin

text \<open>
  \<open>uxsp/crypto/hybrid.py\<close>: length-prefixed field binding, the hybrid key exchange
  (X25519 and ML-KEM), hybrid signatures (Ed25519 and ML-DSA), and sealed envelopes with
  the validation that precedes their opening. Keypairs and public key sets are the
  dictionaries the code passes around, so that a missing entry is an error of the model
  too. Lemmas: \<open>bind_fields\<close> is injective, \<open>seal\<close> and \<open>open_seal\<close> are inverse, and an
  envelope that verifies is fresh, meant for this recipient, and signed as a whole.
\<close>

type_synonym keypair = "(string \<times> (string \<times> bytes) list) list"
type_synonym pubkeys = "(string \<times> bytes) list"

section \<open>Field binding\<close>

fun bind_fields :: "bytes list \<Rightarrow> bytes res" where
  "bind_fields [] = Inr []"
| "bind_fields (f # fs) =
     guard (int (length f) \<le> 0xFFFFFFFF) ValueError
       (rbind (bind_fields fs) (\<lambda>r. Inr (be_bytes 4 (length f) @ f @ r)))"

section \<open>Key sets\<close>

definition private_key :: "keypair \<Rightarrow> string \<Rightarrow> bytes res" where
  "private_key kp alg = rbind (subscript kp alg) (\<lambda>d. subscript d ''private_key'')"

definition public_key :: "keypair \<Rightarrow> string \<Rightarrow> bytes res" where
  "public_key kp alg = rbind (subscript kp alg) (\<lambda>d. subscript d ''public_key'')"

definition extract_public_keys :: "keypair \<Rightarrow> pubkeys res" where
  "extract_public_keys kp = rescue (\<lambda>e. e = KeyError) ValueError
     (rbind (public_key kp ''exchange'') (\<lambda>e.
      rbind (public_key kp ''kem'') (\<lambda>k.
      rbind (public_key kp ''signing'') (\<lambda>s.
      rbind (public_key kp ''pqc_sig'') (\<lambda>q.
      Inr [(''exchange_pub'', e), (''kem_pub'', k), (''signing_pub'', s), (''pqc_sig_pub'', q)])))))"

text \<open>The generators: the private key, drawn at random, is an argument, and the name of the
  algorithm is held as its bytes.\<close>

definition generate_exchange_keypair :: "prims \<Rightarrow> bytes \<Rightarrow> (string \<times> bytes) list" where
  "generate_exchange_keypair P sk = [(''private_key'', sk), (''public_key'', x25519_public P sk)]"

definition generate_signing_keypair :: "prims \<Rightarrow> bytes \<Rightarrow> (string \<times> bytes) list" where
  "generate_signing_keypair P sk = [(''private_key'', sk), (''public_key'', ed25519_public P sk)]"

definition generate_kem_keypair :: "prims \<Rightarrow> bytes \<Rightarrow> (string \<times> bytes) list res" where
  "generate_kem_keypair P sk = guard (kem_algorithm P \<noteq> []) RuntimeError
     (Inr [(''public_key'', kem_public P sk), (''private_key'', sk),
           (''algorithm'', utf8 (kem_algorithm P))])"

definition generate_sig_keypair :: "prims \<Rightarrow> bytes \<Rightarrow> (string \<times> bytes) list res" where
  "generate_sig_keypair P sk = guard (sig_algorithm P \<noteq> []) RuntimeError
     (Inr [(''public_key'', mldsa_public P sk), (''private_key'', sk),
           (''algorithm'', utf8 (sig_algorithm P))])"

definition generate_hybrid_keypair :: "prims \<Rightarrow> bytes \<Rightarrow> bytes \<Rightarrow> bytes \<Rightarrow> bytes \<Rightarrow> keypair res" where
  "generate_hybrid_keypair P xsk ksk ssk qsk =
     rbind (generate_kem_keypair P ksk) (\<lambda>k.
     rbind (generate_sig_keypair P qsk) (\<lambda>q.
     Inr [(''exchange'', generate_exchange_keypair P xsk), (''kem'', k),
          (''signing'', generate_signing_keypair P ssk), (''pqc_sig'', q)]))"

section \<open>Key exchange\<close>

definition exchange_info :: bytes where
  "exchange_info = utf8 ''UXSP-hybrid-key-exchange-v1''"

definition hybrid_sender_exchange :: "prims \<Rightarrow> bytes \<Rightarrow> bytes \<Rightarrow> pubkeys \<Rightarrow>
    (bytes \<times> bytes \<times> bytes) res" where
  \<comment> \<open>ephemeral private key and KEM randomness; the shared key, the ephemeral public key and
      the KEM ciphertext\<close>
  "hybrid_sender_exchange P eph rnd pks =
     rbind (subscript pks ''exchange_pub'') (\<lambda>xpub.
     rbind (compute_shared_secret P eph xpub) (\<lambda>classical.
     rbind (subscript pks ''kem_pub'') (\<lambda>kpub.
     rbind (encapsulate P rnd kpub) (\<lambda>(ct, pqc).
     rbind (derive_key P (classical @ pqc) 32 (Some (x25519_public P eph)) exchange_info) (\<lambda>k.
     Inr (k, x25519_public P eph, ct))))))"

definition hybrid_recipient_exchange :: "prims \<Rightarrow> bytes \<Rightarrow> bytes \<Rightarrow> keypair \<Rightarrow> bool \<Rightarrow> bytes res" where
  "hybrid_recipient_exchange P ephemeral_pub kem_ciphertext kp is_classical_only =
     rbind (rescue (\<lambda>e. e = KeyError) ValueError
       (rbind (private_key kp ''exchange'') (\<lambda>xsk.
        rbind (compute_shared_secret P xsk ephemeral_pub) (\<lambda>classical.
        rbind (if is_classical_only then Inr []
               else rbind (private_key kp ''kem'') (\<lambda>ksk. decapsulate P kem_ciphertext ksk)) (\<lambda>pqc.
        Inr (classical @ pqc)))))) (\<lambda>combined.
     derive_key P combined 32 (Some ephemeral_pub) exchange_info)"

section \<open>Signatures\<close>

definition hybrid_sign :: "prims \<Rightarrow> bytes \<Rightarrow> bytes \<Rightarrow> keypair \<Rightarrow> dict res" where
  "hybrid_sign P rnd message kp =
     rescue (\<lambda>e. e = AttributeError \<or> e = KeyError) ValueError
      (rbind (private_key kp ''signing'') (\<lambda>ssk.
       rbind (ed_sign P message ssk) (\<lambda>c.
       rbind (private_key kp ''pqc_sig'') (\<lambda>qsk.
       rbind (pqc_sign P rnd message qsk) (\<lambda>q.
       Inr [(''classical_sig'', PStr (hex c)), (''pqc_sig'', PStr (hex q))])))))"

definition hybrid_verify :: "prims \<Rightarrow> bytes \<Rightarrow> dict \<Rightarrow> pubkeys \<Rightarrow> bool \<Rightarrow> bool res" where
  "hybrid_verify P message signatures pks allow_classical_only =
     rbind (rescue (\<lambda>e. is_ValueTypeError e \<or> e = KeyError) HybridEnvelopeValidationError
       (rbind (rbind (subscript signatures ''classical_sig'') py_fromhex) (\<lambda>c.
        rbind (if allow_classical_only then Inr []
               else rbind (subscript signatures ''pqc_sig'') py_fromhex) (\<lambda>q.
        Inr (c, q))))) (\<lambda>(c, q).
     rbind (rescue (\<lambda>e. e = KeyError) HybridEnvelopeValidationError
       (rbind (subscript pks ''signing_pub'') (\<lambda>spub.
        rbind (if allow_classical_only then Inr [] else subscript pks ''pqc_sig_pub'') (\<lambda>qpub.
        Inr (spub, qpub))))) (\<lambda>(spub, qpub).
     if \<not> ed_verify P message c spub then Inr False
     else if allow_classical_only then Inr True
     else pqc_verify P message q qpub))"

section \<open>Sealing\<close>

record seal_random =
  r_ephemeral :: bytes   \<comment> \<open>ephemeral X25519 private key\<close>
  r_kem :: bytes
  r_nonce :: bytes       \<comment> \<open>AES-GCM nonce\<close>
  r_env :: bytes         \<comment> \<open>the 16 bytes of \<open>envelope_nonce\<close>\<close>
  r_sig :: bytes

definition seal_fields :: "bytes \<Rightarrow> bytes \<Rightarrow> string \<Rightarrow> string \<Rightarrow> int \<Rightarrow> string \<Rightarrow> bytes \<Rightarrow> bytes \<Rightarrow>
    bytes list" where
  "seal_fields ct nonce sender recipient ts env_nonce epub kct =
     [utf8 ''UXSP-1'', ct, nonce, utf8 sender, utf8 recipient, utf8 (str_int ts),
      utf8 env_nonce, epub, kct]"

definition seal :: "prims \<Rightarrow> seal_random \<Rightarrow> time \<Rightarrow> bytes \<Rightarrow> keypair \<Rightarrow> pubkeys \<Rightarrow> string \<Rightarrow> string \<Rightarrow>
    bytes \<Rightarrow> dict res" where
  "seal P R now plaintext sender_keypair recipient_public_keys sender recipient ad =
     guard (sender \<noteq> []) ValueError
      (guard (recipient \<noteq> []) ValueError
        (rbind (hybrid_sender_exchange P (r_ephemeral R) (r_kem R) recipient_public_keys)
          (\<lambda>(key, epub, kct).
         rbind (sym_encrypt P (r_nonce R) plaintext key (Some ad)) (\<lambda>(ct, nonce).
         let env_nonce = hex (r_env R); ts = trunc now
         in rbind (bind_fields (seal_fields ct nonce sender recipient ts env_nonce epub kct)) (\<lambda>signable.
            rbind (hybrid_sign P (r_sig R) signable sender_keypair) (\<lambda>sigs.
            Inr [(''version'', PStr ''UXSP-1''), (''sender_id'', PStr sender),
                 (''recipient_id'', PStr recipient), (''timestamp'', PInt ts),
                 (''envelope_nonce'', PStr env_nonce), (''ciphertext'', PStr (hex ct)),
                 (''nonce'', PStr (hex nonce)), (''ephemeral_pub'', PStr (hex epub)),
                 (''kem_ciphertext'', PStr (hex kct)),
                 (''classical_sig'', dget sigs ''classical_sig''),
                 (''pqc_sig'', dget sigs ''pqc_sig'')]))))))"

section \<open>Opening\<close>

record open_ctx =
  o_timestamp :: int
  o_sender_id :: string
  o_recipient_id :: string
  o_envelope_nonce :: string
  o_classical_sig :: pyval
  o_pqc_sig :: pyval
  o_ciphertext :: bytes
  o_nonce :: bytes
  o_ephemeral_pub :: bytes
  o_kem_ciphertext :: bytes
  o_is_classical_only :: bool

definition required_fields :: "bool \<Rightarrow> string list" where
  "required_fields is_classical_only =
     [''ciphertext'', ''nonce'', ''sender_id'', ''recipient_id'', ''timestamp'',
      ''envelope_nonce'', ''ephemeral_pub'', ''classical_sig''] @
     (if is_classical_only then [] else [''kem_ciphertext'', ''pqc_sig''])"

fun nonempty_str :: "pyval \<Rightarrow> string option" where
  "nonempty_str (PStr s) = (if s = [] then None else Some s)"
| "nonempty_str _ = None"

definition require_str :: "dict \<Rightarrow> string \<Rightarrow> string res" where
  "require_str d k = (case nonempty_str (dget d k) of
     None \<Rightarrow> Inl HybridEnvelopeValidationError | Some s \<Rightarrow> Inr s)"

definition require_open_context :: "time \<Rightarrow> dict \<Rightarrow> string option \<Rightarrow> int \<Rightarrow> int \<Rightarrow> bool \<Rightarrow>
    open_ctx res" where
  "require_open_context now env expected_recipient max_age skew allow_classical_only =
     guard (dget env ''version'' = PStr ''UXSP-1'') HybridEnvelopeValidationError
      (let classical = (dget env ''pqc_mode'' = PStr ''none'')
       in guard (classical \<longrightarrow> allow_classical_only) HybridEnvelopeValidationError
       (guard (\<forall>f \<in> set (required_fields classical). has_key env f) HybridEnvelopeValidationError
       (rbind (rescue is_ValueTypeError HybridEnvelopeValidationError (py_int (dget env ''timestamp'')))
        (\<lambda>ts.
       rbind (age_of now ts) (\<lambda>age.
       guard (age \<le> of_int max_age) HybridEnvelopeValidationError
       (guard (- of_int skew \<le> age) HybridEnvelopeValidationError
       (guard (case expected_recipient of None \<Rightarrow> True | Some r \<Rightarrow> dget env ''recipient_id'' = PStr r)
         HybridEnvelopeValidationError
       (rbind (require_str env ''sender_id'') (\<lambda>sender.
       rbind (require_str env ''recipient_id'') (\<lambda>recipient.
       rbind (require_str env ''envelope_nonce'') (\<lambda>env_nonce.
       rbind (rescue is_ValueTypeError HybridEnvelopeValidationError
          (rbind (py_fromhex (dget env ''ciphertext'')) (\<lambda>ct.
           rbind (py_fromhex (dget env ''nonce'')) (\<lambda>nonce.
           rbind (py_fromhex (dget env ''ephemeral_pub'')) (\<lambda>epub.
           rbind (if classical then Inr [] else py_fromhex (dget env ''kem_ciphertext'')) (\<lambda>kct.
           Inr (ct, nonce, epub, kct))))))) (\<lambda>(ct, nonce, epub, kct).
       Inr \<lparr>o_timestamp = ts, o_sender_id = sender, o_recipient_id = recipient,
            o_envelope_nonce = env_nonce, o_classical_sig = dget env ''classical_sig'',
            o_pqc_sig = (if has_key env ''pqc_sig'' then dget env ''pqc_sig'' else PStr []),
            o_ciphertext = ct, o_nonce = nonce, o_ephemeral_pub = epub,
            o_kem_ciphertext = kct, o_is_classical_only = classical\<rparr>))))))))))))"

definition ctx_fields :: "open_ctx \<Rightarrow> bytes list" where
  "ctx_fields c = seal_fields (o_ciphertext c) (o_nonce c) (o_sender_id c) (o_recipient_id c)
     (o_timestamp c) (o_envelope_nonce c) (o_ephemeral_pub c) (o_kem_ciphertext c)"

definition verify_envelope :: "prims \<Rightarrow> time \<Rightarrow> dict \<Rightarrow> pubkeys \<Rightarrow> string option \<Rightarrow> string option \<Rightarrow>
    int \<Rightarrow> int \<Rightarrow> bool \<Rightarrow> open_ctx res" where
  "verify_envelope P now env sender_pks expected_recipient expected_sender max_age skew
      allow_classical_only =
     rbind (require_open_context now env expected_recipient max_age skew allow_classical_only) (\<lambda>c.
     guard (case expected_sender of None \<Rightarrow> True | Some s \<Rightarrow> o_sender_id c = s)
       HybridEnvelopeValidationError
     (rbind (bind_fields (ctx_fields c)) (\<lambda>signable.
      rbind (hybrid_verify P signable
         ([(''classical_sig'', o_classical_sig c)] @
          (if o_is_classical_only c then [] else [(''pqc_sig'', o_pqc_sig c)]))
         sender_pks (o_is_classical_only c)) (\<lambda>ok.
      guard ok HybridEnvelopeValidationError (Inr c)))))"

definition decrypt_verified_envelope :: "prims \<Rightarrow> open_ctx \<Rightarrow> keypair \<Rightarrow> bytes \<Rightarrow> bytes res" where
  "decrypt_verified_envelope P c kp ad =
     rbind (hybrid_recipient_exchange P (o_ephemeral_pub c) (o_kem_ciphertext c) kp
       (o_is_classical_only c)) (\<lambda>key.
     sym_decrypt P (o_ciphertext c) (o_nonce c) key (Some ad))"

definition open_seal :: "prims \<Rightarrow> time \<Rightarrow> dict \<Rightarrow> keypair \<Rightarrow> pubkeys \<Rightarrow> string option \<Rightarrow>
    string option \<Rightarrow> int \<Rightarrow> int \<Rightarrow> bool \<Rightarrow> bytes \<Rightarrow> bytes res" where
  "open_seal P now env recipient_keypair sender_pks expected_recipient expected_sender max_age
      skew allow_classical_only ad =
     rbind (verify_envelope P now env sender_pks expected_recipient expected_sender max_age skew
       allow_classical_only) (\<lambda>c.
     decrypt_verified_envelope P c recipient_keypair ad)"

section \<open>Lemmas: field binding\<close>

lemma bind_fields_Inr_iff:
  "bind_fields (f # fs) = Inr b \<longleftrightarrow> int (length f) \<le> 0xFFFFFFFF \<and>
     (\<exists>r. bind_fields fs = Inr r \<and> b = be_bytes 4 (length f) @ f @ r)"
  by (auto simp: res_Inr_iffs)

lemma bind_fields_ok:
  "(\<exists>b. bind_fields fs = Inr b) \<longleftrightarrow> (\<forall>f \<in> set fs. int (length f) \<le> 0xFFFFFFFF)"
  by (induction fs) (auto simp: bind_fields_Inr_iff simp del: bind_fields.simps(2))

lemma be_bytes_4_nonempty [simp]: "be_bytes 4 n \<noteq> []"
  by (metis length_be_bytes list.size(3) zero_neq_numeral)

lemma bind_fields_inj:
  "bind_fields xs = Inr b \<Longrightarrow> bind_fields ys = Inr b \<Longrightarrow> xs = ys"
proof (induction xs arbitrary: ys b)
  case Nil
  then show ?case
    by (cases ys) (auto simp: bind_fields_Inr_iff simp del: bind_fields.simps(2))
next
  case (Cons f fs)
  obtain r where f: "int (length f) \<le> 0xFFFFFFFF" "bind_fields fs = Inr r"
    "b = be_bytes 4 (length f) @ f @ r"
    using Cons.prems(1) unfolding bind_fields_Inr_iff by blast
  then have "ys \<noteq> []" using Cons.prems(2) by auto
  then obtain g gs where ys: "ys = g # gs" by (cases ys) auto
  obtain r' where g: "int (length g) \<le> 0xFFFFFFFF" "bind_fields gs = Inr r'"
    "b = be_bytes 4 (length g) @ g @ r'"
    using Cons.prems(2) unfolding ys bind_fields_Inr_iff by blast
  have e: "be_bytes 4 (length f) = be_bytes 4 (length g)" "f @ r = g @ r'"
    using f(3) g(3) by simp_all
  have "length f = length g"
    using arg_cong [OF e(1), of be_nat] f(1) g(1) by simp
  with e(2) have "f = g" "r = r'" by auto
  with Cons.IH f(2) g(2) ys show ?case by blast
qed

section \<open>Lemmas: exchange and signatures\<close>

definition is_keypair :: "prims \<Rightarrow> keypair \<Rightarrow> pubkeys \<Rightarrow> bool" where
  \<comment> \<open>a keypair that \<open>generate_hybrid_keypair\<close> made, with its public half\<close>
  "is_keypair P kp pks \<longleftrightarrow> (\<exists>xsk ksk ssk qsk. acceptable_keys P xsk ksk ssk qsk \<and>
     generate_hybrid_keypair P xsk ksk ssk qsk = Inr kp \<and> extract_public_keys kp = Inr pks)"

lemmas generate_defs = generate_hybrid_keypair_def generate_kem_keypair_def generate_sig_keypair_def
  generate_exchange_keypair_def generate_signing_keypair_def

lemma is_keypairE:
  assumes "is_keypair P kp pks"
  obtains xsk ksk ssk qsk where "length xsk = 32" "kem_key P ksk" "ed25519_key P ssk" "mldsa_key P qsk"
    "private_key kp ''exchange'' = Inr xsk" "private_key kp ''kem'' = Inr ksk"
    "private_key kp ''signing'' = Inr ssk" "private_key kp ''pqc_sig'' = Inr qsk"
    "subscript pks ''exchange_pub'' = Inr (x25519_public P xsk)"
    "subscript pks ''kem_pub'' = Inr (kem_public P ksk)"
    "subscript pks ''signing_pub'' = Inr (ed25519_public P ssk)"
    "subscript pks ''pqc_sig_pub'' = Inr (mldsa_public P qsk)"
  using assms unfolding is_keypair_def
  by (auto simp: generate_defs res_Inr_iffs extract_public_keys_def public_key_def private_key_def acceptable_keys_def)

lemma exchange_agree:
  assumes "exchange_laws P" and "hkdf_laws P" and "is_keypair P kp pks" and "length eph = 32"
  shows "\<exists>k ct. hybrid_sender_exchange P eph rnd pks = Inr (k, x25519_public P eph, ct) \<and>
    length k = KEY_SIZE \<and> hybrid_recipient_exchange P (x25519_public P eph) ct kp False = Inr k"
proof -
  obtain xsk ksk where k: "length xsk = 32" "kem_key P ksk"
    "private_key kp ''exchange'' = Inr xsk" "private_key kp ''kem'' = Inr ksk"
    "subscript pks ''exchange_pub'' = Inr (x25519_public P xsk)"
    "subscript pks ''kem_pub'' = Inr (kem_public P ksk)"
    by (rule is_keypairE [OF assms(3)])
  obtain c where c: "x25519_exchange P eph (x25519_public P xsk) = Inr c"
    "x25519_exchange P xsk (x25519_public P eph) = Inr c"
    using assms(1,4) k(1) unfolding exchange_laws_def by blast
  obtain ct ss where ss: "kem_encap P rnd (kem_public P ksk) = Inr (ct, ss)" "kem_decap P ksk ct = Inr ss"
    using assms(1) k(2) unfolding exchange_laws_def by blast
  have "kem_algorithm P \<noteq> []" using assms(1) by (simp add: exchange_laws_def)
  moreover obtain key where "hkdf_sha256 P 32 (Some (x25519_public P eph)) exchange_info (c @ ss) = Inr key"
      "length key = nat 32"
    by (rule hkdf_lawsE [OF assms(2), of 32]) simp_all
  ultimately show ?thesis
    using k c ss by (simp add: hybrid_sender_exchange_def hybrid_recipient_exchange_def
        compute_shared_secret_def encapsulate_def decapsulate_def derive_key_def KEY_SIZE_def)
qed

lemma sign_verify:
  assumes "signature_laws P" and "is_keypair P kp pks"
  shows "\<exists>c q. hybrid_sign P rnd m kp =
      Inr [(''classical_sig'', PStr (hex c)), (''pqc_sig'', PStr (hex q))] \<and>
    hybrid_verify P m [(''classical_sig'', PStr (hex c)), (''pqc_sig'', PStr (hex q))] pks False =
      Inr True"
proof -
  obtain ssk qsk where l: "ed25519_key P ssk" "mldsa_key P qsk" and k: "private_key kp ''signing'' = Inr ssk" "private_key kp ''pqc_sig'' = Inr qsk"
    "subscript pks ''signing_pub'' = Inr (ed25519_public P ssk)"
    "subscript pks ''pqc_sig_pub'' = Inr (mldsa_public P qsk)"
    by (rule is_keypairE [OF assms(2)])
  obtain c where "ed25519_sign P ssk m = Inr c" "ed25519_verify P (ed25519_public P ssk) c m"
    using assms(1) l unfolding signature_laws_def by blast
  moreover obtain q where "mldsa_sign P qsk rnd m = Inr q" "mldsa_verify P m q (mldsa_public P qsk) = Inr True"
    using assms(1) l unfolding signature_laws_def by blast
  moreover have "sig_algorithm P \<noteq> []" using assms(1) by (simp add: signature_laws_def)
  ultimately show ?thesis
    using k by (simp add: hybrid_sign_def hybrid_verify_def ed_sign_def pqc_sign_def ed_verify_def
        pqc_verify_def)
qed

lemma hybrid_verify_True:
  assumes "hybrid_verify P m sigs pks cl = Inr True"
  obtains c spub where "subscript pks ''signing_pub'' = Inr spub"
    "subscript sigs ''classical_sig'' = Inr c"
    "\<exists>s. py_fromhex c = Inr s \<and> ed25519_verify P spub s m"
    "\<not> cl \<Longrightarrow> \<exists>q qpub s. subscript pks ''pqc_sig_pub'' = Inr qpub \<and> subscript sigs ''pqc_sig'' = Inr q \<and>
       py_fromhex q = Inr s \<and> mldsa_verify P m s qpub = Inr True"
  using assms
  by (auto simp: hybrid_verify_def res_Inr_iffs ed_verify_def pqc_verify_def
      split: if_splits sum.splits)

lemma verify_envelope_Inr:
  assumes "verify_envelope P now env pks er es ma sk ac = Inr c"
  shows "require_open_context now env er ma sk ac = Inr c \<and>
    (\<forall>s. es = Some s \<longrightarrow> o_sender_id c = s) \<and>
    (\<exists>b. bind_fields (ctx_fields c) = Inr b \<and>
       hybrid_verify P b ([(''classical_sig'', o_classical_sig c)] @
          (if o_is_classical_only c then [] else [(''pqc_sig'', o_pqc_sig c)]))
         pks (o_is_classical_only c) = Inr True)"
  using assms by (auto simp: verify_envelope_def res_Inr_iffs split: option.splits)

lemma require_str_Inr: "require_str d k = Inr v \<longleftrightarrow> dget d k = PStr v \<and> v \<noteq> []"
  by (cases "dget d k") (auto simp: require_str_def)

lemma require_open_context_Inr:
  assumes "require_open_context now env er ma sk ac = Inr c"
  shows "now - of_int (o_timestamp c) \<le> of_int ma \<and> - of_int sk \<le> now - of_int (o_timestamp c) \<and>
    (\<forall>r. er = Some r \<longrightarrow> o_recipient_id c = r) \<and> o_sender_id c \<noteq> [] \<and> o_recipient_id c \<noteq> [] \<and>
    (o_is_classical_only c \<longrightarrow> ac \<and> o_kem_ciphertext c = [])"
  using assms
  unfolding require_open_context_def Let_def res_Inr_iffs age_of_def require_str_Inr
  by (elim exE conjE) (cases er; force split: prod.splits if_splits)

lemma seal_Inr:
  assumes "seal P R now m skp rpks sid rid ad = Inr env"
  obtains key epub kct ct b sigs where "sid \<noteq> []" "rid \<noteq> []"
    "hybrid_sender_exchange P (r_ephemeral R) (r_kem R) rpks = Inr (key, epub, kct)"
    "sym_encrypt P (r_nonce R) m key (Some ad) = Inr (ct, r_nonce R)"
    "bind_fields (seal_fields ct (r_nonce R) sid rid (trunc now) (hex (r_env R)) epub kct) = Inr b"
    "hybrid_sign P (r_sig R) b skp = Inr sigs"
    "env = [(''version'', PStr ''UXSP-1''), (''sender_id'', PStr sid),
       (''recipient_id'', PStr rid), (''timestamp'', PInt (trunc now)),
       (''envelope_nonce'', PStr (hex (r_env R))), (''ciphertext'', PStr (hex ct)),
       (''nonce'', PStr (hex (r_nonce R))), (''ephemeral_pub'', PStr (hex epub)),
       (''kem_ciphertext'', PStr (hex kct)), (''classical_sig'', dget sigs ''classical_sig''),
       (''pqc_sig'', dget sigs ''pqc_sig'')]"
proof -
  from assms obtain key epub kct ct n b sigs where h: "sid \<noteq> []" "rid \<noteq> []"
    "hybrid_sender_exchange P (r_ephemeral R) (r_kem R) rpks = Inr (key, epub, kct)"
    "sym_encrypt P (r_nonce R) m key (Some ad) = Inr (ct, n)"
    "bind_fields (seal_fields ct n sid rid (trunc now) (hex (r_env R)) epub kct) = Inr b"
    "hybrid_sign P (r_sig R) b skp = Inr sigs"
    "env = [(''version'', PStr ''UXSP-1''), (''sender_id'', PStr sid),
       (''recipient_id'', PStr rid), (''timestamp'', PInt (trunc now)),
       (''envelope_nonce'', PStr (hex (r_env R))), (''ciphertext'', PStr (hex ct)),
       (''nonce'', PStr (hex n)), (''ephemeral_pub'', PStr (hex epub)),
       (''kem_ciphertext'', PStr (hex kct)), (''classical_sig'', dget sigs ''classical_sig''),
       (''pqc_sig'', dget sigs ''pqc_sig'')]"
    by (auto simp: seal_def res_Inr_iffs Let_def)
  then have "n = r_nonce R" by (auto dest: sym_encrypt_nonce)
  with h show ?thesis by (intro that [of key epub kct ct b sigs]) simp_all
qed

lemma hex_nonempty: "b \<noteq> [] \<Longrightarrow> hex b \<noteq> []"
  by (cases b) (simp_all add: hex_Cons)

lemma verify_seal:
  assumes "aead_laws P" and "exchange_laws P" and "hkdf_laws P" and "signature_laws P"
    and "is_keypair P skp spks" and "is_keypair P rkp rpks"
    and "length (r_ephemeral R) = 32" and "length (r_nonce R) = 12" and "r_env R \<noteq> []"
    and "seal P R t1 m skp rpks sid rid ad = Inr env"
    and "\<bar>trunc t1\<bar> \<le> 10 ^ 18 - 1" and "t2 - of_int (trunc t1) \<le> of_int max_age"
    and "- of_int skew \<le> t2 - of_int (trunc t1)"
  shows "\<exists>c. verify_envelope P t2 env spks (Some rid) (Some sid) max_age skew False = Inr c \<and>
    decrypt_verified_envelope P c rkp ad = Inr m"
proof -
  from assms(10) obtain key epub kct ct b sigs where s: "sid \<noteq> []" "rid \<noteq> []"
    "hybrid_sender_exchange P (r_ephemeral R) (r_kem R) rpks = Inr (key, epub, kct)"
    "sym_encrypt P (r_nonce R) m key (Some ad) = Inr (ct, r_nonce R)"
    "bind_fields (seal_fields ct (r_nonce R) sid rid (trunc t1) (hex (r_env R)) epub kct) = Inr b"
    "hybrid_sign P (r_sig R) b skp = Inr sigs"
    "env = [(''version'', PStr ''UXSP-1''), (''sender_id'', PStr sid),
       (''recipient_id'', PStr rid), (''timestamp'', PInt (trunc t1)),
       (''envelope_nonce'', PStr (hex (r_env R))), (''ciphertext'', PStr (hex ct)),
       (''nonce'', PStr (hex (r_nonce R))), (''ephemeral_pub'', PStr (hex epub)),
       (''kem_ciphertext'', PStr (hex kct)), (''classical_sig'', dget sigs ''classical_sig''),
       (''pqc_sig'', dget sigs ''pqc_sig'')]" by (rule seal_Inr)
  obtain c q where g: "sigs = [(''classical_sig'', PStr (hex c)), (''pqc_sig'', PStr (hex q))]"
    and v: "hybrid_verify P b sigs spks False = Inr True"
    using sign_verify [OF assms(4,5), of "r_sig R" b] s(6) by auto
  have x: "hybrid_recipient_exchange P epub kct rkp False = Inr key" "length key = KEY_SIZE"
    using exchange_agree [OF assms(2,3,6,7), of "r_kem R"] s(3) by auto
  have d: "sym_decrypt P ct (r_nonce R) key (Some ad) = Inr m"
    using sym_decrypt_encrypt [OF assms(1) s(4)] assms(8) by (simp add: NONCE_SIZE_def)
  let ?c = "\<lparr>o_timestamp = trunc t1, o_sender_id = sid, o_recipient_id = rid,
     o_envelope_nonce = hex (r_env R), o_classical_sig = PStr (hex c), o_pqc_sig = PStr (hex q),
     o_ciphertext = ct, o_nonce = r_nonce R, o_ephemeral_pub = epub, o_kem_ciphertext = kct,
     o_is_classical_only = False\<rparr>"
  have "require_open_context t2 env (Some rid) max_age skew False = Inr ?c"
    using assms(9,11-13) s(1,2) hex_nonempty
    by (simp add: s(7) g require_open_context_def dget_def has_key_def required_fields_def
        require_str_def)
  then have "verify_envelope P t2 env spks (Some rid) (Some sid) max_age skew False = Inr ?c"
    using s(5) v g by (simp add: verify_envelope_def ctx_fields_def)
  with x d show ?thesis by (simp add: decrypt_verified_envelope_def)
qed

section \<open>A concrete exchange\<close>

definition demo_keypair :: "byte \<Rightarrow> keypair" where
  "demo_keypair n = projr (generate_hybrid_keypair demo_prims (replicate 32 n) [n] [n] [n])"

definition demo_pubkeys :: "byte \<Rightarrow> pubkeys" where
  "demo_pubkeys n = [(''exchange_pub'', replicate 32 n), (''kem_pub'', [n]), (''signing_pub'', [n]),
     (''pqc_sig_pub'', [n])]"

definition demo_random :: seal_random where
  "demo_random = \<lparr>r_ephemeral = replicate 32 5, r_kem = [6], r_nonce = replicate 12 7,
     r_env = [8], r_sig = [9]\<rparr>"

definition demo_envelope :: dict where
  "demo_envelope = projr (seal demo_prims demo_random 1000 [42] (demo_keypair 1) (demo_pubkeys 2)
     ''alice'' ''bob'' [])"

lemma demo_is_keypair: "is_keypair demo_prims (demo_keypair n) (demo_pubkeys n)"
  unfolding is_keypair_def demo_keypair_def
  by (rule exI [of _ "replicate 32 n"], rule exI [of _ "[n]"], rule exI [of _ "[n]"], rule exI [of _ "[n]"])
    (simp add: generate_defs extract_public_keys_def public_key_def demo_pubkeys_def
      demo_prims_def algorithm_defs acceptable_keys_def)

lemma demo_envelope_ok:
  "seal demo_prims demo_random 1000 [42] (demo_keypair 1) (demo_pubkeys 2) ''alice'' ''bob'' [] =
     Inr demo_envelope"
proof -
  have "is_ok (seal demo_prims demo_random 1000 [42] (demo_keypair 1) (demo_pubkeys 2)
      ''alice'' ''bob'' [])" by code_simp
  then show ?thesis by (auto simp: is_ok_iff demo_envelope_def)
qed

section \<open>Properties\<close>

text \<open>\<open>bind_fields\<close> is injective on lists of fields, also of different lengths: bytes that
  were signed determine every signed field.\<close>

theorem bind_fields_injective:
  assumes "bind_fields xs = Inr b" and "bind_fields ys = Inr b"
  shows "xs = ys"
  using assms by (rule bind_fields_inj)

theorem bind_fields_injective_witness:
  "bind_fields [[1], [2, 3]] \<noteq> bind_fields [[1, 2], [3]]"
proof
  assume e: "bind_fields [[1], [2, 3]] = bind_fields [[1, 2], [3]]"
  obtain b where b: "bind_fields [[1], [2, 3]] = Inr b"
    using bind_fields_ok [of "[[1], [2, 3]]"] by auto
  have "bind_fields [[1, 2], [3]] = Inr b" by (simp only: b e [symmetric])
  from bind_fields_injective [OF b this] show False by simp
qed

text \<open>C22: \<open>open_seal\<close> inverts \<open>seal\<close>: an envelope sealed with a generated keypair for a
  generated keypair opens to the plaintext, for the expected sender and recipient, as long
  as its age stays within the limits.\<close>

theorem open_seal_seal:
  assumes "aead_laws P" and "exchange_laws P" and "hkdf_laws P" and "signature_laws P"
    and "is_keypair P skp spks" and "is_keypair P rkp rpks"
    and "length (r_ephemeral R) = 32" and "length (r_nonce R) = 12" and "r_env R \<noteq> []"
    and "seal P R t1 m skp rpks sid rid ad = Inr env"
    and "\<bar>trunc t1\<bar> \<le> 10 ^ 18 - 1" and "t2 - of_int (trunc t1) \<le> of_int max_age"
    and "- of_int skew \<le> t2 - of_int (trunc t1)"
  shows "open_seal P t2 env rkp spks (Some rid) (Some sid) max_age skew False ad = Inr m"
  using verify_seal [OF assms] by (auto simp: open_seal_def)

theorem open_seal_seal_witness:
  "open_seal demo_prims 1010 demo_envelope (demo_keypair 2) (demo_pubkeys 1) (Some ''bob'')
     (Some ''alice'') 300 30 False [] = Inr [42]"
  by (rule open_seal_seal [OF demo_laws(1) demo_laws(3) demo_laws(2) demo_laws(4) demo_is_keypair
        demo_is_keypair _ _ _ demo_envelope_ok])
    (simp_all add: demo_random_def trunc_def)

text \<open>C23: What acceptance by \<open>verify_envelope\<close> means: the age is within the limits, the
  recipient and sender are the expected ones, both signatures verify under the sender's
  keys over the binding of all fields, and an envelope without the post-quantum half is
  accepted only when the caller allowed it. Because the binding is injective, every envelope
  that verifies with the same signed bytes carries the same fields, the KEM ciphertext
  included.\<close>

theorem verify_envelope_sound:
  assumes "verify_envelope P now env pks er es max_age skew ac = Inr c"
  shows "(now - of_int (o_timestamp c) \<le> of_int max_age \<and> - of_int skew \<le> now - of_int (o_timestamp c)) \<and>
    (\<forall>r. er = Some r \<longrightarrow> o_recipient_id c = r) \<and> (\<forall>s. es = Some s \<longrightarrow> o_sender_id c = s) \<and>
    (\<exists>b. bind_fields (ctx_fields c) = Inr b \<and>
      (\<exists>k g s. subscript pks ''signing_pub'' = Inr k \<and> o_classical_sig c = g \<and> py_fromhex g = Inr s \<and>
         ed25519_verify P k s b) \<and>
      (if o_is_classical_only c then ac \<and> o_kem_ciphertext c = []
       else (\<exists>k s. subscript pks ''pqc_sig_pub'' = Inr k \<and> py_fromhex (o_pqc_sig c) = Inr s \<and>
          mldsa_verify P b s k = Inr True)) \<and>
      (\<forall>c'. bind_fields (ctx_fields c') = Inr b \<longrightarrow> ctx_fields c' = ctx_fields c))"
proof -
  note v = verify_envelope_Inr [OF assms]
  note o = require_open_context_Inr [OF conjunct1 [OF v]]
  from v obtain b where b: "bind_fields (ctx_fields c) = Inr b"
    and h: "hybrid_verify P b ([(''classical_sig'', o_classical_sig c)] @
          (if o_is_classical_only c then [] else [(''pqc_sig'', o_pqc_sig c)]))
         pks (o_is_classical_only c) = Inr True" by blast
  from h have "\<exists>k s. subscript pks ''signing_pub'' = Inr k \<and> py_fromhex (o_classical_sig c) = Inr s \<and>
         ed25519_verify P k s b"
    by (rule hybrid_verify_True) (auto simp: subscript_Inr_iff)
  moreover from h have "\<not> o_is_classical_only c \<Longrightarrow>
      \<exists>k s. subscript pks ''pqc_sig_pub'' = Inr k \<and> py_fromhex (o_pqc_sig c) = Inr s \<and>
        mldsa_verify P b s k = Inr True"
    by (rule hybrid_verify_True) (auto simp: subscript_Inr_iff)
  ultimately show ?thesis using o v b bind_fields_inj by auto
qed

theorem verify_envelope_sound_witness:
  "\<exists>c b. verify_envelope demo_prims 1010 demo_envelope (demo_pubkeys 1) (Some ''bob'') (Some ''alice'')
      300 30 False = Inr c \<and> o_recipient_id c = ''bob'' \<and> bind_fields (ctx_fields c) = Inr b \<and>
      (\<exists>s. ed25519_verify demo_prims [1] s b)"
proof -
  obtain c where c: "verify_envelope demo_prims 1010 demo_envelope (demo_pubkeys 1) (Some ''bob'')
      (Some ''alice'') 300 30 False = Inr c"
    using verify_seal [OF demo_laws(1) demo_laws(3) demo_laws(2) demo_laws(4) demo_is_keypair
        demo_is_keypair _ _ _ demo_envelope_ok, of 1010 300 30]
    by (auto simp: demo_random_def trunc_def)
  have k: "subscript (demo_pubkeys 1) ''signing_pub'' = Inr [1]"
    by (simp add: demo_pubkeys_def)
  from verify_envelope_sound [OF c] c k show ?thesis by auto
qed

end
