(* ===== verification/Json.thy ===== *)
theory Json
  imports Prelude "HOL-Library.Char_ord" "HOL-Library.List_Lexorder"
begin

text \<open>
  \<open>json.dumps\<close> and \<open>json.loads\<close> of the standard library, as far as the program uses
  them: \<open>ensure_ascii\<close> text with the default or the compact separators, optionally with
  sorted keys, and a strict parser. The decimal text of a finite float is a parameter
  \<open>fr\<close> of the printer. The theorem of the theory is the round trip; the parser
  takes fuel, and two units per character are enough.
\<close>

section \<open>Printing\<close>

definition hex2 :: "nat \<Rightarrow> string" where
  "hex2 n = [hexdigits ! (n div 16), hexdigits ! (n mod 16)]"

definition escape_char :: "char \<Rightarrow> string" where
  "escape_char c = (let n = of_char c :: nat in
     if c = CHR 0x22 then [CHR 0x5C, CHR 0x22]
     else if c = CHR 0x5C then [CHR 0x5C, CHR 0x5C]
     else if n = 10 then [CHR 0x5C, CHR ''n'']
     else if n = 13 then [CHR 0x5C, CHR ''r'']
     else if n = 9 then [CHR 0x5C, CHR ''t'']
     else if n = 12 then [CHR 0x5C, CHR ''f'']
     else if n = 8 then [CHR 0x5C, CHR ''b'']
     else if 32 \<le> n \<and> n \<le> 126 then [c]
     else [CHR 0x5C, CHR ''u'', CHR ''0'', CHR ''0''] @ hex2 n)"

definition quote :: "string \<Rightarrow> string" where
  "quote s = CHR 0x22 # concat (map escape_char s) @ [CHR 0x22]"

definition item_sep :: "bool \<Rightarrow> string" where
  "item_sep tight = (if tight then '','' else '', '')"

definition key_sep :: "bool \<Rightarrow> string" where
  "key_sep tight = (if tight then '':'' else '': '')"

fun dumps :: "(rat \<Rightarrow> string) \<Rightarrow> bool \<Rightarrow> pyval \<Rightarrow> string"
  and dumps_items :: "(rat \<Rightarrow> string) \<Rightarrow> bool \<Rightarrow> pyval list \<Rightarrow> string"
  and dumps_members :: "(rat \<Rightarrow> string) \<Rightarrow> bool \<Rightarrow> (string \<times> pyval) list \<Rightarrow> string" where
  "dumps fr c PNone = ''null''"
| "dumps fr c (PBool b) = (if b then ''true'' else ''false'')"
| "dumps fr c (PInt n) = str_int n"
| "dumps fr c (PFloat x) = (case x of Fin q \<Rightarrow> fr q | PosInf \<Rightarrow> ''Infinity'' | NegInf \<Rightarrow> ''-Infinity''
                              | NaN \<Rightarrow> ''NaN'')"
| "dumps fr c (PStr s) = quote s"
| "dumps fr c (PList vs) = CHR ''['' # dumps_items fr c vs @ '']''"
| "dumps fr c (PDict d) = CHR ''{'' # dumps_members fr c d @ ''}''"
| "dumps_items fr c [] = []"
| "dumps_items fr c (v # vs) =
     dumps fr c v @ (if vs = [] then [] else item_sep c @ dumps_items fr c vs)"
| "dumps_members fr c [] = []"
| "dumps_members fr c ((k, v) # d) =
     quote k @ key_sep c @ dumps fr c v @ (if d = [] then [] else item_sep c @ dumps_members fr c d)"

text \<open>\<open>sort_keys=True\<close>: every object with its keys in the order of their code points.\<close>

fun sort_keys :: "pyval \<Rightarrow> pyval"
  and sort_keys_items :: "pyval list \<Rightarrow> pyval list"
  and sort_keys_members :: "(string \<times> pyval) list \<Rightarrow> (string \<times> pyval) list" where
  "sort_keys (PList vs) = PList (sort_keys_items vs)"
| "sort_keys (PDict d) = PDict (sort_key fst (sort_keys_members d))"
| "sort_keys v = v"
| "sort_keys_items [] = []"
| "sort_keys_items (v # vs) = sort_keys v # sort_keys_items vs"
| "sort_keys_members [] = []"
| "sort_keys_members ((k, v) # d) = (k, sort_keys v) # sort_keys_members d"

section \<open>Parsing\<close>

definition is_ws :: "char \<Rightarrow> bool" where
  "is_ws c \<longleftrightarrow> c \<in> {CHR 0x20, CHR 0x09, CHR 0x0A, CHR 0x0D}"

definition skip_ws :: "string \<Rightarrow> string" where
  "skip_ws s = dropWhile is_ws s"

definition unescape :: "char \<Rightarrow> char option" where
  "unescape e =
     (if e = CHR 0x22 then Some (CHR 0x22) else if e = CHR 0x5C then Some (CHR 0x5C)
      else if e = CHR ''/'' then Some (CHR ''/'') else if e = CHR ''b'' then Some (CHR 0x08)
      else if e = CHR ''f'' then Some (CHR 0x0C) else if e = CHR ''n'' then Some (CHR 0x0A)
      else if e = CHR ''r'' then Some (CHR 0x0D) else if e = CHR ''t'' then Some (CHR 0x09)
      else None)"

definition hex4 :: "char \<Rightarrow> char \<Rightarrow> char \<Rightarrow> char \<Rightarrow> char option" where
  \<comment> \<open>the character of an escape; code points above U+00FF are outside the string model\<close>
  "hex4 a b c d =
     (case (hexval a, hexval b, hexval c, hexval d) of
        (Some w, Some x, Some y, Some z) \<Rightarrow>
          if w = 0 \<and> x = 0 then Some (char_of (16 * y + z)) else None
      | _ \<Rightarrow> None)"

fun pstring :: "string \<Rightarrow> (string \<times> string) option" where
  \<comment> \<open>the rest of a string after its opening quote, and what follows it\<close>
  "pstring [] = None"
| "pstring (c # cs) =
     (if c = CHR 0x22 then Some ([], cs)
      else if c = CHR 0x5C then
        (case cs of
           [] \<Rightarrow> None
         | e # ds \<Rightarrow>
             if e = CHR ''u'' then
               (case ds of
                  a # b # x # y # es \<Rightarrow>
                    (case hex4 a b x y of
                       None \<Rightarrow> None
                     | Some u \<Rightarrow> map_option (\<lambda>(t, r). (u # t, r)) (pstring es))
                | _ \<Rightarrow> None)
             else (case unescape e of
                     None \<Rightarrow> None
                   | Some u \<Rightarrow> map_option (\<lambda>(t, r). (u # t, r)) (pstring ds)))
      else if of_char c < (32 :: nat) then None
      else map_option (\<lambda>(t, r). (c # t, r)) (pstring cs))"

definition is_digit :: "char \<Rightarrow> bool" where
  "is_digit c \<longleftrightarrow> digitval c \<noteq> None"

definition digits_value :: "string \<Rightarrow> nat" where
  "digits_value ds = foldl (\<lambda>a c. a * 10 + (case digitval c of None \<Rightarrow> 0 | Some v \<Rightarrow> v)) 0 ds"

definition pfrac :: "string \<Rightarrow> string \<times> string" where
  \<comment> \<open>the digits of an optional fraction part, and what follows it\<close>
  "pfrac s = (case s of
     c # cs \<Rightarrow> if c = CHR ''.'' \<and> takeWhile is_digit cs \<noteq> []
               then (takeWhile is_digit cs, dropWhile is_digit cs) else ([], s)
   | [] \<Rightarrow> ([], s))"

definition pexp :: "string \<Rightarrow> int option \<times> string" where
  \<comment> \<open>an optional exponent\<close>
  "pexp s = (case s of
     [] \<Rightarrow> (None, s)
   | c # cs \<Rightarrow>
       if c = CHR ''e'' \<or> c = CHR ''E'' then
         let (neg, ds) = (case cs of
               d # ds \<Rightarrow> if d = CHR ''-'' then (True, ds) else if d = CHR ''+'' then (False, ds)
                         else (False, cs)
             | [] \<Rightarrow> (False, cs));
             v = takeWhile is_digit ds
         in if v = [] then (None, s)
            else (Some (if neg then - int (digits_value v) else int (digits_value v)),
                  dropWhile is_digit ds)
       else (None, s))"

definition float_value :: "bool \<Rightarrow> nat \<Rightarrow> string \<Rightarrow> int \<Rightarrow> pyfloat" where
  "float_value neg int_part fs e =
     (let m = of_nat (int_part * 10 ^ length fs + digits_value fs) :: rat;
          k = e - int (length fs);
          q = (if 0 \<le> k then m * 10 ^ nat k else m / 10 ^ nat (- k))
      in if of_int FLOAT_LIMIT \<le> q then (if neg then NegInf else PosInf)
         else Fin (if neg then - q else q))"

definition int_digits :: "string \<Rightarrow> string" where
  \<comment> \<open>no leading zeros\<close>
  "int_digits t = (case t of
     c # cs \<Rightarrow> if c = CHR ''0'' then [c] else takeWhile is_digit t
   | [] \<Rightarrow> [])"

definition pnumber :: "string \<Rightarrow> (pyval \<times> string) option" where
  "pnumber s =
     (let (neg, t) = (case s of c # cs \<Rightarrow> if c = CHR ''-'' then (True, cs) else (False, s)
                              | [] \<Rightarrow> (False, s));
          ds = int_digits t
      in if ds = [] then None
         else
           let n = digits_value ds; r = drop (length ds) t;
               (fs, r1) = pfrac r; (e, r2) = pexp r1
           in if fs = [] \<and> e = None
              then Some (PInt (if neg then - int n else int n), r2)
              else Some (PFloat (float_value neg n fs (case e of None \<Rightarrow> 0 | Some k \<Rightarrow> k)), r2))"

definition strip_prefix :: "string \<Rightarrow> string \<Rightarrow> string option" where
  "strip_prefix p s = (if take (length p) s = p then Some (drop (length p) s) else None)"

definition pconst :: "string \<Rightarrow> (pyval \<times> string) option" where
  "pconst s =
     (case strip_prefix ''null'' s of Some r \<Rightarrow> Some (PNone, r) | None \<Rightarrow>
     (case strip_prefix ''true'' s of Some r \<Rightarrow> Some (PBool True, r) | None \<Rightarrow>
     (case strip_prefix ''false'' s of Some r \<Rightarrow> Some (PBool False, r) | None \<Rightarrow>
     (case strip_prefix ''NaN'' s of Some r \<Rightarrow> Some (PFloat NaN, r) | None \<Rightarrow>
     (case strip_prefix ''Infinity'' s of Some r \<Rightarrow> Some (PFloat PosInf, r) | None \<Rightarrow>
     (case strip_prefix ''-Infinity'' s of Some r \<Rightarrow> Some (PFloat NegInf, r) | None \<Rightarrow>
     pnumber s))))))"

fun pvalue :: "nat \<Rightarrow> string \<Rightarrow> (pyval \<times> string) option"
  and pitems :: "nat \<Rightarrow> string \<Rightarrow> (pyval list \<times> string) option"
  and pmembers :: "nat \<Rightarrow> (string \<times> pyval) list \<Rightarrow> string \<Rightarrow> ((string \<times> pyval) list \<times> string) option"
where
  "pvalue 0 s = None"
| "pvalue (Suc n) s =
     (case s of
        [] \<Rightarrow> None
      | c # cs \<Rightarrow>
          if c = CHR 0x22 then map_option (\<lambda>(t, r). (PStr t, r)) (pstring cs)
          else if c = CHR ''['' then
            (case skip_ws cs of
               [] \<Rightarrow> None
             | d # ds \<Rightarrow> if d = CHR '']'' then Some (PList [], ds)
                         else map_option (\<lambda>(vs, r). (PList vs, r)) (pitems n (d # ds)))
          else if c = CHR ''{'' then
            (case skip_ws cs of
               [] \<Rightarrow> None
             | d # ds \<Rightarrow> if d = CHR ''}'' then Some (PDict [], ds)
                         else map_option (\<lambda>(m, r). (PDict m, r)) (pmembers n [] (d # ds)))
          else pconst s)"
| "pitems 0 s = None"
| "pitems (Suc n) s =
     (case pvalue n s of
        None \<Rightarrow> None
      | Some (v, r) \<Rightarrow>
          (case skip_ws r of
             [] \<Rightarrow> None
           | d # ds \<Rightarrow>
               if d = CHR '']'' then Some ([v], ds)
               else if d = CHR '','' then
                 map_option (\<lambda>(vs, r'). (v # vs, r')) (pitems n (skip_ws ds))
               else None))"
| "pmembers 0 acc s = None"
| "pmembers (Suc n) acc s =
     (case s of
        [] \<Rightarrow> None
      | c # cs \<Rightarrow>
          if c \<noteq> CHR 0x22 then None
          else (case pstring cs of
            None \<Rightarrow> None
          | Some (k, r) \<Rightarrow>
              (case skip_ws r of
                 [] \<Rightarrow> None
               | d # ds \<Rightarrow>
                   if d \<noteq> CHR '':'' then None
                   else (case pvalue n (skip_ws ds) of
                     None \<Rightarrow> None
                   | Some (v, r1) \<Rightarrow>
                       (case skip_ws r1 of
                          [] \<Rightarrow> None
                        | e # es \<Rightarrow>
                            if e = CHR ''}'' then Some (AList.update k v acc, es)
                            else if e = CHR '','' then pmembers n (AList.update k v acc) (skip_ws es)
                            else None)))))"

definition loads :: "string \<Rightarrow> pyval res" where
  "loads s =
     (case pvalue (2 * length s + 2) (skip_ws s) of
        Some (v, r) \<Rightarrow> if skip_ws r = [] then Inr v else Inl JSONDecodeError
      | None \<Rightarrow> Inl JSONDecodeError)"

definition loads_bytes :: "bytes \<Rightarrow> pyval res" where
  \<comment> \<open>\<open>json.loads(b.decode("utf-8"))\<close>\<close>
  "loads_bytes b = (case utf8_decode b of None \<Rightarrow> Inl UnicodeDecodeError | Some s \<Rightarrow> loads s)"

section \<open>Lemmas: strings and numbers\<close>

lemma char_code: "char_of (n :: nat) = d \<Longrightarrow> of_char c = n \<Longrightarrow> c = d"
  by auto

lemma char_code_table:
  "char_of (34 :: nat) = CHR 0x22" "char_of (92 :: nat) = CHR 0x5C" "char_of (10 :: nat) = CHR 0x0A"
  "char_of (13 :: nat) = CHR 0x0D" "char_of (9 :: nat) = CHR 0x09" "char_of (12 :: nat) = CHR 0x0C"
  "char_of (8 :: nat) = CHR 0x08"
  by code_simp+

lemmas char_codes = char_code_table [THEN char_code]

lemma hex4_hex2: "n < 256 \<Longrightarrow>
  hex4 (CHR ''0'') (CHR ''0'') (hexdigits ! (n div 16)) (hexdigits ! (n mod 16)) = Some (char_of n)"
proof -
  assume "n < 256"
  then have "n div 16 < 16" "n mod 16 < 16" by auto
  then show ?thesis
    using hexval_hexdigit [of "n div 16"] hexval_hexdigit [of "n mod 16"]
    by (simp add: hex4_def hexval_def [of "CHR ''0''"])
qed

lemma pstring_escape:
  "pstring (escape_char c @ t) = map_option (\<lambda>(x, r). (c # x, r)) (pstring t)"
proof -
  let ?n = "of_char c :: nat"
  consider "?n = 34" | "?n = 92" | "?n = 10" | "?n = 13" | "?n = 9" | "?n = 12" | "?n = 8"
    | "32 \<le> ?n" "?n \<le> 126" "?n \<noteq> 34" "?n \<noteq> 92"
    | "?n \<notin> {8, 9, 10, 12, 13}" "\<not> (32 \<le> ?n \<and> ?n \<le> 126)"
    by fastforce
  then show ?thesis
  proof cases
    case 8
    then have "c \<noteq> CHR 0x22" "c \<noteq> CHR 0x5C" by auto
    with 8 show ?thesis by (auto simp: escape_char_def Let_def)
  next
    case 9
    then have "c \<noteq> CHR 0x22" "c \<noteq> CHR 0x5C" by auto
    with 9 show ?thesis
      using of_char_less_256 [of c] by (auto simp: escape_char_def Let_def hex2_def hex4_hex2)
  qed (drule char_codes, simp add: escape_char_def unescape_def Let_def)+
qed

lemma pstring_quoted: "pstring (concat (map escape_char s) @ CHR 0x22 # r) = Some (s, r)"
  by (induction s) (simp_all add: pstring_escape)

definition delim :: "string \<Rightarrow> bool" where
  \<comment> \<open>what follows does not continue a number\<close>
  "delim r = (case r of [] \<Rightarrow> True
     | c # _ \<Rightarrow> \<not> is_digit c \<and> c \<noteq> CHR ''.'' \<and> c \<noteq> CHR ''e'' \<and> c \<noteq> CHR ''E'')"

lemma is_digit_digit [simp]: "n < 10 \<Longrightarrow> is_digit (digit n)"
  by (simp add: is_digit_def)

lemma str_nat_all_digits: "c \<in> set (str_nat n) \<Longrightarrow> is_digit c"
  using str_nat_digits by fastforce

lemma takeWhile_str_nat: "delim r \<Longrightarrow> takeWhile is_digit (str_nat n @ r) = str_nat n"
proof -
  assume "delim r"
  then have "takeWhile is_digit r = []" by (cases r) (simp_all add: delim_def)
  then show ?thesis by (simp add: str_nat_all_digits)
qed

lemma digits_value_snoc: "digits_value (ds @ [c]) =
    digits_value ds * 10 + (case digitval c of None \<Rightarrow> 0 | Some v \<Rightarrow> v)"
  by (simp add: digits_value_def)

lemma digits_value_str_nat: "digits_value (str_nat n) = n"
proof (induction n rule: str_nat.induct)
  case (1 n)
  show ?case
  proof (cases "n < 10")
    case True
    then show ?thesis by (simp add: str_nat.simps [of n] digits_value_def)
  next
    case False
    with 1 show ?thesis by (simp add: str_nat.simps [of n] digits_value_snoc)
  qed
qed

lemma digit_inject: "m < 10 \<Longrightarrow> n < 10 \<Longrightarrow> digit m = digit n \<longleftrightarrow> m = n"
  by (metis digitval_digit option.inject)

lemma str_nat_zero: "str_nat n = digit 0 # cs \<Longrightarrow> n = 0"
proof (induction n arbitrary: cs rule: str_nat.induct)
  case (1 n)
  show ?case
  proof (cases "n < 10")
    case True
    with 1 show ?thesis by (auto simp: str_nat.simps [of n] digit_inject)
  next
    case False
    obtain c ds where s: "str_nat (n div 10) = c # ds" by (cases "str_nat (n div 10)") auto
    then have "c = digit 0" using 1(2) False by (simp add: str_nat.simps [of n])
    then have "n div 10 = 0" using 1(1) [of ds] False s by simp
    with False show ?thesis by simp
  qed
qed

lemma digit_0: "digit 0 = CHR ''0''"
  by code_simp

lemma pnumber_digits:
  assumes "delim r"
  shows "int_digits (str_nat n @ r) = str_nat n"
proof (cases "str_nat n")
  case Nil
  then show ?thesis by simp
next
  case (Cons c cs)
  show ?thesis
  proof (cases "c = CHR ''0''")
    case True
    then have "n = 0" using Cons str_nat_zero [of n cs] digit_0 by simp
    with Cons True show ?thesis by (simp add: str_nat.simps [of 0] int_digits_def)
  next
    case False
    with Cons takeWhile_str_nat [OF assms, of n] show ?thesis by (simp add: int_digits_def)
  qed
qed

lemma pfrac_delim: "delim r \<Longrightarrow> pfrac r = ([], r)"
  by (cases r) (simp_all add: pfrac_def delim_def)

lemma pexp_delim: "delim r \<Longrightarrow> pexp r = (None, r)"
  by (cases r) (simp_all add: pexp_def delim_def)

lemma str_nat_first: "\<exists>k cs. k < 10 \<and> str_nat n = digit k # cs"
proof (cases "str_nat n")
  case (Cons c cs)
  with str_nat_digits [of c n] show ?thesis by auto
qed simp

lemma pnumber_str_int: "delim r \<Longrightarrow> pnumber (str_int n @ r) = Some (PInt n, r)"
proof -
  assume d: "delim r"
  note simps = pnumber_digits [OF d] pfrac_delim [OF d] pexp_delim [OF d] digits_value_str_nat
  show ?thesis
  proof (cases "n < 0")
    case True
    then show ?thesis by (simp add: str_int_def pnumber_def simps)
  next
    case False
    obtain k cs where k: "k < 10" "str_nat (nat n) = digit k # cs" using str_nat_first by blast
    then have "digit k \<noteq> CHR ''-''" using digit_not_space [of k] by simp
    then have "(case str_nat (nat n) @ r of c # cs \<Rightarrow> if c = CHR ''-'' then (True, cs)
        else (False, str_nat (nat n) @ r) | [] \<Rightarrow> (False, str_nat (nat n) @ r)) =
        (False, str_nat (nat n) @ r)"
      by (simp add: k)
    with False show ?thesis by (simp add: str_int_def pnumber_def simps)
  qed
qed

lemma pconst_int: "delim r \<Longrightarrow> pconst (str_int n @ r) = Some (PInt n, r)"
proof -
  assume d: "delim r"
  have dig: "digit k \<notin> {CHR ''n'', CHR ''t'', CHR ''f'', CHR ''N'', CHR ''I'', CHR ''-''}" if "k < 10" for k
    using that of_char_digit [of k] by (auto dest: arg_cong [of _ _ "of_char :: char \<Rightarrow> nat"])
  obtain k cs where k: "k < 10" "str_nat (nat \<bar>n\<bar>) = digit k # cs" using str_nat_first by blast
  have "strip_prefix p (str_int n @ r) = None"
    if "p \<in> {''null'', ''true'', ''false'', ''NaN'', ''Infinity'', ''-Infinity''}" for p
    using that dig [OF k(1)] k(2) by (cases "n < 0") (auto simp: strip_prefix_def str_int_def)
  then show ?thesis by (simp add: pconst_def pnumber_str_int [OF d])
qed

section \<open>Lemmas: the round trip\<close>

fun json_ok :: "pyval \<Rightarrow> bool" where
  \<comment> \<open>no finite float, and every object with distinct keys\<close>
  "json_ok (PFloat (Fin q)) = False"
| "json_ok (PList vs) = (\<forall>v \<in> set vs. json_ok v)"
| "json_ok (PDict d) = (keys_distinct d \<and> (\<forall>p \<in> set d. json_ok (snd p)))"
| "json_ok v = True"

lemma dumps_first:
  assumes "json_ok v"
  obtains c cs where "dumps fr t v = c # cs" "\<not> is_ws c" "c \<noteq> CHR '']''"
proof -
  have dig: "digit k \<notin> {CHR '' '', CHR 0x09, CHR 0x0A, CHR 0x0D, CHR '']''}" if "k < 10" for k
    using that of_char_digit [of k] by (auto dest: arg_cong [of _ _ "of_char :: char \<Rightarrow> nat"])
  show ?thesis
  proof (cases v)
    case (PInt n)
    obtain k cs where "k < 10" "str_nat (nat \<bar>n\<bar>) = digit k # cs" using str_nat_first by blast
    with PInt dig [of k] that show ?thesis
      by (cases "n < 0") (auto simp: str_int_def is_ws_def)
  next
    case (PBool b)
    with that show ?thesis by (cases b) (simp_all add: is_ws_def)
  next
    case (PFloat x)
    with assms that show ?thesis by (cases x) (auto simp: is_ws_def)
  qed (use that in \<open>auto simp: is_ws_def quote_def split: if_splits\<close>)
qed

lemma dumps_nonempty: "json_ok v \<Longrightarrow> 0 < length (dumps fr t v)"
  by (metis dumps_first length_greater_0_conv list.discI)

lemma skip_ws_dumps: "json_ok v \<Longrightarrow> skip_ws (dumps fr t v @ r) = dumps fr t v @ r"
  by (rule dumps_first [of v fr t]) (auto simp: skip_ws_def)

lemma skip_ws_char: "\<not> is_ws c \<Longrightarrow> skip_ws (c # r) = c # r"
  by (simp add: skip_ws_def)

lemma is_ws_simps [simp]: "is_ws CHR '' ''" "\<not> is_ws CHR '',''" "\<not> is_ws CHR '':''" "\<not> is_ws CHR '']''"
  "\<not> is_ws CHR ''}''" "\<not> is_ws CHR 0x22"
  by (simp_all add: is_ws_def)

lemma delim_simps [simp]: "delim []" "delim (CHR '','' # r)" "delim (CHR '']'' # r)" "delim (CHR ''}'' # r)"
  by (simp_all add: delim_def is_digit_def digitval_def)

lemma update_new_key: "k \<notin> fst ` set d \<Longrightarrow> AList.update k v d = d @ [(k, v)]"
  by (induction d) auto

lemma pvalue_Cons_other:
  "c \<notin> {CHR 0x22, CHR ''['', CHR ''{''} \<Longrightarrow> pvalue (Suc n) (c # cs) = pconst (c # cs)"
  by simp

lemma pvalue_int: "0 < n \<Longrightarrow> delim r \<Longrightarrow> pvalue n (str_int i @ r) = Some (PInt i, r)"
proof -
  assume n: "0 < n" and d: "delim r"
  have dig: "digit k \<notin> {CHR 0x22, CHR ''['', CHR ''{''}" if "k < 10" for k
    using that of_char_digit [of k] by (auto dest: arg_cong [of _ _ "of_char :: char \<Rightarrow> nat"])
  obtain k cs where "k < 10" "str_nat (nat \<bar>i\<bar>) = digit k # cs" using str_nat_first by blast
  then obtain c ds where c: "str_int i @ r = c # ds" "c \<notin> {CHR 0x22, CHR ''['', CHR ''{''}"
    using dig [of k] by (cases "i < 0") (auto simp: str_int_def)
  obtain m where m: "n = Suc m" using n by (cases n) simp_all
  have "pvalue n (str_int i @ r) = pconst (str_int i @ r)"
    unfolding c(1) m by (rule pvalue_Cons_other [OF c(2)])
  with pconst_int [OF d] show ?thesis by simp
qed

lemma skip_item_sep: "skip_ws (item_sep t @ r) = CHR '','' # (if t then r else CHR '' '' # r)"
  by (simp add: item_sep_def skip_ws_def)

lemma skip_key_sep: "skip_ws (key_sep t @ r) = CHR '':'' # (if t then r else CHR '' '' # r)"
  by (simp add: key_sep_def skip_ws_def)

lemma skip_ws_space: "skip_ws (if t then r else CHR '' '' # r) = skip_ws r"
  by (simp add: skip_ws_def)

lemma length_seps: "2 \<le> 2 * length (item_sep t)" "2 \<le> 2 * length (key_sep t)"
  by (simp_all add: item_sep_def key_sep_def)

lemma skip_ws_quote: "skip_ws (quote k @ r) = quote k @ r"
  by (simp add: quote_def skip_ws_def)

lemma delim_item_sep: "delim (item_sep t @ r)"
  by (simp add: item_sep_def)

lemma parse_dumps:
  "json_ok v \<Longrightarrow> delim r \<Longrightarrow> 2 * length (dumps fr t v) \<le> n \<Longrightarrow>
     pvalue n (dumps fr t v @ r) = Some (v, r)"
  "\<forall>v \<in> set vs. json_ok v \<Longrightarrow> vs \<noteq> [] \<Longrightarrow> 2 * length (dumps_items fr t vs) + 1 \<le> n \<Longrightarrow>
     pitems n (dumps_items fr t vs @ CHR '']'' # r) = Some (vs, r)"
  "\<forall>p \<in> set d. json_ok (snd p) \<Longrightarrow> d \<noteq> [] \<Longrightarrow> keys_distinct (acc @ d) \<Longrightarrow>
     2 * length (dumps_members fr t d) + 1 \<le> n \<Longrightarrow>
     pmembers n acc (dumps_members fr t d @ CHR ''}'' # r) = Some (acc @ d, r)"
proof (induction fr t v and fr t vs and fr t d arbitrary: n r and n r and n r acc
    rule: dumps_dumps_items_dumps_members.induct)
  case (1 fr t)
  then show ?case by (cases n) (simp_all add: pconst_def strip_prefix_def)
next
  case (2 fr t b)
  then show ?case by (cases n; cases b) (simp_all add: pconst_def strip_prefix_def)
next
  case (3 fr t i)
  have "0 < length (str_int i)" using dumps_nonempty [of "PInt i" fr t] by simp
  moreover have "2 * length (str_int i) \<le> n" using 3 by simp
  ultimately have "0 < n" by linarith
  with 3 show ?case by (simp add: pvalue_int)
next
  case (4 fr t x)
  then show ?case by (cases n; cases x) (simp_all add: pconst_def strip_prefix_def)
next
  case (5 fr t s)
  then show ?case by (cases n) (simp_all add: quote_def pstring_quoted)
next
  case (6 fr t vs)
  obtain m where n: "n = Suc m" using 6 by (cases n) simp_all
  show ?case
  proof (cases vs)
    case Nil
    with n show ?thesis by (simp add: skip_ws_char)
  next
    case (Cons v ws)
    have ok: "json_ok v" using 6 Cons by simp
    obtain c cs where c: "dumps fr t v = c # cs" "\<not> is_ws c" "c \<noteq> CHR '']''"
      by (rule dumps_first [OF ok])
    have "pitems m (dumps_items fr t vs @ CHR '']'' # r) = Some (vs, r)"
      using 6 Cons n by simp
    moreover obtain ds where "dumps_items fr t vs @ CHR '']'' # r = c # ds"
      using c Cons by simp
    ultimately show ?thesis using c n by (simp add: skip_ws_char)
  qed
next
  case (7 fr t d)
  obtain m where n: "n = Suc m" using 7 by (cases n) simp_all
  show ?case
  proof (cases d)
    case Nil
    with n show ?thesis by (simp add: skip_ws_char)
  next
    case (Cons p e)
    obtain k v where p: "p = (k, v)" by (cases p)
    have "pmembers m [] (dumps_members fr t d @ CHR ''}'' # r) = Some (d, r)"
      using 7 Cons n by simp
    moreover obtain ds where "dumps_members fr t d @ CHR ''}'' # r = CHR 0x22 # ds"
      using Cons p by (simp add: quote_def)
    ultimately show ?thesis using n by (simp add: skip_ws_char)
  qed
next
  case (8 fr t)
  then show ?case by simp
next
  case (9 fr t v vs)
  obtain m where n: "n = Suc m" using 9 by (cases n) simp_all
  show ?case
  proof (cases "vs = []")
    case True
    have "pvalue m (dumps fr t v @ CHR '']'' # r) = Some (v, CHR '']'' # r)"
      using 9 n by (intro 9(1)) auto
    with True n show ?thesis by (simp add: skip_ws_char)
  next
    case False
    let ?r = "dumps_items fr t vs @ CHR '']'' # r"
    have v: "pvalue m (dumps fr t v @ item_sep t @ ?r) = Some (v, item_sep t @ ?r)"
      using 9 n by (intro 9(1)) (auto simp: delim_item_sep)
    obtain w ws where vs: "vs = w # ws" using False by (cases vs) auto
    then have "skip_ws ?r = ?r" using 9(3) skip_ws_dumps [of w] by simp
    moreover have "pitems m ?r = Some (vs, r)"
      using 9 n False length_seps(1) [of t] by (intro 9(2)) auto
    ultimately show ?thesis
      using v n False by (simp add: skip_item_sep skip_ws_space)
  qed
next
  case (10 fr t)
  then show ?case by simp
next
  case (11 fr t k v d)
  obtain m where n: "n = Suc m" using 11 by (cases n) simp_all
  have k: "pstring (concat (map escape_char k) @ CHR 0x22 # x) = Some (k, x)" for x
    by (rule pstring_quoted)
  have new: "AList.update k v acc = acc @ [(k, v)]" using 11(5) by (simp add: update_new_key)
  have ok: "json_ok v" using 11(3) by simp
  show ?case
  proof (cases "d = []")
    case True
    have "pvalue m (dumps fr t v @ CHR ''}'' # r) = Some (v, CHR ''}'' # r)"
      using 11 n by (intro 11(1)) auto
    with True n k new ok show ?thesis
      by (simp add: quote_def skip_key_sep skip_ws_space skip_ws_dumps skip_ws_char)
  next
    case False
    let ?r = "dumps_members fr t d @ CHR ''}'' # r"
    have v: "pvalue m (dumps fr t v @ item_sep t @ ?r) = Some (v, item_sep t @ ?r)"
      using 11 n by (intro 11(1)) (auto simp: delim_item_sep)
    obtain k' v' e where d: "d = (k', v') # e" using False by (cases d) auto
    then have "skip_ws ?r = ?r" by (simp add: skip_ws_quote)
    moreover have "pmembers m (acc @ [(k, v)]) ?r = Some ((acc @ [(k, v)]) @ d, r)"
      using 11 n False length_seps(1) [of t] by (intro 11(2)) auto
    ultimately show ?thesis
      using v n False k new ok
      by (simp add: quote_def skip_key_sep skip_ws_space skip_ws_dumps skip_item_sep)
  qed
qed

lemma loads_dumps: "json_ok v \<Longrightarrow> loads (dumps fr t v) = Inr v"
  using parse_dumps(1) [of v "[]" fr t "2 * length (dumps fr t v) + 2"] skip_ws_dumps [of v fr t "[]"]
  by (simp add: loads_def) (simp add: skip_ws_def)

lemma loads_bytes_dumps: "json_ok v \<Longrightarrow> loads_bytes (utf8 (dumps fr t v)) = Inr v"
  by (simp add: loads_bytes_def loads_dumps)

section \<open>Lemmas: the size of a text\<close>

lemma length_quote: "length (quote s) \<le> 6 * length s + 2"
proof -
  have "length (escape_char c) \<le> 6" for c by (simp add: escape_char_def hex2_def Let_def)
  then have "length (concat (map escape_char s)) \<le> 6 * length s"
    by (induction s) (auto intro: add_mono)
  then show ?thesis by (simp add: quote_def)
qed

lemma length_dumps_str: "length (dumps fr t (PStr s)) \<le> 6 * length s + 2"
  using length_quote by simp

lemma length_dumps_int: "\<bar>n\<bar> < 10 ^ 18 \<Longrightarrow> length (dumps fr t (PInt n)) \<le> 19"
  using length_str_int [of n 18] by simp

lemma length_dumps_opt: "(\<And>s. x = Some s \<Longrightarrow> length s \<le> k) \<Longrightarrow> length (dumps fr t (opt_val x)) \<le> 6 * k + 4"
proof (cases x)
  case (Some s)
  assume "\<And>s. x = Some s \<Longrightarrow> length s \<le> k"
  with Some length_dumps_str [of fr t s] show ?thesis by fastforce
qed simp

fun member_bound :: "nat list \<Rightarrow> nat" where
  "member_bound [] = 0"
| "member_bound (n # ns) = n + 200 + member_bound ns"

lemma length_members:
  "list_all2 (\<lambda>p n. length (fst p) \<le> 30 \<and> length (dumps fr True (snd p)) \<le> n) d ns \<Longrightarrow>
   length (dumps_members fr True d) \<le> member_bound ns"
proof (induction rule: list_all2_induct)
  case (Cons p d n ns)
  obtain k v where p: "p = (k, v)" by (cases p)
  have "length (quote k) \<le> 182" using length_quote [of k] Cons.hyps p by simp
  moreover have "length (item_sep True) \<le> 2" "length (key_sep True) \<le> 2" by (simp_all add: item_sep_def key_sep_def)
  ultimately show ?case using Cons p by simp
qed simp

section \<open>Lemmas: the fuel of the parser is enough\<close>

lemma skip_ws_le: "length (skip_ws s) \<le> length s"
  by (simp add: skip_ws_def length_dropWhile_le)

lemma pstring_shorter: "pstring s = Some (t, r) \<Longrightarrow> length r < length s"
  by (induction s arbitrary: t r rule: pstring.induct) (fastforce split: if_splits list.splits option.splits)+

lemma pfrac_le: "pfrac s = (f, r) \<Longrightarrow> length r \<le> length s"
  by (auto simp: pfrac_def length_dropWhile_le le_SucI split: list.splits if_splits)

lemma pexp_le: "pexp s = (f, r) \<Longrightarrow> length r \<le> length s"
  by (auto simp: pexp_def length_dropWhile_le le_SucI Let_def split: list.splits if_splits)

lemma pnumber_shorter:
  assumes "pnumber s = Some (v, r)"
  shows "length r < length s"
proof -
  obtain neg t where t: "(case s of c # cs \<Rightarrow> if c = CHR ''-'' then (True, cs) else (False, s) | [] \<Rightarrow> (False, s)) = (neg, t)"
    by (rule prod.exhaust)
  have le: "length t \<le> length s" using t by (auto split: list.splits if_splits)
  obtain f r1 where f: "pfrac (drop (length (int_digits t)) t) = (f, r1)" by (rule prod.exhaust)
  obtain e r2 where e: "pexp r1 = (e, r2)" by (rule prod.exhaust)
  have d: "int_digits t \<noteq> []" and r: "r = r2" using assms t f e by (auto simp: pnumber_def Let_def split: if_splits)
  then have "t \<noteq> []" by (auto simp: int_digits_def)
  with d have "length (drop (length (int_digits t)) t) < length t" by simp
  with pfrac_le [OF f] pexp_le [OF e] le r show ?thesis by simp
qed

lemma strip_prefix_shorter: "strip_prefix p s = Some r \<Longrightarrow> p \<noteq> [] \<Longrightarrow> length r < length s"
  by (cases s) (auto simp: strip_prefix_def split: if_splits)

lemma pconst_shorter: "pconst s = Some (v, r) \<Longrightarrow> length r < length s"
  by (auto simp: pconst_def split: option.splits dest: strip_prefix_shorter pnumber_shorter)

lemma skip_ws_shorter: "skip_ws s = c # cs \<Longrightarrow> length cs < length s"
  using skip_ws_le [of s] by simp

lemma parse_shorter:
  "pvalue n s = Some (v, r) \<Longrightarrow> length r < length s"
  "pitems n s = Some (vs, r) \<Longrightarrow> length r < length s"
  "pmembers n acc s = Some (m, r) \<Longrightarrow> length r < length s"
proof (induction n arbitrary: s v r vs acc m)
  case (Suc n)
  {
    case 1
    then show ?case
      by (auto split: list.splits if_splits dest!: pstring_shorter pconst_shorter skip_ws_shorter Suc(2,3))
  next
    case 2
    then obtain v1 r1 d ds where h: "pvalue n s = Some (v1, r1)" "skip_ws r1 = d # ds"
      "r = ds \<or> (\<exists>vs'. pitems n (skip_ws ds) = Some (vs', r))"
      by (auto split: list.splits if_splits option.splits)
    with Suc(2) [of "skip_ws ds"] have "length r \<le> length ds" using skip_ws_le [of ds] by fastforce
    with Suc(1) [OF h(1)] skip_ws_shorter [OF h(2)] show ?case by simp
  next
    case 3
    then obtain c cs k r0 d ds v1 r1 e es where h: "s = c # cs" "pstring cs = Some (k, r0)" "skip_ws r0 = d # ds"
      "pvalue n (skip_ws ds) = Some (v1, r1)" "skip_ws r1 = e # es"
      "r = es \<or> pmembers n (AList.update k v1 acc) (skip_ws es) = Some (m, r)"
      by (auto split: list.splits if_splits option.splits)
    with Suc(3) [of _ "skip_ws es"] have "length r \<le> length es" using skip_ws_le [of es] by fastforce
    with Suc(1) [OF h(4)] skip_ws_shorter [OF h(5)] skip_ws_shorter [OF h(3)] skip_ws_le [of ds] pstring_shorter [OF h(2)] h(1)
    show ?case by simp
  }
qed simp_all

text \<open>A call nests at most two levels for each character: more fuel changes nothing.\<close>

lemma parse_fuel:
  "2 * length s + 1 \<le> n \<Longrightarrow> pvalue (Suc n) s = pvalue n s"
  "2 * length s + 2 \<le> n \<Longrightarrow> pitems (Suc n) s = pitems n s"
  "2 * length s + 2 \<le> n \<Longrightarrow> pmembers (Suc n) acc s = pmembers n acc s"
proof (induction n arbitrary: s acc)
  case (Suc n)
  {
    case 1
    have i: "pitems (Suc n) (skip_ws cs) = pitems n (skip_ws cs)" if "s = c # cs" for c cs
      by (rule Suc(2)) (use 1 that skip_ws_le [of cs] in simp)
    have m: "pmembers (Suc n) [] (skip_ws cs) = pmembers n [] (skip_ws cs)" if "s = c # cs" for c cs
      by (rule Suc(3)) (use 1 that skip_ws_le [of cs] in simp)
    show ?case
    proof (cases s)
      case (Cons c cs)
      from i [OF Cons] m [OF Cons] show ?thesis
        by (simp only: Cons pvalue.simps(2) [of n "c # cs"] pvalue.simps(2) [of "Suc n" "c # cs"] list.case) (auto split: list.split simp del: pitems.simps pmembers.simps)
    qed simp
  next
    case 2
    have v: "pvalue (Suc n) s = pvalue n s" using 2 by (intro Suc(1)) simp
    have "pitems (Suc n) (skip_ws ds) = pitems n (skip_ws ds)" if "pvalue n s = Some (v, r)" "skip_ws r = d # ds" for v r d ds
      using 2 parse_shorter(1) [OF that(1)] skip_ws_shorter [OF that(2)] skip_ws_le [of ds] by (intro Suc(2)) simp
    with v show ?case
      by (simp only: pitems.simps(2) [of n s] pitems.simps(2) [of "Suc n" s]) (auto split: option.split list.split simp del: pitems.simps pvalue.simps)
  next
    case 3
    have v: "pvalue (Suc n) (skip_ws ds) = pvalue n (skip_ws ds)"
      if "s = c # cs" "pstring cs = Some (k, r)" "skip_ws r = d # ds" for c cs k r d ds
      by (rule Suc(1)) (use 3 that(1) pstring_shorter [OF that(2)] skip_ws_shorter [OF that(3)] skip_ws_le [of ds] in simp)
    have m: "pmembers (Suc n) acc' (skip_ws es) = pmembers n acc' (skip_ws es)"
      if "s = c # cs" "pstring cs = Some (k, r)" "skip_ws r = d # ds" "pvalue n (skip_ws ds) = Some (x, r1)" "skip_ws r1 = e # es"
      for c cs k r d ds x r1 e es acc'
      by (rule Suc(3)) (use 3 that(1) pstring_shorter [OF that(2)] skip_ws_shorter [OF that(3)] skip_ws_le [of ds]
          parse_shorter(1) [OF that(4)] skip_ws_shorter [OF that(5)] skip_ws_le [of es] in simp)
    show ?case
    proof (cases s)
      case (Cons c cs)
      show ?thesis
        by (simp only: Cons pmembers.simps(2) [of n acc "c # cs"] pmembers.simps(2) [of "Suc n" acc "c # cs"] list.case)
          (auto split: option.split list.split simp: v [OF Cons] m [OF Cons] simp del: pmembers.simps pvalue.simps)
    qed simp
  }
qed simp_all

lemma loads_fuel:
  assumes "2 * length s + 2 \<le> n"
  shows "pvalue n (skip_ws s) = pvalue (2 * length s + 2) (skip_ws s)"
  using assms
proof (induction rule: dec_induct)
  case (step n)
  have "pvalue (Suc n) (skip_ws s) = pvalue n (skip_ws s)"
    by (rule parse_fuel(1)) (use step(1) skip_ws_le [of s] in simp)
  with step show ?case by (simp only:)
qed simp

end
