(* ===== verification/Envelope.thy ===== *)
theory Envelope
  imports Hybrid Json
begin

text \<open>
  \<open>uxsp/core/envelope.py\<close>: the container of a sealed message, with its validation from
  untrusted dictionaries and JSON, its size limit and its freshness checks. The object is
  the record \<open>envelope\<close>; \<open>fr\<close> is the printer of floats, which can occur only in members
  the class ignores. Not modelled: \<open>json.loads\<close> guessing UTF-16 or UTF-32 for a text
  with U+0000 among its first characters.
\<close>

definition UXSP_VERSION :: string where "UXSP_VERSION = ''UXSP-1''"

definition MAX_BYTES :: int where "MAX_BYTES = 64 * 1024"

definition STRING_FIELDS :: "string list" where
  "STRING_FIELDS = [''version'', ''sender_id'', ''recipient_id'', ''envelope_nonce'', ''ciphertext'',
     ''nonce'', ''ephemeral_pub'', ''kem_ciphertext'', ''classical_sig'', ''pqc_sig'']"

definition REQUIRED_FIELDS :: "string list" where
  "REQUIRED_FIELDS = ''timestamp'' # STRING_FIELDS"

record envelope =
  e_version :: string
  e_sender_id :: string
  e_recipient_id :: string
  e_timestamp :: int
  e_envelope_nonce :: string
  e_ciphertext :: string
  e_nonce :: string
  e_ephemeral_pub :: string
  e_kem_ciphertext :: string
  e_classical_sig :: string
  e_pqc_sig :: string
  e_size_cache :: "int option"

definition str_field :: "dict \<Rightarrow> string \<Rightarrow> string" where
  "str_field d k = (case dget d k of PStr s \<Rightarrow> s | _ \<Rightarrow> [])"

definition limit_of :: "int option \<Rightarrow> int" where
  "limit_of max_bytes = (case max_bytes of None \<Rightarrow> MAX_BYTES | Some m \<Rightarrow> m)"

definition env_from_dict :: "(rat \<Rightarrow> string) \<Rightarrow> dict \<Rightarrow> int option \<Rightarrow> envelope res" where
  "env_from_dict fr data max_bytes =
     guard (\<forall>f \<in> set REQUIRED_FIELDS. has_key data f) EnvelopeValidationError
      (guard (\<forall>f \<in> set STRING_FIELDS. is_PStr (dget data f)) EnvelopeValidationError
        (guard (dget data ''version'' = PStr UXSP_VERSION) EnvelopeValidationError
          (guard (int (length (dumps fr True (PDict data))) \<le> limit_of max_bytes) EnvelopeTooLargeError
            (rbind (rescue is_ValueTypeError EnvelopeValidationError (py_int (dget data ''timestamp'')))
              (\<lambda>ts. Inr \<lparr>e_version = str_field data ''version'',
                e_sender_id = str_field data ''sender_id'',
                e_recipient_id = str_field data ''recipient_id'', e_timestamp = ts,
                e_envelope_nonce = str_field data ''envelope_nonce'',
                e_ciphertext = str_field data ''ciphertext'', e_nonce = str_field data ''nonce'',
                e_ephemeral_pub = str_field data ''ephemeral_pub'',
                e_kem_ciphertext = str_field data ''kem_ciphertext'',
                e_classical_sig = str_field data ''classical_sig'',
                e_pqc_sig = str_field data ''pqc_sig'', e_size_cache = None\<rparr>)))))"

definition env_from_json :: "(rat \<Rightarrow> string) \<Rightarrow> string \<Rightarrow> int option \<Rightarrow> envelope res" where
  "env_from_json fr json_str max_bytes =
     (let limit = limit_of max_bytes; raw = utf8 json_str in
      guard (int (length json_str) \<le> limit) EnvelopeTooLargeError
       (guard (int (length raw) \<le> limit) EnvelopeTooLargeError
         (rbind (rescue (\<lambda>e. e = JSONDecodeError) EnvelopeValidationError (loads_bytes raw)) (\<lambda>v.
           case v of PDict d \<Rightarrow> env_from_dict fr d (Some limit) | _ \<Rightarrow> Inl EnvelopeValidationError))))"

definition env_from_bytes :: "(rat \<Rightarrow> string) \<Rightarrow> bytes \<Rightarrow> int option \<Rightarrow> envelope res" where
  "env_from_bytes fr raw max_bytes =
     (case utf8_decode raw of
        None \<Rightarrow> Inl EnvelopeValidationError
      | Some text \<Rightarrow> env_from_json fr text max_bytes)"

definition env_to_dict :: "envelope \<Rightarrow> dict" where
  "env_to_dict e =
     [(''version'', PStr (e_version e)), (''sender_id'', PStr (e_sender_id e)),
      (''recipient_id'', PStr (e_recipient_id e)), (''timestamp'', PInt (e_timestamp e)),
      (''envelope_nonce'', PStr (e_envelope_nonce e)), (''ciphertext'', PStr (e_ciphertext e)),
      (''nonce'', PStr (e_nonce e)), (''ephemeral_pub'', PStr (e_ephemeral_pub e)),
      (''kem_ciphertext'', PStr (e_kem_ciphertext e)), (''classical_sig'', PStr (e_classical_sig e)),
      (''pqc_sig'', PStr (e_pqc_sig e))]"

definition env_to_json :: "(rat \<Rightarrow> string) \<Rightarrow> envelope \<Rightarrow> string" where
  \<comment> \<open>\<open>indent=None\<close>\<close>
  "env_to_json fr e = dumps fr False (PDict (env_to_dict e))"

definition env_to_bytes :: "(rat \<Rightarrow> string) \<Rightarrow> envelope \<Rightarrow> bytes \<times> envelope" where
  "env_to_bytes fr e =
     (let raw = utf8 (env_to_json fr e) in (raw, e\<lparr>e_size_cache := Some (int (length raw))\<rparr>))"

definition size_bytes :: "(rat \<Rightarrow> string) \<Rightarrow> envelope \<Rightarrow> int \<times> envelope" where
  "size_bytes fr e =
     (case e_size_cache e of
        Some n \<Rightarrow> (n, e)
      | None \<Rightarrow>
          let n = int (length (utf8 (env_to_json fr e))) in (n, e\<lparr>e_size_cache := Some n\<rparr>))"

definition env_setattr :: "string \<Rightarrow> envelope \<Rightarrow> envelope res" where
  \<comment> \<open>assignment to an attribute of the slots from outside: the fields are immutable, the
      cache is not touched here\<close>
  "env_setattr name e =
     (if name \<in> set REQUIRED_FIELDS then Inl AttributeError
      else if name \<noteq> ''_size_bytes_cache'' then Inr (e\<lparr>e_size_cache := None\<rparr>) else Inr e)"

definition env_age :: "time \<Rightarrow> envelope \<Rightarrow> time res" where
  "env_age now e = age_of now (e_timestamp e)"

definition is_fresh :: "time \<Rightarrow> envelope \<Rightarrow> rat \<Rightarrow> rat \<Rightarrow> bool res" where
  "is_fresh now e max_age clock_skew =
     guard (\<not> (max_age < 0 \<or> clock_skew < 0)) ValueError
      (rbind (env_age now e) (\<lambda>age. Inr (- clock_skew \<le> age \<and> age \<le> max_age)))"

definition assert_fresh :: "time \<Rightarrow> envelope \<Rightarrow> rat \<Rightarrow> rat \<Rightarrow> unit res" where
  "assert_fresh now e max_age clock_skew =
     guard (\<not> (max_age < 0 \<or> clock_skew < 0)) ValueError
      (rbind (env_age now e) (\<lambda>age.
        guard (- clock_skew \<le> age \<and> age \<le> max_age) EnvelopeExpiredError (Inr ())))"

definition addressed_to :: "envelope \<Rightarrow> string \<Rightarrow> bool" where
  "addressed_to e entity_id = (e_recipient_id e = entity_id)"

definition sent_by :: "envelope \<Rightarrow> string \<Rightarrow> bool" where
  "sent_by e entity_id = (e_sender_id e = entity_id)"

definition env_eq :: "envelope \<Rightarrow> envelope \<Rightarrow> bool" where
  "env_eq a b \<longleftrightarrow> e_version a = e_version b \<and> e_sender_id a = e_sender_id b \<and>
     e_recipient_id a = e_recipient_id b \<and> e_timestamp a = e_timestamp b \<and>
     e_envelope_nonce a = e_envelope_nonce b \<and> e_ciphertext a = e_ciphertext b \<and>
     e_nonce a = e_nonce b \<and> e_ephemeral_pub a = e_ephemeral_pub b \<and>
     e_kem_ciphertext a = e_kem_ciphertext b \<and> e_classical_sig a = e_classical_sig b \<and>
     e_pqc_sig a = e_pqc_sig b"

section \<open>Lemmas\<close>

lemma is_PStr_iff: "is_PStr v \<longleftrightarrow> (\<exists>s. v = PStr s)"
  by (cases v) simp_all

lemma env_eq_iff: "env_eq a b \<longleftrightarrow> a = b\<lparr>e_size_cache := e_size_cache a\<rparr>"
  by (cases a; cases b) (auto simp: env_eq_def)

text \<open>The compact text is never longer than the one with the default separators, so an
  envelope that fits as JSON also passes the size check of \<open>from_dict\<close>.\<close>

lemma dumps_compact_le:
  "length (dumps fr True v) \<le> length (dumps fr False v)"
  "length (dumps_items fr True vs) \<le> length (dumps_items fr False vs)"
  "length (dumps_members fr True d) \<le> length (dumps_members fr False d)"
  by (induction fr True v and fr True vs and fr True d rule: dumps_dumps_items_dumps_members.induct)
    (auto simp: item_sep_def key_sep_def)

lemma length_utf8: "length s \<le> length (utf8 s)"
  by (induction s) (auto simp: Let_def)

lemma env_json_ok: "json_ok (PDict (env_to_dict e))"
  by (simp add: env_to_dict_def)

lemma env_from_to_dict:
  assumes "e_version e = UXSP_VERSION" and "int (length (dumps fr True (PDict (env_to_dict e)))) \<le> limit_of m"
  shows "env_from_dict fr (env_to_dict e) m = Inr (e\<lparr>e_size_cache := None\<rparr>)"
  using assms
  by (simp add: env_from_dict_def REQUIRED_FIELDS_def STRING_FIELDS_def env_to_dict_def has_key_def
      dget_def str_field_def)

lemma env_from_dict_Inr:
  assumes "env_from_dict fr d m = Inr e"
  shows "e_version e = UXSP_VERSION \<and> py_int (dget d ''timestamp'') = Inr (e_timestamp e) \<and>
    (\<forall>k \<in> set STRING_FIELDS. \<exists>s. dget d k = PStr s \<and> dget (env_to_dict e) k = PStr s) \<and>
    int (length (dumps fr True (PDict d))) \<le> limit_of m \<and> e_size_cache e = None"
  using assms
  by (auto simp: env_from_dict_def res_Inr_iffs STRING_FIELDS_def is_PStr_iff env_to_dict_def dget_def
      str_field_def)

section \<open>Properties\<close>

text \<open>Parsing inverts serialisation: an envelope of the current version whose JSON text fits
  the limit is what \<open>from_bytes\<close> makes of the bytes of \<open>to_bytes\<close>, and the cached size is
  the length of these bytes.\<close>

theorem envelope_roundtrip:
  assumes "e_version e = UXSP_VERSION" and "env_to_bytes fr e = (raw, e')"
    and "int (length raw) \<le> limit_of m"
  shows "env_from_bytes fr raw m = Inr (e\<lparr>e_size_cache := None\<rparr>) \<and>
    size_bytes fr e' = (int (length raw), e') \<and> env_eq e' e"
proof -
  let ?t = "env_to_json fr e"
  have raw: "raw = utf8 ?t" "e' = e\<lparr>e_size_cache := Some (int (length raw))\<rparr>"
    using assms(2) by (auto simp: env_to_bytes_def Let_def)
  have "int (length ?t) \<le> limit_of m"
    using length_utf8 [of ?t] assms(3) raw by simp
  moreover have "int (length (dumps fr True (PDict (env_to_dict e)))) \<le> limit_of (Some (limit_of m))"
    using dumps_compact_le(1) [of fr "PDict (env_to_dict e)"] calculation
    by (simp only: env_to_json_def limit_of_def option.case)
  ultimately have "env_from_json fr ?t m = Inr (e\<lparr>e_size_cache := None\<rparr>)"
    using assms(1,3) raw(1) loads_bytes_dumps [OF env_json_ok, of fr False e] env_from_to_dict [of e fr]
    by (simp add: env_from_json_def Let_def env_to_json_def del: dumps.simps)
  then show ?thesis
    using raw by (simp add: env_from_bytes_def size_bytes_def env_eq_def)
qed

definition demo_env :: envelope where
  "demo_env = \<lparr>e_version = ''UXSP-1'', e_sender_id = ''a'', e_recipient_id = ''b'', e_timestamp = 7,
     e_envelope_nonce = ''n'', e_ciphertext = [], e_nonce = [], e_ephemeral_pub = [],
     e_kem_ciphertext = [], e_classical_sig = [], e_pqc_sig = [], e_size_cache = None\<rparr>"

theorem envelope_roundtrip_witness:
  "env_from_bytes (\<lambda>q. []) (fst (env_to_bytes (\<lambda>q. []) demo_env)) None = Inr demo_env"
proof -
  have "int (length (fst (env_to_bytes (\<lambda>q. []) demo_env))) \<le> limit_of None" by code_simp
  with envelope_roundtrip [of demo_env, OF _ prod.collapse [symmetric]] show ?thesis
    by (simp add: demo_env_def UXSP_VERSION_def)
qed

end
