(* ===== verification/Nonce.thy ===== *)
theory Nonce
  imports Prelude
begin

text \<open>
  \<open>uxsp/core/nonce.py\<close>: the contract of a nonce store as the locale
  \<open>nonce_store\<close>, the in-process \<open>MemoryNonceStore\<close> as a record with its operations,
  and the interpretation that discharges the contract for it. The key fact of the
  contract is \<open>once_per_ttl\<close>: a nonce that was accepted is not accepted again before
  its time to live has passed, whatever other operations run in between.
\<close>

section \<open>The store interface\<close>

text \<open>
  The three operations of the abstract class \<open>NonceStore\<close> with the clock reading as
  first argument. \<open>tracked s n = Some e\<close> says that the store remembers \<open>n\<close> until
  \<open>e\<close>. The laws are what the docstrings of \<open>mark_used\<close> promise: a nonce that is
  remembered is not accepted, an accepted nonce is remembered for its time to live,
  and no operation forgets a nonce that has not expired.
\<close>

locale nonce_store =
  fixes mark_used :: "time \<Rightarrow> string \<Rightarrow> int \<Rightarrow> 's \<Rightarrow> bool res \<times> 's"
    and is_seen :: "time \<Rightarrow> string \<Rightarrow> 's \<Rightarrow> bool res \<times> 's"
    and cleanup :: "time \<Rightarrow> 's \<Rightarrow> int res \<times> 's"
    and tracked :: "'s \<Rightarrow> string \<Rightarrow> time option"
    and sinv :: "'s \<Rightarrow> bool"
  assumes reject: "sinv s \<Longrightarrow> tracked s n = Some e \<Longrightarrow> t < e \<Longrightarrow> fst (mark_used t n ttl s) \<noteq> Inr True"
    and record_use: "sinv s \<Longrightarrow> fst (mark_used t n ttl s) = Inr True \<Longrightarrow>
        \<exists>e \<ge> t + of_int ttl. tracked (snd (mark_used t n ttl s)) n = Some e"
    and mark_keeps: "sinv s \<Longrightarrow> tracked s m = Some e \<Longrightarrow> t < e \<Longrightarrow>
        tracked (snd (mark_used t n ttl s)) m = Some e"
    and seen_keeps: "sinv s \<Longrightarrow> tracked s m = Some e \<Longrightarrow> t < e \<Longrightarrow>
        tracked (snd (is_seen t n s)) m = Some e"
    and cleanup_keeps: "sinv s \<Longrightarrow> tracked s m = Some e \<Longrightarrow> t < e \<Longrightarrow>
        tracked (snd (cleanup t s)) m = Some e"
    and inv_mark: "sinv s \<Longrightarrow> sinv (snd (mark_used t n ttl s))"
    and inv_seen: "sinv s \<Longrightarrow> sinv (snd (is_seen t n s))"
    and inv_cleanup: "sinv s \<Longrightarrow> sinv (snd (cleanup t s))"

text \<open>A schedule of calls on a store, by any number of callers, each with its clock reading.\<close>

datatype nonce_op = MarkUsed time string int | IsSeen time string | Cleanup time

fun op_time :: "nonce_op \<Rightarrow> time" where
  "op_time (MarkUsed t n ttl) = t"
| "op_time (IsSeen t n) = t"
| "op_time (Cleanup t) = t"

fun op_step :: "(time \<Rightarrow> string \<Rightarrow> int \<Rightarrow> 's \<Rightarrow> bool res \<times> 's) \<Rightarrow>
    (time \<Rightarrow> string \<Rightarrow> 's \<Rightarrow> bool res \<times> 's) \<Rightarrow> (time \<Rightarrow> 's \<Rightarrow> int res \<times> 's) \<Rightarrow>
    nonce_op \<Rightarrow> 's \<Rightarrow> 's" where
  "op_step mk sn cl (MarkUsed t n ttl) s = snd (mk t n ttl s)"
| "op_step mk sn cl (IsSeen t n) s = snd (sn t n s)"
| "op_step mk sn cl (Cleanup t) s = snd (cl t s)"

definition run_ops :: "(time \<Rightarrow> string \<Rightarrow> int \<Rightarrow> 's \<Rightarrow> bool res \<times> 's) \<Rightarrow>
    (time \<Rightarrow> string \<Rightarrow> 's \<Rightarrow> bool res \<times> 's) \<Rightarrow> (time \<Rightarrow> 's \<Rightarrow> int res \<times> 's) \<Rightarrow>
    nonce_op list \<Rightarrow> 's \<Rightarrow> 's" where
  "run_ops mk sn cl xs s = fold (op_step mk sn cl) xs s"

context nonce_store
begin

lemma step_inv: "sinv s \<Longrightarrow> sinv (op_step mark_used is_seen cleanup x s)"
  by (cases x) (simp_all add: inv_mark inv_seen inv_cleanup)

lemma step_keeps:
  "sinv s \<Longrightarrow> tracked s m = Some e \<Longrightarrow> op_time x < e \<Longrightarrow>
   tracked (op_step mark_used is_seen cleanup x s) m = Some e"
  by (cases x) (simp_all add: mark_keeps seen_keeps cleanup_keeps)

lemma run_inv: "sinv s \<Longrightarrow> sinv (run_ops mark_used is_seen cleanup xs s)"
  by (induction xs arbitrary: s) (simp_all add: run_ops_def step_inv)

lemma run_keeps:
  "sinv s \<Longrightarrow> tracked s m = Some e \<Longrightarrow> \<forall>x \<in> set xs. op_time x < e \<Longrightarrow>
   tracked (run_ops mark_used is_seen cleanup xs s) m = Some e"
  by (induction xs arbitrary: s) (simp_all add: run_ops_def step_inv step_keeps)

lemma once_per_ttl:
  assumes "sinv s" and "fst (mark_used t n ttl s) = Inr True"
    and "\<forall>x \<in> set xs. op_time x < t + of_int ttl" and "t' < t + of_int ttl"
  shows "fst (mark_used t' n ttl' (run_ops mark_used is_seen cleanup xs
    (snd (mark_used t n ttl s)))) \<noteq> Inr True"
proof -
  let ?s = "snd (mark_used t n ttl s)"
  obtain e where e: "t + of_int ttl \<le> e" "tracked ?s n = Some e"
    using record_use [OF assms(1,2)] by blast
  have i: "sinv ?s" by (rule inv_mark [OF assms(1)])
  have "tracked (run_ops mark_used is_seen cleanup xs ?s) n = Some e"
    using assms(3) e by (intro run_keeps [OF i]) auto
  then show ?thesis
    using reject [OF run_inv [OF i]] assms(4) e(1) by fastforce
qed

end

section \<open>The in-memory store\<close>

record mem_store =
  mstore :: "(string \<times> time) list"  \<comment> \<open>\<open>_store\<close>, oldest first\<close>
  calls_since_cleanup :: int

definition MAX_NONCE_STORE_SIZE :: nat where
  "MAX_NONCE_STORE_SIZE = 100000"

definition mem_init :: mem_store where
  "mem_init = \<lparr>mstore = [], calls_since_cleanup = 0\<rparr>"

definition mem_cleanup_unlocked :: "time \<Rightarrow> mem_store \<Rightarrow> int \<times> mem_store" where
  "mem_cleanup_unlocked now s =
     (let expired = filter (\<lambda>(k, ex). ex \<le> now) (mstore s)
      in (int (length expired), s\<lparr>mstore := filter (\<lambda>(k, ex). \<not> ex \<le> now) (mstore s)\<rparr>))"

definition mem_mark_used :: "time \<Rightarrow> string \<Rightarrow> int \<Rightarrow> mem_store \<Rightarrow> bool res \<times> mem_store" where
  "mem_mark_used now nonce ttl_seconds s =
     (let s1 = s\<lparr>calls_since_cleanup := calls_since_cleanup s + 1\<rparr>;
          s2 = (if 1000 \<le> calls_since_cleanup s1
                then (snd (mem_cleanup_unlocked now s1))\<lparr>calls_since_cleanup := 0\<rparr>
                else s1)
      in if map_of (mstore s2) nonce \<noteq> None then (Inr False, s2)
         else
           let s3 = (if MAX_NONCE_STORE_SIZE \<le> length (mstore s2)
                     then snd (mem_cleanup_unlocked now s2) else s2)
           in if MAX_NONCE_STORE_SIZE \<le> length (mstore s3) then (Inl UXSPStoreError, s3)
              else (Inr True,
                    s3\<lparr>mstore := AList.update nonce (now + of_int ttl_seconds) (mstore s3)\<rparr>))"

definition mem_is_seen :: "time \<Rightarrow> string \<Rightarrow> mem_store \<Rightarrow> bool res \<times> mem_store" where
  "mem_is_seen now nonce s =
     (case map_of (mstore s) nonce of
        None \<Rightarrow> (Inr False, s)
      | Some ex \<Rightarrow>
          if ex \<le> now then (Inr False, s\<lparr>mstore := AList.delete nonce (mstore s)\<rparr>)
          else (Inr True, s))"

definition mem_cleanup :: "time \<Rightarrow> mem_store \<Rightarrow> int res \<times> mem_store" where
  "mem_cleanup now s = (let (n, s') = mem_cleanup_unlocked now s in (Inr n, s'))"

definition mem_tracked :: "mem_store \<Rightarrow> string \<Rightarrow> time option" where
  "mem_tracked s = map_of (mstore s)"

definition mem_inv :: "mem_store \<Rightarrow> bool" where
  "mem_inv s \<longleftrightarrow> keys_distinct (mstore s) \<and> length (mstore s) \<le> MAX_NONCE_STORE_SIZE"

text \<open>\<open>generate_nonce()\<close> with the 16 random bytes as argument.\<close>

definition generate_nonce :: "bytes \<Rightarrow> string" where
  "generate_nonce urandom = hex urandom"

lemma mem_inv_init: "mem_inv mem_init"
  by (simp add: mem_inv_def mem_init_def)

lemma mem_cleanup_unlocked_inv: "mem_inv s \<Longrightarrow> mem_inv (snd (mem_cleanup_unlocked t s))"
  by (auto simp: mem_inv_def mem_cleanup_unlocked_def Let_def intro: order_trans [OF length_filter_le])

lemma mem_cleanup_unlocked_tracked:
  "mem_inv s \<Longrightarrow> mem_tracked (snd (mem_cleanup_unlocked t s)) m = Some e \<longleftrightarrow>
     mem_tracked s m = Some e \<and> t < e"
  by (auto simp: mem_tracked_def mem_inv_def mem_cleanup_unlocked_def Let_def map_of_filter_Some)

text \<open>The state before the test for the nonce: the call counted, the periodic cleanup done.\<close>

definition mem_tick :: "time \<Rightarrow> mem_store \<Rightarrow> mem_store" where
  "mem_tick now s =
     (let s1 = s\<lparr>calls_since_cleanup := calls_since_cleanup s + 1\<rparr>
      in if 1000 \<le> calls_since_cleanup s1
         then (snd (mem_cleanup_unlocked now s1))\<lparr>calls_since_cleanup := 0\<rparr> else s1)"

definition mem_room :: "time \<Rightarrow> mem_store \<Rightarrow> mem_store" where
  "mem_room now s = (if MAX_NONCE_STORE_SIZE \<le> length (mstore s)
     then snd (mem_cleanup_unlocked now s) else s)"

lemma mem_mark_used_eq:
  "mem_mark_used now n ttl s =
     (let s2 = mem_tick now s; s3 = mem_room now s2
      in if mem_tracked s2 n \<noteq> None then (Inr False, s2)
         else if MAX_NONCE_STORE_SIZE \<le> length (mstore s3) then (Inl UXSPStoreError, s3)
         else (Inr True, s3\<lparr>mstore := AList.update n (now + of_int ttl) (mstore s3)\<rparr>))"
  by (simp add: mem_mark_used_def mem_tick_def mem_room_def mem_tracked_def Let_def)

lemma mem_inv_calls [simp]: "mem_inv (s\<lparr>calls_since_cleanup := k\<rparr>) = mem_inv s"
  by (simp add: mem_inv_def)

lemma mem_tracked_calls [simp]: "mem_tracked (s\<lparr>calls_since_cleanup := k\<rparr>) = mem_tracked s"
  by (simp add: mem_tracked_def)

lemma mem_tick_inv [simp]: "mem_inv s \<Longrightarrow> mem_inv (mem_tick t s)"
  by (simp add: mem_tick_def Let_def mem_cleanup_unlocked_inv)

lemma mem_room_inv [simp]: "mem_inv s \<Longrightarrow> mem_inv (mem_room t s)"
  by (simp add: mem_room_def mem_cleanup_unlocked_inv)

lemma mem_tick_keeps:
  "mem_inv s \<Longrightarrow> mem_tracked s m = Some e \<Longrightarrow> t < e \<Longrightarrow> mem_tracked (mem_tick t s) m = Some e"
  by (simp add: mem_tick_def Let_def mem_cleanup_unlocked_tracked)

lemma mem_room_keeps:
  "mem_inv s \<Longrightarrow> mem_tracked s m = Some e \<Longrightarrow> t < e \<Longrightarrow> mem_tracked (mem_room t s) m = Some e"
  by (simp add: mem_room_def mem_cleanup_unlocked_tracked)

lemma mem_room_None: "mem_inv s \<Longrightarrow> mem_tracked s m = None \<Longrightarrow> mem_tracked (mem_room t s) m = None"
  by (metis mem_cleanup_unlocked_tracked mem_room_def not_Some_eq)

lemma mem_mark_inv: "mem_inv s \<Longrightarrow> mem_inv (snd (mem_mark_used t n ttl s))"
proof -
  assume i: "mem_inv s"
  let ?s2 = "mem_tick t s" and ?s3 = "mem_room t (mem_tick t s)"
  have i3: "mem_inv ?s3" using i by simp
  show ?thesis
  proof (cases "mem_tracked ?s2 n = None \<and> length (mstore ?s3) < MAX_NONCE_STORE_SIZE")
    case True
    then have "mem_tracked ?s3 n = None"
      using i by (simp add: mem_room_None)
    with True i3 show ?thesis
      by (simp add: mem_mark_used_eq Let_def mem_inv_def mem_tracked_def length_update_new)
  next
    case False
    with i i3 show ?thesis
      by (auto simp: mem_mark_used_eq Let_def)
  qed
qed

lemma mem_mark_keeps:
  "mem_inv s \<Longrightarrow> mem_tracked s m = Some e \<Longrightarrow> t < e \<Longrightarrow>
   mem_tracked (snd (mem_mark_used t n ttl s)) m = Some e"
  using mem_tick_keeps [of s m e t] mem_room_keeps [of "mem_tick t s" m e t]
  by (auto simp: mem_mark_used_eq Let_def mem_tracked_def)

lemma mem_seen_inv: "mem_inv s \<Longrightarrow> mem_inv (snd (mem_is_seen t n s))"
  by (auto simp: mem_is_seen_def mem_inv_def split: option.splits intro: order_trans [OF length_delete_le])

interpretation mem: nonce_store mem_mark_used mem_is_seen mem_cleanup mem_tracked mem_inv
proof (unfold_locales, goal_cases)
  case (1 s n e t ttl)
  then have "mem_tracked (mem_tick t s) n = Some e"
    by (simp add: mem_tick_keeps)
  then show ?case by (simp add: mem_mark_used_eq Let_def)
next
  case (2 s t n ttl)
  then show ?case
    by (auto simp: mem_mark_used_eq Let_def mem_tracked_def split: if_splits)
next
  case 3
  then show ?case by (simp add: mem_mark_keeps)
next
  case (4 s m e t n)
  then show ?case
    by (auto simp: mem_is_seen_def mem_tracked_def split: option.splits)
next
  case (5 s m e t)
  then show ?case
    using mem_cleanup_unlocked_tracked [of s t m e]
    by (simp add: mem_cleanup_def split_beta)
next
  case 6
  then show ?case by (rule mem_mark_inv)
next
  case 7
  then show ?case by (rule mem_seen_inv)
next
  case (8 s t)
  then show ?case
    by (simp add: mem_cleanup_def split_beta mem_cleanup_unlocked_inv)
qed

section \<open>Properties\<close>

text \<open>A nonce that the in-memory store accepted at time t with a time to live is
  never accepted a second time before t plus that time to live, whatever calls of
  \<open>mark_used\<close>, \<open>is_seen\<close> and \<open>cleanup\<close> (and the automatic cleanups inside them) come
  in between.\<close>

theorem mem_nonce_once:
  assumes "mem_inv s" and "fst (mem_mark_used t n ttl s) = Inr True"
    and "\<forall>x \<in> set xs. op_time x < t + of_int ttl" and "t' < t + of_int ttl"
  shows "fst (mem_mark_used t' n ttl' (run_ops mem_mark_used mem_is_seen mem_cleanup xs
    (snd (mem_mark_used t n ttl s)))) \<noteq> Inr True"
  using assms by (rule mem.once_per_ttl)

theorem mem_nonce_once_witness:
  "fst (mem_mark_used 150 ''n1'' 300
     (run_ops mem_mark_used mem_is_seen mem_cleanup
       [IsSeen 101 ''n1'', Cleanup 120, MarkUsed 130 ''n2'' 300]
       (snd (mem_mark_used 100 ''n1'' 300 mem_init)))) \<noteq> Inr True"
proof (rule mem_nonce_once)
  show "mem_inv mem_init" by (rule mem_inv_init)
  show "fst (mem_mark_used 100 ''n1'' 300 mem_init) = Inr True"
    by (simp add: mem_mark_used_def mem_init_def MAX_NONCE_STORE_SIZE_def)
  show "\<forall>x\<in>set [IsSeen 101 ''n1'', Cleanup 120, MarkUsed 130 ''n2'' 300].
      op_time x < 100 + of_int 300" by simp
  show "150 < 100 + rat_of_int 300" by simp
qed

text \<open>What one call of \<open>mark_used\<close> returns: \<open>False\<close> for a nonce that is still in
  the store after the periodic cleanup, \<open>UXSPStoreError\<close> for a new nonce when the store
  holds its maximum of unexpired entries (it fails closed), and \<open>True\<close>, with the
  nonce stored until now plus its time to live, otherwise. The store never exceeds its
  maximum size.\<close>

theorem mem_mark_used_cases:
  assumes "mem_inv s" and "mem_mark_used t n ttl s = (r, s')"
  shows "length (mstore s') \<le> MAX_NONCE_STORE_SIZE \<and>
    (r = Inr False \<longleftrightarrow> mem_tracked (mem_tick t s) n \<noteq> None) \<and>
    (r = Inl UXSPStoreError \<longleftrightarrow> mem_tracked (mem_tick t s) n = None \<and>
       MAX_NONCE_STORE_SIZE \<le> length (mstore (mem_room t (mem_tick t s)))) \<and>
    (r = Inr True \<longleftrightarrow> mem_tracked (mem_tick t s) n = None \<and>
       length (mstore (mem_room t (mem_tick t s))) < MAX_NONCE_STORE_SIZE) \<and>
    (r = Inr True \<longrightarrow> mem_tracked s' n = Some (t + of_int ttl))"
proof -
  have "length (mstore s') \<le> MAX_NONCE_STORE_SIZE"
    using mem_mark_inv [OF assms(1), of t n ttl] assms(2) by (simp add: mem_inv_def)
  moreover have "r = Inr False \<longleftrightarrow> mem_tracked (mem_tick t s) n \<noteq> None"
    and "r = Inl UXSPStoreError \<longleftrightarrow> mem_tracked (mem_tick t s) n = None \<and>
       MAX_NONCE_STORE_SIZE \<le> length (mstore (mem_room t (mem_tick t s)))"
    and "r = Inr True \<longleftrightarrow> mem_tracked (mem_tick t s) n = None \<and>
       length (mstore (mem_room t (mem_tick t s))) < MAX_NONCE_STORE_SIZE"
    and "r = Inr True \<longrightarrow> mem_tracked s' n = Some (t + of_int ttl)"
    using assms(2) by (auto simp: mem_mark_used_eq Let_def mem_tracked_def split: if_splits)
  ultimately show ?thesis by blast
qed

theorem mem_mark_used_cases_witness:
  "mem_tracked (snd (mem_mark_used 7 ''a'' 3 mem_init)) ''a'' = Some 10"
proof -
  have r: "mem_mark_used 7 ''a'' 3 mem_init =
      (Inr True, \<lparr>mstore = [(''a'', 10)], calls_since_cleanup = 1\<rparr>)"
    by (simp add: mem_mark_used_def mem_init_def MAX_NONCE_STORE_SIZE_def)
  from mem_mark_used_cases [OF mem_inv_init r] show ?thesis
    by (simp add: r)
qed

end
