(* ===== verification/Replay.thy ===== *)
theory Replay
  imports Nonce Hybrid
begin

text \<open>
  \<open>uxsp/core/replay.py\<close>: the replay guard, a freshness window combined with a nonce
  store. The store is any implementation of the interface \<open>nonce_store\<close>, so its
  operations are arguments of the guard's methods; the lemmas about the guard are proved
  once in that locale and used for the in-memory store through its interpretation.
\<close>

type_synonym 's marker = "time \<Rightarrow> string \<Rightarrow> int \<Rightarrow> 's \<Rightarrow> bool res \<times> 's"
type_synonym 's seer = "time \<Rightarrow> string \<Rightarrow> 's \<Rightarrow> bool res \<times> 's"

record replay_guard =
  g_window :: int
  g_clock_skew :: int

definition guard_init :: "int \<Rightarrow> int \<Rightarrow> replay_guard res" where
  "guard_init window skew =
     guard (0 < window) ValueError
      (guard (0 \<le> skew) ValueError
       (guard (skew < window) ValueError (Inr \<lparr>g_window = window, g_clock_skew = skew\<rparr>)))"

definition normalise :: "dict \<Rightarrow> dict res" where
  "normalise d =
     guard (\<forall>f \<in> set [''timestamp'', ''envelope_nonce'']. has_key d f) ValueError
      (rbind (rescue is_ValueTypeError ValueError (py_int (dget d ''timestamp''))) (\<lambda>ts.
       case nonempty_str (dget d ''envelope_nonce'') of
         None \<Rightarrow> Inl ValueError
       | Some n \<Rightarrow> Inr (AList.update ''envelope_nonce'' (PStr n)
                         (AList.update ''timestamp'' (PInt ts) d))))"

definition norm_ts :: "dict \<Rightarrow> int" where
  "norm_ts d = (case dget d ''timestamp'' of PInt n \<Rightarrow> n | _ \<Rightarrow> 0)"

definition norm_nonce :: "dict \<Rightarrow> string" where
  "norm_nonce d = (case dget d ''envelope_nonce'' of PStr s \<Rightarrow> s | _ \<Rightarrow> [])"

definition check_freshness_normalised :: "replay_guard \<Rightarrow> time \<Rightarrow> dict \<Rightarrow> unit res" where
  "check_freshness_normalised g now d =
     rbind (age_of now (norm_ts d)) (\<lambda>age.
       guard (age \<le> of_int (g_window g)) StaleEnvelopeError
        (guard (of_int (norm_ts d) \<le> now + of_int (g_clock_skew g)) FutureEnvelopeError (Inr ())))"

definition check_freshness :: "replay_guard \<Rightarrow> time \<Rightarrow> dict \<Rightarrow> unit res" where
  "check_freshness g now env = rbind (normalise env) (check_freshness_normalised g now)"

definition fresh_dict :: "replay_guard \<Rightarrow> time \<Rightarrow> dict \<Rightarrow> dict res" where
  \<comment> \<open>the two lines every method starts with\<close>
  "fresh_dict g now env =
     rbind (normalise env) (\<lambda>d. rbind (check_freshness_normalised g now d) (\<lambda>_. Inr d))"

definition first_use :: "'s marker \<Rightarrow> replay_guard \<Rightarrow> time \<Rightarrow> string \<Rightarrow> 's \<Rightarrow> unit res \<times> 's" where
  "first_use mk g t nonce s =
     (case mk t nonce (g_window g + g_clock_skew g) s of
        (Inl e, s') \<Rightarrow> (Inl e, s')
      | (Inr b, s') \<Rightarrow> (guard b DuplicateNonceError (Inr ()), s'))"

definition unseen :: "'s seer \<Rightarrow> time \<Rightarrow> string \<Rightarrow> 's \<Rightarrow> unit res \<times> 's" where
  "unseen sn t nonce s =
     (case sn t nonce s of
        (Inl e, s') \<Rightarrow> (Inl e, s')
      | (Inr b, s') \<Rightarrow> (guard (\<not> b) DuplicateNonceError (Inr ()), s'))"

definition precheck :: "'s seer \<Rightarrow> replay_guard \<Rightarrow> time \<Rightarrow> time \<Rightarrow> dict \<Rightarrow> 's \<Rightarrow> unit res \<times> 's" where
  "precheck sn g t1 t2 env s =
     (case fresh_dict g t1 env of
        Inl e \<Rightarrow> (Inl e, s)
      | Inr d \<Rightarrow> unseen sn t2 (norm_nonce d) s)"

definition commit :: "'s marker \<Rightarrow> replay_guard \<Rightarrow> time \<Rightarrow> time \<Rightarrow> dict \<Rightarrow> 's \<Rightarrow> unit res \<times> 's" where
  "commit mk g t1 t2 env s =
     (case fresh_dict g t1 env of
        Inl e \<Rightarrow> (Inl e, s)
      | Inr d \<Rightarrow> first_use mk g t2 (norm_nonce d) s)"

definition check_and_commit :: "'s marker \<Rightarrow> replay_guard \<Rightarrow> time \<Rightarrow> time \<Rightarrow> dict \<Rightarrow> 's \<Rightarrow>
    unit res \<times> 's" where
  "check_and_commit mk g t1 t2 env s = commit mk g t1 t2 env s"

definition check_and_open :: "prims \<Rightarrow> 's marker \<Rightarrow> 's seer \<Rightarrow> replay_guard \<Rightarrow> time \<Rightarrow> time \<Rightarrow> time \<Rightarrow>
    time \<Rightarrow> dict \<Rightarrow> string \<Rightarrow> keypair \<Rightarrow> string \<Rightarrow> pubkeys \<Rightarrow> 's \<Rightarrow> bytes res \<times> 's" where
  \<comment> \<open>clock readings of the freshness check, \<open>is_seen\<close>, \<open>verify_envelope\<close> and \<open>mark_used\<close>;
      the recipient's id and keypair, the sender card's id and public keys\<close>
  "check_and_open P mk sn g t1 t2 t3 t4 env rid kp sid pks s =
     (case normalise env of
        Inl e \<Rightarrow> (Inl e, s)
      | Inr d \<Rightarrow>
          if dget d ''sender_id'' \<noteq> PStr sid then (Inl ValueError, s)
          else case check_freshness_normalised g t1 d of
            Inl e \<Rightarrow> (Inl e, s)
          | Inr _ \<Rightarrow>
              (case unseen sn t2 (norm_nonce d) s of
                 (Inl e, s1) \<Rightarrow> (Inl e, s1)
               | (Inr _, s1) \<Rightarrow>
                   (case verify_envelope P t3 d pks (Some rid) (Some sid) (g_window g)
                       (g_clock_skew g) False of
                      Inl e \<Rightarrow> (Inl e, s1)
                    | Inr c \<Rightarrow>
                        (case first_use mk g t4 (norm_nonce d) s1 of
                           (Inl e, s2) \<Rightarrow> (Inl e, s2)
                         | (Inr _, s2) \<Rightarrow> (decrypt_verified_envelope P c kp [], s2)))))"

section \<open>Lemmas\<close>

lemma dget_update: "dget (AList.update k v d) k' = (if k' = k then v else dget d k')"
  by (simp add: dget_def)

lemma normalise_Inr:
  assumes "normalise env = Inr d"
  shows "dget d ''timestamp'' = PInt (norm_ts d) \<and> dget d ''envelope_nonce'' = PStr (norm_nonce d) \<and>
    dget env ''envelope_nonce'' = PStr (norm_nonce d) \<and> norm_nonce d \<noteq> [] \<and>
    py_int (dget env ''timestamp'') = Inr (norm_ts d) \<and>
    (\<forall>k. k \<noteq> ''timestamp'' \<longrightarrow> dget d k = dget env k)"
proof -
  from assms obtain ts n where h: "py_int (dget env ''timestamp'') = Inr ts"
    "nonempty_str (dget env ''envelope_nonce'') = Some n"
    "d = AList.update ''envelope_nonce'' (PStr n) (AList.update ''timestamp'' (PInt ts) env)"
    by (auto simp: normalise_def res_Inr_iffs split: option.splits)
  then have "dget env ''envelope_nonce'' = PStr n \<and> n \<noteq> []"
    by (cases "dget env ''envelope_nonce''") (auto split: if_splits)
  with h show ?thesis by (simp add: norm_ts_def norm_nonce_def dget_update)
qed

lemma fresh_dict_Inr:
  assumes "fresh_dict g now env = Inr d"
  shows "normalise env = Inr d \<and> now - of_int (norm_ts d) \<le> of_int (g_window g) \<and>
    of_int (norm_ts d) \<le> now + of_int (g_clock_skew g)"
  using assms
  by (auto simp: fresh_dict_def check_freshness_normalised_def age_of_def res_Inr_iffs)

lemma first_use_Inr:
  "first_use mk g t n s = (Inr u, s') \<longleftrightarrow>
     mk t n (g_window g + g_clock_skew g) s = (Inr True, s')"
  by (auto simp: first_use_def guard_Inr_iff split: prod.splits sum.splits)

lemma commit_Inr:
  assumes "commit mk g t1 t2 env s = (Inr u, s')"
  obtains d where "normalise env = Inr d" "fresh_dict g t1 env = Inr d"
    "mk t2 (norm_nonce d) (g_window g + g_clock_skew g) s = (Inr True, s')"
  using assms fresh_dict_Inr by (auto simp: commit_def first_use_Inr split: sum.splits)

text \<open>Inside the interface: an envelope that was committed is not committed again while the
  store remembers it, which outlasts its freshness but for the extreme of the clock skew.\<close>

context nonce_store
begin

lemma commit_records:
  assumes "sinv s" and "commit mark_used g t1 t2 env s = (Inr u, s')" and "normalise env = Inr d"
  shows "sinv s' \<and> (\<exists>e \<ge> t2 + of_int (g_window g + g_clock_skew g).
    tracked s' (norm_nonce d) = Some e)"
proof -
  from assms(2) have m: "mark_used t2 (norm_nonce d) (g_window g + g_clock_skew g) s = (Inr True, s')"
    using assms(3) by (auto elim: commit_Inr)
  then show ?thesis
    using record_use [OF assms(1), of t2 "norm_nonce d" "g_window g + g_clock_skew g"]
      inv_mark [OF assms(1), of t2 "norm_nonce d" "g_window g + g_clock_skew g"] by simp
qed

lemma commit_twice:
  assumes "sinv s" and "commit mark_used g t1 t2 env s = (Inr u, s')"
    and "normalise env = Inr d" and "normalise env' = Inr d'" and "norm_nonce d' = norm_nonce d"
    and "\<forall>x \<in> set xs. op_time x < t2 + of_int (g_window g + g_clock_skew g)"
    and "t4 < t2 + of_int (g_window g + g_clock_skew g)"
  shows "\<not> is_ok (fst (commit mark_used g' t3 t4 env' (run_ops mark_used is_seen cleanup xs s')))"
proof -
  let ?s = "run_ops mark_used is_seen cleanup xs s'"
  obtain e where e: "t2 + of_int (g_window g + g_clock_skew g) \<le> e"
    "tracked s' (norm_nonce d) = Some e" and i: "sinv s'"
    using commit_records [OF assms(1-3)] by blast
  then have "tracked ?s (norm_nonce d) = Some e"
    using assms(6) by (intro run_keeps) auto
  moreover have "sinv ?s" using i by (rule run_inv)
  ultimately have r: "fst (mark_used t4 (norm_nonce d) ttl ?s) \<noteq> Inr True" for ttl
    using reject [of ?s "norm_nonce d" e t4 ttl] assms(7) e(1) by simp
  show ?thesis
  proof
    assume "is_ok (fst (commit mark_used g' t3 t4 env' ?s))"
    then obtain u s'' where "commit mark_used g' t3 t4 env' ?s = (Inr u, s'')"
      by (cases "commit mark_used g' t3 t4 env' ?s") (auto simp: is_ok_iff)
    then obtain e where "normalise env' = Inr e"
      "mark_used t4 (norm_nonce e) (g_window g' + g_clock_skew g') ?s = (Inr True, s'')"
      by (rule commit_Inr)
    then show False using assms(4,5) r [of "g_window g' + g_clock_skew g'"] by simp
  qed
qed

end

lemma check_and_open_Inr:
  assumes "check_and_open P mk sn g t1 t2 t3 t4 env rid kp sid pks s = (Inr m, s')"
  obtains d c where "normalise env = Inr d"
    "verify_envelope P t3 d pks (Some rid) (Some sid) (g_window g) (g_clock_skew g) False = Inr c"
    "decrypt_verified_envelope P c kp [] = Inr m"
    "sn t2 (norm_nonce d) s = (Inr False, snd (sn t2 (norm_nonce d) s))"
    "mk t4 (norm_nonce d) (g_window g + g_clock_skew g) (snd (sn t2 (norm_nonce d) s)) = (Inr True, s')"
  using assms
  by (auto simp: check_and_open_def unseen_def first_use_Inr guard_Inr_iff
      split: sum.splits prod.splits if_splits)

context nonce_store
begin

lemma open_once:
  assumes "sinv s" and "check_and_open P mark_used is_seen g t1 t2 t3 t4 env rid kp sid pks s = (Inr m, s')"
    and "dget env' ''envelope_nonce'' = dget env ''envelope_nonce''"
    and "\<forall>x \<in> set xs. op_time x < t4 + of_int (g_window g + g_clock_skew g)"
    and "u2 < t4 + of_int (g_window g + g_clock_skew g)"
    and "u4 < t4 + of_int (g_window g + g_clock_skew g)"
  shows "\<not> is_ok (fst (check_and_open P' mark_used is_seen g' u1 u2 u3 u4 env' rid' kp' sid' pks'
    (run_ops mark_used is_seen cleanup xs s')))"
proof
  let ?s = "run_ops mark_used is_seen cleanup xs s'" and ?ttl = "g_window g + g_clock_skew g"
  assume "is_ok (fst (check_and_open P' mark_used is_seen g' u1 u2 u3 u4 env' rid' kp' sid' pks' ?s))"
  then obtain m' s'' where o: "check_and_open P' mark_used is_seen g' u1 u2 u3 u4 env' rid' kp' sid' pks' ?s
      = (Inr m', s'')"
    by (cases "check_and_open P' mark_used is_seen g' u1 u2 u3 u4 env' rid' kp' sid' pks' ?s")
      (auto simp: is_ok_iff)
  from assms(2) obtain d where d: "normalise env = Inr d"
    "mark_used t4 (norm_nonce d) ?ttl (snd (is_seen t2 (norm_nonce d) s)) = (Inr True, s')"
    by (rule check_and_open_Inr)
  from o obtain d' where d': "normalise env' = Inr d'"
    "mark_used u4 (norm_nonce d') (g_window g' + g_clock_skew g') (snd (is_seen u2 (norm_nonce d') ?s)) =
      (Inr True, s'')"
    by (rule check_and_open_Inr)
  have n: "norm_nonce d' = norm_nonce d"
    using normalise_Inr [OF d(1)] normalise_Inr [OF d'(1)] assms(3) by simp
  let ?xs = "xs @ [IsSeen u2 (norm_nonce d)]"
  have "fst (mark_used u4 (norm_nonce d) (g_window g' + g_clock_skew g')
      (run_ops mark_used is_seen cleanup ?xs (snd (mark_used t4 (norm_nonce d) ?ttl
        (snd (is_seen t2 (norm_nonce d) s)))))) \<noteq> Inr True"
    by (rule once_per_ttl) (use assms d in \<open>auto simp: inv_seen\<close>)
  then show False
    using d d' n by (simp add: run_ops_def)
qed

end

section \<open>A concrete guard\<close>

definition demo_guard :: replay_guard where
  "demo_guard = \<lparr>g_window = 300, g_clock_skew = 30\<rparr>"

definition stamp :: "int \<Rightarrow> dict" where
  \<comment> \<open>the two fields of an envelope that the guard reads\<close>
  "stamp ts = [(''timestamp'', PInt ts), (''envelope_nonce'', PStr ''n1'')]"

lemma normalise_stamp: "normalise (stamp ts) = Inr (stamp ts) \<and> norm_ts (stamp ts) = ts \<and>
    norm_nonce (stamp ts) = ''n1''"
  by (simp add: normalise_def stamp_def has_key_def dget_def norm_ts_def norm_nonce_def)

lemma fresh_stamp:
  "\<bar>ts\<bar> \<le> 10 ^ 18 - 1 \<Longrightarrow> now - of_int ts \<le> of_int (g_window g) \<Longrightarrow>
   of_int ts \<le> now + of_int (g_clock_skew g) \<Longrightarrow> fresh_dict g now (stamp ts) = Inr (stamp ts)"
  using normalise_stamp [of ts] by (simp add: fresh_dict_def check_freshness_normalised_def)

lemma normalise_sealed:
  assumes "seal P R now m skp rpks sid rid ad = Inr env" and "r_env R \<noteq> []"
  shows "normalise env = Inr env \<and> norm_nonce env = hex (r_env R) \<and> norm_ts env = trunc now \<and>
    dget env ''sender_id'' = PStr sid \<and> dget env ''recipient_id'' = PStr rid"
proof -
  from assms(1) obtain ct epub kct sigs where "env = [(''version'', PStr ''UXSP-1''), (''sender_id'', PStr sid),
       (''recipient_id'', PStr rid), (''timestamp'', PInt (trunc now)),
       (''envelope_nonce'', PStr (hex (r_env R))), (''ciphertext'', PStr (hex ct)),
       (''nonce'', PStr (hex (r_nonce R))), (''ephemeral_pub'', PStr (hex epub)),
       (''kem_ciphertext'', PStr (hex kct)), (''classical_sig'', dget sigs ''classical_sig''),
       (''pqc_sig'', dget sigs ''pqc_sig'')]" by (rule seal_Inr)
  then show ?thesis
    using hex_nonempty [OF assms(2)]
    by (simp add: normalise_def has_key_def dget_def norm_ts_def norm_nonce_def)
qed

section \<open>Properties\<close>

text \<open>An envelope that the guard committed cannot be committed a second time, at any later
  moment, whatever other envelopes and cleanups the store handles in between: either it has
  gone stale or its nonce is still remembered. The hypothesis excludes only an envelope
  dated ahead of the clock by the whole skew, less the time one call takes.\<close>

theorem replay_commit_once:
  assumes "mem_inv s" and "commit mem_mark_used g t1 t2 env s = (Inr u, s')"
    and "normalise env = Inr d" and "of_int (norm_ts d) + (t4 - t3) < t2 + of_int (g_clock_skew g)"
    and "\<forall>x \<in> set xs. op_time x \<le> t4"
  shows "\<not> is_ok (fst (commit mem_mark_used g t3 t4 env
    (run_ops mem_mark_used mem_is_seen mem_cleanup xs s')))"
proof (cases "t4 < t2 + of_int (g_window g + g_clock_skew g)")
  case True
  with mem.commit_twice [OF assms(1-3) assms(3) refl, of xs t4] assms(5) show ?thesis by fastforce
next
  case False
  then have "of_int (g_window g) < t3 - of_int (norm_ts d)"
    using assms(4) by simp
  then have "\<not> is_ok (fresh_dict g t3 env)"
    using fresh_dict_Inr [of g t3 env] assms(3) by (fastforce simp: is_ok_iff)
  then show ?thesis by (auto simp: commit_def is_ok_iff split: sum.splits)
qed

theorem replay_commit_once_witness:
  "\<not> is_ok (fst (commit mem_mark_used demo_guard 300 300 (stamp 100)
    (run_ops mem_mark_used mem_is_seen mem_cleanup [MarkUsed 150 ''n2'' 330, Cleanup 299]
      (snd (commit mem_mark_used demo_guard 101 101 (stamp 100) mem_init)))))"
proof -
  have c: "commit mem_mark_used demo_guard 101 101 (stamp 100) mem_init =
      (Inr (), \<lparr>mstore = [(''n1'', 431)], calls_since_cleanup = 1\<rparr>)"
    using normalise_stamp [of 100]
    by (simp add: commit_def fresh_stamp demo_guard_def first_use_def mem_mark_used_def mem_init_def
        MAX_NONCE_STORE_SIZE_def)
  from replay_commit_once [OF mem_inv_init this, of "stamp 100" 300 300] normalise_stamp [of 100] c
  show ?thesis by (simp add: demo_guard_def)
qed

text \<open>The excluded case is real: an envelope dated ahead by exactly the skew is still fresh at
  the instant its nonce expires, and \<open>precheck\<close> followed by \<open>commit\<close> accepts it again then.\<close>

theorem replay_boundary:
  assumes "0 < g_window g" and "0 \<le> g_clock_skew g" and "\<bar>t + g_clock_skew g\<bar> \<le> 10 ^ 18 - 1"
  shows "let ts = t + g_clock_skew g; env = stamp ts; late = of_int (ts + g_window g);
      (r1, s1) = commit mem_mark_used g (of_int t) (of_int t) env mem_init;
      (r2, s2) = precheck mem_is_seen g late late env s1;
      (r3, s3) = commit mem_mark_used g late late env s2
    in r1 = Inr () \<and> r2 = Inr () \<and> r3 = Inr ()"
  using assms normalise_stamp [of "t + g_clock_skew g"]
  by (simp add: commit_def precheck_def fresh_stamp first_use_def unseen_def mem_mark_used_def
      mem_is_seen_def mem_init_def MAX_NONCE_STORE_SIZE_def Let_def algebra_simps)

theorem replay_boundary_witness:
  "let (r1, s1) = commit mem_mark_used demo_guard 100 100 (stamp 130) mem_init;
      (r2, s2) = precheck mem_is_seen demo_guard 430 430 (stamp 130) s1;
      (r3, s3) = commit mem_mark_used demo_guard 430 430 (stamp 130) s2
    in r1 = Inr () \<and> r2 = Inr () \<and> r3 = Inr ()"
  using replay_boundary [of demo_guard 100] by (simp add: demo_guard_def Let_def)

text \<open>\<open>check_and_open\<close> returns a plaintext only for an envelope whose signatures verified for
  this recipient and sender, and only once: a second envelope with the same nonce, even one
  that verifies, is refused while the nonce is remembered. An envelope that does not verify
  never uses up a nonce: the store is as \<open>is_seen\<close> left it.\<close>

theorem replay_open_once:
  assumes "mem_inv s"
    and "check_and_open P mem_mark_used mem_is_seen g t1 t2 t3 t4 env rid kp sid pks s = (r, s')"
  shows "(\<forall>m. r = Inr m \<longrightarrow> (\<exists>d c. normalise env = Inr d \<and>
      verify_envelope P t3 d pks (Some rid) (Some sid) (g_window g) (g_clock_skew g) False = Inr c \<and>
      decrypt_verified_envelope P c kp [] = Inr m) \<and>
      (\<forall>xs u1 u2 u3 u4 env' P' g' rid' kp' sid' pks'.
        dget env' ''envelope_nonce'' = dget env ''envelope_nonce'' \<longrightarrow>
        (\<forall>x \<in> set xs. op_time x < t4 + of_int (g_window g + g_clock_skew g)) \<longrightarrow>
        u2 < t4 + of_int (g_window g + g_clock_skew g) \<longrightarrow>
        u4 < t4 + of_int (g_window g + g_clock_skew g) \<longrightarrow>
        \<not> is_ok (fst (check_and_open P' mem_mark_used mem_is_seen g' u1 u2 u3 u4 env' rid' kp' sid'
          pks' (run_ops mem_mark_used mem_is_seen mem_cleanup xs s'))))) \<and>
    ((\<forall>d. normalise env = Inr d \<longrightarrow> \<not> is_ok (verify_envelope P t3 d pks (Some rid) (Some sid)
        (g_window g) (g_clock_skew g) False)) \<longrightarrow>
      s' = s \<or> (\<exists>n. s' = snd (mem_is_seen t2 n s)))"
proof -
  have "\<exists>d c. normalise env = Inr d \<and>
      verify_envelope P t3 d pks (Some rid) (Some sid) (g_window g) (g_clock_skew g) False = Inr c \<and>
      decrypt_verified_envelope P c kp [] = Inr m" if "r = Inr m" for m
    using assms(2) that by (auto elim!: check_and_open_Inr)
  moreover have "\<not> is_ok (fst (check_and_open P' mem_mark_used mem_is_seen g' u1 u2 u3 u4 env' rid' kp'
      sid' pks' (run_ops mem_mark_used mem_is_seen mem_cleanup xs s')))"
    if "r = Inr m" "dget env' ''envelope_nonce'' = dget env ''envelope_nonce''"
      "\<forall>x \<in> set xs. op_time x < t4 + of_int (g_window g + g_clock_skew g)"
      "u2 < t4 + of_int (g_window g + g_clock_skew g)" "u4 < t4 + of_int (g_window g + g_clock_skew g)"
    for m xs u1 u2 u3 u4 env' P' g' rid' kp' sid' pks'
    using mem.open_once [OF assms(1) assms(2) [unfolded that(1)] that(2-5)] .
  moreover have "s' = s \<or> (\<exists>n. s' = snd (mem_is_seen t2 n s))"
    if "\<forall>d. normalise env = Inr d \<longrightarrow> \<not> is_ok (verify_envelope P t3 d pks (Some rid) (Some sid)
        (g_window g) (g_clock_skew g) False)"
    using assms(2) that unfolding check_and_open_def unseen_def
    by (auto split: sum.splits prod.splits if_splits intro: exI [where x = "norm_nonce _"]) (metis snd_conv)+
  ultimately show ?thesis by blast
qed

theorem replay_open_once_witness:
  "\<exists>s'. check_and_open demo_prims mem_mark_used mem_is_seen demo_guard 1010 1010 1010 1010 demo_envelope
      ''bob'' (demo_keypair 2) ''alice'' (demo_pubkeys 1) mem_init = (Inr [42], s') \<and>
    \<not> is_ok (fst (check_and_open demo_prims mem_mark_used mem_is_seen demo_guard 1011 1011 1011 1011
      demo_envelope ''bob'' (demo_keypair 2) ''alice'' (demo_pubkeys 1) s'))"
proof -
  note n = normalise_sealed [OF demo_envelope_ok]
  obtain c where c: "verify_envelope demo_prims 1010 demo_envelope (demo_pubkeys 1) (Some ''bob'')
      (Some ''alice'') 300 30 False = Inr c" "decrypt_verified_envelope demo_prims c (demo_keypair 2) [] = Inr [42]"
    using verify_seal [OF demo_laws(1) demo_laws(3) demo_laws(2) demo_laws(4) demo_is_keypair
        demo_is_keypair _ _ _ demo_envelope_ok, of 1010 300 30]
    by (auto simp: demo_random_def trunc_def)
  let ?s = "\<lparr>mstore = [(hex [8], 1340)], calls_since_cleanup = 1\<rparr>"
  have o: "check_and_open demo_prims mem_mark_used mem_is_seen demo_guard 1010 1010 1010 1010 demo_envelope
      ''bob'' (demo_keypair 2) ''alice'' (demo_pubkeys 1) mem_init = (Inr [42], ?s)"
    using n c by (simp add: check_and_open_def demo_guard_def demo_random_def trunc_def unseen_def
        check_freshness_normalised_def first_use_def mem_is_seen_def mem_mark_used_def mem_init_def
        MAX_NONCE_STORE_SIZE_def)
  have "\<not> is_ok (fst (check_and_open demo_prims mem_mark_used mem_is_seen demo_guard 1011 1011 1011 1011
      demo_envelope ''bob'' (demo_keypair 2) ''alice'' (demo_pubkeys 1)
      (run_ops mem_mark_used mem_is_seen mem_cleanup [] ?s)))"
    using conjunct1 [OF replay_open_once [OF mem_inv_init o], rule_format, OF refl, THEN conjunct2,
      rule_format, of demo_envelope "[]" 1011 1011] by (simp add: demo_guard_def)
  with o show ?thesis by (simp add: run_ops_def)
qed

end
