(* ===== verification/Identity.thy ===== *)
theory Identity
  imports Envelope Replay
begin

text \<open>
  \<open>uxsp/core/identity.py\<close>: identities with their hybrid keypair, the public cards made
  from them with expiry and revocation, sealing and opening under the card checks, and the
  password-encrypted form of an identity. ISO time stamps are the functions of \<open>pylib\<close>. The
  annotated attribute types are types of the model, so a dictionary whose text members are
  not strings gives \<open>TypeError\<close> at construction, where Python would build an ill-typed
  object. Files are in \<open>IdentityFiles\<close>, password hashes in \<open>Accounts\<close>.
\<close>

section \<open>Roles\<close>

definition validate_role :: "string \<Rightarrow> string res" where
  "validate_role role =
     (let r = upper (strip role) in
      guard (r \<noteq> []) ValueError
       (guard (int (length r) \<le> 64) ValueError
         (guard (\<forall>c \<in> set r. \<not> is_uspace c) ValueError (Inr r))))"

section \<open>Identities\<close>

record identity =
  entity_id :: string
  i_name :: string
  i_role :: string
  keypair :: keypair
  i_created_at :: string
  i_key_version :: int
  keys_rotated_at :: "string option"
  i_pub :: pubkeys

definition identity_new :: "pylib \<Rightarrow> time \<Rightarrow> string \<Rightarrow> string \<Rightarrow> string \<Rightarrow> keypair \<Rightarrow> string option \<Rightarrow> int \<Rightarrow>
    string option \<Rightarrow> identity res" where
  "identity_new L now eid name role kp created_at version rotated =
     rbind (validate_role role) (\<lambda>r.
     rbind (extract_public_keys kp) (\<lambda>pub.
     Inr \<lparr>entity_id = eid, i_name = name, i_role = r, keypair = kp,
          i_created_at = (case created_at of
             None \<Rightarrow> isoformat L now | Some t \<Rightarrow> if t = [] then isoformat L now else t),
          i_key_version = version, keys_rotated_at = rotated, i_pub = pub\<rparr>))"

text \<open>A fresh UUID and the four fresh private keys are arguments.\<close>

definition identity_create :: "prims \<Rightarrow> pylib \<Rightarrow> time \<Rightarrow> string \<Rightarrow> bytes \<Rightarrow> bytes \<Rightarrow> bytes \<Rightarrow> bytes \<Rightarrow>
    string \<Rightarrow> string \<Rightarrow> identity res" where
  "identity_create P L now uuid xsk ksk ssk qsk name role =
     guard (strip name \<noteq> []) ValueError
      (rbind (generate_hybrid_keypair P xsk ksk ssk qsk) (\<lambda>kp.
        identity_new L now uuid (strip name) role kp None 1 None))"

definition rotate_keys :: "prims \<Rightarrow> pylib \<Rightarrow> time \<Rightarrow> bytes \<Rightarrow> bytes \<Rightarrow> bytes \<Rightarrow> bytes \<Rightarrow> identity \<Rightarrow>
    unit res \<times> identity" where
  "rotate_keys P L now xsk ksk ssk qsk i =
     (case generate_hybrid_keypair P xsk ksk ssk qsk of
        Inl e \<Rightarrow> (Inl e, i)
      | Inr kp \<Rightarrow>
          let i1 = i\<lparr>keypair := kp\<rparr> in
          (case extract_public_keys (keypair i1) of
             Inl e \<Rightarrow> (Inl e, i1)
           | Inr pub \<Rightarrow>
               (Inr (), i1\<lparr>i_pub := pub, i_key_version := i_key_version i1 + 1,
                           keys_rotated_at := Some (isoformat L now)\<rparr>)))"

text \<open>\<open>==\<close> of identities; dictionaries compare without regard to the order of entries.\<close>

definition dict_eq :: "(string \<times> bytes) list \<Rightarrow> (string \<times> bytes) list \<Rightarrow> bool" where
  "dict_eq a b \<longleftrightarrow> (\<forall>k \<in> set (map fst a @ map fst b). map_of a k = map_of b k)"

definition keypair_eq :: "keypair \<Rightarrow> keypair \<Rightarrow> bool" where
  "keypair_eq a b \<longleftrightarrow> (\<forall>k \<in> set (map fst a @ map fst b).
     case (map_of a k, map_of b k) of (Some x, Some y) \<Rightarrow> dict_eq x y | _ \<Rightarrow> False)"

definition identity_eq :: "identity \<Rightarrow> identity \<Rightarrow> bool" where
  "identity_eq i j \<longleftrightarrow> entity_id i = entity_id j \<and> i_key_version i = i_key_version j \<and>
     keypair_eq (keypair i) (keypair j)"

section \<open>Public cards\<close>

record public_card =
  c_entity_id :: string
  c_name :: string
  c_role :: string
  c_public_keys :: pubkeys
  c_created_at :: string
  c_valid_until :: "string option"
  c_is_revoked :: bool
  c_revocation_reason :: "string option"
  c_revoked_at :: "string option"
  c_key_version :: int

text \<open>An argument that may be a string or a \<open>datetime\<close> (a naive one means UTC).\<close>

datatype moment = IsoText string | Datetime time

definition moment_text :: "pylib \<Rightarrow> moment \<Rightarrow> string" where
  "moment_text L m = (case m of IsoText s \<Rightarrow> s | Datetime t \<Rightarrow> isoformat L t)"

definition card_new :: "string \<Rightarrow> string \<Rightarrow> string \<Rightarrow> pubkeys \<Rightarrow> string \<Rightarrow> string option \<Rightarrow> bool \<Rightarrow>
    string option \<Rightarrow> string option \<Rightarrow> int \<Rightarrow> public_card res" where
  "card_new eid name role pks created_at valid_until revoked reason revoked_at version =
     rbind (validate_role role) (\<lambda>r.
     Inr \<lparr>c_entity_id = eid, c_name = name, c_role = r, c_public_keys = pks,
          c_created_at = created_at, c_valid_until = valid_until, c_is_revoked = revoked,
          c_revocation_reason = reason, c_revoked_at = revoked_at, c_key_version = version\<rparr>)"

definition identity_card :: "pylib \<Rightarrow> time \<Rightarrow> moment option \<Rightarrow> rat option \<Rightarrow> identity \<Rightarrow> public_card res" where
  \<comment> \<open>\<open>Identity.public_card(valid_until, ttl_seconds)\<close>\<close>
  "identity_card L now valid_until ttl_seconds i =
     card_new (entity_id i) (i_name i) (i_role i) (i_pub i) (i_created_at i)
       (case valid_until of
          Some m \<Rightarrow> Some (moment_text L m)
        | None \<Rightarrow> (case ttl_seconds of None \<Rightarrow> None | Some s \<Rightarrow> Some (isoformat L (now + s))))
       False None None (i_key_version i)"

definition is_expired :: "pylib \<Rightarrow> time \<Rightarrow> moment option \<Rightarrow> public_card \<Rightarrow> bool res" where
  \<comment> \<open>the clock and the argument \<open>now\<close>\<close>
  "is_expired L clock now c =
     (case c_valid_until c of
        None \<Rightarrow> Inr False
      | Some v \<Rightarrow>
          if v = [] then Inr False
          else
            rbind (case now of
                None \<Rightarrow> Inr clock
              | Some (IsoText s) \<Rightarrow> (case fromisoformat L s of None \<Rightarrow> Inl ValueError | Some t \<Rightarrow> Inr t)
              | Some (Datetime t) \<Rightarrow> Inr t) (\<lambda>t.
            case fromisoformat L v of None \<Rightarrow> Inl ValueError | Some u \<Rightarrow> Inr (u < t)))"

definition card_revoke :: "pylib \<Rightarrow> time \<Rightarrow> string option \<Rightarrow> moment option \<Rightarrow> public_card \<Rightarrow> public_card" where
  "card_revoke L clock reason revoked_at c =
     c\<lparr>c_is_revoked := True,
       c_revocation_reason := Some (case reason of
          None \<Rightarrow> ''Key compromised'' | Some r \<Rightarrow> if r = [] then ''Key compromised'' else r),
       c_revoked_at := Some (case revoked_at of None \<Rightarrow> isoformat L clock | Some m \<Rightarrow> moment_text L m)\<rparr>"

definition verify_validity :: "pylib \<Rightarrow> time \<Rightarrow> moment option \<Rightarrow> public_card \<Rightarrow> unit res" where
  "verify_validity L clock now c =
     guard (\<not> c_is_revoked c) CardRevokedError
      (rbind (is_expired L clock now c) (\<lambda>x. guard (\<not> x) CardExpiredError (Inr ())))"

definition opt_entry :: "string \<Rightarrow> string option \<Rightarrow> dict" where
  "opt_entry k v = (case v of None \<Rightarrow> [] | Some s \<Rightarrow> [(k, PStr s)])"

definition hex_keys :: "pubkeys \<Rightarrow> dict" where
  "hex_keys pks = map (\<lambda>(k, v). (k, PStr (hex v))) pks"

definition card_to_dict :: "public_card \<Rightarrow> dict" where
  "card_to_dict c =
     [(''version'', PStr ''UXSP-PUBCARD-1''), (''entity_id'', PStr (c_entity_id c)),
      (''name'', PStr (c_name c)), (''role'', PStr (c_role c)), (''created_at'', PStr (c_created_at c)),
      (''public_keys'', PDict (hex_keys (c_public_keys c))), (''key_version'', PInt (c_key_version c)),
      (''is_revoked'', PBool (c_is_revoked c))] @
     opt_entry ''valid_until'' (c_valid_until c) @
     opt_entry ''revocation_reason'' (c_revocation_reason c) @
     opt_entry ''revoked_at'' (c_revoked_at c)"

definition parse_keys :: "pyval \<Rightarrow> pubkeys res" where
  "parse_keys v = (case v of
     PDict d \<Rightarrow> res_map (\<lambda>(k, x). rbind (py_fromhex x) (\<lambda>b. Inr (k, b))) d
   | _ \<Rightarrow> Inl AttributeError)"

definition card_from_dict :: "dict \<Rightarrow> public_card res" where
  "card_from_dict d =
     guard (dget d ''version'' = PStr ''UXSP-PUBCARD-1'' \<or> dget d ''version'' = PNone) ValueError
      (rbind (rbind (subscript d ''entity_id'') the_str) (\<lambda>eid.
       rbind (rbind (subscript d ''name'') the_str) (\<lambda>name.
       rbind (subscript d ''role'') (\<lambda>rolev.
       rbind (rbind (subscript d ''created_at'') the_str) (\<lambda>created_at.
       rbind (rbind (subscript d ''public_keys'') parse_keys) (\<lambda>pks.
       rbind (opt_str (dget d ''valid_until'')) (\<lambda>valid_until.
       rbind (opt_str (dget d ''revocation_reason'')) (\<lambda>reason.
       rbind (opt_str (dget d ''revoked_at'')) (\<lambda>revoked_at.
       rbind (py_int (dget_default d ''key_version'' (PInt 1))) (\<lambda>version.
       case rolev of
         PStr role \<Rightarrow> card_new eid name role pks created_at valid_until
           (py_truthy (dget_default d ''is_revoked'' (PBool False))) reason revoked_at version
       | _ \<Rightarrow> Inl ValueError))))))))))"

section \<open>Sealing and opening\<close>

definition seal_for :: "prims \<Rightarrow> pylib \<Rightarrow> seal_random \<Rightarrow> time \<Rightarrow> time \<Rightarrow> bytes \<Rightarrow> public_card \<Rightarrow> identity \<Rightarrow>
    envelope res" where
  \<comment> \<open>clock readings of the validity check and of \<open>seal\<close>\<close>
  "seal_for P L R t1 t2 plaintext pcard i =
     guard (\<not> c_is_revoked pcard) CardRevokedError
      (rbind (verify_validity L t1 None pcard) (\<lambda>_.
       rbind (seal P R t2 plaintext (keypair i) (c_public_keys pcard) (entity_id i) (c_entity_id pcard) [])
        (\<lambda>raw. env_from_dict (float_repr L) raw None)))"

definition open_from :: "prims \<Rightarrow> pylib \<Rightarrow> 's marker \<Rightarrow> 's seer \<Rightarrow> replay_guard option \<Rightarrow> time \<Rightarrow> time \<Rightarrow>
    time \<Rightarrow> time \<Rightarrow> time \<Rightarrow> time \<Rightarrow> dict \<Rightarrow> public_card \<Rightarrow> identity \<Rightarrow> 's \<Rightarrow> bytes res \<times> 's" where
  \<comment> \<open>clock readings of the card check, of \<open>precheck\<close> (2), \<open>verify_envelope\<close>, \<open>commit\<close> (2)\<close>
  "open_from P L mk sn og t1 t2 t3 t4 t5 t6 d pcard i s =
     (case guard (\<not> c_is_revoked pcard) CardRevokedError (verify_validity L t1 None pcard) of
        Inl e \<Rightarrow> (Inl e, s)
      | Inr _ \<Rightarrow>
         (case og of
            None \<Rightarrow> (Inl RuntimeError, s)
          | Some g \<Rightarrow>
             if dget d ''recipient_id'' \<noteq> PStr (entity_id i) then (Inl ValueError, s)
             else if dget d ''sender_id'' \<noteq> PStr (c_entity_id pcard) then (Inl ValueError, s)
             else (case precheck sn g t2 t3 d s of
               (Inl e, s1) \<Rightarrow> (Inl e, s1)
             | (Inr _, s1) \<Rightarrow>
                (case verify_envelope P t4 d (c_public_keys pcard) (Some (entity_id i))
                    (Some (c_entity_id pcard)) (g_window g) (g_clock_skew g) False of
                   Inl e \<Rightarrow> (Inl e, s1)
                 | Inr c \<Rightarrow>
                    (case commit mk g t5 t6 d s1 of
                       (Inl e, s2) \<Rightarrow> (Inl e, s2)
                     | (Inr _, s2) \<Rightarrow> (decrypt_verified_envelope P c (keypair i) [], s2))))))"

section \<open>Encrypted form\<close>

definition identity_public_metadata :: "dict \<Rightarrow> dict res" where
  "identity_public_metadata p =
     rbind (subscript p ''version'') (\<lambda>v. rbind (subscript p ''entity_id'') (\<lambda>e.
     rbind (subscript p ''name'') (\<lambda>n. rbind (subscript p ''role'') (\<lambda>r.
     rbind (subscript p ''created_at'') (\<lambda>t. rbind (subscript p ''public_keys'') (\<lambda>k.
     Inr ([(''version'', v), (''entity_id'', e), (''name'', n), (''role'', r), (''created_at'', t),
           (''public_keys'', k)] @
          (if has_key p ''key_version'' then [(''key_version'', dget p ''key_version'')] else []) @
          (if py_truthy (dget p ''keys_rotated_at'')
           then [(''keys_rotated_at'', dget p ''keys_rotated_at'')] else []))))))))"

definition identity_associated_data :: "pylib \<Rightarrow> dict \<Rightarrow> bytes res" where
  "identity_associated_data L p =
     rbind (identity_public_metadata p) (\<lambda>m.
       Inr (utf8 (dumps (float_repr L) True (sort_keys (PDict m)))))"

definition private_dict :: "identity \<Rightarrow> dict res" where
  "private_dict i =
     rbind (private_key (keypair i) ''exchange'') (\<lambda>x.
     rbind (private_key (keypair i) ''kem'') (\<lambda>k.
     rbind (private_key (keypair i) ''signing'') (\<lambda>s.
     rbind (private_key (keypair i) ''pqc_sig'') (\<lambda>q.
     Inr [(''exchange_priv'', PStr (hex x)), (''kem_priv'', PStr (hex k)),
          (''signing_priv'', PStr (hex s)), (''pqc_sig_priv'', PStr (hex q))]))))"

definition public_dict :: "identity \<Rightarrow> dict res" where
  "public_dict i =
     rbind (subscript (i_pub i) ''exchange_pub'') (\<lambda>x.
     rbind (subscript (i_pub i) ''kem_pub'') (\<lambda>k.
     rbind (subscript (i_pub i) ''signing_pub'') (\<lambda>s.
     rbind (subscript (i_pub i) ''pqc_sig_pub'') (\<lambda>q.
     Inr (hex_keys [(''exchange_pub'', x), (''kem_pub'', k), (''signing_pub'', s), (''pqc_sig_pub'', q)])))))"

definition to_encrypted_dict :: "prims \<Rightarrow> pylib \<Rightarrow> bytes \<Rightarrow> bytes \<Rightarrow> string \<Rightarrow> identity \<Rightarrow> dict res" where
  \<comment> \<open>the random salt and the AES-GCM nonce are arguments\<close>
  "to_encrypted_dict P L salt nonce password i =
     rbind (derive_key_from_password P salt password None 32 3 65536 4) (\<lambda>(key, salt').
     rbind (private_dict i) (\<lambda>priv.
     rbind (public_dict i) (\<lambda>pub.
     let payload = [(''version'', PStr ''UXSP-IDENTITY-1''), (''entity_id'', PStr (entity_id i)),
           (''name'', PStr (i_name i)), (''role'', PStr (i_role i)),
           (''created_at'', PStr (i_created_at i)), (''key_version'', PInt (i_key_version i)),
           (''keys_rotated_at'', case keys_rotated_at i of None \<Rightarrow> PNone | Some t \<Rightarrow> PStr t),
           (''public_keys'', PDict pub)]
     in rbind (identity_associated_data L payload) (\<lambda>ad.
        rbind (sym_encrypt P nonce (utf8 (dumps (float_repr L) False (PDict priv))) key (Some ad))
         (\<lambda>(ct, n).
        Inr (payload @ [(''encrypted_private'', PDict
          [(''ciphertext'', PStr (hex ct)), (''nonce'', PStr (hex n)),
           (''kdf_salt'', PStr (hex salt')), (''associated_data'', PStr ''public-metadata-v1'')])]))))))"

definition subscript_hex :: "pyval \<Rightarrow> string \<Rightarrow> bytes res" where
  \<comment> \<open>\<open>bytes.fromhex(v[k])\<close> for a \<open>v\<close> of any type\<close>
  "subscript_hex v k = (case v of
     PDict d \<Rightarrow> rbind (subscript d k) py_fromhex | _ \<Rightarrow> Inl TypeError)"

definition is_lookup_error :: "exn \<Rightarrow> bool" where
  \<comment> \<open>\<open>except (KeyError, TypeError, ValueError)\<close>\<close>
  "is_lookup_error e \<longleftrightarrow> e = KeyError \<or> is_ValueTypeError e"

definition read_keypair :: "pyval \<Rightarrow> pyval \<Rightarrow> keypair res" where
  "read_keypair priv pub =
     (let pair = (\<lambda>sk pk. rbind (subscript_hex priv sk) (\<lambda>a. rbind (subscript_hex pub pk) (\<lambda>b.
            Inr [(''private_key'', a), (''public_key'', b)])))
      in rescue is_lookup_error ValueError
        (rbind (pair ''exchange_priv'' ''exchange_pub'') (\<lambda>x.
         rbind (pair ''kem_priv'' ''kem_pub'') (\<lambda>k.
         rbind (pair ''signing_priv'' ''signing_pub'') (\<lambda>s.
         rbind (pair ''pqc_sig_priv'' ''pqc_sig_pub'') (\<lambda>q.
         Inr [(''exchange'', x), (''kem'', k), (''signing'', s), (''pqc_sig'', q)]))))))"

definition from_encrypted_dict :: "prims \<Rightarrow> pylib \<Rightarrow> time \<Rightarrow> dict \<Rightarrow> string \<Rightarrow> identity res" where
  "from_encrypted_dict P L now payload password =
     guard (dget payload ''version'' = PStr ''UXSP-IDENTITY-1'') ValueError
      (case dget payload ''encrypted_private'' of
         PDict enc \<Rightarrow>
           rbind (rescue is_lookup_error ValueError (rbind (subscript enc ''kdf_salt'') py_fromhex)) (\<lambda>salt.
           rbind (derive_key_from_password P [] password (Some salt) 32 3 65536 4) (\<lambda>(key, _).
           rbind (rescue (\<lambda>e. e = KeyError) ValueError
              (if dget enc ''associated_data'' = PStr ''public-metadata-v1''
               then identity_associated_data L payload
               else rbind (subscript payload ''entity_id'') (\<lambda>v.
                 case v of PStr s \<Rightarrow> Inr (utf8 s) | _ \<Rightarrow> Inl AttributeError))) (\<lambda>ad.
           rbind (rescue is_lookup_error ValueError
              (rbind (rbind (subscript enc ''ciphertext'') py_fromhex) (\<lambda>ct.
               rbind (rbind (subscript enc ''nonce'') py_fromhex) (\<lambda>nonce. Inr (ct, nonce))))) (\<lambda>(ct, nonce).
           rbind (rescue (\<lambda>_. True) ValueError (sym_decrypt P ct nonce key (Some ad))) (\<lambda>raw.
           rbind (rescue (\<lambda>e. e \<in> {UnicodeDecodeError, JSONDecodeError, KeyError}) ValueError
              (rbind (loads_bytes raw) (\<lambda>priv.
               rbind (subscript payload ''public_keys'') (\<lambda>pub. Inr (priv, pub))))) (\<lambda>(priv, pub).
           rbind (read_keypair priv pub) (\<lambda>kp.
           rbind (rbind (subscript payload ''entity_id'') the_str) (\<lambda>eid.
           rbind (rbind (subscript payload ''name'') the_str) (\<lambda>name.
           rbind (subscript payload ''role'') (\<lambda>rolev.
           rbind (rbind (subscript payload ''created_at'') opt_str) (\<lambda>created_at.
           rbind (the_int (dget_default payload ''key_version'' (PInt 1))) (\<lambda>version.
           rbind (opt_str (dget payload ''keys_rotated_at'')) (\<lambda>rotated.
           case rolev of
             PStr role \<Rightarrow> identity_new L now eid name role kp created_at version rotated
           | _ \<Rightarrow> Inl ValueError)))))))))))))
       | _ \<Rightarrow> Inl ValueError)"

section \<open>Lemmas: roles and cards\<close>

lemma upper_append: "upper (a @ b) = upper a @ upper b"
  by (simp add: upper_def)

lemma upper_char: "upper (upper [c]) = upper [c]"
proof -
  let ?n = "of_char c :: nat"
  consider "97 \<le> ?n" "?n \<le> 122" | "224 \<le> ?n" "?n \<le> 254" "?n \<noteq> 247" | "?n = 223"
    | "\<not> (97 \<le> ?n \<and> ?n \<le> 122)" "\<not> (224 \<le> ?n \<and> ?n \<le> 254 \<and> ?n \<noteq> 247)" "?n \<noteq> 223"
    by blast
  then show ?thesis
  proof cases
    case 3
    moreover have "upper ''SS'' = ''SS''" by code_simp
    ultimately show ?thesis by (simp add: upper_def Let_def)
  qed (auto simp: upper_def Let_def)
qed

lemma upper_idem: "upper (upper s) = upper s"
proof (induction s)
  case (Cons c s)
  with upper_char [of c] show ?case
    using upper_append [of "[c]" s] upper_append [of "upper [c]" "upper s"] by simp
qed (simp add: upper_def)

lemma validate_role_idem: "validate_role r = Inr r' \<Longrightarrow> validate_role r' = Inr r'"
  by (auto simp: validate_role_def Let_def guard_Inr_iff strip_id upper_idem)

lemma card_new_Inr:
  "card_new eid name role pks t v rv re ra ver = Inr c \<Longrightarrow> validate_role (c_role c) = Inr (c_role c)"
  by (auto simp: card_new_def rbind_Inr_iff dest: validate_role_idem)

lemma parse_hex_keys: "parse_keys (PDict (hex_keys pks)) = Inr pks"
  by (induction pks) (auto simp: parse_keys_def hex_keys_def split: prod.splits)

lemma verify_validity_ok:
  "verify_validity L t w c = Inr u \<longleftrightarrow> \<not> c_is_revoked c \<and> is_expired L t w c = Inr False"
  by (auto simp: verify_validity_def res_Inr_iffs)

section \<open>Lemmas: the encrypted form\<close>

definition argon2_law :: "prims \<Rightarrow> bool" where
  \<comment> \<open>\<open>hash_secret_raw\<close> returns as many bytes as asked for\<close>
  "argon2_law P \<longleftrightarrow> (\<forall>pw salt t m p len. length (argon2id_raw P pw salt t m p len) = nat len)"

definition identity_ok :: "prims \<Rightarrow> identity \<Rightarrow> bool" where
  "identity_ok P i \<longleftrightarrow> is_keypair P (keypair i) (i_pub i) \<and>
     validate_role (i_role i) = Inr (i_role i) \<and> i_created_at i \<noteq> []"

definition drop_algorithms :: "keypair \<Rightarrow> keypair" where
  \<comment> \<open>a keypair as \<open>read_keypair\<close> builds it\<close>
  "drop_algorithms kp = map (\<lambda>k. (k, [(''private_key'', projr (private_key kp k)),
     (''public_key'', projr (public_key kp k))])) [''exchange'', ''kem'', ''signing'', ''pqc_sig'']"

lemma subscript_append:
  "subscript (d @ [(k', v)]) k = (if k = k' \<and> map_of d k = None then Inr v else subscript d k)"
  by (auto simp: subscript_def map_add_def split: option.splits)

lemma dget_append:
  "dget (d @ [(k', v)]) k = (if k = k' \<and> map_of d k = None then v else dget d k)"
  by (auto simp: dget_def map_add_def split: option.splits)

lemma has_key_append: "has_key (d @ [(k', v)]) k \<longleftrightarrow> k = k' \<or> has_key d k"
  by (auto simp: has_key_def map_add_def split: option.splits)

lemma metadata_append:
  "identity_associated_data L (p @ [(''encrypted_private'', v)]) = identity_associated_data L p"
proof -
  have ne: "''version'' \<noteq> ''encrypted_private''" "''entity_id'' \<noteq> ''encrypted_private''"
    "''name'' \<noteq> ''encrypted_private''" "''role'' \<noteq> ''encrypted_private''"
    "''created_at'' \<noteq> ''encrypted_private''" "''public_keys'' \<noteq> ''encrypted_private''"
    "''key_version'' \<noteq> ''encrypted_private''" "''keys_rotated_at'' \<noteq> ''encrypted_private''"
    by simp_all
  show ?thesis
    unfolding identity_associated_data_def identity_public_metadata_def subscript_append dget_append
      has_key_append
    by (simp only: ne if_False simp_thms)
qed

lemma is_keypair_explicit:
  assumes "is_keypair P kp pks"
  obtains xsk ksk ssk qsk where "length xsk = 32"
    "kp = [(''exchange'', [(''private_key'', xsk), (''public_key'', x25519_public P xsk)]),
       (''kem'', [(''public_key'', kem_public P ksk), (''private_key'', ksk), (''algorithm'', utf8 (kem_algorithm P))]),
       (''signing'', [(''private_key'', ssk), (''public_key'', ed25519_public P ssk)]),
       (''pqc_sig'', [(''public_key'', mldsa_public P qsk), (''private_key'', qsk), (''algorithm'', utf8 (sig_algorithm P))])]"
    "pks = [(''exchange_pub'', x25519_public P xsk), (''kem_pub'', kem_public P ksk),
       (''signing_pub'', ed25519_public P ssk), (''pqc_sig_pub'', mldsa_public P qsk)]"
  using assms unfolding is_keypair_def
  by (auto simp: generate_defs res_Inr_iffs extract_public_keys_def public_key_def acceptable_keys_def)

lemma read_keypair_explicit:
  "read_keypair (PDict [(''exchange_priv'', PStr (hex x)), (''kem_priv'', PStr (hex k)),
      (''signing_priv'', PStr (hex s)), (''pqc_sig_priv'', PStr (hex q))])
     (PDict [(''exchange_pub'', PStr (hex x')), (''kem_pub'', PStr (hex k')),
      (''signing_pub'', PStr (hex s')), (''pqc_sig_pub'', PStr (hex q'))]) =
   Inr [(''exchange'', [(''private_key'', x), (''public_key'', x')]),
     (''kem'', [(''private_key'', k), (''public_key'', k')]),
     (''signing'', [(''private_key'', s), (''public_key'', s')]),
     (''pqc_sig'', [(''private_key'', q), (''public_key'', q')])]"
  by (simp add: read_keypair_def subscript_hex_def Let_def)

lemma derive_password_key:
  assumes "argon2_law P" and "8 \<le> length salt"
  shows "\<exists>key. length key = KEY_SIZE \<and>
    derive_key_from_password P salt pw None 32 3 65536 4 = Inr (key, salt) \<and>
    derive_key_from_password P [] pw (Some salt) 32 3 65536 4 = Inr (key, salt)"
  using assms by (simp add: derive_key_from_password_def argon2_law_def KEY_SIZE_def)

lemma encrypted_roundtrip:
  assumes "aead_laws P" and "argon2_law P" and "identity_ok P i" and "8 \<le> length salt"
    and "length nonce = NONCE_SIZE"
  shows "\<exists>d. to_encrypted_dict P L salt nonce pw i = Inr d \<and>
    from_encrypted_dict P L now d pw = Inr (i\<lparr>keypair := drop_algorithms (keypair i)\<rparr>)"
proof -
  obtain xsk ksk ssk qsk where k: "keypair i = [(''exchange'', [(''private_key'', xsk), (''public_key'', x25519_public P xsk)]),
       (''kem'', [(''public_key'', kem_public P ksk), (''private_key'', ksk), (''algorithm'', utf8 (kem_algorithm P))]),
       (''signing'', [(''private_key'', ssk), (''public_key'', ed25519_public P ssk)]),
       (''pqc_sig'', [(''public_key'', mldsa_public P qsk), (''private_key'', qsk), (''algorithm'', utf8 (sig_algorithm P))])]"
    "i_pub i = [(''exchange_pub'', x25519_public P xsk), (''kem_pub'', kem_public P ksk),
       (''signing_pub'', ed25519_public P ssk), (''pqc_sig_pub'', mldsa_public P qsk)]"
    using assms(3) unfolding identity_ok_def by (blast elim: is_keypair_explicit)
  let ?priv = "[(''exchange_priv'', PStr (hex xsk)), (''kem_priv'', PStr (hex ksk)),
      (''signing_priv'', PStr (hex ssk)), (''pqc_sig_priv'', PStr (hex qsk))]"
  let ?pub = "[(''exchange_pub'', PStr (hex (x25519_public P xsk))), (''kem_pub'', PStr (hex (kem_public P ksk))),
      (''signing_pub'', PStr (hex (ed25519_public P ssk))), (''pqc_sig_pub'', PStr (hex (mldsa_public P qsk)))]"
  have pd: "private_dict i = Inr ?priv" "public_dict i = Inr ?pub"
    by (simp_all add: private_dict_def public_dict_def private_key_def hex_keys_def k)
  have da: "drop_algorithms (keypair i) =
     [(''exchange'', [(''private_key'', xsk), (''public_key'', x25519_public P xsk)]),
     (''kem'', [(''private_key'', ksk), (''public_key'', kem_public P ksk)]),
     (''signing'', [(''private_key'', ssk), (''public_key'', ed25519_public P ssk)]),
     (''pqc_sig'', [(''private_key'', qsk), (''public_key'', mldsa_public P qsk)])]"
    by (simp add: drop_algorithms_def private_key_def public_key_def k)
  have ex: "extract_public_keys (drop_algorithms (keypair i)) = Inr (i_pub i)"
    unfolding da k(2) by (simp add: extract_public_keys_def public_key_def)
  obtain key where key: "length key = KEY_SIZE"
    "derive_key_from_password P salt pw None 32 3 65536 4 = Inr (key, salt)"
    "derive_key_from_password P [] pw (Some salt) 32 3 65536 4 = Inr (key, salt)"
    using derive_password_key [OF assms(2,4)] by blast
  define p where "p = [(''version'', PStr ''UXSP-IDENTITY-1''), (''entity_id'', PStr (entity_id i)),
           (''name'', PStr (i_name i)), (''role'', PStr (i_role i)),
           (''created_at'', PStr (i_created_at i)), (''key_version'', PInt (i_key_version i)),
           (''keys_rotated_at'', case keys_rotated_at i of None \<Rightarrow> PNone | Some t \<Rightarrow> PStr t),
           (''public_keys'', PDict ?pub)]"
  obtain ad where ad: "identity_associated_data L p = Inr ad"
    by (simp add: p_def identity_associated_data_def identity_public_metadata_def)
  let ?m = "utf8 (dumps (float_repr L) False (PDict ?priv))"
  let ?ct = "aesgcm_encrypt P key nonce ?m (Some ad)"
  define enc where "enc = [(''ciphertext'', PStr (hex ?ct)), (''nonce'', PStr (hex nonce)),
           (''kdf_salt'', PStr (hex salt)), (''associated_data'', PStr ''public-metadata-v1'')]"
  let ?d = "p @ [(''encrypted_private'', PDict enc)]"
  have e: "to_encrypted_dict P L salt nonce pw i = Inr ?d"
    using key(1,2) pd ad by (simp add: to_encrypted_dict_def p_def [symmetric] Let_def enc_def)
  have dec: "sym_decrypt P ?ct nonce key (Some ad) = Inr ?m"
    using assms(1,5) key(1) by (simp add: sym_decrypt_def aead_lawsD)
  have ld: "loads_bytes ?m = Inr (PDict ?priv)" by (rule loads_bytes_dumps) simp
  have f: "dget ?d ''version'' = PStr ''UXSP-IDENTITY-1''" "dget ?d ''encrypted_private'' = PDict enc"
    "subscript ?d ''public_keys'' = Inr (PDict ?pub)" "subscript ?d ''entity_id'' = Inr (PStr (entity_id i))"
    "subscript ?d ''name'' = Inr (PStr (i_name i))" "subscript ?d ''role'' = Inr (PStr (i_role i))"
    "subscript ?d ''created_at'' = Inr (PStr (i_created_at i))"
    "dget_default ?d ''key_version'' (PInt 1) = PInt (i_key_version i)"
    "dget ?d ''keys_rotated_at'' = (case keys_rotated_at i of None \<Rightarrow> PNone | Some t \<Rightarrow> PStr t)"
    by (simp_all add: p_def dget_def dget_default_def has_key_def)
  have g: "subscript enc ''kdf_salt'' = Inr (PStr (hex salt))" "dget enc ''associated_data'' = PStr ''public-metadata-v1''"
    "subscript enc ''ciphertext'' = Inr (PStr (hex ?ct))" "subscript enc ''nonce'' = Inr (PStr (hex nonce))"
    by (simp_all add: enc_def dget_def)
  have rot: "opt_str (case keys_rotated_at i of None \<Rightarrow> PNone | Some t \<Rightarrow> PStr t) = Inr (keys_rotated_at i)"
    by (cases "keys_rotated_at i") simp_all
  have new: "identity_new L now (entity_id i) (i_name i) (i_role i) (drop_algorithms (keypair i))
      (Some (i_created_at i)) (i_key_version i) (keys_rotated_at i) =
      Inr (i\<lparr>keypair := drop_algorithms (keypair i)\<rparr>)"
    using assms(3) ex by (simp add: identity_new_def identity_ok_def)
  have "from_encrypted_dict P L now ?d pw = Inr (i\<lparr>keypair := drop_algorithms (keypair i)\<rparr>)"
    using new unfolding da
    by (simp add: from_encrypted_dict_def f g key(3) metadata_append ad dec ld rot read_keypair_explicit
        del: dumps.simps)
  with e show ?thesis by blast
qed

lemma open_from_Inr:
  assumes "open_from P L mk sn og t1 t2 t3 t4 t5 t6 d pc i s = (Inr m, s')"
  obtains g c s1 where "og = Some g" "\<not> c_is_revoked pc" "is_expired L t1 None pc = Inr False"
    "dget d ''recipient_id'' = PStr (entity_id i)" "dget d ''sender_id'' = PStr (c_entity_id pc)"
    "precheck sn g t2 t3 d s = (Inr (), s1)"
    "verify_envelope P t4 d (c_public_keys pc) (Some (entity_id i)) (Some (c_entity_id pc))
      (g_window g) (g_clock_skew g) False = Inr c"
    "commit mk g t5 t6 d s1 = (Inr (), s')" "decrypt_verified_envelope P c (keypair i) [] = Inr m"
  using assms
  by (auto simp: open_from_def guard_def verify_validity_ok split: sum.splits option.splits prod.splits if_splits)

section \<open>A concrete identity\<close>

definition demo_identity :: identity where
  "demo_identity = \<lparr>entity_id = ''alice'', i_name = ''Alice'', i_role = ''USER'',
     keypair = demo_keypair 1, i_created_at = ''0'', i_key_version = 1, keys_rotated_at = None,
     i_pub = demo_pubkeys 1\<rparr>"

definition demo_recipient :: identity where
  "demo_recipient = demo_identity\<lparr>entity_id := ''bob'', keypair := demo_keypair 2, i_pub := demo_pubkeys 2\<rparr>"

definition demo_card :: public_card where
  "demo_card = \<lparr>c_entity_id = ''alice'', c_name = ''Alice'', c_role = ''USER'',
     c_public_keys = demo_pubkeys 1, c_created_at = ''0'', c_valid_until = Some ''2000'',
     c_is_revoked = False, c_revocation_reason = None, c_revoked_at = None, c_key_version = 1\<rparr>"

lemma demo_identity_ok: "identity_ok demo_prims demo_identity"
proof -
  have "validate_role ''USER'' = Inr ''USER''" by code_simp
  then show ?thesis by (simp add: identity_ok_def demo_identity_def demo_is_keypair)
qed

lemma demo_argon2: "argon2_law demo_prims"
  by (simp add: argon2_law_def demo_prims_def)

section \<open>Properties\<close>

text \<open>\<open>from_encrypted_dict\<close> inverts \<open>to_encrypted_dict\<close> under the same password, except that the
  algorithm names of the two post-quantum key entries are lost; so the loaded identity has
  every attribute and key of the saved one, but the class's own \<open>==\<close> says they differ.\<close>

theorem identity_encrypted_roundtrip:
  assumes "aead_laws P" and "argon2_law P" and "identity_ok P i" and "8 \<le> length salt"
    and "length nonce = 12"
  shows "\<exists>d. to_encrypted_dict P L salt nonce pw i = Inr d \<and>
    from_encrypted_dict P L now d pw = Inr (i\<lparr>keypair := drop_algorithms (keypair i)\<rparr>) \<and>
    \<not> identity_eq (i\<lparr>keypair := drop_algorithms (keypair i)\<rparr>) i"
proof -
  have "is_keypair P (keypair i) (i_pub i)" using assms(3) by (simp add: identity_ok_def)
  then obtain xsk ksk ssk qsk where "keypair i =
      [(''exchange'', [(''private_key'', xsk), (''public_key'', x25519_public P xsk)]),
       (''kem'', [(''public_key'', kem_public P ksk), (''private_key'', ksk), (''algorithm'', utf8 (kem_algorithm P))]),
       (''signing'', [(''private_key'', ssk), (''public_key'', ed25519_public P ssk)]),
       (''pqc_sig'', [(''public_key'', mldsa_public P qsk), (''private_key'', qsk), (''algorithm'', utf8 (sig_algorithm P))])]"
    by (rule is_keypair_explicit)
  then have "\<not> identity_eq (i\<lparr>keypair := drop_algorithms (keypair i)\<rparr>) i"
    by (simp add: identity_eq_def keypair_eq_def dict_eq_def drop_algorithms_def private_key_def
        public_key_def)
  with encrypted_roundtrip [OF assms(1-4), of nonce L pw now] assms(5) show ?thesis
    by (auto simp: NONCE_SIZE_def)
qed

theorem identity_encrypted_roundtrip_witness:
  "\<exists>d i. to_encrypted_dict demo_prims demo_lib (replicate 16 3) (replicate 12 4) ''pw'' demo_identity = Inr d \<and>
     from_encrypted_dict demo_prims demo_lib 9 d ''pw'' = Inr i \<and> entity_id i = ''alice''"
  using identity_encrypted_roundtrip [OF demo_aead demo_argon2 demo_identity_ok,
      of "replicate 16 3" "replicate 12 4" demo_lib "''pw''" 9]
  by (auto simp: demo_identity_def)

text \<open>\<open>PublicCard.from_dict\<close> inverts \<open>to_dict\<close> for every card the constructor makes, with its
  keys, expiry and revocation.\<close>

theorem card_roundtrip:
  assumes "card_new eid name role pks t v rv re ra ver = Inr c"
  shows "card_from_dict (card_to_dict c) = Inr c"
proof -
  have r: "validate_role (c_role c) = Inr (c_role c)" by (rule card_new_Inr [OF assms])
  have o: "opt_str (dget (card_to_dict c) ''valid_until'') = Inr (c_valid_until c)"
    "opt_str (dget (card_to_dict c) ''revocation_reason'') = Inr (c_revocation_reason c)"
    "opt_str (dget (card_to_dict c) ''revoked_at'') = Inr (c_revoked_at c)"
    by (cases "c_valid_until c"; cases "c_revocation_reason c"; cases "c_revoked_at c";
        simp add: card_to_dict_def opt_entry_def dget_def)+
  have f: "dget (card_to_dict c) ''version'' = PStr ''UXSP-PUBCARD-1''"
    "subscript (card_to_dict c) ''entity_id'' = Inr (PStr (c_entity_id c))"
    "subscript (card_to_dict c) ''name'' = Inr (PStr (c_name c))"
    "subscript (card_to_dict c) ''role'' = Inr (PStr (c_role c))"
    "subscript (card_to_dict c) ''created_at'' = Inr (PStr (c_created_at c))"
    "subscript (card_to_dict c) ''public_keys'' = Inr (PDict (hex_keys (c_public_keys c)))"
    "dget_default (card_to_dict c) ''key_version'' x = PInt (c_key_version c)"
    "dget_default (card_to_dict c) ''is_revoked'' y = PBool (c_is_revoked c)" for x y
    by (simp_all add: card_to_dict_def dget_default_def has_key_def dget_def subscript_def)
  show ?thesis
    by (simp add: card_from_dict_def f o parse_hex_keys card_new_def r py_truthy_def)
qed

theorem card_roundtrip_witness:
  "\<exists>c. card_new ''alice'' ''Alice'' '' user '' (demo_pubkeys 1) ''0'' (Some ''99'') False None None 2 = Inr c \<and>
     c_role c = ''USER'' \<and> card_from_dict (card_to_dict c) = Inr c"
proof -
  have r: "validate_role '' user '' = Inr ''USER''" by code_simp
  then obtain c where c: "card_new ''alice'' ''Alice'' '' user '' (demo_pubkeys 1) ''0'' (Some ''99'') False
      None None 2 = Inr c" "c_role c = ''USER''"
    by (simp add: card_new_def)
  with card_roundtrip [OF c(1)] show ?thesis by blast
qed

text \<open>\<open>open_from\<close> yields a plaintext only with a replay guard, from a card that is neither
  revoked nor expired, for an envelope addressed to this identity and signed as a whole under
  the card's keys; and then the guard has committed its nonce, so the same envelope is not
  opened again while the nonce is remembered.\<close>

theorem open_from_sound:
  assumes "mem_inv s"
    and "open_from P L mem_mark_used mem_is_seen og t1 t2 t3 t4 t5 t6 d pc i s = (Inr m, s')"
  shows "\<exists>g c. og = Some g \<and> \<not> c_is_revoked pc \<and> is_expired L t1 None pc = Inr False \<and>
    dget d ''recipient_id'' = PStr (entity_id i) \<and>
    verify_envelope P t4 d (c_public_keys pc) (Some (entity_id i)) (Some (c_entity_id pc))
      (g_window g) (g_clock_skew g) False = Inr c \<and>
    decrypt_verified_envelope P c (keypair i) [] = Inr m \<and>
    (\<forall>xs u1 u2 u3 u4 u5 u6 og' pc' i'.
      (\<forall>x \<in> set xs. op_time x < t6 + of_int (g_window g + g_clock_skew g)) \<longrightarrow>
      u3 < t6 + of_int (g_window g + g_clock_skew g) \<longrightarrow>
      u6 < t6 + of_int (g_window g + g_clock_skew g) \<longrightarrow>
      \<not> is_ok (fst (open_from P L mem_mark_used mem_is_seen og' u1 u2 u3 u4 u5 u6 d pc' i'
        (run_ops mem_mark_used mem_is_seen mem_cleanup xs s'))))"
proof -
  from assms(2) obtain g c s1 where o: "og = Some g" "\<not> c_is_revoked pc" "is_expired L t1 None pc = Inr False"
    "dget d ''recipient_id'' = PStr (entity_id i)" "precheck mem_is_seen g t2 t3 d s = (Inr (), s1)"
    "verify_envelope P t4 d (c_public_keys pc) (Some (entity_id i)) (Some (c_entity_id pc))
      (g_window g) (g_clock_skew g) False = Inr c"
    "commit mem_mark_used g t5 t6 d s1 = (Inr (), s')" "decrypt_verified_envelope P c (keypair i) [] = Inr m"
    by (rule open_from_Inr)
  obtain d' where n: "normalise d = Inr d'" using o(7) by (rule commit_Inr)
  have s1: "mem_inv s1"
    using o(5) assms(1) mem_seen_inv [OF assms(1), of t3 "norm_nonce d'"]
    by (auto simp: precheck_def unseen_def split: sum.splits prod.splits)
      (metis fresh_dict_Inr mem.inv_seen snd_conv)+
  have "\<not> is_ok (fst (open_from P L mem_mark_used mem_is_seen og' u1 u2 u3 u4 u5 u6 d pc' i'
        (run_ops mem_mark_used mem_is_seen mem_cleanup xs s')))"
    if xs: "\<forall>x \<in> set xs. op_time x < t6 + of_int (g_window g + g_clock_skew g)"
      and u: "u3 < t6 + of_int (g_window g + g_clock_skew g)"
        "u6 < t6 + of_int (g_window g + g_clock_skew g)"
    for xs u1 u2 u3 u4 u5 u6 og' pc' i'
  proof
    let ?s = "run_ops mem_mark_used mem_is_seen mem_cleanup xs s'"
    assume "is_ok (fst (open_from P L mem_mark_used mem_is_seen og' u1 u2 u3 u4 u5 u6 d pc' i' ?s))"
    then obtain m' s'' where op: "open_from P L mem_mark_used mem_is_seen og' u1 u2 u3 u4 u5 u6 d pc' i' ?s
        = (Inr m', s'')"
      by (cases "open_from P L mem_mark_used mem_is_seen og' u1 u2 u3 u4 u5 u6 d pc' i' ?s")
        (auto simp: is_ok_iff)
    then obtain g' s2 where g': "precheck mem_is_seen g' u2 u3 d ?s = (Inr (), s2)"
      "commit mem_mark_used g' u5 u6 d s2 = (Inr (), s'')"
      by (rule open_from_Inr)
    have "s2 = run_ops mem_mark_used mem_is_seen mem_cleanup (xs @ [IsSeen u3 (norm_nonce d')]) s'"
      using g'(1) n by (auto simp: precheck_def unseen_def run_ops_def fresh_dict_def
          split: sum.splits prod.splits dest: rbind_Inr_iff [THEN iffD1])
    moreover have "\<forall>x \<in> set (xs @ [IsSeen u3 (norm_nonce d')]).
        op_time x < t6 + of_int (g_window g + g_clock_skew g)" using xs u by auto
    ultimately have "\<not> is_ok (fst (commit mem_mark_used g' u5 u6 d s2))"
      using mem.commit_twice [OF s1 o(7) n n refl] u(2) by blast
    with g'(2) show False by simp
  qed
  with o show ?thesis by blast
qed

theorem open_from_sound_witness:
  "\<exists>s'. open_from demo_prims demo_lib mem_mark_used mem_is_seen (Some demo_guard) 1010 1010 1010 1010 1010
       1010 demo_envelope demo_card demo_recipient mem_init = (Inr [42], s') \<and>
    \<not> is_ok (fst (open_from demo_prims demo_lib mem_mark_used mem_is_seen (Some demo_guard) 1011 1011 1011 1011
       1011 1011 demo_envelope demo_card demo_recipient s'))"
proof -
  have "r_env demo_random \<noteq> []" by (simp add: demo_random_def)
  note n = normalise_sealed [OF demo_envelope_ok this]
  obtain c where c: "verify_envelope demo_prims 1010 demo_envelope (demo_pubkeys 1) (Some ''bob'')
      (Some ''alice'') 300 30 False = Inr c" "decrypt_verified_envelope demo_prims c (demo_keypair 2) [] = Inr [42]"
    using verify_seal [OF demo_laws(1) demo_laws(3) demo_laws(2) demo_laws(4) demo_is_keypair
        demo_is_keypair _ _ _ demo_envelope_ok, of 1010 300 30]
    by (auto simp: demo_random_def trunc_def)
  have "fromisoformat demo_lib ''2000'' = Some 2000"
  proof -
    have "int_of_str ''2000'' = Some 2000" by code_simp
    then show ?thesis by (simp add: demo_lib_def)
  qed
  then have v: "verify_validity demo_lib 1010 None demo_card = Inr ()"
    by (simp add: verify_validity_def is_expired_def demo_card_def)
  have f: "fresh_dict demo_guard 1010 demo_envelope = Inr demo_envelope"
    using n by (simp add: fresh_dict_def check_freshness_normalised_def demo_guard_def demo_random_def trunc_def)
  let ?s = "\<lparr>mstore = [(hex [8], 1340)], calls_since_cleanup = 1\<rparr>"
  have p: "precheck mem_is_seen demo_guard 1010 1010 demo_envelope mem_init = (Inr (), mem_init)"
    by (simp add: precheck_def f unseen_def mem_is_seen_def mem_init_def)
  have cm: "commit mem_mark_used demo_guard 1010 1010 demo_envelope mem_init = (Inr (), ?s)"
    using n unfolding commit_def f
    by (simp add: first_use_def mem_mark_used_def mem_init_def demo_guard_def demo_random_def
        MAX_NONCE_STORE_SIZE_def)
  have "open_from demo_prims demo_lib mem_mark_used mem_is_seen (Some demo_guard) 1010 1010 1010 1010 1010
       1010 demo_envelope demo_card demo_recipient mem_init = (Inr [42], ?s)"
    using n c v p cm
    by (simp add: open_from_def demo_card_def demo_recipient_def demo_guard_def)
  moreover from open_from_sound [OF mem_inv_init this]
  have "\<not> is_ok (fst (open_from demo_prims demo_lib mem_mark_used mem_is_seen (Some demo_guard) 1011 1011
      1011 1011 1011 1011 demo_envelope demo_card demo_recipient
      (run_ops mem_mark_used mem_is_seen mem_cleanup [] ?s)))"
    by (fastforce simp: demo_guard_def)
  ultimately show ?thesis by (auto simp: run_ops_def)
qed

end
