(* ===== verification/Handshake.thy ===== *)
theory Handshake
  imports Identity SessionGuarantees
begin

text \<open>
  \<open>uxsp/core/handshake.py\<close>: the two-message handshake that sets up a session. HELLO and
  ACK are dictionaries from the network, so every field access, conversion and type error
  of the code is a branch of the verifiers. The nonce store is any implementation of
  \<open>nonce_store\<close>. Lemmas: an honest run gives both sides sessions with matching keys, an
  accepted HELLO was signed by the initiator for this responder, and it is accepted once.
\<close>

definition SUPPORTED_VERSIONS :: "string list" where
  "SUPPORTED_VERSIONS = [''1'']"

section \<open>Session ids\<close>

text \<open>The texts that \<open>uuid.UUID(s)\<close> accepts: 32 characters that \<open>int(_, 16)\<close> reads, after
  the prefixes, braces and hyphens are taken out.\<close>

function remove_sub :: "string \<Rightarrow> string \<Rightarrow> string" where
  "remove_sub p [] = []"
| "remove_sub p (c # cs) =
     (if p \<noteq> [] \<and> take (length p) (c # cs) = p then remove_sub p (drop (length p - 1) cs)
      else c # remove_sub p cs)"
  by pat_completeness auto
termination by (relation "measure (\<lambda>(p, s). length s)") auto

fun hex_run :: "bool \<Rightarrow> string \<Rightarrow> bool" where
  "hex_run d [] = d"
| "hex_run d (c # cs) =
     (if hexval c \<noteq> None then hex_run True cs else c = CHR ''_'' \<and> d \<and> hex_run False cs)"

definition int16_ok :: "string \<Rightarrow> bool" where
  "int16_ok s =
     (let t = strip s;
          u = (case t of c # cs \<Rightarrow> if c = CHR ''+'' \<or> c = CHR ''-'' then cs else t | [] \<Rightarrow> t)
      in case u of
           c # d # ds \<Rightarrow>
             if c = CHR ''0'' \<and> (d = CHR ''x'' \<or> d = CHR ''X'')
             then hex_run False (case ds of e # es \<Rightarrow> if e = CHR ''_'' then es else ds | [] \<Rightarrow> ds)
             else hex_run False u
         | _ \<Rightarrow> hex_run False u)"

definition strip_braces :: "string \<Rightarrow> string" where
  "strip_braces s = (let d = dropWhile (\<lambda>c. c = CHR ''{'' \<or> c = CHR ''}'') in rev (d (rev (d s))))"

definition uuid_ok :: "string \<Rightarrow> bool" where
  "uuid_ok s =
     (let h = filter (\<lambda>c. c \<noteq> CHR ''-'') (strip_braces (remove_sub ''uuid:'' (remove_sub ''urn:'' s)))
      in length h = 32 \<and> int16_ok h)"

section \<open>HELLO\<close>

record hs_random =
  h_eph :: bytes
  h_kem :: bytes
  h_sig :: bytes

type_synonym exchange = "bytes \<times> bytes \<times> bytes"  \<comment> \<open>shared key, ephemeral key, KEM ciphertext\<close>

fun join_comma :: "string list \<Rightarrow> string" where
  "join_comma [] = []"
| "join_comma (x # xs) = x @ (if xs = [] then [] else CHR '','' # join_comma xs)"

definition hello_fields :: "string \<Rightarrow> string \<Rightarrow> string \<Rightarrow> string \<Rightarrow> bytes \<Rightarrow> bytes \<Rightarrow> string \<Rightarrow> bytes list" where
  "hello_fields versions sid init resp epub kct ts =
     [utf8 ''UXSP-HELLO'', utf8 versions, utf8 sid, utf8 init, utf8 resp, epub, kct, utf8 ts]"

definition make_hello :: "prims \<Rightarrow> hs_random \<Rightarrow> time \<Rightarrow> identity \<Rightarrow> public_card \<Rightarrow> string \<Rightarrow>
    (dict \<times> exchange) res" where
  "make_hello P R now initiator rcard sid =
     (let ts = trunc now in
      rbind (hybrid_sender_exchange P (h_eph R) (h_kem R) (c_public_keys rcard)) (\<lambda>(key, epub, kct).
      rbind (bind_fields (hello_fields (join_comma SUPPORTED_VERSIONS) sid (entity_id initiator)
          (c_entity_id rcard) epub kct (str_int ts))) (\<lambda>signable.
      rbind (hybrid_sign P (h_sig R) signable (keypair initiator)) (\<lambda>sigs.
      Inr ([(''type'', PStr ''UXSP-HELLO''),
            (''supported_versions'', PList (map PStr SUPPORTED_VERSIONS)),
            (''session_id'', PStr sid), (''initiator_id'', PStr (entity_id initiator)),
            (''responder_id'', PStr (c_entity_id rcard)), (''timestamp'', PInt ts),
            (''ephemeral_pub'', PStr (hex epub)), (''kem_ciphertext'', PStr (hex kct)),
            (''classical_sig'', dget sigs ''classical_sig''), (''pqc_sig'', dget sigs ''pqc_sig'')],
           (key, epub, kct))))))"

definition HELLO_REQUIRED :: "string list" where
  "HELLO_REQUIRED = [''type'', ''supported_versions'', ''session_id'', ''initiator_id'', ''responder_id'',
     ''timestamp'', ''ephemeral_pub'', ''kem_ciphertext'', ''classical_sig'', ''pqc_sig'']"

definition check_age :: "time \<Rightarrow> dict \<Rightarrow> int \<Rightarrow> unit res" where
  \<comment> \<open>the freshness test of both messages\<close>
  "check_age now msg max_age =
     rbind (rescue is_ValueTypeError HandshakeAuthError (py_int (dget msg ''timestamp''))) (\<lambda>ts.
       let age = trunc now - ts in
       guard (\<not> (age < - max_age \<or> age > max_age)) HandshakeExpiredError (Inr ()))"

fun is_unhashable :: "pyval \<Rightarrow> bool" where
  "is_unhashable (PList vs) = True"
| "is_unhashable (PDict d) = True"
| "is_unhashable _ = False"

definition negotiate :: "pyval \<Rightarrow> (pyval list \<times> string) res" where
  \<comment> \<open>the offered list and the common version; the intersection hashes every element\<close>
  "negotiate v = (case v of
     PList vs \<Rightarrow>
       guard (vs \<noteq> []) HandshakeAuthError
        (guard (\<not> list_ex is_unhashable vs) TypeError
          (case filter (\<lambda>s. PStr s \<in> set vs) SUPPORTED_VERSIONS of
             [] \<Rightarrow> Inl HandshakeAuthError
           | s # _ \<Rightarrow> Inr (vs, s)))
   | _ \<Rightarrow> Inl HandshakeAuthError)"

definition message_sigs :: "dict \<Rightarrow> dict" where
  "message_sigs msg =
     [(''classical_sig'', dget msg ''classical_sig''), (''pqc_sig'', dget msg ''pqc_sig'')]"

definition check_signature :: "prims \<Rightarrow> bytes \<Rightarrow> dict \<Rightarrow> pubkeys \<Rightarrow> unit res" where
  "check_signature P signable msg pks =
     rbind (rescue (\<lambda>e. e = HybridEnvelopeValidationError) HandshakeAuthError
       (hybrid_verify P signable (message_sigs msg) pks False)) (\<lambda>ok.
     guard ok HandshakeAuthError (Inr ()))"

definition is_field_error :: "exn \<Rightarrow> bool" where
  \<comment> \<open>\<open>except (ValueError, TypeError, AttributeError)\<close>\<close>
  "is_field_error e \<longleftrightarrow> is_ValueTypeError e \<or> e = AttributeError"

definition verify_hello_signature :: "prims \<Rightarrow> pylib \<Rightarrow> time \<Rightarrow> dict \<Rightarrow> public_card \<Rightarrow> identity \<Rightarrow> int \<Rightarrow>
    (bytes \<times> string) res" where
  "verify_hello_signature P L now hello icard responder max_age =
     guard (\<forall>f \<in> set HELLO_REQUIRED. has_key hello f) HandshakeAuthError
      (guard (dget hello ''type'' = PStr ''UXSP-HELLO'') HandshakeAuthError
       (rbind (check_age now hello max_age) (\<lambda>_.
        guard (dget hello ''initiator_id'' = PStr (c_entity_id icard)) HandshakeAuthError
        (guard (dget hello ''responder_id'' = PStr (entity_id responder)) HandshakeAuthError
         (rbind (negotiate (dget hello ''supported_versions'')) (\<lambda>(offered, version).
          rbind (rescue is_field_error HandshakeAuthError
            (rbind (res_map the_str offered) (\<lambda>vs.
             rbind (py_fromhex (dget hello ''ephemeral_pub'')) (\<lambda>epub.
             rbind (py_fromhex (dget hello ''kem_ciphertext'')) (\<lambda>kct.
             bind_fields (hello_fields (join_comma vs) (py_str L (dget hello ''session_id''))
               (py_str L (dget hello ''initiator_id'')) (py_str L (dget hello ''responder_id''))
               epub kct (py_str L (dget hello ''timestamp''))))))))  (\<lambda>signable.
          rbind (check_signature P signable hello (c_public_keys icard)) (\<lambda>_.
          Inr (signable, version)))))))))"

definition derive_hello_secret :: "prims \<Rightarrow> dict \<Rightarrow> identity \<Rightarrow> bytes res" where
  "derive_hello_secret P hello responder =
     rbind (py_fromhex (dget hello ''ephemeral_pub'')) (\<lambda>epub.
     rbind (py_fromhex (dget hello ''kem_ciphertext'')) (\<lambda>kct.
     hybrid_recipient_exchange P epub kct (keypair responder) False))"

section \<open>ACK\<close>

definition proof_of :: "prims \<Rightarrow> bytes \<Rightarrow> string \<Rightarrow> string" where
  "proof_of P secretA sid = hex (hmac_sha256 P secretA (utf8 (sid @ '':responder-proof'')))"

definition ack_fields :: "string \<Rightarrow> string \<Rightarrow> string \<Rightarrow> string \<Rightarrow> string \<Rightarrow> bytes \<Rightarrow> bytes \<Rightarrow> string \<Rightarrow> bytes list" where
  "ack_fields version sid resp init prf epub kct ts =
     [utf8 ''UXSP-ACK'', utf8 version, utf8 sid, utf8 resp, utf8 init, utf8 prf, epub, kct, utf8 ts]"

definition make_ack :: "prims \<Rightarrow> hs_random \<Rightarrow> time \<Rightarrow> identity \<Rightarrow> pyval \<Rightarrow> string \<Rightarrow> bytes \<Rightarrow> public_card \<Rightarrow>
    string \<Rightarrow> (dict \<times> exchange) res" where
  \<comment> \<open>the session id is still the value of the HELLO, of any type\<close>
  "make_ack P R now responder sidv initiator_id secretA icard version =
     (let ts = trunc now in
      rbind (hybrid_sender_exchange P (h_eph R) (h_kem R) (c_public_keys icard)) (\<lambda>(key, epub, kct).
      rbind (the_str sidv) (\<lambda>sid.
      let prf = proof_of P secretA sid in
      rbind (bind_fields (ack_fields version sid (entity_id responder) initiator_id prf epub kct
          (str_int ts))) (\<lambda>signable.
      rbind (hybrid_sign P (h_sig R) signable (keypair responder)) (\<lambda>sigs.
      Inr ([(''type'', PStr ''UXSP-ACK''), (''version'', PStr version), (''session_id'', PStr sid),
            (''responder_id'', PStr (entity_id responder)), (''initiator_id'', PStr initiator_id),
            (''timestamp'', PInt ts), (''proof'', PStr prf), (''ephemeral_pub'', PStr (hex epub)),
            (''kem_ciphertext'', PStr (hex kct)), (''classical_sig'', dget sigs ''classical_sig''),
            (''pqc_sig'', dget sigs ''pqc_sig'')], (key, epub, kct)))))))"

definition ACK_REQUIRED :: "string list" where
  "ACK_REQUIRED = [''type'', ''version'', ''session_id'', ''responder_id'', ''initiator_id'', ''timestamp'',
     ''proof'', ''ephemeral_pub'', ''kem_ciphertext'', ''classical_sig'', ''pqc_sig'']"

definition verify_ack_signature :: "prims \<Rightarrow> pylib \<Rightarrow> time \<Rightarrow> dict \<Rightarrow> public_card \<Rightarrow> int \<Rightarrow> bytes res" where
  "verify_ack_signature P L now ack rcard max_age =
     guard (\<forall>f \<in> set ACK_REQUIRED. has_key ack f) HandshakeAuthError
      (guard (dget ack ''type'' = PStr ''UXSP-ACK'') HandshakeAuthError
       (rbind (check_age now ack max_age) (\<lambda>_.
        guard (\<exists>v \<in> set SUPPORTED_VERSIONS. dget ack ''version'' = PStr v) HandshakeAuthError
         (rbind (rescue is_field_error HandshakeAuthError
            (rbind (py_fromhex (dget ack ''ephemeral_pub'')) (\<lambda>epub.
             rbind (py_fromhex (dget ack ''kem_ciphertext'')) (\<lambda>kct.
             bind_fields (ack_fields (py_str L (dget ack ''version'')) (py_str L (dget ack ''session_id''))
               (py_str L (dget ack ''responder_id'')) (py_str L (dget ack ''initiator_id''))
               (py_str L (dget ack ''proof'')) epub kct (py_str L (dget ack ''timestamp''))))))) (\<lambda>signable.
          rbind (check_signature P signable ack (c_public_keys rcard)) (\<lambda>_. Inr signable))))))"

definition compare_digest :: "pyval \<Rightarrow> string \<Rightarrow> bool res" where
  \<comment> \<open>\<open>hmac.compare_digest(v, s)\<close> for an ASCII string \<open>s\<close>\<close>
  "compare_digest v s = (case v of
     PStr p \<Rightarrow> guard (\<forall>c \<in> set p. of_char c < (128 :: nat)) TypeError (Inr (p = s))
   | _ \<Rightarrow> Inl TypeError)"

definition derive_ack_secret :: "prims \<Rightarrow> dict \<Rightarrow> bytes \<Rightarrow> identity \<Rightarrow> bytes res" where
  "derive_ack_secret P ack secretA initiator =
     rbind (the_str (dget ack ''session_id'')) (\<lambda>sid.
     rbind (compare_digest (dget ack ''proof'') (proof_of P secretA sid)) (\<lambda>ok.
     guard ok HandshakeProofError
      (rbind (py_fromhex (dget ack ''ephemeral_pub'')) (\<lambda>epub.
       rbind (py_fromhex (dget ack ''kem_ciphertext'')) (\<lambda>kct.
       hybrid_recipient_exchange P epub kct (keypair initiator) False)))))"

section \<open>The handshake object\<close>

record handshake =
  hs_hello :: "dict option"
  hs_ack :: "dict option"
  hs_session :: "session option"
  hs_exchange :: "exchange option"
  hs_session_id :: "string option"
  hs_config :: "session_config option"
  hs_initiator :: "identity option"
  hs_resp_card :: "public_card option"

definition handshake_init :: handshake where
  "handshake_init = \<lparr>hs_hello = None, hs_ack = None, hs_session = None, hs_exchange = None,
     hs_session_id = None, hs_config = None, hs_initiator = None, hs_resp_card = None\<rparr>"

definition config_or :: "session_config option \<Rightarrow> session_config" where
  "config_or c = (case c of None \<Rightarrow> default_config | Some x \<Rightarrow> x)"

definition final_info :: "string \<Rightarrow> string \<Rightarrow> string \<Rightarrow> bytes" where
  "final_info sid init resp =
     utf8 ''UXSP-final-session-key:'' @ utf8 sid @ utf8 '':'' @ utf8 init @ utf8 '':'' @ utf8 resp"

definition initiate :: "prims \<Rightarrow> hs_random \<Rightarrow> time \<Rightarrow> string \<Rightarrow> identity \<Rightarrow> public_card \<Rightarrow>
    session_config option \<Rightarrow> handshake res" where
  \<comment> \<open>the fresh UUID is an argument\<close>
  "initiate P R now uuid initiator rcard config =
     rbind (make_hello P R now initiator rcard uuid) (\<lambda>(hello, exchange).
     Inr (handshake_init\<lparr>hs_session_id := Some uuid, hs_config := Some (config_or config),
       hs_initiator := Some initiator, hs_resp_card := Some rcard, hs_hello := Some hello,
       hs_exchange := Some exchange\<rparr>))"

text \<open>Clock readings: of the HELLO check, of \<open>mark_used\<close>, of \<open>_make_ack\<close>, of the session.\<close>

definition hello_tag :: "pylib \<Rightarrow> dict \<Rightarrow> string" where
  "hello_tag L hello = ''hello:'' @ py_str L (dget hello ''session_id'')"

definition finish_respond :: "prims \<Rightarrow> hs_random \<Rightarrow> time \<Rightarrow> time \<Rightarrow> identity \<Rightarrow> dict \<Rightarrow> public_card \<Rightarrow>
    session_config \<Rightarrow> string \<Rightarrow> string \<Rightarrow> handshake res" where
  \<comment> \<open>what follows after the nonce is marked\<close>
  "finish_respond P R t3 t4 responder hello icard config sid_text version =
     rbind (derive_hello_secret P hello responder) (\<lambda>secretA.
     rbind (make_ack P R t3 responder (dget hello ''session_id'') (c_entity_id icard) secretA icard version)
      (\<lambda>(ack, (secretB, epub, kct)).
     rbind (the_str (dget hello ''session_id'')) (\<lambda>sid.
     rbind (derive_key P (secretA @ secretB) 32 None
        (final_info sid (c_entity_id icard) (entity_id responder))) (\<lambda>final.
     rbind (session_new P t4 sid (entity_id responder) (c_entity_id icard) final False (Some config)) (\<lambda>s0.
     case activate s0 of
       (Inl e, _) \<Rightarrow> Inl e
     | (Inr _, s1) \<Rightarrow> Inr (handshake_init\<lparr>hs_config := Some config, hs_session_id := Some sid_text,
           hs_ack := Some ack, hs_session := Some s1\<rparr>))))))"

definition respond :: "prims \<Rightarrow> pylib \<Rightarrow> 's marker \<Rightarrow> hs_random \<Rightarrow> time \<Rightarrow> time \<Rightarrow> time \<Rightarrow> time \<Rightarrow> identity \<Rightarrow>
    dict \<Rightarrow> public_card \<Rightarrow> session_config option \<Rightarrow> 's \<Rightarrow> handshake res \<times> 's" where
  "respond P L mk R t1 t2 t3 t4 responder hello icard config s =
     (let sid_text = py_str L (dget_default hello ''session_id'' (PStr [])) in
      case guard (uuid_ok sid_text) HandshakeAuthError
          (verify_hello_signature P L t1 hello icard responder 30) of
        Inl e \<Rightarrow> (Inl e, s)
      | Inr (_, version) \<Rightarrow>
          (case mk t2 (hello_tag L hello) 90 s of
             (Inl e, s') \<Rightarrow> (Inl e, s')
           | (Inr fresh, s') \<Rightarrow>
               (guard fresh HandshakeExpiredError
                 (finish_respond P R t3 t4 responder hello icard (config_or config) sid_text version), s')))"

definition ack_matches :: "dict \<Rightarrow> string \<Rightarrow> identity \<Rightarrow> public_card \<Rightarrow> unit res" where
  "ack_matches ack sid initiator rcard =
     guard (dget ack ''session_id'' = PStr sid) HandshakeAuthError
      (guard (dget ack ''initiator_id'' = PStr (entity_id initiator)) HandshakeAuthError
       (guard (dget ack ''responder_id'' = PStr (c_entity_id rcard)) HandshakeAuthError (Inr ())))"

definition finish_complete :: "prims \<Rightarrow> time \<Rightarrow> dict \<Rightarrow> public_card \<Rightarrow> string \<Rightarrow> exchange \<Rightarrow> identity \<Rightarrow>
    public_card option \<Rightarrow> session_config option \<Rightarrow> session res" where
  "finish_complete P t3 ack rcard sid exchange initiator pending config =
     guard (case pending of None \<Rightarrow> True | Some c \<Rightarrow> c_entity_id c = c_entity_id rcard) HandshakeAuthError
      (rbind (derive_ack_secret P ack (fst exchange) initiator) (\<lambda>secretB.
       rbind (derive_key P (fst exchange @ secretB) 32 None
          (final_info sid (entity_id initiator) (c_entity_id rcard))) (\<lambda>final.
       rbind (session_new P t3 sid (entity_id initiator) (c_entity_id rcard) final True
          (Some (config_or config))) (\<lambda>s0.
       case activate s0 of (Inl e, _) \<Rightarrow> Inl e | (Inr _, s1) \<Rightarrow> Inr s1))))"

definition complete :: "prims \<Rightarrow> pylib \<Rightarrow> 's marker \<Rightarrow> time \<Rightarrow> time \<Rightarrow> time \<Rightarrow> dict \<Rightarrow> public_card \<Rightarrow> handshake \<Rightarrow>
    's \<Rightarrow> session res \<times> handshake \<times> 's" where
  "complete P L mk t1 t2 t3 ack rcard hs s =
     (case (hs_hello hs, hs_initiator hs, hs_session_id hs, hs_exchange hs) of
        (Some _, Some initiator, Some sid, Some exchange) \<Rightarrow>
          (case rbind (verify_ack_signature P L t1 ack rcard 30) (\<lambda>_. ack_matches ack sid initiator rcard) of
             Inl e \<Rightarrow> (Inl e, hs, s)
           | Inr _ \<Rightarrow>
               (case mk t2 (''ack:'' @ py_str L (dget ack ''session_id'')) 90 s of
                  (Inl e, s') \<Rightarrow> (Inl e, hs, s')
                | (Inr fresh, s') \<Rightarrow>
                    (case guard fresh HandshakeExpiredError
                        (finish_complete P t3 ack rcard sid exchange initiator (hs_resp_card hs) (hs_config hs)) of
                       Inl e \<Rightarrow> (Inl e, hs, s')
                     | Inr ses \<Rightarrow> (Inr ses, hs\<lparr>hs_session := Some ses\<rparr>, s'))))
      | _ \<Rightarrow> (Inl HandshakeError, hs, s))"

definition hello_message :: "handshake \<Rightarrow> dict res" where
  "hello_message hs = (case hs_hello hs of None \<Rightarrow> Inl HandshakeError | Some m \<Rightarrow> Inr m)"

definition ack_message :: "handshake \<Rightarrow> dict res" where
  "ack_message hs = (case hs_ack hs of None \<Rightarrow> Inl HandshakeError | Some m \<Rightarrow> Inr m)"

definition handshake_session :: "handshake \<Rightarrow> session res" where
  "handshake_session hs = (case hs_session hs of None \<Rightarrow> Inl HandshakeError | Some s \<Rightarrow> Inr s)"

section \<open>Lemmas: honest messages\<close>

lemma make_hello_Inr:
  assumes "make_hello P R now i rcard sid = Inr (hello, x)"
  obtains key epub kct b sigs where "x = (key, epub, kct)"
    "hybrid_sender_exchange P (h_eph R) (h_kem R) (c_public_keys rcard) = Inr (key, epub, kct)"
    "bind_fields (hello_fields (join_comma SUPPORTED_VERSIONS) sid (entity_id i) (c_entity_id rcard)
       epub kct (str_int (trunc now))) = Inr b"
    "hybrid_sign P (h_sig R) b (keypair i) = Inr sigs"
    "hello = [(''type'', PStr ''UXSP-HELLO''), (''supported_versions'', PList (map PStr SUPPORTED_VERSIONS)),
       (''session_id'', PStr sid), (''initiator_id'', PStr (entity_id i)),
       (''responder_id'', PStr (c_entity_id rcard)), (''timestamp'', PInt (trunc now)),
       (''ephemeral_pub'', PStr (hex epub)), (''kem_ciphertext'', PStr (hex kct)),
       (''classical_sig'', dget sigs ''classical_sig''), (''pqc_sig'', dget sigs ''pqc_sig'')]"
  using assms by (auto simp: make_hello_def Let_def res_Inr_iffs)

lemma make_ack_Inr:
  assumes "make_ack P R now r sidv iid secretA icard version = Inr (ack, x)"
  obtains key epub kct b sigs sid where "x = (key, epub, kct)" "sidv = PStr sid"
    "hybrid_sender_exchange P (h_eph R) (h_kem R) (c_public_keys icard) = Inr (key, epub, kct)"
    "bind_fields (ack_fields version sid (entity_id r) iid (proof_of P secretA sid)
       epub kct (str_int (trunc now))) = Inr b"
    "hybrid_sign P (h_sig R) b (keypair r) = Inr sigs"
    "ack = [(''type'', PStr ''UXSP-ACK''), (''version'', PStr version), (''session_id'', PStr sid),
            (''responder_id'', PStr (entity_id r)), (''initiator_id'', PStr iid),
            (''timestamp'', PInt (trunc now)), (''proof'', PStr (proof_of P secretA sid)),
            (''ephemeral_pub'', PStr (hex epub)), (''kem_ciphertext'', PStr (hex kct)),
            (''classical_sig'', dget sigs ''classical_sig''), (''pqc_sig'', dget sigs ''pqc_sig'')]"
proof -
  obtain sid where "sidv = PStr sid"
    using assms by (cases sidv) (auto simp: make_ack_def Let_def res_Inr_iffs)
  with assms that show ?thesis by (auto simp: make_ack_def Let_def res_Inr_iffs)
qed

lemma finish_respond_Inr:
  assumes "finish_respond P R t3 t4 r hello icard config st version = Inr hr"
  obtains secretA ack secretB epub kct sid final s0 where
    "derive_hello_secret P hello r = Inr secretA"
    "make_ack P R t3 r (dget hello ''session_id'') (c_entity_id icard) secretA icard version =
       Inr (ack, (secretB, epub, kct))" "dget hello ''session_id'' = PStr sid"
    "derive_key P (secretA @ secretB) 32 None (final_info sid (c_entity_id icard) (entity_id r)) = Inr final"
    "session_new P t4 sid (entity_id r) (c_entity_id icard) final False (Some config) = Inr s0"
    "s_state s0 = PENDING"
    "hr = handshake_init\<lparr>hs_config := Some config, hs_session_id := Some st, hs_ack := Some ack,
       hs_session := Some (s0\<lparr>s_state := ACTIVE\<rparr>)\<rparr>"
proof -
  obtain sid where "dget hello ''session_id'' = PStr sid"
    using assms by (cases "dget hello ''session_id''") (auto simp: finish_respond_def res_Inr_iffs)
  with assms that show ?thesis
    by (auto simp: finish_respond_def res_Inr_iffs activate_def split: if_splits)
qed

lemma respond_Inr:
  assumes "respond P L mk R t1 t2 t3 t4 r hello icard config s = (Inr hr, s')"
  obtains b version where
    "verify_hello_signature P L t1 hello icard r 30 = Inr (b, version)"
    "mk t2 (hello_tag L hello) 90 s = (Inr True, s')"
    "finish_respond P R t3 t4 r hello icard (config_or config)
       (py_str L (dget_default hello ''session_id'' (PStr []))) version = Inr hr"
    "uuid_ok (py_str L (dget_default hello ''session_id'' (PStr [])))"
  using assms
  by (auto simp: respond_def Let_def guard_Inr_iff split: sum.splits prod.splits)

lemma verify_hello_version:
  "verify_hello_signature P L now hello icard r a = Inr (b, v) \<Longrightarrow> v = ''1''"
  by (auto simp: verify_hello_signature_def negotiate_def SUPPORTED_VERSIONS_def res_Inr_iffs
      split: pyval.splits if_splits)

lemma hex_ascii: "c \<in> set (hex b) \<Longrightarrow> of_char c < (128 :: nat)"
proof (induction b)
  case (Cons x b)
  have t: "\<forall>n \<in> set [0..<16]. of_char (hexdigits ! n) < (128 :: nat)" by code_simp
  have "unat x div 16 < 16" "unat x mod 16 < 16" by (simp_all add: less_mult_imp_div_less)
  with t Cons show ?case by (auto simp: hex_Cons)
qed simp

lemma derive_ack_honest:
  assumes "exchange_laws P" and "hkdf_laws P" and "is_keypair P (keypair i) ipks" and "length (h_eph R) = 32"
    and "c_public_keys icard = ipks"
    and "make_ack P R now r (PStr sid) iid secretA icard version = Inr (ack, (secretB, epub, kct))"
  shows "derive_ack_secret P ack secretA i = Inr secretB"
  using assms(6)
proof (rule make_ack_Inr)
  fix key epub' kct' b sigs sid'
  assume h: "(secretB, epub, kct) = (key, epub', kct')" "PStr sid = PStr sid'"
    "hybrid_sender_exchange P (h_eph R) (h_kem R) (c_public_keys icard) = Inr (key, epub', kct')"
    and ack: "ack = [(''type'', PStr ''UXSP-ACK''), (''version'', PStr version), (''session_id'', PStr sid'),
            (''responder_id'', PStr (entity_id r)), (''initiator_id'', PStr iid),
            (''timestamp'', PInt (trunc now)), (''proof'', PStr (proof_of P secretA sid')),
            (''ephemeral_pub'', PStr (hex epub')), (''kem_ciphertext'', PStr (hex kct')),
            (''classical_sig'', dget sigs ''classical_sig''), (''pqc_sig'', dget sigs ''pqc_sig'')]"
  have "hybrid_recipient_exchange P epub' kct' (keypair i) False = Inr key"
    using exchange_agree [OF assms(1-4), of "h_kem R"] h(3) assms(5) by auto
  moreover have "dget ack ''session_id'' = PStr sid'" "dget ack ''proof'' = PStr (proof_of P secretA sid')"
    "dget ack ''ephemeral_pub'' = PStr (hex epub')" "dget ack ''kem_ciphertext'' = PStr (hex kct')"
    unfolding ack by (simp_all add: dget_def)
  moreover have "compare_digest (PStr (proof_of P secretA sid')) (proof_of P secretA sid') = Inr True"
    by (simp add: compare_digest_def proof_of_def hex_ascii)
  ultimately show ?thesis using h by (simp add: derive_ack_secret_def)
qed

lemma verify_ack_honest:
  assumes "signature_laws P" and "is_keypair P (keypair r) rpks" and "c_public_keys rcard = rpks"
    and "make_ack P R t r (PStr sid) iid secretA icard ''1'' = Inr (ack, x)"
    and "\<bar>trunc now - trunc t\<bar> \<le> 30" and "c_entity_id rcard = entity_id r" and "entity_id i = iid"
  shows "\<exists>b. verify_ack_signature P L now ack rcard 30 = Inr b \<and> ack_matches ack sid i rcard = Inr () \<and>
    dget ack ''session_id'' = PStr sid"
  using assms(4)
proof (rule make_ack_Inr)
  fix key epub kct b sigs sid'
  assume h: "PStr sid = PStr sid'" "bind_fields (ack_fields ''1'' sid' (entity_id r) iid (proof_of P secretA sid')
       epub kct (str_int (trunc t))) = Inr b" "hybrid_sign P (h_sig R) b (keypair r) = Inr sigs"
    and ack: "ack = [(''type'', PStr ''UXSP-ACK''), (''version'', PStr ''1''), (''session_id'', PStr sid'),
            (''responder_id'', PStr (entity_id r)), (''initiator_id'', PStr iid),
            (''timestamp'', PInt (trunc t)), (''proof'', PStr (proof_of P secretA sid')),
            (''ephemeral_pub'', PStr (hex epub)), (''kem_ciphertext'', PStr (hex kct)),
            (''classical_sig'', dget sigs ''classical_sig''), (''pqc_sig'', dget sigs ''pqc_sig'')]"
  obtain c q where g: "sigs = [(''classical_sig'', PStr (hex c)), (''pqc_sig'', PStr (hex q))]"
    and v: "hybrid_verify P b [(''classical_sig'', PStr (hex c)), (''pqc_sig'', PStr (hex q))] rpks False = Inr True"
    using sign_verify [OF assms(1,2), of "h_sig R" b] h(3) by auto
  have f: "dget ack ''type'' = PStr ''UXSP-ACK''" "dget ack ''version'' = PStr ''1''"
    "dget ack ''session_id'' = PStr sid" "dget ack ''responder_id'' = PStr (entity_id r)"
    "dget ack ''initiator_id'' = PStr iid" "dget ack ''timestamp'' = PInt (trunc t)"
    "dget ack ''proof'' = PStr (proof_of P secretA sid)"
    "dget ack ''ephemeral_pub'' = PStr (hex epub)" "dget ack ''kem_ciphertext'' = PStr (hex kct)"
    "dget ack ''classical_sig'' = PStr (hex c)" "dget ack ''pqc_sig'' = PStr (hex q)"
    using h(1) unfolding ack g by (simp_all add: dget_def)
  have "\<forall>f \<in> set ACK_REQUIRED. has_key ack f"
    unfolding ack by (simp add: ACK_REQUIRED_def has_key_def)
  moreover have "check_age now ack 30 = Inr ()"
    using assms(5) by (simp add: check_age_def f abs_le_iff)
  moreover have "check_signature P b ack (c_public_keys rcard) = Inr ()"
    using v assms(3) by (simp add: check_signature_def message_sigs_def f)
  ultimately show ?thesis
    using h(1,2) assms(6,7)
    by (simp add: verify_ack_signature_def f SUPPORTED_VERSIONS_def ack_matches_def)
qed

definition card_of :: "identity \<Rightarrow> public_card \<Rightarrow> bool" where
  \<comment> \<open>the card carries the identity's id and public keys\<close>
  "card_of i c \<longleftrightarrow> c_entity_id c = entity_id i \<and> c_public_keys c = i_pub i"

lemma honest_agreement:
  assumes "exchange_laws P" and "hkdf_laws P" and "signature_laws P"
    and "is_keypair P (keypair i) (i_pub i)" and "is_keypair P (keypair r) (i_pub r)"
    and "card_of i icard" and "card_of r rcard"
    and "length (h_eph R0) = 32" and "length (h_eph R1) = 32"
    and "initiate P R0 t0 sid i rcard config = Inr hs" and "hs_hello hs = Some hello"
    and "respond P L mk R1 t1 t2 t3 t4 r hello icard config s = (Inr hr, s1)" and "hs_ack hr = Some ack"
    and "mk' u2 (''ack:'' @ sid) 90 s2 = (Inr True, s3)" and "\<bar>trunc u1 - trunc t3\<bar> \<le> 30"
  shows "\<exists>x y hs'. complete P L mk' u1 u2 u3 ack rcard hs s2 = (Inr x, hs', s3) \<and>
    hs_session hr = Some y \<and> hs_session hs' = Some x \<and> linked x y \<and> linked y x \<and>
    s_state x = ACTIVE \<and> s_state y = ACTIVE \<and> session_id x = sid \<and> total x = 0 \<and> total y = 0 \<and>
    local_id x = entity_id i \<and> remote_id x = entity_id r \<and>
    local_id y = entity_id r \<and> remote_id y = entity_id i \<and>
    s_config x = config_or config \<and> s_config y = config_or config \<and> s_created_at x = u3 \<and> s_created_at y = t4"
proof -
  have c: "c_entity_id icard = entity_id i" "c_public_keys icard = i_pub i"
    "c_entity_id rcard = entity_id r" "c_public_keys rcard = i_pub r"
    using assms(6,7) by (simp_all add: card_of_def)
  from assms(10,11) obtain x where mh: "make_hello P R0 t0 i rcard sid = Inr (hello, x)"
    and hs: "hs = handshake_init\<lparr>hs_session_id := Some sid, hs_config := Some (config_or config),
       hs_initiator := Some i, hs_resp_card := Some rcard, hs_hello := Some hello, hs_exchange := Some x\<rparr>"
    by (auto simp: initiate_def res_Inr_iffs)
  from mh obtain key epub kct b0 sigs where x: "x = (key, epub, kct)"
    and ex: "hybrid_sender_exchange P (h_eph R0) (h_kem R0) (c_public_keys rcard) = Inr (key, epub, kct)"
    and hello: "hello = [(''type'', PStr ''UXSP-HELLO''), (''supported_versions'', PList (map PStr SUPPORTED_VERSIONS)),
       (''session_id'', PStr sid), (''initiator_id'', PStr (entity_id i)),
       (''responder_id'', PStr (c_entity_id rcard)), (''timestamp'', PInt (trunc t0)),
       (''ephemeral_pub'', PStr (hex epub)), (''kem_ciphertext'', PStr (hex kct)),
       (''classical_sig'', dget sigs ''classical_sig''), (''pqc_sig'', dget sigs ''pqc_sig'')]"
    by (rule make_hello_Inr)
  have f: "dget hello ''session_id'' = PStr sid" "dget hello ''ephemeral_pub'' = PStr (hex epub)"
    "dget hello ''kem_ciphertext'' = PStr (hex kct)"
    unfolding hello by (simp_all add: dget_def)
  from assms(12) obtain b version where v: "verify_hello_signature P L t1 hello icard r 30 = Inr (b, version)"
    and fr: "finish_respond P R1 t3 t4 r hello icard (config_or config)
       (py_str L (dget_default hello ''session_id'' (PStr []))) version = Inr hr"
    by (rule respond_Inr)
  have v1: "version = ''1''" by (rule verify_hello_version [OF v])
  from fr obtain secretA ack' secretB epub' kct' sid' final s0 where
    A: "derive_hello_secret P hello r = Inr secretA"
    and ma: "make_ack P R1 t3 r (dget hello ''session_id'') (c_entity_id icard) secretA icard version =
       Inr (ack', (secretB, epub', kct'))" "dget hello ''session_id'' = PStr sid'"
    and fin: "derive_key P (secretA @ secretB) 32 None (final_info sid' (c_entity_id icard) (entity_id r)) = Inr final"
    and s0: "session_new P t4 sid' (entity_id r) (c_entity_id icard) final False (Some (config_or config)) = Inr s0"
    and hr: "hr = handshake_init\<lparr>hs_config := Some (config_or config),
       hs_session_id := Some (py_str L (dget_default hello ''session_id'' (PStr []))), hs_ack := Some ack',
       hs_session := Some (s0\<lparr>s_state := ACTIVE\<rparr>)\<rparr>"
    by (rule finish_respond_Inr)
  have sid': "sid' = sid" using ma(2) f(1) by simp
  have ack': "ack' = ack" using hr assms(13) by simp
  have "hybrid_recipient_exchange P epub kct (keypair r) False = Inr key"
    using exchange_agree [OF assms(1,2,5,8), of "h_kem R0"] ex c(4) by auto
  then have secretA: "secretA = key" using A by (simp add: derive_hello_secret_def f)
  have ma': "make_ack P R1 t3 r (PStr sid) (entity_id i) key icard ''1'' = Inr (ack, (secretB, epub', kct'))"
    using ma f(1) v1 secretA ack' c(1) by simp
  obtain b' where va: "verify_ack_signature P L u1 ack rcard 30 = Inr b'" "ack_matches ack sid i rcard = Inr ()"
    "dget ack ''session_id'' = PStr sid"
    using verify_ack_honest [OF assms(3,5) c(4) ma' assms(15) c(3) refl] by blast
  have B: "derive_ack_secret P ack key i = Inr secretB"
    by (rule derive_ack_honest [OF assms(1,2,4,9) c(2) ma'])
  obtain k1 k2 where k: "length k1 = KEY_SIZE" "length k2 = KEY_SIZE"
    and new: "\<And>now sid l r. session_new P now sid l r final True (Some (config_or config)) = Inr
       \<lparr>session_id = sid, local_id = l, remote_id = r, s_config = config_or config,
        s_state = PENDING, s_created_at = now, send_seq = 0, recv_seq = 0,
        seen_seqs = {}, max_seen_seq = -1, recv_count = 0, send_key = k1, recv_key = k2\<rparr>"
    "\<And>now sid l r. session_new P now sid l r final False (Some (config_or config)) = Inr
       \<lparr>session_id = sid, local_id = l, remote_id = r, s_config = config_or config,
        s_state = PENDING, s_created_at = now, send_seq = 0, recv_seq = 0,
        seen_seqs = {}, max_seen_seq = -1, recv_count = 0, send_key = k2, recv_key = k1\<rparr>"
    using session_new_ok [OF assms(2), of final "Some (config_or config)"] by auto
  let ?x = "\<lparr>session_id = sid, local_id = entity_id i, remote_id = entity_id r, s_config = config_or config,
        s_state = ACTIVE, s_created_at = u3, send_seq = 0, recv_seq = 0,
        seen_seqs = {}, max_seen_seq = -1, recv_count = 0, send_key = k1, recv_key = k2\<rparr>"
  have co: "config_or (Some (config_or config)) = config_or config" by (simp add: config_or_def)
  have fc: "finish_complete P u3 ack rcard sid x i (Some rcard) (Some (config_or config)) = Inr ?x"
    using B fin by (simp add: finish_complete_def x c sid' secretA co new activate_def)
  have "complete P L mk' u1 u2 u3 ack rcard hs s2 = (Inr ?x, hs\<lparr>hs_session := Some ?x\<rparr>, s3)"
    using va fc assms(14) by (simp add: complete_def hs)
  moreover have "hs_session hr = Some (s0\<lparr>s_state := ACTIVE\<rparr>)" by (simp add: hr)
  moreover have "s0\<lparr>s_state := ACTIVE\<rparr> = \<lparr>session_id = sid, local_id = entity_id r, remote_id = entity_id i,
        s_config = config_or config, s_state = ACTIVE, s_created_at = t4, send_seq = 0, recv_seq = 0,
        seen_seqs = {}, max_seen_seq = -1, recv_count = 0, send_key = k2, recv_key = k1\<rparr>"
    using s0 by (auto simp: new sid' c)
  ultimately show ?thesis
    using k by (simp add: linked_def total_def received_count_def)
qed

section \<open>Lemmas: what a responder accepts\<close>

lemma verify_hello_Inr:
  assumes "verify_hello_signature P L now hello icard r max_age = Inr (b, v)"
  shows "dget hello ''type'' = PStr ''UXSP-HELLO'' \<and>
    dget hello ''initiator_id'' = PStr (c_entity_id icard) \<and> dget hello ''responder_id'' = PStr (entity_id r) \<and>
    (\<exists>ts. py_int (dget hello ''timestamp'') = Inr ts \<and> \<bar>trunc now - ts\<bar> \<le> max_age) \<and>
    (\<exists>vs epub kct. dget hello ''supported_versions'' = PList (map PStr vs) \<and> v \<in> set vs \<and>
       v \<in> set SUPPORTED_VERSIONS \<and>
       py_fromhex (dget hello ''ephemeral_pub'') = Inr epub \<and> py_fromhex (dget hello ''kem_ciphertext'') = Inr kct \<and>
       bind_fields (hello_fields (join_comma vs) (py_str L (dget hello ''session_id''))
         (c_entity_id icard) (entity_id r) epub kct (py_str L (dget hello ''timestamp''))) = Inr b) \<and>
    hybrid_verify P b (message_sigs hello) (c_public_keys icard) False = Inr True"
proof -
  from assms obtain offered vs epub kct where h: "dget hello ''type'' = PStr ''UXSP-HELLO''"
    "check_age now hello max_age = Inr ()"
    "dget hello ''initiator_id'' = PStr (c_entity_id icard)" "dget hello ''responder_id'' = PStr (entity_id r)"
    and n: "negotiate (dget hello ''supported_versions'') = Inr (offered, v)"
    and vs: "res_map the_str offered = Inr vs"
    and f: "py_fromhex (dget hello ''ephemeral_pub'') = Inr epub"
      "py_fromhex (dget hello ''kem_ciphertext'') = Inr kct"
      "bind_fields (hello_fields (join_comma vs) (py_str L (dget hello ''session_id''))
         (c_entity_id icard) (entity_id r) epub kct (py_str L (dget hello ''timestamp''))) = Inr b"
    and c: "check_signature P b hello (c_public_keys icard) = Inr ()"
    by (auto simp: verify_hello_signature_def res_Inr_iffs)
  have m: "offered = map PStr vs"
  proof -
    have "list_all2 (\<lambda>x y. the_str x = Inr y) offered vs" using vs by (simp add: res_map_Inr_iff)
    then have "list_all2 (\<lambda>x y. x = PStr y) offered vs"
      by (rule list_all2_mono) (auto elim: the_str.elims)
    then show ?thesis by (induction rule: list_all2_induct) auto
  qed
  have o: "dget hello ''supported_versions'' = PList offered" "v \<in> set SUPPORTED_VERSIONS" "PStr v \<in> set offered"
    using n by (auto simp: negotiate_def guard_Inr_iff SUPPORTED_VERSIONS_def split: pyval.splits if_splits)
  have a: "\<exists>ts. py_int (dget hello ''timestamp'') = Inr ts \<and> \<bar>trunc now - ts\<bar> \<le> max_age"
    using h(2) by (auto simp: check_age_def res_Inr_iffs Let_def abs_le_iff)
  have s: "hybrid_verify P b (message_sigs hello) (c_public_keys icard) False = Inr True"
    using c by (auto simp: check_signature_def res_Inr_iffs)
  have v: "v \<in> set vs" using o(3) m by auto
  from f h a s o v m show ?thesis by blast
qed

lemma respond_unverified:
  assumes "respond P L mk R t1 t2 t3 t4 r hello icard config s = (Inl e, s')"
    and "\<not> is_ok (verify_hello_signature P L t1 hello icard r 30)"
  shows "s' = s"
  using assms by (auto simp: respond_def Let_def guard_def is_ok_iff split: sum.splits prod.splits if_splits)

section \<open>Lemmas: honest messages are accepted\<close>

definition short :: "string \<Rightarrow> bool" where
  \<comment> \<open>far below the 4 GiB limit of \<open>bind_fields\<close>\<close>
  "short s \<longleftrightarrow> int (length s) \<le> 1000000"

lemma short_utf8: "short s \<Longrightarrow> length (utf8 s) \<le> 0xFFFFFFFF"
  using length_utf8_le [of s] by (simp add: short_def)

lemma short_time: "\<bar>trunc t\<bar> < 10 ^ 18 \<Longrightarrow> short (str_int (trunc t))"
  using length_str_int [of "trunc t" 18] by (simp add: short_def)

lemma sender_exchange_sizes:
  assumes "size_laws P" and "length eph = 32"
    and "hybrid_sender_exchange P eph rnd pks = Inr (k, epub, kct)"
  shows "int (length epub) \<le> 0xFFFFFFFF \<and> int (length kct) \<le> 0xFFFFFFFF"
proof -
  from assms(3) obtain pk ss where "epub = x25519_public P eph" "kem_encap P rnd pk = Inr (kct, ss)"
    by (auto simp: hybrid_sender_exchange_def encapsulate_def res_Inr_iffs)
  with assms(1,2) have "length epub = 32" "length kct \<le> 2048"
    unfolding size_laws_def by blast+
  then show ?thesis by simp
qed

lemma initiate_honest:
  assumes "exchange_laws P" and "hkdf_laws P" and "signature_laws P" and "size_laws P"
    and "is_keypair P (keypair i) (i_pub i)" and "is_keypair P (keypair r) (i_pub r)"
    and "card_of r rcard" and "length (h_eph R) = 32"
    and "short sid" and "short (entity_id i)" and "short (entity_id r)" and "\<bar>trunc t\<bar> < 10 ^ 18"
  shows "\<exists>hs hello. initiate P R t sid i rcard config = Inr hs \<and> hs_hello hs = Some hello"
proof -
  have c: "c_public_keys rcard = i_pub r" "c_entity_id rcard = entity_id r"
    using assms(7) by (simp_all add: card_of_def)
  obtain k kct where x: "hybrid_sender_exchange P (h_eph R) (h_kem R) (i_pub r) = Inr (k, x25519_public P (h_eph R), kct)"
    using exchange_agree [OF assms(1,2,6,8)] by blast
  have "\<exists>b. bind_fields (hello_fields (join_comma SUPPORTED_VERSIONS) sid (entity_id i) (entity_id r)
       (x25519_public P (h_eph R)) kct (str_int (trunc t))) = Inr b"
    using sender_exchange_sizes [OF assms(4,8) x] assms(9-11) short_time [OF assms(12)]
    unfolding bind_fields_ok by (simp add: hello_fields_def SUPPORTED_VERSIONS_def short_utf8)
  then obtain b where b: "bind_fields (hello_fields (join_comma SUPPORTED_VERSIONS) sid (entity_id i) (entity_id r)
       (x25519_public P (h_eph R)) kct (str_int (trunc t))) = Inr b" by blast
  obtain sigs where "hybrid_sign P (h_sig R) b (keypair i) = Inr sigs"
    using sign_verify [OF assms(3,5), of "h_sig R" b] by blast
  with x b c show ?thesis by (simp add: initiate_def make_hello_def)
qed

lemma verify_hello_honest:
  assumes "signature_laws P" and "is_keypair P (keypair i) (i_pub i)" and "card_of i icard"
    and "make_hello P R t i rcard sid = Inr (hello, x)" and "c_entity_id rcard = entity_id r"
    and "\<bar>trunc now - trunc t\<bar> \<le> 30"
  shows "\<exists>b. verify_hello_signature P L now hello icard r 30 = Inr (b, ''1'')"
  using assms(4)
proof (rule make_hello_Inr)
  fix key epub kct b sigs
  assume bf: "bind_fields (hello_fields (join_comma SUPPORTED_VERSIONS) sid (entity_id i) (c_entity_id rcard)
       epub kct (str_int (trunc t))) = Inr b" and sg: "hybrid_sign P (h_sig R) b (keypair i) = Inr sigs"
    and hello: "hello = [(''type'', PStr ''UXSP-HELLO''), (''supported_versions'', PList (map PStr SUPPORTED_VERSIONS)),
       (''session_id'', PStr sid), (''initiator_id'', PStr (entity_id i)),
       (''responder_id'', PStr (c_entity_id rcard)), (''timestamp'', PInt (trunc t)),
       (''ephemeral_pub'', PStr (hex epub)), (''kem_ciphertext'', PStr (hex kct)),
       (''classical_sig'', dget sigs ''classical_sig''), (''pqc_sig'', dget sigs ''pqc_sig'')]"
  obtain c q where g: "sigs = [(''classical_sig'', PStr (hex c)), (''pqc_sig'', PStr (hex q))]"
    and v: "hybrid_verify P b [(''classical_sig'', PStr (hex c)), (''pqc_sig'', PStr (hex q))] (i_pub i) False = Inr True"
    using sign_verify [OF assms(1,2), of "h_sig R" b] sg by auto
  have f: "dget hello ''type'' = PStr ''UXSP-HELLO''" "dget hello ''session_id'' = PStr sid"
    "dget hello ''supported_versions'' = PList [PStr ''1'']"
    "dget hello ''initiator_id'' = PStr (entity_id i)" "dget hello ''responder_id'' = PStr (entity_id r)"
    "dget hello ''timestamp'' = PInt (trunc t)"
    "dget hello ''ephemeral_pub'' = PStr (hex epub)" "dget hello ''kem_ciphertext'' = PStr (hex kct)"
    "dget hello ''classical_sig'' = PStr (hex c)" "dget hello ''pqc_sig'' = PStr (hex q)"
    unfolding hello g by (simp_all add: dget_def SUPPORTED_VERSIONS_def assms(5))
  have "\<forall>f \<in> set HELLO_REQUIRED. has_key hello f"
    unfolding hello by (simp add: HELLO_REQUIRED_def has_key_def)
  moreover have "check_age now hello 30 = Inr ()"
    using assms(6) by (simp add: check_age_def f abs_le_iff)
  moreover have "check_signature P b hello (c_public_keys icard) = Inr ()"
    using v assms(3) by (simp add: check_signature_def message_sigs_def f card_of_def)
  ultimately show ?thesis
    using bf assms(3,5)
    by (simp add: verify_hello_signature_def f negotiate_def SUPPORTED_VERSIONS_def card_of_def)
qed

lemma respond_honest:
  assumes "exchange_laws P" and "hkdf_laws P" and "signature_laws P" and "size_laws P"
    and "is_keypair P (keypair i) (i_pub i)" and "is_keypair P (keypair r) (i_pub r)"
    and "card_of i icard" and "card_of r rcard"
    and "length (h_eph R0) = 32" and "length (h_eph R1) = 32"
    and "initiate P R0 t0 sid i rcard config0 = Inr hs" and "hs_hello hs = Some hello"
    and "uuid_ok sid" and "\<bar>trunc t1 - trunc t0\<bar> \<le> 30" and "\<bar>trunc t3\<bar> < 10 ^ 18"
    and "short sid" and "short (entity_id i)" and "short (entity_id r)"
    and "mk t2 (''hello:'' @ sid) 90 s = (Inr True, s1)"
  shows "\<exists>hr ack. respond P L mk R1 t1 t2 t3 t4 r hello icard config s = (Inr hr, s1) \<and> hs_ack hr = Some ack"
proof -
  have c: "c_entity_id icard = entity_id i" "c_public_keys icard = i_pub i"
    "c_entity_id rcard = entity_id r" "c_public_keys rcard = i_pub r"
    using assms(7,8) by (simp_all add: card_of_def)
  from assms(11,12) obtain x where mh: "make_hello P R0 t0 i rcard sid = Inr (hello, x)"
    by (auto simp: initiate_def res_Inr_iffs)
  from mh obtain key epub kct b0 sigs where
    ex: "hybrid_sender_exchange P (h_eph R0) (h_kem R0) (c_public_keys rcard) = Inr (key, epub, kct)"
    and hello: "hello = [(''type'', PStr ''UXSP-HELLO''), (''supported_versions'', PList (map PStr SUPPORTED_VERSIONS)),
       (''session_id'', PStr sid), (''initiator_id'', PStr (entity_id i)),
       (''responder_id'', PStr (c_entity_id rcard)), (''timestamp'', PInt (trunc t0)),
       (''ephemeral_pub'', PStr (hex epub)), (''kem_ciphertext'', PStr (hex kct)),
       (''classical_sig'', dget sigs ''classical_sig''), (''pqc_sig'', dget sigs ''pqc_sig'')]"
    by (rule make_hello_Inr)
  have f: "dget hello ''session_id'' = PStr sid" "dget_default hello ''session_id'' d = PStr sid"
    "dget hello ''ephemeral_pub'' = PStr (hex epub)" "dget hello ''kem_ciphertext'' = PStr (hex kct)" for d
    unfolding hello by (simp_all add: dget_def dget_default_def has_key_def)
  obtain b where v: "verify_hello_signature P L t1 hello icard r 30 = Inr (b, ''1'')"
    using verify_hello_honest [OF assms(3,5,7) mh c(3) assms(14)] by blast
  have "hybrid_recipient_exchange P epub kct (keypair r) False = Inr key"
    using exchange_agree [OF assms(1,2,6,9), of "h_kem R0"] ex c(4) by auto
  then have A: "derive_hello_secret P hello r = Inr key" by (simp add: derive_hello_secret_def f)
  obtain key' kct' where x: "hybrid_sender_exchange P (h_eph R1) (h_kem R1) (i_pub i) =
      Inr (key', x25519_public P (h_eph R1), kct')"
    using exchange_agree [OF assms(1,2,5,10)] by blast
  have pr: "int (length (utf8 (proof_of P key sid))) \<le> 0xFFFFFFFF"
    using assms(4) length_utf8_le [of "proof_of P key sid"] by (simp add: proof_of_def size_laws_def)
  have "\<exists>b. bind_fields (ack_fields ''1'' sid (entity_id r) (entity_id i) (proof_of P key sid)
       (x25519_public P (h_eph R1)) kct' (str_int (trunc t3))) = Inr b"
    using sender_exchange_sizes [OF assms(4,10) x] assms(16-18) short_time [OF assms(15)] pr
    unfolding bind_fields_ok by (simp add: ack_fields_def short_utf8)
  then obtain b' where b': "bind_fields (ack_fields ''1'' sid (entity_id r) (entity_id i) (proof_of P key sid)
       (x25519_public P (h_eph R1)) kct' (str_int (trunc t3))) = Inr b'" by blast
  obtain sigs' where "hybrid_sign P (h_sig R1) b' (keypair r) = Inr sigs'"
    using sign_verify [OF assms(3,6), of "h_sig R1" b'] by blast
  with x b' c obtain ack where ma: "make_ack P R1 t3 r (PStr sid) (entity_id i) key icard ''1'' =
      Inr (ack, (key', x25519_public P (h_eph R1), kct'))"
    by (simp add: make_ack_def Let_def)
  obtain final where fin: "derive_key P (key @ key') 32 None (final_info sid (entity_id i) (entity_id r)) = Inr final"
    by (rule hkdf_lawsE [OF assms(2), of 32]) (simp_all add: derive_key_def)
  have "\<exists>s0. session_new P t4 sid (entity_id r) (entity_id i) final False (Some (config_or config)) = Inr s0 \<and>
      s_state s0 = PENDING"
    using session_new_ok [OF assms(2), of final "Some (config_or config)"] by auto
  then obtain s0 where s0: "session_new P t4 sid (entity_id r) (entity_id i) final False
      (Some (config_or config)) = Inr s0" "s_state s0 = PENDING" by blast
  have "finish_respond P R1 t3 t4 r hello icard (config_or config) sid ''1'' =
      Inr (handshake_init\<lparr>hs_config := Some (config_or config), hs_session_id := Some sid,
        hs_ack := Some ack, hs_session := Some (s0\<lparr>s_state := ACTIVE\<rparr>)\<rparr>)"
    using A ma fin s0 by (simp add: finish_respond_def f c activate_def)
  then show ?thesis
    using v assms(13,19) by (simp add: respond_def Let_def f hello_tag_def)
qed

section \<open>A concrete handshake\<close>

definition demo_responder :: identity where
  "demo_responder = demo_recipient"

definition demo_responder_card :: public_card where
  "demo_responder_card = demo_card\<lparr>c_entity_id := ''bob'', c_public_keys := demo_pubkeys 2\<rparr>"

definition demo_hs_random :: "byte \<Rightarrow> hs_random" where
  "demo_hs_random n = \<lparr>h_eph = replicate 32 n, h_kem = [n], h_sig = [n]\<rparr>"

definition demo_uuid :: string where
  "demo_uuid = ''00000000-0000-4000-8000-000000000001''"

definition always_fresh :: "unit marker" where
  \<comment> \<open>a store that has never seen a nonce\<close>
  "always_fresh t n ttl s = (Inr True, s)"

lemma demo_cards: "card_of demo_identity demo_card" "card_of demo_responder demo_responder_card"
  by (simp_all add: card_of_def demo_identity_def demo_card_def demo_responder_def demo_recipient_def
      demo_responder_card_def)

lemma demo_uuid_ok: "uuid_ok demo_uuid"
  by code_simp

lemma initiate_session_id:
  "initiate P R t sid i rcard config = Inr hs \<Longrightarrow> hs_hello hs = Some hello \<Longrightarrow>
   dget hello ''session_id'' = PStr sid"
  by (auto simp: initiate_def res_Inr_iffs dget_def elim!: make_hello_Inr)

lemma demo_respond:
  "\<exists>hello hr s1. respond demo_prims demo_lib mem_mark_used (demo_hs_random 4) 101 101 101 101
     demo_responder hello demo_card None mem_init = (Inr hr, s1) \<and> dget hello ''session_id'' = PStr demo_uuid"
proof -
  have k: "is_keypair demo_prims (keypair demo_identity) (i_pub demo_identity)"
    "is_keypair demo_prims (keypair demo_responder) (i_pub demo_responder)"
    by (simp_all add: demo_identity_def demo_responder_def demo_recipient_def demo_is_keypair)
  have n: "length (h_eph (demo_hs_random b)) = 32" for b by (simp add: demo_hs_random_def)
  have sh: "short demo_uuid" "short (entity_id demo_identity)" "short (entity_id demo_responder)"
    by (simp_all add: short_def demo_uuid_def demo_identity_def demo_responder_def demo_recipient_def)
  have t: "\<bar>trunc 100\<bar> < 10 ^ 18" "\<bar>trunc 101\<bar> < 10 ^ 18" "\<bar>trunc 101 - trunc 100\<bar> \<le> 30"
    by (simp_all add: trunc_def)
  obtain hs hello where h: "initiate demo_prims (demo_hs_random 3) 100 demo_uuid demo_identity
      demo_responder_card None = Inr hs" "hs_hello hs = Some hello"
    using initiate_honest [where config = None, OF demo_exchange demo_hkdf demo_signature demo_sizes k
        demo_cards(2) n sh t(1)] by blast
  have "mem_mark_used 101 (''hello:'' @ demo_uuid) 90 mem_init =
      (Inr True, \<lparr>mstore = [(''hello:'' @ demo_uuid, 191)], calls_since_cleanup = 1\<rparr>)"
    by (simp add: mem_mark_used_def mem_init_def MAX_NONCE_STORE_SIZE_def)
  from respond_honest [where mk = mem_mark_used and config = None and L = demo_lib and ?t4.0 = 101,
      OF demo_exchange demo_hkdf demo_signature demo_sizes k demo_cards n n h demo_uuid_ok t(3,2) sh this]
  show ?thesis using initiate_session_id [OF h] by blast
qed

section \<open>Properties\<close>

text \<open>C8: An honest handshake completes and agrees: between two parties with generated keypairs
  who hold each other's cards, with clocks within 30 seconds and unused nonces, the HELLO is
  accepted, the ACK is accepted, and the two active sessions have the same id, crossed send and
  receive keys of 32 bytes and counters in step (\<open>linked\<close>), each naming the other as its peer.\<close>

theorem handshake_agreement:
  assumes "exchange_laws P" and "hkdf_laws P" and "signature_laws P" and "size_laws P"
    and "is_keypair P (keypair i) (i_pub i)" and "is_keypair P (keypair r) (i_pub r)"
    and "card_of i icard" and "card_of r rcard"
    and "length (h_eph R0) = 32" and "length (h_eph R1) = 32"
    and "uuid_ok sid" and "short sid" and "short (entity_id i)" and "short (entity_id r)"
    and "\<bar>trunc t0\<bar> < 10 ^ 18" and "\<bar>trunc t3\<bar> < 10 ^ 18"
    and "\<bar>trunc t1 - trunc t0\<bar> \<le> 30" and "\<bar>trunc u1 - trunc t3\<bar> \<le> 30"
    and "mk t2 (''hello:'' @ sid) 90 s = (Inr True, s1)"
    and "mk' u2 (''ack:'' @ sid) 90 s2 = (Inr True, s3)"
  shows "\<exists>hs hello hr ack x y hs'. initiate P R0 t0 sid i rcard config = Inr hs \<and>
    hello_message hs = Inr hello \<and>
    respond P L mk R1 t1 t2 t3 t4 r hello icard config s = (Inr hr, s1) \<and> ack_message hr = Inr ack \<and>
    complete P L mk' u1 u2 u3 ack rcard hs s2 = (Inr x, hs', s3) \<and> handshake_session hr = Inr y \<and>
    linked x y \<and> linked y x \<and> s_state x = ACTIVE \<and> s_state y = ACTIVE \<and> session_id x = sid \<and>
    local_id x = entity_id i \<and> remote_id x = entity_id r \<and> local_id y = entity_id r \<and>
    remote_id y = entity_id i"
proof -
  obtain hs hello where h: "initiate P R0 t0 sid i rcard config = Inr hs" "hs_hello hs = Some hello"
    using initiate_honest [OF assms(1-6,8,9,12-15)] by blast
  obtain hr ack where r: "respond P L mk R1 t1 t2 t3 t4 r hello icard config s = (Inr hr, s1)"
      "hs_ack hr = Some ack"
    using respond_honest [where P = P and i = i and r = r and mk = mk, OF assms(1-10) h assms(11,17,16,12-14,19)]
    by blast
  obtain x y hs' where "complete P L mk' u1 u2 u3 ack rcard hs s2 = (Inr x, hs', s3)"
    "hs_session hr = Some y" "linked x y" "linked y x" "s_state x = ACTIVE" "s_state y = ACTIVE"
    "session_id x = sid" "local_id x = entity_id i" "remote_id x = entity_id r"
    "local_id y = entity_id r" "remote_id y = entity_id i"
    using honest_agreement [where mk = mk and mk' = mk' and ?u2.0 = u2 and ?s2.0 = s2 and ?u3.0 = u3,
      OF assms(1-3,5-10) h r assms(20,18)] by blast
  with h r show ?thesis
    by (auto simp: hello_message_def ack_message_def handshake_session_def)
qed

theorem handshake_agreement_witness:
  "\<exists>hs hello hr ack x y hs'. initiate demo_prims (demo_hs_random 3) 100 demo_uuid demo_identity
      demo_responder_card None = Inr hs \<and> hello_message hs = Inr hello \<and>
    respond demo_prims demo_lib always_fresh (demo_hs_random 4) 101 101 101 101 demo_responder hello demo_card
      None () = (Inr hr, ()) \<and> ack_message hr = Inr ack \<and>
    complete demo_prims demo_lib always_fresh 102 102 102 ack demo_responder_card hs () = (Inr x, hs', ()) \<and>
    handshake_session hr = Inr y \<and> linked x y \<and> remote_id x = ''bob''"
proof -
  have k: "is_keypair demo_prims (keypair demo_identity) (i_pub demo_identity)"
    "is_keypair demo_prims (keypair demo_responder) (i_pub demo_responder)"
    by (simp_all add: demo_identity_def demo_responder_def demo_recipient_def demo_is_keypair)
  have e: "entity_id demo_identity = ''alice''" "entity_id demo_responder = ''bob''"
    by (simp_all add: demo_identity_def demo_responder_def demo_recipient_def)
  have n: "length (h_eph (demo_hs_random b)) = 32" for b by (simp add: demo_hs_random_def)
  have sh: "short demo_uuid" "short (entity_id demo_identity)" "short (entity_id demo_responder)"
    by (simp_all add: short_def demo_uuid_def e)
  have t: "\<bar>trunc 100\<bar> < 10 ^ 18" "\<bar>trunc 101\<bar> < 10 ^ 18" "\<bar>trunc 101 - trunc 100\<bar> \<le> 30"
    "\<bar>trunc 102 - trunc 101\<bar> \<le> 30" by (simp_all add: trunc_def)
  show ?thesis
    using handshake_agreement [where P = demo_prims and L = demo_lib and mk = always_fresh and
        mk' = always_fresh and ?t2.0 = 101 and ?t4.0 = 101 and ?u2.0 = 102 and ?u3.0 = 102 and s = "()" and
        ?s1.0 = "()" and ?s2.0 = "()" and ?s3.0 = "()" and config = None,
        OF demo_exchange demo_hkdf demo_signature demo_sizes k demo_cards n n demo_uuid_ok sh t]
    by (simp add: always_fresh_def e) blast
qed

text \<open>C10: What \<open>respond\<close> requires: a session id that is a UUID, a HELLO of the right type from the
  initiator of the given card for this responder, dated within 30 seconds, whose two signatures
  verify under the card's keys over the binding of all its fields, and an unused nonce. A HELLO
  that does not verify never touches the nonce store.\<close>

theorem respond_sound:
  assumes "respond P L mk R t1 t2 t3 t4 r hello icard config s = (res, s')"
  shows "(is_ok res \<longrightarrow>
      uuid_ok (py_str L (dget hello ''session_id'')) \<and> dget hello ''type'' = PStr ''UXSP-HELLO'' \<and>
      dget hello ''initiator_id'' = PStr (c_entity_id icard) \<and> dget hello ''responder_id'' = PStr (entity_id r) \<and>
      (\<exists>ts. py_int (dget hello ''timestamp'') = Inr ts \<and> \<bar>trunc t1 - ts\<bar> \<le> 30) \<and>
      (\<exists>vs epub kct b. dget hello ''supported_versions'' = PList (map PStr vs) \<and> ''1'' \<in> set vs \<and>
         bind_fields (hello_fields (join_comma vs) (py_str L (dget hello ''session_id''))
           (c_entity_id icard) (entity_id r) epub kct (py_str L (dget hello ''timestamp''))) = Inr b \<and>
         hybrid_verify P b (message_sigs hello) (c_public_keys icard) False = Inr True) \<and>
      mk t2 (hello_tag L hello) 90 s = (Inr True, s')) \<and>
    (\<not> is_ok (verify_hello_signature P L t1 hello icard r 30) \<longrightarrow> s' = s)"
proof (cases "is_ok res")
  case True
  then obtain hr where "res = Inr hr" by (auto simp: is_ok_iff)
  with assms have "respond P L mk R t1 t2 t3 t4 r hello icard config s = (Inr hr, s')" by simp
  then obtain b v where v: "verify_hello_signature P L t1 hello icard r 30 = Inr (b, v)"
    "mk t2 (hello_tag L hello) 90 s = (Inr True, s')"
    "uuid_ok (py_str L (dget_default hello ''session_id'' (PStr [])))"
    by (rule respond_Inr)
  have "has_key hello ''session_id''"
    using v(1) by (auto simp: verify_hello_signature_def guard_Inr_iff HELLO_REQUIRED_def)
  with v(3) have "uuid_ok (py_str L (dget hello ''session_id''))" by (simp add: dget_default_def)
  with True v(1,2) verify_hello_Inr [OF v(1)] verify_hello_version [OF v(1)] show ?thesis by auto
next
  case False
  then show ?thesis
    using respond_unverified assms by (cases res) auto
qed

theorem respond_sound_witness:
  "\<exists>hello b. hybrid_verify demo_prims b (message_sigs hello) (demo_pubkeys 1) False = Inr True \<and>
     dget hello ''responder_id'' = PStr ''bob''"
proof -
  obtain hello hr s1 where "respond demo_prims demo_lib mem_mark_used (demo_hs_random 4) 101 101 101 101
     demo_responder hello demo_card None mem_init = (Inr hr, s1)" using demo_respond by blast
  from respond_sound [OF this] have "\<exists>b. hybrid_verify demo_prims b (message_sigs hello) (c_public_keys demo_card)
      False = Inr True" "dget hello ''responder_id'' = PStr (entity_id demo_responder)" by auto
  then show ?thesis
    by (auto simp: demo_card_def demo_responder_def demo_recipient_def)
qed

text \<open>C9: With the in-memory nonce store a HELLO opens at most one session: after \<open>respond\<close> accepted it, every
  later call with the same HELLO fails, by whatever identity, card and randomness and whatever the
  store handles in between, provided that the later call takes at most 28 seconds from its look at the
  timestamp (\<open>u1\<close>) to its entry of the nonce (\<open>u2\<close>) and the clock does not run backwards. While the nonce is
  remembered, for 90 seconds, the HELLO is a replay, and before it is forgotten the HELLO has gone stale;
  a call that stalls longer than that between the two looks at the clock could accept it a second time.\<close>

theorem hello_accepted_once:
  assumes "mem_inv s" and "respond P L mem_mark_used R t1 t2 t3 t4 r hello icard config s = (Inr hr, s1)"
    and "0 \<le> t1" and "0 \<le> u1" and "t1 \<le> t2" and "u2 \<le> u1 + 28"
    and "\<forall>x \<in> set xs. op_time x \<le> u2"
  shows "\<not> is_ok (fst (respond P' L mem_mark_used R' u1 u2 u3 u4 r' hello icard' config'
    (run_ops mem_mark_used mem_is_seen mem_cleanup xs s1)))"
proof
  let ?s = "run_ops mem_mark_used mem_is_seen mem_cleanup xs s1"
  assume "is_ok (fst (respond P' L mem_mark_used R' u1 u2 u3 u4 r' hello icard' config' ?s))"
  then obtain hr' s2 where o: "respond P' L mem_mark_used R' u1 u2 u3 u4 r' hello icard' config' ?s = (Inr hr', s2)"
    by (cases "respond P' L mem_mark_used R' u1 u2 u3 u4 r' hello icard' config' ?s") (auto simp: is_ok_iff)
  from assms(2) obtain b v where a: "verify_hello_signature P L t1 hello icard r 30 = Inr (b, v)"
    "mem_mark_used t2 (hello_tag L hello) 90 s = (Inr True, s1)" by (rule respond_Inr)
  from o obtain b' v' where a': "verify_hello_signature P' L u1 hello icard' r' 30 = Inr (b', v')"
    "mem_mark_used u2 (hello_tag L hello) 90 ?s = (Inr True, s2)" by (rule respond_Inr)
  obtain ts where ts: "\<bar>trunc t1 - ts\<bar> \<le> 30" "\<bar>trunc u1 - ts\<bar> \<le> 30"
    using verify_hello_Inr [OF a(1)] verify_hello_Inr [OF a'(1)] by auto
  then have "trunc u1 \<le> trunc t1 + 60" by linarith
  then have "of_int (trunc u1) \<le> of_int (trunc t1) + (60 :: rat)"
    by (metis of_int_add of_int_le_iff of_int_numeral)
  with trunc_le [OF assms(3)] trunc_le [OF assms(4)] have "u1 < t1 + 61" by linarith
  then have u2: "u2 < t2 + of_int 90" using assms(5,6) by simp
  have "fst (mem_mark_used u2 (hello_tag L hello) 90 (run_ops mem_mark_used mem_is_seen mem_cleanup xs
      (snd (mem_mark_used t2 (hello_tag L hello) 90 s)))) \<noteq> Inr True"
    by (rule mem.once_per_ttl) (use assms(1,7) a(2) u2 in auto)
  with a(2) a'(2) show False by simp
qed

theorem hello_accepted_once_witness:
  "\<exists>hello hr s1. respond demo_prims demo_lib mem_mark_used (demo_hs_random 4) 101 101 101 101
      demo_responder hello demo_card None mem_init = (Inr hr, s1) \<and>
    \<not> is_ok (fst (respond demo_prims demo_lib mem_mark_used (demo_hs_random 5) 120 121 121 121
      demo_responder hello demo_card None s1))"
proof -
  obtain hello hr s1 where r: "respond demo_prims demo_lib mem_mark_used (demo_hs_random 4) 101 101 101 101
     demo_responder hello demo_card None mem_init = (Inr hr, s1)" using demo_respond by blast
  from hello_accepted_once [OF mem_inv_init this, of 120 121 "[]"] r show ?thesis
    by (fastforce simp: run_ops_def)
qed

end
