(* ===== verification/WebSocket.thy ===== *)
theory WebSocket
  imports Handshake Json
begin

text \<open>
  \<open>uxsp/transport/websocket.py\<close>: typed frames and the connection object that takes a handshake
  from HELLO to an established session, exchanges data, keeps alive, resumes and closes. Session
  objects are shared (the handshake, the connection and the application hold the same object), so
  they live in an explicit store, a list that references index; every method maps connection and
  store to a result and the new ones. The limiter and the nonce store are any implementations,
  given by the functions \<open>chk\<close> and \<open>mk\<close>. Lemmas: frames survive the wire; what every reachable
  connection satisfies, whatever frames arrive; and what the frame types do not protect.
\<close>

section \<open>Frames\<close>

datatype frame_type = HANDSHAKE_HELLO | HANDSHAKE_ACK | HANDSHAKE_COMPLETE | DATA | ERROR | CLOSE
  | PING | PONG | RESUME | RESUME_ACK

fun type_text :: "frame_type \<Rightarrow> string" where
  "type_text HANDSHAKE_HELLO = ''UXSP-HELLO''"
| "type_text HANDSHAKE_ACK = ''UXSP-ACK''"
| "type_text HANDSHAKE_COMPLETE = ''UXSP-COMPLETE''"
| "type_text DATA = ''UXSP-DATA''"
| "type_text ERROR = ''UXSP-ERROR''"
| "type_text CLOSE = ''UXSP-CLOSE''"
| "type_text PING = ''UXSP-PING''"
| "type_text PONG = ''UXSP-PONG''"
| "type_text RESUME = ''UXSP-RESUME''"
| "type_text RESUME_ACK = ''UXSP-RESUME-ACK''"

definition frame_types :: "frame_type list" where
  "frame_types = [HANDSHAKE_HELLO, HANDSHAKE_ACK, HANDSHAKE_COMPLETE, DATA, ERROR, CLOSE, PING, PONG, RESUME, RESUME_ACK]"

definition type_of_text :: "pyval \<Rightarrow> frame_type res" where
  \<comment> \<open>\<open>FrameType(v)\<close>\<close>
  "type_of_text v = (case filter (\<lambda>ty. v = PStr (type_text ty)) frame_types of
     ty # _ \<Rightarrow> Inr ty | [] \<Rightarrow> Inl ValueError)"

record frame =
  fr_type :: frame_type
  fr_payload :: dict
  fr_timestamp :: int

definition MAX_FRAME_BYTES :: nat where "MAX_FRAME_BYTES = 1 * 1024 * 1024"

definition frame_build :: "frame_type \<Rightarrow> dict \<Rightarrow> time \<Rightarrow> frame" where
  "frame_build ty payload now = \<lparr>fr_type = ty, fr_payload = payload, fr_timestamp = trunc now\<rparr>"

definition frame_value :: "frame \<Rightarrow> pyval" where
  "frame_value f = PDict [(''uxsp_frame'', PStr (type_text (fr_type f))), (''timestamp'', PInt (fr_timestamp f)),
     (''payload'', PDict (fr_payload f))]"

definition frame_to_json :: "pylib \<Rightarrow> frame \<Rightarrow> string" where
  "frame_to_json L f = dumps (float_repr L) False (frame_value f)"

definition frame_of_value :: "time \<Rightarrow> pyval \<Rightarrow> frame res" where
  \<comment> \<open>the checks after \<open>json.loads\<close>; the clock stands in for a missing time stamp\<close>
  "frame_of_value now v = (case v of
     PDict d \<Rightarrow>
       guard (has_key d ''uxsp_frame'') UXSPWebSocketError
        (rbind (rescue (\<lambda>e. e = ValueError) UXSPWebSocketError (type_of_text (dget d ''uxsp_frame''))) (\<lambda>ty.
         case dget_default d ''payload'' (PDict []) of
           PDict payload \<Rightarrow>
             rbind (rescue is_ValueTypeError UXSPWebSocketError
               (py_int (dget_default d ''timestamp'' (PInt (trunc now))))) (\<lambda>ts.
             Inr \<lparr>fr_type = ty, fr_payload = payload, fr_timestamp = ts\<rparr>)
         | _ \<Rightarrow> Inl UXSPWebSocketError))
   | _ \<Rightarrow> Inl UXSPWebSocketError)"

definition frame_of_raw :: "time \<Rightarrow> nat \<Rightarrow> bytes \<Rightarrow> frame res" where
  \<comment> \<open>only \<open>JSONDecodeError\<close> is caught: bytes that are not UTF-8 raise \<open>UnicodeDecodeError\<close>\<close>
  "frame_of_raw now max_bytes raw =
     guard (length raw \<le> max_bytes) FrameTooLargeError
      (rbind (rescue (\<lambda>e. e = JSONDecodeError) UXSPWebSocketError (loads_bytes raw)) (frame_of_value now))"

datatype wire = WireText string | WireBytes bytes | WireOther

definition frame_from_json :: "time \<Rightarrow> nat \<Rightarrow> wire \<Rightarrow> frame res" where
  "frame_from_json now max_bytes w = (case w of
     WireText s \<Rightarrow> guard (length s \<le> max_bytes) FrameTooLargeError (frame_of_raw now max_bytes (utf8 s))
   | WireBytes b \<Rightarrow> guard (length b \<le> max_bytes) FrameTooLargeError (frame_of_raw now max_bytes b)
   | WireOther \<Rightarrow> Inl UXSPWebSocketError)"

section \<open>The connection object\<close>

text \<open>\<open>w_hs\<close>: the handshake with the reference of its session; \<open>w_session\<close>: the reference of the
  established session.\<close>

record ('s, 'l) ws =
  w_identity :: identity
  w_config :: "session_config option"
  w_nonces :: 's
  w_session :: "nat option"
  w_hs :: "(handshake \<times> nat option) option"
  w_role :: string
  w_card :: "public_card option"
  w_limiter :: "'l option"

type_synonym ('s, 'l) conn = "('s, 'l) ws \<times> session list"

definition as_initiator :: "identity \<Rightarrow> public_card \<Rightarrow> session_config option \<Rightarrow> 's \<Rightarrow> ('s, 'l) ws" where
  "as_initiator i rcard config nonces = \<lparr>w_identity = i, w_config = config, w_nonces = nonces, w_session = None,
     w_hs = None, w_role = ''initiator'', w_card = Some rcard, w_limiter = None\<rparr>"

definition as_responder :: "identity \<Rightarrow> 'l option \<Rightarrow> session_config option \<Rightarrow> 's \<Rightarrow> ('s, 'l) ws" where
  "as_responder i limiter config nonces = \<lparr>w_identity = i, w_config = config, w_nonces = nonces, w_session = None,
     w_hs = None, w_role = ''responder'', w_card = None, w_limiter = limiter\<rparr>"

definition on_session :: "nat \<Rightarrow> (session \<Rightarrow> 'a \<times> session) \<Rightarrow> ('s, 'l) conn \<Rightarrow> 'a \<times> ('s, 'l) conn" where
  \<comment> \<open>a method call on the session object that \<open>r\<close> refers to\<close>
  "on_session r f c = (case f (snd c ! r) of (a, s) \<Rightarrow> (a, fst c, (snd c)[r := s]))"

definition then_frame :: "frame_type \<Rightarrow> time \<Rightarrow> dict res \<times> ('s, 'l) conn \<Rightarrow> frame res \<times> ('s, 'l) conn" where
  \<comment> \<open>\<open>UXSPFrame.build(ty, ...)\<close> of what a call returns\<close>
  "then_frame ty now rc = (case rc of (r, c) \<Rightarrow> (rbind r (\<lambda>d. Inr (frame_build ty d now)), c))"

section \<open>The handshake\<close>

definition start_handshake :: "prims \<Rightarrow> hs_random \<Rightarrow> string \<Rightarrow> (nat \<Rightarrow> time) \<Rightarrow> ('s, 'l) conn \<Rightarrow> frame res \<times> ('s, 'l) conn" where
  "start_handshake P R uuid t = (\<lambda>(w, h).
     case w_card w of
       None \<Rightarrow> (Inl UXSPWebSocketError, w, h)
     | Some rcard \<Rightarrow>
         (case initiate P R (t 0) uuid (w_identity w) rcard (w_config w) of
            Inl e \<Rightarrow> (Inl e, w, h)
          | Inr hs \<Rightarrow> then_frame HANDSHAKE_HELLO (t 1) (hello_message hs, w\<lparr>w_hs := Some (hs, None)\<rparr>, h)))"

definition complete_handshake :: "prims \<Rightarrow> pylib \<Rightarrow> 's marker \<Rightarrow> (nat \<Rightarrow> time) \<Rightarrow> frame \<Rightarrow> ('s, 'l) conn \<Rightarrow>
    frame res \<times> ('s, 'l) conn" where
  "complete_handshake P L mk t ack = (\<lambda>(w, h).
     case (w_hs w, w_card w) of
       (Some (hs, r), Some rcard) \<Rightarrow>
         if fr_type ack \<noteq> HANDSHAKE_ACK then (Inl UnexpectedFrameError, w, h)
         else (case complete P L mk (t 0) (t 1) (t 2) (fr_payload ack) rcard hs (w_nonces w) of
             (Inl e, hs', s') \<Rightarrow> (Inl e, w\<lparr>w_hs := Some (hs', r), w_nonces := s'\<rparr>, h)
           | (Inr ses, hs', s') \<Rightarrow>
               (Inr (frame_build HANDSHAKE_COMPLETE [(''session_id'', PStr (session_id ses))] (t 3)),
                w\<lparr>w_session := Some (length h), w_hs := Some (hs', Some (length h)), w_nonces := s'\<rparr>, h @ [ses]))
     | _ \<Rightarrow> (Inl SessionNotEstablishedError, w, h))"

definition check_limiter :: "(time \<Rightarrow> string \<Rightarrow> 'l \<Rightarrow> unit res \<times> 'l) \<Rightarrow> time \<Rightarrow> string \<Rightarrow> 'l option \<Rightarrow> unit res \<times> 'l option" where
  "check_limiter chk now eid l = (case l of
     None \<Rightarrow> (Inr (), None) | Some x \<Rightarrow> (case chk now eid x of (r, x') \<Rightarrow> (r, Some x')))"

definition handle_hello :: "prims \<Rightarrow> pylib \<Rightarrow> 's marker \<Rightarrow> (time \<Rightarrow> string \<Rightarrow> 'l \<Rightarrow> unit res \<times> 'l) \<Rightarrow> hs_random \<Rightarrow>
    (nat \<Rightarrow> time) \<Rightarrow> frame \<Rightarrow> public_card \<Rightarrow> ('s, 'l) conn \<Rightarrow> frame res \<times> ('s, 'l) conn" where
  "handle_hello P L mk chk R t hello icard = (\<lambda>(w, h).
     if w_hs w \<noteq> None then (Inl UXSPWebSocketError, w, h)
     else if fr_type hello \<noteq> HANDSHAKE_HELLO then (Inl UnexpectedFrameError, w, h)
     else (case check_limiter chk (t 0) (c_entity_id icard) (w_limiter w) of
         (Inl e, l') \<Rightarrow> (Inl e, w\<lparr>w_limiter := l'\<rparr>, h)
       | (Inr _, l') \<Rightarrow>
           (case respond P L mk R (t 1) (t 2) (t 3) (t 4) (w_identity w) (fr_payload hello) icard (w_config w)
               (w_nonces w) of
              (Inl e, s') \<Rightarrow> (Inl e, w\<lparr>w_limiter := l', w_nonces := s'\<rparr>, h)
            | (Inr hs, s') \<Rightarrow>
                (case hs_session hs of
                   None \<Rightarrow> then_frame HANDSHAKE_ACK (t 5) (ack_message hs,
                     w\<lparr>w_limiter := l', w_nonces := s', w_hs := Some (hs, None), w_card := Some icard\<rparr>, h)
                 | Some ses \<Rightarrow> then_frame HANDSHAKE_ACK (t 5) (ack_message hs,
                     w\<lparr>w_limiter := l', w_nonces := s', w_hs := Some (hs, Some (length h)), w_card := Some icard\<rparr>,
                     h @ [ses])))))"

definition handle_complete :: "frame \<Rightarrow> ('s, 'l) conn \<Rightarrow> unit res \<times> ('s, 'l) conn" where
  "handle_complete f = (\<lambda>(w, h).
     case w_hs w of
       None \<Rightarrow> (Inl SessionNotEstablishedError, w, h)
     | Some (hs, r) \<Rightarrow>
         if fr_type f \<noteq> HANDSHAKE_COMPLETE then (Inl UnexpectedFrameError, w, h)
         else if w_session w \<noteq> None then (Inl UXSPWebSocketError, w, h)
         else (case r of
             None \<Rightarrow> (Inl HandshakeError, w, h)
           | Some k \<Rightarrow>
               if dget (fr_payload f) ''session_id'' \<noteq> PStr (session_id (h ! k)) then (Inl UXSPWebSocketError, w, h)
               else (Inr (), w\<lparr>w_session := Some k\<rparr>, h)))"

section \<open>Resumption\<close>

definition resume_text :: "string \<Rightarrow> string \<Rightarrow> string \<Rightarrow> string \<Rightarrow> bytes" where
  "resume_text tag sid last_seq nonce = utf8 (tag @ '':'' @ sid @ '':'' @ last_seq @ '':'' @ nonce)"

definition resume_payload :: "prims \<Rightarrow> string \<Rightarrow> bytes \<Rightarrow> session \<Rightarrow> dict" where
  "resume_payload P tag urandom s =
     [(''session_id'', PStr (session_id s)), (''last_seq'', PInt (recv_seq s)), (''nonce'', PStr (hex urandom)),
      (''auth_tag'', PStr (compute_auth_tag P (resume_text tag (session_id s) (str_int (recv_seq s)) (hex urandom)) ''send'' s))]"

definition check_resume :: "prims \<Rightarrow> pylib \<Rightarrow> string \<Rightarrow> dict \<Rightarrow> session \<Rightarrow> unit res" where
  \<comment> \<open>session id and tag of a RESUME or RESUME-ACK; \<open>compare_digest\<close> raises for a tag that is not ASCII text\<close>
  "check_resume P L tag payload s =
     guard (dget payload ''session_id'' = PStr (session_id s)) UXSPWebSocketError
      (rbind (compare_digest (dget_default payload ''auth_tag'' (PStr []))
         (compute_auth_tag P (resume_text tag (session_id s) (py_str L (dget_default payload ''last_seq'' (PInt 0)))
            (py_str L (dget_default payload ''nonce'' (PStr [])))) ''recv'' s)) (\<lambda>ok.
       guard ok UXSPWebSocketError (Inr ())))"

definition active_session :: "time \<Rightarrow> nat option \<Rightarrow> ('s, 'l) conn \<Rightarrow> nat res \<times> ('s, 'l) conn" where
  \<comment> \<open>\<open>session is None or not session.is_active\<close>\<close>
  "active_session now so c = (case so of
     None \<Rightarrow> (Inl SessionNotEstablishedError, c)
   | Some r \<Rightarrow> (case on_session r (is_active now) c of
       (a, c') \<Rightarrow> (if a then Inr r else Inl SessionNotEstablishedError, c')))"

definition start_resume :: "prims \<Rightarrow> bytes \<Rightarrow> (nat \<Rightarrow> time) \<Rightarrow> ('s, 'l) conn \<Rightarrow> frame res \<times> ('s, 'l) conn" where
  "start_resume P urandom t c =
     (case active_session (t 0) (w_session (fst c)) c of
        (Inl e, c') \<Rightarrow> (Inl e, c')
      | (Inr r, c') \<Rightarrow> (Inr (frame_build RESUME (resume_payload P ''RESUME'' urandom (snd c' ! r)) (t 1)), c'))"

definition complete_resume :: "prims \<Rightarrow> pylib \<Rightarrow> time \<Rightarrow> frame \<Rightarrow> ('s, 'l) conn \<Rightarrow> unit res \<times> ('s, 'l) conn" where
  "complete_resume P L now ack c =
     (case active_session now (w_session (fst c)) c of
        (Inl e, c') \<Rightarrow> (Inl e, c')
      | (Inr r, c') \<Rightarrow>
          (guard (fr_type ack = RESUME_ACK) UnexpectedFrameError
             (check_resume P L ''RESUME_ACK'' (fr_payload ack) (snd c' ! r)), c'))"

definition handle_resume :: "prims \<Rightarrow> pylib \<Rightarrow> bytes \<Rightarrow> (nat \<Rightarrow> time) \<Rightarrow> frame \<Rightarrow> nat option \<Rightarrow> ('s, 'l) conn \<Rightarrow>
    frame res \<times> ('s, 'l) conn" where
  \<comment> \<open>\<open>given\<close>: the session that the application passes\<close>
  "handle_resume P L urandom t f given c =
     (if fr_type f \<noteq> RESUME then (Inl UnexpectedFrameError, c)
      else (case active_session (t 0) (case given of None \<Rightarrow> w_session (fst c) | Some r \<Rightarrow> Some r) c of
          (Inl e, c') \<Rightarrow> (Inl e, c')
        | (Inr r, c') \<Rightarrow>
            (case check_resume P L ''RESUME'' (fr_payload f) (snd c' ! r) of
               Inl e \<Rightarrow> (Inl e, c')
             | Inr _ \<Rightarrow> (Inr (frame_build RESUME_ACK (resume_payload P ''RESUME_ACK'' urandom (snd c' ! r)) (t 1)),
                 (fst c')\<lparr>w_session := Some r\<rparr>, snd c'))))"

section \<open>Data\<close>

definition ws_encode :: "prims \<Rightarrow> bytes \<Rightarrow> (nat \<Rightarrow> time) \<Rightarrow> bytes \<Rightarrow> ('s, 'l) conn \<Rightarrow> frame res \<times> ('s, 'l) conn" where
  "ws_encode P urandom t plaintext c =
     (case w_session (fst c) of
        None \<Rightarrow> (Inl SessionNotEstablishedError, c)
      | Some r \<Rightarrow> then_frame DATA (t 2) (on_session r (session_encrypt P urandom (t 0) (t 1) plaintext) c))"

definition ws_decode :: "prims \<Rightarrow> (nat \<Rightarrow> time) \<Rightarrow> frame \<Rightarrow> ('s, 'l) conn \<Rightarrow> bytes res \<times> ('s, 'l) conn" where
  "ws_decode P t f c =
     (case w_session (fst c) of
        None \<Rightarrow> (Inl SessionNotEstablishedError, c)
      | Some r \<Rightarrow>
          if fr_type f \<noteq> DATA then (Inl UnexpectedFrameError, c)
          else on_session r (session_decrypt P (t 0) (t 1) (fr_payload f)) c)"

section \<open>Keepalive and close\<close>

definition sealed_frame :: "prims \<Rightarrow> pylib \<Rightarrow> bytes \<Rightarrow> (nat \<Rightarrow> time) \<Rightarrow> frame_type \<Rightarrow> dict \<Rightarrow> ('s, 'l) conn \<Rightarrow>
    frame res \<times> ('s, 'l) conn" where
  \<comment> \<open>the payload, as JSON under the session key if there is a session\<close>
  "sealed_frame P L urandom t ty payload c =
     (case w_session (fst c) of
        None \<Rightarrow> then_frame ty (t 2) (Inr payload, c)
      | Some r \<Rightarrow> then_frame ty (t 2)
          (on_session r (session_encrypt P urandom (t 0) (t 1) (utf8 (dumps (float_repr L) False (PDict payload)))) c))"

definition ping :: "prims \<Rightarrow> pylib \<Rightarrow> bytes \<Rightarrow> (nat \<Rightarrow> time) \<Rightarrow> ('s, 'l) conn \<Rightarrow> frame res \<times> ('s, 'l) conn" where
  "ping P L urandom t = sealed_frame P L urandom (\<lambda>k. t (k + 1)) PING [(''ts'', PInt (trunc (t 0)))]"

definition read_sealed :: "prims \<Rightarrow> (nat \<Rightarrow> time) \<Rightarrow> dict \<Rightarrow> nat \<Rightarrow> ('s, 'l) conn \<Rightarrow> pyval res \<times> ('s, 'l) conn" where
  \<comment> \<open>\<open>json.loads(session.decrypt(payload).decode("utf-8"))\<close>\<close>
  "read_sealed P t payload r c =
     (case on_session r (session_decrypt P (t 0) (t 1) payload) c of (m, c') \<Rightarrow> (rbind m loads_bytes, c'))"

definition pong :: "prims \<Rightarrow> pylib \<Rightarrow> bytes \<Rightarrow> (nat \<Rightarrow> time) \<Rightarrow> frame \<Rightarrow> ('s, 'l) conn \<Rightarrow> frame res \<times> ('s, 'l) conn" where
  \<comment> \<open>a payload that is not decrypted stands for itself; \<open>data.get\<close> fails on other JSON values\<close>
  "pong P L urandom t f c =
     (let (data, c1) = (case w_session (fst c) of
            Some r \<Rightarrow>
              if has_key (fr_payload f) ''ciphertext''
              then (case read_sealed P t (fr_payload f) r c of
                      (Inl e, c') \<Rightarrow> (PDict (fr_payload f), c') | (Inr v, c') \<Rightarrow> (v, c'))
              else (PDict (fr_payload f), c)
          | None \<Rightarrow> (PDict (fr_payload f), c))
      in case data of
           PDict d \<Rightarrow> sealed_frame P L urandom (\<lambda>k. t (k + 2)) PONG [(''echo_ts'', dget d ''ts'')] c1
         | _ \<Rightarrow> (Inl AttributeError, c1))"

definition drop_session :: "nat \<Rightarrow> ('s, 'l) conn \<Rightarrow> ('s, 'l) conn" where
  \<comment> \<open>\<open>session.revoke(); self._session = None\<close>\<close>
  "drop_session r c = ((fst c)\<lparr>w_session := None\<rparr>, (snd c)[r := revoke (snd c ! r)])"

definition ws_close :: "prims \<Rightarrow> pylib \<Rightarrow> bytes \<Rightarrow> (nat \<Rightarrow> time) \<Rightarrow> string \<Rightarrow> ('s, 'l) conn \<Rightarrow> frame res \<times> ('s, 'l) conn" where
  \<comment> \<open>an error of \<open>encrypt\<close> leaves before the session is revoked\<close>
  "ws_close P L urandom t reason c =
     (case w_session (fst c) of
        None \<Rightarrow> then_frame CLOSE (t 2) (Inr [(''reason'', PStr reason)], c)
      | Some r \<Rightarrow>
          (case on_session r (session_encrypt P urandom (t 0) (t 1)
              (utf8 (dumps (float_repr L) False (PDict [(''reason'', PStr reason)])))) c of
             (Inl e, c') \<Rightarrow> (Inl e, c')
           | (Inr d, c') \<Rightarrow> then_frame CLOSE (t 2) (Inr d, drop_session r c')))"

definition handle_close :: "prims \<Rightarrow> pylib \<Rightarrow> (nat \<Rightarrow> time) \<Rightarrow> frame \<Rightarrow> ('s, 'l) conn \<Rightarrow> string res \<times> ('s, 'l) conn" where
  "handle_close P L t f c =
     (if fr_type f \<noteq> CLOSE then (Inl UnexpectedFrameError, c)
      else (case w_session (fst c) of
          None \<Rightarrow> (Inr (py_str L (dget_default (fr_payload f) ''reason'' (PStr ''unknown''))), c)
        | Some r \<Rightarrow>
            (case read_sealed P t (fr_payload f) r c of
               (Inr (PDict d), c') \<Rightarrow> (Inr (py_str L (dget_default d ''reason'' (PStr ''unknown''))), drop_session r c')
             | (_, c') \<Rightarrow> (Inr ''unauthenticated-close'', drop_session r c'))))"

definition ws_session :: "('s, 'l) conn \<Rightarrow> nat res" where
  "ws_session c = (case w_session (fst c) of None \<Rightarrow> Inl SessionNotEstablishedError | Some r \<Rightarrow> Inr r)"

definition ws_is_ready :: "time \<Rightarrow> ('s, 'l) conn \<Rightarrow> bool \<times> ('s, 'l) conn" where
  "ws_is_ready now c = (case w_session (fst c) of None \<Rightarrow> (False, c) | Some r \<Rightarrow> on_session r (is_active now) c)"

section \<open>The connection as a state machine\<close>

text \<open>What other holders of the session objects may do between two calls: create sessions, and use
  the ones there are through their methods, none of which changes the ids or goes back in the
  life cycle.\<close>

definition same_session :: "session \<Rightarrow> session \<Rightarrow> bool" where
  "same_session s s' \<longleftrightarrow> session_id s' = session_id s \<and> local_id s' = local_id s \<and> remote_id s' = remote_id s \<and>
     s_state s \<le> s_state s'"

definition evolves :: "session list \<Rightarrow> session list \<Rightarrow> bool" where
  "evolves h h' \<longleftrightarrow> length h \<le> length h' \<and> (\<forall>r < length h. same_session (h ! r) (h' ! r))"

text \<open>One call of a method, with any clock, randomness and frames (the network's choice), or a step of
  the others. \<open>T\<close> are the sessions that the application hands to \<open>handle_resume\<close>.\<close>

inductive ws_step :: "prims \<Rightarrow> pylib \<Rightarrow> 's marker \<Rightarrow> (time \<Rightarrow> string \<Rightarrow> 'l \<Rightarrow> unit res \<times> 'l) \<Rightarrow> nat set \<Rightarrow>
    ('s, 'l) conn \<Rightarrow> ('s, 'l) conn \<Rightarrow> bool" for P L mk chk T where
  step_start: "ws_step P L mk chk T c (snd (start_handshake P R uuid t c))"
| step_complete: "ws_step P L mk chk T c (snd (complete_handshake P L mk t f c))"
| step_hello: "ws_step P L mk chk T c (snd (handle_hello P L mk chk R t f icard c))"
| step_handle_complete: "ws_step P L mk chk T c (snd (handle_complete f c))"
| step_start_resume: "ws_step P L mk chk T c (snd (start_resume P rnd t c))"
| step_complete_resume: "ws_step P L mk chk T c (snd (complete_resume P L now f c))"
| step_resume: "set_option given \<subseteq> T \<inter> {..< length (snd c)} \<Longrightarrow>
    ws_step P L mk chk T c (snd (handle_resume P L rnd t f given c))"
| step_encode: "ws_step P L mk chk T c (snd (ws_encode P rnd t m c))"
| step_decode: "ws_step P L mk chk T c (snd (ws_decode P t f c))"
| step_ping: "ws_step P L mk chk T c (snd (ping P L rnd t c))"
| step_pong: "ws_step P L mk chk T c (snd (pong P L rnd t f c))"
| step_close: "ws_step P L mk chk T c (snd (ws_close P L rnd t reason c))"
| step_handle_close: "ws_step P L mk chk T c (snd (handle_close P L t f c))"
| step_ready: "ws_step P L mk chk T c (snd (ws_is_ready now c))"
| step_others: "evolves h h' \<Longrightarrow> ws_step P L mk chk T (w, h) (w, h')"

inductive ws_reach :: "prims \<Rightarrow> pylib \<Rightarrow> 's marker \<Rightarrow> (time \<Rightarrow> string \<Rightarrow> 'l \<Rightarrow> unit res \<times> 'l) \<Rightarrow> nat set \<Rightarrow>
    ('s, 'l) conn \<Rightarrow> ('s, 'l) conn \<Rightarrow> bool" for P L mk chk T c0 where
  reach_init: "ws_reach P L mk chk T c0 c0"
| reach_step: "ws_reach P L mk chk T c0 c \<Longrightarrow> ws_step P L mk chk T c c' \<Longrightarrow> ws_reach P L mk chk T c0 c'"

text \<open>A party vouched for a session: its signature on a HELLO or an ACK for this session and this
  entity verified.\<close>

definition vouched :: "prims \<Rightarrow> pylib \<Rightarrow> identity \<Rightarrow> public_card \<Rightarrow> session \<Rightarrow> bool" where
  "vouched P L me pc s \<longleftrightarrow> local_id s = entity_id me \<and> remote_id s = c_entity_id pc \<and>
     ((\<exists>now hello b v. verify_hello_signature P L now hello pc me 30 = Inr (b, v) \<and>
         dget hello ''session_id'' = PStr (session_id s)) \<or>
      (\<exists>now ack b. verify_ack_signature P L now ack pc 30 = Inr b \<and>
         ack_matches ack (session_id s) me pc = Inr ()))"

definition established :: "prims \<Rightarrow> pylib \<Rightarrow> ('s, 'l) ws \<Rightarrow> session \<Rightarrow> bool" where
  "established P L w s \<longleftrightarrow>
     (\<exists>pc. w_card w = Some pc \<and> vouched P L (w_identity w) pc s) \<and> ACTIVE \<le> s_state s"

definition conn_ok :: "prims \<Rightarrow> pylib \<Rightarrow> nat set \<Rightarrow> ('s, 'l) conn \<Rightarrow> bool" where
  "conn_ok P L T c = (case c of (w, h) \<Rightarrow>
     (\<forall>r. w_session w = Some r \<longrightarrow> r < length h \<and> (r \<in> T \<or> w_hs w \<noteq> None \<and> established P L w (h ! r))) \<and>
     (\<forall>hs r. w_hs w = Some (hs, Some r) \<longrightarrow> r < length h \<and> established P L w (h ! r)) \<and>
     (\<forall>hs ro i. w_hs w = Some (hs, ro) \<longrightarrow> hs_initiator hs = Some i \<longrightarrow> i = w_identity w))"

section \<open>Lemmas: steps of the state machine\<close>

lemma same_session_refl [simp]: "same_session s s"
  by (simp add: same_session_def)

lemma same_session_trans: "same_session a b \<Longrightarrow> same_session b c \<Longrightarrow> same_session a c"
  by (auto simp: same_session_def)

lemma evolves_refl [simp]: "evolves h h"
  by (simp add: evolves_def)

lemma evolves_trans: "evolves a b \<Longrightarrow> evolves b c \<Longrightarrow> evolves a c"
  by (auto simp: evolves_def intro: same_session_trans)

lemma evolves_append [simp]: "evolves h (h @ xs)"
  by (simp add: evolves_def nth_append)

lemma evolves_update: "(r < length h \<Longrightarrow> same_session (h ! r) s) \<Longrightarrow> evolves h (h[r := s])"
  by (cases "r < length h") (auto simp: evolves_def nth_list_update)

lemma same_session_only_state:
  assumes "only_state s s'"
  shows "same_session s s'"
proof -
  have "s' = s\<lparr>s_state := s_state s'\<rparr>" "s_state s \<le> s_state s'" using assms by (simp_all add: only_state_def)
  then show ?thesis unfolding same_session_def by (metis session.simps(1-3) session.select_convs(1-3) session.surjective session.update_convs(5))
qed

lemma same_session_revoke [simp]: "same_session s (revoke s)"
  by (simp add: same_session_def revoke_def)

text \<open>A method call on one session changes only the store, and every session method keeps the ids and
  goes forward in the life cycle.\<close>

lemma same_session_encrypt [simp]: "same_session s (snd (session_encrypt P n t1 t2 m s))"
proof -
  obtain r s' where e: "session_encrypt P n t1 t2 m s = (r, s')" by fastforce
  then show ?thesis
  proof (cases rule: session_encrypt_cases)
    case inactive
    with e show ?thesis by (simp add: same_session_only_state)
  next
    case reserved
    have "same_session s (s\<lparr>send_seq := send_seq s + 1\<rparr>)" by (simp add: same_session_def)
    with same_session_only_state [OF reserved(4)] e show ?thesis by (auto intro: same_session_trans)
  qed
qed

lemma same_session_expiry [simp]: "same_session s (evaluate_expiry t s)"
  by (simp add: same_session_only_state)

lemma admit_same: "admit q s = (r, s') \<Longrightarrow> same_session s s'"
  by (auto simp: admit_def same_session_def Let_def split: if_splits)

lemma rollback_same [simp]: "same_session s (rollback q s)"
  by (auto simp: rollback_def same_session_def Let_def)

lemma same_session_decrypt [simp]: "same_session s (snd (session_decrypt P t1 t2 d s))"
proof -
  have l: "same_session s s'" if "decrypt_locked P t1 q ct n s = (r, s')" for q ct n r s'
    using that
  proof (cases rule: decrypt_locked_cases)
    case (forged e s2)
    with admit_same [OF forged(2)] show ?thesis by (auto intro: same_session_trans)
  qed (auto intro: same_session_only_state dest: admit_same)
  show ?thesis
    by (auto simp: session_decrypt_def split: sum.split prod.split
        intro: same_session_trans [OF l same_session_expiry] l)
qed

lemma same_session_is_active [simp]: "same_session s (snd (is_active t s))"
  by (simp add: is_active_def Let_def)

lemma vouched_same: "vouched P L me pc s \<Longrightarrow> same_session s s' \<Longrightarrow> vouched P L me pc s'"
  by (simp add: vouched_def same_session_def)

lemma established_same: "established P L w s \<Longrightarrow> same_session s s' \<Longrightarrow> established P L w s'"
  by (auto simp: established_def same_session_def intro: vouched_same [unfolded same_session_def])

lemma established_cong [simp]:
  "established P L (w\<lparr>w_session := x\<rparr>) = established P L w"
  "established P L (w\<lparr>w_hs := y\<rparr>) = established P L w"
  "established P L (w\<lparr>w_nonces := n\<rparr>) = established P L w"
  "established P L (w\<lparr>w_limiter := l\<rparr>) = established P L w"
  by (simp_all add: established_def fun_eq_iff)

text \<open>Most methods keep the connection object, or only drop its session.\<close>

definition quiet :: "('s, 'l) conn \<Rightarrow> ('s, 'l) conn \<Rightarrow> bool" where
  "quiet c c' \<longleftrightarrow> evolves (snd c) (snd c') \<and> (fst c' = fst c \<or> fst c' = (fst c)\<lparr>w_session := None\<rparr>)"

lemma quiet_refl [simp]: "quiet c c"
  by (simp add: quiet_def)

lemma quiet_trans: "quiet a b \<Longrightarrow> quiet b c \<Longrightarrow> quiet a c"
  by (auto simp: quiet_def intro: evolves_trans)

lemma conn_ok_evolves:
  assumes "conn_ok P L T (w, h)" and "evolves h h'"
  shows "conn_ok P L T (w, h')"
  using assms unfolding conn_ok_def prod.case
  by (auto simp: evolves_def intro: order_less_le_trans established_same)

lemma conn_ok_quiet:
  assumes "conn_ok P L T c" and "quiet c c'"
  shows "conn_ok P L T c'"
proof -
  have "conn_ok P L T (fst c, snd c')"
    using assms by (auto simp: quiet_def intro: conn_ok_evolves [of _ _ _ _ "snd c"])
  with assms(2) show ?thesis by (cases c') (auto simp: quiet_def conn_ok_def)
qed

lemma quiet_on_session:
  "(\<And>s. same_session s (snd (f s))) \<Longrightarrow> quiet c (snd (on_session r f c))"
  by (simp add: quiet_def on_session_def split_beta evolves_update)

lemma then_frame_snd [simp]: "snd (then_frame ty now rc) = snd rc"
  by (simp add: then_frame_def split_beta)

lemma quiet_on_sessionD:
  "on_session r f c = (a, c') \<Longrightarrow> (\<And>s. same_session s (snd (f s))) \<Longrightarrow> quiet c c'"
  by (metis quiet_on_session snd_conv)

lemma quiet_drop: "quiet c c' \<Longrightarrow> quiet c (drop_session r c')"
  by (rule quiet_trans) (auto simp: quiet_def drop_session_def intro: evolves_update)

lemma quiet_active: "active_session now so c = (a, c') \<Longrightarrow> quiet c c'"
  by (auto simp: active_session_def split: option.splits prod.splits dest: quiet_on_sessionD)

lemma quiet_encode [simp]: "quiet c (snd (ws_encode P rnd t m c))"
  by (auto simp: ws_encode_def intro: quiet_on_session split: option.split)

lemma quiet_decode [simp]: "quiet c (snd (ws_decode P t f c))"
  by (auto simp: ws_decode_def intro: quiet_on_session split: option.split)

lemma quiet_sealed_frame [simp]: "quiet c (snd (sealed_frame P L rnd t ty d c))"
  by (auto simp: sealed_frame_def intro: quiet_on_session split: option.split)

lemma quiet_ping [simp]: "quiet c (snd (ping P L rnd t c))"
  by (simp add: ping_def)

lemma quiet_read_sealed: "read_sealed P t d r c = (a, c') \<Longrightarrow> quiet c c'"
  by (auto simp: read_sealed_def split: prod.splits dest: quiet_on_sessionD)

lemma quiet_pong [simp]: "quiet c (snd (pong P L rnd t f c))"
proof -
  have "quiet c c1" if "(case w_session (fst c) of
            Some r \<Rightarrow>
              if has_key (fr_payload f) ''ciphertext''
              then (case read_sealed P t (fr_payload f) r c of
                      (Inl e, c') \<Rightarrow> (PDict (fr_payload f), c') | (Inr v, c') \<Rightarrow> (v, c'))
              else (PDict (fr_payload f), c)
          | None \<Rightarrow> (PDict (fr_payload f), c)) = (data, c1)" for data c1
    using that by (auto split: option.splits if_splits prod.splits sum.splits dest: quiet_read_sealed)
  then show ?thesis
    unfolding pong_def Let_def by (auto split: prod.split pyval.split intro: quiet_trans)
qed

lemma quiet_close [simp]: "quiet c (snd (ws_close P L rnd t reason c))"
  by (auto simp: ws_close_def split: option.split prod.split sum.split dest: quiet_on_sessionD intro: quiet_drop)

lemma quiet_handle_close [simp]: "quiet c (snd (handle_close P L t f c))"
  by (auto simp: handle_close_def split: option.split prod.split sum.split pyval.split
      dest: quiet_read_sealed intro: quiet_drop)

lemma quiet_ready [simp]: "quiet c (snd (ws_is_ready now c))"
  by (auto simp: ws_is_ready_def intro: quiet_on_session split: option.split)

lemma quiet_start_resume [simp]: "quiet c (snd (start_resume P rnd t c))"
  by (auto simp: start_resume_def split: prod.split sum.split dest: quiet_active)

lemma quiet_complete_resume [simp]: "quiet c (snd (complete_resume P L now f c))"
  by (auto simp: complete_resume_def split: prod.split sum.split dest: quiet_active)

lemma config_start:
  assumes "conn_ok P L T c"
  shows "conn_ok P L T (snd (start_handshake P R uuid t c))"
proof -
  have "hs_initiator hs = Some i" if "initiate P R now uuid i rc cfg = Inr hs" for now i rc cfg hs
    using that by (auto simp: initiate_def res_Inr_iffs)
  with assms show ?thesis
    by (cases c) (fastforce simp: start_handshake_def conn_ok_def split: option.split sum.split)
qed

lemma complete_vouched:
  assumes "complete P L mk t1 t2 t3 ack rcard hs s = (Inr ses, hs', s')"
  obtains i where "hs_initiator hs = Some i" "hs_initiator hs' = Some i" "vouched P L i rcard ses" "s_state ses = ACTIVE"
proof -
  from assms obtain hello i sid x b s1 where
    h: "hs_hello hs = Some hello" "hs_initiator hs = Some i" "hs_session_id hs = Some sid" "hs_exchange hs = Some x"
    and v: "verify_ack_signature P L t1 ack rcard 30 = Inr b" "ack_matches ack sid i rcard = Inr ()"
    and f: "finish_complete P t3 ack rcard sid x i (hs_resp_card hs) (hs_config hs) = Inr ses"
    and hs': "hs' = hs\<lparr>hs_session := Some ses\<rparr>"
    by (auto simp: complete_def res_Inr_iffs split: option.splits sum.splits prod.splits)
  from f have "session_id ses = sid \<and> local_id ses = entity_id i \<and> remote_id ses = c_entity_id rcard \<and> s_state ses = ACTIVE"
    by (auto simp: finish_complete_def res_Inr_iffs session_new_def activate_def Let_def split: if_splits)
  with v have "vouched P L i rcard ses" "s_state ses = ACTIVE" unfolding vouched_def by blast+
  with h hs' that show ?thesis by simp
qed

lemma config_complete:
  assumes "conn_ok P L T c"
  shows "conn_ok P L T (snd (complete_handshake P L mk t f c))"
proof (cases c)
  case (Pair w h)
  show ?thesis
  proof (cases "\<exists>hs r pc. w_hs w = Some (hs, r) \<and> w_card w = Some pc \<and> fr_type f = HANDSHAKE_ACK")
    case False
    with Pair assms show ?thesis by (auto simp: complete_handshake_def split: option.split prod.split)
  next
    case True
    then obtain hs r pc where o: "w_hs w = Some (hs, r)" "w_card w = Some pc" "fr_type f = HANDSHAKE_ACK" by blast
    obtain res hs' s' where x: "complete P L mk (t 0) (t 1) (t 2) (fr_payload f) pc hs (w_nonces w) = (res, hs', s')"
      by (metis prod_cases3)
    show ?thesis
    proof (cases res)
      case (Inl e)
      have "hs' = hs" using x Inl by (auto simp: complete_def split: option.splits sum.splits prod.splits)
      with Pair assms o x Inl show ?thesis
        by (cases r) (auto simp: complete_handshake_def conn_ok_def established_def)
    next
      case (Inr ses)
      with x have c: "complete P L mk (t 0) (t 1) (t 2) (fr_payload f) pc hs (w_nonces w) = (Inr ses, hs', s')" by simp
      obtain i where i: "hs_initiator hs = Some i" "hs_initiator hs' = Some i" "vouched P L i pc ses" "s_state ses = ACTIVE"
        by (rule complete_vouched [OF c])
      have "i = w_identity w" using assms Pair o(1) i(1) by (auto simp: conn_ok_def)
      with Pair o c i show ?thesis
        by (simp add: complete_handshake_def conn_ok_def established_def)
    qed
  qed
qed

lemma respond_vouched:
  assumes "respond P L mk R t1 t2 t3 t4 r hello icard config s = (Inr hs, s')"
  obtains ses where "hs_session hs = Some ses" "hs_initiator hs = None" "vouched P L r icard ses" "s_state ses = ACTIVE"
proof -
  from assms obtain b v where v: "verify_hello_signature P L t1 hello icard r 30 = Inr (b, v)"
    and f: "finish_respond P R t3 t4 r hello icard (config_or config)
       (py_str L (dget_default hello ''session_id'' (PStr []))) v = Inr hs" by (rule respond_Inr)
  from f obtain secretA ack secretB epub kct sid final s0 where sid: "dget hello ''session_id'' = PStr sid"
    and n: "session_new P t4 sid (entity_id r) (c_entity_id icard) final False (Some (config_or config)) = Inr s0"
    and hs: "hs = handshake_init\<lparr>hs_config := Some (config_or config),
       hs_session_id := Some (py_str L (dget_default hello ''session_id'' (PStr []))), hs_ack := Some ack,
       hs_session := Some (s0\<lparr>s_state := ACTIVE\<rparr>)\<rparr>"
    by (rule finish_respond_Inr)
  from n have "session_id s0 = sid \<and> local_id s0 = entity_id r \<and> remote_id s0 = c_entity_id icard"
    by (auto simp: session_new_def Let_def res_Inr_iffs)
  with v sid have "vouched P L r icard (s0\<lparr>s_state := ACTIVE\<rparr>)" by (auto simp: vouched_def)
  with hs that show ?thesis by (simp add: handshake_init_def)
qed

lemma config_hello:
  assumes "conn_ok P L T c"
  shows "conn_ok P L T (snd (handle_hello P L mk chk R t f icard c))"
proof (cases c)
  case (Pair w h)
  obtain lr l' where lim: "check_limiter chk (t 0) (c_entity_id icard) (w_limiter w) = (lr, l')" by fastforce
  obtain res s' where x: "respond P L mk R (t 1) (t 2) (t 3) (t 4) (w_identity w) (fr_payload f) icard (w_config w)
      (w_nonces w) = (res, s')" by fastforce
  have keep: "conn_ok P L T (w, h)" using assms Pair by simp
  then have same: "conn_ok P L T (w\<lparr>w_limiter := l'\<rparr>, h)" "conn_ok P L T (w\<lparr>w_limiter := l', w_nonces := s'\<rparr>, h)"
    by (simp_all add: conn_ok_def)
  show ?thesis
  proof (cases "w_hs w = None \<and> fr_type f = HANDSHAKE_HELLO \<and> is_ok lr \<and> is_ok res")
    case False
    with Pair keep same lim x show ?thesis
      by (auto simp: handle_hello_def split: sum.split)
  next
    case True
    then obtain hs where r: "res = Inr hs" "w_hs w = None" by (auto simp: is_ok_iff)
    with x have rs: "respond P L mk R (t 1) (t 2) (t 3) (t 4) (w_identity w) (fr_payload f) icard (w_config w)
      (w_nonces w) = (Inr hs, s')" by simp
    obtain ses where "hs_session hs = Some ses" "hs_initiator hs = None" "vouched P L (w_identity w) icard ses"
      "s_state ses = ACTIVE" by (rule respond_vouched [OF rs])
    with Pair keep True r(2) lim rs show ?thesis
      by (auto simp: handle_hello_def conn_ok_def established_def nth_append is_ok_iff)
  qed
qed

lemma config_handle_complete:
  "conn_ok P L T c \<Longrightarrow> conn_ok P L T (snd (handle_complete f c))"
  by (cases c) (auto simp: handle_complete_def conn_ok_def split: option.split)

lemma config_resume:
  assumes "conn_ok P L T c" and "set_option given \<subseteq> T \<inter> {..< length (snd c)}"
  shows "conn_ok P L T (snd (handle_resume P L rnd t f given c))"
proof -
  obtain a c' where a: "active_session (t 0) (case given of None \<Rightarrow> w_session (fst c) | Some r \<Rightarrow> Some r) c = (a, c')"
    by (rule prod.exhaust)
  have ok: "conn_ok P L T c'" by (rule conn_ok_quiet [OF assms(1) quiet_active [OF a]])
  have w: "fst c' = fst c" and len: "length (snd c') = length (snd c)" using a
    by (auto simp: active_session_def on_session_def split: option.splits prod.splits)
  have "conn_ok P L T ((fst c')\<lparr>w_session := Some r\<rparr>, snd c')" if "a = Inr r" for r
  proof (cases given)
    case None
    with a that have "w_session (fst c) = Some r"
      by (auto simp: active_session_def split: option.splits prod.splits if_splits)
    with ok w show ?thesis by (cases c') (simp add: conn_ok_def)
  next
    case (Some r')
    with a that have "r' = r" by (auto simp: active_session_def split: prod.splits if_splits)
    with Some assms(2) ok w len show ?thesis by (cases c') (auto simp: conn_ok_def)
  qed
  with assms(1) ok a show ?thesis
    by (auto simp: handle_resume_def split: sum.split)
qed

lemma conn_ok_step:
  assumes "ws_step P L mk chk T c c'" and "conn_ok P L T c"
  shows "conn_ok P L T c'"
  using assms
proof (cases rule: ws_step.cases)
  case (step_resume given rnd t f)
  then show ?thesis using assms(2) by (auto intro!: config_resume)
next
  case (step_others h h' w)
  then show ?thesis using assms(2) by (auto intro: conn_ok_evolves)
qed (auto intro: config_start config_complete config_hello config_handle_complete conn_ok_quiet)

lemma conn_ok_reach: "ws_reach P L mk chk T c0 c \<Longrightarrow> conn_ok P L T c0 \<Longrightarrow> conn_ok P L T c"
  by (induction rule: ws_reach.induct) (auto intro: conn_ok_step)

section \<open>Lemmas: frames on the wire\<close>

definition frame_ok :: "frame \<Rightarrow> bool" where
  \<comment> \<open>objects with distinct keys, and no finite float, whose text is not modelled\<close>
  "frame_ok f \<longleftrightarrow> json_ok (PDict (fr_payload f))"

definition travels :: "pylib \<Rightarrow> frame \<Rightarrow> bool" where
  \<comment> \<open>the text of the frame is read back as the frame, by every receiver whose limit it respects\<close>
  "travels L f \<longleftrightarrow> (\<forall>now max_bytes. length (utf8 (frame_to_json L f)) \<le> max_bytes \<longrightarrow>
     frame_from_json now max_bytes (WireText (frame_to_json L f)) = Inr f \<and>
     frame_from_json now max_bytes (WireBytes (utf8 (frame_to_json L f))) = Inr f)"

lemma type_of_text [simp]: "type_of_text (PStr (type_text ty)) = Inr ty"
  by (cases ty) (simp_all add: type_of_text_def frame_types_def)

lemma frame_of_value [simp]: "frame_of_value now (frame_value f) = Inr f"
  by (simp add: frame_of_value_def frame_value_def has_key_def dget_def dget_default_def)

lemma frame_ok_travels:
  assumes "frame_ok f"
  shows "travels L f"
proof -
  have v: "json_ok (frame_value f)"
    using assms by (simp add: frame_ok_def frame_value_def)
  have "loads_bytes (utf8 (frame_to_json L f)) = Inr (frame_value f)"
    unfolding frame_to_json_def by (rule loads_bytes_dumps [OF v])
  with length_utf8 [of "frame_to_json L f"] show ?thesis
    by (auto simp: travels_def frame_from_json_def frame_of_raw_def)
qed

lemma frame_too_large:
  "max_bytes < length s \<Longrightarrow> frame_from_json now max_bytes (WireText s) = Inl FrameTooLargeError"
  by (simp add: frame_from_json_def)

lemma encrypt_frame_ok: "session_encrypt P rnd t1 t2 m s = (Inr d, s') \<Longrightarrow> json_ok (PDict d)"
  by (auto simp: session_encrypt_def encrypt_finish_def split: sum.splits prod.splits)

lemma frame_build_sel [simp]:
  "fr_type (frame_build ty d t) = ty" "fr_payload (frame_build ty d t) = d"
  by (simp_all add: frame_build_def)

lemma encode_travels:
  assumes "ws_encode P rnd t m c = (Inr f, c')"
  shows "fr_type f = DATA \<and> travels L f"
proof -
  obtain r where r: "w_session (fst c) = Some r"
    using assms by (auto simp: ws_encode_def split: option.splits)
  obtain e s' where e: "session_encrypt P rnd (t 0) (t 1) m (snd c ! r) = (e, s')" by fastforce
  with r assms obtain d where "e = Inr d" "f = frame_build DATA d (t 2)"
    by (auto simp: ws_encode_def then_frame_def on_session_def res_Inr_iffs simp del: One_nat_def)
  with encrypt_frame_ok [of P rnd "t 0" "t 1" m "snd c ! r" d s'] e show ?thesis
    by (simp add: frame_ok_travels frame_ok_def)
qed

section \<open>Lemmas: an honest connection\<close>

lemma hello_frame_ok:
  assumes "initiate P R t sid i rcard config = Inr hs" and "hello_message hs = Inr d"
    and "signature_laws P" and "is_keypair P (keypair i) pks"
  shows "json_ok (PDict d)"
proof -
  from assms(1,2) obtain x where "make_hello P R t i rcard sid = Inr (d, x)"
    by (auto simp: initiate_def hello_message_def res_Inr_iffs)
  then show ?thesis
  proof (rule make_hello_Inr)
    fix key epub kct b sigs
    assume s: "hybrid_sign P (h_sig R) b (keypair i) = Inr sigs"
      and d: "d = [(''type'', PStr ''UXSP-HELLO''), (''supported_versions'', PList (map PStr SUPPORTED_VERSIONS)),
       (''session_id'', PStr sid), (''initiator_id'', PStr (entity_id i)),
       (''responder_id'', PStr (c_entity_id rcard)), (''timestamp'', PInt (trunc t)),
       (''ephemeral_pub'', PStr (hex epub)), (''kem_ciphertext'', PStr (hex kct)),
       (''classical_sig'', dget sigs ''classical_sig''), (''pqc_sig'', dget sigs ''pqc_sig'')]"
    obtain c q where "sigs = [(''classical_sig'', PStr (hex c)), (''pqc_sig'', PStr (hex q))]"
      using sign_verify [OF assms(3,4), of "h_sig R" b] s by auto
    then show ?thesis by (simp add: d dget_def SUPPORTED_VERSIONS_def)
  qed
qed

lemma ack_frame_ok:
  assumes "respond P L mk R t1 t2 t3 t4 r hello icard config s = (Inr hr, s')" and "ack_message hr = Inr d"
    and "signature_laws P" and "is_keypair P (keypair r) pks"
  shows "json_ok (PDict d)"
proof -
  from assms(1) obtain b v where "finish_respond P R t3 t4 r hello icard (config_or config)
       (py_str L (dget_default hello ''session_id'' (PStr []))) v = Inr hr" by (rule respond_Inr)
  then obtain secretA ack x where ma: "make_ack P R t3 r (dget hello ''session_id'') (c_entity_id icard) secretA icard v = Inr (ack, x)"
    and "hs_ack hr = Some ack" by (rule finish_respond_Inr) simp
  with assms(2) have "make_ack P R t3 r (dget hello ''session_id'') (c_entity_id icard) secretA icard v = Inr (d, x)"
    by (simp add: ack_message_def)
  then show ?thesis
  proof (rule make_ack_Inr)
    fix key epub kct b sigs sid
    assume s: "hybrid_sign P (h_sig R) b (keypair r) = Inr sigs"
      and d: "d = [(''type'', PStr ''UXSP-ACK''), (''version'', PStr v), (''session_id'', PStr sid),
            (''responder_id'', PStr (entity_id r)), (''initiator_id'', PStr (c_entity_id icard)),
            (''timestamp'', PInt (trunc t3)), (''proof'', PStr (proof_of P secretA sid)),
            (''ephemeral_pub'', PStr (hex epub)), (''kem_ciphertext'', PStr (hex kct)),
            (''classical_sig'', dget sigs ''classical_sig''), (''pqc_sig'', dget sigs ''pqc_sig'')]"
    obtain c q where "sigs = [(''classical_sig'', PStr (hex c)), (''pqc_sig'', PStr (hex q))]"
      using sign_verify [OF assms(3,4), of "h_sig R" b] s by auto
    then show ?thesis by (simp add: d dget_def)
  qed
qed

lemma deliver_one:
  assumes "aead_laws P" and "linked x y" "linked y x" and "s_state x = ACTIVE" "s_state y = ACTIVE"
    and "total x < max_messages (s_config x)" "total y < max_messages (s_config y)"
    and "length rnd = NONCE_SIZE" and "timely x t1" "timely x t2" "timely y t3" "timely y t4"
  obtains d x' y' where "session_encrypt P rnd t1 t2 m x = (Inr d, x')" "session_decrypt P t3 t4 d y = (Inr m, y')"
proof -
  have "ready (Suc 0) x" "ready (Suc 0) y" "delivery_ok x y (rnd, t1, t2, t3, t4, m)"
    using assms by (simp_all add: ready_def)
  then obtain x' y' where "deliver P (rnd, t1, t2, t3, t4, m) x y = (Inr m, x', y')"
    by (rule deliver_linked [OF assms(1-3)]) simp
  then show ?thesis
    by (auto split: prod.splits sum.splits intro: that)
qed

lemma honest_connection:
  assumes "exchange_laws P" and "hkdf_laws P" and "signature_laws P" and "size_laws P"
    and "is_keypair P (keypair i) (i_pub i)" and "is_keypair P (keypair r) (i_pub r)"
    and "card_of i icard" and "card_of r rcard"
    and "length (h_eph R0) = 32" and "length (h_eph R1) = 32"
    and "uuid_ok sid" and "short sid" and "short (entity_id i)" and "short (entity_id r)"
    and "\<bar>trunc (ti 0)\<bar> < 10 ^ 18" and "\<bar>trunc (tr 3)\<bar> < 10 ^ 18"
    and "\<bar>trunc (tr 1) - trunc (ti 0)\<bar> \<le> 30" and "\<bar>trunc (tc 0) - trunc (tr 3)\<bar> \<le> 30"
    and "check_limiter chk (tr 0) (entity_id i) lmt = (Inr (), lmt')"
    and "mk (tr 2) (''hello:'' @ sid) 90 nr = (Inr True, nr')" and "mk' (tc 1) (''ack:'' @ sid) 90 ni = (Inr True, ni')"
  shows "\<exists>f1 c1 f2 d1 f3 c2 d2 x y.
    start_handshake P R0 sid ti (as_initiator i rcard config ni, hi) = (Inr f1, c1) \<and>
    handle_hello P L mk chk R1 tr f1 icard (as_responder r lmt config nr, hr) = (Inr f2, d1) \<and>
    complete_handshake P L mk' tc f2 c1 = (Inr f3, c2) \<and> handle_complete f3 d1 = (Inr (), d2) \<and>
    travels L f1 \<and> travels L f2 \<and> travels L f3 \<and>
    w_session (fst c2) = Some (length hi) \<and> snd c2 = hi @ [x] \<and>
    w_session (fst d2) = Some (length hr) \<and> snd d2 = hr @ [y] \<and> linked x y \<and> linked y x \<and>
    s_state x = ACTIVE \<and> s_state y = ACTIVE \<and> session_id x = sid \<and> total x = 0 \<and> total y = 0 \<and>
    s_config x = config_or config \<and> s_config y = config_or config \<and> s_created_at x = tc 2 \<and> s_created_at y = tr 4"
proof -
  obtain hs hello where h: "initiate P R0 (ti 0) sid i rcard config = Inr hs" "hs_hello hs = Some hello"
    using initiate_honest [where t = "ti 0", OF assms(1-6,8,9,12-15)] by blast
  obtain hr' ack where r: "respond P L mk R1 (tr 1) (tr 2) (tr 3) (tr 4) r hello icard config nr = (Inr hr', nr')"
      "hs_ack hr' = Some ack"
    using respond_honest [where P = P and i = i and r = r and mk = mk and ?t4.0 = "tr 4" and ?t2.0 = "tr 2",
      OF assms(1-10) h assms(11,17,16,12-14,20)] by blast
  obtain x y hs' where o: "complete P L mk' (tc 0) (tc 1) (tc 2) ack rcard hs ni = (Inr x, hs', ni')"
    "hs_session hr' = Some y" "linked x y" "linked y x" "s_state x = ACTIVE" "s_state y = ACTIVE"
    "session_id x = sid" "total x = 0" "total y = 0" "s_config x = config_or config" "s_config y = config_or config"
    "s_created_at x = tc 2" "s_created_at y = tr 4"
    using honest_agreement [where mk = mk and mk' = mk' and ?u2.0 = "tc 1" and ?s2.0 = ni and ?u3.0 = "tc 2",
      OF assms(1-3,5-10) h r assms(21,18)] by auto
  have e: "c_entity_id icard = entity_id i" using assms(7) by (simp add: card_of_def)
  have sy: "session_id y = sid" using o(3,7) by (simp add: linked_def)
  have hm: "hello_message hs = Inr hello" "ack_message hr' = Inr ack"
    using h(2) r(2) by (simp_all add: hello_message_def ack_message_def)
  have tv: "travels L (frame_build HANDSHAKE_HELLO hello (ti 1))" "travels L (frame_build HANDSHAKE_ACK ack (tr 5))"
    "travels L (frame_build HANDSHAKE_COMPLETE [(''session_id'', PStr sid)] (tc 3))"
    using hello_frame_ok [OF h(1) hm(1) assms(3,5)] ack_frame_ok [OF r(1) hm(2) assms(3,6)]
    by (auto intro!: frame_ok_travels simp: frame_ok_def simp del: json_ok.simps) (simp add: frame_ok_def)
  have "start_handshake P R0 sid ti (as_initiator i rcard config ni, hi) = (Inr (frame_build HANDSHAKE_HELLO hello (ti 1)),
      (as_initiator i rcard config ni)\<lparr>w_hs := Some (hs, None)\<rparr>, hi)"
    using h(1) hm(1) by (simp add: start_handshake_def as_initiator_def then_frame_def)
  moreover have "handle_hello P L mk chk R1 tr (frame_build HANDSHAKE_HELLO hello (ti 1)) icard
      (as_responder r lmt config nr, hr) = (Inr (frame_build HANDSHAKE_ACK ack (tr 5)),
      (as_responder r lmt config nr)\<lparr>w_limiter := lmt', w_nonces := nr', w_hs := Some (hr', Some (length hr)),
         w_card := Some icard\<rparr>, hr @ [y])"
    using r(1) o(2) hm(2) assms(19) e by (simp add: handle_hello_def as_responder_def then_frame_def)
  moreover have "complete_handshake P L mk' tc (frame_build HANDSHAKE_ACK ack (tr 5))
      ((as_initiator i rcard config ni)\<lparr>w_hs := Some (hs, None)\<rparr>, hi) =
      (Inr (frame_build HANDSHAKE_COMPLETE [(''session_id'', PStr sid)] (tc 3)),
       (as_initiator i rcard config ni)\<lparr>w_hs := Some (hs', Some (length hi)), w_session := Some (length hi), w_nonces := ni'\<rparr>,
       hi @ [x])"
    using o(1,7) by (simp add: complete_handshake_def as_initiator_def)
  moreover have "handle_complete (frame_build HANDSHAKE_COMPLETE [(''session_id'', PStr sid)] (tc 3))
      ((as_responder r lmt config nr)\<lparr>w_limiter := lmt', w_nonces := nr', w_hs := Some (hr', Some (length hr)),
         w_card := Some icard\<rparr>, hr @ [y]) =
      (Inr (), (as_responder r lmt config nr)\<lparr>w_limiter := lmt', w_nonces := nr', w_hs := Some (hr', Some (length hr)),
         w_card := Some icard, w_session := Some (length hr)\<rparr>, hr @ [y])"
    using sy by (simp add: handle_complete_def as_responder_def dget_def)
  ultimately show ?thesis
    using tv o by (intro exI conjI) (assumption | simp)+
qed

lemma step_identity: "ws_step P L mk chk T c c' \<Longrightarrow> w_identity (fst c') = w_identity (fst c)"
proof -
  have q: "quiet a b \<Longrightarrow> w_identity (fst b) = w_identity (fst a)" for a b :: "('s, 'l) conn"
    by (auto simp: quiet_def)
  have r: "w_identity (fst (snd (handle_resume P L rnd t f given c))) = w_identity (fst c)" for rnd t f given and c :: "('s, 'l) conn"
    by (auto simp: handle_resume_def split: prod.split sum.split dest!: quiet_active q)
  show "ws_step P L mk chk T c c' \<Longrightarrow> w_identity (fst c') = w_identity (fst c)"
    by (induction rule: ws_step.induct)
      (auto simp: q r, auto simp: start_handshake_def complete_handshake_def handle_hello_def handle_complete_def
         split: option.split prod.split sum.split)
qed

lemma reach_identity: "ws_reach P L mk chk T c0 c \<Longrightarrow> w_identity (fst c) = w_identity (fst c0)"
  by (induction rule: ws_reach.induct) (simp_all add: step_identity)

text \<open>Every session keeps its place and goes forward.\<close>

lemma quiet_evolves: "quiet c c' \<Longrightarrow> evolves (snd c) (snd c')"
  by (simp add: quiet_def)

lemma step_evolves:
  assumes "ws_step P L mk chk T c c'"
  shows "evolves (snd c) (snd c')"
  using assms
proof (cases rule: ws_step.cases)
  case (step_resume given rnd t f)
  then show ?thesis
    by (auto simp: handle_resume_def split: prod.split sum.split dest!: quiet_active simp: quiet_def)
qed (auto simp: start_handshake_def complete_handshake_def handle_hello_def handle_complete_def
      split: option.split prod.split sum.split
      intro: quiet_evolves)

lemma reach_evolves: "ws_reach P L mk chk T c0 c \<Longrightarrow> evolves (snd c0) (snd c)"
  by (induction rule: ws_reach.induct) (auto intro: evolves_trans step_evolves)

lemma revoked_unusable:
  assumes "w_session (fst c) = Some r" and "s_state (snd c ! r) = REVOKED"
  shows "\<not> is_ok (fst (ws_encode P rnd t m c)) \<and> \<not> is_ok (fst (ws_decode P t f c))"
proof -
  let ?s = "snd c ! r"
  have "check_active u ?s = (Inl SessionRevokedError, ?s)" for u
    using assms(2) by (simp add: check_active_def evaluate_expiry_not_active)
  then have "session_encrypt P rnd (t 0) (t 1) m ?s = (Inl SessionRevokedError, ?s)"
    "\<not> is_ok (fst (session_decrypt P (t 0) (t 1) (fr_payload f) ?s))"
    by (auto simp: session_encrypt_def encrypt_reserve_def session_decrypt_def decrypt_locked_def split: sum.split prod.split)
  then show ?thesis
    using assms(1) by (auto simp: ws_encode_def ws_decode_def then_frame_def on_session_def split_beta is_ok_iff)
qed

section \<open>A concrete connection\<close>

abbreviation no_limit :: "time \<Rightarrow> string \<Rightarrow> unit \<Rightarrow> unit res \<times> unit" where
  "no_limit now eid l \<equiv> (Inr (), l)"

definition demo_clock :: "time \<Rightarrow> nat \<Rightarrow> time" where
  "demo_clock now k = now"

lemma demo_connection:
  "\<exists>f1 c1 f2 d1 f3 c2 d2 x y.
    start_handshake demo_prims (demo_hs_random 3) demo_uuid (demo_clock 100)
      (as_initiator demo_identity demo_responder_card None () :: (unit, unit) ws, []) = (Inr f1, c1) \<and>
    handle_hello demo_prims demo_lib always_fresh no_limit (demo_hs_random 4) (demo_clock 101) f1 demo_card
      (as_responder demo_responder None None (), []) = (Inr f2, d1) \<and>
    complete_handshake demo_prims demo_lib always_fresh (demo_clock 102) f2 c1 = (Inr f3, c2) \<and>
    handle_complete f3 d1 = (Inr (), d2) \<and>
    travels demo_lib f1 \<and> travels demo_lib f2 \<and> travels demo_lib f3 \<and>
    w_session (fst c2) = Some 0 \<and> snd c2 = [x] \<and>
    w_session (fst d2) = Some 0 \<and> snd d2 = [y] \<and> linked x y \<and> linked y x \<and>
    s_state x = ACTIVE \<and> s_state y = ACTIVE \<and> session_id x = demo_uuid \<and> total x = 0 \<and> total y = 0 \<and>
    s_config x = default_config \<and> s_config y = default_config \<and> s_created_at x = 102 \<and> s_created_at y = 101"
proof -
  have k: "is_keypair demo_prims (keypair demo_identity) (i_pub demo_identity)"
    "is_keypair demo_prims (keypair demo_responder) (i_pub demo_responder)"
    by (simp_all add: demo_identity_def demo_responder_def demo_recipient_def demo_is_keypair)
  have n: "length (h_eph (demo_hs_random b)) = 32" for b by (simp add: demo_hs_random_def)
  have sh: "short demo_uuid" "short (entity_id demo_identity)" "short (entity_id demo_responder)"
    by (simp_all add: short_def demo_uuid_def demo_identity_def demo_responder_def demo_recipient_def)
  have t: "\<bar>trunc (demo_clock 100 0)\<bar> < 10 ^ 18" "\<bar>trunc (demo_clock 101 3)\<bar> < 10 ^ 18"
    "\<bar>trunc (demo_clock 101 1) - trunc (demo_clock 100 0)\<bar> \<le> 30"
    "\<bar>trunc (demo_clock 102 0) - trunc (demo_clock 101 3)\<bar> \<le> 30"
    by (simp_all add: trunc_def demo_clock_def)
  have l: "check_limiter no_limit (demo_clock 101 0) (entity_id demo_identity) None = (Inr (), None)"
    by (simp add: check_limiter_def)
  have f: "always_fresh (demo_clock 101 2) (''hello:'' @ demo_uuid) 90 () = (Inr True, ())"
    "always_fresh (demo_clock 102 1) (''ack:'' @ demo_uuid) 90 () = (Inr True, ())"
    by (simp_all add: always_fresh_def)
  from honest_connection [where ti = "demo_clock 100" and tr = "demo_clock 101" and tc = "demo_clock 102" and
      chk = no_limit and mk = always_fresh and mk' = always_fresh and sid = demo_uuid and
      config = None and L = demo_lib and hi = "[]" and hr = "[]" and ?R0.0 = "demo_hs_random 3" and ?R1.0 = "demo_hs_random 4",
      OF demo_exchange demo_hkdf demo_signature demo_sizes k demo_cards n n demo_uuid_ok sh t l f]
  show ?thesis by (simp only: demo_clock_def config_or_def option.case list.size append_Nil)
qed

section \<open>Properties\<close>

text \<open>C11: A WebSocket connection works: between two parties with generated keypairs who hold each
  other's cards, with clocks within 30 seconds, unused nonces and a limiter that admits the
  initiator, \<open>start_handshake\<close>, \<open>handle_hello\<close>, \<open>complete_handshake\<close> and \<open>handle_complete\<close> succeed in
  turn, each of the frames survives its way over the wire as JSON text, both sides hold active
  sessions that belong together, and a message that one side encodes travels and is decoded by the
  other.\<close>

theorem websocket_connects:
  assumes "exchange_laws P" and "hkdf_laws P" and "signature_laws P" and "size_laws P" and "aead_laws P"
    and "is_keypair P (keypair i) (i_pub i)" and "is_keypair P (keypair r) (i_pub r)"
    and "card_of i icard" and "card_of r rcard"
    and "length (h_eph R0) = 32" and "length (h_eph R1) = 32"
    and "uuid_ok sid" and "short sid" and "short (entity_id i)" and "short (entity_id r)"
    and "\<bar>trunc (ti 0)\<bar> < 10 ^ 18" and "\<bar>trunc (tr 3)\<bar> < 10 ^ 18"
    and "\<bar>trunc (tr 1) - trunc (ti 0)\<bar> \<le> 30" and "\<bar>trunc (tc 0) - trunc (tr 3)\<bar> \<le> 30"
    and "check_limiter chk (tr 0) (entity_id i) lmt = (Inr (), lmt')"
    and "mk (tr 2) (''hello:'' @ sid) 90 nr = (Inr True, nr')" and "mk' (tc 1) (''ack:'' @ sid) 90 ni = (Inr True, ni')"
    and "length rnd = NONCE_SIZE" and "0 < max_messages (config_or config)"
    and "te 0 - tc 2 \<le> of_int (max_lifetime_seconds (config_or config))"
    and "te 1 - tc 2 \<le> of_int (max_lifetime_seconds (config_or config))"
    and "td 0 - tr 4 \<le> of_int (max_lifetime_seconds (config_or config))"
    and "td 1 - tr 4 \<le> of_int (max_lifetime_seconds (config_or config))"
  shows "\<exists>f1 c1 f2 d1 f3 c2 d2 f4 c3 d3 x y.
    start_handshake P R0 sid ti (as_initiator i rcard config ni :: ('s, 'k) ws, hi) = (Inr f1, c1) \<and> travels L f1 \<and>
    handle_hello P L mk chk R1 tr f1 icard (as_responder r lmt config nr, hr) = (Inr f2, d1) \<and> travels L f2 \<and>
    complete_handshake P L mk' tc f2 c1 = (Inr f3, c2) \<and> travels L f3 \<and> handle_complete f3 d1 = (Inr (), d2) \<and>
    ws_session c2 = Inr x \<and> ws_session d2 = Inr y \<and> linked (snd c2 ! x) (snd d2 ! y) \<and> linked (snd d2 ! y) (snd c2 ! x) \<and>
    ws_encode P rnd te m c2 = (Inr f4, c3) \<and> travels L f4 \<and> ws_decode P td f4 d2 = (Inr m, d3)"
proof -
  obtain f1 c1 f2 d1 f3 c2 d2 x y where
    h: "start_handshake P R0 sid ti (as_initiator i rcard config ni :: ('s, 'k) ws, hi) = (Inr f1, c1)"
    "handle_hello P L mk chk R1 tr f1 icard (as_responder r lmt config nr, hr) = (Inr f2, d1)"
    "complete_handshake P L mk' tc f2 c1 = (Inr f3, c2)" "handle_complete f3 d1 = (Inr (), d2)"
    "travels L f1" "travels L f2" "travels L f3"
    and s: "w_session (fst c2) = Some (length hi)" "snd c2 = hi @ [x]" "w_session (fst d2) = Some (length hr)"
    "snd d2 = hr @ [y]" "linked x y" "linked y x" "s_state x = ACTIVE" "s_state y = ACTIVE" "total x = 0" "total y = 0"
    "s_config x = config_or config" "s_config y = config_or config" "s_created_at x = tc 2" "s_created_at y = tr 4"
    using honest_connection [where ti = ti and tr = tr and tc = tc and chk = chk and mk = mk and mk' = mk' and sid = sid
      and config = config and L = L and hi = hi and hr = hr, OF assms(1-4,6-22)] by blast
  obtain d x' y' where e: "session_encrypt P rnd (te 0) (te 1) m x = (Inr d, x')"
    "session_decrypt P (td 0) (td 1) d y = (Inr m, y')"
    using s assms(5,23-28)
    by (auto intro: deliver_one [of P x y rnd "te 0" "te 1" "td 0" "td 1" m] simp: timely_def)
  have en: "ws_encode P rnd te m c2 = (Inr (frame_build DATA d (te 2)), fst c2, hi @ [x'])"
    using e(1) s by (simp add: ws_encode_def then_frame_def on_session_def)
  moreover have "ws_decode P td (frame_build DATA d (te 2)) d2 = (Inr m, fst d2, hr @ [y'])"
    using e(2) s by (simp add: ws_decode_def on_session_def)
  moreover have "ws_session c2 = Inr (length hi)" "ws_session d2 = Inr (length hr)"
    using s by (simp_all add: ws_session_def)
  moreover have "linked (snd c2 ! length hi) (snd d2 ! length hr)" "linked (snd d2 ! length hr) (snd c2 ! length hi)"
    using s by simp_all
  ultimately show ?thesis
    using h encode_travels [OF en, of L, THEN conjunct2] by (intro exI conjI) assumption+
qed

theorem websocket_connects_witness:
  "\<exists>f1 c1 f2 d1 f3 c2 d2 f4 c3 d3.
    start_handshake demo_prims (demo_hs_random 3) demo_uuid (demo_clock 100)
      (as_initiator demo_identity demo_responder_card None () :: (unit, unit) ws, []) = (Inr f1, c1) \<and>
    handle_hello demo_prims demo_lib always_fresh no_limit (demo_hs_random 4) (demo_clock 101) f1 demo_card
      (as_responder demo_responder None None (), []) = (Inr f2, d1) \<and>
    complete_handshake demo_prims demo_lib always_fresh (demo_clock 102) f2 c1 = (Inr f3, c2) \<and>
    handle_complete f3 d1 = (Inr (), d2) \<and>
    ws_encode demo_prims (replicate 12 7) (demo_clock 103) [104, 105] c2 = (Inr f4, c3) \<and>
    ws_decode demo_prims (demo_clock 104) f4 d2 = (Inr [104, 105], d3)"
proof -
  have k: "is_keypair demo_prims (keypair demo_identity) (i_pub demo_identity)"
    "is_keypair demo_prims (keypair demo_responder) (i_pub demo_responder)"
    by (simp_all add: demo_identity_def demo_responder_def demo_recipient_def demo_is_keypair)
  have n: "length (h_eph (demo_hs_random b)) = 32" for b by (simp add: demo_hs_random_def)
  have sh: "short demo_uuid" "short (entity_id demo_identity)" "short (entity_id demo_responder)"
    by (simp_all add: short_def demo_uuid_def demo_identity_def demo_responder_def demo_recipient_def)
  have t: "\<bar>trunc (demo_clock 100 0)\<bar> < 10 ^ 18" "\<bar>trunc (demo_clock 101 3)\<bar> < 10 ^ 18"
    "\<bar>trunc (demo_clock 101 1) - trunc (demo_clock 100 0)\<bar> \<le> 30"
    "\<bar>trunc (demo_clock 102 0) - trunc (demo_clock 101 3)\<bar> \<le> 30"
    by (simp_all add: trunc_def demo_clock_def)
  have l: "check_limiter no_limit (demo_clock 101 0) (entity_id demo_identity) None = (Inr (), None)"
    by (simp add: check_limiter_def)
  have f: "always_fresh (demo_clock 101 2) (''hello:'' @ demo_uuid) 90 () = (Inr True, ())"
    "always_fresh (demo_clock 102 1) (''ack:'' @ demo_uuid) 90 () = (Inr True, ())"
    by (simp_all add: always_fresh_def)
  have d: "length (replicate 12 (7::8 word)) = NONCE_SIZE" "0 < max_messages (config_or None)"
    "demo_clock 103 0 - demo_clock 102 2 \<le> of_int (max_lifetime_seconds (config_or None))"
    "demo_clock 103 1 - demo_clock 102 2 \<le> of_int (max_lifetime_seconds (config_or None))"
    "demo_clock 104 0 - demo_clock 101 4 \<le> of_int (max_lifetime_seconds (config_or None))"
    "demo_clock 104 1 - demo_clock 101 4 \<le> of_int (max_lifetime_seconds (config_or None))"
    by (simp_all add: NONCE_SIZE_def config_or_def default_config_def demo_clock_def)
  show ?thesis
    using websocket_connects [where ti = "demo_clock 100" and tr = "demo_clock 101" and tc = "demo_clock 102" and
      chk = no_limit and mk = always_fresh and mk' = always_fresh and ?R0.0 = "demo_hs_random 3" and
      ?R1.0 = "demo_hs_random 4" and te = "demo_clock 103" and td = "demo_clock 104" and
      config = None and L = demo_lib and hi = "[]" and hr = "[]" and m = "[104, 105]",
      OF demo_exchange demo_hkdf demo_signature demo_sizes demo_aead k demo_cards n n demo_uuid_ok sh t l f d]
    by blast
qed

text \<open>C12: Nobody gets an established session without a signature: in every state that a connection
  object can reach, whatever frames arrive in whatever order, its session is one that the
  application handed over for resumption, or the party whose card the connection holds vouched for
  it: a HELLO or ACK with this session's id, from that party to this entity, whose signatures
  verified. The session then names the two parties and is past activation.\<close>

theorem session_is_vouched_for:
  assumes "ws_reach P L mk chk T (w0, h0) (w, h)" and "w_session w0 = None" and "w_hs w0 = None"
    and "ws_session (w, h) = Inr r"
  shows "r < length h \<and> w_identity w = w_identity w0 \<and>
    (r \<in> T \<or> (\<exists>pc. w_card w = Some pc \<and> vouched P L (w_identity w0) pc (h ! r)) \<and> ACTIVE \<le> s_state (h ! r))"
proof -
  have "conn_ok P L T (w0, h0)" using assms(2,3) by (simp add: conn_ok_def)
  then have "conn_ok P L T (w, h)" by (rule conn_ok_reach [OF assms(1)])
  moreover have "w_session w = Some r" using assms(4) by (simp add: ws_session_def split: option.splits)
  ultimately show ?thesis
    using reach_identity [OF assms(1)] by (auto simp: conn_ok_def established_def)
qed

theorem session_is_vouched_for_witness:
  "\<exists>w h. ws_reach demo_prims demo_lib always_fresh no_limit {}
      (as_responder demo_responder None None (), []) (w, h) \<and> ws_session (w, h) = Inr 0 \<and>
     (\<exists>pc. w_card w = Some pc \<and> vouched demo_prims demo_lib demo_responder pc (h ! 0))"
proof -
  obtain f1 f2 d1 f3 d2 y where
    h: "handle_hello demo_prims demo_lib always_fresh no_limit (demo_hs_random 4) (demo_clock 101) f1 demo_card
        (as_responder demo_responder None None (), []) = (Inr f2, d1)"
      "handle_complete f3 d1 = (Inr (), d2)" "w_session (fst d2) = Some 0"
    using demo_connection by blast
  have "ws_reach demo_prims demo_lib always_fresh no_limit {} (as_responder demo_responder None None (), []) d1"
    using step_hello [of demo_prims demo_lib always_fresh no_limit "{}" "(as_responder demo_responder None None (), [])"
        "demo_hs_random 4" "demo_clock 101" f1 demo_card] h(1) by (auto intro: reach_step reach_init)
  then have "ws_reach demo_prims demo_lib always_fresh no_limit {} (as_responder demo_responder None None (), []) d2"
    using step_handle_complete [of demo_prims demo_lib always_fresh no_limit "{}" d1 f3] h(2)
    by (auto intro: reach_step)
  then have r: "ws_reach demo_prims demo_lib always_fresh no_limit {} (as_responder demo_responder None None (), [])
      (fst d2, snd d2)" and s: "ws_session (fst d2, snd d2) = Inr 0"
    using h(3) by (simp_all add: ws_session_def)
  have i: "w_session (as_responder demo_responder None None ()) = None" "w_hs (as_responder demo_responder None None ()) = None"
    "w_identity (as_responder demo_responder None None ()) = demo_responder"
    by (simp_all add: as_responder_def)
  show ?thesis
    using session_is_vouched_for [OF r i(1,2) s] r s unfolding i(3)
    by (intro exI [of _ "fst d2"] exI [of _ "snd d2"]) blast
qed

lemma dropped_stays_revoked:
  assumes "r < length (snd c1)" and "ws_reach P L mk chk T (drop_session r c1) c'"
  shows "s_state (snd c' ! r) = REVOKED"
proof -
  let ?c = "drop_session r c1"
  have "s_state (snd ?c ! r) = REVOKED" "r < length (snd ?c)" using assms(1) by (simp_all add: drop_session_def)
  moreover have "evolves (snd ?c) (snd c')" by (rule reach_evolves [OF assms(2)])
  ultimately show ?thesis
    by (auto simp: evolves_def same_session_def dest!: spec [of _ r] intro: antisym)
qed

lemma handle_close_drops:
  assumes "w_session (fst c) = Some r" and "fr_type f = CLOSE"
  obtains c1 where "snd (handle_close P L t f c) = drop_session r c1" and "length (snd c1) = length (snd c)"
    and "is_ok (fst (handle_close P L t f c))"
proof -
  obtain a c1 where x: "read_sealed P t (fr_payload f) r c = (a, c1)" by (rule prod.exhaust)
  then have "length (snd c1) = length (snd c)"
    by (auto simp: read_sealed_def on_session_def split: prod.splits)
  moreover have "snd (handle_close P L t f c) = drop_session r c1" "is_ok (fst (handle_close P L t f c))"
    using assms x by (auto simp: handle_close_def is_ok_iff split: sum.split pyval.split)
  ultimately show ?thesis using that by blast
qed

lemma ws_close_drops:
  assumes "w_session (fst c) = Some r" and "ws_close P L rnd t reason c = (Inr fr, c0)"
  obtains c1 where "c0 = drop_session r c1" and "length (snd c1) = length (snd c)" and "fr_type fr = CLOSE"
proof -
  let ?m = "utf8 (dumps (float_repr L) False (PDict [(''reason'', PStr reason)]))"
  obtain a c1 where x: "on_session r (session_encrypt P rnd (t 0) (t 1) ?m) c = (a, c1)" by (rule prod.exhaust)
  then have "length (snd c1) = length (snd c)" by (auto simp: on_session_def split: prod.splits)
  moreover have "c0 = drop_session r c1" "fr_type fr = CLOSE"
    using assms x by (auto simp: ws_close_def then_frame_def split: sum.splits)
  ultimately show ?thesis using that by blast
qed

text \<open>C13: Closing is final, on the side that closes and on the side that is told: after a \<open>close\<close> that
  returned its frame, and after \<open>handle_close\<close> of any CLOSE frame, be it authentic or forged (it never
  raises), the connection has no session and the session it had is revoked; in every later state of
  the connection and of any other holder of the session it is still revoked, and a connection that
  has it again (by a repeated COMPLETE, or handed over for resumption) neither encodes nor decodes
  anything with it. A \<open>close\<close> that raises, as it does when the session has expired, changes nothing
  of the connection but the state of the session itself: it stays attached.\<close>

theorem close_is_final:
  assumes "w_session (fst c) = Some r" and "r < length (snd c)"
    and "(fr_type f = CLOSE \<and> c0 = snd (handle_close P L t f c)) \<or>
      (ws_close P L rnd t reason c = (Inr fr, c0) \<and> f = fr)"
    and "ws_reach P L mk chk T c0 c'"
  shows "fr_type f = CLOSE \<and> is_ok (fst (handle_close P L t f c)) \<and> w_session (fst c0) = None \<and>
    s_state (snd c0 ! r) = REVOKED \<and> s_state (snd c' ! r) = REVOKED \<and>
    (w_session (fst c') = Some r \<longrightarrow>
      \<not> is_ok (fst (ws_encode P rnd' u m c')) \<and> \<not> is_ok (fst (ws_decode P u g c'))) \<and>
    (\<forall>e c2. ws_close P L rnd' u reason' c = (Inl e, c2) \<longrightarrow> fst c2 = fst c)"
proof -
  have "\<exists>c1. c0 = drop_session r c1 \<and> length (snd c1) = length (snd c) \<and> fr_type f = CLOSE"
    using assms(3)
  proof
    assume "fr_type f = CLOSE \<and> c0 = snd (handle_close P L t f c)"
    then show ?thesis using handle_close_drops [OF assms(1), of f P L t] by metis
  next
    assume "ws_close P L rnd t reason c = (Inr fr, c0) \<and> f = fr"
    then show ?thesis using ws_close_drops [OF assms(1), of P L rnd t reason fr c0] by metis
  qed
  then obtain c1 where c0: "c0 = drop_session r c1" "length (snd c1) = length (snd c)" "fr_type f = CLOSE" by blast
  have "r < length (snd c1)" using c0(2) assms(2) by simp
  then have rv: "s_state (snd c' ! r) = REVOKED" using dropped_stays_revoked assms(4) c0(1) by blast
  moreover have "w_session (fst c0) = None" "s_state (snd c0 ! r) = REVOKED"
    using c0 assms(2) by (simp_all add: drop_session_def)
  moreover have "is_ok (fst (handle_close P L t f c))" by (rule handle_close_drops [OF assms(1) c0(3)])
  moreover have "fst c2 = fst c" if "ws_close P L rnd' u reason' c = (Inl e, c2)" for e c2
    using that assms(1)
    by (auto simp: ws_close_def then_frame_def on_session_def split: sum.splits prod.splits)
  ultimately show ?thesis using c0(3) revoked_unusable [of c' r] by blast
qed

lemma demo_established:
  obtains c :: "(unit, unit) conn" and y x where "w_session (fst c) = Some 0" "snd c = [y]" "s_state y = ACTIVE"
    "linked y x" "linked x y" "s_state x = ACTIVE" "total x = 0" "total y = 0" "s_config x = default_config"
    "s_config y = default_config" "s_created_at x = 102" "s_created_at y = 101"
  using demo_connection by blast

theorem close_is_final_witness:
  "\<exists>c :: (unit, unit) conn. \<exists>y fr c1. snd c = [y] \<and> s_state y = ACTIVE \<and>
     s_state (snd (snd (handle_close demo_prims demo_lib (demo_clock 105) (frame_build CLOSE [] 105) c)) ! 0) = REVOKED \<and>
     ws_close demo_prims demo_lib (replicate 12 7) (demo_clock 105) ''normal'' c = (Inr fr, c1) \<and>
     w_session (fst c1) = None \<and> s_state (snd c1 ! 0) = REVOKED"
proof -
  obtain c :: "(unit, unit) conn" and y x where c: "w_session (fst c) = Some 0" "snd c = [y]" "s_state y = ACTIVE"
    and y: "linked y x" "linked x y" "s_state x = ACTIVE" "total x = 0" "total y = 0" "s_config x = default_config"
    "s_config y = default_config" "s_created_at x = 102" "s_created_at y = 101"
    by (rule demo_established)
  let ?m = "utf8 (dumps (float_repr demo_lib) False (PDict [(''reason'', PStr ''normal'')]))"
  obtain e y' x' where e: "session_encrypt demo_prims (replicate 12 7) 105 105 ?m y = (Inr e, y')"
    by (rule deliver_one [OF demo_aead y(1,2), of "replicate 12 7" 105 105 106 106 ?m])
      (use c y in \<open>auto simp: timely_def default_config_def NONCE_SIZE_def\<close>)
  have l: "0 < length (snd c)" using c by simp
  have k: "ws_close demo_prims demo_lib (replicate 12 7) (demo_clock 105) ''normal'' c =
      (Inr (frame_build CLOSE e 105), drop_session 0 (fst c, [y']))"
    using c(1,2) e by (simp add: ws_close_def then_frame_def on_session_def demo_clock_def)
  have h: "fr_type (frame_build CLOSE [] 105) = CLOSE" by simp
  from close_is_final [OF c(1) l disjI1 [OF conjI [OF h refl]] reach_init]
    close_is_final [OF c(1) l disjI2 [OF conjI [OF k refl]] reach_init] c k show ?thesis by blast
qed

text \<open>The type of a frame is not authenticated: a genuine DATA frame that is relabelled PING on the
  way is answered with a PONG or an error, its message never reaches the application, and the
  genuine frame, when it comes after all, is refused.\<close>

theorem relabelled_frame_swallowed:
  assumes "w_session w = Some r" and "r < length h" and "enforce_ordering (s_config (h ! r))"
    and "ws_decode P t f (w, h) = (Inr m, c1)"
  shows "\<not> is_ok (fst (ws_decode P u f (snd (pong P L rnd t (f\<lparr>fr_type := PING\<rparr>) (w, h)))))"
proof -
  let ?s = "h ! r" and ?d = "fr_payload f"
  obtain res s1 where d: "session_decrypt P (t 0) (t 1) ?d ?s = (res, s1)" by fastforce
  with assms have r: "res = Inr m" "fr_type f = DATA"
    by (auto simp: ws_decode_def on_session_def split: if_splits prod.splits)
  with d have dec: "session_decrypt P (t 0) (t 1) ?d ?s = (Inr m, s1)" by simp
  from decrypt_ordered [OF assms(3) dec] have q: "payload_seq ?d = recv_seq ?s" "recv_seq s1 = recv_seq ?s + 1"
    "s_config s1 = s_config ?s"
    by (auto simp: only_state_fields)
  obtain ct n where p: "decrypt_parse ?s ?d = Inr (recv_seq ?s, ct, n)"
    using decrypt_ordered [OF assms(3) dec] by auto
  then have k: "has_key ?d ''ciphertext''" by (auto simp: decrypt_parse_def guard_Inr_iff)
  have blocked: "\<not> is_ok (fst (session_decrypt P t1 t2 ?d s))"
    if "recv_seq s = recv_seq ?s + 1" "enforce_ordering (s_config s)" for t1 t2 s
  proof
    assume "is_ok (fst (session_decrypt P t1 t2 ?d s))"
    then obtain m' s' where "session_decrypt P t1 t2 ?d s = (Inr m', s')"
      by (cases "session_decrypt P t1 t2 ?d s") (auto simp: is_ok_iff)
    from decrypt_ordered [OF that(2) this] q(1) that(1) show False by simp
  qed
  have enc: "recv_seq (snd (session_encrypt P x t1 t2 y s1)) = recv_seq s1 \<and>
      s_config (snd (session_encrypt P x t1 t2 y s1)) = s_config s1" for x t1 t2 y
  proof -
    obtain e s' where eq: "session_encrypt P x t1 t2 y s1 = (e, s')" by (rule prod.exhaust)
    then have "recv_seq s' = recv_seq s1 \<and> s_config s' = s_config s1"
      by (cases rule: session_encrypt_cases) (auto simp: only_state_fields)
    then show ?thesis by (simp add: eq)
  qed
  have rs: "read_sealed P t ?d r (w, h) = (loads_bytes m, w, h[r := s1])"
    using dec by (simp add: read_sealed_def on_session_def)
  let ?c = "snd (pong P L rnd t (f\<lparr>fr_type := PING\<rparr>) (w, h))"
  have "fst ?c = w \<and> recv_seq (snd ?c ! r) = recv_seq ?s + 1 \<and> enforce_ordering (s_config (snd ?c ! r))"
    using assms(1-3) k rs enc q(2,3)
    by (auto simp: pong_def Let_def sealed_frame_def on_session_def split_beta split: pyval.split sum.split)
  then show ?thesis
    using blocked assms(1) r(2) by (auto simp: ws_decode_def on_session_def split_beta is_ok_iff)
qed

text \<open>A RESUME frame can be replayed: nothing marks its nonce as used, so a frame that was accepted
  is accepted again, and answered with a fresh acknowledgement, as often as it arrives while the
  session lives.\<close>

theorem resume_replayed:
  assumes "handle_resume P L rnd t f given c = (Inr ack, c1)" and "w_session (fst c1) = Some r"
    and "r < length (snd c1)" and "fst (is_active (u 0) (snd c1 ! r))"
  shows "\<exists>ack' c2. handle_resume P L rnd' u f None c1 = (Inr ack', c2) \<and> w_session (fst c2) = Some r \<and>
    fr_type ack' = RESUME_ACK"
proof -
  let ?so = "case given of None \<Rightarrow> w_session (fst c) | Some r \<Rightarrow> Some r"
  obtain a c' where a: "active_session (t 0) ?so c = (a, c')" by (rule prod.exhaust)
  with assms(1) obtain r' where ty: "fr_type f = RESUME" and r': "a = Inr r'"
    and ok: "check_resume P L ''RESUME'' (fr_payload f) (snd c' ! r') = Inr ()"
    and c1: "c1 = ((fst c')\<lparr>w_session := Some r'\<rparr>, snd c')"
    by (auto simp: handle_resume_def split: if_splits sum.splits)
  have rr: "r' = r" "snd c1 = snd c'" using assms(2) c1 by simp_all
  have e: "is_active (u 0) (snd c1 ! r) = (True, snd c1 ! r)"
    using assms(4) by (auto simp: is_active_def Let_def evaluate_expiry_def split: if_splits)
  then have "active_session (u 0) (w_session (fst c1)) c1 = (Inr r, c1)"
    using assms(2,3) by (simp add: active_session_def on_session_def)
  with ty ok rr show ?thesis
    using assms(2) by (simp add: handle_resume_def)
qed

lemma check_resume_linked:
  assumes "linked x y"
  shows "check_resume P L tag (resume_payload P tag rnd x) y = Inr ()"
proof -
  have "session_id y = session_id x" "recv_key y = send_key x" using assms by (simp_all add: linked_def)
  then show ?thesis
    by (simp add: check_resume_def resume_payload_def dget_def dget_default_def has_key_def compare_digest_def
        compute_auth_tag_def hex_ascii)
qed

theorem resume_replayed_witness:
  "\<exists>f c ack c1 ack' c2. handle_resume demo_prims demo_lib [1] (demo_clock 110) f None c = (Inr ack, c1) \<and>
     handle_resume demo_prims demo_lib [2] (demo_clock 120) f None c1 = (Inr ack', c2) \<and> fr_type ack' = RESUME_ACK \<and>
     (c :: (unit, unit) conn) = c1"
proof -
  obtain f1 :: frame and c2 d2 :: "(unit, unit) conn" and x y where
    d: "w_session (fst d2) = Some 0" "snd d2 = [y]" "linked x y" "s_state y = ACTIVE" "total y = 0"
      "s_config y = default_config" "s_created_at y = 101"
    using demo_connection by blast
  have ac: "is_active (demo_clock u k) y = (True, y)" if "u \<le> 3600" for u k
    using d(4-7) that
    by (simp add: is_active_def evaluate_expiry_def Let_def demo_clock_def total_def default_config_def)
  let ?f = "frame_build RESUME (resume_payload demo_prims ''RESUME'' [9] x) 109"
  have c: "check_resume demo_prims demo_lib ''RESUME'' (resume_payload demo_prims ''RESUME'' [9] x) y = Inr ()"
    by (rule check_resume_linked [OF d(3)])
  have w: "(fst d2)\<lparr>w_session := Some 0\<rparr> = fst d2" using d(1) by (metis ws.surjective ws.update_convs(4) ws.select_convs(4))
  have h: "handle_resume demo_prims demo_lib [1] (demo_clock 110) ?f None d2 =
      (Inr (frame_build RESUME_ACK (resume_payload demo_prims ''RESUME_ACK'' [1] y) 110), d2)"
    using c ac [of 110] d(1,2) w
    by (cases d2) (simp add: handle_resume_def active_session_def on_session_def, simp add: demo_clock_def)
  have a: "0 < length (snd d2)" "fst (is_active (demo_clock 120 0) (snd d2 ! 0))"
    using d(2) ac [of 120 0] by simp_all
  obtain ack' c2 where "handle_resume demo_prims demo_lib [2] (demo_clock 120) ?f None d2 = (Inr ack', c2)"
      "fr_type ack' = RESUME_ACK"
    using resume_replayed [where u = "demo_clock 120" and t = "demo_clock 110", OF h d(1) a] by blast
  with h show ?thesis by blast
qed

lemma demo_data:
  obtains c c1 :: "(unit, unit) conn" and f y where "w_session (fst c) = Some 0" "snd c = [y]" "s_config y = default_config"
    "ws_decode demo_prims (demo_clock 104) f c = (Inr [104], c1)"
proof -
  obtain d2 :: "(unit, unit) conn" and x y where
    d: "w_session (fst d2) = Some 0" "snd d2 = [y]" "linked x y" "linked y x" "s_state x = ACTIVE" "s_state y = ACTIVE"
      "total x = 0" "total y = 0" "s_config x = default_config" "s_config y = default_config"
      "s_created_at x = 102" "s_created_at y = 101"
    using demo_connection by blast
  obtain e x' y' where e: "session_decrypt demo_prims 104 104 e y = (Inr [104], y')"
    by (rule deliver_one [OF demo_aead d(3,4), of "replicate 12 7" 103 103 104 104 "[104]"])
      (use d in \<open>auto simp: timely_def default_config_def NONCE_SIZE_def\<close>)
  have "ws_decode demo_prims (demo_clock 104) (frame_build DATA e 103) d2 = (Inr [104], fst d2, [y'])"
    using e d(1,2) by (simp add: ws_decode_def on_session_def demo_clock_def)
  with d that show ?thesis by blast
qed

theorem relabelled_frame_swallowed_witness:
  "\<exists>f c c1. ws_decode demo_prims (demo_clock 104) f (c :: (unit, unit) conn) = (Inr [104], c1) \<and>
     \<not> is_ok (fst (ws_decode demo_prims (demo_clock 106) f
        (snd (pong demo_prims demo_lib (replicate 12 8) (demo_clock 104) (f\<lparr>fr_type := PING\<rparr>) c))))"
proof -
  obtain c c1 :: "(unit, unit) conn" and f y where c: "w_session (fst c) = Some 0" "snd c = [y]" "s_config y = default_config"
    "ws_decode demo_prims (demo_clock 104) f c = (Inr [104], c1)"
    by (rule demo_data)
  have l: "0 < length (snd c)" "enforce_ordering (s_config (snd c ! 0))" using c by (simp_all add: default_config_def)
  have "ws_decode demo_prims (demo_clock 104) f (fst c, snd c) = (Inr [104], c1)" using c(4) by simp
  from relabelled_frame_swallowed [OF c(1) l this, of "demo_clock 106" demo_lib "replicate 12 8"] c(4)
  show ?thesis unfolding prod.collapse by blast
qed

end
