(* ===== verification/NonceBackends.thy ===== *)
theory NonceBackends
  imports Nonce
begin

text \<open>
  \<open>uxsp/storage/noncestore.py\<close>: the nonce stores on Redis (string keys, and a sorted set with a
  script), on PostgreSQL, and the tiered store on top of two others. The servers are parameters:
  records of the commands that the stores send, each of which may fail, with the documented
  effect of the commands as laws. One clock reading stands for the caller's clock and the server's
  during a call. The laws of \<open>nonce_store\<close> are proved for the Redis and PostgreSQL stores, and for the
  tiered store over any durable store that has them and an arbitrary fast store.
\<close>

section \<open>Redis, one key for each nonce\<close>

record 'r redis_nonce_ops =
  n_set_nx :: "time \<Rightarrow> string \<Rightarrow> int \<Rightarrow> 'r \<Rightarrow> bool res \<times> 'r"  \<comment> \<open>\<open>SET key 1 NX EX ttl\<close>: whether the key was set\<close>
  n_exists :: "time \<Rightarrow> string \<Rightarrow> 'r \<Rightarrow> int res \<times> 'r"

definition store_error :: "'a res \<times> 's \<Rightarrow> 'a res \<times> 's" where
  \<comment> \<open>\<open>except Exception as e: raise UXSPStoreError\<close>\<close>
  "store_error p = (case p of (r, s) \<Rightarrow> (rescue (\<lambda>_. True) UXSPStoreError r, s))"

definition nonce_key :: "string \<Rightarrow> string \<Rightarrow> string" where
  "nonce_key prefix nonce = prefix @ nonce"

definition redis_mark_used :: "'r redis_nonce_ops \<Rightarrow> string \<Rightarrow> time \<Rightarrow> string \<Rightarrow> int \<Rightarrow> 'r \<Rightarrow> bool res \<times> 'r" where
  "redis_mark_used R prefix now nonce ttl r = store_error (n_set_nx R now (nonce_key prefix nonce) ttl r)"

definition redis_is_seen :: "'r redis_nonce_ops \<Rightarrow> string \<Rightarrow> time \<Rightarrow> string \<Rightarrow> 'r \<Rightarrow> bool res \<times> 'r" where
  "redis_is_seen R prefix now nonce r =
     store_error (case n_exists R now (nonce_key prefix nonce) r of (c, r') \<Rightarrow> (rbind c (\<lambda>n. Inr (0 < n)), r'))"

definition redis_cleanup :: "time \<Rightarrow> 'r \<Rightarrow> int res \<times> 'r" where
  "redis_cleanup now r = (Inr 0, r)"

definition async_mark_used :: "'r redis_nonce_ops \<Rightarrow> string \<Rightarrow> time \<Rightarrow> string \<Rightarrow> int \<Rightarrow> 'r \<Rightarrow> bool res \<times> 'r" where
  \<comment> \<open>\<open>AsyncRedisNonceStore\<close> sends the same commands\<close>
  "async_mark_used R prefix now nonce ttl r = store_error (n_set_nx R now (nonce_key prefix nonce) ttl r)"

definition async_check_and_mark :: "'r redis_nonce_ops \<Rightarrow> string \<Rightarrow> time \<Rightarrow> string \<Rightarrow> int \<Rightarrow> 'r \<Rightarrow> bool res \<times> 'r" where
  "async_check_and_mark R prefix = async_mark_used R prefix"

definition async_is_seen :: "'r redis_nonce_ops \<Rightarrow> string \<Rightarrow> time \<Rightarrow> string \<Rightarrow> 'r \<Rightarrow> bool res \<times> 'r" where
  "async_is_seen R prefix now nonce r =
     store_error (case n_exists R now (nonce_key prefix nonce) r of (c, r') \<Rightarrow> (rbind c (\<lambda>n. Inr (0 < n)), r'))"

section \<open>Redis, a sorted set\<close>

record 'r zset_ops =
  z_remrange :: "time \<Rightarrow> string \<Rightarrow> time option \<Rightarrow> time \<Rightarrow> 'r \<Rightarrow> int res \<times> 'r"  \<comment> \<open>no lower bound: \<open>-inf\<close>\<close>
  z_add_nx :: "time \<Rightarrow> string \<Rightarrow> time \<Rightarrow> string \<Rightarrow> 'r \<Rightarrow> int res \<times> 'r"
  z_expire :: "time \<Rightarrow> string \<Rightarrow> int \<Rightarrow> 'r \<Rightarrow> int res \<times> 'r"
  z_score :: "time \<Rightarrow> string \<Rightarrow> string \<Rightarrow> 'r \<Rightarrow> time option res \<times> 'r"
  z_card :: "time \<Rightarrow> string \<Rightarrow> 'r \<Rightarrow> int res \<times> 'r"

record sw_config =
  sw_window :: int
  sw_prefix :: string

definition sw_init :: "bool \<Rightarrow> int \<Rightarrow> string \<Rightarrow> sw_config res" where
  \<comment> \<open>the flag: the driver is installed\<close>
  "sw_init driver window prefix =
     guard driver ImportError (guard (0 < window) ValueError (Inr \<lparr>sw_window = window, sw_prefix = prefix\<rparr>))"

definition sw_key :: "sw_config \<Rightarrow> string" where
  "sw_key cf = sw_prefix cf @ ''seen''"

definition sw_script :: "'r zset_ops \<Rightarrow> time \<Rightarrow> string \<Rightarrow> time \<Rightarrow> time \<Rightarrow> string \<Rightarrow> int \<Rightarrow> 'r \<Rightarrow> int res \<times> 'r" where
  \<comment> \<open>the Lua script, run by the server in one piece; \<open>EXPIRE\<close> is for the whole set\<close>
  "sw_script Z server key now expiry nonce window r =
     (case z_remrange Z server key None now r of
        (Inl e, r1) \<Rightarrow> (Inl e, r1)
      | (Inr _, r1) \<Rightarrow>
          (case z_add_nx Z server key expiry nonce r1 of
             (Inl e, r2) \<Rightarrow> (Inl e, r2)
           | (Inr added, r2) \<Rightarrow>
               if added = 1
               then (case z_expire Z server key (window + 3600) r2 of
                       (Inl e, r3) \<Rightarrow> (Inl e, r3) | (Inr _, r3) \<Rightarrow> (Inr added, r3))
               else (Inr added, r2)))"

definition sw_mark_used :: "'r zset_ops \<Rightarrow> sw_config \<Rightarrow> time \<Rightarrow> string \<Rightarrow> int \<Rightarrow> 'r \<Rightarrow> bool res \<times> 'r" where
  \<comment> \<open>the window of the constructor is not used: the script gets the time to live\<close>
  "sw_mark_used Z cf now nonce ttl r =
     store_error (case sw_script Z now (sw_key cf) now (now + of_int ttl) nonce ttl r of
       (added, r') \<Rightarrow> (rbind added (\<lambda>n. Inr (n \<noteq> 0)), r'))"

definition sw_is_seen :: "'r zset_ops \<Rightarrow> sw_config \<Rightarrow> time \<Rightarrow> string \<Rightarrow> 'r \<Rightarrow> bool res \<times> 'r" where
  "sw_is_seen Z cf now nonce r =
     store_error (case z_score Z now (sw_key cf) nonce r of
       (sc, r') \<Rightarrow> (rbind sc (\<lambda>s. Inr (case s of None \<Rightarrow> False | Some x \<Rightarrow> now < x)), r'))"

definition sw_cleanup :: "'r zset_ops \<Rightarrow> sw_config \<Rightarrow> time \<Rightarrow> 'r \<Rightarrow> int res \<times> 'r" where
  "sw_cleanup Z cf now r = store_error (z_remrange Z now (sw_key cf) (Some 0) now r)"

definition sw_size :: "'r zset_ops \<Rightarrow> sw_config \<Rightarrow> time \<Rightarrow> 'r \<Rightarrow> int res \<times> 'r" where
  "sw_size Z cf now r = store_error (z_card Z now (sw_key cf) r)"

section \<open>PostgreSQL\<close>

text \<open>The statements of the store in a transaction: each takes the state of the database and gives a
  working state; \<open>pg_commit\<close> gets the state before the transaction and the working state. A rollback
  is the state before. The query for \<open>reltuples\<close> is only run for a warning, but may fail.\<close>

record 'd pg_nonce_ops =
  pg_connect :: "'d \<Rightarrow> unit res"
  pg_create :: "string \<Rightarrow> 'd \<Rightarrow> unit res \<times> 'd"
  pg_insert :: "string \<Rightarrow> string \<Rightarrow> time \<Rightarrow> 'd \<Rightarrow> bool res \<times> 'd"
  pg_reltuples :: "string \<Rightarrow> 'd \<Rightarrow> unit res"
  pg_select :: "string \<Rightarrow> string \<Rightarrow> time \<Rightarrow> 'd \<Rightarrow> bool res"
  pg_delete :: "string \<Rightarrow> time \<Rightarrow> 'd \<Rightarrow> int res \<times> 'd"
  pg_commit :: "'d \<Rightarrow> 'd \<Rightarrow> unit res \<times> 'd"

definition ident_start :: "char \<Rightarrow> bool" where
  "ident_start c \<longleftrightarrow> (let n = of_char c :: nat in 65 \<le> n \<and> n \<le> 90 \<or> 97 \<le> n \<and> n \<le> 122 \<or> n = 95)"

definition ident_char :: "char \<Rightarrow> bool" where
  "ident_char c \<longleftrightarrow> ident_start c \<or> (let n = of_char c :: nat in 48 \<le> n \<and> n \<le> 57)"

definition table_name_ok :: "string \<Rightarrow> bool" where
  \<comment> \<open>\<open>re.match(r"^[a-zA-Z_][a-zA-Z0-9_]*$", s)\<close>: the dollar also matches before a final newline\<close>
  "table_name_ok s =
     (let body = (if s \<noteq> [] \<and> last s = CHR 0x0A then butlast s else s)
      in case body of [] \<Rightarrow> False | c # cs \<Rightarrow> ident_start c \<and> list_all ident_char cs)"

definition pg_init :: "bool \<Rightarrow> int \<Rightarrow> string \<Rightarrow> string res" where
  \<comment> \<open>the table name that the store keeps\<close>
  "pg_init driver window table =
     guard (table_name_ok table) ValueError (guard driver ImportError (guard (0 < window) ValueError (Inr table)))"

definition in_transaction :: "'d pg_nonce_ops \<Rightarrow> ('d \<Rightarrow> 'a res \<times> 'd) \<Rightarrow> 'd \<Rightarrow> 'a res \<times> 'd" where
  \<comment> \<open>connect, run the statements, commit; any exception rolls back and becomes \<open>UXSPStoreError\<close>\<close>
  "in_transaction D f d =
     (case pg_connect D d of
        Inl e \<Rightarrow> (Inl UXSPStoreError, d)
      | Inr _ \<Rightarrow>
          (case f d of
             (Inl e, d1) \<Rightarrow> (Inl UXSPStoreError, d)
           | (Inr x, d1) \<Rightarrow>
               (case pg_commit D d d1 of
                  (Inl e, d2) \<Rightarrow> (Inl UXSPStoreError, d2) | (Inr _, d2) \<Rightarrow> (Inr x, d2))))"

definition pg_create_table :: "'d pg_nonce_ops \<Rightarrow> string \<Rightarrow> 'd \<Rightarrow> unit res \<times> 'd" where
  "pg_create_table D table = in_transaction D (pg_create D table)"

definition pg_mark_used :: "'d pg_nonce_ops \<Rightarrow> string \<Rightarrow> time \<Rightarrow> string \<Rightarrow> int \<Rightarrow> 'd \<Rightarrow> bool res \<times> 'd" where
  "pg_mark_used D table now nonce ttl =
     in_transaction D (\<lambda>d.
       case pg_insert D table nonce (now + of_int ttl) d of
         (Inl e, d1) \<Rightarrow> (Inl e, d1)
       | (Inr inserted, d1) \<Rightarrow>
           if inserted \<and> nonce \<noteq> [] \<and> last nonce = CHR ''0''
           then (rbind (pg_reltuples D table d1) (\<lambda>_. Inr inserted), d1)
           else (Inr inserted, d1))"

definition pg_is_seen :: "'d pg_nonce_ops \<Rightarrow> string \<Rightarrow> time \<Rightarrow> string \<Rightarrow> 'd \<Rightarrow> bool res \<times> 'd" where
  \<comment> \<open>no commit\<close>
  "pg_is_seen D table now nonce d =
     (rescue (\<lambda>_. True) UXSPStoreError (rbind (pg_connect D d) (\<lambda>_. pg_select D table nonce now d)), d)"

definition pg_cleanup :: "'d pg_nonce_ops \<Rightarrow> string \<Rightarrow> time \<Rightarrow> 'd \<Rightarrow> int res \<times> 'd" where
  "pg_cleanup D table now = in_transaction D (pg_delete D table now)"

section \<open>Two tiers\<close>

definition suppress_store_error :: "'a res \<Rightarrow> unit res" where
  "suppress_store_error r = (case r of Inl e \<Rightarrow> if e = UXSPStoreError then Inr () else Inl e | Inr _ \<Rightarrow> Inr ())"

definition then_durable :: "(time \<Rightarrow> string \<Rightarrow> int \<Rightarrow> 'f \<Rightarrow> bool res \<times> 'f) \<Rightarrow>
    (time \<Rightarrow> string \<Rightarrow> int \<Rightarrow> 'd \<Rightarrow> bool res \<times> 'd) \<Rightarrow> time \<Rightarrow> string \<Rightarrow> int \<Rightarrow> 'f \<times> 'd \<Rightarrow> bool res \<times> ('f \<times> 'd)" where
  \<comment> \<open>the durable store decides; the fast store is told again\<close>
  "then_durable fast durable now nonce ttl = (\<lambda>(f, d).
     case durable now nonce ttl d of
       (Inr True, d1) \<Rightarrow>
         (case fast now nonce ttl f of (r, f1) \<Rightarrow> (rbind (suppress_store_error r) (\<lambda>_. Inr True), f1, d1))
     | (r, d1) \<Rightarrow> (r, f, d1))"

definition tiered_mark_used :: "(time \<Rightarrow> string \<Rightarrow> int \<Rightarrow> 'f \<Rightarrow> bool res \<times> 'f) \<Rightarrow>
    (time \<Rightarrow> string \<Rightarrow> int \<Rightarrow> 'd \<Rightarrow> bool res \<times> 'd) \<Rightarrow> time \<Rightarrow> string \<Rightarrow> int \<Rightarrow> 'f \<times> 'd \<Rightarrow> bool res \<times> ('f \<times> 'd)" where
  "tiered_mark_used fast durable now nonce ttl = (\<lambda>(f, d).
     case fast now nonce ttl f of
       (Inr False, f1) \<Rightarrow> (Inr False, f1, d)
     | (r, f1) \<Rightarrow>
         (case suppress_store_error r of
            Inl e \<Rightarrow> (Inl e, f1, d)
          | Inr _ \<Rightarrow> then_durable fast durable now nonce ttl (f1, d)))"

definition tiered_is_seen :: "(time \<Rightarrow> string \<Rightarrow> 'f \<Rightarrow> bool res \<times> 'f) \<Rightarrow> (time \<Rightarrow> string \<Rightarrow> 'd \<Rightarrow> bool res \<times> 'd) \<Rightarrow>
    time \<Rightarrow> string \<Rightarrow> 'f \<times> 'd \<Rightarrow> bool res \<times> ('f \<times> 'd)" where
  "tiered_is_seen fast durable now nonce = (\<lambda>(f, d).
     case fast now nonce f of
       (Inr True, f1) \<Rightarrow> (Inr True, f1, d)
     | (r, f1) \<Rightarrow>
         (case suppress_store_error r of
            Inl e \<Rightarrow> (Inl e, f1, d)
          | Inr _ \<Rightarrow> (case durable now nonce d of (r2, d1) \<Rightarrow> (r2, f1, d1))))"

definition tiered_cleanup :: "(time \<Rightarrow> 'f \<Rightarrow> int res \<times> 'f) \<Rightarrow> (time \<Rightarrow> 'd \<Rightarrow> int res \<times> 'd) \<Rightarrow> time \<Rightarrow> 'f \<times> 'd \<Rightarrow>
    int res \<times> ('f \<times> 'd)" where
  "tiered_cleanup fast durable now = (\<lambda>(f, d).
     let (r1, f1) = fast now f in
     case suppress_store_error r1 of
       Inl e \<Rightarrow> (Inl e, f1, d)
     | Inr _ \<Rightarrow>
         let n1 = (case r1 of Inr n \<Rightarrow> n | Inl _ \<Rightarrow> 0); (r2, d1) = durable now d
         in (rbind (suppress_store_error r2) (\<lambda>_. Inr (n1 + (case r2 of Inr n \<Rightarrow> n | Inl _ \<Rightarrow> 0))), f1, d1))"

section \<open>What the stores rely on\<close>

text \<open>Redis: \<open>v r k\<close> is the instant at which the key expires. A command that fails may have been
  carried out; nothing takes away a key before its time.\<close>

definition lasts :: "time \<Rightarrow> (string \<Rightarrow> time option) \<Rightarrow> (string \<Rightarrow> time option) \<Rightarrow> bool" where
  "lasts t m m' \<longleftrightarrow> (\<forall>k e. m k = Some e \<longrightarrow> t < e \<longrightarrow> m' k = Some e)"

definition redis_nonce_laws :: "'r redis_nonce_ops \<Rightarrow> ('r \<Rightarrow> string \<Rightarrow> time option) \<Rightarrow> bool" where
  "redis_nonce_laws R v \<longleftrightarrow>
     (\<forall>t k ttl r. case n_set_nx R t k ttl r of (res, r') \<Rightarrow>
        lasts t (v r) (v r') \<and>
        (\<forall>b. res = Inr b \<longrightarrow> (b \<longleftrightarrow> \<not> (\<exists>e. v r k = Some e \<and> t < e)) \<and> (b \<longrightarrow> v r' k = Some (t + of_int ttl)))) \<and>
     (\<forall>t k r. case n_exists R t k r of (res, r') \<Rightarrow>
        lasts t (v r) (v r') \<and> (\<forall>n. res = Inr n \<longrightarrow> (0 < n \<longleftrightarrow> (\<exists>e. v r k = Some e \<and> t < e))))"

text \<open>PostgreSQL: \<open>v d n\<close> is the column \<open>expires_at\<close> of the row of a nonce. A commit that fails may have
  taken effect or not.\<close>

definition pg_nonce_laws :: "'d pg_nonce_ops \<Rightarrow> string \<Rightarrow> ('d \<Rightarrow> string \<Rightarrow> time option) \<Rightarrow> bool" where
  "pg_nonce_laws D table v \<longleftrightarrow>
     (\<forall>n e d b d1. pg_insert D table n e d = (Inr b, d1) \<longrightarrow>
        (if v d n = None then b \<and> v d1 = (v d)(n \<mapsto> e) else \<not> b \<and> v d1 = v d)) \<and>
     (\<forall>t d k d1. pg_delete D table t d = (Inr k, d1) \<longrightarrow> lasts t (v d) (v d1)) \<and>
     (\<forall>n t d b. pg_select D table n t d = Inr b \<longrightarrow> b = (\<exists>e. v d n = Some e \<and> t < e)) \<and>
     (\<forall>d d1 r d2. pg_commit D d d1 = (r, d2) \<longrightarrow> (if is_ok r then d2 = d1 else d2 = d \<or> d2 = d1))"

section \<open>Lemmas: the stores keep the contract\<close>

lemma lastsD: "lasts t m m' \<Longrightarrow> m k = Some e \<Longrightarrow> t < e \<Longrightarrow> m' k = Some e"
  by (simp add: lasts_def)

lemma lasts_refl [simp]: "lasts t m m"
  by (simp add: lasts_def)

lemma store_error_snd [simp]: "snd (store_error p) = snd p"
  by (simp add: store_error_def split_beta)

lemma store_error_Inr [simp]: "fst (store_error p) = Inr x \<longleftrightarrow> fst p = Inr x"
  by (auto simp: store_error_def rescue_def split_beta split: sum.split)

lemma redis_set:
  assumes "redis_nonce_laws R v"
  shows "lasts t (v r) (v (snd (n_set_nx R t k ttl r)))"
    and "fst (n_set_nx R t k ttl r) = Inr b \<Longrightarrow> b \<longleftrightarrow> \<not> (\<exists>e. v r k = Some e \<and> t < e)"
    and "fst (n_set_nx R t k ttl r) = Inr True \<Longrightarrow> v (snd (n_set_nx R t k ttl r)) k = Some (t + of_int ttl)"
  using assms unfolding redis_nonce_laws_def by (auto simp: split_beta)

lemma redis_exists: "redis_nonce_laws R v \<Longrightarrow> lasts t (v r) (v (snd (n_exists R t k r)))"
  unfolding redis_nonce_laws_def by (auto simp: split_beta)

interpretation redis: nonce_store "redis_mark_used R prefix" "redis_is_seen R prefix" redis_cleanup
    "\<lambda>r n. v r (nonce_key prefix n)" "\<lambda>r. redis_nonce_laws R v"
proof (unfold_locales, goal_cases)
  case (1 s n e t ttl)
  then show ?case using redis_set(2) [OF 1(1), of t "nonce_key prefix n" ttl s True] by (auto simp: redis_mark_used_def)
next
  case (2 s t n ttl)
  then show ?case using redis_set(3) [OF 2(1), of t "nonce_key prefix n" ttl s] by (simp add: redis_mark_used_def)
next
  case (3 s m e t n ttl)
  then show ?case using lastsD [OF redis_set(1) [OF 3(1)]] by (simp add: redis_mark_used_def)
next
  case (4 s m e t n)
  then show ?case using lastsD [OF redis_exists [OF 4(1)]] by (simp add: redis_is_seen_def split_beta)
qed (simp_all add: redis_cleanup_def)

lemma pg_laws:
  assumes "pg_nonce_laws D table v"
  shows "pg_insert D table n e d = (Inr b, d1) \<Longrightarrow> if v d n = None then b \<and> v d1 = (v d)(n \<mapsto> e) else \<not> b \<and> v d1 = v d"
    and "pg_delete D table t d = (Inr k, d1) \<Longrightarrow> lasts t (v d) (v d1)"
    and "pg_commit D d d1 = (r, d2) \<Longrightarrow> if is_ok r then d2 = d1 else d2 = d \<or> d2 = d1"
  using assms unfolding pg_nonce_laws_def by blast+

lemma in_transaction_cases:
  assumes "pg_nonce_laws D table v" and "in_transaction D f d = (r, d')"
  obtains (kept) "d' = d" "\<not> is_ok r" | (lost) x where "f d = (Inr x, d')" "\<not> is_ok r" | (committed) x where "f d = (Inr x, d')" "r = Inr x"
proof -
  obtain r1 d1 where f: "f d = (r1, d1)" by (rule prod.exhaust)
  obtain r2 d2 where c: "pg_commit D d d1 = (r2, d2)" by (rule prod.exhaust)
  from pg_laws(3) [OF assms(1) c] assms(2) f c that show ?thesis
    by (cases "pg_connect D d"; cases r1; cases r2) (auto simp: in_transaction_def)
qed

lemma pg_mark_cases:
  assumes "pg_nonce_laws D table v" and "pg_mark_used D table t n ttl d = (r, d')"
  shows "(v d' = v d \<or> v d n = None \<and> v d' = (v d)(n \<mapsto> t + of_int ttl)) \<and>
    (r = Inr True \<longrightarrow> v d n = None \<and> v d' = (v d)(n \<mapsto> t + of_int ttl))"
proof -
  let ?f = "\<lambda>d. case pg_insert D table n (t + of_int ttl) d of
         (Inl e, d1) \<Rightarrow> (Inl e, d1)
       | (Inr inserted, d1) \<Rightarrow>
           if inserted \<and> n \<noteq> [] \<and> last n = CHR ''0''
           then (rbind (pg_reltuples D table d1) (\<lambda>_. Inr inserted), d1)
           else (Inr inserted, d1)"
  have f: "if v d n = None then x \<and> v d1 = (v d)(n \<mapsto> t + of_int ttl) else \<not> x \<and> v d1 = v d"
    if "?f d = (Inr x, d1)" for x d1
    using that pg_laws(1) [OF assms(1), of n "t + of_int ttl" d]
    by (auto simp: res_Inr_iffs split: prod.splits sum.splits if_splits)
  have "in_transaction D ?f d = (r, d')" using assms(2) by (simp add: pg_mark_used_def)
  then show ?thesis
  proof (cases rule: in_transaction_cases [OF assms(1), consumes 1, case_names kept lost committed])
    case kept
    then show ?thesis by auto
  next
    case (lost x)
    with f [OF lost(1)] show ?thesis by (auto split: if_splits)
  next
    case (committed x)
    with f [OF committed(1)] show ?thesis by (auto split: if_splits)
  qed
qed

lemma pg_cleanup_lasts: "pg_nonce_laws D table v \<Longrightarrow> lasts t (v d) (v (snd (pg_cleanup D table t d)))"
proof -
  assume l: "pg_nonce_laws D table v"
  obtain r d' where c: "pg_cleanup D table t d = (r, d')" by (rule prod.exhaust)
  then have "in_transaction D (pg_delete D table t) d = (r, d')" by (simp add: pg_cleanup_def)
  then show ?thesis
    by (cases rule: in_transaction_cases [OF l]) (use c pg_laws(2) [OF l] in auto)
qed

interpretation pg: nonce_store "pg_mark_used D table" "pg_is_seen D table" "pg_cleanup D table" v
    "\<lambda>d. pg_nonce_laws D table v"
proof (unfold_locales, goal_cases)
  case (1 s n e t ttl)
  then show ?case
    using pg_mark_cases [OF 1(1), of t n ttl s] by (cases "pg_mark_used D table t n ttl s") auto
next
  case (2 s t n ttl)
  then show ?case
    using pg_mark_cases [OF 2(1), of t n ttl s] by (cases "pg_mark_used D table t n ttl s") auto
next
  case (3 s m e t n ttl)
  then show ?case
    using pg_mark_cases [OF 3(1), of t n ttl s] by (cases "pg_mark_used D table t n ttl s") auto
next
  case (5 s m e t)
  then show ?case using lastsD [OF pg_cleanup_lasts [OF 5(1)] 5(2,3)] by simp
qed (simp_all add: pg_is_seen_def)

text \<open>The tiered store inherits the contract from the durable store, whatever the fast one does.\<close>

locale tiered_store = nonce_store +
  fixes fast_mark :: "time \<Rightarrow> string \<Rightarrow> int \<Rightarrow> 'f \<Rightarrow> bool res \<times> 'f"
    and fast_seen :: "time \<Rightarrow> string \<Rightarrow> 'f \<Rightarrow> bool res \<times> 'f"
    and fast_cleanup :: "time \<Rightarrow> 'f \<Rightarrow> int res \<times> 'f"
begin

lemma mark_cases:
  "tiered_mark_used fast_mark mark_used t n ttl (f, d) = (r, f', d') \<Longrightarrow>
   (d' = d \<and> r \<noteq> Inr True) \<or> (d' = snd (mark_used t n ttl d) \<and> (r = Inr True \<longrightarrow> fst (mark_used t n ttl d) = Inr True))"
  by (auto simp: tiered_mark_used_def then_durable_def res_Inr_iffs split: prod.splits sum.splits bool.splits)

lemma seen_cases:
  "tiered_is_seen fast_seen is_seen t n (f, d) = (r, f', d') \<Longrightarrow> d' = d \<or> d' = snd (is_seen t n d)"
  by (auto simp: tiered_is_seen_def split: prod.splits sum.splits bool.splits)

lemma cleanup_cases:
  "tiered_cleanup fast_cleanup cleanup t (f, d) = (r, f', d') \<Longrightarrow> d' = d \<or> d' = snd (cleanup t d)"
  by (auto simp: tiered_cleanup_def Let_def split: prod.splits sum.splits)

end

sublocale tiered_store \<subseteq> tiered: nonce_store "tiered_mark_used fast_mark mark_used"
    "tiered_is_seen fast_seen is_seen" "tiered_cleanup fast_cleanup cleanup" "\<lambda>(f, d). tracked d" "\<lambda>(f, d). sinv d"
proof (unfold_locales, goal_cases)
  case (1 s n e t ttl)
  then show ?case using reject
    by (cases s; cases "tiered_mark_used fast_mark mark_used t n ttl s") (fastforce dest: mark_cases)
next
  case (2 s t n ttl)
  then show ?case using record_use
    by (cases s; cases "tiered_mark_used fast_mark mark_used t n ttl s") (fastforce dest: mark_cases)
next
  case (3 s m e t n ttl)
  then show ?case using mark_keeps
    by (cases s; cases "tiered_mark_used fast_mark mark_used t n ttl s") (fastforce dest: mark_cases)
next
  case (4 s m e t n)
  then show ?case using seen_keeps
    by (cases s; cases "tiered_is_seen fast_seen is_seen t n s") (fastforce dest: seen_cases)
next
  case (5 s m e t)
  then show ?case using cleanup_keeps
    by (cases s; cases "tiered_cleanup fast_cleanup cleanup t s") (fastforce dest: cleanup_cases)
next
  case (6 s t n ttl)
  then show ?case using inv_mark
    by (cases s; cases "tiered_mark_used fast_mark mark_used t n ttl s") (fastforce dest: mark_cases)
next
  case (7 s t n)
  then show ?case using inv_seen
    by (cases s; cases "tiered_is_seen fast_seen is_seen t n s") (fastforce dest: seen_cases)
next
  case (8 s t)
  then show ?case using inv_cleanup
    by (cases s; cases "tiered_cleanup fast_cleanup cleanup t s") (fastforce dest: cleanup_cases)
qed

interpretation redis_pg: tiered_store "pg_mark_used D table" "pg_is_seen D table" "pg_cleanup D table" v
    "\<lambda>d. pg_nonce_laws D table v" "redis_mark_used R prefix" "redis_is_seen R prefix" redis_cleanup
  for D :: "'d pg_nonce_ops" and table and v and R :: "'r redis_nonce_ops" and prefix
  by unfold_locales

section \<open>Concrete servers\<close>

definition demo_pg :: "(string \<Rightarrow> time option) pg_nonce_ops" where
  "demo_pg = \<lparr>pg_connect = (\<lambda>d. Inr ()), pg_create = (\<lambda>table d. (Inr (), d)),
     pg_insert = (\<lambda>table n e d. if d n = None then (Inr True, d(n \<mapsto> e)) else (Inr False, d)),
     pg_reltuples = (\<lambda>table d. Inr ()), pg_select = (\<lambda>table n t d. Inr (case d n of None \<Rightarrow> False | Some e \<Rightarrow> t < e)),
     pg_delete = (\<lambda>table t d. (Inr 0, \<lambda>n. case d n of None \<Rightarrow> None | Some e \<Rightarrow> if e < t then None else Some e)),
     pg_commit = (\<lambda>d d1. (Inr (), d1))\<rparr>"

lemma demo_pg_laws: "pg_nonce_laws demo_pg table (\<lambda>d. d)"
  by (auto simp: pg_nonce_laws_def demo_pg_def lasts_def split: if_splits option.splits)

definition forgetful_redis :: "unit redis_nonce_ops" where
  \<comment> \<open>a Redis server that has just been restarted, again and again\<close>
  "forgetful_redis = \<lparr>n_set_nx = (\<lambda>t k ttl r. (Inr True, r)), n_exists = (\<lambda>t k r. (Inr 0, r))\<rparr>"

definition demo_redis :: "(string \<Rightarrow> time option) redis_nonce_ops" where
  "demo_redis = \<lparr>n_set_nx = (\<lambda>t k ttl r.
       if (case r k of None \<Rightarrow> False | Some e \<Rightarrow> t < e) then (Inr False, r) else (Inr True, r(k \<mapsto> t + of_int ttl))),
     n_exists = (\<lambda>t k r. (Inr (if (case r k of None \<Rightarrow> False | Some e \<Rightarrow> t < e) then 1 else 0), r))\<rparr>"

lemma demo_redis_laws: "redis_nonce_laws demo_redis (\<lambda>r. r)"
  by (auto simp: redis_nonce_laws_def demo_redis_def lasts_def split: option.splits if_splits)

text \<open>The commands on sorted sets, as far as the next property needs them: \<open>members\<close> of a key at an instant,
  \<open>None\<close> for a key that has expired; \<open>EXPIRE\<close> sets the deadline of the key, whatever it was.\<close>

definition live_score :: "('r \<Rightarrow> string \<Rightarrow> string \<Rightarrow> time option) \<Rightarrow> ('r \<Rightarrow> string \<Rightarrow> time option) \<Rightarrow> 'r \<Rightarrow> time \<Rightarrow> string \<Rightarrow>
    string \<Rightarrow> time option" where
  "live_score members deadline r t k n =
     (if (case deadline r k of None \<Rightarrow> False | Some d \<Rightarrow> d \<le> t) then None else members r k n)"

definition zset_laws :: "'r zset_ops \<Rightarrow> ('r \<Rightarrow> string \<Rightarrow> string \<Rightarrow> time option) \<Rightarrow> ('r \<Rightarrow> string \<Rightarrow> time option) \<Rightarrow> bool" where
  "zset_laws Z members deadline \<longleftrightarrow>
     (\<forall>t k hi r. let (res, r') = z_remrange Z t k None hi r in
        is_ok res \<and> (\<forall>m s. live_score members deadline r' t k m = Some s \<longrightarrow> live_score members deadline r t k m = Some s)) \<and>
     (\<forall>t k s n r. let (res, r') = z_add_nx Z t k s n r in
        res = Inr (if live_score members deadline r t k n = None then 1 else 0)) \<and>
     (\<forall>t k secs r. let (res, r') = z_expire Z t k secs r in is_ok res \<and> deadline r' k = Some (t + of_int secs))"


type_synonym zset_server = "string \<Rightarrow> (string \<Rightarrow> time option) \<times> time option"

definition demo_zset :: "zset_server zset_ops" where
  "demo_zset =
     (let content = (\<lambda>r t k. case r k of (m, d) \<Rightarrow>
            if (case d of None \<Rightarrow> False | Some x \<Rightarrow> x \<le> t) then ((\<lambda>n. None), None) else (m, d))
      in \<lparr>z_remrange = (\<lambda>t k lo hi r. case content r t k of (m, d) \<Rightarrow>
             (Inr 0, r(k := (\<lambda>n. case m n of None \<Rightarrow> None
                | Some s \<Rightarrow> if (case lo of None \<Rightarrow> True | Some l \<Rightarrow> l \<le> s) \<and> s \<le> hi then None else Some s, d)))),
          z_add_nx = (\<lambda>t k s n r. case content r t k of (m, d) \<Rightarrow>
             if m n = None then (Inr 1, r(k := (m(n \<mapsto> s), d))) else (Inr 0, r(k := (m, d)))),
          z_expire = (\<lambda>t k secs r. (Inr 1, r(k := (fst (r k), Some (t + of_int secs))))),
          z_score = (\<lambda>t k n r. (Inr (fst (content r t k) n), r)),
          z_card = (\<lambda>t k r. (Inr 0, r))\<rparr>)"

lemma demo_zset_laws: "zset_laws demo_zset (\<lambda>r k. fst (r k)) (\<lambda>r k. snd (r k))"
  by (auto simp: zset_laws_def demo_zset_def live_score_def Let_def split: prod.splits option.splits if_splits)

lemma zset_remrange:
  "zset_laws Z members deadline \<Longrightarrow> z_remrange Z t k None hi r = (res, r') \<Longrightarrow>
   is_ok res \<and> (\<forall>m s. live_score members deadline r' t k m = Some s \<longrightarrow> live_score members deadline r t k m = Some s)"
  unfolding zset_laws_def by (drule conjunct1, drule spec [of _ t], drule spec [of _ k], drule spec [of _ hi], drule spec [of _ r]) simp

lemma zset_add:
  "zset_laws Z members deadline \<Longrightarrow> z_add_nx Z t k s n r = (res, r') \<Longrightarrow>
   res = Inr (if live_score members deadline r t k n = None then 1 else 0)"
  unfolding zset_laws_def
  by (drule conjunct2, drule conjunct1, drule spec [of _ t], drule spec [of _ k], drule spec [of _ s], drule spec [of _ n],
      drule spec [of _ r]) (simp split: if_splits)

lemma zset_expire:
  "zset_laws Z members deadline \<Longrightarrow> z_expire Z t k secs r = (res, r') \<Longrightarrow>
   is_ok res \<and> deadline r' k = Some (t + of_int secs)"
  unfolding zset_laws_def
  by (drule conjunct2, drule conjunct2, drule spec [of _ t], drule spec [of _ k], drule spec [of _ secs], drule spec [of _ r]) simp

lemma sw_mark_steps:
  assumes "zset_laws Z members deadline"
  shows "live_score members deadline r t (sw_key cf) n = None \<Longrightarrow> fst (sw_mark_used Z cf t n ttl r) = Inr True"
    and "fst (sw_mark_used Z cf t n ttl r) = Inr True \<Longrightarrow>
      deadline (snd (sw_mark_used Z cf t n ttl r)) (sw_key cf) = Some (t + of_int ttl + 3600)"
proof -
  obtain a r1 where 1: "z_remrange Z t (sw_key cf) None t r = (a, r1)" by (rule prod.exhaust)
  obtain b r2 where 2: "z_add_nx Z t (sw_key cf) (t + of_int ttl) n r1 = (b, r2)" by (rule prod.exhaust)
  obtain c r3 where 3: "z_expire Z t (sw_key cf) (ttl + 3600) r2 = (c, r3)" by (rule prod.exhaust)
  have l: "is_ok a" "\<And>s. live_score members deadline r1 t (sw_key cf) n = Some s \<Longrightarrow>
       live_score members deadline r t (sw_key cf) n = Some s"
    "b = Inr (if live_score members deadline r1 t (sw_key cf) n = None then 1 else 0)"
    "is_ok c" "deadline r3 (sw_key cf) = Some (t + of_int (ttl + 3600))"
    using zset_remrange [OF assms 1] zset_add [OF assms 2] zset_expire [OF assms 3] by simp_all
  have r: "sw_mark_used Z cf t n ttl r =
      (if live_score members deadline r1 t (sw_key cf) n = None then (Inr True, r3) else (Inr False, r2))"
    using l 1 2 3 by (auto simp: sw_mark_used_def sw_script_def store_error_def is_ok_iff)
  show "live_score members deadline r t (sw_key cf) n = None \<Longrightarrow> fst (sw_mark_used Z cf t n ttl r) = Inr True"
    using l(2) by (cases "live_score members deadline r1 t (sw_key cf) n") (auto simp: r)
  show "fst (sw_mark_used Z cf t n ttl r) = Inr True \<Longrightarrow>
      deadline (snd (sw_mark_used Z cf t n ttl r)) (sw_key cf) = Some (t + of_int ttl + 3600)"
    using l(5) by (auto simp: r split: if_splits)
qed

section \<open>Properties\<close>

text \<open>C21: The tiered store accepts a nonce once: with a durable PostgreSQL store, a nonce that was accepted is
  not accepted again during its time to live, whatever calls come in between, and whatever the fast
  Redis store does: it may fail, lose its data or answer anything.\<close>

theorem tiered_nonce_once:
  assumes "pg_nonce_laws D table v"
    and "fst (tiered_mark_used (redis_mark_used R prefix) (pg_mark_used D table) t n ttl (f, d)) = Inr True"
    and "\<forall>x \<in> set xs. op_time x < t + of_int ttl" and "t' < t + of_int ttl"
  shows "fst (tiered_mark_used (redis_mark_used R prefix) (pg_mark_used D table) t' n ttl'
     (run_ops (tiered_mark_used (redis_mark_used R prefix) (pg_mark_used D table))
        (tiered_is_seen (redis_is_seen R prefix) (pg_is_seen D table)) (tiered_cleanup redis_cleanup (pg_cleanup D table)) xs
        (snd (tiered_mark_used (redis_mark_used R prefix) (pg_mark_used D table) t n ttl (f, d))))) \<noteq> Inr True"
  using redis_pg.tiered.once_per_ttl [where s = "(f, d)" and v = v, OF _ assms(2-4)] assms(1) by simp

theorem tiered_nonce_once_witness:
  "fst (tiered_mark_used (redis_mark_used forgetful_redis []) (pg_mark_used demo_pg ''t'') 150 ''n'' 300
     (run_ops (tiered_mark_used (redis_mark_used forgetful_redis []) (pg_mark_used demo_pg ''t''))
        (tiered_is_seen (redis_is_seen forgetful_redis []) (pg_is_seen demo_pg ''t''))
        (tiered_cleanup redis_cleanup (pg_cleanup demo_pg ''t'')) [MarkUsed 120 ''m'' 300, Cleanup 130]
        (snd (tiered_mark_used (redis_mark_used forgetful_redis []) (pg_mark_used demo_pg ''t'') 100 ''n'' 300
           ((), \<lambda>n. None))))) \<noteq> Inr True"
proof (rule tiered_nonce_once [OF demo_pg_laws])
  show "fst (tiered_mark_used (redis_mark_used forgetful_redis []) (pg_mark_used demo_pg ''t'') 100 ''n'' 300
      ((), \<lambda>n. None)) = Inr True"
    by (simp add: tiered_mark_used_def then_durable_def redis_mark_used_def forgetful_redis_def store_error_def
        pg_mark_used_def in_transaction_def demo_pg_def suppress_store_error_def)
qed simp_all

text \<open>An outage of the durable store uses nonces up: when the fast Redis store accepted a nonce and the
  durable store then fails, the caller gets an error, and the same message, sent again after the
  durable store has recovered, is refused as a replay although it was never accepted.\<close>

theorem tiered_outage_burns_nonce:
  assumes "redis_nonce_laws R v" and "fst (redis_mark_used R prefix t n ttl f) = Inr True"
    and "fst (durable t n ttl d) = Inl UXSPStoreError" and "t' < t + of_int ttl"
    and "is_ok (fst (redis_mark_used R prefix t' n ttl' (snd (redis_mark_used R prefix t n ttl f))))"
  shows "fst (tiered_mark_used (redis_mark_used R prefix) durable t n ttl (f, d)) = Inl UXSPStoreError \<and>
    fst (tiered_mark_used (redis_mark_used R prefix) recovered t' n ttl'
      (snd (tiered_mark_used (redis_mark_used R prefix) durable t n ttl (f, d)))) = Inr False"
proof -
  obtain f1 where f1: "redis_mark_used R prefix t n ttl f = (Inr True, f1)" using assms(2) by (metis prod.collapse)
  obtain d1 where d1: "durable t n ttl d = (Inl UXSPStoreError, d1)" using assms(3) by (metis prod.collapse)
  have "fst (redis_mark_used R prefix t' n ttl' f1) \<noteq> Inr True"
    using redis.once_per_ttl [where v = v and xs = "[]", OF assms(1,2) _ assms(4)] f1 by (simp add: run_ops_def)
  with assms(5) f1 obtain f2 where f2: "redis_mark_used R prefix t' n ttl' f1 = (Inr False, f2)"
    by (cases "redis_mark_used R prefix t' n ttl' f1") (auto simp: is_ok_iff)
  show ?thesis by (simp add: tiered_mark_used_def then_durable_def suppress_store_error_def f1 d1 f2)
qed

theorem tiered_outage_burns_nonce_witness:
  "fst (tiered_mark_used (redis_mark_used demo_redis []) (\<lambda>t n ttl d. (Inl UXSPStoreError, d)) 100 ''n'' 300
      (\<lambda>k. None, ())) = Inl UXSPStoreError \<and>
    fst (tiered_mark_used (redis_mark_used demo_redis []) (\<lambda>t n ttl d. (Inr True, d)) 101 ''n'' 300
      (snd (tiered_mark_used (redis_mark_used demo_redis []) (\<lambda>t n ttl d. (Inl UXSPStoreError, d)) 100 ''n'' 300
        (\<lambda>k. None, ())))) = Inr False"
  by (rule tiered_outage_burns_nonce [OF demo_redis_laws])
    (simp_all add: redis_mark_used_def demo_redis_def store_error_def nonce_key_def)

text \<open>The sorted-set store forgets nonces that have not expired, when times to live differ: the whole set
  gets the deadline of the nonce added last, so an hour after a nonce with a short time to live has
  expired, a nonce that was accepted earlier with a long one is accepted again.\<close>

theorem sliding_window_forgets:
  assumes "zset_laws Z members deadline"
    and "fst (sw_mark_used Z cf t0 a long r) = Inr True"
    and "fst (sw_mark_used Z cf t1 b short (snd (sw_mark_used Z cf t0 a long r))) = Inr True"
    and "t1 + of_int short + 3600 \<le> t2" and "t2 < t0 + of_int long"
  shows "fst (sw_mark_used Z cf t2 a ttl (snd (sw_mark_used Z cf t1 b short (snd (sw_mark_used Z cf t0 a long r))))) =
    Inr True"
  by (rule sw_mark_steps(1) [OF assms(1)])
    (use sw_mark_steps(2) [OF assms(1,3)] assms(4) in \<open>simp add: live_score_def\<close>)

theorem sliding_window_forgets_witness:
  "fst (sw_mark_used demo_zset \<lparr>sw_window = 300, sw_prefix = []\<rparr> 5000 ''a'' 300
     (snd (sw_mark_used demo_zset \<lparr>sw_window = 300, sw_prefix = []\<rparr> 10 ''b'' 60
       (snd (sw_mark_used demo_zset \<lparr>sw_window = 300, sw_prefix = []\<rparr> 0 ''a'' 86400 (\<lambda>k. (\<lambda>n. None, None))))))) = Inr True"
  by (rule sliding_window_forgets [OF demo_zset_laws])
    (simp_all add: sw_mark_used_def sw_script_def demo_zset_def store_error_def sw_key_def)

end
