(* ===== verification/Signing.thy ===== *)
theory Signing
  imports Identity "HOL-Library.List_Lexorder" "HOL-Library.Char_ord"
begin

text \<open>
  \<open>uxsp/core/signing.py\<close>: trust anchors that sign public cards and revocation lists, and the
  trust store that verifies them. A \<open>TrustAnchor\<close> is the \<open>identity\<close> it wraps. The registry of
  revoked certificates maps a certificate id to its information, a dictionary; as in
  \<open>Identity\<close>, ill-typed members of parsed data give \<open>TypeError\<close> at construction. Each
  method of \<open>TrustStore\<close> is atomic; \<open>add_crl\<close> takes its anchor, verifies and stores in one
  step. Files are in \<open>IdentityFiles\<close>; \<open>__repr__\<close> and hashes are left out.
\<close>

section \<open>Anchors\<close>

record public_anchor =
  anchor_id :: string
  a_name :: string
  a_public_keys :: pubkeys
  a_created_at :: string

definition anchor_create :: "prims \<Rightarrow> pylib \<Rightarrow> time \<Rightarrow> string \<Rightarrow> bytes \<Rightarrow> bytes \<Rightarrow> bytes \<Rightarrow> bytes \<Rightarrow> string \<Rightarrow>
    identity res" where
  "anchor_create P L now uuid xsk ksk ssk qsk name =
     identity_create P L now uuid xsk ksk ssk qsk name ''TRUST-ANCHOR''"

definition public_anchor_of :: "pylib \<Rightarrow> time \<Rightarrow> identity \<Rightarrow> public_anchor res" where
  "public_anchor_of L now i =
     rbind (identity_card L now None None i) (\<lambda>pcard.
     Inr \<lparr>anchor_id = entity_id i, a_name = i_name i, a_public_keys = c_public_keys pcard,
          a_created_at = i_created_at i\<rparr>)"

definition anchor_to_dict :: "public_anchor \<Rightarrow> dict" where
  "anchor_to_dict a =
     [(''anchor_id'', PStr (anchor_id a)), (''name'', PStr (a_name a)), (''created_at'', PStr (a_created_at a)),
      (''public_keys'', PDict (hex_keys (a_public_keys a)))]"

definition anchor_from_dict :: "dict \<Rightarrow> public_anchor res" where
  "anchor_from_dict d =
     rbind (rbind (subscript d ''anchor_id'') the_str) (\<lambda>aid.
     rbind (rbind (subscript d ''name'') the_str) (\<lambda>name.
     rbind (rbind (subscript d ''created_at'') the_str) (\<lambda>created_at.
     rbind (rbind (subscript d ''public_keys'') parse_keys) (\<lambda>pks.
     Inr \<lparr>anchor_id = aid, a_name = name, a_public_keys = pks, a_created_at = created_at\<rparr>))))"

section \<open>Signed bytes\<close>

definition card_signable :: "public_card \<Rightarrow> int \<Rightarrow> int \<Rightarrow> string \<Rightarrow> bytes res" where
  "card_signable c not_before not_after cert_id =
     rbind (subscript (c_public_keys c) ''exchange_pub'') (\<lambda>x.
     rbind (subscript (c_public_keys c) ''kem_pub'') (\<lambda>k.
     rbind (subscript (c_public_keys c) ''signing_pub'') (\<lambda>s.
     rbind (subscript (c_public_keys c) ''pqc_sig_pub'') (\<lambda>q.
     bind_fields [utf8 (c_entity_id c), utf8 (c_name c), utf8 (c_role c), utf8 (c_created_at c),
       x, k, s, q, utf8 (str_int (c_key_version c)), utf8 (str_int not_before),
       utf8 (str_int not_after), utf8 cert_id]))))"

type_synonym crl_entry = "string \<times> int \<times> string"

fun entry_bytes :: "crl_entry \<Rightarrow> bytes" where
  "entry_bytes (cid, rev_date, reason) = utf8 (cid @ '':'' @ str_int rev_date @ '':'' @ reason)"

definition crl_signable :: "string \<Rightarrow> int \<Rightarrow> int \<Rightarrow> crl_entry list \<Rightarrow> bytes res" where
  "crl_signable issuer_id crl_number issued_at entries =
     bind_fields ([utf8 ''UXSP-CRL-1'', utf8 issuer_id, utf8 (str_int crl_number), utf8 (str_int issued_at)] @
       map entry_bytes (sort_key fst entries))"

section \<open>Signed cards\<close>

record signed_card =
  sc_card :: public_card
  cert_id :: string
  issuer_id :: string
  issuer_name :: string
  not_before :: int
  not_after :: int
  classical_sig :: bytes
  pqc_sig :: bytes

definition issue :: "prims \<Rightarrow> bytes \<Rightarrow> time \<Rightarrow> string \<Rightarrow> public_card \<Rightarrow> int \<Rightarrow> int option \<Rightarrow> identity \<Rightarrow>
    signed_card res" where
  \<comment> \<open>the randomness of the signature, the clock and the fresh certificate id are arguments\<close>
  "issue P rnd now cid pcard validity_days start i =
     guard (0 < validity_days) ValueError
      (guard (validity_days \<le> 730) ValueError
        (let nb = (case start of None \<Rightarrow> trunc now | Some t \<Rightarrow> t); na = nb + validity_days * 86400 in
         rbind (card_signable pcard nb na cid) (\<lambda>signable.
         rbind (hybrid_sign P rnd signable (keypair i)) (\<lambda>sigs.
         rbind (rbind (subscript sigs ''classical_sig'') py_fromhex) (\<lambda>c.
         rbind (rbind (subscript sigs ''pqc_sig'') py_fromhex) (\<lambda>q.
         Inr \<lparr>sc_card = pcard, cert_id = cid, issuer_id = entity_id i, issuer_name = i_name i,
              not_before = nb, not_after = na, classical_sig = c, pqc_sig = q\<rparr>))))))"

definition is_time_valid :: "time \<Rightarrow> int option \<Rightarrow> signed_card \<Rightarrow> bool" where
  "is_time_valid clock now sc =
     (let t = (case now of None \<Rightarrow> trunc clock | Some t \<Rightarrow> t) in not_before sc \<le> t \<and> t \<le> not_after sc)"

definition check_time_validity :: "time \<Rightarrow> int option \<Rightarrow> signed_card \<Rightarrow> unit res" where
  "check_time_validity clock now sc =
     (let t = (case now of None \<Rightarrow> trunc clock | Some t \<Rightarrow> t) in
      guard (not_before sc \<le> t) CardNotYetValidError (guard (t \<le> not_after sc) ExpiredCardError (Inr ())))"

definition card_remaining_seconds :: "time \<Rightarrow> signed_card \<Rightarrow> rat" where
  "card_remaining_seconds now sc = max 0 (of_int (not_after sc) - now)"

definition signed_sigs :: "bytes \<Rightarrow> bytes \<Rightarrow> dict" where
  "signed_sigs c q = [(''classical_sig'', PStr (hex c)), (''pqc_sig'', PStr (hex q))]"

definition signed_to_dict :: "signed_card \<Rightarrow> dict" where
  "signed_to_dict sc =
     [(''cert_id'', PStr (cert_id sc)), (''issuer_id'', PStr (issuer_id sc)),
      (''issuer_name'', PStr (issuer_name sc)), (''not_before'', PInt (not_before sc)),
      (''not_after'', PInt (not_after sc)), (''classical_sig'', PStr (hex (classical_sig sc))),
      (''pqc_sig'', PStr (hex (pqc_sig sc))), (''card'', PDict (card_to_dict (sc_card sc)))]"

definition signed_from_dict :: "dict \<Rightarrow> signed_card res" where
  "signed_from_dict d =
     rbind (rbind (subscript d ''card'') (\<lambda>v. case v of PDict c \<Rightarrow> card_from_dict c | _ \<Rightarrow> Inl AttributeError)) (\<lambda>c.
     rbind (rbind (subscript d ''cert_id'') the_str) (\<lambda>cid.
     rbind (rbind (subscript d ''issuer_id'') the_str) (\<lambda>iid.
     rbind (rbind (subscript d ''issuer_name'') the_str) (\<lambda>iname.
     rbind (rbind (subscript d ''not_before'') py_int) (\<lambda>nb.
     rbind (rbind (subscript d ''not_after'') py_int) (\<lambda>na.
     rbind (rbind (subscript d ''classical_sig'') py_fromhex) (\<lambda>cs.
     rbind (rbind (subscript d ''pqc_sig'') py_fromhex) (\<lambda>qs.
     Inr \<lparr>sc_card = c, cert_id = cid, issuer_id = iid, issuer_name = iname, not_before = nb,
          not_after = na, classical_sig = cs, pqc_sig = qs\<rparr>))))))))"

section \<open>Revocation lists\<close>

record crl =
  l_issuer_id :: string
  l_issuer_name :: string
  l_crl_number :: int
  l_issued_at :: int
  l_revoked :: "(string \<times> dict) list"
  l_classical_sig :: bytes
  l_pqc_sig :: bytes

definition revocation_info :: "int \<Rightarrow> string \<Rightarrow> dict" where
  "revocation_info rev_date reason = [(''revocation_date'', PInt rev_date), (''reason'', PStr reason)]"

definition info_entry :: "pylib \<Rightarrow> int \<Rightarrow> dict \<Rightarrow> (int \<times> string) res" where
  \<comment> \<open>the date and the reason of one entry, with their defaults\<close>
  "info_entry L dflt info =
     rbind (py_int (dget_default info ''revocation_date'' (PInt dflt))) (\<lambda>d.
     Inr (d, py_str L (dget_default info ''reason'' (PStr ''unspecified''))))"

datatype revoked_entry = CardEntry signed_card | DictEntry dict | IdEntry string | OtherEntry

datatype revoked_arg = RevokedList "revoked_entry list" | RevokedDict "(string \<times> dict) list"

fun collect_entry :: "pylib \<Rightarrow> int \<Rightarrow> revoked_entry \<Rightarrow> crl_entry res" where
  "collect_entry L ts (CardEntry sc) = Inr (cert_id sc, ts, ''unspecified'')"
| "collect_entry L ts (DictEntry e) =
     rbind (rbind (subscript e ''cert_id'') the_str) (\<lambda>cid.
     rbind (info_entry L ts e) (\<lambda>(d, r). Inr (cid, d, r)))"
| "collect_entry L ts (IdEntry cid) = Inr (cid, ts, ''unspecified'')"
| "collect_entry L ts OtherEntry = Inl ValueError"

definition collect_revoked :: "pylib \<Rightarrow> int \<Rightarrow> revoked_arg option \<Rightarrow> crl_entry list res" where
  \<comment> \<open>\<open>certs_dict\<close>: a later entry for the same certificate replaces the earlier one\<close>
  "collect_revoked L ts arg =
     (case arg of
        None \<Rightarrow> Inr []
      | Some (RevokedList es) \<Rightarrow>
          rbind (res_map (collect_entry L ts) es) (\<lambda>cs.
          Inr (fold (\<lambda>(cid, info) d. AList.update cid info d) cs []))
      | Some (RevokedDict d) \<Rightarrow>
          res_map (\<lambda>(cid, info). rbind (info_entry L ts info) (\<lambda>(dt, r). Inr (cid, dt, r))) d)"

definition issue_crl :: "prims \<Rightarrow> pylib \<Rightarrow> bytes \<Rightarrow> time \<Rightarrow> revoked_arg option \<Rightarrow> int \<Rightarrow> int option \<Rightarrow> identity \<Rightarrow>
    crl res" where
  "issue_crl P L rnd now arg crl_number issued_at i =
     (let ts = (case issued_at of None \<Rightarrow> trunc now | Some t \<Rightarrow> t) in
      rbind (collect_revoked L ts arg) (\<lambda>entries.
      rbind (crl_signable (entity_id i) crl_number ts entries) (\<lambda>signable.
      rbind (hybrid_sign P rnd signable (keypair i)) (\<lambda>sigs.
      rbind (rbind (subscript sigs ''classical_sig'') py_fromhex) (\<lambda>c.
      rbind (rbind (subscript sigs ''pqc_sig'') py_fromhex) (\<lambda>q.
      Inr \<lparr>l_issuer_id = entity_id i, l_issuer_name = i_name i, l_crl_number = crl_number, l_issued_at = ts,
           l_revoked = map (\<lambda>(cid, d, r). (cid, revocation_info d r)) entries,
           l_classical_sig = c, l_pqc_sig = q\<rparr>))))))"

definition crl_is_revoked :: "string \<Rightarrow> crl \<Rightarrow> bool" where
  "crl_is_revoked cid l \<longleftrightarrow> map_of (l_revoked l) cid \<noteq> None"

definition crl_get_info :: "string \<Rightarrow> crl \<Rightarrow> dict option" where
  "crl_get_info cid l = map_of (l_revoked l) cid"

definition crl_entries :: "pylib \<Rightarrow> crl \<Rightarrow> crl_entry list res" where
  "crl_entries L l =
     res_map (\<lambda>(cid, info). rbind (info_entry L (l_issued_at l) info) (\<lambda>(d, r). Inr (cid, d, r))) (l_revoked l)"

definition malformed :: "exn \<Rightarrow> bool" where
  \<comment> \<open>\<open>except EnvelopeValidationError\<close>, the class of \<open>crypto/hybrid.py\<close>\<close>
  "malformed e \<longleftrightarrow> e = HybridEnvelopeValidationError"

definition crl_verify :: "prims \<Rightarrow> pylib \<Rightarrow> pubkeys \<Rightarrow> crl \<Rightarrow> bool res" where
  "crl_verify P L pks l =
     rbind (crl_entries L l) (\<lambda>entries.
     rbind (crl_signable (l_issuer_id l) (l_crl_number l) (l_issued_at l) entries) (\<lambda>signable.
     rbind (rescue malformed InvalidCardSignatureError
        (hybrid_verify P signable (signed_sigs (l_classical_sig l) (l_pqc_sig l)) pks False)) (\<lambda>ok.
     guard ok InvalidCardSignatureError (Inr True))))"

definition crl_to_dict :: "crl \<Rightarrow> dict" where
  "crl_to_dict l =
     [(''issuer_id'', PStr (l_issuer_id l)), (''issuer_name'', PStr (l_issuer_name l)),
      (''crl_number'', PInt (l_crl_number l)), (''issued_at'', PInt (l_issued_at l)),
      (''revoked_certs'', PDict (map (\<lambda>(k, d). (k, PDict d)) (l_revoked l))),
      (''classical_sig'', PStr (hex (l_classical_sig l))), (''pqc_sig'', PStr (hex (l_pqc_sig l)))]"

fun the_dict :: "pyval \<Rightarrow> dict res" where
  "the_dict (PDict d) = Inr d"
| "the_dict _ = Inl TypeError"

definition crl_from_dict :: "dict \<Rightarrow> crl res" where
  "crl_from_dict d =
     rbind (rbind (subscript d ''issuer_id'') the_str) (\<lambda>iid.
     rbind (rbind (subscript d ''issuer_name'') the_str) (\<lambda>iname.
     rbind (rbind (subscript d ''crl_number'') py_int) (\<lambda>n.
     rbind (rbind (subscript d ''issued_at'') py_int) (\<lambda>ts.
     rbind (rbind (the_dict (dget_default d ''revoked_certs'' (PDict [])))
        (res_map (\<lambda>(k, v). rbind (the_dict v) (\<lambda>x. Inr (k, x))))) (\<lambda>revoked.
     rbind (rbind (subscript d ''classical_sig'') py_fromhex) (\<lambda>c.
     rbind (rbind (subscript d ''pqc_sig'') py_fromhex) (\<lambda>q.
     Inr \<lparr>l_issuer_id = iid, l_issuer_name = iname, l_crl_number = n, l_issued_at = ts, l_revoked = revoked,
          l_classical_sig = c, l_pqc_sig = q\<rparr>)))))))"
section \<open>The trust store\<close>

record trust_store =
  anchors :: "(string \<times> public_anchor) list"
  revoked_certs :: "(string \<times> dict) list"

definition ts_init :: trust_store where
  "ts_init = \<lparr>anchors = [], revoked_certs = []\<rparr>"

definition ts_add :: "public_anchor \<Rightarrow> trust_store \<Rightarrow> trust_store" where
  "ts_add a s = s\<lparr>anchors := AList.update (anchor_id a) a (anchors s)\<rparr>"

definition ts_remove :: "string \<Rightarrow> trust_store \<Rightarrow> trust_store" where
  "ts_remove aid s = s\<lparr>anchors := AList.delete aid (anchors s)\<rparr>"

definition ts_has :: "string \<Rightarrow> trust_store \<Rightarrow> bool" where
  "ts_has aid s \<longleftrightarrow> map_of (anchors s) aid \<noteq> None"

definition anchor_ids :: "trust_store \<Rightarrow> string list" where
  "anchor_ids s = map fst (anchors s)"

definition ts_revoke :: "time \<Rightarrow> string \<Rightarrow> pyval \<Rightarrow> pyval \<Rightarrow> trust_store \<Rightarrow> trust_store" where
  "ts_revoke now cid reason revocation_date s =
     s\<lparr>revoked_certs := AList.update cid
         [(''revocation_date'', if revocation_date = PNone then PInt (trunc now) else revocation_date),
          (''reason'', reason)] (revoked_certs s)\<rparr>"

definition ts_unrevoke :: "string \<Rightarrow> trust_store \<Rightarrow> trust_store" where
  "ts_unrevoke cid s = s\<lparr>revoked_certs := AList.delete cid (revoked_certs s)\<rparr>"

definition ts_is_revoked :: "string \<Rightarrow> trust_store \<Rightarrow> bool" where
  "ts_is_revoked cid s \<longleftrightarrow> map_of (revoked_certs s) cid \<noteq> None"

definition ts_get_info :: "string \<Rightarrow> trust_store \<Rightarrow> dict option" where
  "ts_get_info cid s = map_of (revoked_certs s) cid"

definition revoked_cert_ids :: "trust_store \<Rightarrow> string list" where
  "revoked_cert_ids s = map fst (revoked_certs s)"

definition ts_add_crl :: "prims \<Rightarrow> pylib \<Rightarrow> crl \<Rightarrow> bool \<Rightarrow> trust_store \<Rightarrow> unit res \<times> trust_store" where
  "ts_add_crl P L l verify_signature s =
     (case (if verify_signature
            then (case map_of (anchors s) (l_issuer_id l) of
                    None \<Rightarrow> Inl UntrustedCardError
                  | Some a \<Rightarrow> crl_verify P L (a_public_keys a) l)
            else Inr True) of
        Inl e \<Rightarrow> (Inl e, s)
      | Inr _ \<Rightarrow>
          (Inr (), s\<lparr>revoked_certs := fold (\<lambda>(cid, info) d. AList.update cid info d) (l_revoked l)
                                       (revoked_certs s)\<rparr>))"

definition ts_verify :: "prims \<Rightarrow> time \<Rightarrow> signed_card \<Rightarrow> int option \<Rightarrow> string option \<Rightarrow> trust_store \<Rightarrow>
    public_card res" where
  "ts_verify P clock sc now expected s =
     (case map_of (anchors s) (issuer_id sc) of
        None \<Rightarrow> Inl UntrustedCardError
      | Some a \<Rightarrow>
          guard (\<not> ts_is_revoked (cert_id sc) s) RevokedCardError
           (guard (case expected of None \<Rightarrow> True | Some e \<Rightarrow> c_entity_id (sc_card sc) = e) UntrustedCardError
             (rbind (check_time_validity clock now sc) (\<lambda>_.
              rbind (card_signable (sc_card sc) (not_before sc) (not_after sc) (cert_id sc)) (\<lambda>signable.
              rbind (rescue malformed InvalidCardSignatureError
                 (hybrid_verify P signable (signed_sigs (classical_sig sc) (pqc_sig sc)) (a_public_keys a) False)) (\<lambda>ok.
              guard ok InvalidCardSignatureError (Inr (sc_card sc))))))))"

definition store_to_dict :: "trust_store \<Rightarrow> dict" where
  "store_to_dict s =
     [(''anchors'', PList (map (\<lambda>(_, a). PDict (anchor_to_dict a)) (anchors s))),
      (''revoked_certs'', PDict (map (\<lambda>(k, d). (k, PDict d)) (revoked_certs s)))]"

fun py_iter :: "pyval \<Rightarrow> pyval list res" where
  \<comment> \<open>\<open>for x in v\<close>\<close>
  "py_iter (PList xs) = Inr xs"
| "py_iter (PDict d) = Inr (map (\<lambda>(k, _). PStr k) d)"
| "py_iter (PStr s) = Inr (map (\<lambda>c. PStr [c]) s)"
| "py_iter _ = Inl TypeError"

fun py_items :: "pyval \<Rightarrow> dict res" where
  \<comment> \<open>\<open>v.items()\<close>\<close>
  "py_items (PDict d) = Inr d"
| "py_items _ = Inl AttributeError"

definition load_anchor :: "pyval \<Rightarrow> public_anchor res" where
  "load_anchor v = (case v of PDict d \<Rightarrow> anchor_from_dict d | _ \<Rightarrow> Inl TypeError)"

definition store_load :: "time \<Rightarrow> pyval \<Rightarrow> trust_store res" where
  \<comment> \<open>\<open>TrustStore.load\<close> on the parsed file\<close>
  "store_load now data =
     (case data of
        PDict d \<Rightarrow>
          rbind (rbind (py_iter (dget_default d ''anchors'' (PList []))) (res_map load_anchor)) (\<lambda>as.
          rbind (rbind (py_items (dget_default d ''revoked_certs'' (PDict [])))
            (res_map (\<lambda>(cid, v). rbind (py_items v) (\<lambda>info. Inr (cid, info))))) (\<lambda>infos.
          Inr (fold (\<lambda>(cid, info) s. ts_revoke now cid (dget_default info ''reason'' (PStr ''unspecified''))
                 (dget info ''revocation_date'') s) infos (fold ts_add as ts_init))))
      | _ \<Rightarrow> Inl ValueError)"

definition from_anchors :: "public_anchor list \<Rightarrow> trust_store" where
  "from_anchors as = fold ts_add as ts_init"

definition ts_len :: "trust_store \<Rightarrow> nat" where
  "ts_len s = length (anchors s)"
section \<open>Lemmas: signed bytes\<close>

lemma card_signable_Inr:
  assumes "card_signable c nb na cid = Inr b"
  obtains x k s q where "subscript (c_public_keys c) ''exchange_pub'' = Inr x"
    "subscript (c_public_keys c) ''kem_pub'' = Inr k" "subscript (c_public_keys c) ''signing_pub'' = Inr s"
    "subscript (c_public_keys c) ''pqc_sig_pub'' = Inr q"
    "bind_fields [utf8 (c_entity_id c), utf8 (c_name c), utf8 (c_role c), utf8 (c_created_at c),
       x, k, s, q, utf8 (str_int (c_key_version c)), utf8 (str_int nb), utf8 (str_int na), utf8 cid] = Inr b"
  using assms by (auto simp: card_signable_def res_Inr_iffs simp del: bind_fields.simps)

lemma signed_sigs_of:
  "sigs = [(''classical_sig'', PStr (hex c)), (''pqc_sig'', PStr (hex q))] \<Longrightarrow>
   rbind (subscript sigs ''classical_sig'') py_fromhex = Inr c \<and>
   rbind (subscript sigs ''pqc_sig'') py_fromhex = Inr q \<and> sigs = signed_sigs c q"
  by (simp add: signed_sigs_def)

text \<open>What the anchor signs, its public keys verify.\<close>

lemma anchor_signs:
  assumes "signature_laws P" and "is_keypair P (keypair i) (i_pub i)" and "hybrid_sign P rnd m (keypair i) = Inr sigs"
  obtains c q where "rbind (subscript sigs ''classical_sig'') py_fromhex = Inr c"
    "rbind (subscript sigs ''pqc_sig'') py_fromhex = Inr q"
    "hybrid_verify P m (signed_sigs c q) (i_pub i) False = Inr True"
proof -
  obtain c q where "sigs = [(''classical_sig'', PStr (hex c)), (''pqc_sig'', PStr (hex q))]"
    "hybrid_verify P m [(''classical_sig'', PStr (hex c)), (''pqc_sig'', PStr (hex q))] (i_pub i) False = Inr True"
    using sign_verify [OF assms(1,2), of rnd m] assms(3) by auto
  with that signed_sigs_of show ?thesis by metis
qed

lemma issue_Inr:
  assumes "signature_laws P" and "is_keypair P (keypair i) (i_pub i)"
    and "issue P rnd now cid c days start i = Inr sc"
  obtains b where "0 < days" "days \<le> 730" "sc_card sc = c" "cert_id sc = cid" "issuer_id sc = entity_id i"
    "not_before sc = (case start of None \<Rightarrow> trunc now | Some t \<Rightarrow> t)"
    "not_after sc = not_before sc + days * 86400"
    "card_signable c (not_before sc) (not_after sc) cid = Inr b"
    "hybrid_verify P b (signed_sigs (classical_sig sc) (pqc_sig sc)) (i_pub i) False = Inr True"
proof -
  let ?nb = "case start of None \<Rightarrow> trunc now | Some t \<Rightarrow> t"
  obtain b sigs cs qs where b: "0 < days" "days \<le> 730" "card_signable c ?nb (?nb + days * 86400) cid = Inr b"
    and s: "hybrid_sign P rnd b (keypair i) = Inr sigs"
    and r: "rbind (subscript sigs ''classical_sig'') py_fromhex = Inr cs"
      "rbind (subscript sigs ''pqc_sig'') py_fromhex = Inr qs"
    and sc: "sc = \<lparr>sc_card = c, cert_id = cid, issuer_id = entity_id i, issuer_name = i_name i,
        not_before = ?nb, not_after = ?nb + days * 86400, classical_sig = cs, pqc_sig = qs\<rparr>"
    using assms(3) by (auto simp: issue_def Let_def res_Inr_iffs)
  have "hybrid_verify P b (signed_sigs cs qs) (i_pub i) False = Inr True"
    by (rule anchor_signs [OF assms(1,2) s]) (use r in simp)
  with b sc that show ?thesis by simp
qed

lemma public_anchor_of_Inr:
  "public_anchor_of L now i = Inr a \<Longrightarrow> anchor_id a = entity_id i \<and> a_public_keys a = i_pub i"
  by (auto simp: public_anchor_of_def identity_card_def card_new_def res_Inr_iffs)

lemma ts_verify_Inr:
  assumes "ts_verify P clock sc now expected s = Inr c"
  obtains a b where "map_of (anchors s) (issuer_id sc) = Some a" "\<not> ts_is_revoked (cert_id sc) s"
    "\<And>e. expected = Some e \<Longrightarrow> c_entity_id c = e" "c = sc_card sc"
    "check_time_validity clock now sc = Inr ()"
    "card_signable c (not_before sc) (not_after sc) (cert_id sc) = Inr b"
    "hybrid_verify P b (signed_sigs (classical_sig sc) (pqc_sig sc)) (a_public_keys a) False = Inr True"
  using assms by (auto simp: ts_verify_def res_Inr_iffs split: option.splits)

lemma check_time_iff:
  "check_time_validity clock now sc = Inr () \<longleftrightarrow> is_time_valid clock now sc"
  by (auto simp: check_time_validity_def is_time_valid_def Let_def guard_Inr_iff)

section \<open>Lemmas: the revocation registry\<close>

lemma map_of_fold_update:
  "map_of (fold (\<lambda>(k, v) d. AList.update k v d) xs d) k = (if k \<in> fst ` set xs then map_of (rev xs) k else map_of d k)"
proof (induction xs arbitrary: d)
  case (Cons x xs)
  obtain j v where x: "x = (j, v)" by (cases x)
  show ?case
  proof (cases "k \<in> fst ` set xs")
    case True
    then obtain w where "map_of (rev xs) k = Some w"
      by (metis map_of_eq_None_iff not_None_eq set_rev)
    with True show ?thesis by (simp add: Cons.IH x map_add_def)
  next
    case False
    then have "map_of (rev xs) k = None" by (simp add: map_of_eq_None_iff)
    with False show ?thesis by (auto simp: Cons.IH x map_add_def)
  qed
qed simp

lemma fold_update_keeps: "map_of d k \<noteq> None \<Longrightarrow> map_of (fold (\<lambda>(k, v) d. AList.update k v d) xs d) k \<noteq> None"
  by (induction xs arbitrary: d) auto

lemma fold_update_adds:
  "map_of xs k \<noteq> None \<Longrightarrow> map_of (fold (\<lambda>(k, v) d. AList.update k v d) xs d) k \<noteq> None"
proof (induction xs arbitrary: d)
  case (Cons x xs)
  obtain j v where x: "x = (j, v)" by (cases x)
  show ?case
  proof (cases "j = k")
    case True
    with x fold_update_keeps [of "AList.update j v d" k xs] show ?thesis by simp
  next
    case False
    with Cons x show ?thesis by simp
  qed
qed simp

datatype store_op = AddAnchor public_anchor | RemoveAnchor string | Revoke time string pyval pyval
  | Unrevoke string | AddCrl crl bool

fun store_step :: "prims \<Rightarrow> pylib \<Rightarrow> store_op \<Rightarrow> trust_store \<Rightarrow> trust_store" where
  "store_step P L (AddAnchor a) s = ts_add a s"
| "store_step P L (RemoveAnchor aid) s = ts_remove aid s"
| "store_step P L (Revoke t cid r d) s = ts_revoke t cid r d s"
| "store_step P L (Unrevoke cid) s = ts_unrevoke cid s"
| "store_step P L (AddCrl l v) s = snd (ts_add_crl P L l v s)"

lemma ts_is_revoked_ids: "ts_is_revoked cid s \<longleftrightarrow> cid \<in> set (revoked_cert_ids s)"
  by (simp add: ts_is_revoked_def revoked_cert_ids_def map_of_eq_None_iff)

lemma ts_verify_cong:
  "anchors s' = anchors s \<Longrightarrow> ts_is_revoked (cert_id sc) s' = ts_is_revoked (cert_id sc) s \<Longrightarrow>
   ts_verify P clock sc now expected s' = ts_verify P clock sc now expected s"
  by (cases "map_of (anchors s) (issuer_id sc)") (simp_all add: ts_verify_def)

lemma store_step_revoked:
  "ts_is_revoked cid s \<Longrightarrow> x \<noteq> Unrevoke cid \<Longrightarrow> ts_is_revoked cid (store_step P L x s)"
proof (cases x)
  case (AddCrl l v)
  assume "ts_is_revoked cid s"
  then show ?thesis
    using AddCrl fold_update_keeps [of "revoked_certs s" cid "l_revoked l"]
    by (auto simp: ts_is_revoked_def ts_add_crl_def split: sum.splits)
qed (auto simp: ts_is_revoked_def ts_add_def ts_remove_def ts_revoke_def ts_unrevoke_def)

lemma store_run_revoked:
  "ts_is_revoked cid s \<Longrightarrow> Unrevoke cid \<notin> set xs \<Longrightarrow> ts_is_revoked cid (fold (store_step P L) xs s)"
  by (induction xs arbitrary: s) (auto simp: store_step_revoked)

lemma ts_verify_revoked:
  "ts_is_revoked (cert_id sc) s \<Longrightarrow> ts_verify P clock sc now expected s \<in> {Inl UntrustedCardError, Inl RevokedCardError}"
  by (auto simp: ts_verify_def split: option.splits)

section \<open>Lemmas: persistence\<close>

definition store_ok :: "trust_store \<Rightarrow> bool" where
  "store_ok s \<longleftrightarrow> keys_distinct (anchors s) \<and> (\<forall>(k, a) \<in> set (anchors s). anchor_id a = k) \<and>
     keys_distinct (revoked_certs s)"

lemma keys_distinct_fold_update:
  "keys_distinct d \<Longrightarrow> keys_distinct (fold (\<lambda>(k, v) d. AList.update k v d) xs d)"
  by (induction xs arbitrary: d) auto

lemma set_update_subset: "set (AList.update k v d) \<subseteq> insert (k, v) (set d)"
  by (induction d) auto

lemma store_ok_step: "store_ok s \<Longrightarrow> store_ok (store_step P L x s)"
proof (cases x)
  case (AddAnchor a)
  assume "store_ok s"
  then show ?thesis
    using set_update_subset [of "anchor_id a" a "anchors s"]
    by (auto simp: AddAnchor store_ok_def ts_add_def)
next
  case (AddCrl l v)
  assume "store_ok s"
  then show ?thesis
    by (auto simp: AddCrl store_ok_def ts_add_crl_def keys_distinct_fold_update split: sum.splits)
next
  case (RemoveAnchor aid)
  assume "store_ok s"
  then show ?thesis
    by (auto simp: RemoveAnchor store_ok_def ts_remove_def AList.delete_eq)
qed (auto simp: store_ok_def ts_revoke_def ts_unrevoke_def)

lemma anchor_roundtrip: "anchor_from_dict (anchor_to_dict a) = Inr a"
  by (simp add: anchor_from_dict_def anchor_to_dict_def parse_hex_keys)
lemma update_new: "map_of d k = None \<Longrightarrow> AList.update k v d = d @ [(k, v)]"
  by (induction d) (auto split: if_splits)

lemma fold_update_append:
  "keys_distinct (d @ xs) \<Longrightarrow> fold (\<lambda>(k, v) d. AList.update k v d) xs d = d @ xs"
  by (induction xs arbitrary: d) (auto simp: update_new map_of_eq_None_iff)

lemma fold_ts_add:
  "fold ts_add as s =
   s\<lparr>anchors := fold (\<lambda>(k, v) d. AList.update k v d) (map (\<lambda>a. (anchor_id a, a)) as) (anchors s)\<rparr>"
  by (induction as arbitrary: s) (simp_all add: ts_add_def)

definition stored_info :: "time \<Rightarrow> dict \<Rightarrow> dict" where
  \<comment> \<open>what \<open>revoke\<close> stores for an entry of the file\<close>
  "stored_info now info =
     [(''revocation_date'', if dget info ''revocation_date'' = PNone then PInt (trunc now)
        else dget info ''revocation_date''),
      (''reason'', dget_default info ''reason'' (PStr ''unspecified''))]"

lemma fold_ts_revoke:
  "fold (\<lambda>(cid, info) s. ts_revoke now cid (dget_default info ''reason'' (PStr ''unspecified''))
     (dget info ''revocation_date'') s) infos s =
   s\<lparr>revoked_certs := fold (\<lambda>(k, v) d. AList.update k v d)
     (map (\<lambda>(cid, info). (cid, stored_info now info)) infos) (revoked_certs s)\<rparr>"
  by (induction infos arbitrary: s) (auto simp: ts_revoke_def stored_info_def)

lemma load_anchors:
  "res_map load_anchor (map (\<lambda>(_, a). PDict (anchor_to_dict a)) xs) = Inr (map snd xs)"
  by (induction xs) (auto simp: load_anchor_def anchor_roundtrip)

lemma load_infos:
  "res_map (\<lambda>(cid, v). rbind (py_items v) (\<lambda>info. Inr (cid, info))) (map (\<lambda>(k, d). (k, PDict d)) xs) = Inr xs"
  by (induction xs) auto

lemma store_load_eq:
  assumes "store_ok s"
  shows "store_load now (PDict (store_to_dict s)) =
    Inr \<lparr>anchors = anchors s, revoked_certs = map (\<lambda>(cid, info). (cid, stored_info now info)) (revoked_certs s)\<rparr>"
proof -
  let ?infos = "map (\<lambda>(cid, info). (cid, stored_info now info)) (revoked_certs s)"
  have "map (\<lambda>a. (anchor_id a, a)) (map snd (anchors s)) = anchors s"
    using assms unfolding store_ok_def by (induction "anchors s") (auto intro!: map_idI)
  moreover have "fold (\<lambda>(k, v) d. AList.update k v d) (anchors s) [] = anchors s"
    using fold_update_append [of "[]" "anchors s"] assms by (simp add: store_ok_def)
  moreover have "fold (\<lambda>(k, v) d. AList.update k v d) ?infos [] = ?infos"
    using fold_update_append [of "[]" ?infos] assms by (simp add: store_ok_def o_def case_prod_unfold)
  moreover have "dget_default (store_to_dict s) ''anchors'' (PList []) =
      PList (map (\<lambda>(_, a). PDict (anchor_to_dict a)) (anchors s))"
    "dget_default (store_to_dict s) ''revoked_certs'' (PDict []) = PDict (map (\<lambda>(k, d). (k, PDict d)) (revoked_certs s))"
    by (simp_all add: dget_default_def has_key_def dget_def store_to_dict_def)
  ultimately show ?thesis
    by (simp add: store_load_def load_anchors load_infos fold_ts_add fold_ts_revoke ts_init_def)
qed

section \<open>A concrete certificate\<close>

definition demo_anchor :: identity where
  "demo_anchor = demo_identity\<lparr>entity_id := ''root'', i_name := ''Root'', i_role := ''TRUST-ANCHOR'',
     keypair := demo_keypair 3, i_pub := demo_pubkeys 3\<rparr>"

definition demo_public_anchor :: public_anchor where
  "demo_public_anchor = \<lparr>anchor_id = ''root'', a_name = ''Root'', a_public_keys = demo_pubkeys 3, a_created_at = ''0''\<rparr>"

definition demo_store :: trust_store where
  "demo_store = ts_add demo_public_anchor ts_init"

lemma demo_anchor_keys: "is_keypair demo_prims (keypair demo_anchor) (i_pub demo_anchor)"
  by (simp add: demo_anchor_def demo_is_keypair)

lemma demo_anchor_card: "public_anchor_of demo_lib 0 demo_anchor = Inr demo_public_anchor"
proof -
  have "validate_role ''TRUST-ANCHOR'' = Inr ''TRUST-ANCHOR''" by code_simp
  then show ?thesis
    by (simp add: public_anchor_of_def identity_card_def card_new_def demo_anchor_def demo_identity_def
        demo_public_anchor_def)
qed

lemma issue_ok:
  assumes "signature_laws P" and "is_keypair P (keypair i) (i_pub i)" and "0 < days" and "days \<le> 730"
    and "is_ok (card_signable c nb (nb + days * 86400) cid)"
  shows "\<exists>sc. issue P rnd now cid c days (Some nb) i = Inr sc"
proof -
  obtain b where b: "card_signable c nb (nb + days * 86400) cid = Inr b" using assms(5) by (auto simp: is_ok_iff)
  obtain cs qs where "hybrid_sign P rnd b (keypair i) = Inr [(''classical_sig'', PStr (hex cs)), (''pqc_sig'', PStr (hex qs))]"
    using sign_verify [OF assms(1,2), of rnd b] by blast
  with b assms(3,4) show ?thesis by (simp add: issue_def)
qed

lemma demo_issue: "\<exists>sc. issue demo_prims [7] 1000 ''cert-1'' demo_card 1 (Some 1000) demo_anchor = Inr sc"
proof -
  have u: "length (utf8 t) \<le> 0xFFFFFFFF" if "length t \<le> 20" for t
    using that length_utf8_le [of t] by simp
  have n: "length (str_int k) \<le> 20" if "\<bar>k\<bar> < 10 ^ 18" for k
    using length_str_int [OF that] by simp
  have "\<exists>b. card_signable demo_card 1000 (1000 + 1 * 86400) ''cert-1'' = Inr b"
    by (simp add: card_signable_def demo_card_def demo_pubkeys_def bind_fields_ok u n del: bind_fields.simps)
  then have "is_ok (card_signable demo_card 1000 (1000 + 1 * 86400) ''cert-1'')" by (auto simp: is_ok_iff)
  then show ?thesis by (intro issue_ok [OF demo_signature demo_anchor_keys]) simp_all
qed

lemma demo_store_lookup: "map_of (anchors demo_store) ''root'' = Some demo_public_anchor"
  by (simp add: demo_store_def ts_add_def ts_init_def demo_public_anchor_def)
section \<open>Properties\<close>

text \<open>A card that an anchor issued verifies in every store that trusts the anchor, has not
  revoked the certificate and expects nobody else, at every time of its validity window, and
  verification returns the very card. The window has the requested length of 1 to 730 days.\<close>

theorem issued_card_verifies:
  assumes "signature_laws P" and "is_keypair P (keypair i) (i_pub i)"
    and "issue P rnd now cid c days start i = Inr sc" and "public_anchor_of L t0 i = Inr a"
    and "map_of (anchors s) (entity_id i) = Some a" and "\<not> ts_is_revoked cid s"
    and "expected = None \<or> expected = Some (c_entity_id c)" and "is_time_valid clock t sc"
  shows "ts_verify P clock sc t expected s = Inr c \<and> 0 < days \<and> days \<le> 730 \<and>
    not_after sc = not_before sc + days * 86400"
proof -
  obtain b where b: "0 < days" "days \<le> 730" "sc_card sc = c" "cert_id sc = cid" "issuer_id sc = entity_id i"
    "not_after sc = not_before sc + days * 86400" "card_signable c (not_before sc) (not_after sc) cid = Inr b"
    "hybrid_verify P b (signed_sigs (classical_sig sc) (pqc_sig sc)) (i_pub i) False = Inr True"
    by (rule issue_Inr [OF assms(1-3)])
  have "check_time_validity clock t sc = Inr ()" using assms(8) by (simp add: check_time_iff)
  with b assms(5-7) public_anchor_of_Inr [OF assms(4)] show ?thesis
    by (auto simp: ts_verify_def)
qed

theorem issued_card_verifies_witness:
  "\<exists>sc. ts_verify demo_prims 1500 sc None (Some ''alice'') demo_store = Inr demo_card"
proof -
  obtain sc where i: "issue demo_prims [7] 1000 ''cert-1'' demo_card 1 (Some 1000) demo_anchor = Inr sc"
    using demo_issue by blast
  have n: "not_before sc = 1000" "not_after sc = 87400"
    using issue_Inr [OF demo_signature demo_anchor_keys i] by force+
  have "is_time_valid 1500 None sc" by (simp add: is_time_valid_def n trunc_def)
  moreover have "\<not> ts_is_revoked ''cert-1'' demo_store"
    by (simp add: ts_is_revoked_def demo_store_def ts_add_def ts_init_def)
  moreover have "entity_id demo_anchor = ''root''" "c_entity_id demo_card = ''alice''"
    by (simp_all add: demo_anchor_def demo_card_def)
  ultimately show ?thesis
    using issued_card_verifies [OF demo_signature demo_anchor_keys i demo_anchor_card, of demo_store
        "Some ''alice''" 1500 None] demo_store_lookup by auto
qed

text \<open>C35: What acceptance by \<open>TrustStore.verify\<close> means: the issuer is an anchor of the store, the
  certificate is not revoked, the time lies in the validity window, the card is of the expected
  entity, and both signatures verify under the anchor's keys over the binding of every identity
  field, the four keys, the key version, the window and the certificate id.\<close>

theorem ts_verify_sound:
  assumes "ts_verify P clock sc now expected s = Inr c"
  shows "\<exists>a x k sg q b. map_of (anchors s) (issuer_id sc) = Some a \<and> \<not> ts_is_revoked (cert_id sc) s \<and>
    is_time_valid clock now sc \<and> c = sc_card sc \<and> expected \<in> {None, Some (c_entity_id c)} \<and>
    map_of (c_public_keys c) ''exchange_pub'' = Some x \<and> map_of (c_public_keys c) ''kem_pub'' = Some k \<and>
    map_of (c_public_keys c) ''signing_pub'' = Some sg \<and> map_of (c_public_keys c) ''pqc_sig_pub'' = Some q \<and>
    bind_fields [utf8 (c_entity_id c), utf8 (c_name c), utf8 (c_role c), utf8 (c_created_at c), x, k, sg, q,
      utf8 (str_int (c_key_version c)), utf8 (str_int (not_before sc)), utf8 (str_int (not_after sc)),
      utf8 (cert_id sc)] = Inr b \<and>
    hybrid_verify P b (signed_sigs (classical_sig sc) (pqc_sig sc)) (a_public_keys a) False = Inr True"
  using assms
proof (rule ts_verify_Inr)
  fix a b
  assume t: "map_of (anchors s) (issuer_id sc) = Some a" "\<not> ts_is_revoked (cert_id sc) s"
    "\<And>e. expected = Some e \<Longrightarrow> c_entity_id c = e" "c = sc_card sc" "check_time_validity clock now sc = Inr ()"
    "hybrid_verify P b (signed_sigs (classical_sig sc) (pqc_sig sc)) (a_public_keys a) False = Inr True"
  assume "card_signable c (not_before sc) (not_after sc) (cert_id sc) = Inr b"
  then show ?thesis
  proof (rule card_signable_Inr)
    fix x k sg q
    assume "subscript (c_public_keys c) ''exchange_pub'' = Inr x" "subscript (c_public_keys c) ''kem_pub'' = Inr k"
      "subscript (c_public_keys c) ''signing_pub'' = Inr sg" "subscript (c_public_keys c) ''pqc_sig_pub'' = Inr q"
      and b: "bind_fields [utf8 (c_entity_id c), utf8 (c_name c), utf8 (c_role c), utf8 (c_created_at c), x, k, sg, q,
        utf8 (str_int (c_key_version c)), utf8 (str_int (not_before sc)), utf8 (str_int (not_after sc)),
        utf8 (cert_id sc)] = Inr b"
    moreover have "is_time_valid clock now sc" using t(5) by (simp add: check_time_iff)
    moreover have "expected \<in> {None, Some (c_entity_id c)}" using t(3) by (cases expected) auto
    ultimately show ?thesis
      using t(1,2,4,6) unfolding subscript_Inr_iff by blast
  qed
qed

theorem ts_verify_sound_witness:
  "\<exists>sc b. ts_verify demo_prims 1500 sc None None demo_store = Inr demo_card \<and>
     hybrid_verify demo_prims b (signed_sigs (classical_sig sc) (pqc_sig sc)) (demo_pubkeys 3) False = Inr True"
proof -
  obtain sc where i: "issue demo_prims [7] 1000 ''cert-1'' demo_card 1 (Some 1000) demo_anchor = Inr sc"
    using demo_issue by blast
  obtain b where b: "not_before sc = 1000" "not_after sc = not_before sc + 1 * 86400" "sc_card sc = demo_card"
    "issuer_id sc = entity_id demo_anchor" "cert_id sc = ''cert-1''"
    "card_signable demo_card (not_before sc) (not_after sc) ''cert-1'' = Inr b"
    "hybrid_verify demo_prims b (signed_sigs (classical_sig sc) (pqc_sig sc)) (i_pub demo_anchor) False = Inr True"
    using issue_Inr [OF demo_signature demo_anchor_keys i] by (metis option.simps(5))
  have r: "entity_id demo_anchor = ''root''" "i_pub demo_anchor = demo_pubkeys 3"
    by (simp_all add: demo_anchor_def)
  have v: "ts_verify demo_prims 1500 sc None None demo_store = Inr demo_card"
    using b demo_store_lookup
    by (simp add: ts_verify_def r check_time_validity_def trunc_def ts_is_revoked_def demo_public_anchor_def)
      (simp add: demo_store_def ts_add_def ts_init_def)
  from ts_verify_sound [OF this] have "\<exists>b. hybrid_verify demo_prims b (signed_sigs (classical_sig sc) (pqc_sig sc))
      (a_public_keys demo_public_anchor) False = Inr True"
    using b(4) demo_store_lookup r by auto
  with v show ?thesis by (auto simp: demo_public_anchor_def)
qed

text \<open>What the anchor's signature does not bind: verification accepts a signed card whose
  \<open>valid_until\<close>, revocation mark, reason and date, or the issuer's display name, were changed
  by anybody, and returns the changed card.\<close>

theorem card_flags_unsigned:
  assumes "ts_verify P clock sc now expected s = Inr c"
  shows "ts_verify P clock (sc\<lparr>issuer_name := n, sc_card := c\<lparr>c_valid_until := v, c_is_revoked := r,
      c_revocation_reason := w, c_revoked_at := d\<rparr>\<rparr>) now expected s =
    Inr (c\<lparr>c_valid_until := v, c_is_revoked := r, c_revocation_reason := w, c_revoked_at := d\<rparr>)"
  using assms
  by (auto simp: ts_verify_def res_Inr_iffs card_signable_def check_time_validity_def Let_def
      simp del: bind_fields.simps split: option.splits)
theorem card_flags_unsigned_witness:
  "\<exists>sc. ts_verify demo_prims 1500 sc None None demo_store =
     Inr (demo_card\<lparr>c_valid_until := None, c_is_revoked := True, c_revocation_reason := None, c_revoked_at := None\<rparr>)"
proof -
  obtain sc where i: "issue demo_prims [7] 1000 ''cert-1'' demo_card 1 (Some 1000) demo_anchor = Inr sc"
    using demo_issue by blast
  obtain b where b: "not_before sc = 1000" "not_after sc = not_before sc + 1 * 86400" "sc_card sc = demo_card"
    "issuer_id sc = entity_id demo_anchor" "cert_id sc = ''cert-1''"
    "card_signable demo_card (not_before sc) (not_after sc) ''cert-1'' = Inr b"
    "hybrid_verify demo_prims b (signed_sigs (classical_sig sc) (pqc_sig sc)) (i_pub demo_anchor) False = Inr True"
    using issue_Inr [OF demo_signature demo_anchor_keys i] by (metis option.simps(5))
  have r: "entity_id demo_anchor = ''root''" "i_pub demo_anchor = demo_pubkeys 3"
    by (simp_all add: demo_anchor_def)
  have "ts_verify demo_prims 1500 sc None None demo_store = Inr demo_card"
    using b demo_store_lookup
    by (simp add: ts_verify_def r check_time_validity_def trunc_def ts_is_revoked_def demo_public_anchor_def)
      (simp add: demo_store_def ts_add_def ts_init_def)
  from card_flags_unsigned [OF this] show ?thesis by blast
qed

text \<open>C36: A revoked certificate stays rejected: once the registry holds a certificate id, by a direct
  revocation or an accepted revocation list, no sequence of later store operations (adding and
  removing anchors, revocations, further lists) makes a card with that id verify, unless the id
  itself is unrevoked.\<close>

theorem revoked_stays_rejected:
  assumes "ts_add_crl P L l v s = (Inr (), s') \<and> crl_is_revoked (cert_id sc) l \<or>
      s' = ts_revoke t (cert_id sc) reason date s"
    and "Unrevoke (cert_id sc) \<notin> set xs"
  shows "ts_verify P' clock sc now expected (fold (store_step P' L') xs s') \<in>
    {Inl UntrustedCardError, Inl RevokedCardError}"
proof -
  have "ts_is_revoked (cert_id sc) s'"
    using assms(1) fold_update_adds [of "l_revoked l" "cert_id sc" "revoked_certs s"]
    by (auto simp: ts_is_revoked_def ts_revoke_def ts_add_crl_def crl_is_revoked_def split: sum.splits)
  then show ?thesis
    by (intro ts_verify_revoked store_run_revoked [OF _ assms(2)])
qed

theorem revoked_stays_rejected_witness:
  "\<not> is_ok (ts_verify demo_prims 1500 \<lparr>sc_card = demo_card, cert_id = ''c'', issuer_id = ''root'', issuer_name = [],
      not_before = 0, not_after = 9999, classical_sig = [], pqc_sig = []\<rparr> None None
     (fold (store_step demo_prims demo_lib) [RemoveAnchor ''root'', AddAnchor demo_public_anchor, Unrevoke ''d'']
       (ts_revoke 5 ''c'' (PStr ''lost'') PNone demo_store)))"
  using revoked_stays_rejected [where s' = "ts_revoke 5 ''c'' (PStr ''lost'') PNone demo_store" and
      sc = "\<lparr>sc_card = demo_card, cert_id = ''c'', issuer_id = ''root'', issuer_name = [],
      not_before = 0, not_after = 9999, classical_sig = [], pqc_sig = []\<rparr>" and t = 5 and
      reason = "PStr ''lost''" and date = PNone and s = demo_store and
      xs = "[RemoveAnchor ''root'', AddAnchor demo_public_anchor, Unrevoke ''d'']" and P' = demo_prims and
      L' = demo_lib and clock = 1500 and now = None and expected = None]
  by (auto simp: is_ok_iff)

text \<open>The signed bytes of a revocation list are ambiguous: an entry whose reason starts with an
  integer and a colon has the same bytes as an entry for another certificate id. Anybody can so
  change a signed list that it still verifies under the same keys and no longer revokes the
  certificate.\<close>

theorem crl_entry_ambiguous:
  assumes "l_revoked l = [(cid, revocation_info d (str_int e @ '':'' @ rest))]"
    and "l' = l\<lparr>l_revoked := [(cid @ '':'' @ str_int d, revocation_info e rest)]\<rparr>"
  shows "crl_verify P L pks l' = crl_verify P L pks l \<and> crl_is_revoked cid l \<and> \<not> crl_is_revoked cid l'"
proof -
  have "crl_entries L l = Inr [(cid, d, str_int e @ '':'' @ rest)]"
    "crl_entries L l' = Inr [(cid @ '':'' @ str_int d, e, rest)]"
    using assms
    by (simp_all add: crl_entries_def info_entry_def revocation_info_def dget_default_def has_key_def dget_def)
  moreover have "crl_signable iid n ts [(cid, d, str_int e @ '':'' @ rest)] =
      crl_signable iid n ts [(cid @ '':'' @ str_int d, e, rest)]" for iid n ts
    by (simp add: crl_signable_def)
  ultimately show ?thesis
    using assms by (simp add: crl_verify_def crl_is_revoked_def)
qed

theorem crl_entry_ambiguous_witness:
  "\<not> crl_is_revoked ''cert'' \<lparr>l_issuer_id = ''root'', l_issuer_name = [], l_crl_number = 1, l_issued_at = 5,
     l_revoked = [(''cert:5'', revocation_info 24 '' stolen'')], l_classical_sig = [], l_pqc_sig = []\<rparr> \<and>
   crl_is_revoked ''cert'' \<lparr>l_issuer_id = ''root'', l_issuer_name = [], l_crl_number = 1, l_issued_at = 5,
     l_revoked = [(''cert'', revocation_info 5 ''24: stolen'')], l_classical_sig = [], l_pqc_sig = []\<rparr>"
proof -
  have s: "str_int 24 = ''24''" "str_int 5 = ''5''" by code_simp+
  show ?thesis
    using crl_entry_ambiguous [where l = "\<lparr>l_issuer_id = ''root'', l_issuer_name = [], l_crl_number = 1,
        l_issued_at = 5, l_revoked = [(''cert'', revocation_info 5 ''24: stolen'')], l_classical_sig = [],
        l_pqc_sig = []\<rparr>" and cid = "''cert''" and d = 5 and e = 24 and rest = "'' stolen''", OF _ refl]
    by (simp add: s)
qed

text \<open>A store survives its file: loading what \<open>to_dict\<close> wrote gives the same anchors in the same
  order and the same revoked certificates, so every card verifies as before.\<close>

theorem store_roundtrip:
  assumes "store_ok s"
  shows "\<exists>s'. store_load now (PDict (store_to_dict s)) = Inr s' \<and> store_ok s' \<and> anchors s' = anchors s \<and>
    revoked_cert_ids s' = revoked_cert_ids s \<and>
    (\<forall>P clock sc t e. ts_verify P clock sc t e s' = ts_verify P clock sc t e s)"
proof -
  let ?s = "\<lparr>anchors = anchors s, revoked_certs = map (\<lambda>(cid, info). (cid, stored_info now info)) (revoked_certs s)\<rparr>"
  have ids: "revoked_cert_ids ?s = revoked_cert_ids s"
    by (simp add: revoked_cert_ids_def o_def case_prod_unfold)
  then have "ts_is_revoked cid ?s = ts_is_revoked cid s" for cid
    by (simp only: ts_is_revoked_ids)
  then have "ts_verify P clock sc t e ?s = ts_verify P clock sc t e s" for P clock sc t e
    by (intro ts_verify_cong) simp_all
  moreover have "store_ok ?s"
    using assms by (simp add: store_ok_def o_def case_prod_unfold)
  ultimately show ?thesis
    using store_load_eq [OF assms, of now] ids by (intro exI [of _ ?s]) simp
qed

theorem store_roundtrip_witness:
  "\<exists>s'. store_load 9 (PDict (store_to_dict (ts_revoke 5 ''c'' (PStr ''lost'') PNone demo_store))) = Inr s' \<and>
     revoked_cert_ids s' = [''c''] \<and> anchor_ids s' = [''root'']"
proof -
  have "store_ok (ts_revoke 5 ''c'' (PStr ''lost'') PNone demo_store)"
    by (simp add: store_ok_def ts_revoke_def demo_store_def ts_add_def ts_init_def)
  from store_roundtrip [OF this, of 9] show ?thesis
    by (auto simp: anchor_ids_def revoked_cert_ids_def ts_revoke_def demo_store_def ts_add_def ts_init_def
        demo_public_anchor_def)
qed

end
