(* ===== verification/JsonIndent.thy ===== *)
theory JsonIndent
  imports Json
begin

text \<open>
  \<open>json.dumps\<close> with \<open>indent=2\<close>, the form in which the program writes its files: every item and
  member on its own line, two spaces per level. The theorem is the round trip through the
  parser of \<open>Json\<close>.
\<close>

definition newline :: "nat \<Rightarrow> string" where
  "newline l = CHR 0x0A # replicate (2 * l) CHR '' ''"

fun pretty :: "(rat \<Rightarrow> string) \<Rightarrow> nat \<Rightarrow> pyval \<Rightarrow> string"
  and pretty_items :: "(rat \<Rightarrow> string) \<Rightarrow> nat \<Rightarrow> pyval list \<Rightarrow> string"
  and pretty_members :: "(rat \<Rightarrow> string) \<Rightarrow> nat \<Rightarrow> (string \<times> pyval) list \<Rightarrow> string" where
  "pretty fr l (PList vs) =
     (if vs = [] then ''[]'' else CHR ''['' # newline (Suc l) @ pretty_items fr (Suc l) vs @ newline l @ '']'')"
| "pretty fr l (PDict d) =
     (if d = [] then ''{}'' else CHR ''{'' # newline (Suc l) @ pretty_members fr (Suc l) d @ newline l @ ''}'')"
| "pretty fr l v = dumps fr False v"
| "pretty_items fr l [] = []"
| "pretty_items fr l (v # vs) =
     pretty fr l v @ (if vs = [] then [] else CHR '','' # newline l @ pretty_items fr l vs)"
| "pretty_members fr l [] = []"
| "pretty_members fr l ((k, v) # d) =
     quote k @ '': '' @ pretty fr l v @ (if d = [] then [] else CHR '','' # newline l @ pretty_members fr l d)"

section \<open>Lemmas\<close>

lemma skip_newline [simp]: "skip_ws (newline l @ r) = skip_ws r"
proof -
  have "dropWhile is_ws (replicate n CHR '' '' @ r) = dropWhile is_ws r" for n
    by (induction n) (simp_all add: is_ws_def)
  then show ?thesis by (simp add: newline_def skip_ws_def is_ws_def)
qed

lemma delim_newline [simp]: "delim (newline l @ r)"
  by (simp add: newline_def delim_def is_digit_def digitval_def)

lemma length_newline [simp]: "length (newline l) = Suc (2 * l)"
  by (simp add: newline_def)

lemma pretty_first:
  assumes "json_ok v"
  obtains c cs where "pretty fr l v = c # cs" "\<not> is_ws c" "c \<noteq> CHR '']''"
proof -
  have "\<exists>c cs. pretty fr l v = c # cs \<and> \<not> is_ws c \<and> c \<noteq> CHR '']''"
  proof (cases "(\<exists>vs. v = PList vs) \<or> (\<exists>d. v = PDict d)")
    case True
    then show ?thesis by (auto simp: is_ws_def)
  next
    case False
    then have "pretty fr l v = dumps fr False v" by (cases v) auto
    with dumps_first [OF assms, of fr False] show ?thesis by metis
  qed
  with that show ?thesis by blast
qed

lemma skip_ws_pretty: "json_ok v \<Longrightarrow> skip_ws (pretty fr l v @ r) = pretty fr l v @ r"
  by (rule pretty_first [of v fr l]) (auto simp: skip_ws_def)

lemma pretty_scalar:
  assumes "json_ok v" and "pretty fr l v = dumps fr False v" and "delim r" and "2 * length (pretty fr l v) \<le> n"
  shows "pvalue n (pretty fr l v @ r) = Some (v, r)"
  using parse_dumps(1) [OF assms(1,3), of fr False n] assms(2,4) by simp

lemma parse_pretty:
  "json_ok v \<Longrightarrow> delim r \<Longrightarrow> 2 * length (pretty fr l v) \<le> n \<Longrightarrow> pvalue n (pretty fr l v @ r) = Some (v, r)"
  "\<forall>v \<in> set vs. json_ok v \<Longrightarrow> vs \<noteq> [] \<Longrightarrow> 2 * length (pretty_items fr l vs) + 1 \<le> n \<Longrightarrow>
     pitems n (pretty_items fr l vs @ newline m @ CHR '']'' # r) = Some (vs, r)"
  "\<forall>p \<in> set d. json_ok (snd p) \<Longrightarrow> d \<noteq> [] \<Longrightarrow> keys_distinct (acc @ d) \<Longrightarrow>
     2 * length (pretty_members fr l d) + 1 \<le> n \<Longrightarrow>
     pmembers n acc (pretty_members fr l d @ newline m @ CHR ''}'' # r) = Some (acc @ d, r)"
proof (induction fr l v and fr l vs and fr l d arbitrary: n r and n r m and n r m acc
    rule: pretty_pretty_items_pretty_members.induct)
  case (1 fr l vs)
  obtain k where n: "n = Suc k" using 1 by (cases n) (simp_all split: if_splits)
  show ?case
  proof (cases vs)
    case Nil
    with n show ?thesis by (simp add: skip_ws_char)
  next
    case (Cons v ws)
    have ok: "json_ok v" using 1 Cons by simp
    obtain c cs where c: "pretty fr (Suc l) v = c # cs" "\<not> is_ws c" "c \<noteq> CHR '']''"
      by (rule pretty_first [OF ok])
    have "pitems k (pretty_items fr (Suc l) vs @ newline l @ CHR '']'' # r) = Some (vs, r)"
      using 1 Cons n by simp
    moreover obtain ds where "pretty_items fr (Suc l) vs @ newline l @ CHR '']'' # r = c # ds"
      using c Cons by simp
    ultimately show ?thesis using c n Cons by (simp add: skip_ws_char)
  qed
next
  case (2 fr l d)
  obtain k where n: "n = Suc k" using 2 by (cases n) (simp_all split: if_splits)
  show ?case
  proof (cases d)
    case Nil
    with n show ?thesis by (simp add: skip_ws_char)
  next
    case (Cons p e)
    obtain kk v where p: "p = (kk, v)" by (cases p)
    have "pmembers k [] (pretty_members fr (Suc l) d @ newline l @ CHR ''}'' # r) = Some (d, r)"
      using 2 Cons n by simp
    moreover obtain ds where "pretty_members fr (Suc l) d @ newline l @ CHR ''}'' # r = CHR 0x22 # ds"
      using Cons p by (simp add: quote_def)
    ultimately show ?thesis using n Cons by (simp add: skip_ws_char)
  qed
next
  case (4 fr l)
  then show ?case by simp
next
  case (5 fr l v vs)
  obtain k where n: "n = Suc k" using 5 by (cases n) simp_all
  show ?case
  proof (cases "vs = []")
    case True
    have "pvalue k (pretty fr l v @ newline m @ CHR '']'' # r) = Some (v, newline m @ CHR '']'' # r)"
      using 5 n by (intro 5(1)) auto
    with True n show ?thesis by (simp add: skip_ws_char)
  next
    case False
    let ?r = "pretty_items fr l vs @ newline m @ CHR '']'' # r"
    have v: "pvalue k (pretty fr l v @ CHR '','' # newline l @ ?r) = Some (v, CHR '','' # newline l @ ?r)"
      using 5 n by (intro 5(1)) auto
    obtain w ws where vs: "vs = w # ws" using False by (cases vs) auto
    then have "skip_ws ?r = ?r" using 5(3) skip_ws_pretty [of w] by simp
    moreover have "pitems k ?r = Some (vs, r)"
      using 5 n False by (intro 5(2)) auto
    ultimately show ?thesis
      using v n False by (simp add: skip_ws_char)
  qed
next
  case (6 fr l)
  then show ?case by simp
next
  case (7 fr l key v d)
  obtain k where n: "n = Suc k" using 7 by (cases n) simp_all
  have key: "pstring (concat (map escape_char key) @ CHR 0x22 # x) = Some (key, x)" for x
    by (rule pstring_quoted)
  have new: "AList.update key v acc = acc @ [(key, v)]" using 7(5) by (simp add: update_new_key)
  have ok: "json_ok v" using 7(3) by simp
  have sp: "skip_ws (CHR '' '' # pretty fr l v @ x) = pretty fr l v @ x" for x
    using skip_ws_pretty [OF ok, of fr l x] by (simp add: skip_ws_def)
  show ?case
  proof (cases "d = []")
    case True
    have "pvalue k (pretty fr l v @ newline m @ CHR ''}'' # r) = Some (v, newline m @ CHR ''}'' # r)"
      using 7 n by (intro 7(1)) auto
    with True n key new sp show ?thesis
      by (simp add: quote_def skip_ws_char)
  next
    case False
    let ?r = "pretty_members fr l d @ newline m @ CHR ''}'' # r"
    have v: "pvalue k (pretty fr l v @ CHR '','' # newline l @ ?r) = Some (v, CHR '','' # newline l @ ?r)"
      using 7 n by (intro 7(1)) auto
    obtain k' v' e where d: "d = (k', v') # e" using False by (cases d) auto
    then have "skip_ws ?r = ?r" by (simp add: skip_ws_quote)
    moreover have "pmembers k (acc @ [(key, v)]) ?r = Some ((acc @ [(key, v)]) @ d, r)"
      using 7 n False by (intro 7(2)) auto
    ultimately show ?thesis
      using v n False key new sp by (simp add: quote_def skip_ws_char)
  qed
qed (rule pretty_scalar; simp)+

lemma loads_pretty: "json_ok v \<Longrightarrow> loads (pretty fr l v) = Inr v"
  using parse_pretty(1) [of v "[]" fr l "2 * length (pretty fr l v) + 2"] skip_ws_pretty [of v fr l "[]"]
  by (simp add: loads_def) (simp add: skip_ws_def)

lemma loads_bytes_pretty: "json_ok v \<Longrightarrow> loads_bytes (utf8 (pretty fr l v)) = Inr v"
  by (simp add: loads_bytes_def loads_pretty)

end
