(* ===== verification/KeyStore.thy ===== *)
theory KeyStore
  imports Signing JsonIndent
begin

text \<open>
  \<open>uxsp/storage/keystore.py\<close>: the interface of the card stores with its wrappers, the
  serialised form of a card, and the in-memory, Redis and caching stores; the file store
  has the theory \<open>FileStore\<close>. The contract of a store is the locale \<open>key_store\<close>: it
  behaves as a map from entity ids to cards. \<open>atomic_key_store\<close> adds that a call that fails
  changes nothing, \<open>reliable_key_store\<close> that no call fails but an insertion without
  \<open>overwrite\<close>. In front of an atomic store a reliable one is an invisible cache.
\<close>

section \<open>Cards\<close>

datatype card = Public public_card | Signed signed_card

definition card_id :: "card \<Rightarrow> string" where
  "card_id c = (case c of Public p \<Rightarrow> c_entity_id p | Signed s \<Rightarrow> c_entity_id (sc_card s))"

definition serialise_card :: "card \<Rightarrow> dict" where
  "serialise_card c =
     (case c of Public p \<Rightarrow> (''type'', PStr ''public'') # card_to_dict p
      | Signed s \<Rightarrow> (''type'', PStr ''signed'') # signed_to_dict s)"

definition deserialise_card :: "pyval \<Rightarrow> card res" where
  "deserialise_card v =
     (case v of
        PDict d \<Rightarrow>
          (let ctype = dget_default d ''type'' (PStr ''public'') in
           if ctype = PStr ''signed'' then rbind (signed_from_dict d) (\<lambda>s. Inr (Signed s))
           else if ctype = PStr ''public'' then rbind (card_from_dict d) (\<lambda>p. Inr (Public p))
           else Inl KeyStoreError)
      | _ \<Rightarrow> Inl AttributeError)"

section \<open>The interface and its wrappers\<close>

record 's kstore =
  ks_put :: "card \<Rightarrow> bool \<Rightarrow> 's \<Rightarrow> unit res \<times> 's"
  ks_get :: "string \<Rightarrow> 's \<Rightarrow> card option res \<times> 's"
  ks_delete :: "string \<Rightarrow> 's \<Rightarrow> bool res \<times> 's"
  ks_list :: "'s \<Rightarrow> (string list res \<times> 's) option"
    \<comment> \<open>\<open>None\<close>: does not return\<close>

definition ks_require :: "'s kstore \<Rightarrow> string \<Rightarrow> 's \<Rightarrow> card res \<times> 's" where
  "ks_require K eid s =
     (case ks_get K eid s of
        (Inl e, s') \<Rightarrow> (Inl e, s')
      | (Inr None, s') \<Rightarrow> (Inl CardNotFoundError, s')
      | (Inr (Some c), s') \<Rightarrow> (Inr c, s'))"

definition ks_public_card :: "'s kstore \<Rightarrow> string \<Rightarrow> 's \<Rightarrow> public_card res \<times> 's" where
  "ks_public_card K eid s =
     (case ks_require K eid s of
        (Inl e, s') \<Rightarrow> (Inl e, s')
      | (Inr c, s') \<Rightarrow> (Inr (case c of Signed sc \<Rightarrow> sc_card sc | Public p \<Rightarrow> p), s'))"

definition ks_has :: "'s kstore \<Rightarrow> string \<Rightarrow> 's \<Rightarrow> bool res \<times> 's" where
  "ks_has K eid s =
     (case ks_get K eid s of (Inl e, s') \<Rightarrow> (Inl e, s') | (Inr r, s') \<Rightarrow> (Inr (r \<noteq> None), s'))"

fun ks_put_many :: "'s kstore \<Rightarrow> card list \<Rightarrow> bool \<Rightarrow> 's \<Rightarrow> unit res \<times> 's" where
  "ks_put_many K [] overwrite s = (Inr (), s)"
| "ks_put_many K (c # cs) overwrite s =
     (case ks_put K c overwrite s of
        (Inl e, s') \<Rightarrow> (Inl e, s') | (Inr _, s') \<Rightarrow> ks_put_many K cs overwrite s')"

definition ks_len :: "'s kstore \<Rightarrow> 's \<Rightarrow> (int res \<times> 's) option" where
  "ks_len K s =
     (case ks_list K s of None \<Rightarrow> None
      | Some (Inl e, s') \<Rightarrow> Some (Inl e, s') | Some (Inr ids, s') \<Rightarrow> Some (Inr (int (length ids)), s'))"

section \<open>The in-memory store\<close>

type_synonym cards = "(string \<times> card) list"

definition mks_put :: "card \<Rightarrow> bool \<Rightarrow> cards \<Rightarrow> unit res \<times> cards" where
  "mks_put c overwrite s =
     (let eid = card_id c in
      if \<not> overwrite \<and> map_of s eid \<noteq> None then (Inl DuplicateCardError, s)
      else (Inr (), AList.update eid c s))"

definition mks_get :: "string \<Rightarrow> cards \<Rightarrow> card option res \<times> cards" where
  "mks_get eid s = (Inr (map_of s eid), s)"

definition mks_delete :: "string \<Rightarrow> cards \<Rightarrow> bool res \<times> cards" where
  "mks_delete eid s =
     (if map_of s eid \<noteq> None then (Inr True, AList.delete eid s) else (Inr False, s))"

definition mks_list :: "cards \<Rightarrow> (string list res \<times> cards) option" where
  "mks_list s = Some (Inr (map fst s), s)"

definition memory_store :: "cards kstore" where
  "memory_store = \<lparr>ks_put = mks_put, ks_get = mks_get, ks_delete = mks_delete, ks_list = mks_list\<rparr>"

section \<open>The Redis store\<close>

text \<open>
  The commands that the store sends, as operations on the state of the server: \<open>SET\<close> with
  \<open>NX\<close> and \<open>EX\<close> (its reply as a truth value), \<open>GET\<close>, \<open>DEL\<close>, and one step of \<open>SCAN\<close> from a
  cursor. Every exception of the driver becomes \<open>KeyStoreBackendError\<close>. The asynchronous
  store sends the same commands.
\<close>

record 'r redis_kv =
  kv_set :: "string \<Rightarrow> string \<Rightarrow> bool \<Rightarrow> int option \<Rightarrow> 'r \<Rightarrow> bool res \<times> 'r"
  kv_get :: "string \<Rightarrow> 'r \<Rightarrow> string option res \<times> 'r"
  kv_del :: "string \<Rightarrow> 'r \<Rightarrow> int res \<times> 'r"
  kv_scan :: "int \<Rightarrow> string \<Rightarrow> 'r \<Rightarrow> (int \<times> string list) res \<times> 'r"

record redis_config =
  kv_prefix :: string
  kv_ttl :: int

definition wrap_backend :: "'a res \<times> 's \<Rightarrow> 'a res \<times> 's" where
  \<comment> \<open>\<open>except KeyStoreError: raise\<close> and \<open>except Exception: raise KeyStoreBackendError\<close>\<close>
  "wrap_backend p = (case p of
     (Inl e, s) \<Rightarrow> (Inl (if e \<in> {KeyStoreError, CardNotFoundError, DuplicateCardError} then e
                       else KeyStoreBackendError), s)
   | (Inr x, s) \<Rightarrow> (Inr x, s))"

definition rks_put :: "'r redis_kv \<Rightarrow> pylib \<Rightarrow> redis_config \<Rightarrow> card \<Rightarrow> bool \<Rightarrow> 'r \<Rightarrow> unit res \<times> 'r" where
  "rks_put R L cf c overwrite r =
     (let raw = dumps (float_repr L) False (PDict (serialise_card c));
          ex = (if 0 < kv_ttl cf then Some (kv_ttl cf) else None)
      in case kv_set R (kv_prefix cf @ card_id c) raw (\<not> overwrite) ex r of
           (Inl e, r') \<Rightarrow> (Inl KeyStoreBackendError, r')
         | (Inr b, r') \<Rightarrow> (if \<not> overwrite \<and> \<not> b then Inl DuplicateCardError else Inr (), r'))"

definition rks_get :: "'r redis_kv \<Rightarrow> redis_config \<Rightarrow> string \<Rightarrow> 'r \<Rightarrow> card option res \<times> 'r" where
  "rks_get R cf eid r =
     wrap_backend (case kv_get R (kv_prefix cf @ eid) r of
        (Inl e, r') \<Rightarrow> (Inl e, r')
      | (Inr None, r') \<Rightarrow> (Inr None, r')
      | (Inr (Some raw), r') \<Rightarrow>
          (rbind (loads raw) (\<lambda>v. rbind (deserialise_card v) (\<lambda>c. Inr (Some c))), r'))"

definition rks_delete :: "'r redis_kv \<Rightarrow> redis_config \<Rightarrow> string \<Rightarrow> 'r \<Rightarrow> bool res \<times> 'r" where
  "rks_delete R cf eid r =
     wrap_backend (case kv_del R (kv_prefix cf @ eid) r of
        (Inl e, r') \<Rightarrow> (Inl e, r') | (Inr n, r') \<Rightarrow> (Inr (n \<noteq> 0), r'))"

text \<open>The loop over the cursors of \<open>SCAN\<close>; it returns only when the server sends cursor 0.\<close>

partial_function (option) scan_loop :: "'r redis_kv \<Rightarrow> string \<Rightarrow> int \<Rightarrow> string list \<Rightarrow> 'r \<Rightarrow>
    (string list res \<times> 'r) option" where
  "scan_loop R pattern cursor ks r =
     (case kv_scan R cursor pattern r of
        (Inl e, r') \<Rightarrow> Some (Inl e, r')
      | (Inr (next, batch), r') \<Rightarrow>
          if next = 0 then Some (Inr (ks @ batch), r') else scan_loop R pattern next (ks @ batch) r')"

definition remove_prefix :: "string \<Rightarrow> string \<Rightarrow> string" where
  "remove_prefix p s = (if starts_with p s then drop (length p) s else s)"

definition rks_list :: "'r redis_kv \<Rightarrow> redis_config \<Rightarrow> 'r \<Rightarrow> (string list res \<times> 'r) option" where
  "rks_list R cf r =
     map_option wrap_backend
      (case scan_loop R (kv_prefix cf @ ''*'') 0 [] r of
         None \<Rightarrow> None
       | Some (Inl e, r') \<Rightarrow> Some (Inl e, r')
       | Some (Inr ks, r') \<Rightarrow> Some (Inr (map (remove_prefix (kv_prefix cf)) ks), r'))"

definition redis_store :: "'r redis_kv \<Rightarrow> pylib \<Rightarrow> redis_config \<Rightarrow> 'r kstore" where
  "redis_store R L cf = \<lparr>ks_put = rks_put R L cf, ks_get = rks_get R cf, ks_delete = rks_delete R cf,
     ks_list = rks_list R cf\<rparr>"

section \<open>The caching store\<close>

definition suppress_backend :: "'a res \<times> 's \<Rightarrow> unit res \<times> 's" where
  \<comment> \<open>\<open>contextlib.suppress(KeyStoreBackendError)\<close> around a call\<close>
  "suppress_backend p = (case p of
     (Inl e, s) \<Rightarrow> (if e = KeyStoreBackendError then Inr () else Inl e, s) | (Inr _, s) \<Rightarrow> (Inr (), s))"

definition cks_put :: "'c kstore \<Rightarrow> 'b kstore \<Rightarrow> card \<Rightarrow> bool \<Rightarrow> 'c \<times> 'b \<Rightarrow> unit res \<times> 'c \<times> 'b" where
  "cks_put KC KB c overwrite = (\<lambda>(cs, bs).
     case ks_put KB c overwrite bs of
       (Inl e, bs') \<Rightarrow> (Inl e, cs, bs')
     | (Inr _, bs') \<Rightarrow> (case suppress_backend (ks_put KC c True cs) of (r, cs') \<Rightarrow> (r, cs', bs')))"

definition cks_get :: "'c kstore \<Rightarrow> 'b kstore \<Rightarrow> string \<Rightarrow> 'c \<times> 'b \<Rightarrow> card option res \<times> 'c \<times> 'b" where
  "cks_get KC KB eid = (\<lambda>(cs, bs).
     let from_backend = (\<lambda>cs1. case ks_get KB eid bs of
            (Inl e, bs') \<Rightarrow> (Inl e, cs1, bs')
          | (Inr None, bs') \<Rightarrow> (Inr None, cs1, bs')
          | (Inr (Some c), bs') \<Rightarrow>
              (case suppress_backend (ks_put KC c True cs1) of
                 (Inl e, cs') \<Rightarrow> (Inl e, cs', bs') | (Inr _, cs') \<Rightarrow> (Inr (Some c), cs', bs')))
     in case ks_get KC eid cs of
          (Inr (Some c), cs1) \<Rightarrow> (Inr (Some c), cs1, bs)
        | (Inr None, cs1) \<Rightarrow> from_backend cs1
        | (Inl e, cs1) \<Rightarrow> if e = KeyStoreBackendError then from_backend cs1 else (Inl e, cs1, bs))"

definition cks_delete :: "'c kstore \<Rightarrow> 'b kstore \<Rightarrow> string \<Rightarrow> 'c \<times> 'b \<Rightarrow> bool res \<times> 'c \<times> 'b" where
  "cks_delete KC KB eid = (\<lambda>(cs, bs).
     case ks_delete KB eid bs of
       (Inl e, bs') \<Rightarrow> (Inl e, cs, bs')
     | (Inr b, bs') \<Rightarrow>
         (case suppress_backend (ks_delete KC eid cs) of
            (Inl e, cs') \<Rightarrow> (Inl e, cs', bs') | (Inr _, cs') \<Rightarrow> (Inr b, cs', bs')))"

definition cks_list :: "'b kstore \<Rightarrow> 'c \<times> 'b \<Rightarrow> (string list res \<times> 'c \<times> 'b) option" where
  "cks_list KB = (\<lambda>(cs, bs). map_option (\<lambda>(r, bs'). (r, cs, bs')) (ks_list KB bs))"

definition caching_store :: "'c kstore \<Rightarrow> 'b kstore \<Rightarrow> ('c \<times> 'b) kstore" where
  "caching_store KC KB = \<lparr>ks_put = cks_put KC KB, ks_get = cks_get KC KB, ks_delete = cks_delete KC KB,
     ks_list = cks_list KB\<rparr>"

section \<open>The contract\<close>

definition storable :: "card \<Rightarrow> bool" where
  \<comment> \<open>the card survives its serialised form\<close>
  "storable c \<longleftrightarrow> json_ok (PDict (serialise_card c)) \<and> deserialise_card (PDict (serialise_card c)) = Inr c"

locale key_store =
  fixes K :: "'s kstore" and lookup :: "'s \<Rightarrow> string \<Rightarrow> card option" and kinv :: "'s \<Rightarrow> bool"
  assumes put_ok: "kinv s \<Longrightarrow> storable c \<Longrightarrow> ks_put K c ow s = (Inr u, s') \<Longrightarrow>
        kinv s' \<and> lookup s' = (lookup s)(card_id c \<mapsto> c) \<and> (ow \<or> lookup s (card_id c) = None)"
    and put_fails: "kinv s \<Longrightarrow> storable c \<Longrightarrow> ks_put K c ow s = (Inl e, s') \<Longrightarrow>
        kinv s' \<and> (lookup s' = lookup s \<or> lookup s' = (lookup s)(card_id c \<mapsto> c))"
    and put_duplicate: "kinv s \<Longrightarrow> storable c \<Longrightarrow> ks_put K c ow s = (Inl DuplicateCardError, s') \<Longrightarrow>
        \<not> ow \<and> lookup s (card_id c) \<noteq> None \<and> lookup s' = lookup s"
    and get_ok: "kinv s \<Longrightarrow> ks_get K eid s = (Inr r, s') \<Longrightarrow> r = lookup s eid"
    and get_keeps: "kinv s \<Longrightarrow> ks_get K eid s = (r', s') \<Longrightarrow> kinv s' \<and> lookup s' = lookup s"
    and delete_ok: "kinv s \<Longrightarrow> ks_delete K eid s = (Inr b, s') \<Longrightarrow>
        kinv s' \<and> lookup s' = (lookup s)(eid := None) \<and> (b \<longleftrightarrow> lookup s eid \<noteq> None)"
    and delete_fails: "kinv s \<Longrightarrow> ks_delete K eid s = (Inl e, s') \<Longrightarrow>
        kinv s' \<and> (lookup s' = lookup s \<or> lookup s' = (lookup s)(eid := None))"
    and stored: "kinv s \<Longrightarrow> lookup s eid = Some c \<Longrightarrow> storable c \<and> card_id c = eid"

locale atomic_key_store = key_store +
  assumes put_atomic: "kinv s \<Longrightarrow> storable c \<Longrightarrow> ks_put K c ow s = (Inl e, s') \<Longrightarrow> lookup s' = lookup s"
    and delete_atomic: "kinv s \<Longrightarrow> ks_delete K eid s = (Inl e, s') \<Longrightarrow> lookup s' = lookup s"

locale reliable_key_store = atomic_key_store +
  assumes put_returns: "kinv s \<Longrightarrow> storable c \<Longrightarrow> \<exists>s'. ks_put K c True s = (Inr (), s')"
    and get_returns: "kinv s \<Longrightarrow> \<exists>r s'. ks_get K eid s = (Inr r, s')"
    and delete_returns: "kinv s \<Longrightarrow> \<exists>b s'. ks_delete K eid s = (Inr b, s')"

text \<open>The wrappers are the same for every store that keeps the contract.\<close>

context key_store
begin

lemma require_ok: "kinv s \<Longrightarrow> ks_require K eid s = (Inr c, s') \<Longrightarrow> lookup s eid = Some c"
  by (auto simp: ks_require_def split: prod.splits sum.splits option.splits dest: get_ok)

lemma require_not_found: "kinv s \<Longrightarrow> fst (ks_get K eid s) \<noteq> Inl CardNotFoundError \<Longrightarrow>
    ks_require K eid s = (Inl CardNotFoundError, s') \<Longrightarrow> lookup s eid = None"
  by (auto simp: ks_require_def split: prod.splits sum.splits option.splits dest: get_ok)

lemma has_ok: "kinv s \<Longrightarrow> ks_has K eid s = (Inr b, s') \<Longrightarrow> b \<longleftrightarrow> lookup s eid \<noteq> None"
  by (auto simp: ks_has_def split: prod.splits sum.splits dest!: get_ok [symmetric])

lemma put_then_get:
  assumes "kinv s" and "storable c" and "ks_put K c ow s = (Inr (), s1)" and "ks_get K (card_id c) s1 = (Inr r, s2)"
  shows "r = Some c"
  using put_ok [OF assms(1-3)] get_ok [OF _ assms(4)] by auto

lemma delete_then_get:
  assumes "kinv s" and "ks_delete K eid s = (Inr b, s1)" and "ks_get K eid s1 = (Inr r, s2)"
  shows "r = None"
  using delete_ok [OF assms(1,2)] get_ok [OF _ assms(3)] by auto

lemma put_many_ok:
  "kinv s \<Longrightarrow> \<forall>c \<in> set cs. storable c \<Longrightarrow> ks_put_many K cs ow s = (Inr (), s') \<Longrightarrow>
   kinv s' \<and> lookup s' = lookup s ++ map_of (rev (map (\<lambda>c. (card_id c, c)) cs))"
proof (induction cs arbitrary: s)
  case (Cons c cs)
  obtain s1 where s1: "ks_put K c ow s = (Inr (), s1)" "ks_put_many K cs ow s1 = (Inr (), s')"
    using Cons.prems(3) by (auto split: prod.splits sum.splits)
  have k: "kinv s1 \<and> lookup s1 = (lookup s)(card_id c \<mapsto> c)"
    using put_ok [OF Cons.prems(1) _ s1(1)] Cons.prems(2) by simp
  have "(lookup s)(card_id c \<mapsto> c) ++ m = lookup s ++ (map_of [(card_id c, c)] ++ m)" for m
    by (auto simp: map_add_def fun_eq_iff split: option.splits)
  moreover have "kinv s' \<and> lookup s' = lookup s1 ++ map_of (rev (map (\<lambda>c. (card_id c, c)) cs))"
    by (rule Cons.IH [OF conjunct1 [OF k] _ s1(2)]) (use Cons.prems(2) in simp)
  ultimately show ?case using conjunct2 [OF k] by (simp only: list.map rev.simps map_of_append simp_thms)
qed simp

end

section \<open>The in-memory store keeps it\<close>

definition cards_inv :: "cards \<Rightarrow> bool" where
  "cards_inv s \<longleftrightarrow> (\<forall>eid c. map_of s eid = Some c \<longrightarrow> storable c \<and> card_id c = eid)"

interpretation memory: reliable_key_store memory_store map_of cards_inv
  by unfold_locales
    (auto simp: memory_store_def mks_put_def mks_get_def mks_delete_def cards_inv_def Let_def
        update_conv' delete_conv' split: if_splits)

section \<open>The caching store keeps it\<close>

text \<open>A reliable cache in front of an atomic backend: what the cache holds, the backend holds.\<close>

definition coherent :: "('c \<Rightarrow> string \<Rightarrow> card option) \<Rightarrow> ('c \<Rightarrow> bool) \<Rightarrow> ('b \<Rightarrow> string \<Rightarrow> card option) \<Rightarrow>
    ('b \<Rightarrow> bool) \<Rightarrow> 'c \<times> 'b \<Rightarrow> bool" where
  "coherent lookC invC lookB invB = (\<lambda>(cs, bs).
     invC cs \<and> invB bs \<and> (\<forall>eid c. lookC cs eid = Some c \<longrightarrow> lookB bs eid = Some c))"

locale caching = cache: reliable_key_store KC lookC invC + backend: atomic_key_store KB lookB invB
  for KC :: "'c kstore" and lookC invC and KB :: "'b kstore" and lookB invB
begin

abbreviation co :: "'c \<times> 'b \<Rightarrow> bool" where "co \<equiv> coherent lookC invC lookB invB"

lemma cks_put_cases:
  assumes "co (cs, bs)" and "storable c" and "cks_put KC KB c ow (cs, bs) = (r, cs', bs')"
  shows "co (cs', bs') \<and> (\<forall>e. r = Inl e \<longrightarrow> ks_put KB c ow bs = (Inl e, bs') \<and> lookB bs' = lookB bs) \<and>
    (r = Inr () \<longrightarrow> ks_put KB c ow bs = (Inr (), bs') \<and> lookB bs' = (lookB bs)(card_id c \<mapsto> c))"
proof -
  note inv = assms(1) [unfolded coherent_def split_conv]
  obtain r1 bs1 where p: "ks_put KB c ow bs = (r1, bs1)" by (cases "ks_put KB c ow bs")
  show ?thesis
  proof (cases r1)
    case (Inl e)
    with p assms(3) have r: "r = Inl e" "bs' = bs1" "cs' = cs" by (auto simp: cks_put_def)
    have "invB bs1" "lookB bs1 = lookB bs"
      using backend.put_fails [OF _ assms(2)] backend.put_atomic [OF _ assms(2)] inv p Inl by blast+
    with inv r p Inl show ?thesis by (auto simp: coherent_def)
  next
    case (Inr u)
    have b: "invB bs1" "lookB bs1 = (lookB bs)(card_id c \<mapsto> c)"
      using backend.put_ok [OF _ assms(2)] inv p Inr by blast+
    obtain cs1 where c1: "ks_put KC c True cs = (Inr (), cs1)"
      using cache.put_returns [OF _ assms(2)] inv by blast
    have c: "invC cs1" "lookC cs1 = (lookC cs)(card_id c \<mapsto> c)"
      using cache.put_ok [OF _ assms(2) c1] inv by blast+
    have r: "r = Inr ()" "bs' = bs1" "cs' = cs1"
      using p Inr c1 assms(3) by (auto simp: cks_put_def suppress_backend_def)
    show ?thesis
      using b c inv r p Inr by (auto simp: coherent_def)
  qed
qed

lemma cks_get_cases:
  assumes "co (cs, bs)" and "cks_get KC KB eid (cs, bs) = (r, cs', bs')"
  shows "co (cs', bs') \<and> lookB bs' = lookB bs \<and> (\<forall>x. r = Inr x \<longrightarrow> x = lookB bs eid) \<and>
    (bs' = bs \<and> is_ok r \<or> fst (ks_get KB eid bs) = r \<and> snd (ks_get KB eid bs) = bs')"
proof -
  note inv = assms(1) [unfolded coherent_def split_conv]
  obtain q cs1 where g: "ks_get KC eid cs = (Inr q, cs1)" using cache.get_returns inv by blast
  have c1: "invC cs1" "lookC cs1 = lookC cs" "q = lookC cs eid"
    using cache.get_keeps [OF _ g] cache.get_ok [OF _ g] inv by blast+
  show ?thesis
  proof (cases q)
    case (Some c)
    with g assms(2) have "r = Inr (Some c)" "cs' = cs1" "bs' = bs" by (auto simp: cks_get_def Let_def)
    moreover have "lookB bs eid = Some c" using inv c1(3) Some by metis
    ultimately show ?thesis using inv c1 by (auto simp: coherent_def)
  next
    case None
    obtain r1 bs1 where b: "ks_get KB eid bs = (r1, bs1)" by (cases "ks_get KB eid bs")
    have b1: "invB bs1" "lookB bs1 = lookB bs" using backend.get_keeps [OF _ b] inv by blast+
    show ?thesis
    proof (cases "\<exists>c. r1 = Inr (Some c)")
      case True
      then obtain c where r1: "r1 = Inr (Some c)" by blast
      then have l: "lookB bs eid = Some c" using backend.get_ok [of bs eid] b inv by auto
      then have st: "storable c" "card_id c = eid" using backend.stored [of bs eid] inv by auto
      obtain cs2 where p: "ks_put KC c True cs1 = (Inr (), cs2)"
        using cache.put_returns [OF c1(1) st(1)] by blast
      have "invC cs2" "lookC cs2 = (lookC cs1)(eid \<mapsto> c)"
        using cache.put_ok [OF c1(1) st(1) p] st(2) by auto
      moreover have "r = Inr (Some c)" "cs' = cs2" "bs' = bs1"
        using assms(2) g None b r1 p by (auto simp: cks_get_def suppress_backend_def Let_def)
      ultimately show ?thesis using inv c1 b1 l b r1 by (auto simp: coherent_def)
    next
      case False
      then have "cs' = cs1" "bs' = bs1" "r = r1"
        using assms(2) g None b by (auto simp: cks_get_def Let_def split: sum.splits option.splits)
      with inv c1 b1 b backend.get_ok [of bs eid] show ?thesis by (auto simp: coherent_def)
    qed
  qed
qed

lemma cks_delete_cases:
  assumes "co (cs, bs)" and "cks_delete KC KB eid (cs, bs) = (r, cs', bs')"
  shows "co (cs', bs') \<and> (\<forall>e. r = Inl e \<longrightarrow> lookB bs' = lookB bs) \<and>
    (\<forall>b. r = Inr b \<longrightarrow> lookB bs' = (lookB bs)(eid := None) \<and> (b \<longleftrightarrow> lookB bs eid \<noteq> None)) \<and>
    ks_delete KB eid bs = (r, bs')"
proof -
  note inv = assms(1) [unfolded coherent_def split_conv]
  obtain r1 bs1 where d: "ks_delete KB eid bs = (r1, bs1)" by (cases "ks_delete KB eid bs")
  show ?thesis
  proof (cases r1)
    case (Inl e)
    with d assms(2) have "r = Inl e" "bs' = bs1" "cs' = cs" by (auto simp: cks_delete_def)
    moreover have "invB bs1" "lookB bs1 = lookB bs"
      using backend.delete_fails backend.delete_atomic inv d Inl by blast+
    ultimately show ?thesis using inv d Inl by (auto simp: coherent_def)
  next
    case (Inr b)
    have b1: "invB bs1" "lookB bs1 = (lookB bs)(eid := None)" "b \<longleftrightarrow> lookB bs eid \<noteq> None"
      using backend.delete_ok inv d Inr by blast+
    obtain x cs1 where x: "ks_delete KC eid cs = (Inr x, cs1)" using cache.delete_returns inv by blast
    have "invC cs1" "lookC cs1 = (lookC cs)(eid := None)" using cache.delete_ok [OF _ x] inv by blast+
    moreover have "r = Inr b" "bs' = bs1" "cs' = cs1"
      using d Inr x assms(2) by (auto simp: cks_delete_def suppress_backend_def)
    ultimately show ?thesis using b1 inv d Inr by (auto simp: coherent_def)
  qed
qed

end

sublocale caching \<subseteq> cached: atomic_key_store "caching_store KC KB" "\<lambda>p. lookB (snd p)" "coherent lookC invC lookB invB"
proof (unfold_locales, goal_cases)
  case (1 s c ow u s')
  obtain cs bs cs' bs' where s: "s = (cs, bs)" "s' = (cs', bs')" by (cases s; cases s')
  have "cks_put KC KB c ow (cs, bs) = (Inr u, cs', bs')" using 1(3) by (simp add: s caching_store_def)
  then have p: "coherent lookC invC lookB invB (cs', bs') \<and> ks_put KB c ow bs = (Inr (), bs') \<and>
      lookB bs' = (lookB bs)(card_id c \<mapsto> c)"
    using cks_put_cases [OF 1(1) [unfolded s] 1(2)] by simp
  moreover have "invB bs" using 1(1) by (simp add: s coherent_def)
  ultimately show ?case using backend.put_ok [OF _ 1(2)] by (simp add: s)
next
  case (2 s c ow e s')
  obtain cs bs cs' bs' where s: "s = (cs, bs)" "s' = (cs', bs')" by (cases s; cases s')
  have "cks_put KC KB c ow (cs, bs) = (Inl e, cs', bs')" using 2(3) by (simp add: s caching_store_def)
  from cks_put_cases [OF 2(1) [unfolded s] 2(2) this] show ?case by (auto simp: s)
next
  case (3 s c ow s')
  obtain cs bs cs' bs' where s: "s = (cs, bs)" "s' = (cs', bs')" by (cases s; cases s')
  have "cks_put KC KB c ow (cs, bs) = (Inl DuplicateCardError, cs', bs')" using 3(3) by (simp add: s caching_store_def)
  then have "ks_put KB c ow bs = (Inl DuplicateCardError, bs') \<and> lookB bs' = lookB bs"
    using cks_put_cases [OF 3(1) [unfolded s] 3(2)] by simp
  moreover have "invB bs" using 3(1) by (simp add: s coherent_def)
  ultimately show ?case using backend.put_duplicate [OF _ 3(2), of bs ow bs'] by (simp add: s)
next
  case (4 s eid r s')
  obtain cs bs cs' bs' where s: "s = (cs, bs)" "s' = (cs', bs')" by (cases s; cases s')
  have "cks_get KC KB eid (cs, bs) = (Inr r, cs', bs')" using 4(2) by (simp add: s caching_store_def)
  from cks_get_cases [OF 4(1) [unfolded s] this] show ?case by (simp add: s)
next
  case (5 s eid r s')
  obtain cs bs cs' bs' where s: "s = (cs, bs)" "s' = (cs', bs')" by (cases s; cases s')
  have "cks_get KC KB eid (cs, bs) = (r, cs', bs')" using 5(2) by (simp add: s caching_store_def)
  from cks_get_cases [OF 5(1) [unfolded s] this] show ?case by (simp add: s)
next
  case (6 s eid b s')
  obtain cs bs cs' bs' where s: "s = (cs, bs)" "s' = (cs', bs')" by (cases s; cases s')
  have "cks_delete KC KB eid (cs, bs) = (Inr b, cs', bs')" using 6(2) by (simp add: s caching_store_def)
  from cks_delete_cases [OF 6(1) [unfolded s] this] show ?case by (simp add: s)
next
  case (7 s eid e s')
  obtain cs bs cs' bs' where s: "s = (cs, bs)" "s' = (cs', bs')" by (cases s; cases s')
  have "cks_delete KC KB eid (cs, bs) = (Inl e, cs', bs')" using 7(2) by (simp add: s caching_store_def)
  from cks_delete_cases [OF 7(1) [unfolded s] this] show ?case by (simp add: s)
next
  case (8 s eid c)
  then show ?case using backend.stored [of "snd s" eid c] by (auto simp: coherent_def)
next
  case (9 s c ow e s')
  obtain cs bs cs' bs' where s: "s = (cs, bs)" "s' = (cs', bs')" by (cases s; cases s')
  have "cks_put KC KB c ow (cs, bs) = (Inl e, cs', bs')" using 9(3) by (simp add: s caching_store_def)
  from cks_put_cases [OF 9(1) [unfolded s] 9(2) this] show ?case by (auto simp: s)
next
  case (10 s eid e s')
  obtain cs bs cs' bs' where s: "s = (cs, bs)" "s' = (cs', bs')" by (cases s; cases s')
  have "cks_delete KC KB eid (cs, bs) = (Inl e, cs', bs')" using 10(2) by (simp add: s caching_store_def)
  from cks_delete_cases [OF 10(1) [unfolded s] this] show ?case by (simp add: s)
qed

section \<open>The Redis store keeps it\<close>

text \<open>
  What the store relies on, for keys without expiry: \<open>v r k\<close> is the text stored under a key. A command
  that fails may have taken effect on the server or not.
\<close>

definition redis_kv_laws :: "'r redis_kv \<Rightarrow> ('r \<Rightarrow> string \<Rightarrow> string option) \<Rightarrow> bool" where
  "redis_kv_laws R v \<longleftrightarrow>
     (\<forall>k x nx r. case kv_set R k x nx None r of
        (Inr b, r') \<Rightarrow> (if nx \<and> v r k \<noteq> None then \<not> b \<and> v r' = v r else b \<and> v r' = (v r)(k \<mapsto> x))
      | (Inl e, r') \<Rightarrow> v r' = v r \<or> v r' = (if nx \<and> v r k \<noteq> None then v r else (v r)(k \<mapsto> x))) \<and>
     (\<forall>k r. case kv_get R k r of
        (Inr x, r') \<Rightarrow> x = v r k \<and> v r' = v r | (Inl e, r') \<Rightarrow> v r' = v r) \<and>
     (\<forall>k r. case kv_del R k r of
        (Inr n, r') \<Rightarrow> v r' = (v r)(k := None) \<and> (n \<noteq> 0 \<longleftrightarrow> v r k \<noteq> None)
      | (Inl e, r') \<Rightarrow> v r' = v r \<or> v r' = (v r)(k := None))"

definition card_text :: "pylib \<Rightarrow> card \<Rightarrow> string" where
  "card_text L c = dumps (float_repr L) False (PDict (serialise_card c))"

definition read_card :: "string \<Rightarrow> card option" where
  "read_card raw = (case rbind (loads raw) deserialise_card of Inl e \<Rightarrow> None | Inr c \<Rightarrow> Some c)"

definition redis_lookup :: "redis_config \<Rightarrow> ('r \<Rightarrow> string \<Rightarrow> string option) \<Rightarrow> 'r \<Rightarrow> string \<Rightarrow> card option" where
  "redis_lookup cf v r eid = Option.bind (v r (kv_prefix cf @ eid)) read_card"

definition redis_inv :: "'r redis_kv \<Rightarrow> pylib \<Rightarrow> redis_config \<Rightarrow> ('r \<Rightarrow> string \<Rightarrow> string option) \<Rightarrow> 'r \<Rightarrow> bool" where
  "redis_inv R L cf v r \<longleftrightarrow> redis_kv_laws R v \<and> kv_ttl cf \<le> 0 \<and>
     (\<forall>eid x. v r (kv_prefix cf @ eid) = Some x \<longrightarrow> (\<exists>c. storable c \<and> card_id c = eid \<and> x = card_text L c))"

lemma loads_card_text: "storable c \<Longrightarrow> rbind (loads (card_text L c)) deserialise_card = Inr c"
  by (simp add: storable_def card_text_def loads_dumps del: json_ok.simps dumps.simps)

lemma read_card_text [simp]: "storable c \<Longrightarrow> read_card (card_text L c) = Some c"
  by (simp add: read_card_def loads_card_text)

lemma redis_lookup_upd: "storable c \<Longrightarrow> v r' = (v r)(kv_prefix cf @ card_id c \<mapsto> card_text L c) \<Longrightarrow>
    redis_lookup cf v r' = (redis_lookup cf v r)(card_id c \<mapsto> c)"
  by (auto simp: redis_lookup_def fun_eq_iff)

lemma redis_lookup_del: "v r' = (v r)(kv_prefix cf @ eid := None) \<Longrightarrow>
    redis_lookup cf v r' = (redis_lookup cf v r)(eid := None)"
  by (auto simp: redis_lookup_def fun_eq_iff)

lemma redis_inv_upd: "redis_inv R L cf v r \<Longrightarrow> storable c \<Longrightarrow>
    v r' = (v r)(kv_prefix cf @ card_id c \<mapsto> card_text L c) \<Longrightarrow> redis_inv R L cf v r'"
  by (auto simp: redis_inv_def)

lemma redis_inv_del: "redis_inv R L cf v r \<Longrightarrow> v r' = (v r)(kv_prefix cf @ eid := None) \<Longrightarrow> redis_inv R L cf v r'"
  by (auto simp: redis_inv_def)

lemma redis_inv_same: "redis_inv R L cf v r \<Longrightarrow> v r' = v r \<Longrightarrow> redis_inv R L cf v r'"
  by (simp add: redis_inv_def)

lemma redis_lookup_same: "v r' = v r \<Longrightarrow> redis_lookup cf v r' = redis_lookup cf v r"
  by (simp add: redis_lookup_def fun_eq_iff)

lemma redis_present:
  assumes "redis_inv R L cf v r"
  shows "redis_lookup cf v r eid = None \<longleftrightarrow> v r (kv_prefix cf @ eid) = None"
proof (cases "v r (kv_prefix cf @ eid)")
  case (Some x)
  then obtain c where "storable c" "x = card_text L c" using assms by (auto simp: redis_inv_def)
  with Some show ?thesis by (simp add: redis_lookup_def)
qed (simp add: redis_lookup_def)

lemma kv_set_law: "redis_kv_laws R v \<Longrightarrow> kv_set R k x nx None r = (b, r') \<Longrightarrow> case b of
     Inr b \<Rightarrow> (if nx \<and> v r k \<noteq> None then \<not> b \<and> v r' = v r else b \<and> v r' = (v r)(k \<mapsto> x))
   | Inl e \<Rightarrow> v r' = v r \<or> v r' = (if nx \<and> v r k \<noteq> None then v r else (v r)(k \<mapsto> x))"
  unfolding redis_kv_laws_def by (elim conjE allE [of _ k] allE [of _ x] allE [of _ nx] allE [of _ r]) (cases b; simp)

lemma kv_get_law: "redis_kv_laws R v \<Longrightarrow> kv_get R k r = (b, r') \<Longrightarrow> v r' = v r \<and> (\<forall>x. b = Inr x \<longrightarrow> x = v r k)"
  unfolding redis_kv_laws_def by (elim conjE allE [of _ k] allE [of _ r]) (cases b; simp)

lemma kv_del_law: "redis_kv_laws R v \<Longrightarrow> kv_del R k r = (b, r') \<Longrightarrow> case b of
     Inr n \<Rightarrow> v r' = (v r)(k := None) \<and> (n \<noteq> 0 \<longleftrightarrow> v r k \<noteq> None) | Inl e \<Rightarrow> v r' = v r \<or> v r' = (v r)(k := None)"
  unfolding redis_kv_laws_def by (elim conjE allE [of _ k] allE [of _ r]) (cases b; simp)

lemma rks_put_eq:
  "rks_put R L cf c ow r =
     (case kv_set R (kv_prefix cf @ card_id c) (card_text L c) (\<not> ow) (if 0 < kv_ttl cf then Some (kv_ttl cf) else None) r of
        (Inl e, r') \<Rightarrow> (Inl KeyStoreBackendError, r')
      | (Inr b, r') \<Rightarrow> (if \<not> ow \<and> \<not> b then Inl DuplicateCardError else Inr (), r'))"
  by (simp only: rks_put_def card_text_def Let_def)

lemma rks_put_cases:
  assumes "redis_inv R L cf v r" and "storable c" and "rks_put R L cf c ow r = (q, r')"
  shows "redis_inv R L cf v r' \<and>
    (q = Inr () \<longrightarrow> redis_lookup cf v r' = (redis_lookup cf v r)(card_id c \<mapsto> c) \<and> (ow \<or> redis_lookup cf v r (card_id c) = None)) \<and>
    (\<forall>e. q = Inl e \<longrightarrow> redis_lookup cf v r' = redis_lookup cf v r \<or> redis_lookup cf v r' = (redis_lookup cf v r)(card_id c \<mapsto> c)) \<and>
    (q = Inl DuplicateCardError \<longrightarrow> \<not> ow \<and> redis_lookup cf v r (card_id c) \<noteq> None \<and> redis_lookup cf v r' = redis_lookup cf v r)"
proof -
  let ?k = "kv_prefix cf @ card_id c" and ?x = "card_text L c"
  have laws: "redis_kv_laws R v" and ttl: "\<not> 0 < kv_ttl cf" using assms(1) by (auto simp: redis_inv_def)
  obtain b r1 where s: "kv_set R ?k ?x (\<not> ow) None r = (b, r1)" by (cases "kv_set R ?k ?x (\<not> ow) None r")
  have law: "case b of Inr b \<Rightarrow> (if \<not> ow \<and> v r ?k \<noteq> None then \<not> b \<and> v r1 = v r else b \<and> v r1 = (v r)(?k \<mapsto> ?x))
      | Inl e \<Rightarrow> v r1 = v r \<or> v r1 = (if \<not> ow \<and> v r ?k \<noteq> None then v r else (v r)(?k \<mapsto> ?x))"
    by (rule kv_set_law [OF laws s])
  have q: "q = (case b of Inl e \<Rightarrow> Inl KeyStoreBackendError | Inr b \<Rightarrow> if \<not> ow \<and> \<not> b then Inl DuplicateCardError else Inr ())"
    "r' = r1"
    using assms(3) unfolding rks_put_eq if_not_P [OF ttl] s by (cases b; simp)+
  have upd: "redis_inv R L cf v r1 \<and> redis_lookup cf v r1 = (redis_lookup cf v r)(card_id c \<mapsto> c)" if "v r1 = (v r)(?k \<mapsto> ?x)"
    using redis_inv_upd [OF assms(1,2) that] redis_lookup_upd [OF assms(2) that] by (rule conjI)
  have same: "redis_inv R L cf v r1 \<and> redis_lookup cf v r1 = redis_lookup cf v r" if "v r1 = v r"
    using redis_inv_same [OF assms(1) that] redis_lookup_same [OF that] by (rule conjI)
  show ?thesis
  proof (cases b)
    case (Inl e)
    then have "v r1 = v r \<or> v r1 = (v r)(?k \<mapsto> ?x)" using law by (auto split: if_splits)
    then have "redis_inv R L cf v r1 \<and> (redis_lookup cf v r1 = redis_lookup cf v r \<or>
        redis_lookup cf v r1 = (redis_lookup cf v r)(card_id c \<mapsto> c))"
      using upd same by blast
    with q Inl show ?thesis by simp
  next
    case (Inr b')
    show ?thesis
    proof (cases "\<not> ow \<and> v r ?k \<noteq> None")
      case True
      with Inr law have "\<not> b'" "v r1 = v r" by auto
      then have "q = Inl DuplicateCardError" using q True Inr by simp
      then show ?thesis using same [OF \<open>v r1 = v r\<close>] q(2) True redis_present [OF assms(1)] by simp
    next
      case False
      with Inr law have "b'" "v r1 = (v r)(?k \<mapsto> ?x)" by auto
      then have "q = Inr ()" using q Inr by simp
      then show ?thesis using upd [OF \<open>v r1 = (v r)(?k \<mapsto> ?x)\<close>] q(2) False redis_present [OF assms(1)] by auto
    qed
  qed
qed

lemma rks_get_cases:
  assumes "redis_inv R L cf v r" and "rks_get R cf eid r = (q, r')"
  shows "redis_inv R L cf v r' \<and> redis_lookup cf v r' = redis_lookup cf v r \<and> (\<forall>x. q = Inr x \<longrightarrow> x = redis_lookup cf v r eid)"
proof -
  let ?k = "kv_prefix cf @ eid"
  have laws: "redis_kv_laws R v" using assms(1) by (auto simp: redis_inv_def)
  obtain b r1 where s: "kv_get R ?k r = (b, r1)" by (cases "kv_get R ?k r")
  have law: "v r1 = v r \<and> (\<forall>x. b = Inr x \<longrightarrow> x = v r ?k)"
    by (rule kv_get_law [OF laws s])
  have r1: "r' = r1"
    using assms(2) s by (auto simp: rks_get_def wrap_backend_def split: sum.splits option.splits prod.splits)
  have "x = redis_lookup cf v r eid" if "q = Inr x" for x
  proof (cases b)
    case (Inl e)
    with that assms(2) s show ?thesis by (simp add: rks_get_def wrap_backend_def)
  next
    case (Inr y)
    then have y: "y = v r ?k" using law by simp
    show ?thesis
    proof (cases y)
      case None
      with that assms(2) s Inr y show ?thesis by (simp add: rks_get_def wrap_backend_def redis_lookup_def)
    next
      case (Some raw)
      then obtain c where c: "storable c" "raw = card_text L c"
        using assms(1) y by (auto simp: redis_inv_def)
      from loads_card_text [OF c(1)] obtain w where "loads raw = Inr w" "deserialise_card w = Inr c"
        by (auto simp: c(2) rbind_Inr_iff)
      moreover have "v r ?k = Some raw" "kv_get R ?k r = (Inr (Some raw), r1)" using y Some s Inr by simp_all
      ultimately show ?thesis using that assms(2) c
        by (simp add: rks_get_def wrap_backend_def redis_lookup_def)
    qed
  qed
  with law r1 redis_inv_same [OF assms(1)] redis_lookup_same [of v] show ?thesis by blast
qed

lemma rks_delete_cases:
  assumes "redis_inv R L cf v r" and "rks_delete R cf eid r = (q, r')"
  shows "redis_inv R L cf v r' \<and>
    (\<forall>b. q = Inr b \<longrightarrow> redis_lookup cf v r' = (redis_lookup cf v r)(eid := None) \<and> (b \<longleftrightarrow> redis_lookup cf v r eid \<noteq> None)) \<and>
    (\<forall>e. q = Inl e \<longrightarrow> redis_lookup cf v r' = redis_lookup cf v r \<or> redis_lookup cf v r' = (redis_lookup cf v r)(eid := None))"
proof -
  let ?k = "kv_prefix cf @ eid"
  have laws: "redis_kv_laws R v" using assms(1) by (auto simp: redis_inv_def)
  obtain b r1 where s: "kv_del R ?k r = (b, r1)" by (cases "kv_del R ?k r")
  have law: "case b of Inr n \<Rightarrow> v r1 = (v r)(?k := None) \<and> (n \<noteq> 0 \<longleftrightarrow> v r ?k \<noteq> None)
      | Inl e \<Rightarrow> v r1 = v r \<or> v r1 = (v r)(?k := None)"
    by (rule kv_del_law [OF laws s])
  have q: "r' = r1" "q = Inr x \<Longrightarrow> \<exists>n. b = Inr n \<and> x = (n \<noteq> 0)" "q = Inl e \<Longrightarrow> \<exists>e. b = Inl e" for x e
    using assms(2) s by (cases b; auto simp: rks_delete_def wrap_backend_def)+
  have del: "redis_inv R L cf v r1 \<and> redis_lookup cf v r1 = (redis_lookup cf v r)(eid := None)" if "v r1 = (v r)(?k := None)"
    using redis_inv_del [OF assms(1) that] redis_lookup_del [OF that] by (rule conjI)
  have same: "redis_inv R L cf v r1 \<and> redis_lookup cf v r1 = redis_lookup cf v r" if "v r1 = v r"
    using redis_inv_same [OF assms(1) that] redis_lookup_same [OF that] by (rule conjI)
  show ?thesis
  proof (cases b)
    case (Inl e)
    then have "redis_inv R L cf v r1 \<and> (redis_lookup cf v r1 = redis_lookup cf v r \<or>
        redis_lookup cf v r1 = (redis_lookup cf v r)(eid := None))"
      using law del same by auto
    moreover have "\<exists>e. q = Inl e" using q(2) Inl by (cases q) auto
    ultimately show ?thesis using q(1) by auto
  next
    case (Inr n)
    then have "v r1 = (v r)(?k := None)" "n \<noteq> 0 \<longleftrightarrow> v r ?k \<noteq> None" using law by auto
    moreover have "q = Inr (n \<noteq> 0)" using q(2,3) Inr by (cases q) auto
    ultimately show ?thesis using del q(1) redis_present [OF assms(1), of eid] by auto
  qed
qed

interpretation redis: key_store "redis_store R L cf" "redis_lookup cf v" "redis_inv R L cf v" for R L cf v
proof (unfold_locales, goal_cases)
  case (1 s c ow u s')
  then show ?case using rks_put_cases [of R L cf v s c ow "Inr u" s'] by (simp add: redis_store_def)
next
  case (2 s c ow e s')
  then show ?case using rks_put_cases [of R L cf v s c ow "Inl e" s'] by (simp add: redis_store_def)
next
  case (3 s c ow s')
  then show ?case using rks_put_cases [of R L cf v s c ow "Inl DuplicateCardError" s'] by (simp add: redis_store_def)
next
  case (4 s eid r s')
  then show ?case using rks_get_cases [of R L cf v s eid "Inr r" s'] by (simp add: redis_store_def)
next
  case (5 s eid r s')
  then show ?case using rks_get_cases [of R L cf v s eid r s'] by (simp add: redis_store_def)
next
  case (6 s eid b s')
  then show ?case using rks_delete_cases [of R L cf v s eid "Inr b" s'] by (simp add: redis_store_def)
next
  case (7 s eid e s')
  then show ?case using rks_delete_cases [of R L cf v s eid "Inl e" s'] by (simp add: redis_store_def)
next
  case (8 s eid c)
  then obtain x where "v s (kv_prefix cf @ eid) = Some x" "read_card x = Some c"
    by (auto simp: redis_lookup_def bind_eq_Some_conv)
  with 8 show ?case by (fastforce simp: redis_inv_def)
qed

section \<open>Runs of calls\<close>

datatype ks_op = PutOp card bool | GetOp string | DelOp string | ListOp

datatype ks_answer = APut "unit res" | AGet "card option res" | ADel "bool res" | AList "string list res" | NoAnswer

fun ks_step :: "'s kstore \<Rightarrow> ks_op \<Rightarrow> 's \<Rightarrow> ks_answer \<times> 's" where
  "ks_step K (PutOp c ow) s = (case ks_put K c ow s of (r, s') \<Rightarrow> (APut r, s'))"
| "ks_step K (GetOp eid) s = (case ks_get K eid s of (r, s') \<Rightarrow> (AGet r, s'))"
| "ks_step K (DelOp eid) s = (case ks_delete K eid s of (r, s') \<Rightarrow> (ADel r, s'))"
| "ks_step K ListOp s = (case ks_list K s of None \<Rightarrow> (NoAnswer, s) | Some (r, s') \<Rightarrow> (AList r, s'))"

fun ks_run :: "(nat \<Rightarrow> 's kstore) \<Rightarrow> (nat \<times> ks_op) list \<Rightarrow> 's \<Rightarrow> ks_answer list" where
  \<comment> \<open>calls through the stores of several processes on shared state\<close>
  "ks_run K [] s = []"
| "ks_run K ((i, x) # xs) s = (case ks_step (K i) x s of (a, s') \<Rightarrow> a # ks_run K xs s')"

fun storable_op :: "ks_op \<Rightarrow> bool" where
  "storable_op (PutOp c ow) = storable c"
| "storable_op _ = True"

text \<open>A simulation of the in-memory store step by step is one of whole runs.\<close>

lemma ks_run_simulates:
  assumes "\<And>i x s a s'. ok s \<Longrightarrow> storable_op x \<Longrightarrow> ks_step (K i) x s = (a, s') \<Longrightarrow>
      ks_step memory_store x (view s) = (a, view s') \<and> ok s'"
  shows "ok s \<Longrightarrow> \<forall>x \<in> set xs. storable_op (snd x) \<Longrightarrow> ks_run K xs s = ks_run (\<lambda>_. memory_store) xs (view s)"
proof (induction xs arbitrary: s)
  case (Cons ix xs)
  obtain i x where ix: "ix = (i, x)" by (cases ix)
  obtain a s' where r: "ks_step (K i) x s = (a, s')" by (cases "ks_step (K i) x s")
  from assms [OF Cons.prems(1) _ r] Cons.prems(2) have "ks_step memory_store x (view s) = (a, view s') \<and> ok s'"
    by (simp add: ix)
  with Cons.IH [of s'] Cons.prems(2) r show ?case by (simp add: ix)
qed simp

section \<open>Which cards survive their serialised form\<close>

definition card_ok :: "public_card \<Rightarrow> bool" where
  \<comment> \<open>a normalised role and distinct key names, which the constructor and the key generation give\<close>
  "card_ok p \<longleftrightarrow> validate_role (c_role p) = Inr (c_role p) \<and> keys_distinct (c_public_keys p)"

lemma card_dict_json_ok: "keys_distinct (c_public_keys p) \<Longrightarrow> json_ok (PDict (card_to_dict p))"
proof -
  assume d: "keys_distinct (c_public_keys p)"
  have "map fst (hex_keys ks) = map fst ks \<and> (\<forall>q \<in> set (hex_keys ks). json_ok (snd q))" for ks
    by (induction ks) (auto simp: hex_keys_def split: prod.splits)
  then have "json_ok (PDict (hex_keys (c_public_keys p)))" using d by simp
  then show ?thesis
    by (cases "c_valid_until p"; cases "c_revocation_reason p"; cases "c_revoked_at p")
      (simp_all add: card_to_dict_def opt_entry_def)
qed

lemma card_dict_back:
  assumes "card_ok p"
  shows "card_from_dict (card_to_dict p) = Inr p"
  by (rule card_roundtrip [of "c_entity_id p" "c_name p" "c_role p" "c_public_keys p" "c_created_at p"
        "c_valid_until p" "c_is_revoked p" "c_revocation_reason p" "c_revoked_at p" "c_key_version p"])
    (use assms in \<open>simp add: card_ok_def card_new_def\<close>)

lemma type_not_in_card: "\<not> has_key (card_to_dict p) ''type''"
  by (simp add: has_key_def card_to_dict_def opt_entry_def split: option.split)

lemma card_from_dict_type: "card_from_dict ((''type'', x) # d) = card_from_dict d"
proof -
  have "dget ((''type'', x) # d) k = dget d k" "subscript ((''type'', x) # d) k = subscript d k"
    "dget_default ((''type'', x) # d) k v = dget_default d k v" if "k \<noteq> ''type''" for k v
    using that by (simp_all add: dget_def dget_default_def has_key_def subscript_def)
  then show ?thesis by (simp add: card_from_dict_def cong: pyval.case_cong)
qed

lemma storable_public: "card_ok p \<Longrightarrow> storable (Public p)"
  using card_dict_json_ok [of p] type_not_in_card [of p, unfolded has_key_def map_of_eq_None_iff not_not]
  by (simp add: storable_def serialise_card_def deserialise_card_def dget_default_def has_key_def dget_def
      card_from_dict_type card_dict_back card_ok_def)

lemma storable_signed: "card_ok (sc_card s) \<Longrightarrow> storable (Signed s)"
  using card_dict_json_ok [of "sc_card s"]
  by (simp add: storable_def serialise_card_def deserialise_card_def dget_default_def has_key_def dget_def
      signed_to_dict_def signed_from_dict_def subscript_def card_dict_back card_ok_def)

section \<open>Listing a Redis store\<close>

text \<open>What \<open>SCAN\<close> promises, in terms of the keys \<open>part c pattern r\<close> that the iteration at cursor \<open>c\<close> has
  still to deliver: a reply delivers some of them, possibly again, and leaves the others to the next
  cursor; every reply but the last brings the end of the iteration nearer.\<close>

definition scan_laws :: "'r redis_kv \<Rightarrow> (int \<Rightarrow> string \<Rightarrow> 'r \<Rightarrow> nat) \<Rightarrow> (int \<Rightarrow> string \<Rightarrow> 'r \<Rightarrow> string set) \<Rightarrow> bool" where
  "scan_laws R rank part \<longleftrightarrow>
     (\<forall>c pattern r next batch r'. kv_scan R c pattern r = (Inr (next, batch), r') \<longrightarrow>
        set batch \<union> (if next = 0 then {} else part next pattern r') = part c pattern r \<and>
        (next \<noteq> 0 \<longrightarrow> rank next pattern r' < rank c pattern r))"

lemma scan_loop_returns:
  assumes "scan_laws R rank part"
  shows "\<exists>res r'. scan_loop R pattern c ks r = Some (res, r') \<and>
    (\<forall>xs. res = Inr xs \<longrightarrow> set xs = set ks \<union> part c pattern r)"
proof (induction "rank c pattern r" arbitrary: c ks r rule: less_induct)
  case less
  obtain reply r1 where k: "kv_scan R c pattern r = (reply, r1)" by (rule prod.exhaust)
  show ?case
  proof (cases reply)
    case (Inl e)
    with k show ?thesis by (simp add: scan_loop.simps)
  next
    case (Inr p)
    obtain nxt batch where p: "p = (nxt, batch)" by (rule prod.exhaust)
    with assms k Inr have l: "set batch \<union> (if nxt = 0 then {} else part nxt pattern r1) = part c pattern r"
      "nxt \<noteq> 0 \<Longrightarrow> rank nxt pattern r1 < rank c pattern r"
      unfolding scan_laws_def by blast+
    show ?thesis
    proof (cases "nxt = 0")
      case True
      with k Inr p l(1) show ?thesis by (simp add: scan_loop.simps)
    next
      case False
      from less [OF l(2) [OF False], of "ks @ batch"] l(1) False k Inr p show ?thesis
        by (simp add: scan_loop.simps [of R pattern c]) (metis Un_assoc)
    qed
  qed
qed

lemma wrap_backend_pair: "\<exists>res'. wrap_backend (res, s) = (res', s) \<and> (\<forall>x. res' = Inr x \<longleftrightarrow> res = Inr x) \<and>
   (\<forall>e. res' = Inl e \<longrightarrow> e \<in> {KeyStoreError, CardNotFoundError, DuplicateCardError, KeyStoreBackendError})"
  by (cases res) (auto simp: wrap_backend_def)

text \<open>C15: Listing a Redis store ends: on a server whose iterations reach cursor 0, \<open>list_ids\<close> returns, with an
  error of the key store or with the ids of exactly the cards that are stored. (Ids may be repeated.)\<close>

theorem redis_list_returns:
  assumes "scan_laws R rank part"
    and "part 0 (kv_prefix cf @ ''*'') r = (\<lambda>eid. kv_prefix cf @ eid) ` ids"
  shows "\<exists>res r'. rks_list R cf r = Some (res, r') \<and> (\<forall>xs. res = Inr xs \<longrightarrow> set xs = ids) \<and>
    (\<forall>e. res = Inl e \<longrightarrow> e \<in> {KeyStoreError, CardNotFoundError, DuplicateCardError, KeyStoreBackendError})"
proof -
  obtain res r' where l: "scan_loop R (kv_prefix cf @ ''*'') 0 [] r = Some (res, r')"
    "\<And>xs. res = Inr xs \<Longrightarrow> set xs = part 0 (kv_prefix cf @ ''*'') r"
    using scan_loop_returns [OF assms(1), of "kv_prefix cf @ ''*''" 0 "[]" r] by auto
  have "remove_prefix (kv_prefix cf) (kv_prefix cf @ eid) = eid" for eid
    by (simp add: remove_prefix_def starts_with_def)
  then have "set (map (remove_prefix (kv_prefix cf)) xs) = ids" if "res = Inr xs" for xs
    using l(2) [OF that] assms(2) by (simp add: image_image)
  with l(1) wrap_backend_pair [where s = r' and res = "rbind res (\<lambda>ks. Inr (map (remove_prefix (kv_prefix cf)) ks))"]
  show ?thesis by (cases res) (auto simp: rks_list_def)
qed

definition paging_server :: "(string \<times> string) list redis_kv" where
  \<comment> \<open>a server that sends its first key twice\<close>
  "paging_server = \<lparr>kv_set = (\<lambda>k x nx ex r. (Inr True, AList.update k x r)), kv_get = (\<lambda>k r. (Inr (map_of r k), r)),
     kv_del = (\<lambda>k r. (Inr 1, AList.delete k r)),
     kv_scan = (\<lambda>c pattern r. (Inr (if c = 0 then (1, take 1 (map fst r)) else (0, map fst r)), r))\<rparr>"

lemma paging_server_scan:
  "scan_laws paging_server (\<lambda>c pattern r. if c = 0 then 1 else 0) (\<lambda>c pattern r. fst ` set r)"
  by (auto simp: scan_laws_def paging_server_def dest: in_set_takeD split: if_splits)

theorem redis_list_returns_witness:
  "rks_list paging_server \<lparr>kv_prefix = ''p:'', kv_ttl = 0\<rparr> [(''p:a'', ''1''), (''p:b'', ''2'')] =
     Some (Inr [''a'', ''a'', ''b''], [(''p:a'', ''1''), (''p:b'', ''2'')]) \<and>
   (\<exists>xs r'. rks_list paging_server \<lparr>kv_prefix = ''p:'', kv_ttl = 0\<rparr> [(''p:a'', ''1''), (''p:b'', ''2'')] = Some (Inr xs, r') \<and>
     set xs = {''a'', ''b''})"
proof -
  have e: "rks_list paging_server \<lparr>kv_prefix = ''p:'', kv_ttl = 0\<rparr> [(''p:a'', ''1''), (''p:b'', ''2'')] =
      Some (Inr [''a'', ''a'', ''b''], [(''p:a'', ''1''), (''p:b'', ''2'')])"
    by (simp add: rks_list_def scan_loop.simps paging_server_def remove_prefix_def starts_with_def wrap_backend_def)
  have "fst ` set [(''p:a'', ''1''), (''p:b'', ''2'')] = (\<lambda>eid. ''p:'' @ eid) ` {''a'', ''b''}" by auto
  with redis_list_returns [OF paging_server_scan, where cf = "\<lparr>kv_prefix = ''p:'', kv_ttl = 0\<rparr>" and r = "[(''p:a'', ''1''), (''p:b'', ''2'')]"
      and ids = "{''a'', ''b''}"] e
  show ?thesis by auto
qed

end
