(* ===== verification/KeyBackends.thy ===== *)
theory KeyBackends
  imports NonceBackends KeyStore
begin

text \<open>
  The card stores of \<open>uxsp/storage/keystore.py\<close> that keep their cards elsewhere and are not in \<open>KeyStore\<close>:
  \<open>PostgresKeyStore\<close>, with the texts of its statements, and \<open>AsyncRedisKeyStore\<close>, which is shown to be the
  synchronous store. The driver and the server are parameters.
\<close>

section \<open>PostgreSQL\<close>

text \<open>The driver: \<open>pc_connect\<close> stands for \<open>getconn\<close> and \<open>cursor\<close>, \<open>pc_release\<close> for \<open>putconn\<close> (for a single
  connection both do nothing), \<open>pc_exec\<close> for \<open>execute\<close> with the text of the statement and its parameters; it
  gives the row count, the first column of the rows, and the working state of the transaction. \<open>pc_commit\<close>
  gets the state before the transaction and the working state. An exception of the driver is its \<open>pgcode\<close>, if
  it has one. A rollback leaves the state before the transaction.\<close>

type_synonym pg_exn = "string option"

record pg_reply =
  rowcount :: int
  column :: "pyval list"

record 'd pg_client =
  pc_connect :: "'d \<Rightarrow> pg_exn + unit"
  pc_exec :: "string \<Rightarrow> string list \<Rightarrow> 'd \<Rightarrow> (pg_exn + pg_reply) \<times> 'd"
  pc_commit :: "'d \<Rightarrow> 'd \<Rightarrow> (pg_exn + unit) \<times> 'd"
  pc_rollback :: "'d \<Rightarrow> pg_exn + unit"
  pc_release :: "'d \<Rightarrow> pg_exn + unit"

fun text_lines :: "string list \<Rightarrow> string" where
  "text_lines [] = []"
| "text_lines [l] = l"
| "text_lines (l # ls) = l @ CHR 0x0A # text_lines ls"

definition indent :: "nat \<Rightarrow> string \<Rightarrow> string" where
  "indent n s = replicate n (CHR '' '') @ s"

definition quoted :: "string \<Rightarrow> string" where
  "quoted name = CHR 0x22 # name @ [CHR 0x22]"

definition pgk_init :: "bool \<Rightarrow> string \<Rightarrow> string res" where
  \<comment> \<open>the table name that the store keeps\<close>
  "pgk_init driver table = guard driver ImportError (guard (table_name_ok table) ValueError (Inr table))"

definition ddl_text :: "string \<Rightarrow> string" where
  "ddl_text table = text_lines
    ([[], indent 8 (''CREATE TABLE IF NOT EXISTS '' @ quoted table @ '' (''),
      indent 12 ''entity_id   TEXT        PRIMARY KEY,'',
      indent 12 ''card_type   TEXT        NOT NULL,'',
      indent 12 ''card_json   JSONB       NOT NULL,'',
      indent 12 ''created_at  TIMESTAMPTZ NOT NULL DEFAULT now(),'',
      indent 12 ''updated_at  TIMESTAMPTZ NOT NULL DEFAULT now()'',
      indent 8 '');'',
      indent 8 (''CREATE INDEX IF NOT EXISTS '' @ quoted (''idx_'' @ table @ ''_updated'')),
      indent 12 (''ON '' @ quoted table @ '' (updated_at);''), indent 8 []])"

definition put_text :: "string \<Rightarrow> bool \<Rightarrow> string" where
  \<comment> \<open>with \<open>overwrite\<close> the remark for the linter stands inside the literal\<close>
  "put_text table overwrite =
    (let ins = [indent 32 (''INSERT INTO '' @ quoted table @ '' (entity_id, card_type, card_json)''),
           indent 32 ''VALUES (%s, %s, %s::jsonb)'']
     in if overwrite
        then text_lines ([indent 2 ''# nosec B608  # noqa: S608  # table validated via regex in __init__''] @ ins @
          [indent 32 ''ON CONFLICT (entity_id) DO UPDATE'',
           indent 36 ''SET card_type  = EXCLUDED.card_type,'',
           indent 40 ''card_json  = EXCLUDED.card_json,'',
           indent 40 ''updated_at = now()'', indent 32 []])
        else text_lines ([[]] @ ins @ [indent 32 []]))"

definition get_text :: "string \<Rightarrow> string" where
  "get_text table = ''SELECT card_json FROM '' @ quoted table @ '' WHERE entity_id = %s''"

definition delete_text :: "string \<Rightarrow> string" where
  "delete_text table = ''DELETE FROM '' @ quoted table @ '' WHERE entity_id = %s''"

definition list_text :: "string \<Rightarrow> string" where
  "list_text table = ''SELECT entity_id FROM '' @ quoted table @ '' ORDER BY created_at''"

definition with_connection :: "'d pg_client \<Rightarrow> ('d \<Rightarrow> (pg_exn + 'a) \<times> 'd) \<Rightarrow> 'd \<Rightarrow> (pg_exn + 'a) \<times> 'd" where
  \<comment> \<open>\<open>_conn\<close>: the connection goes back to the pool in any case\<close>
  "with_connection D f d =
     (case pc_connect D d of
        Inl x \<Rightarrow> (Inl x, d)
      | Inr _ \<Rightarrow> (case f d of (r, d1) \<Rightarrow> (case pc_release D d1 of Inl x \<Rightarrow> (Inl x, d1) | Inr _ \<Rightarrow> (r, d1))))"

definition committed :: "'d pg_client \<Rightarrow> string \<Rightarrow> string list \<Rightarrow> 'd \<Rightarrow> (pg_exn + pg_reply) \<times> 'd" where
  \<comment> \<open>a statement and \<open>commit\<close>; after an exception the caller rolls back\<close>
  "committed D stmt params d =
     (case pc_exec D stmt params d of
        (Inl x, _) \<Rightarrow> (Inl x, d)
      | (Inr r, d1) \<Rightarrow> (case pc_commit D d d1 of (Inl x, d2) \<Rightarrow> (Inl x, d2) | (Inr _, d2) \<Rightarrow> (Inr r, d2)))"

definition backend_error :: "(pg_exn + 'a) \<times> 'd \<Rightarrow> 'a res \<times> 'd" where
  "backend_error p = (case p of (Inl _, d) \<Rightarrow> (Inl KeyStoreBackendError, d) | (Inr x, d) \<Rightarrow> (Inr x, d))"

definition pgk_create_table :: "'d pg_client \<Rightarrow> string \<Rightarrow> 'd \<Rightarrow> unit res \<times> 'd" where
  "pgk_create_table D table d =
     (case backend_error (with_connection D (committed D (ddl_text table) []) d) of (r, d1) \<Rightarrow> (rbind r (\<lambda>_. Inr ()), d1))"

definition pgk_put :: "'d pg_client \<Rightarrow> pylib \<Rightarrow> string \<Rightarrow> card \<Rightarrow> bool \<Rightarrow> 'd \<Rightarrow> unit res \<times> 'd" where
  "pgk_put D L table c overwrite d =
     (let ctype = (case c of Public _ \<Rightarrow> ''public'' | Signed _ \<Rightarrow> ''signed'')
      in case with_connection D (committed D (put_text table overwrite) [card_id c, ctype, card_text L c]) d of
           (Inl x, d1) \<Rightarrow> (Inl (if x = Some ''23505'' then DuplicateCardError else KeyStoreBackendError), d1)
         | (Inr _, d1) \<Rightarrow> (Inr (), d1))"

definition read_column :: "pyval \<Rightarrow> card res" where
  "read_column v = (case v of
     PStr s \<Rightarrow> rbind (loads s) deserialise_card
   | PDict _ \<Rightarrow> deserialise_card v
   | _ \<Rightarrow> Inl KeyStoreBackendError)"

definition pgk_get :: "'d pg_client \<Rightarrow> string \<Rightarrow> string \<Rightarrow> 'd \<Rightarrow> card option res \<times> 'd" where
  \<comment> \<open>also an unknown type of card, a \<open>KeyStoreError\<close>, becomes \<open>KeyStoreBackendError\<close>\<close>
  "pgk_get D table eid d =
     (case backend_error (with_connection D (committed D (get_text table) [eid]) d) of
        (Inl e, d1) \<Rightarrow> (Inl e, d1)
      | (Inr r, d1) \<Rightarrow>
          (case column r of
             [] \<Rightarrow> (Inr None, d1)
           | v # _ \<Rightarrow> (case read_column v of Inl _ \<Rightarrow> Inl KeyStoreBackendError | Inr c \<Rightarrow> Inr (Some c), d1)))"

definition pgk_delete :: "'d pg_client \<Rightarrow> string \<Rightarrow> string \<Rightarrow> 'd \<Rightarrow> bool res \<times> 'd" where
  "pgk_delete D table eid d =
     (case backend_error (with_connection D (committed D (delete_text table) [eid]) d) of
        (r, d1) \<Rightarrow> (rbind r (\<lambda>q. Inr (0 < rowcount q)), d1))"

definition text_column :: "pyval list \<Rightarrow> string list" where
  \<comment> \<open>the column \<open>entity_id\<close> has the type \<open>TEXT\<close>: its values are strings\<close>
  "text_column vs = concat (map (\<lambda>v. case v of PStr s \<Rightarrow> [s] | _ \<Rightarrow> []) vs)"

definition pgk_list :: "'d pg_client \<Rightarrow> string \<Rightarrow> 'd \<Rightarrow> string list res \<times> 'd" where
  "pgk_list D table d =
     backend_error (with_connection D (\<lambda>d. case pc_exec D (list_text table) [] d of
        (Inl x, _) \<Rightarrow> (Inl x, d)
      | (Inr r, d1) \<Rightarrow> (case pc_rollback D d of Inl x \<Rightarrow> (Inl x, d) | Inr _ \<Rightarrow> (Inr (text_column (column r)), d))) d)"

definition postgres_store :: "'d pg_client \<Rightarrow> pylib \<Rightarrow> string \<Rightarrow> 'd kstore" where
  "postgres_store D L table = \<lparr>ks_put = pgk_put D L table, ks_get = pgk_get D table, ks_delete = pgk_delete D table,
     ks_list = \<lambda>d. Some (pgk_list D table d)\<rparr>"

section \<open>Redis, asynchronous\<close>

definition arks_put :: "'r redis_kv \<Rightarrow> pylib \<Rightarrow> redis_config \<Rightarrow> card \<Rightarrow> bool \<Rightarrow> 'r \<Rightarrow> unit res \<times> 'r" where
  "arks_put R L cf c overwrite r =
     (let rkey = kv_prefix cf @ card_id c; raw = dumps (float_repr L) False (PDict (serialise_card c))
      in if \<not> overwrite
         then (case kv_set R rkey raw True (if 0 < kv_ttl cf then Some (kv_ttl cf) else None) r of
             (Inl e, r') \<Rightarrow> (Inl KeyStoreBackendError, r')
           | (Inr b, r') \<Rightarrow> (if \<not> b then Inl DuplicateCardError else Inr (), r'))
         else if 0 < kv_ttl cf
         then (case kv_set R rkey raw False (Some (kv_ttl cf)) r of
             (Inl e, r') \<Rightarrow> (Inl KeyStoreBackendError, r') | (Inr _, r') \<Rightarrow> (Inr (), r'))
         else (case kv_set R rkey raw False None r of
             (Inl e, r') \<Rightarrow> (Inl KeyStoreBackendError, r') | (Inr _, r') \<Rightarrow> (Inr (), r')))"

definition arks_get :: "'r redis_kv \<Rightarrow> redis_config \<Rightarrow> string \<Rightarrow> 'r \<Rightarrow> card option res \<times> 'r" where
  "arks_get R cf eid r =
     wrap_backend (case kv_get R (kv_prefix cf @ eid) r of
        (Inl e, r') \<Rightarrow> (Inl e, r')
      | (Inr raw, r') \<Rightarrow>
          (case raw of None \<Rightarrow> (Inr None, r') | Some s \<Rightarrow> (rbind (rbind (loads s) deserialise_card) (\<lambda>c. Inr (Some c)), r')))"

definition arks_delete :: "'r redis_kv \<Rightarrow> redis_config \<Rightarrow> string \<Rightarrow> 'r \<Rightarrow> bool res \<times> 'r" where
  "arks_delete R cf eid r =
     wrap_backend (case kv_del R (kv_prefix cf @ eid) r of (q, r') \<Rightarrow> (rbind q (\<lambda>n. Inr (n \<noteq> 0)), r'))"

definition arks_list :: "'r redis_kv \<Rightarrow> redis_config \<Rightarrow> 'r \<Rightarrow> (string list res \<times> 'r) option" where
  "arks_list R cf r =
     map_option (\<lambda>(q, r'). wrap_backend (rbind q (\<lambda>ks. Inr (map (remove_prefix (kv_prefix cf)) ks)), r'))
       (scan_loop R (kv_prefix cf @ ''*'') 0 [] r)"

definition async_redis_store :: "'r redis_kv \<Rightarrow> pylib \<Rightarrow> redis_config \<Rightarrow> 'r kstore" where
  "async_redis_store R L cf = \<lparr>ks_put = arks_put R L cf, ks_get = arks_get R cf, ks_delete = arks_delete R cf,
     ks_list = arks_list R cf\<rparr>"

lemma rbind_rbind: "rbind (rbind r f) g = rbind r (\<lambda>x. rbind (f x) g)"
  by (cases r) simp_all

lemma async_redis_same: "async_redis_store R L cf = redis_store R L cf"
proof -
  have "arks_put R L cf c ow r = rks_put R L cf c ow r" for c ow r
    by (cases ow) (auto simp: arks_put_def rks_put_def Let_def split: prod.split sum.split)
  moreover have "arks_get R cf eid r = rks_get R cf eid r" for eid r
    by (simp add: arks_get_def rks_get_def rbind_rbind split: prod.split sum.split option.split)
  moreover have "arks_delete R cf eid r = rks_delete R cf eid r" for eid r
    by (auto simp: arks_delete_def rks_delete_def split: prod.split sum.split)
  moreover have "arks_list R cf r = rks_list R cf r" for r
    by (auto simp: arks_list_def rks_list_def split: prod.split sum.split option.split)
  ultimately show ?thesis by (simp add: async_redis_store_def redis_store_def fun_eq_iff)
qed

section \<open>What the store does on a server\<close>

definition first_token :: "string \<Rightarrow> char option" where
  "first_token s = (case dropWhile (\<lambda>c. c \<in> {CHR '' '', CHR 0x09, CHR 0x0A, CHR 0x0D}) s of [] \<Rightarrow> None | c # _ \<Rightarrow> Some c)"

definition rejects_hash :: "'d pg_client \<Rightarrow> bool" where
  \<comment> \<open>in PostgreSQL \<open>#\<close> is an operator, comments begin with \<open>--\<close>: no statement begins with it\<close>
  "rejects_hash D \<longleftrightarrow> (\<forall>s ps d. first_token s = Some (CHR ''#'') \<longrightarrow>
     (\<exists>x d'. pc_exec D s ps d = (Inl x, d') \<and> x \<noteq> Some ''23505''))"

definition pool_ok :: "'d pg_client \<Rightarrow> bool" where
  \<comment> \<open>getting and returning connections are no statements: they cannot violate a constraint\<close>
  "pool_ok D \<longleftrightarrow> (\<forall>d. pc_connect D d \<noteq> Inl (Some ''23505'') \<and> pc_release D d \<noteq> Inl (Some ''23505''))"

lemma put_text_hash: "first_token (put_text table True) = Some (CHR ''#'')"
  by (simp add: put_text_def first_token_def indent_def numeral_eq_Suc)

text \<open>On a PostgreSQL server no card can be stored with the default \<open>overwrite=True\<close>: the text of the
  statement begins with a remark for the linter, which is not SQL. Every such \<open>put\<close>, directly or through
  a cache, raises \<open>KeyStoreBackendError\<close> and changes neither the database nor the cache.\<close>

theorem postgres_default_put_fails:
  assumes "rejects_hash D" and "pool_ok D"
  shows "ks_put (postgres_store D L table) c True d = (Inl KeyStoreBackendError, d) \<and>
    ks_put (caching_store KC (postgres_store D L table)) c True (cs, d) = (Inl KeyStoreBackendError, cs, d)"
proof -
  obtain ps where ps: "ps = [card_id c, case c of Public _ \<Rightarrow> ''public'' | Signed _ \<Rightarrow> ''signed'', card_text L c]" by simp
  obtain x d' where x: "pc_exec D (put_text table True) ps d = (Inl x, d')" "x \<noteq> Some ''23505''"
    using assms(1) put_text_hash by (metis rejects_hash_def)
  have "ks_put (postgres_store D L table) c True d = (Inl KeyStoreBackendError, d)"
    using x assms(2)
    by (auto simp: postgres_store_def pgk_put_def with_connection_def committed_def Let_def ps pool_ok_def split: sum.split)
  then show ?thesis by (simp add: caching_store_def cks_put_def)
qed

definition demo_server :: "(string \<times> string) list pg_client" where
  \<comment> \<open>a server that knows the plain insertion\<close>
  "demo_server = \<lparr>pc_connect = \<lambda>d. Inr (),
     pc_exec = \<lambda>s ps d. if first_token s = Some (CHR ''#'') then (Inl (Some ''42601''), d)
       else (case ps of
          [eid, ty, text] \<Rightarrow> if map_of d eid = None then (Inr \<lparr>rowcount = 1, column = []\<rparr>, (eid, text) # d) else (Inl (Some ''23505''), d)
        | _ \<Rightarrow> (Inr \<lparr>rowcount = 0, column = []\<rparr>, d)),
     pc_commit = \<lambda>d d1. (Inr (), d1), pc_rollback = \<lambda>d. Inr (), pc_release = \<lambda>d. Inr ()\<rparr>"

theorem postgres_default_put_fails_witness:
  "ks_put (postgres_store demo_server demo_lib ''uxsp_cards'') (Public demo_card) True [] = (Inl KeyStoreBackendError, []) \<and>
   ks_put (caching_store memory_store (postgres_store demo_server demo_lib ''uxsp_cards'')) (Public demo_card) True ([], []) = (Inl KeyStoreBackendError, [], [])"
proof -
  have "rejects_hash demo_server" "pool_ok demo_server"
    by (simp_all add: rejects_hash_def pool_ok_def demo_server_def)
  then show ?thesis by (rule postgres_default_put_fails)
qed

text \<open>Without \<open>overwrite\<close> the same server stores a card once.\<close>

lemma postgres_plain_put:
  "ks_put (postgres_store demo_server L ''uxsp_cards'') (Public p) False [] = (Inr (), [(c_entity_id p, card_text L (Public p))])"
  "ks_put (postgres_store demo_server L ''uxsp_cards'') (Public p) False [(c_entity_id p, t)] = (Inl DuplicateCardError, [(c_entity_id p, t)])"
  by (simp_all add: postgres_store_def pgk_put_def with_connection_def committed_def demo_server_def put_text_def first_token_def
      indent_def numeral_eq_Suc card_id_def)

end
