(* ===== verification/Http.thy ===== *)
theory Http
  imports Envelope
begin

text \<open>
  \<open>uxsp/transport/http.py\<close>: envelopes as HTTP requests and responses. The headers repeat four fields
  of the signed body; the receiver compares them. Header maps are association lists in their order;
  the names of headers compare without regard to case. Lemmas: what is built is parsed back, however
  a proxy writes the header names, and what acceptance means.
\<close>

section \<open>Negotiation\<close>

definition lower_case :: "string \<Rightarrow> string" where
  \<comment> \<open>\<open>s.lower()\<close> for code points up to U+00FF\<close>
  "lower_case s = map (\<lambda>c. let n = of_char c :: nat in
     if 65 \<le> n \<and> n \<le> 90 \<or> 192 \<le> n \<and> n \<le> 222 \<and> n \<noteq> 215 then char_of (n + 32) else c) s"

fun split_comma :: "string \<Rightarrow> string list" where
  \<comment> \<open>\<open>s.split(",")\<close>\<close>
  "split_comma [] = [[]]"
| "split_comma (c # cs) =
     (if c = CHR '','' then [] # split_comma cs
      else case split_comma cs of [] \<Rightarrow> [[c]] | t # ts \<Rightarrow> (c # t) # ts)"

definition DEFAULT_UXSP_SUPPORT :: string where "DEFAULT_UXSP_SUPPORT = ''v1.2, ml-kem-768''"

definition DEFAULT_UXSP_SELECTED :: string where "DEFAULT_UXSP_SELECTED = ''v1.2''"

definition negotiate_protocol :: "string option \<Rightarrow> string option" where
  "negotiate_protocol h = (case h of
     None \<Rightarrow> None
   | Some s \<Rightarrow>
       if s = [] then None
       else let tokens = map (\<lambda>t. lower_case (strip t)) (split_comma s)
         in if ''v1.2'' \<in> set tokens \<or> (\<exists>t \<in> set tokens. contains_text ''ml-kem'' t) then Some ''v1.2''
            else if ''v1.0'' \<in> set tokens \<or> ''v1'' \<in> set tokens then Some ''v1.0''
            else Some DEFAULT_UXSP_SELECTED)"

section \<open>Building\<close>

type_synonym headers = "(string \<times> string) list"

definition HTTP_VERSION :: string where "HTTP_VERSION = ''1''"

definition HEADER_VERSION :: string where "HEADER_VERSION = ''X-UXSP-Version''"
definition HEADER_SENDER :: string where "HEADER_SENDER = ''X-UXSP-Sender''"
definition HEADER_RECIPIENT :: string where "HEADER_RECIPIENT = ''X-UXSP-Recipient''"
definition HEADER_TIMESTAMP :: string where "HEADER_TIMESTAMP = ''X-UXSP-Timestamp''"
definition HEADER_NONCE :: string where "HEADER_NONCE = ''X-UXSP-Nonce''"
definition HEADER_SEC_UXSP_SUPPORT :: string where "HEADER_SEC_UXSP_SUPPORT = ''Sec-UXSP-Support''"
definition HEADER_SEC_UXSP_SELECTED :: string where "HEADER_SEC_UXSP_SELECTED = ''Sec-UXSP-Selected''"

definition UXSP_CONTENT_TYPE :: string where "UXSP_CONTENT_TYPE = ''application/uxsp+json''"

datatype env_arg = EnvDict dict | EnvObject envelope

datatype http_body = BodyBytes bytes | BodyText string | BodyOther

record http_message =
  m_headers :: headers
  m_body :: string
  m_content_type :: string

definition optional_header :: "string \<Rightarrow> string option \<Rightarrow> headers" where
  "optional_header name v = (case v of None \<Rightarrow> [] | Some s \<Rightarrow> if s = [] then [] else [(name, s)])"

definition build_envelope_response :: "pylib \<Rightarrow> env_arg \<Rightarrow> string option \<Rightarrow> string option \<Rightarrow> http_message" where
  "build_envelope_response L a sec_support sec_selected =
     (let d = (case a of EnvDict d \<Rightarrow> d | EnvObject e \<Rightarrow> env_to_dict e);
          field = (\<lambda>k. py_str L (dget_default d k (PStr [])))
      in \<lparr>m_headers = [(HEADER_VERSION, HTTP_VERSION), (HEADER_NONCE, field ''envelope_nonce''),
            (HEADER_TIMESTAMP, field ''timestamp''), (HEADER_SENDER, field ''sender_id''),
            (HEADER_RECIPIENT, field ''recipient_id'')] @ optional_header HEADER_SEC_UXSP_SUPPORT sec_support
            @ optional_header HEADER_SEC_UXSP_SELECTED sec_selected,
          m_body = dumps (float_repr L) False (PDict d), m_content_type = UXSP_CONTENT_TYPE\<rparr>)"

definition request_build :: "pylib \<Rightarrow> env_arg \<Rightarrow> string option \<Rightarrow> http_message" where
  "request_build L a sec_support = build_envelope_response L a sec_support None"

definition response_build :: "pylib \<Rightarrow> env_arg \<Rightarrow> string option \<Rightarrow> http_message" where
  "response_build L a sec_selected = build_envelope_response L a None sec_selected"

section \<open>Parsing\<close>

definition header_value :: "headers \<Rightarrow> string \<Rightarrow> string option" where
  \<comment> \<open>\<open>norm.get(name.lower())\<close>: of names that differ only in case the last one counts\<close>
  "header_value hs name = map_of (rev (map (\<lambda>(k, v). (lower_case k, v)) hs)) (lower_case name)"

definition get_header :: "headers \<Rightarrow> string \<Rightarrow> string res" where
  "get_header hs name = (case header_value hs name of None \<Rightarrow> Inl MissingUXSPHeaderError | Some v \<Rightarrow> Inr v)"

definition read_headers :: "headers \<Rightarrow> (string \<times> string \<times> string \<times> string) res" where
  \<comment> \<open>the version check and the four required headers: sender, recipient, timestamp, nonce\<close>
  "read_headers hs =
     rbind (get_header hs HEADER_VERSION) (\<lambda>version.
     guard (version = HTTP_VERSION) UXSPVersionMismatchError
      (rbind (get_header hs HEADER_SENDER) (\<lambda>sender.
       rbind (get_header hs HEADER_RECIPIENT) (\<lambda>recipient.
       rbind (get_header hs HEADER_TIMESTAMP) (\<lambda>ts.
       rbind (get_header hs HEADER_NONCE) (\<lambda>nonce.
       Inr (sender, recipient, ts, nonce)))))))"

definition body_text :: "int \<Rightarrow> http_body \<Rightarrow> string res" where
  "body_text limit b = (case b of
     BodyBytes raw \<Rightarrow>
       guard (int (length raw) \<le> limit) EnvelopeTooLargeError
        (case utf8_decode raw of None \<Rightarrow> Inl UXSPHTTPError | Some s \<Rightarrow> Inr s)
   | BodyText s \<Rightarrow> guard (int (length (utf8 s)) \<le> limit) EnvelopeTooLargeError (Inr s)
   | BodyOther \<Rightarrow> Inl UXSPHTTPError)"

definition read_body :: "pylib \<Rightarrow> int option \<Rightarrow> http_body \<Rightarrow> envelope res" where
  \<comment> \<open>from the size limit to \<open>Envelope.from_dict\<close>\<close>
  "read_body L max_bytes b =
     rbind (body_text (limit_of max_bytes) b) (\<lambda>s.
     rbind (rescue (\<lambda>e. e = JSONDecodeError) UXSPHTTPError (loads s)) (\<lambda>v.
     case v of PDict d \<Rightarrow> env_from_dict (float_repr L) d None | _ \<Rightarrow> Inl UXSPHTTPError))"

definition assert_headers_match_envelope :: "envelope \<Rightarrow> string \<Rightarrow> string \<Rightarrow> string \<Rightarrow> string \<Rightarrow> unit res" where
  "assert_headers_match_envelope e sender recipient ts nonce =
     guard (e_sender_id e = sender) UXSPHTTPError
      (guard (e_recipient_id e = recipient) UXSPHTTPError
       (guard (str_int (e_timestamp e) = ts) UXSPHTTPError
        (guard (e_envelope_nonce e = nonce) UXSPHTTPError (Inr ()))))"

definition request_parse :: "pylib \<Rightarrow> headers \<Rightarrow> http_body \<Rightarrow> string option \<Rightarrow> int option \<Rightarrow> envelope res" where
  "request_parse L hs body my_id max_bytes =
     rbind (read_headers hs) (\<lambda>(sender, recipient, ts, nonce).
     guard (my_id = None \<or> my_id = Some recipient) WrongRecipientError
      (rbind (read_body L max_bytes body) (\<lambda>e.
       rbind (assert_headers_match_envelope e sender recipient ts nonce) (\<lambda>_. Inr e))))"

definition response_parse :: "pylib \<Rightarrow> headers \<Rightarrow> http_body \<Rightarrow> string option \<Rightarrow> int option \<Rightarrow> envelope res" where
  \<comment> \<open>\<open>my_id\<close> is not used\<close>
  "response_parse L hs body my_id max_bytes =
     rbind (read_headers hs) (\<lambda>(sender, recipient, ts, nonce).
     rbind (read_body L max_bytes body) (\<lambda>e.
     rbind (assert_headers_match_envelope e sender recipient ts nonce) (\<lambda>_. Inr e)))"

section \<open>Lemmas\<close>

definition same_headers :: "headers \<Rightarrow> headers \<Rightarrow> bool" where
  \<comment> \<open>the same values for the same names, in any case and order\<close>
  "same_headers hs hs' \<longleftrightarrow> (\<forall>name. header_value hs' name = header_value hs name)"

lemma utf8_of_decode: "utf8_decode b = Some s \<Longrightarrow> utf8 s = b"
proof (induction b arbitrary: s rule: utf8_decode.induct)
  case (2 b bs)
  have h: "unat b < 256" using unsigned_less [of b, where ?'a = nat] by simp
  show ?case
  proof (cases "unat b < 128")
    case True
    with 2 h show ?thesis by (auto simp: Let_def byte_of_def)
  next
    case False
    with 2(3) obtain c cs t where c: "bs = c # cs" "194 \<le> unat b" "unat b \<le> 195" "128 \<le> unat c" "unat c \<le> 191"
      "utf8_decode cs = Some t" "s = char_of ((unat b - 192) * 64 + (unat c - 128)) # t"
      by (auto split: list.splits if_splits)
    define k x where "k = unat b - 192" and "x = unat c - 128"
    then have n: "unat b = 192 + k" "unat c = 128 + x" "x < 64" "k < 4" "2 \<le> k" using c by auto
    then have "(k * 64 + x) div 64 = k" "(k * 64 + x) mod 64 = x" "k * 64 + x < 256" "128 \<le> k * 64 + x" by auto
    moreover have "byte_of (192 + k) = b" "byte_of (128 + x) = c" using n by (metis byte_of_unat)+
    ultimately show ?thesis using c(6,7) 2(2) [OF False c(1)] c n by (simp add: Let_def)
  qed
qed simp

lemma read_headers_cong: "same_headers hs hs' \<Longrightarrow> read_headers hs' = read_headers hs"
  by (simp add: read_headers_def get_header_def same_headers_def)

lemma lower_names:
  "lower_case HEADER_VERSION = ''x-uxsp-version''" "lower_case HEADER_SENDER = ''x-uxsp-sender''"
  "lower_case HEADER_RECIPIENT = ''x-uxsp-recipient''" "lower_case HEADER_TIMESTAMP = ''x-uxsp-timestamp''"
  "lower_case HEADER_NONCE = ''x-uxsp-nonce''" "lower_case HEADER_SEC_UXSP_SUPPORT = ''sec-uxsp-support''"
  "lower_case HEADER_SEC_UXSP_SELECTED = ''sec-uxsp-selected''"
  by code_simp+

lemma sent_fields:
  "dget_default (env_to_dict e) ''envelope_nonce'' v = PStr (e_envelope_nonce e)"
  "dget_default (env_to_dict e) ''timestamp'' v = PInt (e_timestamp e)"
  "dget_default (env_to_dict e) ''sender_id'' v = PStr (e_sender_id e)"
  "dget_default (env_to_dict e) ''recipient_id'' v = PStr (e_recipient_id e)"
  by (simp_all add: env_to_dict_def dget_default_def has_key_def dget_def)

lemma optional_header_cases: "optional_header name v = [] \<or> (\<exists>s. optional_header name v = [(name, s)])"
  by (cases v) (simp_all add: optional_header_def)

lemma read_headers_built:
  "read_headers (m_headers (build_envelope_response L (EnvObject e) a b)) =
     Inr (e_sender_id e, e_recipient_id e, str_int (e_timestamp e), e_envelope_nonce e)"
  using optional_header_cases [of HEADER_SEC_UXSP_SUPPORT a] optional_header_cases [of HEADER_SEC_UXSP_SELECTED b]
  by (auto simp: read_headers_def get_header_def header_value_def build_envelope_response_def Let_def sent_fields
      lower_names guard_def simp del: dumps.simps)

lemma json_text_ok:
  "loads (dumps (float_repr L) False (PDict (env_to_dict e))) = Inr (PDict (env_to_dict e))"
  using loads_bytes_dumps [OF env_json_ok, of "float_repr L" False e] by (simp add: loads_bytes_def del: dumps.simps)

lemma read_body_built:
  assumes "e_version e = UXSP_VERSION" and "m_body m = dumps (float_repr L) False (PDict (env_to_dict e))"
    and "b = BodyText (m_body m) \<or> b = BodyBytes (utf8 (m_body m))"
    and "int (length (utf8 (m_body m))) \<le> limit_of mx" and "int (length (utf8 (m_body m))) \<le> MAX_BYTES"
  shows "read_body L mx b = Inr (e\<lparr>e_size_cache := None\<rparr>)"
proof -
  have "body_text (limit_of mx) b = Inr (m_body m)" using assms(3,4) by (auto simp: body_text_def)
  moreover have "int (length (dumps (float_repr L) True (PDict (env_to_dict e)))) \<le> limit_of None"
    using dumps_compact_le(1) [of "float_repr L" "PDict (env_to_dict e)"] length_utf8 [of "m_body m"] assms(2,5)
    unfolding limit_of_def by simp
  note env_from_to_dict [OF assms(1) this]
  ultimately show ?thesis using json_text_ok [of L e] assms(2) by (simp add: read_body_def del: dumps.simps)
qed

lemma built_body: "m_body (build_envelope_response L (EnvObject e) a b) = dumps (float_repr L) False (PDict (env_to_dict e))"
  by (simp add: build_envelope_response_def Let_def)

lemmas builders = request_build_def response_build_def

lemma dict_case_Inr: "(case v of PDict d \<Rightarrow> f d | _ \<Rightarrow> Inl x) = Inr e \<longleftrightarrow> (\<exists>d. v = PDict d \<and> f d = Inr e)"
  by (cases v) simp_all

lemma request_parse_Inr:
  assumes "request_parse L hs body my_id mx = Inr e"
  shows "response_parse L hs body my_id mx = Inr e \<and> (my_id = None \<or> my_id = Some (e_recipient_id e))"
  using assms by (auto simp: request_parse_def response_parse_def assert_headers_match_envelope_def res_Inr_iffs)

lemma response_parse_Inr:
  assumes "response_parse L hs body my_id mx = Inr e"
  shows "read_headers hs = Inr (e_sender_id e, e_recipient_id e, str_int (e_timestamp e), e_envelope_nonce e) \<and>
    (\<exists>s d. body_text (limit_of mx) body = Inr s \<and> loads s = Inr (PDict d) \<and> env_from_dict (float_repr L) d None = Inr e)"
  using assms
  by (auto simp: response_parse_def read_body_def assert_headers_match_envelope_def res_Inr_iffs dict_case_Inr)

lemma read_headers_Inr:
  "read_headers hs = Inr (s, r, ts, n) \<longleftrightarrow> header_value hs HEADER_VERSION = Some HTTP_VERSION \<and>
     header_value hs HEADER_SENDER = Some s \<and> header_value hs HEADER_RECIPIENT = Some r \<and>
     header_value hs HEADER_TIMESTAMP = Some ts \<and> header_value hs HEADER_NONCE = Some n"
  by (auto simp: read_headers_def get_header_def res_Inr_iffs split: option.splits)

lemma built_read:
  assumes "e_version e = UXSP_VERSION" and "same_headers (m_headers (build_envelope_response L (EnvObject e) x y)) hs"
    and "m = build_envelope_response L (EnvObject e) x' y'"
    and "b \<in> {BodyText (m_body m), BodyBytes (utf8 (m_body m))}"
    and "int (length (utf8 (m_body m))) \<le> limit_of mx" and "int (length (utf8 (m_body m))) \<le> MAX_BYTES"
  shows "response_parse L hs b my mx = Inr (e\<lparr>e_size_cache := None\<rparr>) \<and>
    request_parse L hs b my mx =
      (if my = None \<or> my = Some (e_recipient_id e) then Inr (e\<lparr>e_size_cache := None\<rparr>) else Inl WrongRecipientError)"
proof -
  have "read_body L mx b = Inr (e\<lparr>e_size_cache := None\<rparr>)"
    using assms(4-6) by (intro read_body_built [OF assms(1), of m]) (auto simp: assms(3) built_body)
  moreover have "read_headers hs = Inr (e_sender_id e, e_recipient_id e, str_int (e_timestamp e), e_envelope_nonce e)"
    using read_headers_cong [OF assms(2)] by (simp add: read_headers_built)
  ultimately show ?thesis
    by (simp add: request_parse_def response_parse_def assert_headers_match_envelope_def guard_def)
qed

definition demo_pylib :: pylib where
  "demo_pylib = \<lparr>float_repr = (\<lambda>q. []), str_other = (\<lambda>v. []), isoformat = (\<lambda>t. []), fromisoformat = (\<lambda>s. None)\<rparr>"

lemma demo_env_fields:
  "e_version demo_env = UXSP_VERSION" "e_recipient_id demo_env = ''b''" "demo_env\<lparr>e_size_cache := None\<rparr> = demo_env"
  by (simp_all add: demo_env_def UXSP_VERSION_def)

lemma demo_sizes_http:
  "int (length (utf8 (m_body (request_build demo_pylib (EnvObject demo_env) None)))) \<le> MAX_BYTES"
  by code_simp

lemma same_headers_refl [simp]: "same_headers hs hs"
  by (simp add: same_headers_def)

lemma demo_request:
  "request_parse demo_pylib (m_headers (request_build demo_pylib (EnvObject demo_env) None))
     (BodyText (m_body (request_build demo_pylib (EnvObject demo_env) None))) None None = Inr demo_env"
  using built_read [where e = demo_env and L = demo_pylib and x = None and y = None and x' = None and y' = None and my = None
      and mx = None and m = "request_build demo_pylib (EnvObject demo_env) None"] demo_sizes_http by (simp add: builders limit_of_def demo_env_fields)

section \<open>Properties\<close>

text \<open>C16: A request built from an envelope of the current version, whose JSON text fits the limits, is parsed
  back to this envelope by its recipient, from the text or its bytes, with the header names in any case
  and order; a response likewise; and a recipient with another id refuses the request.\<close>

theorem http_roundtrip:
  assumes "e_version e = UXSP_VERSION" and "m = request_build L (EnvObject e) support"
    and "w = response_build L (EnvObject e) selected"
    and "same_headers (m_headers m) hs" and "same_headers (m_headers w) hs'"
    and "b \<in> {BodyText (m_body m), BodyBytes (utf8 (m_body m))}"
    and "int (length (utf8 (m_body m))) \<le> limit_of mx" and "int (length (utf8 (m_body m))) \<le> MAX_BYTES"
  shows "request_parse L hs b (Some (e_recipient_id e)) mx = Inr (e\<lparr>e_size_cache := None\<rparr>) \<and>
    response_parse L hs' b (Some (e_recipient_id e)) mx = Inr (e\<lparr>e_size_cache := None\<rparr>) \<and>
    (my \<noteq> e_recipient_id e \<longrightarrow> request_parse L hs b (Some my) mx = Inl WrongRecipientError)"
  using built_read [OF assms(1) _ _ _ assms(7,8), where x = None and y = selected and hs = hs' and x' = support and y' = None]
    built_read [OF assms(1) _ _ _ assms(7,8), where x = support and y = None and hs = hs and x' = support and y' = None] assms(2-6)
  by (auto simp: builders)

definition lowered :: "headers \<Rightarrow> headers" where
  \<comment> \<open>what HTTP/2 makes of header names\<close>
  "lowered hs = map (\<lambda>(k, v). (lower_case k, v)) hs"

lemma lower_case_twice: "lower_case (lower_case s) = lower_case s"
  by (auto simp: lower_case_def Let_def)

lemma same_headers_lowered: "same_headers hs (lowered hs)"
  by (simp add: same_headers_def header_value_def lowered_def comp_def case_prod_unfold lower_case_twice)

theorem http_roundtrip_witness:
  "request_parse demo_pylib (lowered (m_headers (request_build demo_pylib (EnvObject demo_env) None)))
     (BodyBytes (utf8 (m_body (request_build demo_pylib (EnvObject demo_env) None)))) (Some ''b'') None = Inr demo_env \<and>
   request_parse demo_pylib (lowered (m_headers (request_build demo_pylib (EnvObject demo_env) None)))
     (BodyBytes (utf8 (m_body (request_build demo_pylib (EnvObject demo_env) None)))) (Some ''x'') None = Inl WrongRecipientError"
proof -
  from http_roundtrip [OF _ refl refl same_headers_lowered same_headers_lowered _ _ demo_sizes_http,
      where b = "BodyBytes (utf8 (m_body (request_build demo_pylib (EnvObject demo_env) None)))" and my = "''x''" and mx = None]
  show ?thesis using demo_sizes_http by (simp add: demo_env_fields limit_of_def)
qed

text \<open>C17: What acceptance of a request means: the protocol version is right, the headers repeat sender,
  recipient, time stamp and nonce of the signed body exactly, the recipient is the caller if it gave its
  id, and the body is an object that fits the caller's limit and that \<open>Envelope.from_dict\<close> accepts, which
  has its own limit of 64 KiB, whatever limit the caller gave.\<close>

theorem request_parse_sound:
  assumes "request_parse L hs body my_id mx = Inr e"
  shows "header_value hs HEADER_VERSION = Some HTTP_VERSION \<and> header_value hs HEADER_SENDER = Some (e_sender_id e) \<and>
    header_value hs HEADER_RECIPIENT = Some (e_recipient_id e) \<and>
    header_value hs HEADER_TIMESTAMP = Some (str_int (e_timestamp e)) \<and>
    header_value hs HEADER_NONCE = Some (e_envelope_nonce e) \<and> my_id \<in> {None, Some (e_recipient_id e)} \<and>
    e_version e = UXSP_VERSION \<and>
    (\<exists>s d. body_text (limit_of mx) body = Inr s \<and> loads s = Inr (PDict d) \<and>
       int (length (utf8 s)) \<le> limit_of mx \<and> int (length (dumps (float_repr L) True (PDict d))) \<le> MAX_BYTES)"
proof -
  from request_parse_Inr [OF assms] have r: "response_parse L hs body my_id mx = Inr e"
    and m: "my_id = None \<or> my_id = Some (e_recipient_id e)" by blast+
  from response_parse_Inr [OF r] obtain s d where h: "read_headers hs = Inr (e_sender_id e, e_recipient_id e, str_int (e_timestamp e), e_envelope_nonce e)"
    and b: "body_text (limit_of mx) body = Inr s" "loads s = Inr (PDict d)" "env_from_dict (float_repr L) d None = Inr e"
    by blast
  have "int (length (utf8 s)) \<le> limit_of mx" using b(1)
    by (auto simp: body_text_def res_Inr_iffs utf8_of_decode split: http_body.splits option.splits)
  with env_from_dict_Inr [OF b(3)] h b m show ?thesis by (auto simp: read_headers_Inr limit_of_def)
qed

theorem request_parse_sound_witness:
  "header_value (m_headers (request_build demo_pylib (EnvObject demo_env) None)) HEADER_NONCE = Some (e_envelope_nonce demo_env) \<and>
   e_version demo_env = UXSP_VERSION"
  using request_parse_sound [OF demo_request] by blast

text \<open>A request can be reflected as a response: \<open>UXSPHTTPResponse.parse\<close> takes the id of the caller and
  never looks at it, so that it accepts an envelope for somebody else, one of the caller's own for
  example, which \<open>UXSPHTTPRequest.parse\<close> refuses before it reads the body.\<close>

theorem reflected_response_accepted:
  assumes "request_parse L hs body None mx = Inr e" and "my_id \<noteq> e_recipient_id e"
  shows "response_parse L hs body (Some my_id) mx = Inr e \<and>
    request_parse L hs body (Some my_id) mx = Inl WrongRecipientError"
proof -
  from request_parse_Inr [OF assms(1)] have r: "response_parse L hs body None mx = Inr e" by blast
  moreover have "response_parse L hs body (Some my_id) mx = response_parse L hs body None mx"
    by (simp add: response_parse_def)
  ultimately show ?thesis
    using response_parse_Inr [OF r] assms(2) by (auto simp: request_parse_def guard_def)
qed

theorem reflected_response_accepted_witness:
  "response_parse demo_pylib (m_headers (request_build demo_pylib (EnvObject demo_env) None))
     (BodyText (m_body (request_build demo_pylib (EnvObject demo_env) None))) (Some ''a'') None = Inr demo_env \<and>
   request_parse demo_pylib (m_headers (request_build demo_pylib (EnvObject demo_env) None))
     (BodyText (m_body (request_build demo_pylib (EnvObject demo_env) None))) (Some ''a'') None = Inl WrongRecipientError"
  by (rule reflected_response_accepted [OF demo_request]) (simp add: demo_env_fields)

end
