(* ===== verification/Chunking.thy ===== *)
theory Chunking
  imports Json Crypto "HOL-Library.Multiset"
begin

text \<open>
  \<open>uxsp/core/chunking.py\<close>: large payloads as a list of self-describing chunks, each with the
  SHA-256 digest of its body and of the whole payload, and their reassembly. The digest is
  \<open>sha256\<close> of \<open>prims\<close>, the fresh transfer id an argument; a file is given by its size and by
  what each of the two passes over it reads. Encodings other than the ones the caller passes
  are functions of the argument \<open>codecs\<close>. The lemmas show the round trip of one chunk, that
  reassembly in any order inverts the transfer and accepts nothing but complete, consistent
  transfers, and that the streaming producer yields the same chunks.
\<close>

section \<open>Validation\<close>

definition lower_char :: "char \<Rightarrow> char" where
  "lower_char c = (let n = of_char c :: nat in if 65 \<le> n \<and> n \<le> 90 then char_of (n + 32) else c)"

definition lower :: "string \<Rightarrow> string" where
  \<comment> \<open>\<open>str.lower\<close> of ASCII text\<close>
  "lower s = map lower_char s"

definition validate_sha256_hex :: "pyval \<Rightarrow> string res" where
  "validate_sha256_hex v =
     (case v of
        PStr s \<Rightarrow> guard (length s = 64) ChunkValidationError
                  (guard (fromhex s \<noteq> None) ChunkValidationError (Inr (lower s)))
      | _ \<Rightarrow> Inl ChunkValidationError)"

definition require_non_negative_int :: "pyval \<Rightarrow> int res" where
  "require_non_negative_int v =
     (case v of PInt n \<Rightarrow> guard (0 \<le> n) ChunkValidationError (Inr n) | _ \<Rightarrow> Inl ChunkValidationError)"

section \<open>Chunks\<close>

record chunk =
  transfer_id :: string
  chunk_index :: int
  total_chunks :: int
  file_hash :: string
  chunk_hash :: string
  ch_kind :: string
  ch_body :: bytes
  filename :: "string option"
  content_type :: string
  ch_encoding :: "string option"

definition CHUNK_MAGIC :: bytes where "CHUNK_MAGIC = utf8 ''UXSP-CHUNK-1''"

definition MAX_HEADER_LEN :: int where "MAX_HEADER_LEN = 64 * 1024"

definition VALID_KINDS :: "string list" where "VALID_KINDS = [''file'', ''binary'', ''text'']"

definition chunk_post_init :: "chunk \<Rightarrow> chunk res" where
  "chunk_post_init c =
     rbind (validate_sha256_hex (PStr (file_hash c))) (\<lambda>f.
     rbind (validate_sha256_hex (PStr (chunk_hash c))) (\<lambda>h.
     Inr (c\<lparr>file_hash := f, chunk_hash := h\<rparr>)))"

definition chunk_header :: "chunk \<Rightarrow> dict" where
  "chunk_header c =
     [(''transfer_id'', PStr (transfer_id c)), (''chunk_index'', PInt (chunk_index c)),
      (''total_chunks'', PInt (total_chunks c)), (''file_hash_sha256'', PStr (file_hash c)),
      (''chunk_hash_sha256'', PStr (chunk_hash c)), (''kind'', PStr (ch_kind c)),
      (''filename'', opt_val (filename c)), (''content_type'', PStr (content_type c)),
      (''encoding'', opt_val (ch_encoding c)), (''body_len'', PInt (int (length (ch_body c))))]"

definition chunk_to_bytes :: "pylib \<Rightarrow> chunk \<Rightarrow> bytes res" where
  "chunk_to_bytes L c =
     (let header_raw = utf8 (dumps (float_repr L) True (PDict (chunk_header c))) in
      guard (int (length header_raw) \<le> MAX_HEADER_LEN) ChunkValidationError
        (Inr (CHUNK_MAGIC @ be_bytes 4 (length header_raw) @ header_raw @ ch_body c)))"

definition check_kind :: "pyval \<Rightarrow> string res" where
  \<comment> \<open>\<open>kind not in _VALID_KINDS\<close>: a list or an object cannot be hashed\<close>
  "check_kind v =
     (case v of
        PStr s \<Rightarrow> guard (s \<in> set VALID_KINDS) ChunkValidationError (Inr s)
      | PList _ \<Rightarrow> Inl TypeError
      | PDict _ \<Rightarrow> Inl TypeError
      | _ \<Rightarrow> Inl ChunkValidationError)"

definition optional_text :: "pyval \<Rightarrow> string option res" where
  "optional_text v = rescue (\<lambda>_. True) ChunkValidationError (opt_str v)"

definition required_text :: "pyval \<Rightarrow> string res" where
  "required_text v = (case v of
     PStr s \<Rightarrow> guard (s \<noteq> []) ChunkValidationError (Inr s) | _ \<Rightarrow> Inl ChunkValidationError)"

definition chunk_from_header :: "prims \<Rightarrow> dict \<Rightarrow> bytes \<Rightarrow> chunk res" where
  \<comment> \<open>the validation of the parsed header against the body\<close>
  "chunk_from_header P h body =
     rbind (require_non_negative_int (dget h ''body_len'')) (\<lambda>n.
     guard (n = int (length body)) ChunkValidationError
      (rbind (check_kind (dget h ''kind'')) (\<lambda>k.
       rbind (optional_text (dget h ''filename'')) (\<lambda>fname.
       rbind (required_text (dget h ''content_type'')) (\<lambda>ctype.
       rbind (optional_text (dget h ''encoding'')) (\<lambda>enc.
       guard (enc \<noteq> Some []) ChunkValidationError
        (rbind (required_text (dget h ''transfer_id'')) (\<lambda>tid.
         rbind (require_non_negative_int (dget h ''chunk_index'')) (\<lambda>idx.
         rbind (require_non_negative_int (dget h ''total_chunks'')) (\<lambda>total.
         guard (total \<noteq> 0) ChunkValidationError
          (guard (idx < total) ChunkValidationError
            (rbind (validate_sha256_hex (dget h ''file_hash_sha256'')) (\<lambda>fh.
             rbind (validate_sha256_hex (dget h ''chunk_hash_sha256'')) (\<lambda>chash.
             guard (hex (sha256 P body) = chash) ChunkValidationError
               (chunk_post_init \<lparr>transfer_id = tid, chunk_index = idx, total_chunks = total, file_hash = fh,
                  chunk_hash = chash, ch_kind = k, ch_body = body, filename = fname,
                  content_type = ctype, ch_encoding = enc\<rparr>)))))))))))))))"

definition chunk_from_bytes :: "prims \<Rightarrow> bytes \<Rightarrow> chunk res" where
  "chunk_from_bytes P buf =
     guard (16 \<le> length buf) ChunkFormatError
      (guard (take 12 buf = CHUNK_MAGIC) ChunkFormatError
        (let header_len = be_nat (take 4 (drop 12 buf)); header_end = 16 + header_len in
         guard (int header_len \<le> MAX_HEADER_LEN) ChunkFormatError
          (guard (header_end \<le> length buf) ChunkFormatError
            (rbind (rescue (\<lambda>e. e = UnicodeDecodeError \<or> e = JSONDecodeError) ChunkFormatError
                (loads_bytes (take header_len (drop 16 buf)))) (\<lambda>header.
             case header of
               PDict h \<Rightarrow> chunk_from_header P h (drop header_end buf)
             | _ \<Rightarrow> Inl ChunkFormatError)))))"

section \<open>Splitting a payload\<close>

definition py_range :: "nat \<Rightarrow> nat \<Rightarrow> nat list" where
  \<comment> \<open>\<open>range(0, n, step)\<close> for a positive step\<close>
  "py_range n step = map (\<lambda>i. i * step) [0 ..< (n + step - 1) div step]"

definition split_body :: "nat \<Rightarrow> bytes \<Rightarrow> bytes list" where
  "split_body chunk_size raw =
     (if raw = [] then [[]]
      else map (\<lambda>i. take chunk_size (drop i raw)) (py_range (length raw) chunk_size))"

record transfer_meta =
  m_kind :: string
  m_filename :: "string option"
  m_content_type :: string
  m_encoding :: "string option"

definition make_chunk :: "prims \<Rightarrow> string \<Rightarrow> transfer_meta \<Rightarrow> string \<Rightarrow> int \<Rightarrow> int \<Rightarrow> bytes \<Rightarrow> chunk res" where
  \<comment> \<open>the constructor call of both producers\<close>
  "make_chunk P tid m fhash tot i body =
     chunk_post_init \<lparr>transfer_id = tid, chunk_index = i, total_chunks = tot, file_hash = fhash,
       chunk_hash = hex (sha256 P body), ch_kind = m_kind m, ch_body = body, filename = m_filename m,
       content_type = m_content_type m, ch_encoding = m_encoding m\<rparr>"

definition create_chunked_transfer :: "prims \<Rightarrow> pylib \<Rightarrow> string \<Rightarrow> bytes \<Rightarrow> int \<Rightarrow> transfer_meta \<Rightarrow> bytes list res" where
  "create_chunked_transfer P L tid data chunk_size m =
     guard (0 < chunk_size) ChunkValidationError
      (let raw_chunks = split_body (nat chunk_size) data; tot = int (length raw_chunks) in
       res_map (\<lambda>(i, body). rbind (make_chunk P tid m (hex (sha256 P data)) tot (int i) body) (chunk_to_bytes L))
         (enumerate 0 raw_chunks))"

text \<open>
  The streaming producer reads up to \<open>chunk_size\<close> bytes at a time until a read gives nothing:
  a loop that ends because each read of a non-empty rest shortens it.
\<close>

function read_all :: "nat \<Rightarrow> bytes \<Rightarrow> bytes list" where
  "read_all n rest = (if n = 0 \<or> rest = [] then [] else take n rest # read_all n (drop n rest))"
  by pat_completeness auto
termination by (relation "measure (\<lambda>(n, rest). length rest)") (auto simp: length_greater_0_conv)

declare read_all.simps [simp del]

definition create_chunked_stream_transfer :: "prims \<Rightarrow> pylib \<Rightarrow> string \<Rightarrow> (nat \<times> bytes \<times> bytes) option \<Rightarrow> int \<Rightarrow>
    transfer_meta \<Rightarrow> bytes list res" where
  \<comment> \<open>the file: its size from \<open>stat\<close>, and what the two passes read; \<open>None\<close> when there is no
      such file. The list of all chunks yielded, or the first error.\<close>
  "create_chunked_stream_transfer P L tid file chunk_size m =
     guard (0 < chunk_size) ChunkValidationError
      (case file of
         None \<Rightarrow> Inl ChunkValidationError
       | Some (file_size, pass1, pass2) \<Rightarrow>
           let n = nat chunk_size;
               tot = (if file_size = 0 then 1 else (file_size + n - 1) div n);
               fhash = hex (sha256 P (concat (read_all n pass1)));
               emit = (\<lambda>(i, body). rbind (make_chunk P tid m fhash (int tot) (int i) body) (chunk_to_bytes L))
           in if file_size = 0 then res_map emit [(0, [])]
              else res_map emit (take tot (enumerate 0 (read_all n pass2))))"

section \<open>Reassembly\<close>

definition same_transfer :: "chunk \<Rightarrow> chunk \<Rightarrow> bool" where
  "same_transfer a c \<longleftrightarrow> transfer_id c = transfer_id a \<and> total_chunks c = total_chunks a \<and>
     file_hash c = file_hash a \<and> ch_kind c = ch_kind a \<and> content_type c = content_type a \<and>
     filename c = filename a \<and> ch_encoding c = ch_encoding a"

definition reassembled_meta :: "chunk \<Rightarrow> dict" where
  "reassembled_meta c =
     [(''transfer_id'', PStr (transfer_id c)), (''total_chunks'', PInt (total_chunks c)),
      (''kind'', PStr (ch_kind c)), (''filename'', opt_val (filename c)),
      (''content_type'', PStr (content_type c)), (''encoding'', opt_val (ch_encoding c)),
      (''file_hash_sha256'', PStr (file_hash c))]"

definition assemble :: "prims \<Rightarrow> chunk list \<Rightarrow> (dict \<times> bytes) res" where
  \<comment> \<open>the checks on the decoded chunks, the first of which is the anchor\<close>
  "assemble P decoded =
     guard (\<forall>c \<in> set (tl decoded). same_transfer (hd decoded) c) ChunkValidationError
      (guard (distinct (map chunk_index decoded)) ChunkValidationError
        (guard (int (length decoded) = total_chunks (hd decoded)) ChunkValidationError
          (let assembled = concat (map ch_body (sort_key chunk_index decoded)) in
           guard (hex (sha256 P assembled) = file_hash (hd decoded)) ChunkValidationError
             (Inr (reassembled_meta (hd decoded), assembled)))))"

definition reassemble_chunked_transfer :: "prims \<Rightarrow> bytes list \<Rightarrow> (dict \<times> bytes) res" where
  "reassemble_chunked_transfer P packed =
     guard (packed \<noteq> []) ChunkValidationError
       (rbind (res_map (chunk_from_bytes P) packed) (assemble P))"

section \<open>Text\<close>

definition create_chunked_text :: "prims \<Rightarrow> pylib \<Rightarrow> codecs \<Rightarrow> string \<Rightarrow> string \<Rightarrow> int \<Rightarrow> string \<Rightarrow> bytes list res" where
  "create_chunked_text P L C tid txt chunk_size enc =
     guard (enc \<noteq> []) ChunkValidationError
      (rbind (rescue (\<lambda>e. e = LookupError) ChunkValidationError (encode_with C enc txt)) (\<lambda>raw.
       create_chunked_transfer P L tid raw chunk_size
         \<lparr>m_kind = ''text'', m_filename = None, m_content_type = ''text/plain'', m_encoding = Some enc\<rparr>))"

definition decode_chunked_text :: "prims \<Rightarrow> codecs \<Rightarrow> bytes list \<Rightarrow> string res" where
  "decode_chunked_text P C packed =
     rbind (reassemble_chunked_transfer P packed) (\<lambda>(meta, assembled).
     guard (dget meta ''kind'' = PStr ''text'') ChunkValidationError
      (let enc = (case dget meta ''encoding'' of PStr s \<Rightarrow> if s = [] then ''utf-8'' else s | _ \<Rightarrow> ''utf-8'') in
       rescue (\<lambda>e. e = LookupError \<or> e = UnicodeDecodeError) ChunkValidationError (decode_with C enc assembled)))"
section \<open>Lemmas: one chunk\<close>

definition hex64 :: "string \<Rightarrow> bool" where
  "hex64 s \<longleftrightarrow> validate_sha256_hex (PStr s) = Inr s"

definition chunk_ok :: "prims \<Rightarrow> chunk \<Rightarrow> bool" where
  \<comment> \<open>the invariant of chunks that \<open>from_bytes\<close> returns\<close>
  "chunk_ok P c \<longleftrightarrow> transfer_id c \<noteq> [] \<and> 0 \<le> chunk_index c \<and> chunk_index c < total_chunks c \<and>
     hex64 (file_hash c) \<and> chunk_hash c = hex (sha256 P (ch_body c)) \<and> hex64 (chunk_hash c) \<and>
     ch_kind c \<in> set VALID_KINDS \<and> content_type c \<noteq> [] \<and> ch_encoding c \<noteq> Some []"

lemma lower_hexdigit: "n < 16 \<Longrightarrow> lower_char (hexdigits ! n) = hexdigits ! n"
proof -
  have "\<forall>n \<in> set [0..<16]. lower_char (hexdigits ! n) = hexdigits ! n" by code_simp
  then show "n < 16 \<Longrightarrow> lower_char (hexdigits ! n) = hexdigits ! n" by simp
qed

lemma lower_hex: "lower (hex b) = hex b"
proof (induction b)
  case (Cons x b)
  have "unat x div 16 < 16" "unat x mod 16 < 16" by (simp_all add: less_mult_imp_div_less)
  with Cons show ?case by (simp add: lower_def hex_Cons lower_hexdigit)
qed (simp add: lower_def)

lemma hex64_hex: "length b = 32 \<Longrightarrow> hex64 (hex b)"
  by (simp add: hex64_def validate_sha256_hex_def lower_hex)

lemma optional_text_opt_val [simp]: "optional_text (opt_val x) = Inr x"
  by (cases x) (simp_all add: optional_text_def)

lemma json_ok_header: "json_ok (PDict (chunk_header c))"
  by (cases "filename c"; cases "ch_encoding c") (simp_all add: chunk_header_def)

lemma dget_header:
  "dget (chunk_header c) ''transfer_id'' = PStr (transfer_id c)"
  "dget (chunk_header c) ''chunk_index'' = PInt (chunk_index c)"
  "dget (chunk_header c) ''total_chunks'' = PInt (total_chunks c)"
  "dget (chunk_header c) ''file_hash_sha256'' = PStr (file_hash c)"
  "dget (chunk_header c) ''chunk_hash_sha256'' = PStr (chunk_hash c)"
  "dget (chunk_header c) ''kind'' = PStr (ch_kind c)"
  "dget (chunk_header c) ''filename'' = opt_val (filename c)"
  "dget (chunk_header c) ''content_type'' = PStr (content_type c)"
  "dget (chunk_header c) ''encoding'' = opt_val (ch_encoding c)"
  "dget (chunk_header c) ''body_len'' = PInt (int (length (ch_body c)))"
  by (simp_all add: dget_def chunk_header_def)

lemma length_magic [simp]: "length CHUNK_MAGIC = 12"
  by (simp add: CHUNK_MAGIC_def)

lemma chunk_to_bytes_Inr:
  assumes "chunk_to_bytes L c = Inr b"
  obtains h where "h = utf8 (dumps (float_repr L) True (PDict (chunk_header c)))" "int (length h) \<le> MAX_HEADER_LEN"
    "b = CHUNK_MAGIC @ be_bytes 4 (length h) @ h @ ch_body c"
  using assms by (auto simp: chunk_to_bytes_def Let_def guard_Inr_iff)

lemma chunk_from_header_ok:
  assumes "chunk_ok P c"
  shows "chunk_from_header P (chunk_header c) (ch_body c) = Inr c"
proof -
  have v: "validate_sha256_hex (PStr (file_hash c)) = Inr (file_hash c)"
    "validate_sha256_hex (PStr (hex (sha256 P (ch_body c)))) = Inr (hex (sha256 P (ch_body c)))"
    and h: "chunk_hash c = hex (sha256 P (ch_body c))"
    using assms by (auto simp: chunk_ok_def hex64_def)
  show ?thesis
    using assms
    by (simp add: chunk_from_header_def dget_header chunk_ok_def require_non_negative_int_def check_kind_def
        required_text_def chunk_post_init_def h v)
qed

lemma chunk_bytes_roundtrip:
  assumes "chunk_ok P c" and "chunk_to_bytes L c = Inr b"
  shows "chunk_from_bytes P b = Inr c"
  using assms(2)
proof (rule chunk_to_bytes_Inr)
  fix h
  assume h: "h = utf8 (dumps (float_repr L) True (PDict (chunk_header c)))" "int (length h) \<le> MAX_HEADER_LEN"
    and b: "b = CHUNK_MAGIC @ be_bytes 4 (length h) @ h @ ch_body c"
  have n: "be_nat (be_bytes 4 (length h)) = length h"
    using h(2) by (intro be_nat_be_bytes) (simp add: MAX_HEADER_LEN_def)
  have "loads_bytes h = Inr (PDict (chunk_header c))"
    unfolding h(1) by (rule loads_bytes_dumps [OF json_ok_header])
  with h(2) n chunk_from_header_ok [OF assms(1)] show ?thesis
    by (simp add: chunk_from_bytes_def b Let_def)
qed

lemma lower_char_props:
  "lower_char (lower_char c) = lower_char c" "hexval (lower_char c) = hexval c"
  "is_space (lower_char c) = is_space c"
  by (auto simp: lower_char_def hexval_def is_space_def Let_def)

lemma fromhex_lower: "fromhex (lower s) = fromhex s"
  unfolding lower_def
  by (induction s rule: fromhex.induct) (auto simp: lower_char_props split: list.splits option.splits)

lemma validate_hex64: "validate_sha256_hex v = Inr s \<Longrightarrow> hex64 s"
  by (auto simp: validate_sha256_hex_def hex64_def guard_Inr_iff fromhex_lower split: pyval.splits)
    (simp_all add: lower_def lower_char_props)

lemma chunk_from_header_Inr:
  assumes "chunk_from_header P h body = Inr c"
  shows "chunk_ok P c \<and> ch_body c = body"
proof -
  obtain fh ch where v: "validate_sha256_hex (dget h ''file_hash_sha256'') = Inr fh"
    "validate_sha256_hex (dget h ''chunk_hash_sha256'') = Inr ch" "hex (sha256 P body) = ch"
    using assms by (auto simp: chunk_from_header_def res_Inr_iffs)
  have x: "validate_sha256_hex (PStr fh) = Inr fh" "validate_sha256_hex (PStr ch) = Inr ch"
    using validate_hex64 [OF v(1)] validate_hex64 [OF v(2)] by (simp_all add: hex64_def)
  have "fh = file_hash c \<and> ch = chunk_hash c \<and> ch_body c = body"
    using assms v x by (auto simp: chunk_from_header_def res_Inr_iffs chunk_post_init_def)
  moreover have "transfer_id c \<noteq> []" "0 \<le> chunk_index c" "chunk_index c < total_chunks c"
    "ch_kind c \<in> set VALID_KINDS" "content_type c \<noteq> []" "ch_encoding c \<noteq> Some []"
    using assms
    by (auto simp: chunk_from_header_def res_Inr_iffs chunk_post_init_def require_non_negative_int_def
        required_text_def check_kind_def split: pyval.splits)
  ultimately show ?thesis using v x by (simp add: chunk_ok_def hex64_def)
qed

lemma chunk_from_bytes_Inr:
  assumes "chunk_from_bytes P b = Inr c"
  shows "chunk_ok P c"
proof -
  obtain x where "(case x of PDict h \<Rightarrow> chunk_from_header P h (drop (16 + be_nat (take 4 (drop 12 b))) b)
      | _ \<Rightarrow> Inl ChunkFormatError) = Inr c"
    using assms unfolding chunk_from_bytes_def Let_def res_Inr_iffs by blast
  then show ?thesis by (cases x) (auto dest: chunk_from_header_Inr)
qed
section \<open>Lemmas: splitting\<close>

lemma ceil_div_ge: "0 < n \<Longrightarrow> (l :: nat) \<le> (l + n - 1) div n * n"
proof -
  assume n: "0 < n"
  have "l + n - 1 = (l + n - 1) div n * n + (l + n - 1) mod n" by simp
  moreover have "(l + n - 1) mod n \<le> n - 1" using n by (simp add: less_Suc_eq_le [symmetric])
  ultimately show ?thesis using n by linarith
qed

lemma concat_slices: "concat (map (\<lambda>i. take n (drop (i * n) xs)) [0..<k]) = take (k * n) xs"
proof (induction k)
  case (Suc k)
  have "take (Suc k * n) xs = take (k * n) xs @ take n (drop (k * n) xs)"
    by (simp add: take_add [symmetric] add.commute)
  with Suc show ?case by simp
qed simp

lemma split_body_eq:
  "split_body n raw = (if raw = [] then [[]] else map (\<lambda>i. take n (drop (i * n) raw)) [0..<(length raw + n - 1) div n])"
  by (simp add: split_body_def py_range_def o_def)

lemma concat_split_body: "0 < n \<Longrightarrow> concat (split_body n raw) = raw"
  using ceil_div_ge [of n "length raw"] by (simp add: split_body_eq concat_slices)

lemma read_all_slices:
  "0 < n \<Longrightarrow> read_all n xs = map (\<lambda>i. take n (drop (i * n) xs)) [0..<(length xs + n - 1) div n]"
proof (induction n xs rule: read_all.induct)
  case (1 n xs)
  show ?case
  proof (cases "xs = []")
    case False
    let ?k = "(length xs + n - 1) div n"
    have k: "?k = Suc ((length (drop n xs) + n - 1) div n)"
    proof (cases "length xs \<le> n")
      case True
      then have t: "length xs + n - 1 = n + (length xs - 1)" "length xs - 1 < n" using False by (cases xs; auto)+
      have "?k = Suc 0" unfolding t(1) using t(2) "1.prems" by simp
      moreover have "(length (drop n xs) + n - 1) div n = 0" using True "1.prems" by simp
      ultimately show ?thesis by simp
    next
      case F: False
      then have "?k = ((length (drop n xs) + n - 1) + n) div n" by simp
      also have "\<dots> = Suc ((length (drop n xs) + n - 1) div n)"
        using "1.prems" by (simp only: div_add_self2)
      finally show ?thesis .
    qed
    have "map (\<lambda>i. take n (drop (i * n) xs)) [0..<?k] =
        take n xs # map (\<lambda>i. take n (drop (Suc i * n) xs)) [0..<(length (drop n xs) + n - 1) div n]"
      unfolding k by (simp add: upt_conv_Cons map_Suc_upt [symmetric] o_def del: upt_Suc)
    with "1.IH" "1.prems" False show ?thesis
      by (subst read_all.simps) (simp add: add.commute)
  qed (use 1 in \<open>simp add: read_all.simps\<close>)
qed

lemma read_all_split_body: "0 < n \<Longrightarrow> xs \<noteq> [] \<Longrightarrow> read_all n xs = split_body n xs"
  by (simp add: split_body_eq read_all_slices)

section \<open>Lemmas: transfers\<close>

definition meta_ok :: "transfer_meta \<Rightarrow> bool" where
  "meta_ok m \<longleftrightarrow> m_kind m \<in> set VALID_KINDS \<and> m_content_type m \<noteq> [] \<and> m_encoding m \<noteq> Some []"

definition plain_chunk :: "prims \<Rightarrow> string \<Rightarrow> transfer_meta \<Rightarrow> string \<Rightarrow> int \<Rightarrow> int \<Rightarrow> bytes \<Rightarrow> chunk" where
  "plain_chunk P tid m fhash tot i body =
     \<lparr>transfer_id = tid, chunk_index = i, total_chunks = tot, file_hash = fhash,
       chunk_hash = hex (sha256 P body), ch_kind = m_kind m, ch_body = body, filename = m_filename m,
       content_type = m_content_type m, ch_encoding = m_encoding m\<rparr>"

definition sha_laws :: "prims \<Rightarrow> bool" where
  \<comment> \<open>a digest has 32 bytes\<close>
  "sha_laws P \<longleftrightarrow> (\<forall>b. length (sha256 P b) = 32)"

lemma make_chunk_eq:
  "sha_laws P \<Longrightarrow> make_chunk P tid m (hex (sha256 P d)) tot i body = Inr (plain_chunk P tid m (hex (sha256 P d)) tot i body)"
  using hex64_hex [of "sha256 P d"] hex64_hex [of "sha256 P body"]
  by (simp add: make_chunk_def chunk_post_init_def plain_chunk_def sha_laws_def hex64_def)

definition chunks_of :: "prims \<Rightarrow> string \<Rightarrow> transfer_meta \<Rightarrow> nat \<Rightarrow> bytes \<Rightarrow> chunk list" where
  \<comment> \<open>the chunks of a transfer before they are serialised\<close>
  "chunks_of P tid m n data =
     map (\<lambda>(i, body). plain_chunk P tid m (hex (sha256 P data)) (int (length (split_body n data))) (int i) body)
       (enumerate 0 (split_body n data))"

lemma chunks_of_ok:
  assumes "sha_laws P" and "meta_ok m" and "tid \<noteq> []" and "c \<in> set (chunks_of P tid m n data)"
  shows "chunk_ok P c"
proof -
  obtain i body where "c = plain_chunk P tid m (hex (sha256 P data)) (int (length (split_body n data))) (int i) body"
    "i < length (split_body n data)"
    using assms(4) by (auto simp: chunks_of_def in_set_enumerate_eq)
  then show ?thesis
    using assms(1-3) by (simp add: chunk_ok_def plain_chunk_def meta_ok_def hex64_hex sha_laws_def)
qed

lemma res_map_map_comp: "res_map f (map g xs) = res_map (\<lambda>x. f (g x)) xs"
  by (induction xs) simp_all

lemma create_eq:
  assumes "sha_laws P" and "0 < chunk_size"
  shows "create_chunked_transfer P L tid data chunk_size m =
    res_map (chunk_to_bytes L) (chunks_of P tid m (nat chunk_size) data)"
  using assms
  by (simp add: create_chunked_transfer_def chunks_of_def res_map_map_comp make_chunk_eq case_prod_unfold Let_def)

lemma decode_all:
  assumes "\<And>c. c \<in> set cs \<Longrightarrow> chunk_ok P c" and "res_map (chunk_to_bytes L) cs = Inr packed"
  shows "map (chunk_from_bytes P) packed = map Inr cs"
proof -
  have "list_all2 (\<lambda>c b. chunk_to_bytes L c = Inr b) cs packed" using assms(2) by (simp add: res_map_Inr_iff)
  then show ?thesis
    using assms(1) by (induction rule: list_all2_induct) (auto simp: chunk_bytes_roundtrip)
qed

lemma res_map_Inr_of:
  "(\<And>x. x \<in> set xs \<Longrightarrow> \<exists>y. f x = Inr y) \<Longrightarrow> \<exists>ys. res_map f xs = Inr ys \<and> map f xs = map Inr ys"
  by (induction xs) fastforce+

lemma decode_permuted:
  assumes "map (chunk_from_bytes P) packed = map Inr cs" and "mset qs = mset packed"
  shows "\<exists>ds. res_map (chunk_from_bytes P) qs = Inr ds \<and> mset ds = mset cs"
proof -
  have "\<exists>y. chunk_from_bytes P b = Inr y" if "b \<in> set qs" for b
  proof -
    have "chunk_from_bytes P b \<in> set (map Inr cs)"
      using that assms mset_eq_setD [OF assms(2)] by (metis image_eqI list.set_map)
    then show ?thesis by auto
  qed
  then obtain ds where d: "res_map (chunk_from_bytes P) qs = Inr ds" "map (chunk_from_bytes P) qs = map Inr ds"
    using res_map_Inr_of by metis
  have "image_mset (Inr :: chunk \<Rightarrow> chunk res) (mset ds) = image_mset Inr (mset cs)"
    using d(2) assms by (metis mset_map)
  then have "image_mset projr (image_mset (Inr :: chunk \<Rightarrow> chunk res) (mset ds)) =
      image_mset projr (image_mset (Inr :: chunk \<Rightarrow> chunk res) (mset cs))"
    by (simp only:)
  then have "mset ds = mset cs" by (simp add: image_mset.compositionality o_def)
  with d show ?thesis by blast
qed
lemma chunks_of_fields:
  "map ch_body (chunks_of P tid m n data) = split_body n data"
  "map chunk_index (chunks_of P tid m n data) = map int [0..<length (split_body n data)]"
  "length (chunks_of P tid m n data) = length (split_body n data)"
proof -
  have e: "map snd (enumerate 0 xs) = xs" "map fst (enumerate 0 xs) = [0..<length xs]" for xs :: "bytes list"
    by simp_all
  show "map ch_body (chunks_of P tid m n data) = split_body n data"
    using e(1) by (simp add: chunks_of_def plain_chunk_def case_prod_unfold o_def del: map_snd_enumerate)
  show "map chunk_index (chunks_of P tid m n data) = map int [0..<length (split_body n data)]"
    using arg_cong [OF e(2) [of "split_body n data"], of "map int"]
    by (simp add: chunks_of_def plain_chunk_def case_prod_unfold o_def del: map_fst_enumerate)
qed (simp add: chunks_of_def)

lemma chunks_of_common:
  "c \<in> set (chunks_of P tid m n data) \<Longrightarrow> d \<in> set (chunks_of P tid m n data) \<Longrightarrow> same_transfer c d"
  "c \<in> set (chunks_of P tid m n data) \<Longrightarrow> total_chunks c = int (length (split_body n data)) \<and>
     file_hash c = hex (sha256 P data) \<and> ch_kind c = m_kind m \<and> ch_encoding c = m_encoding m"
  by (auto simp: chunks_of_def plain_chunk_def same_transfer_def)

lemma split_body_nonempty: "0 < n \<Longrightarrow> split_body n data \<noteq> []"
  using ceil_div_ge [of n "length data"]
  by (cases "(length data + n - 1) div n = 0") (auto simp: split_body_eq)

lemma assemble_permuted:
  assumes "0 < n" and "mset ds = mset (chunks_of P tid m n data)"
  shows "\<exists>meta. assemble P ds = Inr (meta, data) \<and> dget meta ''kind'' = PStr (m_kind m) \<and>
    dget meta ''encoding'' = opt_val (m_encoding m)"
proof -
  let ?cs = "chunks_of P tid m n data"
  have set: "set ds = set ?cs" and len: "length ds = length (split_body n data)"
    using mset_eq_setD [OF assms(2)] mset_eq_length [OF assms(2)] chunks_of_fields(3) by simp_all
  have ne: "ds \<noteq> []" using len split_body_nonempty [OF assms(1)] by auto
  then have hd: "hd ds \<in> set ?cs" using set by (metis list.set_sel(1))
  have "\<forall>c \<in> set (tl ds). same_transfer (hd ds) c"
    using chunks_of_common(1) [OF hd] set ne by (metis list.set_sel(2))
  moreover have i: "distinct (map chunk_index ?cs)" "sorted (map chunk_index ?cs)"
    unfolding chunks_of_fields by (simp_all add: distinct_map sorted_wrt_map)
  have "mset (map chunk_index ds) = mset (map chunk_index ?cs)" using assms(2) by simp
  with i(1) have "distinct (map chunk_index ds)" by (metis mset_eq_imp_distinct_iff)
  moreover have "sort_key chunk_index ds = ?cs"
    using i by (intro sort_key_inj_key_eq assms(2)) (simp_all add: distinct_map assms(2) set)
  moreover have "concat (map ch_body ?cs) = data"
    unfolding chunks_of_fields by (rule concat_split_body [OF assms(1)])
  moreover have "total_chunks (hd ds) = int (length ds)" "file_hash (hd ds) = hex (sha256 P data)"
    "ch_kind (hd ds) = m_kind m" "ch_encoding (hd ds) = m_encoding m"
    using chunks_of_common(2) [OF hd] len by simp_all
  ultimately show ?thesis
    by (simp add: assemble_def reassembled_meta_def dget_def)
qed

lemma reassemble_permuted:
  assumes "sha_laws P" and "meta_ok m" and "tid \<noteq> []"
    and "create_chunked_transfer P L tid data chunk_size m = Inr packed" and "mset arrived = mset packed"
  shows "\<exists>meta. reassemble_chunked_transfer P arrived = Inr (meta, data) \<and>
    dget meta ''kind'' = PStr (m_kind m) \<and> dget meta ''encoding'' = opt_val (m_encoding m)"
proof -
  have n: "0 < chunk_size" using assms(4) by (simp add: create_chunked_transfer_def guard_Inr_iff)
  let ?cs = "chunks_of P tid m (nat chunk_size) data"
  have p: "res_map (chunk_to_bytes L) ?cs = Inr packed"
    using assms(4) by (simp add: create_eq [OF assms(1) n])
  have "map (chunk_from_bytes P) packed = map Inr ?cs"
    by (rule decode_all [OF chunks_of_ok [OF assms(1-3)] p])
  then obtain ds where d: "res_map (chunk_from_bytes P) arrived = Inr ds" "mset ds = mset ?cs"
    using decode_permuted [OF _ assms(5)] by blast
  have "length packed = length ?cs"
    using p by (simp add: res_map_Inr_iff list_all2_lengthD)
  then have "arrived \<noteq> []"
    using mset_eq_length [OF assms(5)] chunks_of_fields(3) split_body_nonempty [of "nat chunk_size" data] n by auto
  with d(1) assemble_permuted [OF _ d(2)] n show ?thesis by (simp add: reassemble_chunked_transfer_def)
qed
section \<open>Lemmas: the header fits\<close>

definition meta_small :: "transfer_meta \<Rightarrow> bool" where
  "meta_small m \<longleftrightarrow> length (m_kind m) \<le> 500 \<and> length (m_content_type m) \<le> 500 \<and>
     (case m_filename m of None \<Rightarrow> True | Some s \<Rightarrow> length s \<le> 500) \<and>
     (case m_encoding m of None \<Rightarrow> True | Some s \<Rightarrow> length s \<le> 500)"

lemma header_fits:
  assumes "meta_small m" and "length tid \<le> 500" and "sha_laws P" and "0 \<le> i" and "i < tot" and "tot < 10 ^ 18"
    and "length body < 10 ^ 18"
  shows "is_ok (chunk_to_bytes L (plain_chunk P tid m (hex (sha256 P data)) tot i body))"
proof -
  let ?c = "plain_chunk P tid m (hex (sha256 P data)) tot i body"
  let ?fr = "float_repr L"
  have l: "length (hex (sha256 P b)) = 64" for b using assms(3) by (simp add: sha_laws_def)
  have i: "length (dumps ?fr True (PInt n)) \<le> 19" if "0 \<le> n" "n < 10 ^ 18" for n
    by (rule length_dumps_int) (use that in simp)
  have s: "length (dumps ?fr True (PStr x)) \<le> 6 * k + 2" if "length x \<le> k" for x k
    using length_dumps_str [of ?fr True x] that by linarith
  have o: "length (dumps ?fr True (opt_val x)) \<le> 3004" if "case x of None \<Rightarrow> True | Some s \<Rightarrow> length s \<le> 500" for x
    using length_dumps_opt [of x 500 ?fr True] that by (auto split: option.splits)
  have m: "length (m_kind m) \<le> 500" "length (m_content_type m) \<le> 500"
    "case m_filename m of None \<Rightarrow> True | Some s \<Rightarrow> length s \<le> 500"
    "case m_encoding m of None \<Rightarrow> True | Some s \<Rightarrow> length s \<le> 500"
    using assms(1) by (simp_all add: meta_small_def)
  have "length (dumps_members ?fr True (chunk_header ?c)) \<le>
      member_bound [3002, 19, 19, 386, 386, 3002, 3004, 3002, 3004, 19]"
    by (rule length_members)
      (use s [OF assms(2)] s [OF m(1)] s [OF m(2)] s [OF eq_refl [OF l]] o [OF m(3)] o [OF m(4)]
         i [of i] i [of tot] i [of "int (length body)"] assms(4-7)
       in \<open>simp add: chunk_header_def plain_chunk_def del: dumps.simps\<close>)
  then have "length (dumps ?fr True (PDict (chunk_header ?c))) \<le> 17845" by simp
  with length_utf8_le [of "dumps ?fr True (PDict (chunk_header ?c))"]
  have "length (utf8 (dumps ?fr True (PDict (chunk_header ?c)))) \<le> 35690" by linarith
  then show ?thesis by (simp add: chunk_to_bytes_def Let_def MAX_HEADER_LEN_def)
qed

lemma create_ok:
  assumes "sha_laws P" and "meta_small m" and "length tid \<le> 500" and "0 < chunk_size"
    and "length data < 10 ^ 18"
  shows "\<exists>packed. create_chunked_transfer P L tid data chunk_size m = Inr packed"
proof -
  let ?n = "nat chunk_size" and ?cs = "chunks_of P tid m (nat chunk_size) data"
  have n: "0 < ?n" using assms(4) by simp
  have "concat (split_body ?n data) = data" by (rule concat_split_body [OF n])
  have k: "length (split_body ?n data) \<le> max 1 (length data)"
  proof (cases "data = []")
    case False
    have "(length data + ?n - 1) div ?n \<le> length data"
    proof -
      have "length data + ?n - 1 \<le> length data * ?n"
        using n False by (cases "length data"; cases ?n) auto
      then show ?thesis using n by (metis div_le_mono nonzero_mult_div_cancel_right neq0_conv)
    qed
    then show ?thesis by (simp add: split_body_eq le_max_iff_disj)
  qed (simp add: split_body_eq)
  have "\<exists>b. chunk_to_bytes L c = Inr b" if c: "c \<in> set ?cs" for c
  proof -
    obtain i body where c': "c = plain_chunk P tid m (hex (sha256 P data)) (int (length (split_body ?n data))) (int i) body"
      and i: "i < length (split_body ?n data)" and b: "body = split_body ?n data ! i"
      using c by (auto simp: chunks_of_def in_set_enumerate_eq)
    have "length body \<le> length data"
      using i by (auto simp: b split_body_eq split: if_splits)
    then have "is_ok (chunk_to_bytes L c)"
      unfolding c' using assms(5) k i by (intro header_fits assms(1-3)) auto
    then show ?thesis by (simp add: is_ok_iff)
  qed
  then obtain ys where "res_map (chunk_to_bytes L) ?cs = Inr ys" using res_map_Inr_of by metis
  then show ?thesis by (simp add: create_eq [OF assms(1,4)])
qed

section \<open>Properties\<close>

text \<open>C37: Chunking and reassembly are inverse, in whatever order the chunks arrive: with a positive
  chunk size and metadata of ordinary length every payload, also an empty one, is cut into
  chunks, and every permutation of them is accepted and gives back the payload with its kind and
  encoding.\<close>

theorem transfer_roundtrip:
  assumes "sha_laws P" and "meta_ok m" and "meta_small m" and "tid \<noteq> []" and "length tid \<le> 500"
    and "0 < chunk_size" and "length data < 10 ^ 18"
  shows "\<exists>packed. create_chunked_transfer P L tid data chunk_size m = Inr packed \<and>
    (\<forall>arrived. mset arrived = mset packed \<longrightarrow>
      (\<exists>meta. reassemble_chunked_transfer P arrived = Inr (meta, data) \<and>
         dget meta ''kind'' = PStr (m_kind m) \<and> dget meta ''encoding'' = opt_val (m_encoding m)))"
  using create_ok [OF assms(1,3,5-7), of L] reassemble_permuted [OF assms(1,2,4)] by blast

theorem transfer_roundtrip_witness:
  "\<exists>packed meta. create_chunked_transfer demo_prims demo_lib ''t1'' [1, 2, 3, 4, 5] 2
       \<lparr>m_kind = ''file'', m_filename = Some ''a.txt'', m_content_type = ''text/plain'', m_encoding = None\<rparr> = Inr packed \<and>
     reassemble_chunked_transfer demo_prims (rev packed) = Inr (meta, [1, 2, 3, 4, 5])"
proof -
  let ?m = "\<lparr>m_kind = ''file'', m_filename = Some ''a.txt'', m_content_type = ''text/plain'', m_encoding = None\<rparr>"
  have "sha_laws demo_prims" by (simp add: sha_laws_def demo_prims_def)
  moreover have "meta_ok ?m" "meta_small ?m" by (simp_all add: meta_ok_def meta_small_def VALID_KINDS_def)
  ultimately obtain packed where p: "create_chunked_transfer demo_prims demo_lib ''t1'' [1, 2, 3, 4, 5] 2 ?m = Inr packed"
    "\<forall>arrived. mset arrived = mset packed \<longrightarrow>
      (\<exists>meta. reassemble_chunked_transfer demo_prims arrived = Inr (meta, [1, 2, 3, 4, 5]) \<and>
         dget meta ''kind'' = PStr (m_kind ?m) \<and> dget meta ''encoding'' = opt_val (m_encoding ?m))"
    using transfer_roundtrip [of demo_prims ?m "''t1''" 2 "[1, 2, 3, 4, 5]" demo_lib] by auto
  have "mset (rev packed) = mset packed" by simp
  with p show ?thesis by blast
qed

text \<open>What reassembly accepts: every part decodes to a chunk whose body has the digest it
  carries, all parts agree on the transfer, the file digest and the metadata, their indices are
  exactly 0 to total - 1, once each, and the result is the bodies in the order of the indices with the
  digest that every chunk announced.\<close>

theorem reassemble_sound:
  assumes "reassemble_chunked_transfer P packed = Inr (meta, data)"
  shows "\<exists>ds. res_map (chunk_from_bytes P) packed = Inr ds \<and> ds \<noteq> [] \<and>
    mset (map chunk_index ds) = mset (map int [0..<length ds]) \<and>
    data = concat (map ch_body (sort_key chunk_index ds)) \<and>
    (\<forall>c \<in> set ds. chunk_hash c = hex (sha256 P (ch_body c)) \<and> file_hash c = hex (sha256 P data) \<and>
       total_chunks c = int (length ds) \<and> same_transfer (hd ds) c)"
proof -
  obtain ds where ds: "res_map (chunk_from_bytes P) packed = Inr ds" "assemble P ds = Inr (meta, data)" "packed \<noteq> []"
    using assms by (auto simp: reassemble_chunked_transfer_def res_Inr_iffs)
  have "list_all2 (\<lambda>b c. chunk_from_bytes P b = Inr c) packed ds" using ds(1) by (simp add: res_map_Inr_iff)
  then have ok: "\<forall>c \<in> set ds. chunk_ok P c"
    by (induction rule: list_all2_induct) (auto dest: chunk_from_bytes_Inr)
  have ne: "ds \<noteq> []" using ds(1,3) by (auto simp: res_map_Inr_iff)
  have a: "\<forall>c \<in> set (tl ds). same_transfer (hd ds) c" "distinct (map chunk_index ds)"
    "int (length ds) = total_chunks (hd ds)" "data = concat (map ch_body (sort_key chunk_index ds))"
    "hex (sha256 P data) = file_hash (hd ds)"
    using ds(2) by (auto simp: assemble_def guard_Inr_iff Let_def)
  have same: "\<forall>c \<in> set ds. same_transfer (hd ds) c"
    using a(1) ne by (cases ds) (auto simp: same_transfer_def)
  have sub: "set (map chunk_index ds) \<subseteq> set (map int [0..<length ds])"
  proof
    fix x assume "x \<in> set (map chunk_index ds)"
    then obtain c where c: "c \<in> set ds" "x = chunk_index c" by auto
    with ok same a(3) have "0 \<le> x" "x < int (length ds)" by (auto simp: chunk_ok_def same_transfer_def)
    then show "x \<in> set (map int [0..<length ds])" by (auto intro!: image_eqI [of _ _ "nat x"])
  qed
  have "set (map chunk_index ds) = set (map int [0..<length ds])"
  proof (rule card_subset_eq [OF _ sub])
    show "card (set (map chunk_index ds)) = card (set (map int [0..<length ds]))"
      using distinct_card [OF a(2)] by (simp add: card_image)
  qed simp
  then have "mset (map chunk_index ds) = mset (map int [0..<length ds])"
    using set_eq_iff_mset_eq_distinct [OF a(2), of "map int [0..<length ds]"] by (simp only: distinct_map) simp
  moreover have "\<forall>c \<in> set ds. chunk_hash c = hex (sha256 P (ch_body c)) \<and> file_hash c = hex (sha256 P data) \<and>
       total_chunks c = int (length ds) \<and> same_transfer (hd ds) c"
    using ok same a(3,5) by (simp add: chunk_ok_def same_transfer_def)
  ultimately show ?thesis
    using ds(1) ne a(4) by (intro exI [of _ ds] conjI)
qed

theorem reassemble_sound_witness:
  "\<exists>packed meta ds. reassemble_chunked_transfer demo_prims packed = Inr (meta, [7]) \<and>
     res_map (chunk_from_bytes demo_prims) packed = Inr ds \<and> map chunk_index ds = [0]"
proof -
  let ?m = "\<lparr>m_kind = ''binary'', m_filename = None, m_content_type = ''x'', m_encoding = None\<rparr>"
  have m: "sha_laws demo_prims" "meta_ok ?m" "meta_small ?m"
    by (simp_all add: sha_laws_def demo_prims_def meta_ok_def meta_small_def VALID_KINDS_def)
  obtain packed where p: "create_chunked_transfer demo_prims demo_lib ''t'' [7] 1 ?m = Inr packed"
    using create_ok [OF m(1,3), of "''t''" 1 "[7]" demo_lib] by auto
  obtain meta where r: "reassemble_chunked_transfer demo_prims packed = Inr (meta, [7])"
    using reassemble_permuted [OF m(1,2) _ p refl] by auto
  obtain ds where d: "res_map (chunk_from_bytes demo_prims) packed = Inr ds"
    "mset (map chunk_index ds) = mset (map int [0..<length ds])"
    using reassemble_sound [OF r] by blast
  have "length ds = length packed" using d(1) by (simp add: res_map_Inr_iff list_all2_lengthD)
  also have "length packed = 1"
    using p create_eq [OF m(1), of 1 demo_lib "''t''" "[7]" ?m]
    by (auto simp: res_map_Inr_iff chunks_of_fields split_body_eq dest!: list_all2_lengthD)
  finally have "map chunk_index ds = [0]" using d(2) by (cases ds) auto
  with r d(1) show ?thesis by (intro exI conjI)
qed

text \<open>The streaming producer is equivalent to the one in memory: for a file that does not change
  between the two passes it yields exactly the chunks that \<open>create_chunked_transfer\<close> makes of the
  file's bytes, for every chunk size and also for an empty file.\<close>

theorem stream_equals_transfer:
  "create_chunked_stream_transfer P L tid (Some (length data, data, data)) chunk_size m =
   create_chunked_transfer P L tid data chunk_size m"
proof (cases "0 < chunk_size")
  case True
  then have n: "0 < nat chunk_size" by simp
  show ?thesis
  proof (cases "data = []")
    case False
    then have r: "read_all (nat chunk_size) data = split_body (nat chunk_size) data"
      by (rule read_all_split_body [OF n])
    have "length (split_body (nat chunk_size) data) = (length data + nat chunk_size - 1) div nat chunk_size"
      using False by (simp add: split_body_eq)
    then show ?thesis
      using True False concat_split_body [OF n, of data]
      by (simp add: create_chunked_stream_transfer_def create_chunked_transfer_def r Let_def)
  qed (use True in \<open>simp add: create_chunked_stream_transfer_def create_chunked_transfer_def Let_def
        split_body_eq read_all.simps\<close>)
qed (simp add: create_chunked_stream_transfer_def create_chunked_transfer_def)

end
