(* ===== verification/Payload.thy ===== *)
theory Payload
  imports Json Crypto
begin

text \<open>
  \<open>uxsp/core/payload.py\<close>: application messages as a magic header, a JSON header and the raw
  body, and the helpers for texts, files and binary data. Text codecs and MIME guessing are
  arguments; a file system is a map from paths to contents, on POSIX, where a path separates its
  components by a slash; the output directory is a normalised path. The lemmas show the round trips and that a received file name never
  leads outside the output directory.
\<close>

section \<open>The container\<close>

record payload =
  p_kind :: string
  p_body :: bytes
  p_filename :: "string option"
  p_content_type :: string
  p_encoding :: "string option"

definition PAYLOAD_MAGIC :: bytes where "PAYLOAD_MAGIC = utf8 ''UXSP-PAYLOAD-1''"

definition PAYLOAD_KINDS :: "string list" where "PAYLOAD_KINDS = [''text'', ''file'', ''binary'']"

definition MAX_PACK_FILE_BYTES :: int where "MAX_PACK_FILE_BYTES = 1024 * 1024 * 1024"

definition payload_header :: "payload \<Rightarrow> dict" where
  "payload_header p =
     [(''kind'', PStr (p_kind p)), (''filename'', opt_val (p_filename p)),
      (''content_type'', PStr (p_content_type p)), (''encoding'', opt_val (p_encoding p)),
      (''body_len'', PInt (int (length (p_body p))))]"

definition payload_to_bytes :: "pylib \<Rightarrow> payload \<Rightarrow> bytes res" where
  "payload_to_bytes L p =
     (let header_raw = utf8 (dumps (float_repr L) True (PDict (payload_header p))) in
      guard (int (length header_raw) \<le> 0xFFFFFFFF) PayloadValidationError
        (Inr (PAYLOAD_MAGIC @ be_bytes 4 (length header_raw) @ header_raw @ p_body p)))"

definition payload_kind :: "pyval \<Rightarrow> string res" where
  \<comment> \<open>membership in a set: a list or an object cannot be hashed\<close>
  "payload_kind v =
     (case v of
        PStr s \<Rightarrow> guard (s \<in> set PAYLOAD_KINDS) PayloadValidationError (Inr s)
      | PList _ \<Rightarrow> Inl TypeError
      | PDict _ \<Rightarrow> Inl TypeError
      | _ \<Rightarrow> Inl PayloadValidationError)"

definition body_len_ok :: "pyval \<Rightarrow> bytes \<Rightarrow> bool" where
  "body_len_ok v body = (case v of PInt n \<Rightarrow> n = int (length body) | _ \<Rightarrow> False)"

definition payload_from_header :: "dict \<Rightarrow> bytes \<Rightarrow> payload res" where
  "payload_from_header h body =
     guard (body_len_ok (dget h ''body_len'') body) PayloadValidationError
      (rbind (payload_kind (dget h ''kind'')) (\<lambda>k.
       rbind (rescue (\<lambda>_. True) PayloadValidationError (opt_str (dget h ''filename''))) (\<lambda>fname.
       rbind (rescue (\<lambda>_. True) PayloadValidationError (the_str (dget h ''content_type''))) (\<lambda>ctype.
       guard (ctype \<noteq> []) PayloadValidationError
        (rbind (rescue (\<lambda>_. True) PayloadValidationError (opt_str (dget h ''encoding''))) (\<lambda>enc.
         guard (enc \<noteq> Some []) PayloadValidationError
          (Inr \<lparr>p_kind = k, p_body = body, p_filename = fname, p_content_type = ctype, p_encoding = enc\<rparr>)))))))"

definition payload_from_bytes :: "bytes \<Rightarrow> payload res" where
  "payload_from_bytes buf =
     guard (18 \<le> length buf) PayloadFormatError
      (guard (take 14 buf = PAYLOAD_MAGIC) PayloadFormatError
        (let header_len = be_nat (take 4 (drop 14 buf)); header_end = 18 + header_len in
         guard (header_end \<le> length buf) PayloadFormatError
          (rbind (rescue (\<lambda>e. e = UnicodeDecodeError \<or> e = JSONDecodeError) PayloadFormatError
              (loads_bytes (take header_len (drop 18 buf)))) (\<lambda>header.
           case header of
             PDict h \<Rightarrow> payload_from_header h (drop header_end buf)
           | _ \<Rightarrow> Inl PayloadFormatError))))"

section \<open>Text and binary data\<close>

definition pack_text :: "pylib \<Rightarrow> codecs \<Rightarrow> string \<Rightarrow> string \<Rightarrow> bytes res" where
  "pack_text L C txt encoding =
     guard (encoding \<noteq> []) PayloadValidationError
      (rbind (rescue (\<lambda>e. e = LookupError) PayloadValidationError (encode_with C encoding txt)) (\<lambda>body.
       payload_to_bytes L \<lparr>p_kind = ''text'', p_body = body, p_filename = None, p_content_type = ''text/plain'',
         p_encoding = Some encoding\<rparr>))"

definition unpack_text :: "codecs \<Rightarrow> bytes \<Rightarrow> string res" where
  \<comment> \<open>an unknown encoding is not caught\<close>
  "unpack_text C raw =
     rbind (payload_from_bytes raw) (\<lambda>p.
     guard (p_kind p = ''text'') PayloadValidationError
      (case p_encoding p of
         None \<Rightarrow> Inl PayloadValidationError
       | Some enc \<Rightarrow> rescue (\<lambda>e. e = UnicodeDecodeError) PayloadValidationError (decode_with C enc (p_body p))))"

definition pack_binary :: "pylib \<Rightarrow> bytes \<Rightarrow> string option \<Rightarrow> string \<Rightarrow> bytes res" where
  "pack_binary L data filename content_type =
     guard (content_type \<noteq> []) PayloadValidationError
      (guard (filename \<noteq> Some []) PayloadValidationError
        (payload_to_bytes L \<lparr>p_kind = ''binary'', p_body = data, p_filename = filename,
           p_content_type = content_type, p_encoding = None\<rparr>))"

section \<open>Files\<close>

fun split_slash :: "string \<Rightarrow> string list" where
  "split_slash [] = [[]]"
| "split_slash (c # cs) =
     (if c = CHR ''/'' then [] # split_slash cs
      else case split_slash cs of p # ps \<Rightarrow> (c # p) # ps | [] \<Rightarrow> [[c]])"

definition path_name :: "string \<Rightarrow> string" where
  \<comment> \<open>\<open>Path(s).name\<close>: the last component; empty components and \<open>.\<close> do not count\<close>
  "path_name s =
     (case rev (filter (\<lambda>p. p \<noteq> [] \<and> p \<noteq> ''.'') (split_slash s)) of [] \<Rightarrow> [] | p # _ \<Rightarrow> p)"

definition pack_file :: "pylib \<Rightarrow> (string \<Rightarrow> string option) \<Rightarrow> string \<Rightarrow> (int \<times> bytes) option \<Rightarrow> string option \<Rightarrow> int \<Rightarrow>
    bytes res" where
  \<comment> \<open>MIME guessing, the path, the file there (size of \<open>stat\<close> and bytes read), content type, limit\<close>
  "pack_file L guess path file content_type max_bytes =
     (case file of
        None \<Rightarrow> Inl PayloadValidationError
      | Some (fsize, body) \<Rightarrow>
          guard (fsize \<le> max_bytes) PayloadValidationError
           (guard (content_type \<noteq> Some []) PayloadValidationError
             (payload_to_bytes L \<lparr>p_kind = ''file'', p_body = body, p_filename = Some (path_name path),
                p_content_type = (case content_type of Some t \<Rightarrow> t
                  | None \<Rightarrow> (case guess path of Some g \<Rightarrow> (if g = [] then ''application/octet-stream'' else g)
                           | None \<Rightarrow> ''application/octet-stream'')),
                p_encoding = None\<rparr>)))"

definition safe_name :: "string option \<Rightarrow> string" where
  "safe_name filename =
     (let f = (case filename of Some s \<Rightarrow> if s = [] then ''uxsp_payload.bin'' else s | None \<Rightarrow> ''uxsp_payload.bin'');
          n = path_name f
      in if n = [] \<or> n = ''.'' \<or> n = ''..'' then ''uxsp_payload.bin'' else n)"

type_synonym files = "string \<Rightarrow> bytes option"

definition unpack_to_file :: "bytes \<Rightarrow> string \<Rightarrow> files \<Rightarrow> string res \<times> files" where
  \<comment> \<open>the path written, and the file system afterwards\<close>
  "unpack_to_file raw output_dir fs =
     (case payload_from_bytes raw of
        Inl e \<Rightarrow> (Inl e, fs)
      | Inr p \<Rightarrow>
          if p_kind p \<notin> {''file'', ''binary''} then (Inl PayloadValidationError, fs)
          else let out = output_dir @ ''/'' @ safe_name (p_filename p) in (Inr out, fs(out \<mapsto> p_body p)))"

section \<open>Lemmas\<close>

definition payload_ok :: "payload \<Rightarrow> bool" where
  "payload_ok p \<longleftrightarrow> p_kind p \<in> set PAYLOAD_KINDS \<and> p_content_type p \<noteq> [] \<and> p_encoding p \<noteq> Some []"

lemma opt_str_opt_val [simp]: "opt_str (opt_val x) = Inr x"
  by (cases x) simp_all

lemma payload_header_roundtrip: "payload_ok p \<Longrightarrow> payload_from_header (payload_header p) (p_body p) = Inr p"
  by (simp add: payload_from_header_def payload_header_def dget_def payload_ok_def payload_kind_def body_len_ok_def)

lemma json_ok_payload: "json_ok (PDict (payload_header p))"
  by (cases "p_filename p"; cases "p_encoding p") (simp_all add: payload_header_def)

lemma payload_bytes_roundtrip:
  assumes "payload_ok p" and "payload_to_bytes L p = Inr b"
  shows "payload_from_bytes b = Inr p"
proof -
  let ?h = "utf8 (dumps (float_repr L) True (PDict (payload_header p)))"
  have h: "int (length ?h) \<le> 0xFFFFFFFF" and b: "b = PAYLOAD_MAGIC @ be_bytes 4 (length ?h) @ ?h @ p_body p"
    using assms(2) by (simp_all add: payload_to_bytes_def Let_def guard_Inr_iff)
  have n: "be_nat (be_bytes 4 (length ?h)) = length ?h"
    using h by (intro be_nat_be_bytes) simp
  have m: "length PAYLOAD_MAGIC = 14" by (simp add: PAYLOAD_MAGIC_def)
  have "loads_bytes ?h = Inr (PDict (payload_header p))" by (rule loads_bytes_dumps [OF json_ok_payload])
  with n m payload_header_roundtrip [OF assms(1)] show ?thesis
    by (simp add: payload_from_bytes_def b Let_def)
qed

lemma split_slash_no_slash: "p \<in> set (split_slash s) \<Longrightarrow> CHR ''/'' \<notin> set p"
proof (induction s arbitrary: p)
  case (Cons c cs)
  show ?case
  proof (cases "split_slash cs")
    case (Cons q qs)
    with Cons.IH [of p] Cons.IH [of q] Cons.prems show ?thesis by (auto split: if_splits)
  qed (use Cons in \<open>auto split: if_splits\<close>)
qed simp

lemma path_name_cases: "path_name s = [] \<or> path_name s \<in> set (split_slash s) \<and> path_name s \<noteq> ''.''"
proof (cases "rev (filter (\<lambda>p. p \<noteq> [] \<and> p \<noteq> ''.'') (split_slash s))")
  case (Cons p ps)
  then have "p \<in> set (filter (\<lambda>p. p \<noteq> [] \<and> p \<noteq> ''.'') (split_slash s))"
    using list.set_intros(1) [of p ps] set_rev by metis
  then have "p \<in> set (split_slash s)" "p \<noteq> ''.''" by simp_all
  moreover have "path_name s = p" using Cons by (simp only: path_name_def list.case)
  ultimately show ?thesis by simp
qed (simp add: path_name_def)

lemma safe_name_component:
  "safe_name f \<noteq> [] \<and> safe_name f \<noteq> ''.'' \<and> safe_name f \<noteq> ''..'' \<and> CHR ''/'' \<notin> set (safe_name f)"
proof -
  have "CHR ''/'' \<notin> set (path_name s)" for s
    using path_name_cases [of s] split_slash_no_slash by fastforce
  then show ?thesis by (simp add: safe_name_def Let_def)
qed
definition payload_small :: "payload \<Rightarrow> bool" where
  "payload_small p \<longleftrightarrow> length (p_kind p) \<le> 500 \<and> length (p_content_type p) \<le> 500 \<and>
     (case p_filename p of None \<Rightarrow> True | Some s \<Rightarrow> length s \<le> 500) \<and>
     (case p_encoding p of None \<Rightarrow> True | Some s \<Rightarrow> length s \<le> 500) \<and> length (p_body p) < 10 ^ 18"

lemma payload_fits:
  assumes "payload_small p"
  shows "\<exists>b. payload_to_bytes L p = Inr b"
proof -
  let ?fr = "float_repr L"
  have s: "length (dumps ?fr True (PStr x)) \<le> 3002" if "length x \<le> 500" for x
    using length_dumps_str [of ?fr True x] that by linarith
  have o: "length (dumps ?fr True (opt_val x)) \<le> 3004" if "case x of None \<Rightarrow> True | Some s \<Rightarrow> length s \<le> 500" for x
    using length_dumps_opt [of x 500 ?fr True] that by (auto split: option.splits)
  have i: "length (dumps ?fr True (PInt (int (length (p_body p))))) \<le> 19"
    by (rule length_dumps_int) (use assms in \<open>simp add: payload_small_def\<close>)
  have m: "length (p_kind p) \<le> 500" "length (p_content_type p) \<le> 500"
    "case p_filename p of None \<Rightarrow> True | Some s \<Rightarrow> length s \<le> 500"
    "case p_encoding p of None \<Rightarrow> True | Some s \<Rightarrow> length s \<le> 500"
    using assms by (simp_all add: payload_small_def)
  have "length (dumps_members ?fr True (payload_header p)) \<le> member_bound [3002, 3004, 3002, 3004, 19]"
    by (rule length_members)
      (use s [OF m(1)] s [OF m(2)] o [OF m(3)] o [OF m(4)] i in \<open>simp add: payload_header_def del: dumps.simps\<close>)
  then have "length (dumps ?fr True (PDict (payload_header p))) \<le> 13033" by simp
  with length_utf8_le [of "dumps ?fr True (PDict (payload_header p))"]
  have "length (utf8 (dumps ?fr True (PDict (payload_header p)))) \<le> 26066" by linarith
  then show ?thesis by (simp add: payload_to_bytes_def Let_def)
qed

section \<open>Properties\<close>

text \<open>Payloads survive packing: a packed text unpacks to the text under every codec that decodes
  what it encoded, and packed binary data is read back with its body, file name and content type.\<close>

theorem payload_roundtrip:
  assumes "\<And>raw. encode_with C enc txt = Inr raw \<Longrightarrow> decode_with C enc raw = Inr txt"
  shows "(case pack_text L C txt enc of Inl e \<Rightarrow> True | Inr b \<Rightarrow> unpack_text C b = Inr txt) \<and>
    (case pack_binary L data fname ctype of Inl e \<Rightarrow> True
     | Inr b \<Rightarrow> payload_from_bytes b = Inr \<lparr>p_kind = ''binary'', p_body = data, p_filename = fname,
         p_content_type = ctype, p_encoding = None\<rparr>)"
proof
  show "case pack_text L C txt enc of Inl e \<Rightarrow> True | Inr b \<Rightarrow> unpack_text C b = Inr txt"
  proof (cases "pack_text L C txt enc")
    case (Inr b)
    then obtain raw where r: "enc \<noteq> []" "encode_with C enc txt = Inr raw"
      "payload_to_bytes L \<lparr>p_kind = ''text'', p_body = raw, p_filename = None, p_content_type = ''text/plain'',
         p_encoding = Some enc\<rparr> = Inr b"
      by (auto simp: pack_text_def res_Inr_iffs)
    have "payload_from_bytes b = Inr \<lparr>p_kind = ''text'', p_body = raw, p_filename = None,
        p_content_type = ''text/plain'', p_encoding = Some enc\<rparr>"
      by (rule payload_bytes_roundtrip [OF _ r(3)]) (simp add: payload_ok_def PAYLOAD_KINDS_def r(1))
    with Inr assms [OF r(2)] show ?thesis by (simp add: unpack_text_def)
  qed simp
  show "case pack_binary L data fname ctype of Inl e \<Rightarrow> True
     | Inr b \<Rightarrow> payload_from_bytes b = Inr \<lparr>p_kind = ''binary'', p_body = data, p_filename = fname,
         p_content_type = ctype, p_encoding = None\<rparr>"
  proof (cases "pack_binary L data fname ctype")
    case (Inr b)
    then show ?thesis
      by (auto simp: pack_binary_def guard_Inr_iff intro!: payload_bytes_roundtrip)
        (simp add: payload_ok_def PAYLOAD_KINDS_def)
  qed simp
qed

definition demo_codecs :: codecs where
  "demo_codecs = \<lparr>encode_with = (\<lambda>e s. if e = ''utf-8'' then Inr (utf8 s) else Inl LookupError),
     decode_with = (\<lambda>e b. if e = ''utf-8'' then (case utf8_decode b of None \<Rightarrow> Inl UnicodeDecodeError | Some s \<Rightarrow> Inr s)
       else Inl LookupError)\<rparr>"

theorem payload_roundtrip_witness:
  "\<exists>b. pack_text demo_lib demo_codecs ''hello'' ''utf-8'' = Inr b \<and> unpack_text demo_codecs b = Inr ''hello''"
proof -
  let ?p = "\<lparr>p_kind = ''text'', p_body = utf8 ''hello'', p_filename = None, p_content_type = ''text/plain'',
    p_encoding = Some ''utf-8''\<rparr>"
  have "length (utf8 ''hello'') \<le> 10" using length_utf8_le [of "''hello''"] by simp
  then have "payload_small ?p" by (simp add: payload_small_def)
  then obtain b where b: "payload_to_bytes demo_lib ?p = Inr b" using payload_fits by blast
  then have "pack_text demo_lib demo_codecs ''hello'' ''utf-8'' = Inr b"
    by (simp add: pack_text_def demo_codecs_def)
  moreover have "(case pack_text demo_lib demo_codecs ''hello'' ''utf-8'' of Inl e \<Rightarrow> True
      | Inr b \<Rightarrow> unpack_text demo_codecs b = Inr ''hello'')"
    by (rule payload_roundtrip [THEN conjunct1]) (auto simp: demo_codecs_def simp del: utf8.simps split: if_splits)
  ultimately show ?thesis by auto
qed

text \<open>Whatever file name a received payload carries, \<open>unpack_to_file\<close> changes at most one path, and
  that path is a direct child of the output directory: its last component is not empty, not a dot
  or two dots, and has no slash. A rejected payload changes nothing.\<close>

theorem unpack_stays_inside:
  assumes "unpack_to_file raw dir fs = (r, fs')"
  shows "(\<forall>e. r = Inl e \<longrightarrow> fs' = fs) \<and>
    (\<forall>out. r = Inr out \<longrightarrow> (\<exists>p n. payload_from_bytes raw = Inr p \<and> p_kind p \<noteq> ''text'' \<and>
       out = dir @ ''/'' @ n \<and> n \<noteq> [] \<and> n \<noteq> ''.'' \<and> n \<noteq> ''..'' \<and> CHR ''/'' \<notin> set n \<and>
       fs' = fs(out \<mapsto> p_body p)))"
proof (cases "payload_from_bytes raw")
  case (Inr p)
  show ?thesis
  proof (cases "p_kind p \<in> {''file'', ''binary''}")
    case True
    let ?n = "safe_name (p_filename p)"
    have "r = Inr (dir @ ''/'' @ ?n)" "fs' = fs(dir @ ''/'' @ ?n \<mapsto> p_body p)"
      using assms Inr True by (auto simp: unpack_to_file_def Let_def)
    moreover have "p_kind p \<noteq> ''text''" using True by auto
    ultimately show ?thesis
      using Inr safe_name_component [of "p_filename p"] by auto
  qed (use assms Inr in \<open>auto simp: unpack_to_file_def\<close>)
qed (use assms in \<open>auto simp: unpack_to_file_def\<close>)

theorem unpack_stays_inside_witness:
  "\<exists>raw fs'. unpack_to_file raw ''/tmp/in'' (\<lambda>_. None) = (Inr ''/tmp/in/passwd'', fs') \<and>
     fs' ''/etc/passwd'' = None"
proof -
  let ?p = "\<lparr>p_kind = ''file'', p_body = [1], p_filename = Some ''../../etc/passwd'', p_content_type = ''x'',
    p_encoding = None\<rparr>"
  obtain b where b: "payload_to_bytes demo_lib ?p = Inr b"
    using payload_fits [of ?p] by (auto simp: payload_small_def)
  have f: "payload_from_bytes b = Inr ?p"
    by (rule payload_bytes_roundtrip [OF _ b]) (simp add: payload_ok_def PAYLOAD_KINDS_def)
  have n: "safe_name (Some ''../../etc/passwd'') = ''passwd''" by code_simp
  obtain r fs' where u: "unpack_to_file b ''/tmp/in'' (\<lambda>_. None) = (r, fs')" by fastforce
  have r: "r = Inr ''/tmp/in/passwd''" using u f n by (auto simp: unpack_to_file_def Let_def)
  from unpack_stays_inside [OF u] have "fs' = (\<lambda>_. None)(''/tmp/in/passwd'' \<mapsto> [1])"
    using f r by auto
  with u r show ?thesis by (intro exI [of _ b] exI [of _ fs']) simp
qed

end
