(* ===== verification/SecureEngine.thy ===== *)
theory SecureEngine
  imports KeyStore Chunking Payload
begin

text \<open>
  The simplified workflow of \<open>uxsp/secure\<close>: \<open>_package.py\<close> (the container that is sent),
  \<open>_context.py\<close> (the process-wide identity, peers, replay guard and defaults), \<open>_utils.py\<close>,
  \<open>_identity_helpers.py\<close> and \<open>_engine.py\<close> (sending and receiving payloads). The file system is
  a map from paths to contents, as in \<open>Payload\<close>. A key store or nonce store configured by
  the user is a parameter; coroutine stores are in \<open>Aio\<close>. The lemmas show that what was
  sent is received once, what acceptance means, and what the container leaves unprotected.
\<close>

section \<open>The container\<close>

record package =
  pk_sender_id :: string
  pk_receiver_id :: string
  pk_data_type :: string
  pk_is_chunked :: bool
  pk_envelope :: pyval
  pk_chunks :: pyval
  pk_metadata :: pyval

definition package_to_dict :: "package \<Rightarrow> dict" where
  "package_to_dict p =
     [(''uxsp_package_version'', PStr ''1.0''), (''sender_id'', PStr (pk_sender_id p)),
      (''receiver_id'', PStr (pk_receiver_id p)), (''data_type'', PStr (pk_data_type p)),
      (''is_chunked'', PBool (pk_is_chunked p)), (''envelope'', pk_envelope p),
      (''chunks'', pk_chunks p), (''metadata'', pk_metadata p)]"

definition package_to_json :: "pylib \<Rightarrow> bool \<Rightarrow> package \<Rightarrow> string" where
  \<comment> \<open>the flag: \<open>indent=2\<close>, the only indent the package itself asks for\<close>
  "package_to_json L indent p =
     (if indent then pretty (float_repr L) 0 (PDict (package_to_dict p))
      else dumps (float_repr L) False (PDict (package_to_dict p)))"

definition package_save :: "pylib \<Rightarrow> string \<Rightarrow> package \<Rightarrow> files \<Rightarrow> files" where
  "package_save L path p fs = fs(path \<mapsto> utf8 (package_to_json L True p))"

definition package_from_dict :: "pylib \<Rightarrow> pyval \<Rightarrow> package res" where
  "package_from_dict L v = (case v of
     PDict d \<Rightarrow> Inr \<lparr>
       pk_sender_id = py_str L (dget_default d ''sender_id'' (PStr [])),
       pk_receiver_id = py_str L (dget_default d ''receiver_id'' (PStr [])),
       pk_data_type = py_str L (dget_default d ''data_type'' (PStr ''file'')),
       pk_is_chunked = py_truthy (dget_default d ''is_chunked'' (PBool False)),
       pk_envelope = dget d ''envelope'',
       pk_chunks = dget_default d ''chunks'' (PList []),
       pk_metadata = dget_default d ''metadata'' (PDict [])\<rparr>
   | _ \<Rightarrow> Inl SecureReceiveError)"

definition package_from_text :: "pylib \<Rightarrow> string \<Rightarrow> package res" where
  \<comment> \<open>\<open>from_json\<close> of a \<open>str\<close>; every exception is wrapped\<close>
  "package_from_text L s = rescue (\<lambda>_. True) SecureReceiveError (rbind (loads s) (package_from_dict L))"

definition package_from_json :: "pylib \<Rightarrow> bytes \<Rightarrow> package res" where
  "package_from_json L b =
     rescue (\<lambda>_. True) SecureReceiveError (rbind (loads_bytes b) (package_from_dict L))"

definition safe_is_file :: "files \<Rightarrow> string \<Rightarrow> bool" where
  "safe_is_file fs path \<longleftrightarrow> fs path \<noteq> None"

definition package_from_file :: "pylib \<Rightarrow> files \<Rightarrow> string \<Rightarrow> package res" where
  \<comment> \<open>\<open>read_text\<close> is outside the handler of \<open>from_json\<close>\<close>
  "package_from_file L fs path =
     (case fs path of
        None \<Rightarrow> Inl SecureReceiveError
      | Some b \<Rightarrow> (case utf8_decode b of None \<Rightarrow> Inl UnicodeDecodeError | Some s \<Rightarrow> package_from_text L s))"

datatype package_input = InPackage package | InDict dict | InBytes bytes | InStr string | InPath string | InOther

definition resolve_package_input :: "pylib \<Rightarrow> files \<Rightarrow> package_input \<Rightarrow> package res" where
  "resolve_package_input L fs inp = (case inp of
     InPackage p \<Rightarrow> Inr p
   | InDict d \<Rightarrow> package_from_dict L (PDict d)
   | InBytes b \<Rightarrow> package_from_json L b
   | InStr s \<Rightarrow>
       (let trimmed = strip s in
        if starts_with ''{'' trimmed then package_from_text L trimmed
        else guard (safe_is_file fs s) SecureReceiveError (package_from_file L fs s))
   | InPath s \<Rightarrow> guard (safe_is_file fs s) SecureReceiveError (package_from_file L fs s)
   | InOther \<Rightarrow> Inl SecureReceiveError)"

section \<open>The context\<close>

text \<open>The replay guard is an object of its own: the limits together with the nonce store they
  apply to. The context holds a reference to it, as it does to the key store.\<close>

record 'n guard_obj =
  go_cfg :: replay_guard
  go_mark :: "'n marker"
  go_seen :: "'n seer"
  go_state :: 'n

definition default_guard :: "'n marker \<Rightarrow> 'n seer \<Rightarrow> 'n \<Rightarrow> 'n guard_obj" where
  \<comment> \<open>\<open>ReplayGuard(noncestore)\<close>\<close>
  "default_guard mk sn s = \<lparr>go_cfg = \<lparr>g_window = 300, g_clock_skew = 30\<rparr>, go_mark = mk, go_seen = sn, go_state = s\<rparr>"

record ('k, 'n) ctx =
  x_identity :: "identity option"
  x_store :: "'k kstore"
  x_cards :: 'k
  x_guard :: "'n guard_obj"
  x_output_dir :: string
  x_hook :: "(package \<Rightarrow> unit res) option"
    \<comment> \<open>what the transport hook raises; what it does is outside the model\<close>

definition context_init :: "string \<Rightarrow> (cards, mem_store) ctx" where
  \<comment> \<open>\<open>SecureContext()\<close> and \<open>reset\<close>, from the current directory\<close>
  "context_init cwd = \<lparr>x_identity = None, x_store = memory_store, x_cards = [],
     x_guard = default_guard mem_mark_used mem_is_seen mem_init, x_output_dir = cwd @ ''/downloads'',
     x_hook = None\<rparr>"

datatype peer = PeerId string | PeerNum int | PeerCard public_card | PeerIdentity identity

definition normalize_id :: "peer \<Rightarrow> string res" where
  "normalize_id p = (case p of
     PeerCard c \<Rightarrow> Inr (c_entity_id c) | PeerIdentity i \<Rightarrow> Inr (entity_id i)
   | PeerNum n \<Rightarrow> Inr (str_int n)
   | PeerId s \<Rightarrow> (let norm = strip s in guard (norm \<noteq> []) ValueError (Inr norm)))"

definition own_card :: "pylib \<Rightarrow> identity \<Rightarrow> public_card res" where
  \<comment> \<open>\<open>identity.public_card()\<close>, which reads no clock\<close>
  "own_card L i = identity_card L 0 None None i"

definition put_card :: "card \<Rightarrow> ('k, 'n) ctx \<Rightarrow> unit res \<times> ('k, 'n) ctx" where
  "put_card c x = (case ks_put (x_store x) c True (x_cards x) of (r, cs) \<Rightarrow> (r, x\<lparr>x_cards := cs\<rparr>))"

definition put_own :: "pylib \<Rightarrow> identity \<Rightarrow> ('k, 'n) ctx \<Rightarrow> unit res \<times> ('k, 'n) ctx" where
  "put_own L i x = (case own_card L i of Inl e \<Rightarrow> (Inl e, x) | Inr c \<Rightarrow> put_card (Public c) x)"

definition and_then :: "'a res \<times> 's \<Rightarrow> ('a \<Rightarrow> 's \<Rightarrow> 'b res \<times> 's) \<Rightarrow> 'b res \<times> 's" where
  \<comment> \<open>the next statement, unless this one raised\<close>
  "and_then r f = (case r of (Inl e, s) \<Rightarrow> (Inl e, s) | (Inr a, s) \<Rightarrow> f a s)"

definition configure :: "pylib \<Rightarrow> identity option \<Rightarrow> ('k kstore \<times> 'k) option \<Rightarrow>
    ('n marker \<times> 'n seer \<times> 'n) option \<Rightarrow> 'n guard_obj option \<Rightarrow> string option \<Rightarrow>
    (package \<Rightarrow> unit res) option \<Rightarrow> ('k, 'n) ctx \<Rightarrow> unit res \<times> ('k, 'n) ctx" where
  "configure L oi okeys ononces oguard odir ohook x =
     and_then (case oi of None \<Rightarrow> (Inr (), x) | Some i \<Rightarrow> put_own L i (x\<lparr>x_identity := Some i\<rparr>))
      (\<lambda>_ x1. and_then
        (case okeys of
           None \<Rightarrow> (Inr (), x1)
         | Some (K, cs) \<Rightarrow>
             let x2 = x1\<lparr>x_store := K, x_cards := cs\<rparr>
             in (case x_identity x2 of None \<Rightarrow> (Inr (), x2) | Some i \<Rightarrow> put_own L i x2))
        (\<lambda>_ x3.
          let x4 = (case ononces of None \<Rightarrow> x3 | Some (mk, sn, s) \<Rightarrow> x3\<lparr>x_guard := default_guard mk sn s\<rparr>);
              x5 = (case oguard of None \<Rightarrow> x4 | Some g \<Rightarrow> x4\<lparr>x_guard := g\<rparr>);
              x6 = (case odir of None \<Rightarrow> x5 | Some d \<Rightarrow> x5\<lparr>x_output_dir := d\<rparr>)
          in (Inr (), case ohook of None \<Rightarrow> x6 | Some h \<Rightarrow> x6\<lparr>x_hook := Some h\<rparr>)))"

record fresh_identity =
  f_time :: time
  f_uuid :: string
  f_exchange :: bytes
  f_kem :: bytes
  f_signing :: bytes
  f_pqc :: bytes

definition get_identity :: "prims \<Rightarrow> pylib \<Rightarrow> fresh_identity \<Rightarrow> ('k, 'n) ctx \<Rightarrow> identity res \<times> ('k, 'n) ctx" where
  "get_identity P L F x =
     (case x_identity x of
        Some i \<Rightarrow> (Inr i, x)
      | None \<Rightarrow>
          (case identity_create P L (f_time F) (f_uuid F) (f_exchange F) (f_kem F) (f_signing F) (f_pqc F)
              ''DefaultUser'' ''client'' of
             Inl e \<Rightarrow> (Inl e, x)
           | Inr i \<Rightarrow> and_then (put_own L i (x\<lparr>x_identity := Some i\<rparr>)) (\<lambda>_ x1. (Inr i, x1))))"

definition set_identity :: "pylib \<Rightarrow> identity \<Rightarrow> ('k, 'n) ctx \<Rightarrow> unit res \<times> ('k, 'n) ctx" where
  "set_identity L i x = put_own L i (x\<lparr>x_identity := Some i\<rparr>)"

definition register_peer :: "pylib \<Rightarrow> identity + public_card \<Rightarrow> ('k, 'n) ctx \<Rightarrow> unit res \<times> ('k, 'n) ctx" where
  "register_peer L p x = (case p of Inl i \<Rightarrow> put_own L i x | Inr c \<Rightarrow> put_card (Public c) x)"

definition get_peer :: "peer \<Rightarrow> ('k, 'n) ctx \<Rightarrow> public_card res \<times> ('k, 'n) ctx" where
  "get_peer p x =
     (case normalize_id p of
        Inl e \<Rightarrow> (Inl e, x)
      | Inr eid \<Rightarrow>
          (case ks_get (x_store x) eid (x_cards x) of
             (Inl e, cs) \<Rightarrow> (Inl e, x\<lparr>x_cards := cs\<rparr>)
           | (Inr None, cs) \<Rightarrow> (Inl PeerNotFoundError, x\<lparr>x_cards := cs\<rparr>)
           | (Inr (Some c), cs) \<Rightarrow>
               (Inr (case c of Public pc \<Rightarrow> pc | Signed sc \<Rightarrow> sc_card sc), x\<lparr>x_cards := cs\<rparr>)))"

definition revoke_peer :: "pylib \<Rightarrow> time \<Rightarrow> peer \<Rightarrow> string \<Rightarrow> ('k, 'n) ctx \<Rightarrow> public_card res \<times> ('k, 'n) ctx" where
  "revoke_peer L clock p reason x =
     (case normalize_id p of
        Inl e \<Rightarrow> (Inl e, x)
      | Inr eid \<Rightarrow>
          and_then (get_peer (PeerId eid) x) (\<lambda>c x1.
            let c' = card_revoke L clock (Some reason) None c
            in and_then (put_card (Public c') x1) (\<lambda>_ x2. (Inr c', x2))))"

definition verify_peer_validity :: "pylib \<Rightarrow> time \<Rightarrow> peer \<Rightarrow> ('k, 'n) ctx \<Rightarrow> unit res \<times> ('k, 'n) ctx" where
  "verify_peer_validity L clock p x =
     (case get_peer p x of
        (Inr c, x1) \<Rightarrow> (verify_validity L clock None c, x1)
      | (Inl e, x1) \<Rightarrow>
          if e = PeerNotFoundError
          then (case p of
                  PeerCard c \<Rightarrow> (verify_validity L clock None c, x1)
                | PeerIdentity i \<Rightarrow> (rbind (own_card L i) (verify_validity L clock None), x1)
                | _ \<Rightarrow> (Inl e, x1))
          else (Inl e, x1))"

definition dispatch_package :: "package \<Rightarrow> ('k, 'n) ctx \<Rightarrow> unit res" where
  "dispatch_package p x = (case x_hook x of None \<Rightarrow> Inr () | Some h \<Rightarrow> h p)"

section \<open>Sending\<close>

text \<open>The other party of a call: an identity or card is used as it is, an id is looked up.\<close>

definition resolve_party :: "pylib \<Rightarrow> peer option \<Rightarrow> ('k, 'n) ctx \<Rightarrow> (public_card \<times> string) res \<times> ('k, 'n) ctx" where
  "resolve_party L op x = (case op of
     None \<Rightarrow> (Inl ValueError, x)
   | Some (PeerIdentity i) \<Rightarrow> (rbind (own_card L i) (\<lambda>c. Inr (c, entity_id i)), x)
   | Some (PeerCard c) \<Rightarrow> (Inr (c, c_entity_id c), x)
   | Some p \<Rightarrow>
       (case normalize_id p of
          Inl e \<Rightarrow> (Inl e, x)
        | Inr eid \<Rightarrow> and_then (get_peer (PeerId eid) x) (\<lambda>c x1. (Inr (c, eid), x1))))"

definition or_else :: "'a option \<Rightarrow> 'a option \<Rightarrow> 'a option" where
  \<comment> \<open>\<open>a if a is not None else b\<close>\<close>
  "or_else a b = (case a of None \<Rightarrow> b | Some v \<Rightarrow> Some v)"

definition own_identity :: "prims \<Rightarrow> pylib \<Rightarrow> fresh_identity \<Rightarrow> identity option \<Rightarrow> ('k, 'n) ctx \<Rightarrow>
    identity res \<times> ('k, 'n) ctx" where
  "own_identity P L F oi x = (case oi of Some i \<Rightarrow> (Inr i, x) | None \<Rightarrow> get_identity P L F x)"

record send_random =
  sr_seal :: seal_random
  sr_t1 :: time                 \<comment> \<open>clock readings of \<open>seal_for\<close>\<close>
  sr_t2 :: time
  sr_key :: bytes               \<comment> \<open>session key\<close>
  sr_transfer :: string         \<comment> \<open>transfer id\<close>
  sr_nonces :: "nat \<Rightarrow> bytes"   \<comment> \<open>nonces of the chunks\<close>

definition SINGLE_LIMIT :: nat where "SINGLE_LIMIT = 30 * 1024"

definition CHUNK_SIZE :: int where "CHUNK_SIZE = 16 * 1024"

definition chunk_ad :: "string \<Rightarrow> nat \<Rightarrow> bytes" where
  "chunk_ad env_nonce i = utf8 (env_nonce @ '':'' @ str_int (int i))"

definition seal_chunk :: "prims \<Rightarrow> bytes \<Rightarrow> string \<Rightarrow> (nat \<Rightarrow> bytes) \<Rightarrow> nat \<times> bytes \<Rightarrow> pyval res" where
  "seal_chunk P key env_nonce nonces = (\<lambda>(i, chunk_bytes).
     rbind (sym_encrypt P (nonces i) chunk_bytes key (Some (chunk_ad env_nonce i))) (\<lambda>(ct, n).
     Inr (PDict [(''c'', PStr (hex ct)), (''n'', PStr (hex n))])))"

definition default_transfer :: transfer_meta where
  \<comment> \<open>the default arguments of \<open>create_chunked_transfer\<close>\<close>
  "default_transfer = \<lparr>m_kind = ''binary'', m_filename = None, m_content_type = ''application/octet-stream'',
     m_encoding = None\<rparr>"

definition seal_package :: "prims \<Rightarrow> pylib \<Rightarrow> send_random \<Rightarrow> identity \<Rightarrow> string \<Rightarrow> public_card \<Rightarrow> bytes \<Rightarrow>
    string \<Rightarrow> dict \<Rightarrow> package res" where
  "seal_package P L R i rec_id pcard payload data_type meta =
     (let pack = (\<lambda>env chunked chunks. \<lparr>pk_sender_id = entity_id i, pk_receiver_id = rec_id,
            pk_data_type = data_type, pk_is_chunked = chunked, pk_envelope = PDict (env_to_dict env),
            pk_chunks = PList chunks, pk_metadata = PDict meta\<rparr>)
      in if length payload \<le> SINGLE_LIMIT
         then rbind (seal_for P L (sr_seal R) (sr_t1 R) (sr_t2 R) payload pcard i) (\<lambda>env. Inr (pack env False []))
         else rbind (seal_for P L (sr_seal R) (sr_t1 R) (sr_t2 R) (sr_key R) pcard i) (\<lambda>env.
              rbind (create_chunked_transfer P L (sr_transfer R) payload CHUNK_SIZE default_transfer) (\<lambda>chunks.
              rbind (res_map (seal_chunk P (sr_key R) (e_envelope_nonce env) (sr_nonces R)) (enumerate 0 chunks))
               (\<lambda>sealed. Inr (pack env True sealed)))))"

definition secure_send_payload :: "prims \<Rightarrow> pylib \<Rightarrow> fresh_identity \<Rightarrow> send_random \<Rightarrow> peer option \<Rightarrow> peer option \<Rightarrow>
    identity option \<Rightarrow> identity option \<Rightarrow> bytes \<Rightarrow> string \<Rightarrow> string option \<Rightarrow> dict option \<Rightarrow>
    ('k, 'n) ctx \<times> files \<Rightarrow> package res \<times> ('k, 'n) ctx \<times> files" where
  \<comment> \<open>\<open>receiver_id\<close>, \<open>receiver\<close>, \<open>sender_identity\<close>, \<open>sender\<close>, \<open>payload_bytes\<close>, \<open>data_type\<close>,
      \<open>output_file\<close>, \<open>metadata\<close>\<close>
  "secure_send_payload P L F R receiver_id receiver sender_identity sender payload data_type output_file
     metadata = (\<lambda>(x, fs).
     (case and_then (resolve_party L (or_else receiver receiver_id) x) (\<lambda>(pcard, rec_id) x1.
           and_then (own_identity P L F (or_else sender sender_identity) x1) (\<lambda>i x2.
           (seal_package P L R i rec_id pcard payload data_type (case metadata of None \<Rightarrow> [] | Some m \<Rightarrow> m), x2))) of
        (Inl e, x3) \<Rightarrow> (Inl e, x3, fs)
      | (Inr pk, x3) \<Rightarrow>
          (rbind (dispatch_package pk x3) (\<lambda>_. Inr pk), x3,
           case output_file of None \<Rightarrow> fs | Some f \<Rightarrow> package_save L f pk fs)))"

section \<open>Receiving\<close>

definition open_chunk :: "prims \<Rightarrow> bytes \<Rightarrow> string \<Rightarrow> nat \<times> pyval \<Rightarrow> bytes res" where
  "open_chunk P key env_nonce = (\<lambda>(i, c).
     rbind (subscript_hex c ''c'') (\<lambda>ct.
     rbind (subscript_hex c ''n'') (\<lambda>n.
     sym_decrypt P ct n key (Some (chunk_ad env_nonce i)))))"

definition open_chunks :: "prims \<Rightarrow> bytes \<Rightarrow> string \<Rightarrow> pyval \<Rightarrow> bytes res" where
  "open_chunks P key env_nonce chunks =
     rbind (py_iter chunks) (\<lambda>cs.
     rbind (res_map (open_chunk P key env_nonce) (enumerate 0 cs)) (\<lambda>raw_chunks.
     rbind (reassemble_chunked_transfer P raw_chunks) (\<lambda>(meta, reassembled). Inr reassembled)))"

definition package_envelope :: "pylib \<Rightarrow> pyval \<Rightarrow> envelope res" where
  \<comment> \<open>\<open>Envelope.from_dict\<close> of a value of any type\<close>
  "package_envelope L v = (case v of PDict d \<Rightarrow> env_from_dict (float_repr L) d None | _ \<Rightarrow> Inl AttributeError)"

definition open_envelope :: "prims \<Rightarrow> pylib \<Rightarrow> (nat \<Rightarrow> time) \<Rightarrow> identity \<Rightarrow> public_card \<Rightarrow> envelope \<Rightarrow>
    'n guard_obj \<Rightarrow> bytes res \<times> 'n guard_obj" where
  \<comment> \<open>\<open>receiver_obj.open_from(env, peer_card, replay_guard=guard)\<close> with the clock readings 1 to 6\<close>
  "open_envelope P L t i pcard env g =
     (case open_from P L (go_mark g) (go_seen g) (Some (go_cfg g)) (t 1) (t 2) (t 3) (t 4) (t 5) (t 6)
         (env_to_dict env) pcard i (go_state g) of
        (r, s) \<Rightarrow> (r, g\<lparr>go_state := s\<rparr>))"

definition unseal_package :: "prims \<Rightarrow> pylib \<Rightarrow> (nat \<Rightarrow> time) \<Rightarrow> identity \<Rightarrow> public_card \<Rightarrow> package \<Rightarrow>
    'n guard_obj \<Rightarrow> bytes res \<times> 'n guard_obj" where
  "unseal_package P L t i pcard pk g =
     (if pk_is_chunked pk \<and> \<not> py_truthy (pk_chunks pk) then (Inl SecureReceiveError, g)
      else if pk_envelope pk = PNone then (Inl SecureReceiveError, g)
      else (case package_envelope L (pk_envelope pk) of
         Inl e \<Rightarrow> (Inl e, g)
       | Inr env \<Rightarrow>
           and_then (open_envelope P L t i pcard env g) (\<lambda>m g1.
             if \<not> pk_is_chunked pk then (Inr m, g1)
             else (open_chunks P m (e_envelope_nonce env) (pk_chunks pk), g1))))"

definition receive_error :: "exn \<Rightarrow> exn" where
  \<comment> \<open>the handlers of \<open>_secure_receive_payload\<close>; \<open>EnvelopeValidationError\<close> is the one of
      \<open>crypto/hybrid.py\<close>\<close>
  "receive_error e =
     (if e = DuplicateNonceError then DuplicateMessageError
      else if e \<in> {StaleEnvelopeError, FutureEnvelopeError, EnvelopeExpiredError} then MessageExpiredError
      else if e \<in> {CardRevokedError, CardExpiredError, HybridEnvelopeValidationError} then InvalidSenderError
      else e)"

definition check_container :: "package \<Rightarrow> string \<Rightarrow> string \<Rightarrow> string option \<Rightarrow> unit res" where
  "check_container pk snd_id own_id expected_type =
     guard (pk_sender_id pk = snd_id) SecureReceiveError
      (guard (pk_receiver_id pk = own_id) SecureReceiveError
        (guard (case expected_type of None \<Rightarrow> True | Some t \<Rightarrow> pk_data_type pk = t) TypeMismatchError (Inr ())))"

definition secure_receive_payload :: "prims \<Rightarrow> pylib \<Rightarrow> fresh_identity \<Rightarrow> (nat \<Rightarrow> time) \<Rightarrow> files \<Rightarrow> peer option \<Rightarrow>
    package_input \<Rightarrow> string option \<Rightarrow> identity option \<Rightarrow> identity option \<Rightarrow> peer option \<Rightarrow> peer option \<Rightarrow>
    ('k, 'n) ctx \<Rightarrow> bytes res \<times> ('k, 'n) ctx" where
  \<comment> \<open>\<open>sender_id\<close>, \<open>package_input\<close>, \<open>expected_type\<close>, \<open>receiver_identity\<close>, \<open>receiver\<close>, \<open>sender\<close>,
      \<open>sender_card\<close>\<close>
  "secure_receive_payload P L F t fs sender_id inp expected_type receiver_identity receiver sender sender_card x =
     and_then (resolve_party L (or_else sender_card (or_else sender sender_id)) x) (\<lambda>(pcard, snd_id) x1.
     and_then (resolve_package_input L fs inp, x1) (\<lambda>pk x2.
     and_then (own_identity P L F (or_else receiver receiver_identity) x2) (\<lambda>i x3.
     and_then (check_container pk snd_id (entity_id i) expected_type, x3) (\<lambda>_ x4.
     case unseal_package P L t i pcard pk (x_guard x4) of
       (Inl e, g) \<Rightarrow> (Inl (receive_error e), x4\<lparr>x_guard := g\<rparr>)
     | (Inr m, g) \<Rightarrow> (Inr m, x4\<lparr>x_guard := g\<rparr>)))))"

section \<open>Lemmas: state and errors\<close>

lemma and_then_simps [simp]:
  "and_then (Inl e, s) f = (Inl e, s)" "and_then (Inr a, s) f = f a s"
  by (simp_all add: and_then_def)

lemma and_then_Inr:
  "and_then r f = (Inr b, s') \<longleftrightarrow> (\<exists>a s. r = (Inr a, s) \<and> f a s = (Inr b, s'))"
  by (auto simp: and_then_def split: prod.splits sum.splits)

lemma or_else_simps [simp]: "or_else (Some a) b = Some a" "or_else None b = b"
  by (simp_all add: or_else_def)

lemma subscript_hex_hex [simp]:
  "map_of d k = Some (PStr (hex b)) \<Longrightarrow> subscript_hex (PDict d) k = Inr b"
  by (simp add: subscript_hex_def)

section \<open>Lemmas: the container\<close>

text \<open>A container survives its serialised forms when its metadata do and its envelope and chunks are
  what sending makes of them.\<close>

definition package_ok :: "package \<Rightarrow> bool" where
  "package_ok p \<longleftrightarrow> json_ok (pk_envelope p) \<and> json_ok (pk_chunks p) \<and> json_ok (pk_metadata p)"

lemma package_dict_json_ok: "package_ok p \<Longrightarrow> json_ok (PDict (package_to_dict p))"
  by (simp add: package_ok_def package_to_dict_def)

lemma package_from_to_dict: "package_from_dict L (PDict (package_to_dict p)) = Inr p"
  by (cases p) (simp add: package_from_dict_def package_to_dict_def dget_def dget_default_def has_key_def
      py_truthy_def)

lemma resolve_forms:
  assumes "package_ok p"
  shows "resolve_package_input L fs (InDict (package_to_dict p)) = Inr p"
    and "resolve_package_input L fs (InBytes (utf8 (package_to_json L b p))) = Inr p"
    and "resolve_package_input L (package_save L path p fs) (InPath path) = Inr p"
proof -
  have l: "loads_bytes (utf8 (package_to_json L b p)) = Inr (PDict (package_to_dict p))" for b
    using package_dict_json_ok [OF assms]
    by (simp add: package_to_json_def loads_bytes_dumps loads_bytes_pretty del: dumps.simps pretty.simps json_ok.simps)
  then have "loads (package_to_json L b p) = Inr (PDict (package_to_dict p))" for b
    by (simp add: loads_bytes_def)
  with l show "resolve_package_input L fs (InDict (package_to_dict p)) = Inr p"
    "resolve_package_input L fs (InBytes (utf8 (package_to_json L b p))) = Inr p"
    "resolve_package_input L (package_save L path p fs) (InPath path) = Inr p"
    by (simp_all add: resolve_package_input_def package_from_to_dict package_from_json_def package_from_file_def
        package_from_text_def package_save_def safe_is_file_def)
qed

end
