(* ===== verification/SecureGuarantees.thy ===== *)
theory SecureGuarantees
  imports SecureEngine
begin

text \<open>
  What the workflow of \<open>uxsp/secure\<close> guarantees: a sent payload is received, once, in every
  form the container can take; which payload sizes can be sent at all; what a received payload is
  known to be; and what an attacker who can change the container, but holds no keys, achieves.
\<close>

section \<open>Lemmas: an honest exchange\<close>


lemma seal_for_Inr:
  assumes "seal_for P L R t1 t2 m pc i = Inr env"
  shows "seal P R t2 m (keypair i) (c_public_keys pc) (entity_id i) (c_entity_id pc) [] = Inr (env_to_dict env)"
    and "env_from_dict (float_repr L) (env_to_dict env) None = Inr env"
    and "e_envelope_nonce env = hex (r_env R)"
proof -
  from assms obtain raw where raw: "seal P R t2 m (keypair i) (c_public_keys pc) (entity_id i) (c_entity_id pc) [] = Inr raw"
    and e: "env_from_dict (float_repr L) raw None = Inr env"
    by (auto simp: seal_for_def res_Inr_iffs)
  from raw obtain ct epub kct sigs where r: "raw = [(''version'', PStr ''UXSP-1''), (''sender_id'', PStr (entity_id i)),
       (''recipient_id'', PStr (c_entity_id pc)), (''timestamp'', PInt (trunc t2)),
       (''envelope_nonce'', PStr (hex (r_env R))), (''ciphertext'', PStr (hex ct)),
       (''nonce'', PStr (hex (r_nonce R))), (''ephemeral_pub'', PStr (hex epub)),
       (''kem_ciphertext'', PStr (hex kct)), (''classical_sig'', dget sigs ''classical_sig''),
       (''pqc_sig'', dget sigs ''pqc_sig'')]" by (rule seal_Inr)
  from e r have "env_to_dict env = raw \<and> e_envelope_nonce env = hex (r_env R)"
    by (auto simp: env_from_dict_def res_Inr_iffs STRING_FIELDS_def is_PStr_iff env_to_dict_def dget_def str_field_def)
  with raw e show "seal P R t2 m (keypair i) (c_public_keys pc) (entity_id i) (c_entity_id pc) [] = Inr (env_to_dict env)"
    "env_from_dict (float_repr L) (env_to_dict env) None = Inr env"
    "e_envelope_nonce env = hex (r_env R)" by auto
qed

text \<open>An honest exchange: both identities have generated keypairs and cards that carry the public
  halves; the random values have their lengths; the clock is sane.\<close>

definition parties_ok :: "prims \<Rightarrow> identity \<Rightarrow> public_card \<Rightarrow> identity \<Rightarrow> public_card \<Rightarrow> bool" where
  "parties_ok P i ci j cj \<longleftrightarrow> is_keypair P (keypair i) (c_public_keys ci) \<and> c_entity_id ci = entity_id i \<and>
     is_keypair P (keypair j) (c_public_keys cj) \<and> c_entity_id cj = entity_id j"

definition random_ok :: "send_random \<Rightarrow> bool" where
  "random_ok R \<longleftrightarrow> length (r_ephemeral (sr_seal R)) = 32 \<and> length (r_nonce (sr_seal R)) = 12 \<and>
     r_env (sr_seal R) \<noteq> [] \<and> length (sr_key R) = 32 \<and> (\<forall>n. length (sr_nonces R n) = 12) \<and>
     sr_transfer R \<noteq> [] \<and> \<bar>trunc (sr_t2 R)\<bar> \<le> 10 ^ 18 - 1"

definition in_window :: "replay_guard \<Rightarrow> send_random \<Rightarrow> (nat \<Rightarrow> time) \<Rightarrow> bool" where
  \<comment> \<open>the clock readings of \<open>open_from\<close> relative to the sealing\<close>
  "in_window g R t \<longleftrightarrow> (\<forall>k \<in> {2, 4, 5}. t k - of_int (trunc (sr_t2 R)) \<le> of_int (g_window g) \<and>
     of_int (trunc (sr_t2 R)) \<le> t k + of_int (g_clock_skew g))"

definition crypto_laws :: "prims \<Rightarrow> bool" where
  "crypto_laws P \<longleftrightarrow> aead_laws P \<and> exchange_laws P \<and> hkdf_laws P \<and> signature_laws P \<and> sha_laws P"

lemma open_envelope_honest:
  assumes "crypto_laws P" and "parties_ok P i ci j cj" and "random_ok R"
    and "seal_for P L (sr_seal R) (sr_t1 R) (sr_t2 R) m cj i = Inr env"
    and "verify_validity L (t 1) None ci = Inr ()" and "in_window (go_cfg g) R t"
    and "go_seen g (t 3) (hex (r_env (sr_seal R))) (go_state g) = (b, s1)"
  shows "(b = Inr False \<longrightarrow>
      go_mark g (t 6) (hex (r_env (sr_seal R))) (g_window (go_cfg g) + g_clock_skew (go_cfg g)) s1 = (Inr True, s2) \<longrightarrow>
      open_envelope P L t j ci env g = (Inr m, g\<lparr>go_state := s2\<rparr>)) \<and>
    (b = Inr True \<longrightarrow> open_envelope P L t j ci env g = (Inl DuplicateNonceError, g\<lparr>go_state := s1\<rparr>))"
proof -
  note s = seal_for_Inr [OF assms(4)]
  let ?d = "env_to_dict env" and ?g = "go_cfg g" and ?n = "hex (r_env (sr_seal R))"
  have ne: "r_env (sr_seal R) \<noteq> []" and ts: "\<bar>trunc (sr_t2 R)\<bar> \<le> 10 ^ 18 - 1"
    using assms(3) by (simp_all add: random_ok_def)
  note n = normalise_sealed [OF s(1) ne]
  have p: "is_keypair P (keypair i) (c_public_keys ci)" "c_entity_id ci = entity_id i"
    "is_keypair P (keypair j) (c_public_keys cj)" "c_entity_id cj = entity_id j"
    using assms(2) by (simp_all add: parties_ok_def)
  have w: "t k - of_int (trunc (sr_t2 R)) \<le> of_int (g_window ?g)" "of_int (trunc (sr_t2 R)) \<le> t k + of_int (g_clock_skew ?g)"
    if "k \<in> {2, 4, 5}" for k using assms(6) that by (auto simp: in_window_def)
  have f: "fresh_dict ?g (t k) ?d = Inr ?d" if "k \<in> {2, 4, 5}" for k
    using w [OF that] n ts by (simp add: fresh_dict_def check_freshness_normalised_def)
  obtain c where c: "verify_envelope P (t 4) ?d (c_public_keys ci) (Some (entity_id j)) (Some (c_entity_id ci))
      (g_window ?g) (g_clock_skew ?g) False = Inr c" "decrypt_verified_envelope P c (keypair j) [] = Inr m"
    using verify_seal [OF _ _ _ _ p(1,3) _ _ _ s(1), of "t 4" "g_window ?g" "g_clock_skew ?g"] w [of 4]
      assms(1,3) p(2,4) by (auto simp: crypto_laws_def random_ok_def)
  have v: "\<not> c_is_revoked ci" "verify_validity L (t 1) None ci = Inr ()"
    using assms(5) verify_validity_ok [of L "t 1" None ci] by simp_all
  have pre: "precheck (go_seen g) ?g (t 2) (t 3) ?d (go_state g) =
      (case b of Inl e \<Rightarrow> (Inl e, s1) | Inr x \<Rightarrow> (guard (\<not> x) DuplicateNonceError (Inr ()), s1))"
    using f [of 2] n assms(7) by (simp add: precheck_def unseen_def split: sum.splits)
  have com: "commit (go_mark g) ?g (t 5) (t 6) ?d s1 = (Inr (), s2)"
    if "go_mark g (t 6) ?n (g_window ?g + g_clock_skew ?g) s1 = (Inr True, s2)"
    using f [of 5] n that by (simp add: commit_def first_use_def)
  show ?thesis
  proof (intro conjI impI)
    assume "b = Inr False" "go_mark g (t 6) ?n (g_window ?g + g_clock_skew ?g) s1 = (Inr True, s2)"
    with com pre v c n p show "open_envelope P L t j ci env g = (Inr m, g\<lparr>go_state := s2\<rparr>)"
      by (simp add: open_envelope_def open_from_def del: One_nat_def)
  next
    assume "b = Inr True"
    with pre v n p show "open_envelope P L t j ci env g = (Inl DuplicateNonceError, g\<lparr>go_state := s1\<rparr>)"
      by (simp add: open_envelope_def open_from_def del: One_nat_def)
  qed
qed

lemma open_sealed_chunks:
  assumes "aead_laws P" and "sha_laws P" and "length key = 32" and "\<And>k. length (nonces k) = 12" and "tid \<noteq> []"
    and "create_chunked_transfer P L tid payload CHUNK_SIZE default_transfer = Inr chunks"
    and "res_map (seal_chunk P key n nonces) (enumerate 0 chunks) = Inr sealed"
  shows "open_chunks P key n (PList sealed) = Inr payload \<and> sealed \<noteq> [] \<and> json_ok (PList sealed)"
proof -
  have s: "length sealed = length chunks \<and> (\<forall>k < length chunks. seal_chunk P key n nonces (k, chunks ! k) = Inr (sealed ! k))"
    using assms(7) by (auto simp: res_map_Inr_iff list_all2_conv_all_nth nth_enumerate_eq)
  define ct where "ct k = aesgcm_encrypt P key (nonces k) (chunks ! k) (Some (chunk_ad n k))" for k
  have k: "sealed ! k = PDict [(''c'', PStr (hex (ct k))), (''n'', PStr (hex (nonces k)))]" if "k < length chunks" for k
    using s that assms(3) by (auto simp: seal_chunk_def KEY_SIZE_def ct_def dest!: spec [of _ k])
  have d: "sym_decrypt P (ct k) (nonces k) key (Some (chunk_ad n k)) = Inr (chunks ! k)" for k
    using assms(1,3,4) by (simp add: sym_decrypt_def ct_def KEY_SIZE_def NONCE_SIZE_def aead_lawsD)
  have "res_map (open_chunk P key n) (enumerate 0 sealed) = Inr chunks"
    using s k d by (simp add: res_map_Inr_iff list_all2_conv_all_nth nth_enumerate_eq open_chunk_def)
  moreover obtain meta where "reassemble_chunked_transfer P chunks = Inr (meta, payload)"
    using reassemble_permuted [OF assms(2) _ assms(5,6) refl] by (auto simp: default_transfer_def meta_ok_def VALID_KINDS_def)
  ultimately have "open_chunks P key n (PList sealed) = Inr payload"
    by (simp add: open_chunks_def)
  moreover have "chunks \<noteq> []"
    using \<open>reassemble_chunked_transfer P chunks = _\<close> by (auto simp: reassemble_chunked_transfer_def)
  moreover have "\<forall>v \<in> set sealed. json_ok v"
    using s k by (auto simp: in_set_conv_nth)
  ultimately show ?thesis using s by auto
qed

lemma seal_package_Inr:
  assumes "seal_package P L R i rid cj payload dt meta = Inr pk"
  obtains env chunks sealed where
    "seal_for P L (sr_seal R) (sr_t1 R) (sr_t2 R) (if length payload \<le> SINGLE_LIMIT then payload else sr_key R) cj i = Inr env"
    "pk = \<lparr>pk_sender_id = entity_id i, pk_receiver_id = rid, pk_data_type = dt,
       pk_is_chunked = (SINGLE_LIMIT < length payload), pk_envelope = PDict (env_to_dict env),
       pk_chunks = PList sealed, pk_metadata = PDict meta\<rparr>"
    "SINGLE_LIMIT < length payload \<Longrightarrow> create_chunked_transfer P L (sr_transfer R) payload CHUNK_SIZE default_transfer = Inr chunks \<and>
       res_map (seal_chunk P (sr_key R) (e_envelope_nonce env) (sr_nonces R)) (enumerate 0 chunks) = Inr sealed"
    "length payload \<le> SINGLE_LIMIT \<Longrightarrow> sealed = []"
proof (cases "length payload \<le> SINGLE_LIMIT")
  case True
  with assms show ?thesis by (auto simp: seal_package_def Let_def res_Inr_iffs intro!: that)
next
  case False
  with assms show ?thesis by (auto simp: seal_package_def Let_def res_Inr_iffs intro!: that)
qed

lemma unseal_sealed:
  assumes "crypto_laws P" and "parties_ok P i ci j cj" and "random_ok R"
    and "seal_package P L R i rid cj payload dt meta = Inr pk"
    and "verify_validity L (t 1) None ci = Inr ()" and "in_window (go_cfg g) R t"
    and "go_seen g (t 3) (hex (r_env (sr_seal R))) (go_state g) = (b, s1)"
  shows "(b = Inr False \<longrightarrow>
      go_mark g (t 6) (hex (r_env (sr_seal R))) (g_window (go_cfg g) + g_clock_skew (go_cfg g)) s1 = (Inr True, s2) \<longrightarrow>
      unseal_package P L t j ci pk g = (Inr payload, g\<lparr>go_state := s2\<rparr>)) \<and>
    (b = Inr True \<longrightarrow> unseal_package P L t j ci pk g = (Inl DuplicateNonceError, g\<lparr>go_state := s1\<rparr>))"
  using assms(4)
proof (rule seal_package_Inr)
  fix env chunks sealed
  let ?m = "if length payload \<le> SINGLE_LIMIT then payload else sr_key R"
  assume e: "seal_for P L (sr_seal R) (sr_t1 R) (sr_t2 R) ?m cj i = Inr env"
    and pk: "pk = \<lparr>pk_sender_id = entity_id i, pk_receiver_id = rid, pk_data_type = dt,
       pk_is_chunked = (SINGLE_LIMIT < length payload), pk_envelope = PDict (env_to_dict env),
       pk_chunks = PList sealed, pk_metadata = PDict meta\<rparr>"
    and c: "SINGLE_LIMIT < length payload \<Longrightarrow> create_chunked_transfer P L (sr_transfer R) payload CHUNK_SIZE default_transfer = Inr chunks \<and>
       res_map (seal_chunk P (sr_key R) (e_envelope_nonce env) (sr_nonces R)) (enumerate 0 chunks) = Inr sealed"
  have env: "package_envelope L (PDict (env_to_dict env)) = Inr env"
    using seal_for_Inr(2) [OF e] by (simp add: package_envelope_def)
  have o: "open_chunks P (sr_key R) (e_envelope_nonce env) (PList sealed) = Inr payload \<and> sealed \<noteq> []"
    if "SINGLE_LIMIT < length payload"
    using open_sealed_chunks [of P "sr_key R" "sr_nonces R" "sr_transfer R" L payload chunks] c [OF that] assms(1,3)
    by (auto simp: crypto_laws_def random_ok_def)
  have u: "unseal_package P L t j ci pk g =
      and_then (open_envelope P L t j ci env g) (\<lambda>m g1.
        if \<not> SINGLE_LIMIT < length payload then (Inr m, g1)
        else (open_chunks P m (e_envelope_nonce env) (PList sealed), g1))"
    unfolding unseal_package_def pk package.simps env
    by (cases "SINGLE_LIMIT < length payload") (simp_all add: py_truthy_def o)
  note h = open_envelope_honest [OF assms(1-3) e assms(5-7), of s2]
  show ?thesis
  proof (intro conjI impI)
    assume "b = Inr False"
      "go_mark g (t 6) (hex (r_env (sr_seal R))) (g_window (go_cfg g) + g_clock_skew (go_cfg g)) s1 = (Inr True, s2)"
    then have "open_envelope P L t j ci env g = (Inr ?m, g\<lparr>go_state := s2\<rparr>)"
      by (rule h [THEN conjunct1, rule_format])
    then show "unseal_package P L t j ci pk g = (Inr payload, g\<lparr>go_state := s2\<rparr>)"
      unfolding u by (cases "SINGLE_LIMIT < length payload") (simp_all add: o)
  next
    assume "b = Inr True"
    then have "open_envelope P L t j ci env g = (Inl DuplicateNonceError, g\<lparr>go_state := s1\<rparr>)"
      by (rule h [THEN conjunct2, rule_format])
    then show "unseal_package P L t j ci pk g = (Inl DuplicateNonceError, g\<lparr>go_state := s1\<rparr>)"
      unfolding u by simp
  qed
qed

lemma seal_package_ok:
  assumes "seal_package P L R i rid cj payload dt meta = Inr pk" and "crypto_laws P" and "random_ok R"
    and "json_ok (PDict meta)"
  shows "package_ok pk"
  using assms(1)
proof (rule seal_package_Inr)
  fix env chunks sealed
  assume pk: "pk = \<lparr>pk_sender_id = entity_id i, pk_receiver_id = rid, pk_data_type = dt,
       pk_is_chunked = (SINGLE_LIMIT < length payload), pk_envelope = PDict (env_to_dict env),
       pk_chunks = PList sealed, pk_metadata = PDict meta\<rparr>"
    and c: "SINGLE_LIMIT < length payload \<Longrightarrow> create_chunked_transfer P L (sr_transfer R) payload CHUNK_SIZE default_transfer = Inr chunks \<and>
       res_map (seal_chunk P (sr_key R) (e_envelope_nonce env) (sr_nonces R)) (enumerate 0 chunks) = Inr sealed"
      "length payload \<le> SINGLE_LIMIT \<Longrightarrow> sealed = []"
  have "json_ok (PList sealed)"
  proof (cases "SINGLE_LIMIT < length payload")
    case True
    have r: "length (sr_key R) = 32" "\<And>k. length (sr_nonces R k) = 12" "sr_transfer R \<noteq> []" "aead_laws P" "sha_laws P"
      using assms(2,3) by (simp_all add: random_ok_def crypto_laws_def)
    show ?thesis
      using open_sealed_chunks [of P "sr_key R" "sr_nonces R", OF r(4,5,1) r(2) r(3)] c(1) [OF True] by blast
  qed (simp add: c(2))
  then show ?thesis
    using assms(4) env_json_ok [of env] unfolding package_ok_def pk package.simps by blast
qed

text \<open>The in-memory nonce store accepts a new nonce when it is not full, and then knows it.\<close>

lemma mem_tick_None: "mem_inv s \<Longrightarrow> mem_tracked s m = None \<Longrightarrow> mem_tracked (mem_tick t s) m = None"
proof -
  assume a: "mem_inv s" "mem_tracked s m = None"
  have "mem_tracked (snd (mem_cleanup_unlocked t s')) m = None" if "mem_inv s'" "mem_tracked s' m = None" for s'
    using mem_cleanup_unlocked_tracked [OF that(1), of t m] that(2) by (metis not_Some_eq option.distinct(1))
  from this [of "s\<lparr>calls_since_cleanup := k\<rparr>" for k] have "mem_tracked (snd (mem_cleanup_unlocked t (s\<lparr>calls_since_cleanup := k\<rparr>))) m = None" for k
    using a by simp
  then show ?thesis using a(2) by (simp add: mem_tick_def Let_def)
qed

lemma mem_accepts:
  assumes "mem_inv s" and "mem_tracked s n = None" and "length (mstore s) < MAX_NONCE_STORE_SIZE"
  shows "mem_is_seen t n s = (Inr False, s)"
    and "fst (mem_mark_used t' n ttl s) = Inr True"
proof -
  show "mem_is_seen t n s = (Inr False, s)"
    using assms(2) by (simp add: mem_is_seen_def mem_tracked_def)
  have "mem_tracked (mem_tick t' s) n = None"
    using mem_tick_None [OF assms(1,2)] .
  moreover have "length (mstore (mem_room t' (mem_tick t' s))) < MAX_NONCE_STORE_SIZE"
    using assms(3)
    using le_less_trans [OF length_filter_le [of "\<lambda>(k, ex). \<not> ex \<le> t'" "mstore s"] assms(3)]
    by (simp add: mem_room_def mem_tick_def Let_def mem_cleanup_unlocked_def not_le)
  ultimately show "fst (mem_mark_used t' n ttl s) = Inr True"
    by (simp add: mem_mark_used_eq Let_def)
qed

lemma mem_remembers:
  assumes "mem_inv s" and "mem_mark_used t n ttl s = (Inr True, s')" and "t' < t + of_int ttl"
  shows "mem_is_seen t' n s' = (Inr True, s')"
  using mem.record_use [OF assms(1), of t n ttl] assms(2,3) by (auto simp: mem_is_seen_def mem_tracked_def)

section \<open>Lemmas: sizes\<close>

definition plain_text :: "string \<Rightarrow> bool" where
  \<comment> \<open>needs no escapes in JSON\<close>
  "plain_text s \<longleftrightarrow> (\<forall>c \<in> set s. escape_char c = [c])"

lemma length_quote_plain: "plain_text s \<Longrightarrow> length (quote s) = length s + 2"
  by (induction s) (auto simp: plain_text_def quote_def)

lemma hexdigit_plain: "n < 16 \<Longrightarrow> escape_char (hexdigits ! n) = [hexdigits ! n]"
proof -
  have "\<forall>n \<in> set [0..<16]. escape_char (hexdigits ! n) = [hexdigits ! n]" by code_simp
  then show "n < 16 \<Longrightarrow> escape_char (hexdigits ! n) = [hexdigits ! n]" by simp
qed

lemma plain_hex: "plain_text (hex b)"
proof (induction b)
  case (Cons x b)
  have "unat x div 16 < 16" "unat x mod 16 < 16" by (simp_all add: less_mult_imp_div_less)
  with Cons show ?case by (simp add: plain_text_def hex_Cons hexdigit_plain)
qed (simp add: plain_text_def)

lemma length_quote_hex: "length (quote (hex b)) = 2 * length b + 2"
  by (simp add: length_quote_plain plain_hex)

lemma length_quote_keys:
  "map (\<lambda>k. length (quote k)) [''version'', ''UXSP-1'', ''sender_id'', ''recipient_id'', ''timestamp'',
     ''envelope_nonce'', ''ciphertext'', ''nonce'', ''ephemeral_pub'', ''kem_ciphertext'', ''classical_sig'',
     ''pqc_sig''] = [9, 8, 11, 14, 11, 16, 12, 7, 15, 16, 15, 9]"
  by code_simp

lemma length_str_int_eq: "10 ^ 9 \<le> n \<Longrightarrow> n < 10 ^ 10 \<Longrightarrow> length (str_int n) = 10"
proof -
  have "length (str_nat m) = k" if "10 ^ (k - 1) \<le> m" "m < 10 ^ k" "0 < k" for m k :: nat
    using that
  proof (induction k arbitrary: m)
    case (Suc k)
    show ?case
    proof (cases "k = 0")
      case False
      then have "10 ^ (k - 1) \<le> m div 10" "m div 10 < 10 ^ k"
        using Suc.prems by (cases k; simp add: less_mult_imp_div_less mult.commute div_le_mono [of _ _ 10, simplified])+
      moreover have "10 \<le> m" using Suc.prems False by (cases k) (auto intro: order_trans [rotated])
      ultimately show ?thesis using Suc.IH [of "m div 10"] False by (simp add: str_nat.simps [of m])
    qed (use Suc.prems in \<open>simp add: str_nat.simps [of m]\<close>)
  qed simp
  from this [of 10 "nat n"] show "10 ^ 9 \<le> n \<Longrightarrow> n < 10 ^ 10 \<Longrightarrow> length (str_int n) = 10"
    by (simp add: str_int_def nat_less_iff le_nat_iff)
qed

text \<open>The documented sizes of X25519, Ed25519, AES-256-GCM, ML-KEM-768 and ML-DSA-65.\<close>

definition standard_sizes :: "prims \<Rightarrow> bool" where
  "standard_sizes P \<longleftrightarrow>
     (\<forall>k n m a. length (aesgcm_encrypt P k n m a) = length m + 16) \<and>
     (\<forall>sk. length sk = 32 \<longrightarrow> length (x25519_public P sk) = 32) \<and>
     (\<forall>r pk ct ss. kem_encap P r pk = Inr (ct, ss) \<longrightarrow> length ct = 1088) \<and>
     (\<forall>sk m s. ed25519_sign P sk m = Inr s \<longrightarrow> length s = 64) \<and>
     (\<forall>sk r m s. mldsa_sign P sk r m = Inr s \<longrightarrow> length s = 3309)"

definition standard_ids :: "send_random \<Rightarrow> string \<Rightarrow> string \<Rightarrow> bool" where
  \<comment> \<open>identities named by UUIDs, 16 random bytes for the envelope nonce, a clock between 2001 and 2286\<close>
  "standard_ids R a b \<longleftrightarrow> length a = 36 \<and> plain_text a \<and> length b = 36 \<and> plain_text b \<and>
     length (r_env (sr_seal R)) = 16 \<and> 10 ^ 9 \<le> trunc (sr_t2 R) \<and> trunc (sr_t2 R) < 10 ^ 10"

lemma seal_standard:
  assumes "crypto_laws P" and "parties_ok P i ci j cj" and "random_ok R" and "standard_sizes P"
    and "standard_ids R (entity_id i) (entity_id j)" and "length m < 2 ^ 31"
  obtains raw where "seal P (sr_seal R) (sr_t2 R) m (keypair i) (c_public_keys cj) (entity_id i) (c_entity_id cj) [] = Inr raw"
    "length (dumps fr True (PDict raw)) = 9340 + 2 * length m"
    "\<forall>f \<in> set REQUIRED_FIELDS. has_key raw f" "\<forall>f \<in> set STRING_FIELDS. is_PStr (dget raw f)"
    "dget raw ''version'' = PStr UXSP_VERSION" "dget raw ''timestamp'' = PInt (trunc (sr_t2 R))"
proof -
  let ?R = "sr_seal R" and ?n = "length m"
  have p: "is_keypair P (keypair i) (c_public_keys ci)" "is_keypair P (keypair j) (c_public_keys cj)"
    "c_entity_id cj = entity_id j" using assms(2) by (simp_all add: parties_ok_def)
  have r: "length (r_ephemeral ?R) = 32" "length (r_nonce ?R) = 12" using assms(3) by (simp_all add: random_ok_def)
  have l: "aead_laws P" "exchange_laws P" "hkdf_laws P" "signature_laws P" using assms(1) by (simp_all add: crypto_laws_def)
  have d: "length (entity_id i) = 36" "plain_text (entity_id i)" "length (entity_id j) = 36" "plain_text (entity_id j)"
    "length (r_env ?R) = 16" "10 ^ 9 \<le> trunc (sr_t2 R)" "trunc (sr_t2 R) < 10 ^ 10"
    using assms(5) by (simp_all add: standard_ids_def)
  obtain key kct where x: "hybrid_sender_exchange P (r_ephemeral ?R) (r_kem ?R) (c_public_keys cj) =
      Inr (key, x25519_public P (r_ephemeral ?R), kct)" "length key = KEY_SIZE"
    using exchange_agree [OF l(2,3) p(2) r(1)] by blast
  have kct: "length kct = 1088"
  proof -
    obtain pk ss where "kem_encap P (r_kem ?R) pk = Inr (kct, ss)"
      using x(1) by (auto simp: hybrid_sender_exchange_def res_Inr_iffs encapsulate_def)
    then show ?thesis using assms(4) unfolding standard_sizes_def by blast
  qed
  let ?ct = "aesgcm_encrypt P key (r_nonce ?R) m (Some [])" and ?e = "x25519_public P (r_ephemeral ?R)"
  have z: "length ?ct = ?n + 16" "length ?e = 32" using assms(4) r(1) by (simp_all add: standard_sizes_def)
  let ?fs = "seal_fields ?ct (r_nonce ?R) (entity_id i) (entity_id j) (trunc (sr_t2 R)) (hex (r_env ?R)) ?e kct"
  have ts: "length (str_int (trunc (sr_t2 R))) = 10" using length_str_int_eq d(6,7) .
  have u: "length (utf8 s) \<le> 72" if "length s \<le> 36" for s
    using length_utf8_le [of s] that by linarith
  obtain b where b: "bind_fields ?fs = Inr b"
    using bind_fields_ok [of ?fs] u [of "entity_id i"] u [of "entity_id j"] u [of "''UXSP-1''"] u [of "hex (r_env ?R)"]
      u [of "str_int (trunc (sr_t2 R))"] d ts z r kct assms(6)
    by (auto simp: seal_fields_def simp del: bind_fields.simps utf8.simps)
  obtain c q where s: "hybrid_sign P (r_sig ?R) b (keypair i) = Inr [(''classical_sig'', PStr (hex c)), (''pqc_sig'', PStr (hex q))]"
    using sign_verify [OF l(4) p(1)] by blast
  have cq: "length c = 64" "length q = 3309"
    using s assms(4) by (auto simp: hybrid_sign_def res_Inr_iffs ed_sign_def pqc_sign_def standard_sizes_def)
  let ?raw = "[(''version'', PStr ''UXSP-1''), (''sender_id'', PStr (entity_id i)),
       (''recipient_id'', PStr (entity_id j)), (''timestamp'', PInt (trunc (sr_t2 R))),
       (''envelope_nonce'', PStr (hex (r_env ?R))), (''ciphertext'', PStr (hex ?ct)),
       (''nonce'', PStr (hex (r_nonce ?R))), (''ephemeral_pub'', PStr (hex ?e)),
       (''kem_ciphertext'', PStr (hex kct)), (''classical_sig'', PStr (hex c)), (''pqc_sig'', PStr (hex q))]"
  have "entity_id i \<noteq> []" "entity_id j \<noteq> []" using d by auto
  then have "seal P ?R (sr_t2 R) m (keypair i) (c_public_keys cj) (entity_id i) (c_entity_id cj) [] = Inr ?raw"
    using x b s p(3) by (simp add: seal_def Let_def dget_def)
  moreover have "length (dumps fr True (PDict ?raw)) = 9340 + 2 * ?n"
    using length_quote_keys z kct cq d r ts
    by (simp add: length_quote_hex length_quote_plain item_sep_def key_sep_def)
  ultimately show ?thesis
    by (rule that) (simp_all add: REQUIRED_FIELDS_def STRING_FIELDS_def has_key_def dget_def UXSP_VERSION_def)
qed


lemma seal_for_standard:
  assumes "crypto_laws P" and "parties_ok P i ci j cj" and "random_ok R" and "standard_sizes P"
    and "standard_ids R (entity_id i) (entity_id j)" and "length m < 2 ^ 31"
    and "verify_validity L (sr_t1 R) None cj = Inr ()"
  shows "if length m \<le> 28098 then \<exists>env. seal_for P L (sr_seal R) (sr_t1 R) (sr_t2 R) m cj i = Inr env
    else seal_for P L (sr_seal R) (sr_t1 R) (sr_t2 R) m cj i = Inl EnvelopeTooLargeError"
proof -
  obtain raw where r: "seal P (sr_seal R) (sr_t2 R) m (keypair i) (c_public_keys cj) (entity_id i) (c_entity_id cj) [] = Inr raw"
    "length (dumps (float_repr L) True (PDict raw)) = 9340 + 2 * length m"
    "\<forall>f \<in> set REQUIRED_FIELDS. has_key raw f" "\<forall>f \<in> set STRING_FIELDS. is_PStr (dget raw f)"
    "dget raw ''version'' = PStr UXSP_VERSION" "dget raw ''timestamp'' = PInt (trunc (sr_t2 R))"
    by (rule seal_standard [OF assms(1-6)])
  have v: "\<not> c_is_revoked cj" using assms(7) verify_validity_ok by blast
  have "seal_for P L (sr_seal R) (sr_t1 R) (sr_t2 R) m cj i = env_from_dict (float_repr L) raw None"
    by (simp add: seal_for_def v assms(7) r(1))
  moreover have "int (length (dumps (float_repr L) True (PDict raw))) \<le> limit_of None \<longleftrightarrow> length m \<le> 28098"
    unfolding r(2) by (simp add: limit_of_def MAX_BYTES_def)
  ultimately show ?thesis
    using r(3-6) by (simp add: env_from_dict_def del: dumps.simps)
qed

lemma seal_chunk_ok: "length key = 32 \<Longrightarrow> \<exists>v. seal_chunk P key n nonces x = Inr v"
  by (cases x) (simp add: seal_chunk_def KEY_SIZE_def)

lemma seal_package_standard:
  assumes "crypto_laws P" and "standard_sizes P" and "parties_ok P i ci j cj" and "random_ok R"
    and "standard_ids R (entity_id i) (entity_id j)" and "length (sr_transfer R) \<le> 500"
    and "verify_validity L (sr_t1 R) None cj = Inr ()" and "length payload < 10 ^ 18"
    and "length payload \<le> 28098 \<or> 30720 < length payload"
  shows "\<exists>pk. seal_package P L R i rid cj payload dt meta = Inr pk \<and> (pk_is_chunked pk \<longleftrightarrow> 28098 < length payload)"
proof (cases "length payload \<le> SINGLE_LIMIT")
  case True
  then have "length payload < 2 ^ 31" by (simp add: SINGLE_LIMIT_def)
  from seal_for_standard [OF assms(1,3,4,2,5) this assms(7)] True assms(9) show ?thesis
    by (auto simp: seal_package_def SINGLE_LIMIT_def split: if_splits)
next
  case False
  have k: "length (sr_key R) = 32" using assms(4) by (simp add: random_ok_def)
  then have "\<exists>env. seal_for P L (sr_seal R) (sr_t1 R) (sr_t2 R) (sr_key R) cj i = Inr env"
    using seal_for_standard [OF assms(1,3,4,2,5) _ assms(7), of "sr_key R"] by simp
  then obtain env where e: "seal_for P L (sr_seal R) (sr_t1 R) (sr_t2 R) (sr_key R) cj i = Inr env" ..
  have "sha_laws P" using assms(1) by (simp add: crypto_laws_def)
  moreover have "meta_small default_transfer" by (simp add: meta_small_def default_transfer_def)
  ultimately obtain chunks where c: "create_chunked_transfer P L (sr_transfer R) payload CHUNK_SIZE default_transfer = Inr chunks"
    using create_ok [of P default_transfer "sr_transfer R" CHUNK_SIZE payload L] assms(6,8) by (auto simp: CHUNK_SIZE_def)
  obtain sealed where "res_map (seal_chunk P (sr_key R) (e_envelope_nonce env) (sr_nonces R)) (enumerate 0 chunks) = Inr sealed"
    using res_map_Inr_of [of "enumerate 0 chunks" "seal_chunk P (sr_key R) (e_envelope_nonce env) (sr_nonces R)"]
      seal_chunk_ok [OF k] by metis
  with False e c show ?thesis by (auto simp: seal_package_def SINGLE_LIMIT_def)
qed

section \<open>Lemmas: calls\<close>

lemma put_guard: "x_guard (snd (put_own L i x)) = x_guard x" "x_guard (snd (put_card c x)) = x_guard x"
  by (simp_all add: put_own_def put_card_def split: sum.splits prod.splits)

lemma get_peer_guard: "x_guard (snd (get_peer p x)) = x_guard x"
  by (auto simp: get_peer_def split: sum.splits prod.splits option.splits)

lemma resolve_party_guard: "resolve_party L op x = (r, y) \<Longrightarrow> x_guard y = x_guard x"
  using get_peer_guard [of _ x]
  by (auto simp: resolve_party_def and_then_def split: option.splits peer.splits sum.splits prod.splits)
    (metis snd_conv)+

lemma receive_eq:
  assumes "resolve_party L (Some p) y = (Inr (pcard, sid), y1)" and "resolve_package_input L fs inp = Inr pk"
    and "check_container pk sid (entity_id j) et = Inr ()"
  shows "secure_receive_payload P L F t fs (Some p) inp et (Some j) None None None y =
     (case unseal_package P L t j pcard pk (x_guard y1) of
       (Inl e, g) \<Rightarrow> (Inl (receive_error e), y1\<lparr>x_guard := g\<rparr>) | (Inr m, g) \<Rightarrow> (Inr m, y1\<lparr>x_guard := g\<rparr>))"
  using assms by (simp add: secure_receive_payload_def own_identity_def)

lemma send_Inr:
  assumes "resolve_party L (Some q) x = (Inr (cj, rid), x1)"
    and "secure_send_payload P L F R (Some q) None (Some i) None payload dt out meta (x, fs) = (Inr pk, x', fs')"
  shows "seal_package P L R i rid cj payload dt (case meta of None \<Rightarrow> [] | Some m \<Rightarrow> m) = Inr pk \<and>
    fs' = (case out of None \<Rightarrow> fs | Some f \<Rightarrow> package_save L f pk fs)"
  using assms(2)
  by (auto simp: secure_send_payload_def assms(1) own_identity_def and_then_def rbind_Inr_iff split: sum.splits)

section \<open>Concrete parties\<close>

definition std_prims :: prims where
  \<comment> \<open>toy primitives with the standard sizes\<close>
  "std_prims = demo_prims\<lparr>aesgcm_encrypt := (\<lambda>k n m a. m @ replicate 16 0),
     aesgcm_decrypt := (\<lambda>k n c a. if length c < 16 then Inl InvalidTag else Inr (take (length c - 16) c)),
     kem_encap := (\<lambda>r pk. Inr (replicate 1088 0, pk)), kem_decap := (\<lambda>sk ct. Inr sk),
     ed25519_sign := (\<lambda>sk m. Inr (replicate 64 0)), ed25519_verify := (\<lambda>pk s m. s = replicate 64 0),
     mldsa_sign := (\<lambda>sk r m. Inr (replicate 3309 0)), mldsa_verify := (\<lambda>m s pk. Inr (s = replicate 3309 0))\<rparr>"

definition std_sender :: identity where
  "std_sender = demo_identity\<lparr>entity_id := replicate 36 CHR ''a''\<rparr>"

definition std_receiver :: identity where
  "std_receiver = demo_recipient\<lparr>entity_id := replicate 36 CHR ''b''\<rparr>"

definition std_card :: "identity \<Rightarrow> public_card" where
  "std_card i = demo_card\<lparr>c_entity_id := entity_id i, c_public_keys := i_pub i, c_valid_until := None\<rparr>"

definition std_random :: send_random where
  "std_random = \<lparr>sr_seal = demo_random\<lparr>r_env := replicate 16 8\<rparr>, sr_t1 = 1700000000, sr_t2 = 1700000000,
     sr_key = replicate 32 9, sr_transfer = ''t1'', sr_nonces = (\<lambda>_. replicate 12 3)\<rparr>"

definition std_fresh :: fresh_identity where
  "std_fresh = \<lparr>f_time = 0, f_uuid = ''u'', f_exchange = replicate 32 1, f_kem = [1], f_signing = [1], f_pqc = [1]\<rparr>"

lemma std_keypair: "is_keypair std_prims (demo_keypair n) (demo_pubkeys n)"
proof -
  have "generate_hybrid_keypair std_prims a b c d = generate_hybrid_keypair demo_prims a b c d" for a b c d
    by (simp add: std_prims_def generate_defs algorithm_defs)
  then show ?thesis using demo_is_keypair [of n] by (simp add: is_keypair_def acceptable_keys_def std_prims_def demo_prims_def)
qed

lemma std_laws: "crypto_laws std_prims"
  using demo_laws
  by (auto simp: crypto_laws_def aead_laws_def std_prims_def hkdf_laws_def exchange_laws_def signature_laws_def
      demo_prims_def sha_laws_def algorithm_defs map2_add_commute)

lemma std_sizes: "standard_sizes std_prims"
  by (auto simp: standard_sizes_def std_prims_def demo_prims_def)

lemma std_parties: "parties_ok std_prims std_sender (std_card std_sender) std_receiver (std_card std_receiver)"
  by (simp add: parties_ok_def std_sender_def std_receiver_def std_card_def demo_identity_def demo_recipient_def std_keypair)

lemma std_random_ok: "random_ok std_random"
  by (simp add: random_ok_def std_random_def demo_random_def trunc_def)

lemma std_ids: "standard_ids std_random (entity_id std_sender) (entity_id std_receiver)"
proof -
  have "escape_char CHR ''a'' = ''a''" "escape_char CHR ''b'' = ''b''" by code_simp+
  then show ?thesis
    by (simp add: standard_ids_def std_random_def std_sender_def std_receiver_def plain_text_def trunc_def)
qed

lemma std_valid: "verify_validity L t None (std_card i) = Inr ()"
  by (simp add: verify_validity_def is_expired_def std_card_def demo_card_def)

lemma std_sealed:
  assumes "length payload \<le> 28098 \<or> 30720 < length payload \<and> length payload < 10 ^ 18"
  shows "\<exists>pk. seal_package std_prims demo_lib std_random std_sender (entity_id std_receiver) (std_card std_receiver) payload dt meta = Inr pk \<and>
    (pk_is_chunked pk \<longleftrightarrow> 28098 < length payload)"
proof -
  have "length (sr_transfer std_random) \<le> 500" by (simp add: std_random_def)
  then show ?thesis
    using assms by (intro seal_package_standard [OF std_laws std_sizes std_parties std_random_ok std_ids _ std_valid]) auto
qed

lemma std_card_fields:
  "c_entity_id (std_card i) = entity_id i" "c_public_keys (std_card std_sender) = demo_pubkeys 1"
  by (simp_all add: std_card_def std_sender_def demo_identity_def)

lemma std_resolve: "resolve_party L (Some (PeerCard (std_card i))) x = (Inr (std_card i, entity_id i), x)"
  by (simp add: resolve_party_def std_card_def)

lemma std_window:
  "in_window \<lparr>g_window = 300, g_clock_skew = 30\<rparr> std_random (\<lambda>_. 1700000010)"
  "in_window \<lparr>g_window = 300, g_clock_skew = 30\<rparr> std_random (\<lambda>_. 1700000020)"
  by (simp_all add: in_window_def std_random_def trunc_def)

lemma std_context: "x_guard (context_init d) = default_guard mem_mark_used mem_is_seen mem_init"
  by (simp add: context_init_def)

lemma mem_init_empty: "mem_tracked mem_init n = None" "length (mstore mem_init) < MAX_NONCE_STORE_SIZE"
  by (simp_all add: mem_tracked_def mem_init_def MAX_NONCE_STORE_SIZE_def)

lemma std_unsealed:
  assumes "seal_package std_prims demo_lib std_random std_sender (entity_id std_receiver) (std_card std_receiver) payload dt meta = Inr pk"
  shows "\<exists>g. unseal_package std_prims demo_lib (\<lambda>_. 1700000010) std_receiver (std_card std_sender) pk
    (default_guard mem_mark_used mem_is_seen mem_init) = (Inr payload, g)"
proof -
  let ?g = "default_guard mem_mark_used mem_is_seen mem_init"
  obtain s2 where m: "mem_mark_used 1700000010 (hex (r_env (sr_seal std_random))) 330 mem_init = (Inr True, s2)"
    using mem_accepts(2) [OF mem_inv_init mem_init_empty, of 1700000010 _ 330] by (metis fst_conv surj_pair)
  show ?thesis
    using unseal_sealed [where t = "\<lambda>_. 1700000010" and g = ?g and b = "Inr False" and ?s1.0 = mem_init and ?s2.0 = s2,
        OF std_laws std_parties std_random_ok assms std_valid]
    by (simp add: default_guard_def std_window mem_accepts(1) [OF mem_inv_init mem_init_empty] m)
qed

section \<open>Properties\<close>

text \<open>Which payloads can be sent. With the standard algorithms and UUIDs as ids, a payload of up to
  28098 bytes goes into one envelope and a payload of more than 30 KiB into chunks, and sending
  succeeds; but every payload of 28099 to 30720 bytes is sent to the single envelope too, whose
  hexadecimal form then exceeds the 64 KiB limit, and sending raises \<open>EnvelopeTooLargeError\<close>.\<close>

theorem send_size_gap:
  assumes "crypto_laws P" and "standard_sizes P" and "parties_ok P i ci j cj" and "random_ok R"
    and "standard_ids R (entity_id i) (entity_id j)" and "length (sr_transfer R) \<le> 500"
    and "verify_validity L (sr_t1 R) None cj = Inr ()" and "length payload < 10 ^ 18"
  shows "if 28098 < length payload \<and> length payload \<le> 30720
    then seal_package P L R i rid cj payload dt meta = Inl EnvelopeTooLargeError
    else \<exists>pk. seal_package P L R i rid cj payload dt meta = Inr pk \<and>
      (pk_is_chunked pk \<longleftrightarrow> 28098 < length payload)"
proof (cases "28098 < length payload \<and> length payload \<le> 30720")
  case True
  then have "length payload < 2 ^ 31" by simp
  from seal_for_standard [OF assms(1,3,4,2,5) this assms(7)] True show ?thesis
    by (simp add: seal_package_def SINGLE_LIMIT_def)
next
  case False
  then show ?thesis using seal_package_standard [OF assms, of rid dt meta] by auto
qed

theorem send_size_gap_witness:
  "seal_package std_prims demo_lib std_random std_sender ''b'' (std_card std_receiver) (replicate 29000 0) ''binary'' [] =
     Inl EnvelopeTooLargeError \<and>
   (\<exists>pk. seal_package std_prims demo_lib std_random std_sender ''b'' (std_card std_receiver) (replicate 40000 0) ''binary'' [] =
     Inr pk \<and> pk_is_chunked pk)"
proof -
  note g = send_size_gap [where L = demo_lib and rid = "''b''" and dt = "''binary''" and meta = "[]",
      OF std_laws std_sizes std_parties std_random_ok std_ids _ std_valid]
  have t: "length (sr_transfer std_random) \<le> 500" by (simp add: std_random_def)
  show ?thesis using g [OF t, of "replicate 29000 0"] g [OF t, of "replicate 40000 0"] by simp
qed

text \<open>C24: What was sent is received, once. For identities with their cards and an honest clock, a payload
  that \<open>_secure_send_payload\<close> accepted, in one envelope or in chunks, is what
  \<open>_secure_receive_payload\<close> returns from the package, its dictionary, its JSON text or the file it was
  saved to; and while the receiver remembers the nonce, receiving it again, in any of these forms and
  whatever the other party's card, raises \<open>DuplicateMessageError\<close>.\<close>

theorem send_then_receive:
  assumes "crypto_laws P" and "parties_ok P i ci j cj" and "random_ok R" and "json_ok (PDict meta)"
    and "resolve_party L (Some q) x = (Inr (cj, entity_id j), x1)"
    and "secure_send_payload P L F R (Some q) None (Some i) None payload dt (Some path) (Some meta) (x, fs) = (Inr pk, x', fs')"
    and "inp \<in> {InPackage pk, InDict (package_to_dict pk), InBytes (utf8 (package_to_json L b pk)), InPath path}"
    and "inp' \<in> {InPackage pk, InDict (package_to_dict pk), InBytes (utf8 (package_to_json L b pk)), InPath path}"
    and "resolve_party L (Some p) y = (Inr (ci, entity_id i), y1)"
    and "x_guard y = default_guard mem_mark_used mem_is_seen s" and "mem_inv s"
    and "mem_tracked s (hex (r_env (sr_seal R))) = None" and "length (mstore s) < MAX_NONCE_STORE_SIZE"
    and "verify_validity L (t 1) None ci = Inr ()" and "in_window \<lparr>g_window = 300, g_clock_skew = 30\<rparr> R t"
    and "verify_validity L (u 1) None ci = Inr ()" and "in_window \<lparr>g_window = 300, g_clock_skew = 30\<rparr> R u"
    and "u 3 < t 6 + 330"
  shows "\<exists>y'. secure_receive_payload P L F' t fs' (Some p) inp (Some dt) (Some j) None None None y = (Inr payload, y') \<and>
    fst (secure_receive_payload P L F' u fs' (Some (PeerCard ci)) inp' (Some dt) (Some j) None None None y') =
      Inl DuplicateMessageError"
proof -
  have s: "seal_package P L R i (entity_id j) cj payload dt meta = Inr pk" and fs: "fs' = package_save L path pk fs"
    using send_Inr [OF assms(5,6)] by simp_all
  have r: "resolve_package_input L fs' inp = Inr pk" "resolve_package_input L fs' inp' = Inr pk"
    using resolve_forms [OF seal_package_ok [OF s assms(1,3,4)], of L] assms(7,8)
    by (auto simp: fs resolve_package_input_def [where inp = "InPackage _"])
  have c: "check_container pk (entity_id i) (entity_id j) (Some dt) = Inr ()"
    using s by (rule seal_package_Inr) (simp add: check_container_def)
  let ?n = "hex (r_env (sr_seal R))" and ?g = "default_guard mem_mark_used mem_is_seen"
  have g: "go_cfg (?g s') = \<lparr>g_window = 300, g_clock_skew = 30\<rparr>" "go_seen (?g s') = mem_is_seen"
    "go_mark (?g s') = mem_mark_used" "go_state (?g s') = s'" "(?g s')\<lparr>go_state := s''\<rparr> = ?g s''" for s' s''
    by (simp_all add: default_guard_def)
  obtain s2 where m: "mem_mark_used (t 6) ?n 330 s = (Inr True, s2)"
    using mem_accepts(2) [OF assms(11-13), of "t 6" 330] by (metis fst_conv surj_pair)
  have "unseal_package P L t j ci pk (?g s) = (Inr payload, ?g s2)"
    using unseal_sealed [where t = t and g = "?g s" and b = "Inr False" and ?s1.0 = s and ?s2.0 = s2,
        OF assms(1-3) s assms(14)] assms(15) mem_accepts(1) [OF assms(11-13)] m
    by (simp add: g)
  then have 1: "secure_receive_payload P L F' t fs' (Some p) inp (Some dt) (Some j) None None None y =
      (Inr payload, y1\<lparr>x_guard := ?g s2\<rparr>)"
    using receive_eq [OF assms(9) r(1) c] resolve_party_guard [OF assms(9)] assms(10) by simp
  have "mem_is_seen (u 3) ?n s2 = (Inr True, s2)"
    by (rule mem_remembers [OF assms(11) m]) (use assms(18) in simp)
  then have "unseal_package P L u j ci pk (?g s2) = (Inl DuplicateNonceError, ?g s2)"
    using unseal_sealed [where t = u and g = "?g s2" and b = "Inr True" and ?s1.0 = s2, OF assms(1-3) s assms(16)] assms(17) by (simp add: g)
  moreover have "resolve_party L (Some (PeerCard ci)) (y1\<lparr>x_guard := ?g s2\<rparr>) = (Inr (ci, entity_id i), y1\<lparr>x_guard := ?g s2\<rparr>)"
    using assms(2) by (simp add: resolve_party_def parties_ok_def)
  note receive_eq [where P = P and F = F' and t = u, OF this r(2) c]
  ultimately show ?thesis
    using 1 by (simp add: receive_error_def)
qed

theorem send_then_receive_witness:
  "\<exists>pk x fs y. secure_send_payload std_prims demo_lib std_fresh std_random (Some (PeerCard (std_card std_receiver))) None
      (Some std_sender) None [1, 2, 3] ''binary'' (Some ''/p.json'') (Some []) (context_init ''/'', \<lambda>_. None) = (Inr pk, x, fs) \<and>
    secure_receive_payload std_prims demo_lib std_fresh (\<lambda>_. 1700000010) fs (Some (PeerCard (std_card std_sender)))
      (InPath ''/p.json'') (Some ''binary'') (Some std_receiver) None None None (context_init ''/home'') = (Inr [1, 2, 3], y) \<and>
    fst (secure_receive_payload std_prims demo_lib std_fresh (\<lambda>_. 1700000020) fs (Some (PeerCard (std_card std_sender)))
      (InPackage pk) (Some ''binary'') (Some std_receiver) None None None y) = Inl DuplicateMessageError"
proof -
  let ?c = "context_init ''/'' :: (cards, mem_store) ctx"
  let ?pc = "PeerCard (std_card std_receiver)"
  obtain pk where pk: "seal_package std_prims demo_lib std_random std_sender (entity_id std_receiver) (std_card std_receiver)
      [1, 2, 3] ''binary'' [] = Inr pk"
    using std_sealed [of "[1, 2, 3]"] by auto
  have s: "secure_send_payload std_prims demo_lib std_fresh std_random (Some ?pc) None (Some std_sender) None
      [1, 2, 3] ''binary'' (Some ''/p.json'') (Some []) (?c, \<lambda>_. None) =
      (Inr pk, ?c, package_save demo_lib ''/p.json'' pk (\<lambda>_. None))"
    by (simp add: secure_send_payload_def std_resolve own_identity_def pk dispatch_package_def context_init_def)
  show ?thesis
    using send_then_receive [OF std_laws std_parties std_random_ok _ std_resolve s _ _ std_resolve std_context mem_inv_init
        mem_init_empty std_valid std_window(1) std_valid std_window(2), of "InPath ''/p.json''" False "InPackage pk" std_fresh] s
    by fastforce
qed

text \<open>C25: What a received payload is. Whatever package arrives, in whatever form, a payload is returned only
  if the package names the party asked for as sender and the own identity as receiver and has the
  expected type; the party's card is neither revoked nor expired; the envelope, addressed from that card
  to this identity, carries both signatures under the card's keys, is fresh and its nonce was committed;
  and the payload is the decrypted envelope, or, for a package marked as chunked, the reassembly of
  chunks that each decrypt under the enveloped key bound to the envelope's nonce and their position.\<close>

theorem receive_sound:
  assumes "secure_receive_payload P L F t fs sender_id inp (Some et) receiver_identity receiver sender sender_card y = (Inr m, y')"
  shows "\<exists>pcard y1 pk j y3 env c k. resolve_party L (or_else sender_card (or_else sender sender_id)) y = (Inr (pcard, pk_sender_id pk), y1) \<and>
    resolve_package_input L fs inp = Inr pk \<and>
    own_identity P L F (or_else receiver receiver_identity) y1 = (Inr j, y3) \<and>
    pk_receiver_id pk = entity_id j \<and> pk_data_type pk = et \<and>
    \<not> c_is_revoked pcard \<and> is_expired L (t 1) None pcard = Inr False \<and>
    package_envelope L (pk_envelope pk) = Inr env \<and>
    verify_envelope P (t 4) (env_to_dict env) (c_public_keys pcard) (Some (entity_id j)) (Some (c_entity_id pcard))
      (g_window (go_cfg (x_guard y3))) (g_clock_skew (go_cfg (x_guard y3))) False = Inr c \<and>
    decrypt_verified_envelope P c (keypair j) [] = Inr k \<and>
    (\<exists>s1. commit (go_mark (x_guard y3)) (go_cfg (x_guard y3)) (t 5) (t 6) (env_to_dict env) s1 = (Inr (), go_state (x_guard y'))) \<and>
    (if pk_is_chunked pk
     then \<exists>cs raw meta. py_iter (pk_chunks pk) = Inr cs \<and>
       list_all2 (\<lambda>x b. open_chunk P k (e_envelope_nonce env) x = Inr b) (enumerate 0 cs) raw \<and>
       reassemble_chunked_transfer P raw = Inr (meta, m)
     else m = k)"
proof -
  from assms obtain pcard sid y1 pk j y3 where r:
    "resolve_party L (or_else sender_card (or_else sender sender_id)) y = (Inr (pcard, sid), y1)"
    "resolve_package_input L fs inp = Inr pk" "own_identity P L F (or_else receiver receiver_identity) y1 = (Inr j, y3)"
    "check_container pk sid (entity_id j) (Some et) = Inr ()"
    and u': "(case unseal_package P L t j pcard pk (x_guard y3) of
       (Inl e, g) \<Rightarrow> (Inl (receive_error e), y3\<lparr>x_guard := g\<rparr>) | (Inr m, g) \<Rightarrow> (Inr m, y3\<lparr>x_guard := g\<rparr>)) = (Inr m, y')"
    unfolding secure_receive_payload_def and_then_Inr by (clarsimp simp: and_then_Inr)
  from u' obtain g where u: "unseal_package P L t j pcard pk (x_guard y3) = (Inr m, g)" and y': "y' = y3\<lparr>x_guard := g\<rparr>"
    by (auto split: sum.splits prod.splits)
  have c: "pk_sender_id pk = sid" "pk_receiver_id pk = entity_id j" "pk_data_type pk = et"
    using r(4) by (simp_all add: check_container_def guard_Inr_iff)
  from u obtain env k g1 where e: "package_envelope L (pk_envelope pk) = Inr env"
    "open_envelope P L t j pcard env (x_guard y3) = (Inr k, g1)" "g1 = g"
    "if pk_is_chunked pk then open_chunks P k (e_envelope_nonce env) (pk_chunks pk) = Inr m else m = k"
    by (auto simp: unseal_package_def and_then_Inr split: if_splits sum.splits)
  from e(2) obtain s' where op: "open_from P L (go_mark (x_guard y3)) (go_seen (x_guard y3)) (Some (go_cfg (x_guard y3)))
      (t 1) (t 2) (t 3) (t 4) (t 5) (t 6) (env_to_dict env) pcard j (go_state (x_guard y3)) = (Inr k, s')"
    and g1: "go_state g1 = s'"
    by (auto simp: open_envelope_def split: prod.splits)
  from op obtain cc s1 where o: "\<not> c_is_revoked pcard" "is_expired L (t 1) None pcard = Inr False"
    "verify_envelope P (t 4) (env_to_dict env) (c_public_keys pcard) (Some (entity_id j)) (Some (c_entity_id pcard))
      (g_window (go_cfg (x_guard y3))) (g_clock_skew (go_cfg (x_guard y3))) False = Inr cc"
    "decrypt_verified_envelope P cc (keypair j) [] = Inr k"
    "commit (go_mark (x_guard y3)) (go_cfg (x_guard y3)) (t 5) (t 6) (env_to_dict env) s1 = (Inr (), s')"
    by (rule open_from_Inr) auto
  have "\<exists>cs raw meta. py_iter (pk_chunks pk) = Inr cs \<and>
       list_all2 (\<lambda>x b. open_chunk P k (e_envelope_nonce env) x = Inr b) (enumerate 0 cs) raw \<and>
       reassemble_chunked_transfer P raw = Inr (meta, m)" if "pk_is_chunked pk"
    using e(4) that by (auto simp: open_chunks_def res_Inr_iffs res_map_Inr_iff)
  then show ?thesis
    using r(1-3) c e(1,3,4) o g1 y' by (intro exI [where x = pcard] exI [where x = y1] exI [where x = pk] exI [where x = j]
        exI [where x = y3] exI [where x = env] exI [where x = cc] exI [where x = k] conjI) auto
qed

theorem receive_sound_witness:
  "\<exists>pk y env c. secure_receive_payload std_prims demo_lib std_fresh (\<lambda>_. 1700000010) (\<lambda>_. None) None
      (InPackage pk) (Some ''binary'') None (Some std_receiver) (Some (PeerCard (std_card std_sender))) None (context_init ''/home'') =
      (Inr (replicate 40000 5), y) \<and> pk_is_chunked pk \<and> package_envelope demo_lib (pk_envelope pk) = Inr env \<and>
    verify_envelope std_prims 1700000010 (env_to_dict env) (demo_pubkeys 1) (Some (entity_id std_receiver))
      (Some (entity_id std_sender)) 300 30 False = Inr c"
proof -
  let ?x = "context_init ''/home'' :: (cards, mem_store) ctx" and ?t = "\<lambda>_. 1700000010" and ?m = "replicate 40000 5"
  obtain pk where pk: "seal_package std_prims demo_lib std_random std_sender (entity_id std_receiver) (std_card std_receiver)
      ?m ''binary'' [] = Inr pk" "pk_is_chunked pk"
    using std_sealed [of ?m] by auto
  obtain g where u: "unseal_package std_prims demo_lib ?t std_receiver (std_card std_sender) pk (x_guard ?x) = (Inr ?m, g)"
    using std_unsealed [OF pk(1)] by (metis std_context)
  have c: "check_container pk (entity_id std_sender) (entity_id std_receiver) (Some ''binary'') = Inr ()"
    using pk(1) by (rule seal_package_Inr) (simp add: check_container_def)
  have r: "secure_receive_payload std_prims demo_lib std_fresh ?t (\<lambda>_. None) None (InPackage pk) (Some ''binary'') None
      (Some std_receiver) (Some (PeerCard (std_card std_sender))) None ?x = (Inr ?m, ?x\<lparr>x_guard := g\<rparr>)"
    using c u by (simp add: secure_receive_payload_def std_resolve resolve_package_input_def own_identity_def)
  from receive_sound [OF this] obtain env c where "package_envelope demo_lib (pk_envelope pk) = Inr env"
    "verify_envelope std_prims 1700000010 (env_to_dict env) (demo_pubkeys 1) (Some (entity_id std_receiver))
      (Some (entity_id std_sender)) 300 30 False = Inr c"
    by (auto simp: std_resolve resolve_package_input_def own_identity_def std_context default_guard_def std_card_fields)
  with r pk(2) show ?thesis by blast
qed

text \<open>The container is not authenticated: whoever carries the package of a large payload can mark it as
  not chunked, rename its data type and replace its metadata and chunks, and the receiver, who asks for
  the new type, accepts it and is handed the 32-byte session key as the sender's payload.\<close>

theorem container_unauthenticated:
  assumes "crypto_laws P" and "parties_ok P i ci j cj" and "random_ok R"
    and "seal_package P L R i (entity_id j) cj payload dt meta = Inr pk" and "30720 < length payload"
    and "resolve_party L (Some p) y = (Inr (ci, entity_id i), y1)"
    and "go_seen (x_guard y) (t 3) (hex (r_env (sr_seal R))) (go_state (x_guard y)) = (Inr False, s1)"
    and "go_mark (x_guard y) (t 6) (hex (r_env (sr_seal R)))
      (g_window (go_cfg (x_guard y)) + g_clock_skew (go_cfg (x_guard y))) s1 = (Inr True, s2)"
    and "verify_validity L (t 1) None ci = Inr ()" and "in_window (go_cfg (x_guard y)) R t"
  shows "fst (secure_receive_payload P L F t fs (Some p)
      (InPackage (pk\<lparr>pk_is_chunked := False, pk_data_type := dt', pk_metadata := meta', pk_chunks := chunks'\<rparr>)) (Some dt')
      (Some j) None None None y) = Inr (sr_key R)"
proof -
  let ?pk = "pk\<lparr>pk_is_chunked := False, pk_data_type := dt', pk_metadata := meta', pk_chunks := chunks'\<rparr>"
  obtain env where e: "seal_for P L (sr_seal R) (sr_t1 R) (sr_t2 R) (sr_key R) cj i = Inr env"
    "pk_envelope pk = PDict (env_to_dict env)" "pk_sender_id pk = entity_id i" "pk_receiver_id pk = entity_id j"
    using assms(4) by (rule seal_package_Inr) (use assms(5) in \<open>auto simp: SINGLE_LIMIT_def\<close>)
  have "open_envelope P L t j ci env (x_guard y) = (Inr (sr_key R), (x_guard y)\<lparr>go_state := s2\<rparr>)"
    using open_envelope_honest [where t = t, OF assms(1-3) e(1) assms(9,10,7), of s2] assms(8) by simp
  then have "unseal_package P L t j ci ?pk (x_guard y) = (Inr (sr_key R), (x_guard y)\<lparr>go_state := s2\<rparr>)"
    using seal_for_Inr(2) [OF e(1)] by (simp add: unseal_package_def e(2) package_envelope_def)
  moreover have "check_container ?pk (entity_id i) (entity_id j) (Some dt') = Inr ()"
    using e(3,4) by (simp add: check_container_def)
  moreover have "resolve_package_input L fs (InPackage ?pk) = Inr ?pk" by (simp add: resolve_package_input_def)
  ultimately show ?thesis
    using receive_eq [OF assms(6), of fs "InPackage ?pk" ?pk j "Some dt'" P F t] resolve_party_guard [OF assms(6)] by simp
qed

theorem container_unauthenticated_witness:
  "\<exists>pk pk'. seal_package std_prims demo_lib std_random std_sender (entity_id std_receiver) (std_card std_receiver)
      (replicate 40000 5) ''photo'' [] = Inr pk \<and> pk_data_type pk' = ''text'' \<and> pk_envelope pk' = pk_envelope pk \<and>
    fst (secure_receive_payload std_prims demo_lib std_fresh (\<lambda>_. 1700000010) (\<lambda>_. None) (Some (PeerCard (std_card std_sender)))
      (InPackage pk') (Some ''text'') (Some std_receiver) None None None (context_init ''/home'')) = Inr (replicate 32 9)"
proof -
  let ?x = "context_init ''/home'' :: (cards, mem_store) ctx"
  have g: "x_guard ?x = \<lparr>go_cfg = \<lparr>g_window = 300, g_clock_skew = 30\<rparr>, go_mark = mem_mark_used, go_seen = mem_is_seen, go_state = mem_init\<rparr>"
    by (simp add: std_context default_guard_def)
  obtain pk where pk: "seal_package std_prims demo_lib std_random std_sender (entity_id std_receiver) (std_card std_receiver)
      (replicate 40000 5) ''photo'' [] = Inr pk"
    using std_sealed [of "replicate 40000 5"] by auto
  obtain s2 where m: "mem_mark_used 1700000010 (hex (r_env (sr_seal std_random))) 330 mem_init = (Inr True, s2)"
    using mem_accepts(2) [OF mem_inv_init mem_init_empty, of 1700000010 _ 330] by (metis fst_conv surj_pair)
  have "fst (secure_receive_payload std_prims demo_lib std_fresh (\<lambda>_. 1700000010) (\<lambda>_. None) (Some (PeerCard (std_card std_sender)))
      (InPackage (pk\<lparr>pk_is_chunked := False, pk_data_type := ''text'', pk_metadata := PDict [], pk_chunks := PList []\<rparr>))
      (Some ''text'') (Some std_receiver) None None None ?x) = Inr (sr_key std_random)"
    by (rule container_unauthenticated [where t = "\<lambda>_. 1700000010" and ?s2.0 = s2, OF std_laws std_parties std_random_ok pk _ std_resolve])
      (use m in \<open>simp_all add: g mem_accepts(1) [OF mem_inv_init mem_init_empty] std_valid std_window\<close>)
  with pk show ?thesis by (intro exI [of _ pk] exI conjI) (simp_all add: std_random_def)
qed

text \<open>The nonce is used up before the chunks are looked at: a copy of a package (of either kind) whose
  chunks were replaced by garbage is refused, but afterwards the receiver refuses the genuine package
  as a duplicate, so its payload is lost.\<close>

theorem garbled_copy_burns_package:
  assumes "crypto_laws P" and "parties_ok P i ci j cj" and "random_ok R"
    and "seal_package P L R i (entity_id j) cj payload dt meta = Inr pk"
    and "x_guard y = default_guard mem_mark_used mem_is_seen s" and "mem_inv s"
    and "mem_tracked s (hex (r_env (sr_seal R))) = None" and "length (mstore s) < MAX_NONCE_STORE_SIZE"
    and "verify_validity L (t 1) None ci = Inr ()" and "in_window \<lparr>g_window = 300, g_clock_skew = 30\<rparr> R t"
    and "verify_validity L (u 1) None ci = Inr ()" and "in_window \<lparr>g_window = 300, g_clock_skew = 30\<rparr> R u"
    and "u 3 < t 6 + 330"
  shows "\<exists>e y'. secure_receive_payload P L F t fs (Some (PeerCard ci))
      (InPackage (pk\<lparr>pk_is_chunked := True, pk_chunks := PList [PNone]\<rparr>)) (Some dt) (Some j) None None None y = (Inl e, y') \<and>
    fst (secure_receive_payload P L F u fs (Some (PeerCard ci)) (InPackage pk) (Some dt) (Some j) None None None y') =
      Inl DuplicateMessageError"
proof -
  let ?pk = "pk\<lparr>pk_is_chunked := True, pk_chunks := PList [PNone]\<rparr>"
  let ?n = "hex (r_env (sr_seal R))" and ?g = "default_guard mem_mark_used mem_is_seen"
  have g: "go_cfg (?g s') = \<lparr>g_window = 300, g_clock_skew = 30\<rparr>" "go_seen (?g s') = mem_is_seen"
    "go_mark (?g s') = mem_mark_used" "go_state (?g s') = s'" "(?g s')\<lparr>go_state := s''\<rparr> = ?g s''" for s' s''
    by (simp_all add: default_guard_def)
  obtain env m where e: "seal_for P L (sr_seal R) (sr_t1 R) (sr_t2 R) m cj i = Inr env"
    "pk_envelope pk = PDict (env_to_dict env)" "pk_sender_id pk = entity_id i" "pk_receiver_id pk = entity_id j" "pk_data_type pk = dt"
    using assms(4) by (rule seal_package_Inr) auto
  have r: "resolve_party L (Some (PeerCard ci)) x = (Inr (ci, entity_id i), x)" for x :: "('k, mem_store) ctx"
    using assms(2) by (simp add: resolve_party_def parties_ok_def)
  have rp: "resolve_package_input L fs (InPackage q) = Inr q" for q by (simp add: resolve_package_input_def)
  have c: "check_container ?pk (entity_id i) (entity_id j) (Some dt) = Inr ()"
    "check_container pk (entity_id i) (entity_id j) (Some dt) = Inr ()"
    using e(3-5) by (simp_all add: check_container_def)
  obtain s2 where m: "mem_mark_used (t 6) ?n 330 s = (Inr True, s2)"
    using mem_accepts(2) [OF assms(6-8), of "t 6" 330] by (metis fst_conv surj_pair)
  have "open_envelope P L t j ci env (?g s) = (Inr m, ?g s2)"
    using open_envelope_honest [where t = t and g = "?g s" and b = "Inr False" and ?s1.0 = s and ?s2.0 = s2,
        OF assms(1-3) e(1) assms(9)] assms(10) mem_accepts(1) [OF assms(6-8)] m by (simp add: g)
  then have 1: "unseal_package P L t j ci ?pk (?g s) = (Inl TypeError, ?g s2)"
    using seal_for_Inr(2) [OF e(1)]
    by (simp add: unseal_package_def e(2) package_envelope_def py_truthy_def open_chunks_def open_chunk_def
        subscript_hex_def)
  have "mem_is_seen (u 3) ?n s2 = (Inr True, s2)"
    by (rule mem_remembers [OF assms(6) m]) (use assms(13) in simp)
  then have 2: "unseal_package P L u j ci pk (?g s2) = (Inl DuplicateNonceError, ?g s2)"
    using unseal_sealed [where t = u and g = "?g s2" and b = "Inr True" and ?s1.0 = s2, OF assms(1-4) assms(11)] assms(12)
    by (simp add: g)
  show ?thesis
    using receive_eq [where P = P and F = F and t = t, OF r [of y] rp c(1)]
      receive_eq [where P = P and F = F and t = u, OF r [of "y\<lparr>x_guard := ?g s2\<rparr>"] rp c(2)] 1 2 assms(5)
    by (simp add: receive_error_def)
qed

theorem garbled_copy_burns_package_witness:
  "\<exists>pk pk' e y. seal_package std_prims demo_lib std_random std_sender (entity_id std_receiver) (std_card std_receiver)
      [1, 2, 3] ''text'' [] = Inr pk \<and>
    secure_receive_payload std_prims demo_lib std_fresh (\<lambda>_. 1700000010) (\<lambda>_. None) (Some (PeerCard (std_card std_sender)))
      (InPackage pk') (Some ''text'') (Some std_receiver) None None None (context_init ''/home'') = (Inl e, y) \<and>
    fst (secure_receive_payload std_prims demo_lib std_fresh (\<lambda>_. 1700000020) (\<lambda>_. None) (Some (PeerCard (std_card std_sender)))
      (InPackage pk) (Some ''text'') (Some std_receiver) None None None y) = Inl DuplicateMessageError"
proof -
  obtain pk where pk: "seal_package std_prims demo_lib std_random std_sender (entity_id std_receiver) (std_card std_receiver)
      [1, 2, 3] ''text'' [] = Inr pk"
    using std_sealed [of "[1, 2, 3]"] by auto
  show ?thesis
    using garbled_copy_burns_package [where t = "\<lambda>_. 1700000010" and u = "\<lambda>_. 1700000020", OF std_laws std_parties std_random_ok pk
        std_context mem_inv_init mem_init_empty std_valid std_window(1) std_valid std_window(2), of std_fresh "\<lambda>_. None" "''/home''"] pk
    by auto
qed

end
