(* ===== verification/Live.thy ===== *)
theory Live
  imports Json Crypto
begin

text \<open>
  \<open>uxsp/core/live.py\<close>: encrypted real-time frames with a key ratchet. A frame is the length of
  its clear metadata, the metadata, the sender's epoch, the nonce and the ciphertext; the session id,
  the epoch and the metadata are authenticated. The key is ratcheted after 65536 frames, and a
  receiver follows the epoch that a frame announces. The lemmas show that a stream with losses
  is decrypted across ratchets, and what happens when a frame is forged or repeated.
\<close>

section \<open>Sessions\<close>

record live =
  l_key :: bytes
  l_sid :: bytes
  frame_count :: int
  last_seq :: int
  epoch :: int

datatype sid_arg = NoSid | SidBytes bytes | SidText string

definition live_new :: "bytes \<Rightarrow> bytes \<Rightarrow> bytes option \<Rightarrow> sid_arg \<Rightarrow> live res" where
  \<comment> \<open>the random key and id drawn when none is given\<close>
  "live_new rnd_key rnd_sid key sid =
     guard (case key of None \<Rightarrow> True | Some k \<Rightarrow> length k = KEY_SIZE) ValueError
      (Inr \<lparr>l_key = (case key of None \<Rightarrow> rnd_key | Some k \<Rightarrow> k),
            l_sid = (case sid of NoSid \<Rightarrow> rnd_sid | SidBytes b \<Rightarrow> b
                     | SidText s \<Rightarrow> (if s = [] then rnd_sid else utf8 s)),
            frame_count = 0, last_seq = -1, epoch = 0\<rparr>)"

definition FRAMES_PER_KEY :: int where "FRAMES_PER_KEY = 65536"

definition ratchet_key :: "prims \<Rightarrow> live \<Rightarrow> unit res \<times> live" where
  "ratchet_key P s =
     (case derive_key P (l_key s) 32 None (utf8 ''UXSP-live-ratchet'') of
        Inl e \<Rightarrow> (Inl e, s)
      | Inr k \<Rightarrow> (Inr (), s\<lparr>l_key := k, frame_count := 0, epoch := epoch s + 1\<rparr>))"

definition count_frame :: "prims \<Rightarrow> live \<Rightarrow> unit res \<times> live" where
  \<comment> \<open>the end of both directions\<close>
  "count_frame P s =
     (let s1 = s\<lparr>frame_count := frame_count s + 1\<rparr>
      in if FRAMES_PER_KEY \<le> frame_count s1 then ratchet_key P s1 else (Inr (), s1))"

definition pack_H :: "int \<Rightarrow> bytes res" where
  \<comment> \<open>\<open>struct.pack(">H", n)\<close>\<close>
  "pack_H n = guard (0 \<le> n \<and> n < 65536) StructError (Inr (be_bytes 2 (nat n)))"

definition frame_ad :: "live \<Rightarrow> bytes \<Rightarrow> bytes \<Rightarrow> bytes" where
  "frame_ad s epoch_bytes metadata = l_sid s @ epoch_bytes @ metadata"

definition encrypt_frame :: "prims \<Rightarrow> bytes \<Rightarrow> bytes \<Rightarrow> bytes \<Rightarrow> live \<Rightarrow> bytes res \<times> live" where
  \<comment> \<open>the nonce, the frame and its metadata\<close>
  "encrypt_frame P urandom frame metadata s =
     (case guard (length metadata \<le> 65535) ValueError
        (rbind (pack_H (epoch s)) (\<lambda>eb.
         rbind (sym_encrypt P urandom frame (l_key s) (Some (frame_ad s eb metadata))) (\<lambda>(ct, nonce).
         rbind (pack_H (int (length metadata))) (\<lambda>mb.
         Inr (mb @ metadata @ eb @ nonce @ ct))))) of
        Inl e \<Rightarrow> (Inl e, s)
      | Inr result \<Rightarrow>
          (case count_frame P s of (Inl e, s') \<Rightarrow> (Inl e, s') | (Inr _, s') \<Rightarrow> (Inr result, s')))"

text \<open>The loop that catches up with the epoch of a frame.\<close>

function catch_up :: "prims \<Rightarrow> int \<Rightarrow> live \<Rightarrow> unit res \<times> live" where
  "catch_up P e s =
     (if epoch s < e
      then (case ratchet_key P s of (Inl x, s') \<Rightarrow> (Inl x, s') | (Inr _, s') \<Rightarrow> catch_up P e s')
      else (Inr (), s))"
  by pat_completeness auto
termination
  by (relation "measure (\<lambda>(P, e, s). nat (e - epoch s))") (auto simp: ratchet_key_def split: sum.splits)

declare catch_up.simps [simp del]

definition parse_frame :: "bytes \<Rightarrow> (bytes \<times> int \<times> bytes \<times> bytes) res" where
  \<comment> \<open>metadata, epoch, nonce and ciphertext\<close>
  "parse_frame raw =
     guard (2 \<le> length raw) ValueError
      (let m = be_nat (take 2 raw) in
       guard (2 + m + 2 + NONCE_SIZE \<le> length raw) ValueError
        (Inr (take m (drop 2 raw), int (be_nat (take 2 (drop (2 + m) raw))),
              take (NONCE_SIZE) (drop (2 + m + 2) raw), drop (2 + m + 2 + NONCE_SIZE) raw)))"

definition decrypt_frame :: "prims \<Rightarrow> bytes \<Rightarrow> int option \<Rightarrow> live \<Rightarrow> (bytes \<times> bytes) res \<times> live" where
  "decrypt_frame P raw expected_seq s =
     (case parse_frame raw of
        Inl e \<Rightarrow> (Inl e, s)
      | Inr (metadata, e, nonce, ct) \<Rightarrow>
          if (case expected_seq of None \<Rightarrow> False | Some q \<Rightarrow> q \<le> last_seq s) then (Inl ReplayError, s)
          else (case catch_up P e s of
             (Inl x, s1) \<Rightarrow> (Inl x, s1)
           | (Inr _, s1) \<Rightarrow>
               (case rbind (pack_H e) (\<lambda>eb. sym_decrypt P ct nonce (l_key s1) (Some (frame_ad s1 eb metadata))) of
                  Inl x \<Rightarrow> (Inl x, s1)
                | Inr m \<Rightarrow>
                    let s2 = (case expected_seq of None \<Rightarrow> s1 | Some q \<Rightarrow> s1\<lparr>last_seq := q\<rparr>)
                    in (case count_frame P s2 of
                          (Inl x, s3) \<Rightarrow> (Inl x, s3) | (Inr _, s3) \<Rightarrow> (Inr (m, metadata), s3)))))"

definition extract_metadata :: "bytes \<Rightarrow> bytes res" where
  "extract_metadata raw =
     guard (2 \<le> length raw) ValueError
      (let m = be_nat (take 2 raw) in guard (2 + m \<le> length raw) ValueError (Inr (take m (drop 2 raw))))"

section \<open>Voice frames\<close>

record voice_params =
  v_codec :: string
  v_sample_rate :: int
  v_channels :: int
  v_sequence :: int
  v_is_muted :: bool

definition voice_metadata :: "voice_params \<Rightarrow> bytes \<Rightarrow> dict" where
  "voice_metadata v metadata =
     [(''type'', PStr ''voice''), (''codec'', PStr (v_codec v)), (''sample_rate'', PInt (v_sample_rate v)),
      (''channels'', PInt (v_channels v)), (''sequence'', PInt (v_sequence v)), (''is_muted'', PBool (v_is_muted v))] @
     (if metadata = [] then [] else [(''extra'', PStr (hex metadata))])"

definition encrypt_voice_frame :: "prims \<Rightarrow> pylib \<Rightarrow> bytes \<Rightarrow> bytes \<Rightarrow> voice_params \<Rightarrow> bytes \<Rightarrow> live \<Rightarrow>
    bytes res \<times> live" where
  "encrypt_voice_frame P L urandom frame v metadata s =
     encrypt_frame P urandom frame (utf8 (dumps (float_repr L) True (PDict (voice_metadata v metadata)))) s"

text \<open>The metadata handed to the caller: the parsed JSON value, with the decoded extra bytes when
  there are some, or the raw bytes.\<close>

datatype voice_meta = RawMeta bytes | JsonMeta pyval "bytes option"

definition read_voice_meta :: "bytes \<Rightarrow> voice_meta" where
  \<comment> \<open>any exception on the way gives the raw bytes\<close>
  "read_voice_meta raw =
     (case loads_bytes raw of
        Inl _ \<Rightarrow> RawMeta raw
      | Inr v \<Rightarrow>
          (case v of
             PDict d \<Rightarrow>
               (case dget d ''extra'' of
                  PStr s \<Rightarrow> (case fromhex s of None \<Rightarrow> RawMeta raw | Some b \<Rightarrow> JsonMeta v (Some b))
                | _ \<Rightarrow> JsonMeta v None)
           | PList xs \<Rightarrow> if PStr ''extra'' \<in> set xs then RawMeta raw else JsonMeta v None
           | PStr s \<Rightarrow> if contains_text ''extra'' s then RawMeta raw else JsonMeta v None
           | _ \<Rightarrow> RawMeta raw))"

definition decrypt_voice_frame :: "prims \<Rightarrow> bytes \<Rightarrow> live \<Rightarrow> (bytes \<times> voice_meta) res \<times> live" where
  "decrypt_voice_frame P raw s =
     (case decrypt_frame P raw None s of
        (Inl e, s') \<Rightarrow> (Inl e, s')
      | (Inr (m, meta), s') \<Rightarrow> (Inr (m, read_voice_meta meta), s'))"

record live_voice = live +
  lv_codec :: string
  lv_sample_rate :: int
  lv_channels :: int
  lv_sequence :: int
  lv_is_muted :: bool

definition live_voice_new :: "bytes \<Rightarrow> bytes \<Rightarrow> bytes option \<Rightarrow> sid_arg \<Rightarrow> string \<Rightarrow> int \<Rightarrow> int \<Rightarrow> live_voice res" where
  "live_voice_new rnd_key rnd_sid key sid codec sample_rate channels =
     rbind (live_new rnd_key rnd_sid key sid) (\<lambda>s.
     Inr (live.extend s \<lparr>lv_codec = codec, lv_sample_rate = sample_rate, lv_channels = channels,
                         lv_sequence = 0, lv_is_muted = False\<rparr>))"

definition mute :: "live_voice \<Rightarrow> live_voice" where "mute s = s\<lparr>lv_is_muted := True\<rparr>"

definition unmute :: "live_voice \<Rightarrow> live_voice" where "unmute s = s\<lparr>lv_is_muted := False\<rparr>"

definition next_sequence :: "live_voice \<Rightarrow> int \<times> live_voice" where
  "next_sequence s = (let n = lv_sequence s + 1 in (n, s\<lparr>lv_sequence := n\<rparr>))"

definition voice_encrypt :: "prims \<Rightarrow> pylib \<Rightarrow> bytes \<Rightarrow> bytes \<Rightarrow> string option \<Rightarrow> int option \<Rightarrow> int option \<Rightarrow> int option \<Rightarrow>
    bool option \<Rightarrow> bytes \<Rightarrow> live_voice \<Rightarrow> bytes res \<times> live_voice" where
  \<comment> \<open>\<open>LiveVoiceSession.encrypt_voice_frame\<close>: missing, empty or zero arguments mean the session's\<close>
  "voice_encrypt P L urandom frame codec sample_rate channels sequence is_muted metadata s0 =
     (let (q, s) = (case sequence of Some q \<Rightarrow> (q, s0) | None \<Rightarrow> next_sequence s0);
          v = \<lparr>v_codec = (case codec of Some c \<Rightarrow> if c = [] then lv_codec s else c | None \<Rightarrow> lv_codec s),
               v_sample_rate = (case sample_rate of Some r \<Rightarrow> if r = 0 then lv_sample_rate s else r
                                | None \<Rightarrow> lv_sample_rate s),
               v_channels = (case channels of Some c \<Rightarrow> if c = 0 then lv_channels s else c | None \<Rightarrow> lv_channels s),
               v_sequence = q,
               v_is_muted = (case is_muted of Some m \<Rightarrow> m | None \<Rightarrow> lv_is_muted s)\<rparr>
      in case encrypt_voice_frame P L urandom frame v metadata (live.truncate s) of
           (r, s') \<Rightarrow> (r, live.extend s' (live_voice.fields (lv_codec s) (lv_sample_rate s) (lv_channels s)
                          (lv_sequence s) (lv_is_muted s))))"

section \<open>Lemmas: the ratchet\<close>

definition ratcheted :: "prims \<Rightarrow> bytes \<Rightarrow> bytes" where
  \<comment> \<open>the next key, when the derivation succeeds\<close>
  "ratcheted P k = (case derive_key P k 32 None (utf8 ''UXSP-live-ratchet'') of Inr k' \<Rightarrow> k' | Inl _ \<Rightarrow> k)"

lemma ratchet_key_eq:
  assumes "hkdf_laws P"
  shows "ratchet_key P s = (Inr (), s\<lparr>l_key := ratcheted P (l_key s), frame_count := 0, epoch := epoch s + 1\<rparr>)"
    and "length (ratcheted P k) = KEY_SIZE"
proof -
  have *: "\<exists>k'. derive_key P k 32 None (utf8 ''UXSP-live-ratchet'') = Inr k' \<and> length k' = 32" for k
    by (rule hkdf_lawsE [OF assms, of 32 None "utf8 ''UXSP-live-ratchet''" k]) (auto simp: derive_key_def)
  from * [of "l_key s"] show "ratchet_key P s = (Inr (), s\<lparr>l_key := ratcheted P (l_key s), frame_count := 0, epoch := epoch s + 1\<rparr>)"
    by (auto simp: ratchet_key_def ratcheted_def)
  from * [of k] show "length (ratcheted P k) = KEY_SIZE"
    by (auto simp: ratcheted_def KEY_SIZE_def)
qed

lemma catch_up_eq:
  "hkdf_laws P \<Longrightarrow> catch_up P e s = (Inr (), if epoch s < e
     then s\<lparr>l_key := (ratcheted P ^^ nat (e - epoch s)) (l_key s), frame_count := 0, epoch := e\<rparr> else s)"
proof (induction P e s rule: catch_up.induct)
  case (1 P e s)
  let ?t = "s\<lparr>l_key := ratcheted P (l_key s), frame_count := 0, epoch := epoch s + 1\<rparr>"
  show ?case
  proof (cases "epoch s < e")
    case True
    have 2: "catch_up P e ?t = (Inr (), if epoch ?t < e
       then ?t\<lparr>l_key := (ratcheted P ^^ nat (e - epoch ?t)) (l_key ?t), frame_count := 0, epoch := e\<rparr> else ?t)"
      by (rule 1(1) [OF True ratchet_key_eq(1) [OF 1(2), symmetric] _ 1(2)]) simp
    have n: "nat (e - epoch s) = Suc (nat (e - (1 + epoch s)))" using True by simp
    have "catch_up P e s = catch_up P e ?t"
      by (subst catch_up.simps) (simp add: True ratchet_key_eq(1) [OF 1(2)])
    then show ?thesis
      using True by (auto simp: 2 [simplified, unfolded add.commute [of "epoch s"]] n funpow_swap1 add.commute)
  qed (subst catch_up.simps, simp)
qed

section \<open>Lemmas: linked sessions\<close>

text \<open>A sender and a receiver that started from the same key: the receiver is some ratchets
  behind, or level and not ahead in the count of frames.\<close>

definition linked :: "prims \<Rightarrow> live \<Rightarrow> live \<Rightarrow> bool" where
  "linked P a b \<longleftrightarrow> l_sid a = l_sid b \<and> length (l_key a) = KEY_SIZE \<and> 0 \<le> epoch b \<and> epoch b \<le> epoch a \<and>
     l_key a = (ratcheted P ^^ nat (epoch a - epoch b)) (l_key b) \<and>
     0 \<le> frame_count b \<and> 0 \<le> frame_count a \<and> frame_count a < FRAMES_PER_KEY \<and> frame_count b < FRAMES_PER_KEY \<and>
     (epoch a = epoch b \<longrightarrow> frame_count b \<le> frame_count a)"

lemma count_frame_eq:
  assumes "hkdf_laws P"
  shows "count_frame P s = (Inr (), if frame_count s + 1 < FRAMES_PER_KEY then s\<lparr>frame_count := frame_count s + 1\<rparr>
     else s\<lparr>l_key := ratcheted P (l_key s), frame_count := 0, epoch := epoch s + 1\<rparr>)"
  by (simp add: count_frame_def ratchet_key_eq(1) [OF assms])

lemma linked_sent:
  assumes "hkdf_laws P" and "linked P a b"
  shows "linked P (snd (count_frame P a)) b"
proof -
  have n: "nat (epoch a + 1 - epoch b) = Suc (nat (epoch a - epoch b))"
    using assms(2) unfolding linked_def by linarith
  then show ?thesis
    using assms by (auto simp: linked_def count_frame_eq ratchet_key_eq(2) FRAMES_PER_KEY_def)
qed

lemma linked_caught_up:
  assumes "hkdf_laws P" and "linked P a b" and "catch_up P (epoch a) b = (r, b1)"
  shows "r = Inr () \<and> epoch b1 = epoch a \<and> l_key b1 = l_key a \<and> l_sid b1 = l_sid a \<and> last_seq b1 = last_seq b \<and>
    0 \<le> frame_count b1 \<and> frame_count b1 \<le> frame_count a"
  using assms by (auto simp: catch_up_eq linked_def split: if_splits)

lemma linked_level:
  assumes "hkdf_laws P" and "epoch b = epoch a" and "l_key b = l_key a" and "l_sid b = l_sid a"
    and "0 \<le> frame_count b" and "frame_count b \<le> frame_count a" and "frame_count a < FRAMES_PER_KEY"
    and "length (l_key a) = KEY_SIZE" and "0 \<le> epoch a"
  shows "linked P (snd (count_frame P a)) (snd (count_frame P b))"
  using assms by (auto simp: linked_def count_frame_eq ratchet_key_eq(2) FRAMES_PER_KEY_def)

lemma be_nat_pack [simp]: "n < 65536 \<Longrightarrow> be_nat (be_bytes 2 n) = n"
  by (rule be_nat_be_bytes) simp

lemma parse_frame_packed:
  assumes "length metadata \<le> 65535" and "0 \<le> e" and "e < 65536" and "length nonce = NONCE_SIZE"
  shows "parse_frame (be_bytes 2 (length metadata) @ metadata @ be_bytes 2 (nat e) @ nonce @ ct) = Inr (metadata, e, nonce, ct)"
  using assms by (simp add: parse_frame_def Let_def guard_def)

lemma encrypt_frame_eq:
  assumes "hkdf_laws P" and "length (l_key a) = KEY_SIZE" and "0 \<le> epoch a" and "epoch a < 65536" and "length metadata \<le> 65535"
  shows "encrypt_frame P nonce frame metadata a =
    (Inr (be_bytes 2 (length metadata) @ metadata @ be_bytes 2 (nat (epoch a)) @ nonce @
          aesgcm_encrypt P (l_key a) nonce frame (Some (frame_ad a (be_bytes 2 (nat (epoch a))) metadata))),
     snd (count_frame P a))"
  using assms by (simp add: encrypt_frame_def pack_H_def guard_def count_frame_eq)

lemma decrypt_linked:
  assumes "aead_laws P" and "hkdf_laws P" and "linked P a b" and "epoch a < 65536" and "length metadata \<le> 65535"
    and "length nonce = NONCE_SIZE" and "case q of None \<Rightarrow> True | Some n \<Rightarrow> last_seq b < n"
    and "encrypt_frame P nonce frame metadata a = (r, a')"
  shows "\<exists>raw b'. r = Inr raw \<and> decrypt_frame P raw q b = (Inr (frame, metadata), b') \<and> linked P a' b' \<and>
    last_seq b' = (case q of None \<Rightarrow> last_seq b | Some n \<Rightarrow> n)"
proof -
  let ?ct = "aesgcm_encrypt P (l_key a) nonce frame (Some (frame_ad a (be_bytes 2 (nat (epoch a))) metadata))"
  let ?raw = "be_bytes 2 (length metadata) @ metadata @ be_bytes 2 (nat (epoch a)) @ nonce @ ?ct"
  have k: "length (l_key a) = KEY_SIZE" and e: "0 \<le> epoch a" and f: "frame_count a < FRAMES_PER_KEY"
    using assms(3) by (auto simp: linked_def)
  have r: "r = Inr ?raw" "a' = snd (count_frame P a)"
    using assms(8) encrypt_frame_eq [OF assms(2) k e assms(4,5)] by auto
  obtain b1 where b1: "catch_up P (epoch a) b = (Inr (), b1)"
    using catch_up_eq [OF assms(2)] by blast
  have c: "epoch b1 = epoch a" "l_key b1 = l_key a" "l_sid b1 = l_sid a" "last_seq b1 = last_seq b"
    "0 \<le> frame_count b1" "frame_count b1 \<le> frame_count a"
    using linked_caught_up [OF assms(2,3) b1] by auto
  define b2 where "b2 = (case q of None \<Rightarrow> b1 | Some n \<Rightarrow> b1\<lparr>last_seq := n\<rparr>)"
  have p: "parse_frame ?raw = Inr (metadata, epoch a, nonce, ?ct)"
    by (rule parse_frame_packed [OF assms(5) e assms(4,6)])
  have d: "sym_decrypt P ?ct nonce (l_key b1) (Some (frame_ad b1 (be_bytes 2 (nat (epoch a))) metadata)) = Inr frame"
    using assms(1,6) k by (simp add: sym_decrypt_def frame_ad_def c aead_lawsD)
  have q: "\<not> (case q of None \<Rightarrow> False | Some n \<Rightarrow> n \<le> last_seq b)"
    using assms(7) by (cases q) auto
  have "decrypt_frame P ?raw q b = (Inr (frame, metadata), snd (count_frame P b2))"
    using e assms(4) q d
    by (simp add: decrypt_frame_def p b1 pack_H_def guard_def b2_def [symmetric] count_frame_eq [OF assms(2)])
  moreover have "linked P a' (snd (count_frame P b2))"
    unfolding r(2) by (rule linked_level) (use assms(2) c k e f in \<open>auto simp: b2_def split: option.splits\<close>)
  moreover have "last_seq (snd (count_frame P b2)) = (case q of None \<Rightarrow> last_seq b | Some n \<Rightarrow> n)"
    using c(4) by (cases q) (auto simp: b2_def count_frame_eq [OF assms(2)])
  ultimately show ?thesis using r(1) by blast
qed

section \<open>Streams\<close>

text \<open>One frame of a stream: its random nonce, contents, metadata, and whether it is lost or handed
  to the receiver, with the sequence number that the receiver expects.\<close>

datatype delivery = Lost | Delivered "int option"

type_synonym frame_item = "bytes \<times> bytes \<times> bytes \<times> delivery"

fun live_stream :: "prims \<Rightarrow> frame_item list \<Rightarrow> live \<Rightarrow> live \<Rightarrow> (bytes \<times> bytes) res list" where
  \<comment> \<open>what the sender's failures and the receiver's calls return\<close>
  "live_stream P [] a b = []"
| "live_stream P ((nonce, frame, metadata, v) # fs) a b =
     (case encrypt_frame P nonce frame metadata a of
        (Inl e, a') \<Rightarrow> Inl e # live_stream P fs a' b
      | (Inr raw, a') \<Rightarrow>
          (case v of
             Lost \<Rightarrow> live_stream P fs a' b
           | Delivered q \<Rightarrow> (case decrypt_frame P raw q b of (r, b') \<Rightarrow> r # live_stream P fs a' b')))"

definition delivered :: "frame_item list \<Rightarrow> (bytes \<times> bytes) list" where
  "delivered fs = concat (map (\<lambda>(n, m, md, v). case v of Lost \<Rightarrow> [] | Delivered q \<Rightarrow> [(m, md)]) fs)"

definition expected_seqs :: "frame_item list \<Rightarrow> int list" where
  "expected_seqs fs = concat (map (\<lambda>(n, m, md, v). case v of Delivered (Some q) \<Rightarrow> [q] | _ \<Rightarrow> []) fs)"

definition well_formed_items :: "frame_item list \<Rightarrow> bool" where
  "well_formed_items fs \<longleftrightarrow> (\<forall>(n, m, md, v) \<in> set fs. length n = 12 \<and> length md \<le> 65535)"

definition sent_frames :: "live \<Rightarrow> int" where
  "sent_frames a = epoch a * 65536 + frame_count a"

lemma sent_frames_count:
  assumes "hkdf_laws P" and "frame_count a < FRAMES_PER_KEY" 
  shows "sent_frames (snd (count_frame P a)) = sent_frames a + 1"
  using assms by (auto simp: count_frame_eq sent_frames_def FRAMES_PER_KEY_def)

lemma live_stream_linked:
  "aead_laws P \<Longrightarrow> hkdf_laws P \<Longrightarrow> linked P a b \<Longrightarrow> well_formed_items fs \<Longrightarrow>
   sent_frames a + int (length fs) \<le> 65536 * 65536 \<Longrightarrow> sorted_wrt (<) (last_seq b # expected_seqs fs) \<Longrightarrow>
   live_stream P fs a b = map Inr (delivered fs)"
proof (induction fs arbitrary: a b)
  case Nil
  then show ?case by (simp add: delivered_def)
next
  case (Cons f fs)
  obtain nonce frame metadata v where f: "f = (nonce, frame, metadata, v)" by (cases f)
  have w: "length nonce = NONCE_SIZE" "length metadata \<le> 65535" "well_formed_items fs"
    using Cons.prems(4) by (auto simp: well_formed_items_def f NONCE_SIZE_def)
  have a: "length (l_key a) = KEY_SIZE" "0 \<le> epoch a" "0 \<le> frame_count a" "frame_count a < FRAMES_PER_KEY"
    using Cons.prems(3) by (auto simp: linked_def)
  have e: "epoch a < 65536"
    using Cons.prems(5) a(3) by (simp add: sent_frames_def)
  let ?a = "snd (count_frame P a)"
  have s: "sent_frames ?a + int (length fs) \<le> 65536 * 65536"
    using Cons.prems(5) by (simp add: sent_frames_count [OF Cons.prems(2) a(4)])
  obtain raw where r: "encrypt_frame P nonce frame metadata a = (Inr raw, ?a)"
    using encrypt_frame_eq [OF Cons.prems(2) a(1,2) e w(2)] by blast
  show ?case
  proof (cases v)
    case Lost
    have "live_stream P fs ?a b = map Inr (delivered fs)"
      by (rule Cons.IH [OF Cons.prems(1,2) linked_sent [OF Cons.prems(2,3)] w(3) s])
        (use Cons.prems(6) in \<open>simp add: expected_seqs_def f Lost\<close>)
    then show ?thesis by (simp add: f Lost r delivered_def)
  next
    case (Delivered q)
    have q: "case q of None \<Rightarrow> True | Some n \<Rightarrow> last_seq b < n"
      using Cons.prems(6) by (cases q) (simp_all add: expected_seqs_def f Delivered)
    obtain b' where b': "decrypt_frame P raw q b = (Inr (frame, metadata), b')" "linked P ?a b'"
        "last_seq b' = (case q of None \<Rightarrow> last_seq b | Some n \<Rightarrow> n)"
      using decrypt_linked [OF Cons.prems(1-3) e w(2,1) q r] by auto
    have "live_stream P fs ?a b' = map Inr (delivered fs)"
      by (rule Cons.IH [OF Cons.prems(1,2) b'(2) w(3) s])
        (use Cons.prems(6) b'(3) in \<open>cases q; simp add: expected_seqs_def f Delivered\<close>)
    then show ?thesis by (simp add: f Delivered r b'(1) delivered_def)
  qed
qed

lemma decrypt_rejected:
  assumes "hkdf_laws P" and "0 \<le> e" and "e < 65536" and "length metadata \<le> 65535" and "length nonce = NONCE_SIZE"
    and "catch_up P e b = (Inr (), b1)" and "length (l_key b1) = KEY_SIZE"
    and "aesgcm_decrypt P (l_key b1) nonce ct (Some (frame_ad b1 (be_bytes 2 (nat e)) metadata)) = Inl InvalidTag"
  shows "decrypt_frame P (be_bytes 2 (length metadata) @ metadata @ be_bytes 2 (nat e) @ nonce @ ct) None b = (Inl ValueError, b1)"
  using assms
  by (simp add: decrypt_frame_def parse_frame_packed pack_H_def guard_def sym_decrypt_def)

section \<open>Properties\<close>

text \<open>C38: Of a stream of fewer than 2 to the 32 frames between two sessions with the same
  key and id, the receiver decrypts every frame that arrives to its contents and metadata, whichever
  frames are lost on the way and across all ratchets of the key, as long as the sequence numbers it
  expects increase.\<close>

theorem live_stream_delivers:
  assumes "aead_laws P" and "hkdf_laws P"
    and "live_new rk rs (Some key) (SidBytes sid) = Inr a" and "live_new rk' rs' (Some key) (SidBytes sid) = Inr b"
    and "well_formed_items fs" and "length fs \<le> 65536 * 65536"
    and "sorted_wrt (<) (-1 # expected_seqs fs)"
  shows "live_stream P fs a b = map Inr (delivered fs)"
  by (rule live_stream_linked [OF assms(1,2) _ assms(5)])
    (use assms(3,4,6,7) in \<open>auto simp: live_new_def guard_Inr_iff linked_def sent_frames_def FRAMES_PER_KEY_def\<close>)

definition demo_items :: "frame_item list" where
  "demo_items = [(replicate 12 1, [1, 2], [9], Delivered (Some 0)), (replicate 12 2, [3], [], Lost),
     (replicate 12 3, [4], [8, 7], Delivered (Some 2))]"

definition demo_live :: live where
  "demo_live = \<lparr>l_key = replicate 32 1, l_sid = [5], frame_count = 0, last_seq = -1, epoch = 0\<rparr>"

lemma demo_live_new: "live_new rk rs (Some (replicate 32 1)) (SidBytes [5]) = Inr demo_live"
  by (simp add: live_new_def demo_live_def guard_def KEY_SIZE_def)

theorem live_stream_delivers_witness:
  "live_stream demo_prims demo_items demo_live demo_live = [Inr ([1, 2], [9]), Inr ([4], [8, 7])]"
  using live_stream_delivers [OF demo_aead demo_hkdf demo_live_new demo_live_new, of demo_items]
  by (simp add: demo_items_def well_formed_items_def expected_seqs_def delivered_def)

text \<open>A frame made without the key whose header announces a later epoch is refused, but
  it moves the receiver to that epoch and its key for good; a genuine frame of the sender's own epoch is then
  refused too.\<close>

theorem live_forged_epoch:
  assumes "hkdf_laws P" and "0 \<le> epoch a" and "epoch a < e" and "epoch b < e" and "e < 65536"
    and "length md \<le> 65535" and "length n = 12" and "length md' \<le> 65535" and "length n' = 12"
    and "length (l_key a) = 32" and "l_sid a = l_sid b"
    and "aesgcm_decrypt P ((ratcheted P ^^ nat (e - epoch b)) (l_key b)) n ct
           (Some (frame_ad b (be_bytes 2 (nat e)) md)) = Inl InvalidTag"
    and "\<And>ad. aesgcm_decrypt P ((ratcheted P ^^ nat (e - epoch b)) (l_key b)) n'
           (aesgcm_encrypt P (l_key a) n' frame (Some ad)) (Some ad) = Inl InvalidTag"
  shows "\<exists>b' raw a'. decrypt_frame P (be_bytes 2 (length md) @ md @ be_bytes 2 (nat e) @ n @ ct) None b = (Inl ValueError, b') \<and>
     epoch b' = e \<and> encrypt_frame P n' frame md' a = (Inr raw, a') \<and>
     decrypt_frame P raw None b' = (Inl ValueError, b')"
proof -
  obtain m where m: "nat (e - epoch b) = Suc m" using assms(4) by (metis diff_gt_0_iff_gt gr0_implies_Suc zero_less_nat_eq)
  let ?b = "b\<lparr>l_key := (ratcheted P ^^ nat (e - epoch b)) (l_key b), frame_count := 0, epoch := e\<rparr>"
  have k: "length (l_key ?b) = KEY_SIZE" by (simp add: m ratchet_key_eq(2) [OF assms(1)])
  have c: "catch_up P e b = (Inr (), ?b)" "catch_up P (epoch a) ?b = (Inr (), ?b)"
    using assms(3,4) by (simp_all add: catch_up_eq [OF assms(1)])
  have f: "decrypt_frame P (be_bytes 2 (length md) @ md @ be_bytes 2 (nat e) @ n @ ct) None b = (Inl ValueError, ?b)"
    by (rule decrypt_rejected [OF assms(1) _ assms(5,6) _ c(1) k])
      (use assms in \<open>auto simp: NONCE_SIZE_def frame_ad_def\<close>)
  have g: "encrypt_frame P n' frame md' a = (Inr (be_bytes 2 (length md') @ md' @ be_bytes 2 (nat (epoch a)) @ n' @
      aesgcm_encrypt P (l_key a) n' frame (Some (frame_ad a (be_bytes 2 (nat (epoch a))) md'))), snd (count_frame P a))"
    by (rule encrypt_frame_eq) (use assms in \<open>auto simp: KEY_SIZE_def\<close>)
  have "decrypt_frame P (be_bytes 2 (length md') @ md' @ be_bytes 2 (nat (epoch a)) @ n' @
      aesgcm_encrypt P (l_key a) n' frame (Some (frame_ad a (be_bytes 2 (nat (epoch a))) md'))) None ?b = (Inl ValueError, ?b)"
    by (rule decrypt_rejected [OF assms(1,2) _ assms(8) _ c(2) k])
      (use assms in \<open>auto simp: NONCE_SIZE_def frame_ad_def\<close>)
  with f g show ?thesis by (intro exI conjI) auto
qed

lemma demo_other_key:
  "length K = length k \<Longrightarrow> K \<noteq> k \<Longrightarrow> aesgcm_decrypt demo_prims K n (aesgcm_encrypt demo_prims k n m a) a = Inl InvalidTag"
  by (simp add: demo_prims_def demo_tag_def Let_def)

lemma demo_ratcheted: "hd (ratcheted demo_prims k) = 116" "length (ratcheted demo_prims k) = 32"
  by (simp_all add: ratcheted_def derive_key_def demo_prims_def pad_to_def guard_def byte_of_def Let_def)

theorem live_forged_epoch_witness:
  "\<exists>b' raw a'. decrypt_frame demo_prims (be_bytes 2 (length ([] :: bytes)) @ [] @ be_bytes 2 (nat 1) @ replicate 12 0 @ []) None demo_live
       = (Inl ValueError, b') \<and> epoch b' = 1 \<and> encrypt_frame demo_prims (replicate 12 3) [4] [] demo_live = (Inr raw, a') \<and>
     decrypt_frame demo_prims raw None b' = (Inl ValueError, b')"
proof (rule live_forged_epoch)
  have r: "(ratcheted demo_prims ^^ nat (1 - epoch demo_live)) (l_key demo_live) = ratcheted demo_prims (replicate 32 1)"
    by (simp add: demo_live_def)
  show "aesgcm_decrypt demo_prims ((ratcheted demo_prims ^^ nat (1 - epoch demo_live)) (l_key demo_live)) (replicate 12 0) []
      (Some (frame_ad demo_live (be_bytes 2 (nat 1)) [])) = Inl InvalidTag"
    by (simp add: demo_prims_def demo_tag_def Let_def)
  have "ratcheted demo_prims (replicate 32 1) \<noteq> replicate 32 1"
    using demo_ratcheted [of "replicate 32 1"] by (auto dest: arg_cong [where f = hd])
  then show "aesgcm_decrypt demo_prims ((ratcheted demo_prims ^^ nat (1 - epoch demo_live)) (l_key demo_live)) (replicate 12 3)
      (aesgcm_encrypt demo_prims (l_key demo_live) (replicate 12 3) [4] (Some ad)) (Some ad) = Inl InvalidTag" for ad
    unfolding r by (intro demo_other_key) (auto simp: demo_live_def demo_ratcheted)
qed (simp_all add: demo_hkdf demo_live_def)

end
