(* ===== verification/SecureTypes.thy ===== *)
theory SecureTypes
  imports SecureGuarantees Live
begin

text \<open>
  The typed front end of \<open>uxsp/secure\<close>: \<open>types/*.py\<close> and \<open>_types.py\<close> (texts, HTML, contacts,
  locations, JSON, binary data and files), \<open>_dispatch.py\<close> (\<open>Send\<close> and \<open>Receive\<close>), \<open>_stream.py\<close>
  and \<open>_live.py\<close>. The world is the context with the file system. An argument a caller may
  give in several types is an \<open>item\<close>. MIME guessing and text codecs are arguments, as in
  \<open>Payload\<close>; the rounding of floats is not modelled. The lemmas show round trips, what an
  intermediary can do to a stream, and where received files are written.
\<close>

section \<open>Arguments\<close>

record send_args =
  a_receiver_id :: "peer option"
  a_receiver :: "peer option"
  a_sender_identity :: "identity option"
  a_sender :: "identity option"
  a_output_file :: "string option"
  a_metadata :: "dict option"

record receive_args =
  b_sender_id :: "peer option"
  b_sender :: "peer option"
  b_sender_card :: "peer option"
  b_receiver_identity :: "identity option"
  b_receiver :: "identity option"
  b_package :: package_input
  b_download :: "string option"

datatype item = ItemStr string | ItemPath string | ItemBytes bytes | ItemJson pyval | ItemOther
  \<comment> \<open>\<open>ItemJson\<close>: a dictionary or list\<close>

type_synonym ('k, 'n) world = "('k, 'n) ctx \<times> files"

definition send_with :: "prims \<Rightarrow> pylib \<Rightarrow> fresh_identity \<Rightarrow> send_random \<Rightarrow> send_args \<Rightarrow> bytes \<Rightarrow> string \<Rightarrow>
    ('k, 'n) world \<Rightarrow> package res \<times> ('k, 'n) world" where
  "send_with P L F R a payload data_type =
     secure_send_payload P L F R (a_receiver_id a) (a_receiver a) (a_sender_identity a) (a_sender a) payload data_type
       (a_output_file a) (a_metadata a)"

definition receive_with :: "prims \<Rightarrow> pylib \<Rightarrow> fresh_identity \<Rightarrow> (nat \<Rightarrow> time) \<Rightarrow> receive_args \<Rightarrow> string option \<Rightarrow>
    ('k, 'n) world \<Rightarrow> bytes res \<times> ('k, 'n) world" where
  "receive_with P L F t b expected_type = (\<lambda>(x, fs).
     case secure_receive_payload P L F t fs (b_sender_id b) (b_package b) expected_type (b_receiver_identity b)
       (b_receiver b) (b_sender b) (b_sender_card b) x of (r, x') \<Rightarrow> (r, x', fs))"

definition send_packed :: "prims \<Rightarrow> pylib \<Rightarrow> fresh_identity \<Rightarrow> send_random \<Rightarrow> send_args \<Rightarrow> bytes res \<Rightarrow> string \<Rightarrow>
    ('k, 'n) world \<Rightarrow> package res \<times> ('k, 'n) world" where
  \<comment> \<open>the end of every typed sender\<close>
  "send_packed P L F R a packed data_type w =
     (case packed of Inl e \<Rightarrow> (Inl e, w) | Inr b \<Rightarrow> send_with P L F R a b data_type w)"

definition after_receive :: "prims \<Rightarrow> pylib \<Rightarrow> fresh_identity \<Rightarrow> (nat \<Rightarrow> time) \<Rightarrow> receive_args \<Rightarrow> string \<Rightarrow>
    (bytes \<Rightarrow> 'a res) \<Rightarrow> ('k, 'n) world \<Rightarrow> 'a res \<times> ('k, 'n) world" where
  \<comment> \<open>the start of every typed receiver: the payload, then its interpretation\<close>
  "after_receive P L F t b expected_type f w =
     and_then (receive_with P L F t b (Some expected_type) w) (\<lambda>raw w1. (f raw, w1))"

section \<open>Where downloads go\<close>

definition path_join :: "string \<Rightarrow> string \<Rightarrow> string" where
  \<comment> \<open>\<open>Path(a) / b\<close>: an absolute \<open>b\<close> replaces \<open>a\<close>\<close>
  "path_join a b = (if starts_with ''/'' b then b
     else if a = [] then b else if last a = CHR ''/'' then a @ b else a @ ''/'' @ b)"

definition path_suffix :: "string \<Rightarrow> string" where
  \<comment> \<open>\<open>Path(s).suffix\<close>: from the last dot of the name, which is neither its first nor its last character\<close>
  "path_suffix s =
     (let n = path_name s; ext = takeWhile (\<lambda>c. c \<noteq> CHR ''.'') (rev n)
      in if length ext + 1 < length n \<and> ext \<noteq> [] then CHR ''.'' # rev ext else [])"

definition ends_with_slash :: "string \<Rightarrow> bool" where
  "ends_with_slash s \<longleftrightarrow> s \<noteq> [] \<and> (last s = CHR ''/'' \<or> last s = CHR 0x5C)"

definition resolve_download_target :: "(string \<Rightarrow> bool) \<Rightarrow> string option \<Rightarrow> string \<Rightarrow> ('k, 'n) ctx \<Rightarrow> string" where
  \<comment> \<open>the first argument: which paths are directories; making directories is left out\<close>
  "resolve_download_target is_dir download_path default_filename x =
     (case download_path of
        None \<Rightarrow> path_join (x_output_dir x) default_filename
      | Some p \<Rightarrow>
          if is_dir p \<or> path_suffix p = [] \<or> ends_with_slash p then path_join p default_filename else p)"

definition save_download :: "(string \<Rightarrow> bool) \<Rightarrow> string option \<Rightarrow> string \<Rightarrow> bytes \<Rightarrow> ('k, 'n) world \<Rightarrow> string res \<times> ('k, 'n) world" where
  "save_download is_dir download_path default_filename data = (\<lambda>(x, fs).
     let target = resolve_download_target is_dir download_path default_filename x
     in (Inr target, x, fs(target \<mapsto> data)))"

definition keep_copy :: "(string \<Rightarrow> bool) \<Rightarrow> string option \<Rightarrow> string \<Rightarrow> bytes \<Rightarrow> ('k, 'n) world \<Rightarrow> ('k, 'n) world" where
  \<comment> \<open>\<open>if download_path is not None\<close>\<close>
  "keep_copy is_dir download_path default_filename data w =
     (case download_path of None \<Rightarrow> w | Some p \<Rightarrow> snd (save_download is_dir (Some p) default_filename data w))"

definition named :: "string option \<Rightarrow> string \<Rightarrow> string" where
  \<comment> \<open>\<open>payload.filename or default\<close>\<close>
  "named fname dflt = (case fname of None \<Rightarrow> dflt | Some s \<Rightarrow> if s = [] then dflt else s)"

section \<open>Texts\<close>

definition text_payload :: "string \<Rightarrow> string \<Rightarrow> payload" where
  "text_payload ctype txt = \<lparr>p_kind = ''text'', p_body = utf8 txt, p_filename = None,
     p_content_type = ctype, p_encoding = Some ''utf-8''\<rparr>"

definition decode_body :: "codecs \<Rightarrow> payload \<Rightarrow> string res" where
  \<comment> \<open>\<open>payload.body.decode(payload.encoding or "utf-8")\<close>\<close>
  "decode_body C p = decode_with C (named (p_encoding p) ''utf-8'') (p_body p)"

definition decode_utf8 :: "bytes \<Rightarrow> string res" where
  "decode_utf8 b = (case utf8_decode b of None \<Rightarrow> Inl UnicodeDecodeError | Some s \<Rightarrow> Inr s)"

definition send_text :: "prims \<Rightarrow> pylib \<Rightarrow> codecs \<Rightarrow> fresh_identity \<Rightarrow> send_random \<Rightarrow> send_args \<Rightarrow> item \<Rightarrow> string \<Rightarrow>
    ('k, 'n) world \<Rightarrow> package res \<times> ('k, 'n) world" where
  "send_text P L C F R a it encoding w = (case it of
     ItemStr s \<Rightarrow> send_packed P L F R a (pack_text L C s encoding) ''text'' w
   | _ \<Rightarrow> (Inl SecureSendError, w))"

definition receive_text :: "prims \<Rightarrow> pylib \<Rightarrow> codecs \<Rightarrow> (string \<Rightarrow> bool) \<Rightarrow> fresh_identity \<Rightarrow> (nat \<Rightarrow> time) \<Rightarrow>
    receive_args \<Rightarrow> ('k, 'n) world \<Rightarrow> string res \<times> ('k, 'n) world" where
  "receive_text P L C is_dir F t b w =
     and_then (after_receive P L F t b ''text'' (unpack_text C) w) (\<lambda>s w1.
       (Inr s, keep_copy is_dir (b_download b) ''received_text.txt'' (utf8 s) w1))"

definition send_html :: "prims \<Rightarrow> pylib \<Rightarrow> fresh_identity \<Rightarrow> send_random \<Rightarrow> send_args \<Rightarrow> item \<Rightarrow>
    ('k, 'n) world \<Rightarrow> package res \<times> ('k, 'n) world" where
  "send_html P L F R a it w = (case it of
     ItemStr s \<Rightarrow> send_packed P L F R a (payload_to_bytes L (text_payload ''text/html'' s)) ''html'' w
   | _ \<Rightarrow> (Inl SecureSendError, w))"

definition receive_html :: "prims \<Rightarrow> pylib \<Rightarrow> codecs \<Rightarrow> (string \<Rightarrow> bool) \<Rightarrow> fresh_identity \<Rightarrow> (nat \<Rightarrow> time) \<Rightarrow>
    receive_args \<Rightarrow> ('k, 'n) world \<Rightarrow> string res \<times> ('k, 'n) world" where
  "receive_html P L C is_dir F t b w =
     and_then (after_receive P L F t b ''html'' (\<lambda>raw. rbind (payload_from_bytes raw) (decode_body C)) w) (\<lambda>s w1.
       (Inr s, keep_copy is_dir (b_download b) ''received.html'' (utf8 s) w1))"

definition send_contact :: "prims \<Rightarrow> pylib \<Rightarrow> fresh_identity \<Rightarrow> send_random \<Rightarrow> send_args \<Rightarrow> item \<Rightarrow>
    ('k, 'n) world \<Rightarrow> package res \<times> ('k, 'n) world" where
  "send_contact P L F R a it w =
     (let send = (\<lambda>ctype s. send_packed P L F R a (payload_to_bytes L (text_payload ctype s)) ''contact'' w)
      in case it of
           ItemJson (PDict d) \<Rightarrow> send ''application/vnd.uxsp.contact+json'' (dumps (float_repr L) False (PDict d))
         | ItemStr s \<Rightarrow> send (if contains_text ''BEGIN:VCARD'' s then ''text/vcard'' else ''text/plain'') s
         | _ \<Rightarrow> (Inl SecureSendError, w))"

definition receive_contact :: "prims \<Rightarrow> pylib \<Rightarrow> fresh_identity \<Rightarrow> (nat \<Rightarrow> time) \<Rightarrow> receive_args \<Rightarrow>
    ('k, 'n) world \<Rightarrow> pyval res \<times> ('k, 'n) world" where
  "receive_contact P L F t b =
     after_receive P L F t b ''contact'' (\<lambda>raw. rbind (payload_from_bytes raw) (\<lambda>p.
       rbind (decode_utf8 (p_body p)) (\<lambda>s.
       case loads s of Inr v \<Rightarrow> Inr v | Inl e \<Rightarrow> if e = JSONDecodeError then Inr (PStr s) else Inl e)))"

definition send_location :: "prims \<Rightarrow> pylib \<Rightarrow> fresh_identity \<Rightarrow> send_random \<Rightarrow> send_args \<Rightarrow> rat \<Rightarrow> rat \<Rightarrow> string option \<Rightarrow>
    ('k, 'n) world \<Rightarrow> package res \<times> ('k, 'n) world" where
  "send_location P L F R a latitude longitude description w =
     (if \<not> (-90 \<le> latitude \<and> latitude \<le> 90) then (Inl SecureSendError, w)
      else if \<not> (-180 \<le> longitude \<and> longitude \<le> 180) then (Inl SecureSendError, w)
      else send_packed P L F R a (payload_to_bytes L (text_payload ''application/vnd.uxsp.location+json''
         (dumps (float_repr L) False (PDict [(''latitude'', PFloat (Fin latitude)), (''longitude'', PFloat (Fin longitude)),
            (''description'', PStr (named description []))])))) ''location'' w)"

definition receive_location :: "prims \<Rightarrow> pylib \<Rightarrow> fresh_identity \<Rightarrow> (nat \<Rightarrow> time) \<Rightarrow> receive_args \<Rightarrow>
    ('k, 'n) world \<Rightarrow> pyval res \<times> ('k, 'n) world" where
  "receive_location P L F t b =
     after_receive P L F t b ''location'' (\<lambda>raw. rbind (payload_from_bytes raw) (\<lambda>p.
       rbind (decode_utf8 (p_body p)) loads))"

definition receive_json :: "prims \<Rightarrow> pylib \<Rightarrow> codecs \<Rightarrow> (string \<Rightarrow> bool) \<Rightarrow> fresh_identity \<Rightarrow> (nat \<Rightarrow> time) \<Rightarrow>
    receive_args \<Rightarrow> ('k, 'n) world \<Rightarrow> pyval res \<times> ('k, 'n) world" where
  "receive_json P L C is_dir F t b w =
     and_then (after_receive P L F t b ''json'' (\<lambda>raw. rbind (payload_from_bytes raw) (decode_body C)) w) (\<lambda>s w1.
       (loads s, keep_copy is_dir (b_download b) ''received.json'' (utf8 s) w1))"

section \<open>JSON\<close>

text \<open>\<open>json.dumps(data, ensure_ascii=False)\<close>: characters above U+007F stand for themselves.\<close>

definition quote_raw :: "string \<Rightarrow> string" where
  "quote_raw s = CHR 0x22 # concat (map (\<lambda>c. if (of_char c :: nat) < 127 then escape_char c else [c]) s) @ [CHR 0x22]"

fun dumps_raw :: "(rat \<Rightarrow> string) \<Rightarrow> pyval \<Rightarrow> string"
  and dumps_raw_items :: "(rat \<Rightarrow> string) \<Rightarrow> pyval list \<Rightarrow> string"
  and dumps_raw_members :: "(rat \<Rightarrow> string) \<Rightarrow> dict \<Rightarrow> string" where
  "dumps_raw fr (PStr s) = quote_raw s"
| "dumps_raw fr (PList vs) = ''['' @ dumps_raw_items fr vs @ '']''"
| "dumps_raw fr (PDict d) = ''{'' @ dumps_raw_members fr d @ ''}''"
| "dumps_raw fr PNone = dumps fr False PNone"
| "dumps_raw fr (PBool b) = dumps fr False (PBool b)"
| "dumps_raw fr (PInt n) = dumps fr False (PInt n)"
| "dumps_raw fr (PFloat x) = dumps fr False (PFloat x)"
| "dumps_raw_items fr [] = []"
| "dumps_raw_items fr (v # vs) = dumps_raw fr v @ (if vs = [] then [] else '', '' @ dumps_raw_items fr vs)"
| "dumps_raw_members fr [] = []"
| "dumps_raw_members fr ((k, v) # d) =
     quote_raw k @ '': '' @ dumps_raw fr v @ (if d = [] then [] else '', '' @ dumps_raw_members fr d)"

definition send_json :: "prims \<Rightarrow> pylib \<Rightarrow> fresh_identity \<Rightarrow> send_random \<Rightarrow> send_args \<Rightarrow> item \<Rightarrow>
    ('k, 'n) world \<Rightarrow> package res \<times> ('k, 'n) world" where
  "send_json P L F R a it w =
     (let send = (\<lambda>v. send_packed P L F R a (payload_to_bytes L (text_payload ''application/json'' (dumps_raw (float_repr L) v))) ''json'' w)
      in case it of ItemJson v \<Rightarrow> send v | ItemStr s \<Rightarrow> send (PStr s) | _ \<Rightarrow> (Inl SecureSendError, w))"

section \<open>Binary data and files\<close>

definition send_binary :: "prims \<Rightarrow> pylib \<Rightarrow> fresh_identity \<Rightarrow> send_random \<Rightarrow> send_args \<Rightarrow> item \<Rightarrow> string option \<Rightarrow> string \<Rightarrow>
    ('k, 'n) world \<Rightarrow> package res \<times> ('k, 'n) world" where
  "send_binary P L F R a it fname ctype w = (case it of
     ItemBytes d \<Rightarrow> send_packed P L F R a (pack_binary L d fname ctype) ''binary'' w
   | _ \<Rightarrow> (Inl SecureSendError, w))"

definition receive_binary :: "prims \<Rightarrow> pylib \<Rightarrow> (string \<Rightarrow> bool) \<Rightarrow> fresh_identity \<Rightarrow> (nat \<Rightarrow> time) \<Rightarrow> receive_args \<Rightarrow>
    ('k, 'n) world \<Rightarrow> bytes res \<times> ('k, 'n) world" where
  "receive_binary P L is_dir F t b w =
     and_then (after_receive P L F t b ''binary'' payload_from_bytes w) (\<lambda>p w1.
       (Inr (p_body p), keep_copy is_dir (b_download b) (named (p_filename p) ''received.bin'') (p_body p) w1))"

text \<open>A file above 64 MiB, or on request, is streamed: the result is then a generator, which does
  nothing until it is consumed.\<close>

datatype sent = SentPackage package | SentStream string string  \<comment> \<open>path and data type\<close>

definition STREAM_LIMIT :: nat where "STREAM_LIMIT = 64 * 1024 * 1024"

definition should_stream :: "bool option \<Rightarrow> bytes \<Rightarrow> bool" where
  "should_stream stream content = (case stream of Some s \<Rightarrow> s | None \<Rightarrow> STREAM_LIMIT < length content)"

definition package_sent :: "package res \<times> 's \<Rightarrow> sent res \<times> 's" where
  "package_sent r = and_then r (\<lambda>p w. (Inr (SentPackage p), w))"

definition send_path :: "prims \<Rightarrow> pylib \<Rightarrow> (string \<Rightarrow> string option) \<Rightarrow> fresh_identity \<Rightarrow> send_random \<Rightarrow> send_args \<Rightarrow> string \<Rightarrow>
    string \<Rightarrow> string option \<Rightarrow> bool option \<Rightarrow> ('k, 'n) world \<Rightarrow> sent res \<times> ('k, 'n) world" where
  \<comment> \<open>the branch for paths, with the content type for \<open>pack_file\<close>\<close>
  "send_path P L guess F R a path data_type ctype stream w =
     (case snd w path of
        None \<Rightarrow> (Inl SecureSendError, w)
      | Some content \<Rightarrow>
          if should_stream stream content then (Inr (SentStream path data_type), w)
          else package_sent (send_packed P L F R a
            (pack_file L guess path (Some (int (length content), content)) ctype (1024 * 1024 * 1024)) data_type w))"

definition send_file_type :: "prims \<Rightarrow> pylib \<Rightarrow> (string \<Rightarrow> string option) \<Rightarrow> fresh_identity \<Rightarrow> send_random \<Rightarrow> send_args \<Rightarrow> item \<Rightarrow>
    string \<Rightarrow> string \<Rightarrow> string \<Rightarrow> string option \<Rightarrow> bool option \<Rightarrow> ('k, 'n) world \<Rightarrow> sent res \<times> ('k, 'n) world" where
  \<comment> \<open>data type, default file name, default content type, \<open>filename\<close> (ignored for paths), \<open>stream\<close>\<close>
  "send_file_type P L guess F R a it data_type dflt_name dflt_type fname stream w = (case it of
     ItemStr p \<Rightarrow> send_path P L guess F R a p data_type (Some (named (guess p) dflt_type)) stream w
   | ItemPath p \<Rightarrow> send_path P L guess F R a p data_type (Some (named (guess p) dflt_type)) stream w
   | ItemBytes d \<Rightarrow> package_sent (send_packed P L F R a (pack_binary L d (Some (named fname dflt_name)) dflt_type) data_type w)
   | _ \<Rightarrow> (Inl SecureSendError, w))"

definition send_file :: "prims \<Rightarrow> pylib \<Rightarrow> (string \<Rightarrow> string option) \<Rightarrow> fresh_identity \<Rightarrow> send_random \<Rightarrow> send_args \<Rightarrow> item \<Rightarrow>
    string option \<Rightarrow> string option \<Rightarrow> bool option \<Rightarrow> ('k, 'n) world \<Rightarrow> sent res \<times> ('k, 'n) world" where
  "send_file P L guess F R a it fname ctype stream w = (case it of
     ItemBytes d \<Rightarrow> package_sent (send_packed P L F R a (payload_to_bytes L \<lparr>p_kind = ''file'', p_body = d,
         p_filename = Some (named fname ''file.bin''), p_content_type = named ctype ''application/octet-stream'',
         p_encoding = None\<rparr>) ''file'' w)
   | ItemStr p \<Rightarrow> send_path P L guess F R a p ''file'' ctype stream w
   | ItemPath p \<Rightarrow> send_path P L guess F R a p ''file'' ctype stream w
   | _ \<Rightarrow> (Inl SecureSendError, w))"

definition send_voice :: "prims \<Rightarrow> pylib \<Rightarrow> (string \<Rightarrow> string option) \<Rightarrow> fresh_identity \<Rightarrow> send_random \<Rightarrow> send_args \<Rightarrow> item \<Rightarrow>
    rat option \<Rightarrow> bool option \<Rightarrow> ('k, 'n) world \<Rightarrow> sent res \<times> ('k, 'n) world" where
  "send_voice P L guess F R a it duration stream w =
     (let meta = (case a_metadata a of None \<Rightarrow> [] | Some m \<Rightarrow> m);
          meta' = (case duration of None \<Rightarrow> meta | Some d \<Rightarrow> AList.update ''duration_seconds'' (PFloat (Fin d)) meta);
          a' = a\<lparr>a_metadata := Some meta'\<rparr>
      in case it of
           ItemStr p \<Rightarrow> send_path P L guess F R a' p ''voice'' (Some ''audio/ogg'') stream w
         | ItemPath p \<Rightarrow> send_path P L guess F R a' p ''voice'' (Some ''audio/ogg'') stream w
         | ItemBytes d \<Rightarrow> package_sent (send_packed P L F R a' (pack_binary L d (Some ''voice.ogg'') ''audio/ogg'') ''voice'' w)
         | _ \<Rightarrow> (Inl SecureSendError, w))"

definition receive_file_type :: "prims \<Rightarrow> pylib \<Rightarrow> (string \<Rightarrow> bool) \<Rightarrow> fresh_identity \<Rightarrow> (nat \<Rightarrow> time) \<Rightarrow> receive_args \<Rightarrow>
    string \<Rightarrow> string \<Rightarrow> ('k, 'n) world \<Rightarrow> string res \<times> ('k, 'n) world" where
  \<comment> \<open>expected type and default file name; the path written\<close>
  "receive_file_type P L is_dir F t b expected_type dflt_name w =
     and_then (after_receive P L F t b expected_type payload_from_bytes w) (\<lambda>p w1.
       save_download is_dir (b_download b) (named (p_filename p) dflt_name) (p_body p) w1)"

definition receive_voice :: "prims \<Rightarrow> pylib \<Rightarrow> (string \<Rightarrow> bool) \<Rightarrow> fresh_identity \<Rightarrow> (nat \<Rightarrow> time) \<Rightarrow> receive_args \<Rightarrow>
    ('k, 'n) world \<Rightarrow> string res \<times> ('k, 'n) world" where
  "receive_voice P L is_dir F t b w =
     and_then (after_receive P L F t b ''voice'' payload_from_bytes w) (\<lambda>p w1.
       save_download is_dir (b_download b) (named (p_filename p) ''received_voice.ogg'') (p_body p) w1)"

text \<open>The wrappers \<open>SendVideo\<close>, \<open>SendAudio\<close>, \<dots> and their receivers fix the data type, the default file name
  and content type of the sender, and the default file name of the receiver.\<close>

type_synonym ('k, 'n) file_sender = "prims \<Rightarrow> pylib \<Rightarrow> (string \<Rightarrow> string option) \<Rightarrow> fresh_identity \<Rightarrow> send_random \<Rightarrow> send_args \<Rightarrow>
  item \<Rightarrow> string option \<Rightarrow> bool option \<Rightarrow> ('k, 'n) world \<Rightarrow> sent res \<times> ('k, 'n) world"

type_synonym ('k, 'n) file_receiver = "prims \<Rightarrow> pylib \<Rightarrow> (string \<Rightarrow> bool) \<Rightarrow> fresh_identity \<Rightarrow> (nat \<Rightarrow> time) \<Rightarrow> receive_args \<Rightarrow>
  ('k, 'n) world \<Rightarrow> string res \<times> ('k, 'n) world"

definition send_video :: "('k, 'n) file_sender" where
  "send_video P L guess F R a it = send_file_type P L guess F R a it ''video'' ''video.mp4'' ''video/mp4''"

definition receive_video :: "('k, 'n) file_receiver" where
  "receive_video P L is_dir F t b = receive_file_type P L is_dir F t b ''video'' ''received_video.mp4''"

definition send_audio :: "('k, 'n) file_sender" where
  "send_audio P L guess F R a it = send_file_type P L guess F R a it ''audio'' ''audio.mp3'' ''audio/mpeg''"

definition receive_audio :: "('k, 'n) file_receiver" where
  "receive_audio P L is_dir F t b = receive_file_type P L is_dir F t b ''audio'' ''received_audio.mp3''"

definition send_photo :: "('k, 'n) file_sender" where
  "send_photo P L guess F R a it = send_file_type P L guess F R a it ''photo'' ''photo.jpg'' ''image/jpeg''"

definition receive_photo :: "('k, 'n) file_receiver" where
  "receive_photo P L is_dir F t b = receive_file_type P L is_dir F t b ''photo'' ''received_photo.jpg''"

definition send_document :: "('k, 'n) file_sender" where
  "send_document P L guess F R a it = send_file_type P L guess F R a it ''document'' ''document.bin'' ''application/octet-stream''"

definition receive_document :: "('k, 'n) file_receiver" where
  "receive_document P L is_dir F t b = receive_file_type P L is_dir F t b ''document'' ''received_document.bin''"

definition send_pdf :: "('k, 'n) file_sender" where
  "send_pdf P L guess F R a it = send_file_type P L guess F R a it ''pdf'' ''document.pdf'' ''application/pdf''"

definition receive_pdf :: "('k, 'n) file_receiver" where
  "receive_pdf P L is_dir F t b = receive_file_type P L is_dir F t b ''pdf'' ''received_document.pdf''"

definition send_archive :: "('k, 'n) file_sender" where
  "send_archive P L guess F R a it = send_file_type P L guess F R a it ''archive'' ''archive.zip'' ''application/zip''"

definition receive_archive :: "('k, 'n) file_receiver" where
  "receive_archive P L is_dir F t b = receive_file_type P L is_dir F t b ''archive'' ''received_archive.zip''"

definition send_typed_file :: "prims \<Rightarrow> pylib \<Rightarrow> (string \<Rightarrow> string option) \<Rightarrow> fresh_identity \<Rightarrow> send_random \<Rightarrow> send_args \<Rightarrow> string \<Rightarrow>
    item \<Rightarrow> ('k, 'n) world \<Rightarrow> sent res \<times> ('k, 'n) world" where
  \<comment> \<open>the calls in \<open>Send\<close>, which pass neither \<open>filename\<close> nor \<open>stream\<close>\<close>
  "send_typed_file P L guess F R a ty it w =
     (case map_of [(''video'', send_video), (''audio'', send_audio), (''photo'', send_photo), (''document'', send_document), (''pdf'', send_pdf), (''archive'', send_archive)] ty of
        Some send \<Rightarrow> send P L guess F R a it None None w
      | None \<Rightarrow> (Inl SecureSendError, w))"

definition receive_typed_file :: "prims \<Rightarrow> pylib \<Rightarrow> (string \<Rightarrow> bool) \<Rightarrow> fresh_identity \<Rightarrow> (nat \<Rightarrow> time) \<Rightarrow> receive_args \<Rightarrow> string \<Rightarrow>
    ('k, 'n) world \<Rightarrow> string res \<times> ('k, 'n) world" where
  "receive_typed_file P L is_dir F t b ty w =
     (case map_of [(''video'', receive_video), (''audio'', receive_audio), (''photo'', receive_photo), (''document'', receive_document), (''pdf'', receive_pdf), (''archive'', receive_archive)] ty of
        Some receive \<Rightarrow> receive P L is_dir F t b w
      | None \<Rightarrow> (Inl SecureReceiveError, w))"

section \<open>Live sessions\<close>

definition send_live :: "prims \<Rightarrow> pylib \<Rightarrow> fresh_identity \<Rightarrow> send_random \<Rightarrow> bytes \<Rightarrow> bytes \<Rightarrow> send_args \<Rightarrow> string \<Rightarrow> dict \<Rightarrow> string \<Rightarrow>
    ('k, 'n) world \<Rightarrow> (package \<times> live) res \<times> ('k, 'n) world" where
  \<comment> \<open>the fresh key and session id, the name of the flag, further metadata, the data type\<close>
  "send_live P L F R rnd_key rnd_sid a flag extra data_type w =
     (case live_new rnd_key rnd_sid None NoSid of
        Inl e \<Rightarrow> (Inl e, w)
      | Inr s \<Rightarrow>
          let meta = (case a_metadata a of None \<Rightarrow> [] | Some m \<Rightarrow> m);
              meta' = fold (\<lambda>(k, v). AList.update k v) ([(flag, PBool True), (''session_id'', PStr (hex (l_sid s)))] @ extra) meta
          in and_then (send_with P L F R (a\<lparr>a_metadata := Some meta', a_output_file := None\<rparr>) (l_key s) data_type w)
               (\<lambda>pkg w1. (Inr (pkg, s), w1)))"

definition send_live_session :: "prims \<Rightarrow> pylib \<Rightarrow> fresh_identity \<Rightarrow> send_random \<Rightarrow> bytes \<Rightarrow> bytes \<Rightarrow> send_args \<Rightarrow>
    ('k, 'n) world \<Rightarrow> (package \<times> live) res \<times> ('k, 'n) world" where
  "send_live_session P L F R rnd_key rnd_sid a =
     send_live P L F R rnd_key rnd_sid a ''uxsp_live_exchange'' [] ''live_session''"

definition send_live_voice_call :: "prims \<Rightarrow> pylib \<Rightarrow> fresh_identity \<Rightarrow> send_random \<Rightarrow> bytes \<Rightarrow> bytes \<Rightarrow> send_args \<Rightarrow> string \<Rightarrow>
    int \<Rightarrow> int \<Rightarrow> ('k, 'n) world \<Rightarrow> (package \<times> live_voice) res \<times> ('k, 'n) world" where
  "send_live_voice_call P L F R rnd_key rnd_sid a codec rate channels w =
     and_then (send_live P L F R rnd_key rnd_sid a ''uxsp_live_voice_exchange''
         [(''codec'', PStr codec), (''sample_rate'', PInt rate), (''channels'', PInt channels)] ''live_voice_session'' w)
      (\<lambda>(pkg, s) w1. (rbind (live_voice_new rnd_key rnd_sid None NoSid codec rate channels) (\<lambda>v. Inr (pkg, v)), w1))"

definition metadata_of :: "pyval \<Rightarrow> dict res" where
  \<comment> \<open>\<open>pkg.metadata or {}\<close>, of which \<open>get\<close> is then called\<close>
  "metadata_of v = (if \<not> py_truthy v then Inr [] else case v of PDict d \<Rightarrow> Inr d | _ \<Rightarrow> Inl AttributeError)"

definition session_id_arg :: "dict \<Rightarrow> sid_arg res" where
  "session_id_arg meta =
     (let v = dget meta ''session_id'' in
      if py_truthy v then rbind (py_fromhex v) (\<lambda>b. Inr (SidBytes b)) else Inr NoSid)"

definition receive_live :: "prims \<Rightarrow> pylib \<Rightarrow> fresh_identity \<Rightarrow> (nat \<Rightarrow> time) \<Rightarrow> bytes \<Rightarrow> bytes \<Rightarrow> receive_args \<Rightarrow> string \<Rightarrow>
    ('k, 'n) world \<Rightarrow> (dict \<times> live) res \<times> ('k, 'n) world" where
  \<comment> \<open>the random key and id of a constructor that is given none; the metadata with the session\<close>
  "receive_live P L F t rnd_key rnd_sid b data_type w =
     (case resolve_package_input L (snd w) (b_package b) of
        Inl e \<Rightarrow> (Inl e, w)
      | Inr pkg \<Rightarrow>
          after_receive P L F t (b\<lparr>b_package := InPackage pkg\<rparr>) data_type (\<lambda>key.
            rbind (metadata_of (pk_metadata pkg)) (\<lambda>meta.
            rbind (session_id_arg meta) (\<lambda>sid.
            rbind (live_new rnd_key rnd_sid (Some key) sid) (\<lambda>s. Inr (meta, s))))) w)"

definition receive_live_session :: "prims \<Rightarrow> pylib \<Rightarrow> fresh_identity \<Rightarrow> (nat \<Rightarrow> time) \<Rightarrow> bytes \<Rightarrow> bytes \<Rightarrow> receive_args \<Rightarrow>
    ('k, 'n) world \<Rightarrow> live res \<times> ('k, 'n) world" where
  "receive_live_session P L F t rnd_key rnd_sid b w =
     and_then (receive_live P L F t rnd_key rnd_sid b ''live_session'' w) (\<lambda>(meta, s) w1. (Inr s, w1))"

definition receive_live_voice_call :: "prims \<Rightarrow> pylib \<Rightarrow> fresh_identity \<Rightarrow> (nat \<Rightarrow> time) \<Rightarrow> bytes \<Rightarrow> bytes \<Rightarrow> receive_args \<Rightarrow>
    ('k, 'n) world \<Rightarrow> (live \<times> pyval \<times> pyval \<times> pyval) res \<times> ('k, 'n) world" where
  \<comment> \<open>codec, sample rate and channels as they came, of any type\<close>
  "receive_live_voice_call P L F t rnd_key rnd_sid b w =
     and_then (receive_live P L F t rnd_key rnd_sid b ''live_voice_session'' w) (\<lambda>(meta, s) w1.
       (Inr (s, dget_default meta ''codec'' (PStr ''opus''), dget_default meta ''sample_rate'' (PInt 48000),
             dget_default meta ''channels'' (PInt 1)), w1))"

section \<open>Dispatch\<close>

text \<open>\<open>Send\<close>: the specialised sender for a data type or for an item. \<open>guess\<close> is MIME guessing.\<close>

datatype route = RFile string | RPlainFile | RVoice | RText | RHtml | RJson | RContact | RBinary | RLiveVoice | RLive
  | RLocation

definition route_of_type :: "string \<Rightarrow> route option" where
  \<comment> \<open>the tests of \<open>Send\<close> on \<open>data_type.lower()\<close>; any other type is ignored\<close>
  "route_of_type dt = map_of
     [(''video'', RFile ''video''), (''audio'', RFile ''audio''), (''photo'', RFile ''photo''), (''image'', RFile ''photo''),
      (''text'', RText), (''document'', RFile ''document''), (''doc'', RFile ''document''), (''pdf'', RFile ''pdf''),
      (''archive'', RFile ''archive''), (''zip'', RFile ''archive''), (''voice'', RVoice), (''json'', RJson), (''html'', RHtml),
      (''contact'', RContact), (''binary'', RBinary), (''file'', RPlainFile), (''live_voice_session'', RLiveVoice),
      (''live_voice_call'', RLiveVoice), (''live_voice'', RLiveVoice), (''voice_call'', RLiveVoice), (''live_session'', RLive)]
     (lower dt)"

definition route_of_suffix :: "string \<Rightarrow> route" where
  "route_of_suffix ext =
     (if ext \<in> {''.mp4'', ''.mkv'', ''.avi'', ''.mov'', ''.webm''} then RFile ''video''
      else if ext \<in> {''.mp3'', ''.wav'', ''.aac'', ''.flac'', ''.m4a''} then RFile ''audio''
      else if ext \<in> {''.jpg'', ''.jpeg'', ''.png'', ''.gif'', ''.webp'', ''.svg''} then RFile ''photo''
      else if ext = ''.pdf'' then RFile ''pdf''
      else if ext \<in> {''.zip'', ''.tar'', ''.gz'', ''.7z'', ''.bz2''} then RFile ''archive''
      else if ext \<in> {''.html'', ''.htm''} then RHtml
      else if ext = ''.json'' then RJson else RPlainFile)"

definition send_route :: "prims \<Rightarrow> pylib \<Rightarrow> codecs \<Rightarrow> (string \<Rightarrow> string option) \<Rightarrow> fresh_identity \<Rightarrow> send_random \<Rightarrow> bytes \<Rightarrow> bytes \<Rightarrow>
    send_args \<Rightarrow> route \<Rightarrow> item \<Rightarrow> ('k, 'n) world \<Rightarrow> sent res \<times> ('k, 'n) world" where
  "send_route P L C guess F R rnd_key rnd_sid a r it w = (case r of
     RFile ty \<Rightarrow> send_typed_file P L guess F R a ty it w
   | RPlainFile \<Rightarrow> send_file P L guess F R a it None None None w
   | RVoice \<Rightarrow> send_voice P L guess F R a it None None w
   | RText \<Rightarrow> package_sent (send_text P L C F R a it ''utf-8'' w)
   | RHtml \<Rightarrow> package_sent (send_html P L F R a it w)
   | RJson \<Rightarrow> package_sent (send_json P L F R a it w)
   | RContact \<Rightarrow> package_sent (send_contact P L F R a it w)
   | RBinary \<Rightarrow> package_sent (send_binary P L F R a it None ''application/octet-stream'' w)
   | RLiveVoice \<Rightarrow> package_sent (and_then (send_live_voice_call P L F R rnd_key rnd_sid a ''opus'' 48000 1 w) (\<lambda>(p, s) w1. (Inr p, w1)))
   | RLive \<Rightarrow> package_sent (and_then (send_live_session P L F R rnd_key rnd_sid a w) (\<lambda>(p, s) w1. (Inr p, w1)))
   | RLocation \<Rightarrow> (Inl SecureSendError, w))"

definition infer_item :: "files \<Rightarrow> item \<Rightarrow> (route \<times> item) res" where
  \<comment> \<open>the route for an item without a data type, and what is handed to the sender\<close>
  "infer_item fs it =
     (let of_file = (\<lambda>path content. case route_of_suffix (lower (path_suffix path)) of
            RHtml \<Rightarrow> rbind (decode_utf8 content) (\<lambda>s. Inr (RHtml, ItemStr s))
          | RJson \<Rightarrow> rbind (decode_utf8 content) (\<lambda>s. rbind (loads s) (\<lambda>v.
              Inr (RJson, case v of PStr u \<Rightarrow> ItemStr u | _ \<Rightarrow> ItemJson v)))
          | r \<Rightarrow> Inr (r, ItemPath path))
      in case it of
           ItemStr s \<Rightarrow> (case fs s of Some content \<Rightarrow> of_file s content | None \<Rightarrow> Inr (RText, it))
         | ItemPath s \<Rightarrow> (case fs s of Some content \<Rightarrow> of_file s content | None \<Rightarrow> Inl SecureSendError)
         | ItemBytes b \<Rightarrow> Inr (RBinary, it)
         | ItemJson (PDict d) \<Rightarrow> Inr (RJson, it)
         | ItemJson (PList vs) \<Rightarrow> Inr (RJson, it)
         | _ \<Rightarrow> Inl SecureSendError)"

definition send_any :: "prims \<Rightarrow> pylib \<Rightarrow> codecs \<Rightarrow> (string \<Rightarrow> string option) \<Rightarrow> fresh_identity \<Rightarrow> send_random \<Rightarrow> bytes \<Rightarrow> bytes \<Rightarrow>
    send_args \<Rightarrow> string option \<Rightarrow> item \<Rightarrow> ('k, 'n) world \<Rightarrow> sent res \<times> ('k, 'n) world" where
  "send_any P L C guess F R rnd_key rnd_sid a data_type it w =
     (case (case data_type of None \<Rightarrow> None | Some dt \<Rightarrow> route_of_type dt) of
        Some r \<Rightarrow> send_route P L C guess F R rnd_key rnd_sid a r it w
      | None \<Rightarrow> (case infer_item (snd w) it of
          Inl e \<Rightarrow> (Inl e, w) | Inr (r, it') \<Rightarrow> send_route P L C guess F R rnd_key rnd_sid a r it' w))"

text \<open>\<open>Receive\<close>: the results of the receivers.\<close>

datatype received = GotText string | GotValue pyval | GotBytes bytes | GotFile string | GotLive live
  | GotVoice live pyval pyval pyval

definition receive_route_of_type :: "string \<Rightarrow> route option" where
  \<comment> \<open>the tests of \<open>Receive\<close> on \<open>pkg.data_type.lower()\<close>\<close>
  "receive_route_of_type dt = (if lower dt = ''location'' then Some RLocation else route_of_type dt)"

definition fallback_payload :: "bytes \<Rightarrow> bytes \<times> string" where
  "fallback_payload raw = (case payload_from_bytes raw of
     Inr p \<Rightarrow> (p_body p, named (p_filename p) ''received_payload.bin'') | Inl e \<Rightarrow> (raw, ''received_payload.bin''))"

definition receive_any :: "prims \<Rightarrow> pylib \<Rightarrow> codecs \<Rightarrow> (string \<Rightarrow> bool) \<Rightarrow> fresh_identity \<Rightarrow> (nat \<Rightarrow> time) \<Rightarrow> bytes \<Rightarrow> bytes \<Rightarrow>
    receive_args \<Rightarrow> ('k, 'n) world \<Rightarrow> received res \<times> ('k, 'n) world" where
  "receive_any P L C is_dir F t rnd_key rnd_sid b w =
     (case resolve_package_input L (snd w) (b_package b) of
        Inl e \<Rightarrow> (Inl e, w)
      | Inr pkg \<Rightarrow>
         let b' = b\<lparr>b_package := InPackage pkg\<rparr>
         in (case receive_route_of_type (pk_data_type pkg) of
            Some (RFile ty) \<Rightarrow> and_then (receive_typed_file P L is_dir F t b' ty w) (\<lambda>p w1. (Inr (GotFile p), w1))
          | Some RPlainFile \<Rightarrow> and_then (receive_file_type P L is_dir F t b' ''file'' ''received_file.bin'' w) (\<lambda>p w1. (Inr (GotFile p), w1))
          | Some RVoice \<Rightarrow> and_then (receive_voice P L is_dir F t b' w) (\<lambda>p w1. (Inr (GotFile p), w1))
          | Some RText \<Rightarrow> and_then (receive_text P L C is_dir F t b' w) (\<lambda>s w1. (Inr (GotText s), w1))
          | Some RHtml \<Rightarrow> and_then (receive_html P L C is_dir F t b' w) (\<lambda>s w1. (Inr (GotText s), w1))
          | Some RJson \<Rightarrow> and_then (receive_json P L C is_dir F t b' w) (\<lambda>v w1. (Inr (GotValue v), w1))
          | Some RContact \<Rightarrow> and_then (receive_contact P L F t b' w) (\<lambda>v w1. (Inr (GotValue v), w1))
          | Some RLocation \<Rightarrow> and_then (receive_location P L F t b' w) (\<lambda>v w1. (Inr (GotValue v), w1))
          | Some RBinary \<Rightarrow> and_then (receive_binary P L is_dir F t b' w) (\<lambda>d w1. (Inr (GotBytes d), w1))
          | Some RLive \<Rightarrow> and_then (receive_live_session P L F t rnd_key rnd_sid b' w) (\<lambda>s w1. (Inr (GotLive s), w1))
          | Some RLiveVoice \<Rightarrow> and_then (receive_live_voice_call P L F t rnd_key rnd_sid b' w) (\<lambda>(s, c, r, n) w1. (Inr (GotVoice s c r n), w1))
          | None \<Rightarrow> and_then (receive_with P L F t b' None w) (\<lambda>raw w1.
              let (data, name) = fallback_payload raw
              in (case b_download b of
                    None \<Rightarrow> (Inr (GotBytes data), w1)
                  | Some p \<Rightarrow> and_then (save_download is_dir (Some p) name data w1) (\<lambda>f w2. (Inr (GotFile f), w2))))))"

section \<open>Streams\<close>

text \<open>A stream is a list of independent binary packages, one for each block that is read, with the
  index of the block in the unprotected metadata.\<close>

definition stream_blocks :: "int \<Rightarrow> bytes \<Rightarrow> bytes list" where
  \<comment> \<open>\<open>_iter_chunks_from_source\<close> of a file, for a positive block size\<close>
  "stream_blocks n content = read_all (nat n) content"

definition stream_metadata :: "nat \<Rightarrow> string option \<Rightarrow> dict option \<Rightarrow> dict" where
  "stream_metadata k fname metadata =
     fold (\<lambda>(key, v). AList.update key v) (case metadata of None \<Rightarrow> [] | Some m \<Rightarrow> m)
       [(''stream_chunk_index'', PInt (int k)), (''stream_filename'', PStr (named fname ''stream.bin''))]"

definition send_block :: "prims \<Rightarrow> pylib \<Rightarrow> fresh_identity \<Rightarrow> (nat \<Rightarrow> send_random) \<Rightarrow> send_args \<Rightarrow> string option \<Rightarrow> nat \<Rightarrow> bytes \<Rightarrow>
    ('k, 'n) world \<Rightarrow> package res \<times> ('k, 'n) world" where
  "send_block P L F R a fname k block w =
     send_binary P L F (R k) (a\<lparr>a_metadata := Some (stream_metadata k fname (a_metadata a)), a_output_file := None\<rparr>)
       (ItemBytes block) fname ''application/octet-stream'' w"

fun send_blocks :: "prims \<Rightarrow> pylib \<Rightarrow> fresh_identity \<Rightarrow> (nat \<Rightarrow> send_random) \<Rightarrow> send_args \<Rightarrow> string option \<Rightarrow> string \<Rightarrow> nat \<Rightarrow>
    bytes list \<Rightarrow> ('k, 'n) world \<Rightarrow> package list \<times> exn option \<times> ('k, 'n) world" where
  \<comment> \<open>the packages that were yielded, and the error that ended the generator\<close>
  "send_blocks P L F R a fname dt k [] w = ([], None, w)"
| "send_blocks P L F R a fname dt k (b # bs) w =
     (case send_block P L F R a fname k b w of
        (Inl e, w1) \<Rightarrow> ([], Some e, w1)
      | (Inr pk, w1) \<Rightarrow>
          (case send_blocks P L F R a fname dt (k + 1) bs w1 of
             (pks, r, w2) \<Rightarrow> (pk\<lparr>pk_data_type := dt\<rparr> # pks, r, w2)))"

definition stream_packages :: "prims \<Rightarrow> pylib \<Rightarrow> fresh_identity \<Rightarrow> (nat \<Rightarrow> send_random) \<Rightarrow> send_args \<Rightarrow> string option \<Rightarrow> string \<Rightarrow>
    bytes list \<Rightarrow> ('k, 'n) world \<Rightarrow> package list \<times> exn option \<times> ('k, 'n) world" where
  \<comment> \<open>the generator run to its end; an empty source yields one empty package, whose data type stays\<close>
  "stream_packages P L F R a fname dt blocks w =
     (if blocks = [] then (case send_block P L F R a fname 0 [] w of
        (Inl e, w1) \<Rightarrow> ([], Some e, w1) | (Inr pk, w1) \<Rightarrow> ([pk], None, w1))
      else send_blocks P L F R a fname dt 0 blocks w)"

definition send_stream :: "prims \<Rightarrow> pylib \<Rightarrow> fresh_identity \<Rightarrow> (nat \<Rightarrow> send_random) \<Rightarrow> send_args \<Rightarrow> string \<Rightarrow> int \<Rightarrow> string option \<Rightarrow> string \<Rightarrow>
    ('k, 'n) world \<Rightarrow> package list \<times> exn option \<times> ('k, 'n) world" where
  \<comment> \<open>\<open>SendStream\<close> of a path, consumed to the end\<close>
  "send_stream P L F R a path n fname dt w =
     (case snd w path of
        None \<Rightarrow> ([], Some SecureSendError, w)
      | Some content \<Rightarrow> stream_packages P L F R a (Some (named fname (path_name path))) dt (stream_blocks n content) w)"

definition stream_file :: "pylib \<Rightarrow> package list \<Rightarrow> bytes" where
  \<comment> \<open>\<open>output_destination\<close>: one JSON text per line\<close>
  "stream_file L pks = utf8 (concat (map (\<lambda>p. package_to_json L False p @ [CHR 0x0A]) pks))"

fun receive_packages :: "prims \<Rightarrow> pylib \<Rightarrow> fresh_identity \<Rightarrow> (nat \<Rightarrow> nat \<Rightarrow> time) \<Rightarrow> receive_args \<Rightarrow> package list \<Rightarrow> bytes \<Rightarrow>
    ('k, 'n) world \<Rightarrow> unit res \<times> bytes \<times> ('k, 'n) world" where
  \<comment> \<open>the loop of \<open>ReceiveStream\<close> over packages: the bytes written so far\<close>
  "receive_packages P L F t b [] out w = (Inr (), out, w)"
| "receive_packages P L F t b (pk # pks) out w =
     (case receive_binary P L (\<lambda>_. False) F (t (length pks)) (b\<lparr>b_package := InPackage pk, b_download := None\<rparr>) w of
        (Inl e, w1) \<Rightarrow> (Inl e, out, w1)
      | (Inr d, w1) \<Rightarrow> receive_packages P L F t b pks (out @ d) w1)"

definition receive_stream :: "prims \<Rightarrow> pylib \<Rightarrow> fresh_identity \<Rightarrow> (nat \<Rightarrow> nat \<Rightarrow> time) \<Rightarrow> receive_args \<Rightarrow> package list \<Rightarrow> string \<Rightarrow>
    ('k, 'n) world \<Rightarrow> string res \<times> ('k, 'n) world" where
  \<comment> \<open>to a path, which is opened for writing first\<close>
  "receive_stream P L F t b pks path w =
     (case receive_packages P L F t b pks [] (fst w, (snd w)(path \<mapsto> [])) of
        (r, out, (x, fs)) \<Rightarrow> (rbind r (\<lambda>_. Inr path), x, fs(path \<mapsto> out)))"

section \<open>Lemmas: one exchange\<close>

text \<open>Calls that name the parties by identity and card, so that the contexts are not consulted.\<close>

definition direct_send :: "send_args \<Rightarrow> identity \<Rightarrow> public_card \<Rightarrow> bool" where
  "direct_send a i cj \<longleftrightarrow> or_else (a_receiver a) (a_receiver_id a) = Some (PeerCard cj) \<and>
     or_else (a_sender a) (a_sender_identity a) = Some i"

definition direct_receive :: "receive_args \<Rightarrow> identity \<Rightarrow> public_card \<Rightarrow> bool" where
  "direct_receive b j ci \<longleftrightarrow> or_else (b_sender_card b) (or_else (b_sender b) (b_sender_id b)) = Some (PeerCard ci) \<and>
     or_else (b_receiver b) (b_receiver_identity b) = Some j"

definition timely :: "pylib \<Rightarrow> public_card \<Rightarrow> send_random \<Rightarrow> (nat \<Rightarrow> time) \<Rightarrow> bool" where
  "timely L ci R t \<longleftrightarrow> verify_validity L (t 1) None ci = Inr () \<and> in_window \<lparr>g_window = 300, g_clock_skew = 30\<rparr> R t"

definition nonce_of :: "send_random \<Rightarrow> string" where
  "nonce_of R = hex (r_env (sr_seal R))"

definition room_for :: "nat \<Rightarrow> mem_store \<Rightarrow> bool" where
  "room_for n s \<longleftrightarrow> mem_inv s \<and> length (mstore s) + n \<le> MAX_NONCE_STORE_SIZE"

abbreviation memory_guard :: "mem_store \<Rightarrow> mem_store guard_obj" where
  "memory_guard s \<equiv> default_guard mem_mark_used mem_is_seen s"

lemma mem_mark_other:
  assumes "mem_inv s" and "mem_mark_used t n ttl s = (r, s')" and "m \<noteq> n" and "mem_tracked s m = None"
  shows "mem_tracked s' m = None"
  using assms mem_tick_None [of s m t] mem_room_None [of "mem_tick t s" m t]
  by (auto simp: mem_mark_used_eq Let_def mem_tracked_def split: if_splits)

lemma mem_mark_length:
  assumes "mem_inv s" and "mem_mark_used t n ttl s = (r, s')"
  shows "length (mstore s') \<le> Suc (length (mstore s))"
proof -
  have t: "length (mstore (mem_tick t s)) \<le> length (mstore s)" "length (mstore (mem_room t s)) \<le> length (mstore s)" for s
    by (auto simp: mem_tick_def mem_room_def mem_cleanup_unlocked_def Let_def)
  have u: "length (AList.update k v d) \<le> Suc (length d)" for k and v :: rat and d
    by (induction d) auto
  show ?thesis
    using assms(2) t(1) [of s] t(2) [of "mem_tick t s"] u [of n "t + of_int ttl" "mstore (mem_room t (mem_tick t s))"]
    by (auto simp: mem_mark_used_eq Let_def split: if_splits)
qed

lemma seal_package_typed:
  "seal_package P L R i rid cj p dt m = Inr pk \<Longrightarrow> seal_package P L R i rid cj p dt' m = Inr (pk\<lparr>pk_data_type := dt'\<rparr>)"
  by (auto simp: seal_package_def Let_def res_Inr_iffs split: if_splits)

lemma exchange_payload:
  assumes "crypto_laws P" and "parties_ok P i ci j cj" and "random_ok R" and "timely L ci R t"
    and "seal_package P L R i (entity_id j) cj payload dt meta = Inr pk" and "direct_receive b j ci"
    and "x_guard y = memory_guard s" and "room_for 1 s" and "mem_tracked s (nonce_of R) = None"
  obtains s2 where "mem_mark_used (t 6) (nonce_of R) 330 s = (Inr True, s2)"
    "receive_with P L F t (b\<lparr>b_package := InPackage pk\<rparr>) (Some dt) (y, fs) = (Inr payload, y\<lparr>x_guard := memory_guard s2\<rparr>, fs)"
proof -
  have s: "mem_inv s" "length (mstore s) < MAX_NONCE_STORE_SIZE" using assms(8) by (simp_all add: room_for_def)
  have v: "verify_validity L (t 1) None ci = Inr ()" "in_window \<lparr>g_window = 300, g_clock_skew = 30\<rparr> R t"
    using assms(4) by (simp_all only: timely_def)
  obtain s2 where m: "mem_mark_used (t 6) (nonce_of R) 330 s = (Inr True, s2)"
    using mem_accepts(2) [OF s(1) assms(9) s(2), of "t 6" 330] by (metis fst_conv surj_pair)
  have g: "go_cfg (memory_guard s') = \<lparr>g_window = 300, g_clock_skew = 30\<rparr>" "go_seen (memory_guard s') = mem_is_seen"
    "go_mark (memory_guard s') = mem_mark_used" "go_state (memory_guard s') = s'"
    "(memory_guard s')\<lparr>go_state := s''\<rparr> = memory_guard s''" for s' s''
    by (simp_all add: default_guard_def)
  have u: "unseal_package P L t j ci pk (memory_guard s) = (Inr payload, memory_guard s2)"
    using unseal_sealed [where t = t and g = "memory_guard s" and b = "Inr False" and ?s1.0 = s and ?s2.0 = s2,
        OF assms(1-3) assms(5) v(1)] v(2) mem_accepts(1) [OF s(1) assms(9) s(2)] m
    by (simp add: g nonce_of_def)
  have c: "check_container pk (entity_id i) (entity_id j) (Some dt) = Inr ()"
    using assms(5) by (rule seal_package_Inr) (simp add: check_container_def)
  have "resolve_party L (Some (PeerCard ci)) y = (Inr (ci, entity_id i), y)"
    using assms(2) by (simp add: resolve_party_def parties_ok_def)
  then have "receive_with P L F t (b\<lparr>b_package := InPackage pk\<rparr>) (Some dt) (y, fs) = (Inr payload, y\<lparr>x_guard := memory_guard s2\<rparr>, fs)"
    using assms(6,7) u c
    by (simp add: receive_with_def direct_receive_def secure_receive_payload_def resolve_package_input_def own_identity_def)
  with m show ?thesis by (rule that)
qed

lemma send_with_direct:
  assumes "direct_send a i cj" and "c_entity_id cj = entity_id j" and "x_hook x = None"
    and "send_with P L F R a payload dt (x, fs) = (Inr pk, w)"
  shows "seal_package P L R i (entity_id j) cj payload dt (case a_metadata a of None \<Rightarrow> [] | Some m \<Rightarrow> m) = Inr pk"
    and "a_output_file a = None \<Longrightarrow> w = (x, fs)"
  using assms
  by (auto simp: send_with_def secure_send_payload_def direct_send_def resolve_party_def own_identity_def dispatch_package_def
      and_then_def split: sum.splits prod.splits)

lemma send_packed_Inr:
  "send_packed P L F R a p dt w = (Inr pk, w') \<longleftrightarrow> (\<exists>b. p = Inr b \<and> send_with P L F R a b dt w = (Inr pk, w'))"
  by (cases p) (auto simp: send_packed_def)

lemma pack_binary_roundtrip:
  assumes "pack_binary L d fname ctype = Inr b"
  shows "payload_from_bytes b = Inr \<lparr>p_kind = ''binary'', p_body = d, p_filename = fname, p_content_type = ctype, p_encoding = None\<rparr>"
  using assms
  by (intro payload_bytes_roundtrip) (auto simp: pack_binary_def res_Inr_iffs payload_ok_def PAYLOAD_KINDS_def)

section \<open>Lemmas: streams\<close>

definition sealed_block :: "prims \<Rightarrow> pylib \<Rightarrow> (nat \<Rightarrow> send_random) \<Rightarrow> identity \<Rightarrow> identity \<Rightarrow> public_card \<Rightarrow> string option \<Rightarrow> string \<Rightarrow>
    nat \<Rightarrow> bytes \<Rightarrow> package \<Rightarrow> bool" where
  \<comment> \<open>the package of one block\<close>
  "sealed_block P L R i j cj fname dt k block pk \<longleftrightarrow>
     (\<exists>b meta. pack_binary L block fname ''application/octet-stream'' = Inr b \<and>
        seal_package P L (R k) i (entity_id j) cj b dt meta = Inr pk)"

lemma send_block_Inr:
  assumes "direct_send a i cj" and "c_entity_id cj = entity_id j" and "x_hook x = None"
    and "send_block P L F R a fname k block (x, fs) = (Inr pk, w)"
  shows "sealed_block P L R i j cj fname ''binary'' k block pk \<and> w = (x, fs)"
proof -
  let ?a = "a\<lparr>a_metadata := Some (stream_metadata k fname (a_metadata a)), a_output_file := None\<rparr>"
  obtain b where b: "pack_binary L block fname ''application/octet-stream'' = Inr b"
    "send_with P L F (R k) ?a b ''binary'' (x, fs) = (Inr pk, w)"
    using assms(4) by (auto simp: send_block_def send_binary_def send_packed_Inr)
  have "direct_send ?a i cj" using assms(1) by (simp add: direct_send_def)
  from send_with_direct [OF this assms(2,3) b(2)] b(1) show ?thesis by (auto simp: sealed_block_def)
qed

lemma send_blocks_Inr:
  assumes "direct_send a i cj" and "c_entity_id cj = entity_id j" and "x_hook x = None"
    and "send_blocks P L F R a fname dt k blocks (x, fs) = (pks, None, w)"
  shows "w = (x, fs) \<and> length pks = length blocks \<and>
    (\<forall>n < length blocks. sealed_block P L R i j cj fname dt (k + n) (blocks ! n) (pks ! n))"
  using assms(4)
proof (induction blocks arbitrary: k pks)
  case (Cons b bs)
  from Cons.prems obtain pk w1 pks' where p: "send_block P L F R a fname k b (x, fs) = (Inr pk, w1)"
    "send_blocks P L F R a fname dt (k + 1) bs w1 = (pks', None, w)" "pks = pk\<lparr>pk_data_type := dt\<rparr> # pks'"
    by (auto split: prod.splits sum.splits)
  have "sealed_block P L R i j cj fname ''binary'' k b pk" "w1 = (x, fs)"
    using send_block_Inr [OF assms(1-3) p(1)] by simp_all
  then have "sealed_block P L R i j cj fname dt k b (pk\<lparr>pk_data_type := dt\<rparr>)"
    by (auto simp: sealed_block_def dest: seal_package_typed)
  with Cons.IH [of "k + 1" pks'] p \<open>w1 = (x, fs)\<close> show ?case
    by (auto simp: nth_Cons' less_Suc_eq_0_disj)
qed simp

lemma receive_blocks:
  assumes "crypto_laws P" and "parties_ok P i ci j cj" and "direct_receive b j ci"
  shows "distinct ks \<Longrightarrow> inj_on (\<lambda>k. nonce_of (R k)) (set ks) \<Longrightarrow>
    \<forall>k \<in> set ks. random_ok (R k) \<and> sealed_block P L R i j cj fname ''binary'' k (blocks ! k) (pks ! k) \<and> (\<forall>n. timely L ci (R k) (t n)) \<Longrightarrow>
    x_guard y = memory_guard s \<Longrightarrow> room_for (length ks) s \<Longrightarrow> \<forall>k \<in> set ks. mem_tracked s (nonce_of (R k)) = None \<Longrightarrow>
    \<exists>s'. receive_packages P L F t b (map ((!) pks) ks) out (y, fs) =
      (Inr (), out @ concat (map ((!) blocks) ks), y\<lparr>x_guard := memory_guard s'\<rparr>, fs)"
proof (induction ks arbitrary: y s out)
  case Nil
  then show ?case by (intro exI [of _ s]) simp
next
  case (Cons k ks)
  let ?t = "t (length (map ((!) pks) ks))"
  have k: "random_ok (R k)" "sealed_block P L R i j cj fname ''binary'' k (blocks ! k) (pks ! k)" "timely L ci (R k) ?t"
    "mem_tracked s (nonce_of (R k)) = None" using Cons.prems(3,6) by simp_all
  have room: "room_for 1 s" using Cons.prems(5) by (simp add: room_for_def)
  obtain bs meta where p: "pack_binary L (blocks ! k) fname ''application/octet-stream'' = Inr bs"
    "seal_package P L (R k) i (entity_id j) cj bs ''binary'' meta = Inr (pks ! k)"
    using k(2) by (auto simp: sealed_block_def)
  have d: "direct_receive (b\<lparr>b_download := None\<rparr>) j ci" using assms(3) by (simp add: direct_receive_def)
  obtain s2 where s2: "mem_mark_used (?t 6) (nonce_of (R k)) 330 s = (Inr True, s2)"
    "receive_with P L F ?t (b\<lparr>b_download := None, b_package := InPackage (pks ! k)\<rparr>) (Some ''binary'') (y, fs) =
      (Inr bs, y\<lparr>x_guard := memory_guard s2\<rparr>, fs)"
    by (rule exchange_payload [OF assms(1,2) k(1,3) p(2) d Cons.prems(4) room k(4)])
  have one: "receive_binary P L (\<lambda>_. False) F ?t (b\<lparr>b_package := InPackage (pks ! k), b_download := None\<rparr>) (y, fs) =
      (Inr (blocks ! k), y\<lparr>x_guard := memory_guard s2\<rparr>, fs)"
  proof -
    have e: "b\<lparr>b_download := None, b_package := InPackage (pks ! k)\<rparr> = b\<lparr>b_package := InPackage (pks ! k), b_download := None\<rparr>"
      by (cases b) simp
    show ?thesis
      using s2(2) [unfolded e] pack_binary_roundtrip [OF p(1)] by (simp add: receive_binary_def after_receive_def keep_copy_def)
  qed
  have inv: "mem_inv s" using room by (simp add: room_for_def)
  have "room_for (length ks) s2"
    using Cons.prems(5) mem_mark_length [OF inv s2(1)] mem_mark_inv [OF inv, of "?t 6" "nonce_of (R k)" 330] s2(1)
    by (auto simp: room_for_def)
  moreover have "\<forall>k' \<in> set ks. mem_tracked s2 (nonce_of (R k')) = None"
  proof
    fix k' assume "k' \<in> set ks"
    then have "nonce_of (R k') \<noteq> nonce_of (R k)"
      using Cons.prems(1,2) by (auto simp: inj_on_def)
    with \<open>k' \<in> set ks\<close> show "mem_tracked s2 (nonce_of (R k')) = None"
      using mem_mark_other [OF inv s2(1)] Cons.prems(6) by simp
  qed
  ultimately obtain s' where "receive_packages P L F t b (map ((!) pks) ks) (out @ blocks ! k) (y\<lparr>x_guard := memory_guard s2\<rparr>, fs) =
      (Inr (), (out @ blocks ! k) @ concat (map ((!) blocks) ks), y\<lparr>x_guard := memory_guard s2\<rparr>\<lparr>x_guard := memory_guard s'\<rparr>, fs)"
    using Cons.IH [of "y\<lparr>x_guard := memory_guard s2\<rparr>" s2 "out @ blocks ! k"] Cons.prems(1-3) by (auto simp: inj_on_def)
  with one show ?case by (intro exI [of _ s']) simp
qed

lemma payload_short:
  assumes "length (p_kind p) \<le> 10" and "length (p_content_type p) \<le> 100" and "length (p_body p) \<le> 1000"
    and "\<And>s. p_filename p = Some s \<Longrightarrow> length s \<le> 100" and "\<And>s. p_encoding p = Some s \<Longrightarrow> length s \<le> 100"
  shows "\<exists>b. payload_to_bytes L p = Inr b \<and> length b \<le> 28098"
proof -
  let ?fr = "float_repr L" and ?h = "payload_header p"
  have s: "length (dumps ?fr True (PStr x)) \<le> 6 * k + 2" if "length x \<le> k" for x k
    using length_dumps_str [of ?fr True x] that by linarith
  have i: "length (dumps ?fr True (PInt (int (length (p_body p))))) \<le> 19"
    by (rule length_dumps_int) (use assms(3) in simp)
  have "length (dumps_members ?fr True ?h) \<le> member_bound [62, 604, 602, 604, 19]"
    by (rule length_members)
      (use s [OF assms(1)] s [OF assms(2)] length_dumps_opt [of "p_filename p" 100 ?fr True] length_dumps_opt [of "p_encoding p" 100 ?fr True] i assms(4,5)
       in \<open>simp add: payload_header_def del: dumps.simps\<close>)
  then have "length (dumps ?fr True (PDict ?h)) \<le> 3000" by simp
  with length_utf8_le [of "dumps ?fr True (PDict ?h)"]
  have "length (utf8 (dumps ?fr True (PDict ?h))) \<le> 6000" by linarith
  then show ?thesis
    using assms(3) by (simp add: payload_to_bytes_def Let_def PAYLOAD_MAGIC_def guard_def)
qed

section \<open>Concrete streams\<close>

definition std_randoms :: "nat \<Rightarrow> send_random" where
  "std_randoms k = std_random\<lparr>sr_seal := (sr_seal std_random)\<lparr>r_env := replicate 16 (of_nat k)\<rparr>\<rparr>"

definition std_send :: send_args where
  "std_send = \<lparr>a_receiver_id = None, a_receiver = Some (PeerCard (std_card std_receiver)), a_sender_identity = None,
     a_sender = Some std_sender, a_output_file = None, a_metadata = None\<rparr>"

definition std_receive :: receive_args where
  "std_receive = \<lparr>b_sender_id = None, b_sender = None, b_sender_card = Some (PeerCard (std_card std_sender)),
     b_receiver_identity = None, b_receiver = Some std_receiver, b_package = InOther, b_download = None\<rparr>"

abbreviation std_world :: "(cards, mem_store) world" where
  "std_world \<equiv> (context_init ''/home'', \<lambda>_. None)"

lemma std_randoms_ok: "random_ok (std_randoms k)" "timely L (std_card i) (std_randoms k) (\<lambda>_. 1700000010)"
  using std_random_ok std_window by (auto simp: std_randoms_def random_ok_def timely_def std_valid in_window_def std_random_def)

lemma std_randoms_ids: "standard_ids (std_randoms k) (entity_id std_sender) (entity_id std_receiver)"
  using std_ids by (simp add: std_randoms_def standard_ids_def)

lemma std_direct: "direct_send std_send std_sender (std_card std_receiver)" "direct_receive std_receive std_receiver (std_card std_sender)"
  by (simp_all add: std_send_def std_receive_def direct_send_def direct_receive_def)

lemma std_send_with:
  assumes "length b \<le> 28098" and "direct_send a std_sender (std_card std_receiver)" and "a_output_file a = None" and "x_hook x = None"
  shows "\<exists>pk. send_with std_prims demo_lib F (std_randoms k) a b dt (x, fs) = (Inr pk, x, fs) \<and> \<not> pk_is_chunked pk"
proof -
  obtain pk where "seal_package std_prims demo_lib (std_randoms k) std_sender (entity_id std_receiver) (std_card std_receiver) b dt
      (case a_metadata a of None \<Rightarrow> [] | Some m \<Rightarrow> m) = Inr pk" "\<not> pk_is_chunked pk"
    using seal_package_standard [OF std_laws std_sizes std_parties std_randoms_ok(1) std_randoms_ids _ std_valid, of k b demo_lib _ dt] assms(1)
    by (auto simp: std_randoms_def std_random_def not_less)
  then show ?thesis
    using assms(2-4)
    by (simp add: send_with_def secure_send_payload_def direct_send_def std_resolve own_identity_def dispatch_package_def)
qed

lemma std_nonces: "inj_on (\<lambda>k. nonce_of (std_randoms k)) {..<3}"
proof -
  have "inj_on (\<lambda>k :: nat. of_nat k :: byte) {..<256}"
    by (rule inj_onI) (metis lessThan_iff unat_byte_of byte_of_def)
  then show ?thesis
    by (auto simp: inj_on_def nonce_of_def std_randoms_def)
qed

section \<open>Properties\<close>

text \<open>A stream carries no protection of its order or completeness. From the packages that \<open>SendStream\<close>
  made of the blocks of a file, \<open>ReceiveStream\<close> accepts any selection in any order (as long as none is
  repeated), without an error, and writes the blocks as they arrive: whoever carries the packages can
  reorder, drop and truncate the file. Only the complete stream in its order gives the file back.\<close>

theorem stream_order_unprotected:
  assumes "crypto_laws P" and "parties_ok P i ci j cj" and "direct_send a i cj" and "x_hook x = None"
    and "\<forall>k < length blocks. random_ok (R k) \<and> (\<forall>n. timely L ci (R k) (t n))"
    and "inj_on (\<lambda>k. nonce_of (R k)) {..<length blocks}"
    and "blocks \<noteq> []" and "stream_packages P L F R a fname ''binary'' blocks (x, fs) = (pks, None, w)"
    and "direct_receive b j ci" and "x_guard y = memory_guard s" and "room_for (length ks) s"
    and "\<forall>k < length blocks. mem_tracked s (nonce_of (R k)) = None"
    and "distinct ks" and "set ks \<subseteq> {..<length blocks}"
  shows "\<exists>y'. receive_stream P L F' t b (map ((!) pks) ks) path (y, fs') =
    (Inr path, y', fs'(path \<mapsto> concat (map ((!) blocks) ks)))"
proof -
  have c: "c_entity_id cj = entity_id j" using assms(2) by (simp add: parties_ok_def)
  have "send_blocks P L F R a fname ''binary'' 0 blocks (x, fs) = (pks, None, w)"
    using assms(7,8) by (simp add: stream_packages_def)
  from send_blocks_Inr [OF assms(3) c assms(4) this]
  have p: "\<forall>k < length blocks. sealed_block P L R i j cj fname ''binary'' k (blocks ! k) (pks ! k)" by simp
  have k: "k < length blocks" if "k \<in> set ks" for k using assms(14) that by auto
  have "inj_on (\<lambda>k. nonce_of (R k)) (set ks)" using inj_on_subset [OF assms(6) assms(14)] .
  then obtain s' where "receive_packages P L F' t b (map ((!) pks) ks) [] (y, fs'(path \<mapsto> [])) =
      (Inr (), [] @ concat (map ((!) blocks) ks), y\<lparr>x_guard := memory_guard s'\<rparr>, fs'(path \<mapsto> []))"
    using receive_blocks [OF assms(1,2,9,13), of R L fname blocks pks t y s F' "[]" "fs'(path \<mapsto> [])"] assms(5,10-12) p k by blast
  then show ?thesis by (simp add: receive_stream_def)
qed

theorem stream_order_unprotected_witness:
  "\<exists>pks w y. stream_packages std_prims demo_lib std_fresh std_randoms std_send None ''binary'' [[1], [2], [3]] std_world = (pks, None, w) \<and>
    length pks = 3 \<and>
    receive_stream std_prims demo_lib std_fresh (\<lambda>_ _. 1700000010) std_receive [pks ! 2, pks ! 0] ''/out'' std_world =
      (Inr ''/out'', y, (\<lambda>_. None)(''/out'' \<mapsto> [3, 1]))"
proof -
  have one: "\<exists>pk. send_block std_prims demo_lib std_fresh std_randoms std_send None k [n] std_world = (Inr pk, std_world)" for k n
  proof -
    obtain b where b: "pack_binary demo_lib [n] None ''application/octet-stream'' = Inr b" "length b \<le> 28098"
      using payload_short [of "\<lparr>p_kind = ''binary'', p_body = [n], p_filename = None, p_content_type = ''application/octet-stream'',
          p_encoding = None\<rparr>" demo_lib] by (auto simp: pack_binary_def)
    then show ?thesis
      using std_send_with [OF b(2), of "std_send\<lparr>a_metadata := Some (stream_metadata k None None)\<rparr>" "context_init ''/home''" std_fresh k "''binary''"]
      by (auto simp: send_block_def send_binary_def send_packed_def std_send_def direct_send_def context_init_def)
  qed
  obtain p0 p1 p2 where p: "send_block std_prims demo_lib std_fresh std_randoms std_send None 0 [1] std_world = (Inr p0, std_world)"
    "send_block std_prims demo_lib std_fresh std_randoms std_send None 1 [2] std_world = (Inr p1, std_world)"
    "send_block std_prims demo_lib std_fresh std_randoms std_send None 2 [3] std_world = (Inr p2, std_world)"
    using one by meson
  define pks where "pks = map (\<lambda>p. p\<lparr>pk_data_type := ''binary''\<rparr>) [p0, p1, p2]"
  have s: "stream_packages std_prims demo_lib std_fresh std_randoms std_send None ''binary'' [[1], [2], [3]] std_world =
      (pks, None, std_world)"
    using p by (simp add: stream_packages_def pks_def numeral_2_eq_2)
  have "\<exists>y. receive_stream std_prims demo_lib std_fresh (\<lambda>_ _. 1700000010) std_receive (map ((!) pks) [2, 0]) ''/out'' std_world =
      (Inr ''/out'', y, (\<lambda>_. None)(''/out'' \<mapsto> concat (map ((!) [[1], [2], [3]]) [2, 0])))"
    by (rule stream_order_unprotected [OF std_laws std_parties std_direct(1) _ _ _ _ s std_direct(2) std_context])
      (use std_randoms_ok std_nonces mem_inv_init in
        \<open>auto simp: context_init_def room_for_def mem_init_def MAX_NONCE_STORE_SIZE_def mem_tracked_def lessThan_Suc numeral_3_eq_3\<close>)
  with s show ?thesis by (auto simp: pks_def)
qed

text \<open>The sender chooses where a received file is written: whatever name it gives the bytes it sends
  with \<open>SendFile\<close>, a receiver that calls \<open>Receive\<close> without a download path writes them to that name
  below its default directory, with no check of the name; a name that begins with a slash is used as it
  is, so that any file the process may write is overwritten. (\<open>unpack_to_file\<close> of the core, in contrast,
  keeps only the last component of the name.)\<close>

theorem received_file_escapes:
  assumes "crypto_laws P" and "parties_ok P i ci j cj" and "random_ok R" and "timely L ci R t"
    and "direct_send a i cj" and "x_hook x = None" and "fname \<noteq> []"
    and "send_file P L guess F R a (ItemBytes d) (Some fname) ctype None (x, fs) = (Inr (SentPackage pk), w)"
    and "direct_receive b j ci" and "b_download b = None"
    and "x_guard y = memory_guard s" and "room_for 1 s" and "mem_tracked s (nonce_of R) = None"
  shows "\<exists>y'. receive_any P L C is_dir F' t rk rs (b\<lparr>b_package := InPackage pk\<rparr>) (y, fs') =
      (Inr (GotFile (path_join (x_output_dir y) fname)), y', fs'(path_join (x_output_dir y) fname \<mapsto> d)) \<and>
    (\<forall>f. fname = CHR ''/'' # f \<longrightarrow> path_join (x_output_dir y) fname = fname)"
proof -
  have c: "c_entity_id cj = entity_id j" using assms(2) by (simp add: parties_ok_def)
  let ?p = "\<lparr>p_kind = ''file'', p_body = d, p_filename = Some fname, p_content_type = named ctype ''application/octet-stream'', p_encoding = None\<rparr>"
  obtain bs where bs: "payload_to_bytes L ?p = Inr bs" "send_with P L F R a bs ''file'' (x, fs) = (Inr pk, w)"
    using assms(7,8) by (auto simp: send_file_def package_sent_def and_then_Inr send_packed_Inr named_def)
  have p: "payload_from_bytes bs = Inr ?p"
    by (rule payload_bytes_roundtrip [OF _ bs(1)]) (auto simp: payload_ok_def PAYLOAD_KINDS_def named_def split: option.splits)
  note s = send_with_direct(1) [OF assms(5) c assms(6) bs(2)]
  obtain s2 where r: "receive_with P L F' t (b\<lparr>b_package := InPackage pk\<rparr>) (Some ''file'') (y, fs') =
      (Inr bs, y\<lparr>x_guard := memory_guard s2\<rparr>, fs')"
    by (rule exchange_payload [OF assms(1-4) s assms(9,11,12,13)])
  have dt: "pk_data_type pk = ''file''" using s by (rule seal_package_Inr) simp
  have rt: "receive_route_of_type ''file'' = Some RPlainFile" by code_simp
  have "receive_any P L C is_dir F' t rk rs (b\<lparr>b_package := InPackage pk\<rparr>) (y, fs') =
      (Inr (GotFile (path_join (x_output_dir y) fname)), y\<lparr>x_guard := memory_guard s2\<rparr>,
       fs'(path_join (x_output_dir y) fname \<mapsto> d))"
    using r p assms(7,10) rt dt
    by (simp add: receive_any_def resolve_package_input_def receive_file_type_def after_receive_def save_download_def
        resolve_download_target_def named_def Let_def)
  then show ?thesis by (auto simp: path_join_def starts_with_def)
qed

theorem received_file_escapes_witness:
  "\<exists>pk w y. send_file std_prims demo_lib (\<lambda>_. None) std_fresh (std_randoms 0) std_send (ItemBytes [66]) (Some ''/etc/cron.d/x'') None None std_world =
      (Inr (SentPackage pk), w) \<and>
    receive_any std_prims demo_lib demo_codecs (\<lambda>_. False) std_fresh (\<lambda>_. 1700000010) [] [] (std_receive\<lparr>b_package := InPackage pk\<rparr>) std_world =
      (Inr (GotFile ''/etc/cron.d/x''), y, (\<lambda>_. None)(''/etc/cron.d/x'' \<mapsto> [66]))"
proof -
  let ?p = "\<lparr>p_kind = ''file'', p_body = [66], p_filename = Some ''/etc/cron.d/x'', p_content_type = ''application/octet-stream'',
      p_encoding = None\<rparr>"
  obtain b where b: "payload_to_bytes demo_lib ?p = Inr b" "length b \<le> 28098"
    using payload_short [of ?p demo_lib] by auto
  obtain pk where pk: "send_with std_prims demo_lib std_fresh (std_randoms 0) std_send b ''file'' std_world = (Inr pk, std_world)"
    using std_send_with [OF b(2) std_direct(1), of "context_init ''/home''" std_fresh 0 "''file''"]
    by (auto simp: std_send_def context_init_def)
  then have s: "send_file std_prims demo_lib (\<lambda>_. None) std_fresh (std_randoms 0) std_send (ItemBytes [66]) (Some ''/etc/cron.d/x'') None None std_world =
      (Inr (SentPackage pk), std_world)"
    using b(1) by (simp add: send_file_def package_sent_def send_packed_def named_def)
  have "\<exists>y'. receive_any std_prims demo_lib demo_codecs (\<lambda>_. False) std_fresh (\<lambda>_. 1700000010) [] [] (std_receive\<lparr>b_package := InPackage pk\<rparr>) std_world =
      (Inr (GotFile (path_join (x_output_dir (fst std_world)) ''/etc/cron.d/x'')), y',
       (\<lambda>_. None)(path_join (x_output_dir (fst std_world)) ''/etc/cron.d/x'' \<mapsto> [66])) \<and>
     (\<forall>f. ''/etc/cron.d/x'' = CHR ''/'' # f \<longrightarrow> path_join (x_output_dir (fst std_world)) ''/etc/cron.d/x'' = ''/etc/cron.d/x'')"
    unfolding fst_conv
    by (rule received_file_escapes [OF std_laws std_parties std_randoms_ok std_direct(1) _ _ s std_direct(2) _ std_context])
      (use mem_inv_init in \<open>simp_all add: context_init_def std_receive_def room_for_def mem_init_def MAX_NONCE_STORE_SIZE_def mem_tracked_def\<close>)
  with s show ?thesis by (auto simp: path_join_def starts_with_def)
qed

end
