(* ===== verification/Client.thy ===== *)
theory Client
  imports Http SecureTypes
begin

text \<open>
  \<open>uxsp/client\<close>: the smart HTTP client. A request goes out sealed if the host is known to speak the
  protocol, and plain otherwise; what is known about hosts is kept in a cache and learned from the
  headers of their responses. The operations that the client calls (identity, card lookup,
  \<open>Send\<close>, \<open>Receive\<close>, the network, the cache) are the fields of \<open>client_ops\<close> over a state of
  any type; \<open>sync_ops\<close> builds them for \<open>UXSPClient\<close> from the models of those parts. The network is a
  parameter. Time-outs, redirects and closing are not modelled.
\<close>

section \<open>The capability cache\<close>

record capability =
  h_host :: string
  h_supports :: bool
  h_version :: "string option"
  h_peer :: "string option"
  h_cached_at :: time
  h_ttl :: rat

definition cap_new :: "time \<Rightarrow> string \<Rightarrow> bool \<Rightarrow> string option \<Rightarrow> string option \<Rightarrow> capability" where
  "cap_new now host supports version pid = \<lparr>h_host = host, h_supports = supports, h_version = version, h_peer = pid,
     h_cached_at = now, h_ttl = 3600\<rparr>"

definition cap_is_expired :: "time \<Rightarrow> capability \<Rightarrow> bool" where
  "cap_is_expired now c \<longleftrightarrow> h_ttl c < now - h_cached_at c"

text \<open>\<open>urllib.parse.urlsplit\<close> as far as \<open>normalize_host_key\<close> uses it, on a text that starts with one
  of the four schemes; \<open>ip_ok\<close> is the check of a bracketed address. The scheme is the text before
  the first colon.\<close>

definition before :: "char set \<Rightarrow> string \<Rightarrow> string" where
  "before cs s = takeWhile (\<lambda>c. c \<notin> cs) s"

definition after_char :: "char \<Rightarrow> string \<Rightarrow> string option" where
  \<comment> \<open>what follows the first occurrence\<close>
  "after_char c s = (if c \<in> set s then Some (tl (dropWhile (\<lambda>d. d \<noteq> c) s)) else None)"

definition after_last :: "char \<Rightarrow> string \<Rightarrow> string" where
  \<comment> \<open>\<open>s.rpartition(c)[2]\<close>\<close>
  "after_last c s = rev (takeWhile (\<lambda>d. d \<noteq> c) (rev s))"

definition host_info :: "string \<Rightarrow> string \<times> string" where
  \<comment> \<open>\<open>_hostinfo\<close>: host name and port text of a network location\<close>
  "host_info netloc =
     (let info = after_last CHR ''@'' netloc
      in case after_char CHR ''['' info of
           Some br \<Rightarrow> (before {CHR '']''} br,
             case after_char CHR '']'' br of None \<Rightarrow> [] | Some r \<Rightarrow> (case after_char CHR '':'' r of None \<Rightarrow> [] | Some p \<Rightarrow> p))
         | None \<Rightarrow> (before {CHR '':''} info, case after_char CHR '':'' info of None \<Rightarrow> [] | Some p \<Rightarrow> p))"

definition host_name :: "string \<Rightarrow> string" where
  \<comment> \<open>the zone of an address keeps its case\<close>
  "host_name h = lower_case (before {CHR ''%''} h) @ drop (length (before {CHR ''%''} h)) h"

definition port_of :: "string \<Rightarrow> int option res" where
  "port_of p =
     (if p = [] then Inr None
      else if \<forall>c \<in> set p. is_digit c
      then guard (digits_value p \<le> 65535) ValueError (Inr (Some (int (digits_value p))))
      else Inl ValueError)"

definition url_netloc :: "(string \<Rightarrow> bool) \<Rightarrow> string \<Rightarrow> string res" where
  \<comment> \<open>what stands between \<open>scheme://\<close> and the path, query or fragment\<close>
  "url_netloc ip_ok rest =
     (let clean = filter (\<lambda>c. c \<notin> {CHR 0x09, CHR 0x0A, CHR 0x0D}) rest;
          netloc = before {CHR ''/'', CHR ''?'', CHR ''#''} clean;
          op = CHR ''['' \<in> set netloc; cl = CHR '']'' \<in> set netloc
      in guard (op = cl) ValueError (guard (\<not> op \<or> ip_ok netloc) ValueError (Inr netloc)))"

definition SCHEMES :: "string list" where
  "SCHEMES = [''http://'', ''https://'', ''ws://'', ''wss://'']"

definition normalize_host_key :: "(string \<Rightarrow> bool) \<Rightarrow> string \<Rightarrow> string res" where
  "normalize_host_key ip_ok url =
     (let full = (if \<exists>s \<in> set SCHEMES. starts_with s url then url else ''https://'' @ url);
          scheme = before {CHR '':''} full
      in rbind (url_netloc ip_ok (drop (length scheme + 3) full)) (\<lambda>netloc.
         case host_info netloc of (h, p) \<Rightarrow>
         rbind (port_of p) (\<lambda>po.
         let hostname = lower_case (host_name h);
             port = (case po of Some n \<Rightarrow> n | None \<Rightarrow> if scheme \<in> {''https'', ''wss''} then 443 else 80)
         in Inr (hostname @ '':'' @ str_int port))))"

text \<open>\<open>InMemoryHostCapabilityCache\<close>\<close>

type_synonym mem_cache = "(string \<times> capability) list"

definition mc_get :: "time \<Rightarrow> string \<Rightarrow> mem_cache \<Rightarrow> capability option res \<times> mem_cache" where
  "mc_get now k s = (case map_of s k of
     None \<Rightarrow> (Inr None, s)
   | Some c \<Rightarrow> if cap_is_expired now c then (Inr None, AList.delete k s) else (Inr (Some c), s))"

definition mc_set :: "string \<Rightarrow> capability \<Rightarrow> mem_cache \<Rightarrow> unit res \<times> mem_cache" where
  "mc_set k c s = (Inr (), AList.update k c s)"

definition mc_clear :: "mem_cache \<Rightarrow> unit res \<times> mem_cache" where
  "mc_clear s = (Inr (), [])"

section \<open>What the client works with\<close>

record request =
  rq_method :: string
  rq_url :: string
  rq_headers :: headers
  rq_content :: "bytes option"

record response =
  rs_status :: int
  rs_headers :: headers
  rs_content :: bytes
  rs_url :: string
  rs_is_uxsp :: bool
  rs_package :: "package option"
  rs_data :: "received option"

record 'w client_ops =
  op_identity :: "'w \<Rightarrow> identity res \<times> 'w"
  op_lookup :: "string \<Rightarrow> 'w \<Rightarrow> public_card option res \<times> 'w"
  op_send :: "public_card \<Rightarrow> identity \<Rightarrow> item \<Rightarrow> 'w \<Rightarrow> sent res \<times> 'w"
  op_receive :: "public_card \<Rightarrow> identity \<Rightarrow> package \<Rightarrow> 'w \<Rightarrow> received res \<times> 'w"
  op_net :: "request \<Rightarrow> 'w \<Rightarrow> (int \<times> headers \<times> bytes) res \<times> 'w"
  op_cache_get :: "string \<Rightarrow> 'w \<Rightarrow> capability option res \<times> 'w"
  op_cache_set :: "string \<Rightarrow> capability \<Rightarrow> 'w \<Rightarrow> unit res \<times> 'w"

record client =
  cl_identity :: "identity option"
  cl_allow_fallback :: bool
  cl_force_uxsp :: bool
  cl_registry :: "(string \<times> public_card) list"
  cl_http_client :: bool  \<comment> \<open>an HTTP library is there; otherwise \<open>urllib\<close>\<close>

record fetch_args =
  fa_url :: string
  fa_data :: "item option"
  fa_json :: "pyval option"
  fa_json_data :: "pyval option"
  fa_method :: string
  fa_headers :: headers
  fa_peer_id :: "string option"
  fa_peer_card :: "peer option"
  fa_allow_fallback :: "bool option"
  fa_force_uxsp :: "bool option"

definition client_register_peer :: "string \<Rightarrow> public_card \<Rightarrow> client \<Rightarrow> client" where
  "client_register_peer host_or_id c cl = cl\<lparr>cl_registry := AList.update (lower_case host_or_id) c (cl_registry cl)\<rparr>"

definition given :: "'a option \<Rightarrow> 'a \<Rightarrow> 'a" where
  "given x d = (case x of None \<Rightarrow> d | Some v \<Rightarrow> v)"

section \<open>The peer of a host\<close>

definition known_peer :: "'w client_ops \<Rightarrow> client \<Rightarrow> string option \<Rightarrow> 'w \<Rightarrow> public_card option res \<times> 'w" where
  \<comment> \<open>by id: the registry, then the key stores\<close>
  "known_peer Q cl pid w = (case pid of
     None \<Rightarrow> (Inr None, w)
   | Some p \<Rightarrow>
       if p = [] then (Inr None, w)
       else case map_of (cl_registry cl) p of Some c \<Rightarrow> (Inr (Some c), w) | None \<Rightarrow> op_lookup Q p w)"

definition resolve_peer_card :: "pylib \<Rightarrow> 'w client_ops \<Rightarrow> client \<Rightarrow> string \<Rightarrow> string option \<Rightarrow> peer option \<Rightarrow>
    capability option \<Rightarrow> 'w \<Rightarrow> public_card option res \<times> 'w" where
  "resolve_peer_card L Q cl host_key pid pcard cap w = (case pcard of
     Some (PeerCard c) \<Rightarrow> (Inr (Some c), w)
   | Some (PeerIdentity i) \<Rightarrow> (rbind (own_card L i) (\<lambda>c. Inr (Some c)), w)
   | _ \<Rightarrow>
       and_then (known_peer Q cl pid w) (\<lambda>r w1.
         case r of Some c \<Rightarrow> (Inr (Some c), w1)
         | None \<Rightarrow>
             (case map_of (cl_registry cl) host_key of Some c \<Rightarrow> (Inr (Some c), w1)
              | None \<Rightarrow> known_peer Q cl (case cap of None \<Rightarrow> None | Some k \<Rightarrow> h_peer k) w1)))"

definition get_active_identity :: "'w client_ops \<Rightarrow> client \<Rightarrow> 'w \<Rightarrow> identity res \<times> 'w" where
  "get_active_identity Q cl w = (case cl_identity cl of Some i \<Rightarrow> (Inr i, w) | None \<Rightarrow> op_identity Q w)"

section \<open>Requests\<close>

definition raw_send :: "'w client_ops \<Rightarrow> client \<Rightarrow> request \<Rightarrow> 'w \<Rightarrow> (int \<times> headers \<times> bytes) res \<times> 'w" where
  "raw_send Q cl rq w =
     (if cl_http_client cl \<or> starts_with ''http://'' (rq_url rq) \<or> starts_with ''https://'' (rq_url rq)
      then op_net Q rq w else (Inl ValueError, w))"

definition quote_byte :: "byte \<Rightarrow> string" where
  \<comment> \<open>one byte of \<open>quote_plus\<close>\<close>
  "quote_byte b =
     (let n = unat b; c = char_of n :: char
      in if 48 \<le> n \<and> n \<le> 57 \<or> 65 \<le> n \<and> n \<le> 90 \<or> 97 \<le> n \<and> n \<le> 122 \<or> c \<in> {CHR ''_'', CHR ''.'', CHR ''-'', CHR 0x7E}
         then [c] else if n = 32 then ''+''
         else [CHR ''%'', ''0123456789ABCDEF'' ! (n div 16), ''0123456789ABCDEF'' ! (n mod 16)])"

definition quote_plus :: "string \<Rightarrow> string" where
  "quote_plus s = concat (map quote_byte (utf8 s))"

fun join_amp :: "string list \<Rightarrow> string" where
  "join_amp [] = []"
| "join_amp [x] = x"
| "join_amp (x # y # zs) = x @ ''&'' @ join_amp (y # zs)"

definition urlencode :: "pylib \<Rightarrow> dict \<Rightarrow> string" where
  "urlencode L d = join_amp (map (\<lambda>(k, v). quote_plus k @ ''='' @ quote_plus (py_str L v)) d)"

definition setdefault :: "string \<Rightarrow> string \<Rightarrow> headers \<Rightarrow> headers" where
  "setdefault k v hs = (if map_of hs k = None then hs @ [(k, v)] else hs)"

definition plain_content :: "pylib \<Rightarrow> item option \<Rightarrow> pyval option \<Rightarrow> headers \<Rightarrow> bytes option \<times> headers" where
  "plain_content L data json hs = (case json of
     Some v \<Rightarrow> (Some (utf8 (dumps (float_repr L) False v)), setdefault ''Content-Type'' ''application/json'' hs)
   | None \<Rightarrow> (case data of
       Some (ItemBytes b) \<Rightarrow> (Some b, hs)
     | Some (ItemStr s) \<Rightarrow> (Some (utf8 s), hs)
     | Some (ItemJson (PDict d)) \<Rightarrow>
         (Some (utf8 (urlencode L d)), setdefault ''Content-Type'' ''application/x-www-form-urlencoded'' hs)
     | _ \<Rightarrow> (None, hs)))"

definition send_plain :: "pylib \<Rightarrow> 'w client_ops \<Rightarrow> client \<Rightarrow> string \<Rightarrow> string \<Rightarrow> item option \<Rightarrow> pyval option \<Rightarrow> headers \<Rightarrow>
    'w \<Rightarrow> response res \<times> 'w" where
  "send_plain L Q cl meth url data json hs w =
     (case plain_content L data json hs of (content, hs1) \<Rightarrow>
        and_then (raw_send Q cl \<lparr>rq_method = meth, rq_url = url, rq_headers = hs1, rq_content = content\<rparr> w)
          (\<lambda>(status, rhs, body) w1. (Inr \<lparr>rs_status = status, rs_headers = rhs, rs_content = body, rs_url = url,
             rs_is_uxsp = False, rs_package = None, rs_data = None\<rparr>, w1)))"

definition item_of_json :: "pyval \<Rightarrow> item" where
  \<comment> \<open>a JSON value as the argument of \<open>Send\<close>\<close>
  "item_of_json v = (case v of PStr s \<Rightarrow> ItemStr s | PDict d \<Rightarrow> ItemJson v | PList vs \<Rightarrow> ItemJson v | _ \<Rightarrow> ItemOther)"

definition payload_item :: "item option \<Rightarrow> pyval option \<Rightarrow> item" where
  "payload_item data json = (case json of Some v \<Rightarrow> item_of_json v | None \<Rightarrow> given data (ItemStr []))"

definition put_header :: "string \<Rightarrow> string \<Rightarrow> headers \<Rightarrow> headers" where
  "put_header k v hs = AList.update k v hs"

definition sealed_request :: "pylib \<Rightarrow> string \<Rightarrow> string \<Rightarrow> headers \<Rightarrow> identity \<Rightarrow> public_card \<Rightarrow> package \<Rightarrow> request" where
  "sealed_request L meth url hs me pc pk =
     \<lparr>rq_method = (if upper meth = ''GET'' then ''POST'' else upper meth), rq_url = url,
      rq_headers = put_header HEADER_SEC_UXSP_SUPPORT DEFAULT_UXSP_SUPPORT
       (put_header ''X-UXSP-Version'' ''1'' (put_header ''X-UXSP-Recipient'' (c_entity_id pc)
         (put_header ''X-UXSP-Sender'' (entity_id me) (put_header ''X-UXSP-Package'' ''1''
           (put_header ''Content-Type'' ''application/uxsp+json'' hs))))),
      rq_content = Some (utf8 (package_to_json L False pk))\<rparr>"

definition nonempty :: "string option \<Rightarrow> string option" where
  "nonempty x = (case x of Some s \<Rightarrow> if s = [] then None else Some s | None \<Rightarrow> None)"

definition is_sealed_response :: "headers \<Rightarrow> bool" where
  "is_sealed_response rhs \<longleftrightarrow>
     contains_text ''application/uxsp+json'' (given (header_value rhs ''content-type'') []) \<or>
     nonempty (header_value rhs ''x-uxsp-package'') \<noteq> None"

definition read_response :: "pylib \<Rightarrow> 'w client_ops \<Rightarrow> identity \<Rightarrow> public_card \<Rightarrow> bytes \<Rightarrow> 'w \<Rightarrow>
    (package \<times> received) res \<times> 'w" where
  "read_response L Q me pc body w =
     (case utf8_decode body of
        None \<Rightarrow> (Inl UnicodeDecodeError, w)
      | Some s \<Rightarrow> (case package_from_text L (strip s) of
          Inl e \<Rightarrow> (Inl e, w)
        | Inr pk \<Rightarrow> and_then (op_receive Q pc me pk w) (\<lambda>d w1. (Inr (pk, d), w1))))"

definition send_uxsp :: "pylib \<Rightarrow> 'w client_ops \<Rightarrow> client \<Rightarrow> time \<Rightarrow> string \<Rightarrow> string \<Rightarrow> item option \<Rightarrow> pyval option \<Rightarrow>
    headers \<Rightarrow> public_card \<Rightarrow> string \<Rightarrow> 'w \<Rightarrow> response res \<times> 'w" where
  \<comment> \<open>a package for which \<open>Send\<close> returns a stream has no \<open>to_json\<close>\<close>
  "send_uxsp L Q cl now meth url data json hs pc host_key w =
     and_then (get_active_identity Q cl w) (\<lambda>me w1.
     and_then (op_send Q pc me (payload_item data json) w1) (\<lambda>s w2. case s of
       SentStream p dt \<Rightarrow> (Inl AttributeError, w2)
     | SentPackage pk \<Rightarrow>
     and_then (raw_send Q cl (sealed_request L meth url hs me pc pk) w2) (\<lambda>(status, rhs, body) w3.
     and_then (op_cache_set Q host_key (cap_new now host_key True
         (Some (given (nonempty (header_value rhs HEADER_SEC_UXSP_SELECTED)) ''v1.2'')) (Some (c_entity_id pc))) w3) (\<lambda>_ w4.
     let plain = \<lparr>rs_status = status, rs_headers = rhs, rs_content = body, rs_url = url, rs_is_uxsp = False,
           rs_package = None, rs_data = None\<rparr>
     in if is_sealed_response rhs
        then (case read_response L Q me pc body w4 of
            (Inr (pk', d), w5) \<Rightarrow> (Inr (plain\<lparr>rs_is_uxsp := True, rs_package := Some pk', rs_data := Some d\<rparr>), w5)
          | (Inl e, w5) \<Rightarrow> (if cl_allow_fallback cl then Inr plain else Inl UXSPClientError, w5))
        else (Inr plain, w4)))))"

section \<open>Fetch\<close>

definition probe :: "pylib \<Rightarrow> 'w client_ops \<Rightarrow> client \<Rightarrow> time \<Rightarrow> fetch_args \<Rightarrow> string \<Rightarrow> 'w \<Rightarrow> response res \<times> 'w" where
  \<comment> \<open>an unknown host: the request itself, plain, with a header that offers the protocol\<close>
  "probe L Q cl now a host_key w =
     and_then (send_plain L Q cl (fa_method a) (fa_url a) (fa_data a) (or_else (fa_json a) (fa_json_data a))
         (put_header HEADER_SEC_UXSP_SUPPORT DEFAULT_UXSP_SUPPORT (fa_headers a)) w) (\<lambda>rs w1.
     let sel = nonempty (header_value (rs_headers rs) HEADER_SEC_UXSP_SELECTED)
     in and_then (op_cache_set Q host_key (if sel \<noteq> None
            then cap_new now host_key True sel (header_value (rs_headers rs) ''x-uxsp-sender'')
            else cap_new now host_key False None None) w1) (\<lambda>_ w2. (Inr rs, w2)))"

definition fetch_known :: "pylib \<Rightarrow> 'w client_ops \<Rightarrow> client \<Rightarrow> time \<Rightarrow> fetch_args \<Rightarrow> string \<Rightarrow> capability option \<Rightarrow>
    public_card option \<Rightarrow> 'w \<Rightarrow> response res \<times> 'w" where
  \<comment> \<open>the three cases, with what the cache says and the card that was found\<close>
  "fetch_known L Q cl now a host_key cap ocard w =
     (let json = or_else (fa_json a) (fa_json_data a);
          allow = given (fa_allow_fallback a) (cl_allow_fallback cl); force = given (fa_force_uxsp a) (cl_force_uxsp cl);
          plain = (\<lambda>w. send_plain L Q cl (fa_method a) (fa_url a) (fa_data a) json (fa_headers a) w);
          supports = (\<lambda>b. case cap of None \<Rightarrow> False | Some k \<Rightarrow> h_supports k = b)
      in if supports False then plain w
         else if supports True \<or> force then
           (case ocard of
              None \<Rightarrow> (Inl UXSPPeerResolutionError, w)
            | Some pc \<Rightarrow>
                (case send_uxsp L Q cl now (fa_method a) (fa_url a) (fa_data a) json (fa_headers a) pc host_key w of
                   (Inl e, w1) \<Rightarrow>
                     if \<not> allow then (Inl e, w1)
                     else if force then (Inl ProtocolFallbackError, w1)
                     else plain w1
                 | r \<Rightarrow> r))
         else probe L Q cl now a host_key w)"

definition fetch :: "pylib \<Rightarrow> (string \<Rightarrow> bool) \<Rightarrow> 'w client_ops \<Rightarrow> client \<Rightarrow> time \<Rightarrow> fetch_args \<Rightarrow> 'w \<Rightarrow> response res \<times> 'w" where
  "fetch L ip_ok Q cl now a w =
     (case normalize_host_key ip_ok (fa_url a) of
        Inl e \<Rightarrow> (Inl e, w)
      | Inr host_key \<Rightarrow>
          and_then (op_cache_get Q host_key w) (\<lambda>cap w1.
          if given (fa_force_uxsp a) (cl_force_uxsp cl) \<and> (case cap of None \<Rightarrow> False | Some k \<Rightarrow> \<not> h_supports k)
          then (Inl ProtocolFallbackError, w1)
          else and_then (resolve_peer_card L Q cl host_key (fa_peer_id a) (fa_peer_card a) cap w1) (\<lambda>ocard w2.
            fetch_known L Q cl now a host_key cap ocard w2)))"

section \<open>The synchronous client\<close>

text \<open>Its state: the global context with the files, the key store given to the client with what \<open>bool\<close> of it
  says (an empty store counts as none), the cache and the network.\<close>

record 'o own_store =
  os_truth :: "'o \<Rightarrow> bool res \<times> 'o"
  os_get :: "string \<Rightarrow> 'o \<Rightarrow> card option res \<times> 'o"

record ('k, 'n, 'o, 'v) client_world =
  cw_world :: "('k, 'n) world"
  cw_own :: "('o own_store \<times> 'o) option"
  cw_cache :: mem_cache
  cw_net :: 'v

definition bare_card :: "card \<Rightarrow> public_card" where
  "bare_card c = (case c of Public pc \<Rightarrow> pc | Signed sc \<Rightarrow> sc_card sc)"

definition store_lookup :: "string \<Rightarrow> ('k, 'n, 'o, 'v) client_world \<Rightarrow> public_card option res \<times> ('k, 'n, 'o, 'v) client_world" where
  \<comment> \<open>\<open>ks = self.keystore or context._keystore; ks.get(eid)\<close>\<close>
  "store_lookup eid w =
     (let in_context = (\<lambda>w. case ks_get (x_store (fst (cw_world w))) eid (x_cards (fst (cw_world w))) of
            (r, cs) \<Rightarrow> (rbind r (\<lambda>oc. Inr (map_option bare_card oc)), w\<lparr>cw_world := ((fst (cw_world w))\<lparr>x_cards := cs\<rparr>, snd (cw_world w))\<rparr>))
      in case cw_own w of
           None \<Rightarrow> in_context w
         | Some (K, s) \<Rightarrow>
             (case os_truth K s of
                (Inl e, s1) \<Rightarrow> (Inl e, w\<lparr>cw_own := Some (K, s1)\<rparr>)
              | (Inr False, s1) \<Rightarrow> in_context (w\<lparr>cw_own := Some (K, s1)\<rparr>)
              | (Inr True, s1) \<Rightarrow> (case os_get K eid s1 of
                  (r, s2) \<Rightarrow> (rbind r (\<lambda>oc. Inr (map_option bare_card oc)), w\<lparr>cw_own := Some (K, s2)\<rparr>))))"

definition in_world :: "(('k, 'n) world \<Rightarrow> 'a res \<times> ('k, 'n) world) \<Rightarrow> ('k, 'n, 'o, 'v) client_world \<Rightarrow>
    'a res \<times> ('k, 'n, 'o, 'v) client_world" where
  "in_world f w = (case f (cw_world w) of (r, x) \<Rightarrow> (r, w\<lparr>cw_world := x\<rparr>))"

record client_env =
  ce_fresh :: fresh_identity
  ce_random :: send_random
  ce_times :: "nat \<Rightarrow> time"
  ce_now :: time
  ce_guess :: "string \<Rightarrow> string option"
  ce_is_dir :: "string \<Rightarrow> bool"
  ce_key :: bytes
  ce_sid :: bytes

definition sync_ops :: "prims \<Rightarrow> pylib \<Rightarrow> codecs \<Rightarrow> client_env \<Rightarrow> (request \<Rightarrow> 'v \<Rightarrow> (int \<times> headers \<times> bytes) res \<times> 'v) \<Rightarrow>
    ('k, 'n, 'o, 'v) client_world client_ops" where
  "sync_ops P L C E N = \<lparr>
     op_identity = in_world (\<lambda>(x, fs). case get_identity P L (ce_fresh E) x of (r, x') \<Rightarrow> (r, x', fs)),
     op_lookup = store_lookup,
     op_send = (\<lambda>pc me it. in_world (send_any P L C (ce_guess E) (ce_fresh E) (ce_random E) (ce_key E) (ce_sid E)
       \<lparr>a_receiver_id = None, a_receiver = Some (PeerCard pc), a_sender_identity = None, a_sender = Some me,
        a_output_file = None, a_metadata = None\<rparr> None it)),
     op_receive = (\<lambda>pc me pk. in_world (receive_any P L C (ce_is_dir E) (ce_fresh E) (ce_times E) (ce_key E) (ce_sid E)
       \<lparr>b_sender_id = None, b_sender = Some (PeerCard pc), b_sender_card = None, b_receiver_identity = None,
        b_receiver = Some me, b_package = InPackage pk, b_download = None\<rparr>)),
     op_net = (\<lambda>rq w. case N rq (cw_net w) of (r, v) \<Rightarrow> (r, w\<lparr>cw_net := v\<rparr>)),
     op_cache_get = (\<lambda>k w. case mc_get (ce_now E) k (cw_cache w) of (r, s) \<Rightarrow> (r, w\<lparr>cw_cache := s\<rparr>)),
     op_cache_set = (\<lambda>k c w. case mc_set k c (cw_cache w) of (r, s) \<Rightarrow> (r, w\<lparr>cw_cache := s\<rparr>))\<rparr>"

section \<open>Lemmas: what goes over the wire\<close>

text \<open>A network that records the requests made to it, among operations that make none.\<close>

locale client_net =
  fixes Q :: "'w client_ops" and sent :: "'w \<Rightarrow> request list"
  assumes net_logs: "sent (snd (op_net Q rq w)) = sent w @ [rq]"
    and identity_quiet: "sent (snd (op_identity Q w)) = sent w"
    and lookup_quiet: "sent (snd (op_lookup Q p w)) = sent w"
    and send_quiet: "sent (snd (op_send Q pc me it w)) = sent w"
    and receive_quiet: "sent (snd (op_receive Q pc me pk w)) = sent w"
    and cache_get_quiet: "sent (snd (op_cache_get Q k w)) = sent w"
    and cache_set_quiet: "sent (snd (op_cache_set Q k c w)) = sent w"
begin

lemma and_then_quiet:
  assumes "sent (snd r) = sent w" and "\<And>x. fst r = Inr x \<Longrightarrow> sent (snd (f x (snd r))) = sent (snd r)"
  shows "sent (snd (and_then r f)) = sent w"
  using assms by (cases r) (auto simp: and_then_def split: sum.splits)

lemma known_peer_quiet: "sent (snd (known_peer Q cl pid w)) = sent w"
  by (auto simp: known_peer_def lookup_quiet split: option.splits)

lemma resolve_quiet: "sent (snd (resolve_peer_card L Q cl k pid pcard cap w)) = sent w"
  unfolding resolve_peer_card_def
  by (auto split: option.splits peer.splits intro!: and_then_quiet simp: known_peer_quiet)

lemma active_quiet: "sent (snd (get_active_identity Q cl w)) = sent w"
  by (simp add: get_active_identity_def identity_quiet split: option.splits)

lemma raw_send_sent: "sent (snd (raw_send Q cl rq w)) = sent w \<or> sent (snd (raw_send Q cl rq w)) = sent w @ [rq]"
  by (simp add: raw_send_def net_logs)

lemma read_response_quiet: "sent (snd (read_response L Q me pc body w)) = sent w"
  by (auto simp: read_response_def receive_quiet split: option.splits sum.splits intro!: and_then_quiet)

lemma send_uxsp_sent:
  "sent (snd (send_uxsp L Q cl now meth url data json hs pc k w)) = sent w \<or>
   (\<exists>me w1 pk. fst (op_send Q pc me (payload_item data json) w1) = Inr (SentPackage pk) \<and>
      sent (snd (send_uxsp L Q cl now meth url data json hs pc k w)) = sent w @ [sealed_request L meth url hs me pc pk])"
proof -
  let ?r = "send_uxsp L Q cl now meth url data json hs pc k w"
  obtain ri w1 where 1: "get_active_identity Q cl w = (ri, w1)" by (rule prod.exhaust)
  have q1: "sent w1 = sent w" using active_quiet [of cl w] 1 by simp
  show ?thesis
  proof (cases ri)
    case (Inl e)
    with 1 q1 show ?thesis by (simp add: send_uxsp_def and_then_def)
  next
    case (Inr me)
    obtain rs w2 where 2: "op_send Q pc me (payload_item data json) w1 = (rs, w2)" by (rule prod.exhaust)
    have q2: "sent w2 = sent w" using send_quiet [of pc me "payload_item data json" w1] 2 q1 by simp
    show ?thesis
    proof (cases "\<exists>pk. rs = Inr (SentPackage pk)")
      case False
      with 1 2 Inr q2 show ?thesis by (auto simp: send_uxsp_def and_then_def split: sum.splits sent.splits)
    next
      case True
      then obtain pk where pk: "rs = Inr (SentPackage pk)" by blast
      let ?rq = "sealed_request L meth url hs me pc pk"
      obtain rr w3 where 3: "raw_send Q cl ?rq w2 = (rr, w3)" by (rule prod.exhaust)
      have q3: "sent w3 = sent w \<or> sent w3 = sent w @ [?rq]" using raw_send_sent [of cl ?rq w2] 3 q2 by simp
      have "sent (snd ?r) = sent w3"
      proof (cases rr)
        case (Inl e)
        with 1 2 3 Inr pk show ?thesis by (simp add: send_uxsp_def and_then_def)
      next
        case (Inr x)
        obtain status rhs body where x: "x = (status, rhs, body)" by (cases x)
        let ?c = "cap_new now k True (Some (given (nonempty (header_value rhs HEADER_SEC_UXSP_SELECTED)) ''v1.2'')) (Some (c_entity_id pc))"
        obtain rc w4 where 4: "op_cache_set Q k ?c w3 = (rc, w4)" by (rule prod.exhaust)
        obtain rd w5 where 5: "read_response L Q me pc body w4 = (rd, w5)" by (rule prod.exhaust)
        have "sent w4 = sent w3" "sent w5 = sent w4"
          using cache_set_quiet [of k ?c w3] read_response_quiet [of L me pc body w4] 4 5 by simp_all
        with 1 2 3 4 5 \<open>ri = Inr me\<close> pk Inr x show ?thesis
          by (simp add: send_uxsp_def and_then_def Let_def split: sum.split prod.split)
      qed
      with q3 pk 2 show ?thesis by (metis fst_conv)
    qed
  qed
qed

text \<open>A fetch that is forced, or that goes to a host known to speak the protocol with fall-back off.\<close>

lemma sealed_fetch:
  assumes "given (fa_force_uxsp a) (cl_force_uxsp cl) \<or>
     \<not> given (fa_allow_fallback a) (cl_allow_fallback cl) \<and>
     (\<forall>k cap. normalize_host_key ip_ok (fa_url a) = Inr k \<longrightarrow> fst (op_cache_get Q k w) = Inr cap \<longrightarrow>
        (\<exists>c. cap = Some c \<and> h_supports c))"
  shows "sent (snd (fetch L ip_ok Q cl now a w)) = sent w \<or>
    (\<exists>pc me w1 pk. fst (op_send Q pc me (payload_item (fa_data a) (or_else (fa_json a) (fa_json_data a))) w1) = Inr (SentPackage pk) \<and>
       (\<forall>c. fa_peer_card a = Some (PeerCard c) \<longrightarrow> pc = c) \<and>
       sent (snd (fetch L ip_ok Q cl now a w)) = sent w @ [sealed_request L (fa_method a) (fa_url a) (fa_headers a) me pc pk])"
proof (cases "normalize_host_key ip_ok (fa_url a)")
  case (Inl e)
  then show ?thesis by (simp add: fetch_def)
next
  case (Inr k)
  let ?json = "or_else (fa_json a) (fa_json_data a)"
  obtain rc w1 where 1: "op_cache_get Q k w = (rc, w1)" by (rule prod.exhaust)
  have q1: "sent w1 = sent w" using cache_get_quiet [of k w] 1 by simp
  show ?thesis
  proof (cases rc)
    case (Inl e)
    with 1 q1 \<open>normalize_host_key ip_ok (fa_url a) = Inr k\<close> show ?thesis by (simp add: fetch_def and_then_def)
  next
    case (Inr cap)
    obtain rp w2 where 2: "resolve_peer_card L Q cl k (fa_peer_id a) (fa_peer_card a) cap w1 = (rp, w2)" by (rule prod.exhaust)
    have q2: "sent w2 = sent w" using resolve_quiet [of L cl k "fa_peer_id a" "fa_peer_card a" cap w1] 2 q1 by simp
    note f = \<open>normalize_host_key ip_ok (fa_url a) = Inr k\<close> 1 Inr 2
    show ?thesis
    proof (cases "\<exists>pc. rp = Inr (Some pc) \<and> \<not> (given (fa_force_uxsp a) (cl_force_uxsp cl) \<and> (\<exists>c. cap = Some c \<and> \<not> h_supports c))")
      case False
      with f assms q1 q2 show ?thesis
        by (auto simp: fetch_def and_then_def fetch_known_def Let_def split: sum.splits option.splits)
    next
      case True
      then obtain pc where pc: "rp = Inr (Some pc)"
        and ok: "\<not> (given (fa_force_uxsp a) (cl_force_uxsp cl) \<and> (\<exists>c. cap = Some c \<and> \<not> h_supports c))" by blast
      have p: "\<forall>c. fa_peer_card a = Some (PeerCard c) \<longrightarrow> pc = c" using 2 pc by (auto simp: resolve_peer_card_def)
      let ?s = "send_uxsp L Q cl now (fa_method a) (fa_url a) (fa_data a) ?json (fa_headers a) pc k w2"
      have "snd (fetch L ip_ok Q cl now a w) = snd ?s"
        using f assms ok pc by (auto simp: fetch_def and_then_def fetch_known_def Let_def split: sum.split prod.split option.splits)
      with send_uxsp_sent [of L cl now "fa_method a" "fa_url a" "fa_data a" ?json "fa_headers a" pc k w2] q2 p show ?thesis
        by metis
    qed
  qed
qed

end

text \<open>An URL with its scheme in capitals is taken for a host name, the same for all of them.\<close>

lemma capital_schemes_collide:
  "normalize_host_key ip_ok ''HTTP://a.example/'' = Inr ''http:443'' \<and>
   normalize_host_key ip_ok ''HTTPS://b.example:8443/'' = Inr ''https:443''"
  by code_simp

section \<open>Properties\<close>

text \<open>Any network, with a record of the requests that are made.\<close>

definition logged :: "(request \<Rightarrow> 'v \<Rightarrow> (int \<times> headers \<times> bytes) res \<times> 'v) \<Rightarrow> request \<Rightarrow> request list \<times> 'v \<Rightarrow>
    (int \<times> headers \<times> bytes) res \<times> request list \<times> 'v" where
  "logged N rq = (\<lambda>(l, v). case N rq v of (r, v') \<Rightarrow> (r, l @ [rq], v'))"

definition wire_log :: "('k, 'n, 'o, request list \<times> 'v) client_world \<Rightarrow> request list" where
  "wire_log w = fst (cw_net w)"

lemma in_world_net [simp]: "cw_net (snd (in_world f w)) = cw_net w"
  by (simp add: in_world_def split: prod.split)

lemma store_lookup_net [simp]: "cw_net (snd (store_lookup p w)) = cw_net w"
  by (simp add: store_lookup_def Let_def split: option.split prod.split sum.split bool.split)

interpretation sync: client_net "sync_ops P L C E (logged N)" wire_log for P L C E N
  by unfold_locales (simp_all add: sync_ops_def wire_log_def logged_def split: prod.split)

lemma sync_cache_get [simp]: "fst (op_cache_get (sync_ops P L C E N) k w) = fst (mc_get (ce_now E) k (cw_cache w))"
  by (simp add: sync_ops_def split: prod.split)

lemma sync_cache_get_state: "mc_get (ce_now E) k (cw_cache w) = (r, s) \<Longrightarrow>
   op_cache_get (sync_ops P L C E N) k w = (r, w\<lparr>cw_cache := s\<rparr>)"
  by (simp add: sync_ops_def)

lemma sync_cache_set_net [simp]: "cw_net (snd (op_cache_set (sync_ops P L C E N) k c w)) = cw_net w"
  by (simp add: sync_ops_def split: prod.split)

lemma snd_and_then_return [simp]: "snd (and_then r (\<lambda>_ w. (x, w))) = snd r"
  by (simp add: and_then_def split: prod.split sum.split)

lemma probe_net:
  "cw_net (snd (probe L (sync_ops P L C E N) cl now a k w)) =
   cw_net (snd (send_plain L (sync_ops P L C E N) cl (fa_method a) (fa_url a) (fa_data a) (or_else (fa_json a) (fa_json_data a))
     (put_header HEADER_SEC_UXSP_SUPPORT DEFAULT_UXSP_SUPPORT (fa_headers a)) w))"
  unfolding probe_def by (subst and_then_def) (simp add: Let_def split: prod.split sum.split)

definition demo_client :: client where
  "demo_client = \<lparr>cl_identity = Some std_sender, cl_allow_fallback = True, cl_force_uxsp = False, cl_registry = [],
     cl_http_client = True\<rparr>"

definition demo_fetch :: "bool \<Rightarrow> fetch_args" where
  "demo_fetch force = \<lparr>fa_url = ''https://api.example/x'', fa_data = Some (ItemBytes [66]), fa_json = None, fa_json_data = None,
     fa_method = ''POST'', fa_headers = [], fa_peer_id = None, fa_peer_card = Some (PeerCard (std_card std_receiver)),
     fa_allow_fallback = None, fa_force_uxsp = Some force\<rparr>"

definition demo_env_c :: client_env where
  "demo_env_c = \<lparr>ce_fresh = std_fresh, ce_random = std_randoms 0, ce_times = (\<lambda>_. 1700000010), ce_now = 1700000010,
     ce_guess = (\<lambda>_. None), ce_is_dir = (\<lambda>_. False), ce_key = [], ce_sid = []\<rparr>"

definition demo_net :: "request \<Rightarrow> unit \<Rightarrow> (int \<times> headers \<times> bytes) res \<times> unit" where
  "demo_net rq v = (Inr (200, [], []), v)"

definition demo_client_world :: "(cards, mem_store, cards, request list \<times> unit) client_world" where
  "demo_client_world = \<lparr>cw_world = std_world, cw_own = None, cw_cache = [], cw_net = ([], ())\<rparr>"

abbreviation demo_ops :: "(cards, mem_store, cards, request list \<times> unit) client_world client_ops" where
  "demo_ops \<equiv> sync_ops std_prims demo_lib demo_codecs demo_env_c (logged demo_net)"

text \<open>C18: A client that is told to use the protocol never sends anything else: a fetch with \<open>force_uxsp\<close>, or one
  without fall-back to a host that the cache knows to speak the protocol, makes no request, or one, whose
  body is a package that \<open>Send\<close> made for the peer, the one the caller named if it gave a card.\<close>

theorem forced_fetch_is_sealed:
  fixes w w' :: "('k, 'n, 'o, request list \<times> 'v) client_world"
  assumes "given (fa_force_uxsp a) (cl_force_uxsp cl) \<or>
     \<not> given (fa_allow_fallback a) (cl_allow_fallback cl) \<and>
     (\<forall>k cap. normalize_host_key ip_ok (fa_url a) = Inr k \<longrightarrow> fst (mc_get (ce_now E) k (cw_cache w)) = Inr cap \<longrightarrow>
        (\<exists>c. cap = Some c \<and> h_supports c))"
    and "fetch L ip_ok (sync_ops P L C E (logged N)) cl now a w = (r, w')"
  shows "wire_log w' = wire_log w \<or>
    (\<exists>pc me (w1 :: ('k, 'n, 'o, request list \<times> 'v) client_world) pk. fst (op_send (sync_ops P L C E (logged N)) pc me
         (payload_item (fa_data a) (or_else (fa_json a) (fa_json_data a))) w1) = Inr (SentPackage pk) \<and>
       (\<forall>c. fa_peer_card a = Some (PeerCard c) \<longrightarrow> pc = c) \<and>
       wire_log w' = wire_log w @ [sealed_request L (fa_method a) (fa_url a) (fa_headers a) me pc pk])"
  using sync.sealed_fetch [where a = a and cl = cl and ip_ok = ip_ok and w = w and P = P and L = L and La = L and C = C and E = E
      and N = N and now = now] assms(1) unfolding assms(2) sync_cache_get snd_conv by blast

theorem forced_fetch_is_sealed_witness:
  "let w' = snd (fetch demo_lib (\<lambda>_. True) demo_ops demo_client 1700000010 (demo_fetch True) demo_client_world) in
   wire_log w' = [] \<or> (\<exists>me pk. wire_log w' =
     [sealed_request demo_lib ''POST'' ''https://api.example/x'' [] me (std_card std_receiver) pk])"
proof -
  let ?w = "snd (fetch demo_lib (\<lambda>_. True) demo_ops demo_client 1700000010 (demo_fetch True) demo_client_world)"
  have f: "given (fa_force_uxsp (demo_fetch True)) (cl_force_uxsp demo_client)" by (simp add: demo_fetch_def given_def)
  have "wire_log demo_client_world = []" by (simp add: wire_log_def demo_client_world_def)
  moreover have "fa_peer_card (demo_fetch True) = Some (PeerCard (std_card std_receiver))" "fa_method (demo_fetch True) = ''POST''"
    "fa_url (demo_fetch True) = ''https://api.example/x''" "fa_headers (demo_fetch True) = []"
    by (simp_all add: demo_fetch_def)
  ultimately show ?thesis
    using forced_fetch_is_sealed [OF disjI1 [OF f] prod.collapse [symmetric], where w = demo_client_world and P = std_prims
        and L = demo_lib and C = demo_codecs and E = demo_env_c and N = demo_net and ip_ok = "\<lambda>_. True" and now = 1700000010]
    unfolding Let_def by auto
qed

text \<open>Without these, the first contact is not protected: for a host that the cache does not know, or knows as
  plain, a fetch sends the data of the caller as they are, in exactly one request, even if the caller named
  the card of the peer.\<close>

theorem first_contact_is_plain:
  assumes "normalize_host_key ip_ok (fa_url a) = Inr k" and "\<not> given (fa_force_uxsp a) (cl_force_uxsp cl)"
    and "cl_http_client cl" and "fa_peer_card a = Some (PeerCard c)"
    and "fst (mc_get (ce_now E) k (cw_cache w)) = Inr cap" and "\<forall>x. cap = Some x \<longrightarrow> \<not> h_supports x"
    and "plain_content L (fa_data a) (or_else (fa_json a) (fa_json_data a)) (if cap = None
      then put_header HEADER_SEC_UXSP_SUPPORT DEFAULT_UXSP_SUPPORT (fa_headers a) else fa_headers a) = (content, hs)"
    and "fetch L ip_ok (sync_ops P L C E (logged N)) cl now a w = (r, w')"
  shows "wire_log w' = wire_log w @ [\<lparr>rq_method = fa_method a, rq_url = fa_url a, rq_headers = hs, rq_content = content\<rparr>]"
proof -
  let ?Q = "sync_ops P L C E (logged N)"
  obtain s where m: "mc_get (ce_now E) k (cw_cache w) = (Inr cap, s)" using assms(5) by (metis prod.collapse)
  let ?w = "w\<lparr>cw_cache := s\<rparr>"
  let ?rq = "\<lparr>rq_method = fa_method a, rq_url = fa_url a, rq_headers = hs, rq_content = content\<rparr>"
  obtain rn v where n: "N ?rq (snd (cw_net w)) = (rn, v)" by (rule prod.exhaust)
  have net: "raw_send ?Q cl ?rq ?w = (rn, ?w\<lparr>cw_net := (fst (cw_net w) @ [?rq], v)\<rparr>)"
    using assms(3) n by (simp add: raw_send_def sync_ops_def logged_def split_beta)
  have p: "snd (send_plain L ?Q cl (fa_method a) (fa_url a) (fa_data a) (or_else (fa_json a) (fa_json_data a))
      (if cap = None then put_header HEADER_SEC_UXSP_SUPPORT DEFAULT_UXSP_SUPPORT (fa_headers a) else fa_headers a) ?w) =
    ?w\<lparr>cw_net := (fst (cw_net w) @ [?rq], v)\<rparr>"
    using assms(7) net by (auto simp: send_plain_def and_then_def split: sum.split)
  have "wire_log (snd (fetch_known L ?Q cl now a k cap (Some c) ?w)) = wire_log w @ [?rq]"
  proof (cases cap)
    case None
    with p assms(2) show ?thesis by (simp add: fetch_known_def probe_net Let_def wire_log_def)
  next
    case (Some x)
    with p assms(6) show ?thesis by (simp add: fetch_known_def Let_def wire_log_def)
  qed
  moreover have "snd (fetch L ip_ok ?Q cl now a w) = snd (fetch_known L ?Q cl now a k cap (Some c) ?w)"
    using assms(1,2,4) by (simp add: fetch_def and_then_def resolve_peer_card_def sync_cache_get_state [OF m])
  ultimately show ?thesis using assms(8) by simp
qed

theorem first_contact_is_plain_witness:
  "wire_log (snd (fetch demo_lib (\<lambda>_. True) demo_ops demo_client 1700000010 (demo_fetch False) demo_client_world)) =
     [\<lparr>rq_method = ''POST'', rq_url = ''https://api.example/x'', rq_headers = [(HEADER_SEC_UXSP_SUPPORT, DEFAULT_UXSP_SUPPORT)],
       rq_content = Some [66]\<rparr>]"
proof -
  have k: "normalize_host_key (\<lambda>_. True) ''https://api.example/x'' = Inr ''api.example:443''" by code_simp
  have "wire_log (snd (fetch demo_lib (\<lambda>_. True) demo_ops demo_client 1700000010 (demo_fetch False) demo_client_world)) =
      wire_log demo_client_world @ [\<lparr>rq_method = fa_method (demo_fetch False), rq_url = fa_url (demo_fetch False),
       rq_headers = [(HEADER_SEC_UXSP_SUPPORT, DEFAULT_UXSP_SUPPORT)], rq_content = Some [66]\<rparr>]"
    by (rule first_contact_is_plain [where k = "''api.example:443''" and c = "std_card std_receiver" and cap = None, OF _ _ _ _ _ _ _ prod.collapse [symmetric]])
      (simp_all add: demo_fetch_def demo_client_def demo_client_world_def given_def mc_get_def plain_content_def or_else_def
        put_header_def k)
  then show ?thesis by (simp add: demo_fetch_def wire_log_def demo_client_world_def)
qed

end
