(* ===== verification/SecureDispatch.thy ===== *)
theory SecureDispatch
  imports SecureTypes
begin

text \<open>
  What every result of \<open>Receive\<close> (\<open>uxsp/secure/_dispatch.py\<close>) rests on: whatever receiver the type of the
  package selects, it starts with the receiving engine, without a payload from it there is no result, and
  the context it leaves (with the nonces it has used up) is the one the caller goes on with.
\<close>

section \<open>Lemmas: what \<open>Receive\<close> rests on\<close>

definition first_received :: "prims \<Rightarrow> pylib \<Rightarrow> fresh_identity \<Rightarrow> (nat \<Rightarrow> time) \<Rightarrow> receive_args \<Rightarrow> ('k, 'n) world \<Rightarrow>
    ('k, 'n) world \<Rightarrow> bool" where
  \<comment> \<open>before and after; only the files may change after the engine\<close>
  "first_received P L F t b w s \<longleftrightarrow>
     (\<exists>expected payload w1. receive_with P L F t b expected w = (Inr payload, w1) \<and> fst s = fst w1)"

lemma first_receivedI:
  "receive_with P L F t b expected w = (Inr payload, w1) \<Longrightarrow> fst s = fst w1 \<Longrightarrow> first_received P L F t b w s"
  unfolding first_received_def by blast

lemma and_then_first: "and_then r f = (Inr x, s) \<Longrightarrow> \<exists>a s1. r = (Inr a, s1)"
  by (auto simp: and_then_Inr)

lemma save_download_ctx: "save_download is_dir d n data w = (r, s) \<Longrightarrow> fst s = fst w"
  by (auto simp: save_download_def Let_def split: prod.splits)

lemma keep_copy_ctx [simp]: "fst (keep_copy is_dir d n data w) = fst w"
  by (cases d) (auto simp: keep_copy_def intro: save_download_ctx [OF surjective_pairing])

lemma after_receive_first: "after_receive P L F t b ty f w = (Inr x, s) \<Longrightarrow> first_received P L F t b w s"
  by (auto simp: after_receive_def and_then_Inr intro: first_receivedI)

lemma after_receive_then_first:
  assumes "and_then (after_receive P L F t b ty f w) g = (Inr x, s)"
    and "\<And>a w1. g a w1 = (Inr x, s) \<Longrightarrow> fst s = fst w1"
  shows "first_received P L F t b w s"
proof -
  from assms(1) obtain a w1 where a: "after_receive P L F t b ty f w = (Inr a, w1)" "g a w1 = (Inr x, s)"
    by (auto simp: and_then_Inr)
  from after_receive_first [OF a(1)] assms(2) [OF a(2)] show ?thesis by (auto simp: first_received_def)
qed

lemma file_type_first: "receive_file_type P L is_dir F t b ty n w = (Inr x, s) \<Longrightarrow> first_received P L F t b w s"
  unfolding receive_file_type_def by (erule after_receive_then_first) (rule save_download_ctx)

lemma typed_file_first: "receive_typed_file P L is_dir F t b ty w = (Inr x, s) \<Longrightarrow> first_received P L F t b w s"
  by (auto simp: receive_typed_file_def receive_video_def receive_audio_def receive_photo_def receive_document_def
      receive_pdf_def receive_archive_def dest: file_type_first split: option.splits if_splits)

lemma voice_first: "receive_voice P L is_dir F t b w = (Inr x, s) \<Longrightarrow> first_received P L F t b w s"
  unfolding receive_voice_def by (erule after_receive_then_first) (rule save_download_ctx)

lemma text_first: "receive_text P L C is_dir F t b w = (Inr x, s) \<Longrightarrow> first_received P L F t b w s"
  unfolding receive_text_def by (erule after_receive_then_first) auto

lemma html_first: "receive_html P L C is_dir F t b w = (Inr x, s) \<Longrightarrow> first_received P L F t b w s"
  unfolding receive_html_def by (erule after_receive_then_first) auto

lemma json_first: "receive_json P L C is_dir F t b w = (Inr x, s) \<Longrightarrow> first_received P L F t b w s"
  unfolding receive_json_def by (erule after_receive_then_first) auto

lemma binary_first: "receive_binary P L is_dir F t b w = (Inr x, s) \<Longrightarrow> first_received P L F t b w s"
  unfolding receive_binary_def by (erule after_receive_then_first) auto

lemma live_first:
  "receive_live P L F t k i (b\<lparr>b_package := InPackage pk\<rparr>) ty w = (Inr x, s) \<Longrightarrow>
   first_received P L F t (b\<lparr>b_package := InPackage pk\<rparr>) w s"
  by (auto simp: receive_live_def resolve_package_input_def dest: after_receive_first split: sum.splits)

lemmas receivers_first = after_receive_first file_type_first typed_file_first voice_first text_first html_first
  json_first binary_first

lemma receive_any_first:
  assumes "receive_any P L C is_dir F t k i b w = (Inr x, s)" and "b_package b = InPackage pk"
  shows "first_received P L F t b w s"
proof -
  have b: "b\<lparr>b_package := InPackage pk\<rparr> = b" using assms(2) by simp
  have r: "resolve_package_input L (snd w) (InPackage pk) = Inr pk" by (simp add: resolve_package_input_def)
  note lf = live_first [where b = b and pk = pk, unfolded b]
  show ?thesis
  proof (cases "receive_route_of_type (pk_data_type pk)")
    case None
    with assms b r obtain raw w1 where w1: "receive_with P L F t b None w = (Inr raw, w1)"
      and rest: "(let (data, name) = fallback_payload raw
              in (case b_download b of
                    None \<Rightarrow> (Inr (GotBytes data), w1)
                  | Some p \<Rightarrow> and_then (save_download is_dir (Some p) name data w1) (\<lambda>f w2. (Inr (GotFile f), w2)))) = (Inr x, s)"
      by (auto simp: receive_any_def Let_def and_then_Inr)
    from rest have "fst s = fst w1"
      by (auto simp: and_then_Inr Let_def dest: save_download_ctx split: prod.splits option.splits)
    with w1 show ?thesis by (rule first_receivedI)
  next
    case (Some ro)
    with assms b r show ?thesis
      by (cases ro) (auto simp: receive_any_def Let_def receive_contact_def receive_location_def
          receive_live_session_def receive_live_voice_call_def and_then_Inr dest: receivers_first lf)
  qed
qed

lemma receive_payload_of_first:
  "first_received P L F t b (x, fs) s \<Longrightarrow> \<exists>expected payload. secure_receive_payload P L F t fs (b_sender_id b) (b_package b)
     expected (b_receiver_identity b) (b_receiver b) (b_sender b) (b_sender_card b) x = (Inr payload, fst s)"
  unfolding first_received_def receive_with_def by (force split: prod.splits)

end
