(* ===== verification/Aio.thy ===== *)
theory Aio
  imports SecureDispatch
begin

text \<open>
  \<open>uxsp/aio\<close>: the asynchronous workflow. \<open>_engine.py\<close> is the engine of \<open>uxsp/secure\<close> for stores whose
  operations are awaited, \<open>secure.py\<close> has the context and the typed senders and receivers, of which those
  for files use this engine and the others run the synchronous functions in a thread, \<open>stream.py\<close> the
  streams. An awaited operation is one step of the model; what other tasks do meanwhile is the freedom to
  choose the state before the next call. The store objects are the same as in the synchronous context, with
  a mark that says whether their operations are coroutines.
\<close>

section \<open>The context\<close>

record ('k, 'n) actx =
  y_ctx :: "('k, 'n) ctx"  \<comment> \<open>the synchronous context\<close>
  y_async_keys :: bool  \<comment> \<open>its key store is an \<open>AsyncKeyStore\<close>\<close>
  y_check :: "'n marker option"  \<comment> \<open>\<open>check_and_mark\<close>, if its nonce store is an \<open>AsyncNonceStore\<close>\<close>

definition on_ctx :: "(('k, 'n) ctx \<Rightarrow> 'a res \<times> ('k, 'n) ctx) \<Rightarrow> ('k, 'n) actx \<Rightarrow> 'a res \<times> ('k, 'n) actx" where
  "on_ctx f y = (case f (y_ctx y) of (r, x) \<Rightarrow> (r, y\<lparr>y_ctx := x\<rparr>))"

definition async_safe_put :: "pylib \<Rightarrow> identity \<Rightarrow> ('k, 'n) actx \<Rightarrow> unit res \<times> ('k, 'n) actx" where
  \<comment> \<open>\<open>_safe_put_card\<close> of the own card: an awaitable \<open>put\<close> becomes a task, whose error nobody sees; it is
      carried out at once\<close>
  "async_safe_put L i y =
     (if y_async_keys y
      then (case own_card L i of
          Inl e \<Rightarrow> (Inl e, y) | Inr c \<Rightarrow> (Inr (), y\<lparr>y_ctx := snd (put_card (Public c) (y_ctx y))\<rparr>))
      else on_ctx (put_own L i) y)"

definition with_identity :: "identity \<Rightarrow> ('k, 'n) actx \<Rightarrow> ('k, 'n) actx" where
  "with_identity i y = y\<lparr>y_ctx := (y_ctx y)\<lparr>x_identity := Some i\<rparr>\<rparr>"

definition default_identity :: "prims \<Rightarrow> pylib \<Rightarrow> fresh_identity \<Rightarrow> ('k, 'n) actx \<Rightarrow> identity res \<times> ('k, 'n) actx" where
  \<comment> \<open>\<open>_GLOBAL_CONTEXT.get_identity()\<close>\<close>
  "default_identity P L F y =
     (case x_identity (y_ctx y) of
        Some i \<Rightarrow> (Inr i, y)
      | None \<Rightarrow>
          (case identity_create P L (f_time F) (f_uuid F) (f_exchange F) (f_kem F) (f_signing F) (f_pqc F)
              ''DefaultUser'' ''client'' of
             Inl e \<Rightarrow> (Inl e, y)
           | Inr i \<Rightarrow> and_then (async_safe_put L i (with_identity i y)) (\<lambda>_ y1. (Inr i, y1))))"

definition awaited_put :: "pylib \<Rightarrow> identity \<Rightarrow> ('k, 'n) actx \<Rightarrow> unit res \<times> ('k, 'n) actx" where
  \<comment> \<open>\<open>await keystore.put(identity.public_card())\<close> if it is an asynchronous one\<close>
  "awaited_put L i y = (if y_async_keys y then on_ctx (put_own L i) y else (Inr (), y))"

definition async_get_identity :: "prims \<Rightarrow> pylib \<Rightarrow> fresh_identity \<Rightarrow> ('k, 'n) actx \<Rightarrow> identity res \<times> ('k, 'n) actx" where
  "async_get_identity P L F y =
     and_then (default_identity P L F y) (\<lambda>i y1. and_then (awaited_put L i y1) (\<lambda>_ y2. (Inr i, y2)))"

definition async_set_identity :: "pylib \<Rightarrow> identity \<Rightarrow> ('k, 'n) actx \<Rightarrow> unit res \<times> ('k, 'n) actx" where
  "async_set_identity L i y = and_then (async_safe_put L i (with_identity i y)) (\<lambda>_ y1. awaited_put L i y1)"

text \<open>With an asynchronous store these three repeat the steps of the synchronous context, awaited.\<close>

definition async_register_peer :: "pylib \<Rightarrow> identity + public_card \<Rightarrow> ('k, 'n) actx \<Rightarrow> unit res \<times> ('k, 'n) actx" where
  "async_register_peer L p = on_ctx (register_peer L p)"

definition async_get_peer :: "peer \<Rightarrow> ('k, 'n) actx \<Rightarrow> public_card res \<times> ('k, 'n) actx" where
  "async_get_peer p = on_ctx (get_peer p)"

definition async_revoke_peer :: "pylib \<Rightarrow> time \<Rightarrow> peer \<Rightarrow> string \<Rightarrow> ('k, 'n) actx \<Rightarrow> public_card res \<times> ('k, 'n) actx" where
  "async_revoke_peer L clock p reason = on_ctx (revoke_peer L clock p reason)"

definition async_configure :: "pylib \<Rightarrow> bool \<Rightarrow> identity option \<Rightarrow> (bool \<times> 'k kstore \<times> 'k) option \<Rightarrow>
    ('n marker \<times> 'n seer \<times> 'n \<times> 'n marker option) option \<Rightarrow> ('n guard_obj \<times> 'n marker option) option \<Rightarrow> string option \<Rightarrow>
    (package \<Rightarrow> unit res) option \<Rightarrow> ('k, 'n) actx \<Rightarrow> unit res \<times> ('k, 'n) actx" where
  \<comment> \<open>the first argument: the result is awaited\<close>
  "async_configure L awaited oi okeys ononces oguard odir ohook y =
     and_then (case oi of None \<Rightarrow> (Inr (), y) | Some i \<Rightarrow> async_safe_put L i (with_identity i y)) (\<lambda>_ y1.
     and_then
       (case okeys of
          None \<Rightarrow> (Inr (), y1)
        | Some (a, K, cs) \<Rightarrow>
            let y2 = y1\<lparr>y_ctx := (y_ctx y1)\<lparr>x_store := K, x_cards := cs\<rparr>, y_async_keys := a\<rparr>
            in (case x_identity (y_ctx y2) of None \<Rightarrow> (Inr (), y2) | Some i \<Rightarrow> async_safe_put L i y2)) (\<lambda>_ y3.
     let y4 = (case ononces of None \<Rightarrow> y3
           | Some (mk, sn, s, ck) \<Rightarrow> y3\<lparr>y_ctx := (y_ctx y3)\<lparr>x_guard := default_guard mk sn s\<rparr>, y_check := ck\<rparr>);
         y5 = (case oguard of None \<Rightarrow> y4 | Some (g, ck) \<Rightarrow> y4\<lparr>y_ctx := (y_ctx y4)\<lparr>x_guard := g\<rparr>, y_check := ck\<rparr>);
         x6 = (case odir of None \<Rightarrow> y_ctx y5 | Some d \<Rightarrow> (y_ctx y5)\<lparr>x_output_dir := d\<rparr>);
         y7 = y5\<lparr>y_ctx := (case ohook of None \<Rightarrow> x6 | Some h \<Rightarrow> x6\<lparr>x_hook := Some h\<rparr>)\<rparr>
     in (case x_identity (y_ctx y7) of Some i \<Rightarrow> if awaited then awaited_put L i y7 else (Inr (), y7) | None \<Rightarrow> (Inr (), y7))))"

section \<open>The engine\<close>

definition truthy_peer :: "peer \<Rightarrow> bool" where
  "truthy_peer p = (case p of PeerId s \<Rightarrow> s \<noteq> [] | PeerNum n \<Rightarrow> n \<noteq> 0 | _ \<Rightarrow> True)"

definition peer_or :: "peer option \<Rightarrow> peer option \<Rightarrow> peer option" where
  \<comment> \<open>\<open>receiver or receiver_id\<close>\<close>
  "peer_or a b = (case a of Some p \<Rightarrow> if truthy_peer p then a else b | None \<Rightarrow> b)"

definition stored_card :: "string \<Rightarrow> ('k, 'n) ctx \<Rightarrow> public_card res \<times> ('k, 'n) ctx" where
  \<comment> \<open>\<open>await keystore.require(id)\<close>, without the certificate\<close>
  "stored_card eid x = (case ks_require (x_store x) eid (x_cards x) of
     (r, cs) \<Rightarrow> (rbind r (\<lambda>c. Inr (case c of Public pc \<Rightarrow> pc | Signed sc \<Rightarrow> sc_card sc)), x\<lparr>x_cards := cs\<rparr>))"

definition async_resolve_party :: "pylib \<Rightarrow> peer option \<Rightarrow> ('k, 'n) actx \<Rightarrow> (public_card \<times> string) res \<times> ('k, 'n) actx" where
  "async_resolve_party L op y = (case op of
     None \<Rightarrow> (Inl ValueError, y)
   | Some (PeerIdentity i) \<Rightarrow> (rbind (own_card L i) (\<lambda>c. Inr (c, entity_id i)), y)
   | Some (PeerCard c) \<Rightarrow> (Inr (c, c_entity_id c), y)
   | Some p \<Rightarrow>
       (case normalize_id p of
          Inl e \<Rightarrow> (Inl e, y)
        | Inr eid \<Rightarrow> and_then (on_ctx (if y_async_keys y then stored_card eid else get_peer (PeerId eid)) y)
            (\<lambda>c y1. (Inr (c, eid), y1))))"

definition async_own_identity :: "prims \<Rightarrow> pylib \<Rightarrow> fresh_identity \<Rightarrow> identity option \<Rightarrow> ('k, 'n) actx \<Rightarrow>
    identity res \<times> ('k, 'n) actx" where
  "async_own_identity P L F oi y = (case oi of Some i \<Rightarrow> (Inr i, y) | None \<Rightarrow> default_identity P L F y)"

definition async_secure_send_payload :: "prims \<Rightarrow> pylib \<Rightarrow> fresh_identity \<Rightarrow> send_random \<Rightarrow> peer option \<Rightarrow> peer option \<Rightarrow>
    identity option \<Rightarrow> identity option \<Rightarrow> bytes \<Rightarrow> string \<Rightarrow> string option \<Rightarrow> dict option \<Rightarrow>
    ('k, 'n) actx \<times> files \<Rightarrow> package res \<times> ('k, 'n) actx \<times> files" where
  \<comment> \<open>\<open>receiver_id\<close>, \<open>receiver\<close>, \<open>sender_identity\<close>, \<open>sender\<close>, and the rest\<close>
  "async_secure_send_payload P L F R receiver_id receiver sender_identity sender payload data_type output_file
     metadata = (\<lambda>(y, fs).
     (case and_then (async_resolve_party L (peer_or receiver receiver_id) y) (\<lambda>(pcard, rec_id) y1.
           and_then (async_own_identity P L F (or_else sender sender_identity) y1) (\<lambda>i y2.
           (seal_package P L R i rec_id pcard payload data_type (case metadata of None \<Rightarrow> [] | Some m \<Rightarrow> m), y2))) of
        (Inl e, y3) \<Rightarrow> (Inl e, y3, fs)
      | (Inr pk, y3) \<Rightarrow>
          (rbind (dispatch_package pk (y_ctx y3)) (\<lambda>_. Inr pk), y3,
           case output_file of None \<Rightarrow> fs | Some f \<Rightarrow> package_save L f pk fs)))"

definition check_async_replay :: "'n marker \<Rightarrow> replay_guard \<Rightarrow> time \<Rightarrow> string \<Rightarrow> 'n \<Rightarrow> unit res \<times> 'n" where
  \<comment> \<open>it raises \<open>EnvelopeExpiredError("Replay detected (async).")\<close>, which the handler of the caller turns into
      \<open>DuplicateMessageError\<close> because of the word in its text\<close>
  "check_async_replay check g t nonce s = (case check t nonce (g_window g) s of
     (Inl e, s') \<Rightarrow> (Inl e, s')
   | (Inr b, s') \<Rightarrow> (guard b DuplicateMessageError (Inr ()), s'))"

definition open_fresh :: "prims \<Rightarrow> pylib \<Rightarrow> replay_guard \<Rightarrow> time \<Rightarrow> time \<Rightarrow> time \<Rightarrow> dict \<Rightarrow> public_card \<Rightarrow> identity \<Rightarrow> bytes res" where
  \<comment> \<open>\<open>open_from\<close> with a \<open>FreshnessOnlyReplayGuard\<close>: \<open>precheck\<close> looks at the time only, \<open>commit\<close> does nothing\<close>
  "open_fresh P L g t1 t2 t3 d pcard i =
     rbind (guard (\<not> c_is_revoked pcard) CardRevokedError (verify_validity L t1 None pcard)) (\<lambda>_.
     guard (dget d ''recipient_id'' = PStr (entity_id i)) ValueError
      (guard (dget d ''sender_id'' = PStr (c_entity_id pcard)) ValueError
        (rbind (check_freshness g t2 d) (\<lambda>_.
         rbind (verify_envelope P t3 d (c_public_keys pcard) (Some (entity_id i)) (Some (c_entity_id pcard)) (g_window g)
           (g_clock_skew g) False) (\<lambda>c.
         decrypt_verified_envelope P c (keypair i) [])))))"

definition async_open_envelope :: "prims \<Rightarrow> pylib \<Rightarrow> (nat \<Rightarrow> time) \<Rightarrow> 'n marker option \<Rightarrow> identity \<Rightarrow> public_card \<Rightarrow> envelope \<Rightarrow>
    'n guard_obj \<Rightarrow> bytes res \<times> 'n guard_obj" where
  "async_open_envelope P L t ocheck i pcard env g = (case ocheck of
     None \<Rightarrow> open_envelope P L t i pcard env g
   | Some check \<Rightarrow>
       (case check_async_replay check (go_cfg g) (t 0) (e_envelope_nonce env) (go_state g) of
          (Inl e, s) \<Rightarrow> (Inl e, g\<lparr>go_state := s\<rparr>)
        | (Inr _, s) \<Rightarrow> (open_fresh P L (go_cfg g) (t 1) (t 2) (t 3) (env_to_dict env) pcard i, g\<lparr>go_state := s\<rparr>)))"

definition async_unseal_package :: "prims \<Rightarrow> pylib \<Rightarrow> (nat \<Rightarrow> time) \<Rightarrow> 'n marker option \<Rightarrow> identity \<Rightarrow> public_card \<Rightarrow> package \<Rightarrow>
    'n guard_obj \<Rightarrow> bytes res \<times> 'n guard_obj" where
  "async_unseal_package P L t ocheck i pcard pk g =
     (if pk_is_chunked pk \<and> \<not> py_truthy (pk_chunks pk) then (Inl SecureReceiveError, g)
      else if pk_envelope pk = PNone then (Inl SecureReceiveError, g)
      else (case package_envelope L (pk_envelope pk) of
         Inl e \<Rightarrow> (Inl e, g)
       | Inr env \<Rightarrow>
           and_then (async_open_envelope P L t ocheck i pcard env g) (\<lambda>m g1.
             if \<not> pk_is_chunked pk then (Inr m, g1)
             else (open_chunks P m (e_envelope_nonce env) (pk_chunks pk), g1))))"

definition async_secure_receive_payload :: "prims \<Rightarrow> pylib \<Rightarrow> fresh_identity \<Rightarrow> (nat \<Rightarrow> time) \<Rightarrow> files \<Rightarrow> peer option \<Rightarrow>
    package_input \<Rightarrow> string option \<Rightarrow> identity option \<Rightarrow> identity option \<Rightarrow> peer option \<Rightarrow> peer option \<Rightarrow>
    ('k, 'n) actx \<Rightarrow> bytes res \<times> ('k, 'n) actx" where
  "async_secure_receive_payload P L F t fs sender_id inp expected_type receiver_identity receiver sender sender_card y =
     and_then (async_resolve_party L (or_else sender_card (or_else sender sender_id)) y) (\<lambda>(pcard, snd_id) y1.
     and_then (resolve_package_input L fs inp, y1) (\<lambda>pk y2.
     and_then (async_own_identity P L F (or_else receiver receiver_identity) y2) (\<lambda>i y3.
     and_then (check_container pk snd_id (entity_id i) expected_type, y3) (\<lambda>_ y4.
     case async_unseal_package P L t (y_check y4) i pcard pk (x_guard (y_ctx y4)) of
       (Inl e, g) \<Rightarrow> (Inl (receive_error e), y4\<lparr>y_ctx := (y_ctx y4)\<lparr>x_guard := g\<rparr>\<rparr>)
     | (Inr m, g) \<Rightarrow> (Inr m, y4\<lparr>y_ctx := (y_ctx y4)\<lparr>x_guard := g\<rparr>\<rparr>)))))"

section \<open>Senders and receivers\<close>

type_synonym ('k, 'n) aworld = "('k, 'n) actx \<times> files"

text \<open>The functions that hand over to the synchronous ones in a thread. There a coroutine is an object like
  any other: the card that \<open>get\<close> seems to return has no attribute \<open>card\<close>, \<open>put\<close> does nothing, and the
  result of \<open>is_seen\<close> counts as true.\<close>

definition sync_view :: "('k, 'n) actx \<Rightarrow> ('k, 'n) ctx" where
  "sync_view y =
     (let x = y_ctx y;
          x1 = (if y_async_keys y then x\<lparr>x_store := (x_store x)\<lparr>ks_put := \<lambda>c b s. (Inr (), s),
                  ks_get := \<lambda>eid s. (Inl AttributeError, s)\<rparr>\<rparr> else x)
      in case y_check y of None \<Rightarrow> x1 | Some _ \<Rightarrow> x1\<lparr>x_guard := (x_guard x1)\<lparr>go_seen := \<lambda>t n s. (Inr True, s)\<rparr>\<rparr>)"

definition sync_result :: "('k, 'n) actx \<Rightarrow> ('k, 'n) ctx \<Rightarrow> ('k, 'n) actx" where
  \<comment> \<open>the stores are again what they were\<close>
  "sync_result y x =
     y\<lparr>y_ctx := x\<lparr>x_store := x_store (y_ctx y), x_guard := (x_guard x)\<lparr>go_seen := go_seen (x_guard (y_ctx y))\<rparr>\<rparr>\<rparr>"

definition in_thread :: "(('k, 'n) world \<Rightarrow> 'a res \<times> ('k, 'n) world) \<Rightarrow> ('k, 'n) aworld \<Rightarrow> 'a res \<times> ('k, 'n) aworld" where
  "in_thread f = (\<lambda>(y, fs). case f (sync_view y, fs) of (r, x, fs') \<Rightarrow> (r, sync_result y x, fs'))"

definition async_send_packed :: "prims \<Rightarrow> pylib \<Rightarrow> fresh_identity \<Rightarrow> send_random \<Rightarrow> send_args \<Rightarrow> bytes res \<Rightarrow> string \<Rightarrow>
    ('k, 'n) aworld \<Rightarrow> package res \<times> ('k, 'n) aworld" where
  "async_send_packed P L F R a packed data_type w = (case packed of
     Inl e \<Rightarrow> (Inl e, w)
   | Inr b \<Rightarrow> async_secure_send_payload P L F R (a_receiver_id a) (a_receiver a) (a_sender_identity a) (a_sender a) b data_type
       (a_output_file a) (a_metadata a) w)"

definition async_send_file_type :: "prims \<Rightarrow> pylib \<Rightarrow> (string \<Rightarrow> string option) \<Rightarrow> fresh_identity \<Rightarrow> send_random \<Rightarrow> send_args \<Rightarrow>
    item \<Rightarrow> string \<Rightarrow> string \<Rightarrow> string \<Rightarrow> string option \<Rightarrow> bool option \<Rightarrow> ('k, 'n) aworld \<Rightarrow> sent res \<times> ('k, 'n) aworld" where
  \<comment> \<open>data type, default file name, default content type, \<open>filename\<close> (ignored for paths), \<open>stream\<close>\<close>
  "async_send_file_type P L guess F R a it data_type dflt_name dflt_type fname stream w =
     (let of_path = (\<lambda>p. case snd w p of
            None \<Rightarrow> (Inl SecureSendError, w)
          | Some content \<Rightarrow>
              if should_stream stream content then (Inr (SentStream p data_type), w)
              else package_sent (async_send_packed P L F R a (pack_file L guess p (Some (int (length content), content))
                (Some (named (guess p) dflt_type)) (1024 * 1024 * 1024)) data_type w))
      in case it of
           ItemStr p \<Rightarrow> of_path p
         | ItemPath p \<Rightarrow> of_path p
         | ItemBytes d \<Rightarrow>
             package_sent (async_send_packed P L F R a (pack_binary L d (Some (named fname dflt_name)) dflt_type) data_type w)
         | _ \<Rightarrow> (Inl SecureSendError, w))"

definition async_receive_file_type :: "prims \<Rightarrow> pylib \<Rightarrow> (string \<Rightarrow> bool) \<Rightarrow> fresh_identity \<Rightarrow> (nat \<Rightarrow> time) \<Rightarrow> receive_args \<Rightarrow>
    string \<Rightarrow> string \<Rightarrow> ('k, 'n) aworld \<Rightarrow> string res \<times> ('k, 'n) aworld" where
  "async_receive_file_type P L is_dir F t b expected_type dflt_name = (\<lambda>(y, fs).
     case async_secure_receive_payload P L F t fs (b_sender_id b) (b_package b) (Some expected_type) (b_receiver_identity b)
       (b_receiver b) (b_sender b) (b_sender_card b) y of
       (Inl e, y1) \<Rightarrow> (Inl e, y1, fs)
     | (Inr raw, y1) \<Rightarrow>
         (case payload_from_bytes raw of
            Inl e \<Rightarrow> (Inl e, y1, fs)
          | Inr p \<Rightarrow>
              let target = resolve_download_target is_dir (b_download b) (named (p_filename p) dflt_name) (y_ctx y1)
              in (Inr target, y1, fs(target \<mapsto> p_body p))))"

definition file_kinds :: "(string \<times> string \<times> string \<times> string) list" where
  \<comment> \<open>\<open>SendVideo\<close> to \<open>ReceiveVoice\<close>: data type; default file name and content type of the sender; default
      file name of the receiver\<close>
  "file_kinds =
     [(''video'', ''video.mp4'', ''video/mp4'', ''received_video.mp4''), (''audio'', ''audio.mp3'', ''audio/mpeg'', ''received_audio.mp3''),
      (''photo'', ''photo.jpg'', ''image/jpeg'', ''received_photo.jpg''),
      (''document'', ''document.docx'', ''application/vnd.openxmlformats-officedocument.wordprocessingml.document'', ''received_document.docx''),
      (''pdf'', ''document.pdf'', ''application/pdf'', ''received_document.pdf''),
      (''file'', ''file.bin'', ''application/octet-stream'', ''received_file.bin''),
      (''archive'', ''archive.zip'', ''application/zip'', ''received_archive.zip''), (''voice'', ''voice.m4a'', ''audio/mp4'', ''received_voice.m4a'')]"

definition async_send_kind :: "prims \<Rightarrow> pylib \<Rightarrow> (string \<Rightarrow> string option) \<Rightarrow> fresh_identity \<Rightarrow> send_random \<Rightarrow> send_args \<Rightarrow> string \<Rightarrow>
    item \<Rightarrow> ('k, 'n) aworld \<Rightarrow> sent res \<times> ('k, 'n) aworld" where
  "async_send_kind P L guess F R a ty it w = (case map_of file_kinds ty of
     Some (dflt_name, dflt_type, _) \<Rightarrow> async_send_file_type P L guess F R a it ty dflt_name dflt_type None None w
   | None \<Rightarrow> (Inl SecureSendError, w))"

definition async_receive_kind :: "prims \<Rightarrow> pylib \<Rightarrow> (string \<Rightarrow> bool) \<Rightarrow> fresh_identity \<Rightarrow> (nat \<Rightarrow> time) \<Rightarrow> receive_args \<Rightarrow> string \<Rightarrow>
    ('k, 'n) aworld \<Rightarrow> string res \<times> ('k, 'n) aworld" where
  "async_receive_kind P L is_dir F t b ty w = (case map_of file_kinds ty of
     Some (_, _, dflt_name) \<Rightarrow> async_receive_file_type P L is_dir F t b ty dflt_name w
   | None \<Rightarrow> (Inl SecureReceiveError, w))"

definition route_kind :: "route \<Rightarrow> string option" where
  \<comment> \<open>the routes that have native handlers\<close>
  "route_kind r = (case r of RFile ty \<Rightarrow> Some ty | RPlainFile \<Rightarrow> Some ''file'' | RVoice \<Rightarrow> Some ''voice'' | _ \<Rightarrow> None)"

definition location_args :: "(pyval \<Rightarrow> rat res) \<Rightarrow> item \<Rightarrow> (rat \<times> rat \<times> string option) res" where
  \<comment> \<open>the first argument is \<open>float\<close>; what it gives is finite, and a description is text\<close>
  "location_args to_float it = (case it of
     ItemJson (PDict d) \<Rightarrow>
       let coord = (\<lambda>long short. let v = dget d long; v' = (if v \<noteq> PNone then v else dget_default d short (PFloat (Fin 0)))
             in if v' = PNone then Inr 0 else to_float v')
       in rbind (coord ''latitude'' ''lat'') (\<lambda>lat. rbind (coord ''longitude'' ''lon'') (\<lambda>lon.
          Inr (lat, lon, case dget d ''description'' of PStr s \<Rightarrow> Some s | _ \<Rightarrow> None)))
   | ItemJson (PList (u # v # vs)) \<Rightarrow> rbind (to_float u) (\<lambda>lat. rbind (to_float v) (\<lambda>lon. Inr (lat, lon, None)))
   | _ \<Rightarrow> Inr (0, 0, None))"

definition async_send_any :: "prims \<Rightarrow> pylib \<Rightarrow> codecs \<Rightarrow> (string \<Rightarrow> string option) \<Rightarrow> (pyval \<Rightarrow> rat res) \<Rightarrow> fresh_identity \<Rightarrow>
    send_random \<Rightarrow> bytes \<Rightarrow> bytes \<Rightarrow> send_args \<Rightarrow> string option \<Rightarrow> item \<Rightarrow> ('k, 'n) aworld \<Rightarrow> sent res \<times> ('k, 'n) aworld" where
  \<comment> \<open>\<open>Send\<close>; the parties are passed on as \<open>receiver\<close> and \<open>sender\<close>\<close>
  "async_send_any P L C guess to_float F R rnd_key rnd_sid a data_type it w =
     (let a' = a\<lparr>a_receiver := or_else (a_receiver a) (a_receiver_id a), a_receiver_id := None,
            a_sender := or_else (a_sender a) (a_sender_identity a), a_sender_identity := None\<rparr>;
          by_route = (\<lambda>r it'. case route_kind r of
              Some ty \<Rightarrow> async_send_kind P L guess F R a' ty it' w
            | None \<Rightarrow> in_thread (send_route P L C guess F R rnd_key rnd_sid a' r it') w);
          infer = (\<lambda>_::unit. case infer_item (snd w) it of Inl e \<Rightarrow> (Inl e, w) | Inr (r, it') \<Rightarrow> by_route r it')
      in case data_type of
           None \<Rightarrow> infer ()
         | Some dt \<Rightarrow>
             if lower dt = ''location''
             then (case location_args to_float it of
                Inl e \<Rightarrow> (Inl e, w)
              | Inr (lat, lon, desc) \<Rightarrow> in_thread (\<lambda>w'. package_sent (send_location P L F R a' lat lon desc w')) w)
             else (case route_of_type dt of Some r \<Rightarrow> by_route r it | None \<Rightarrow> infer ()))"

definition async_receive_any :: "prims \<Rightarrow> pylib \<Rightarrow> codecs \<Rightarrow> (string \<Rightarrow> bool) \<Rightarrow> fresh_identity \<Rightarrow> (nat \<Rightarrow> time) \<Rightarrow> bytes \<Rightarrow> bytes \<Rightarrow>
    receive_args \<Rightarrow> ('k, 'n) aworld \<Rightarrow> received res \<times> ('k, 'n) aworld" where
  \<comment> \<open>\<open>Receive\<close>; for an unknown type the payload as it is, and no file is written\<close>
  "async_receive_any P L C is_dir F t rnd_key rnd_sid b w =
     (case resolve_package_input L (snd w) (b_package b) of
        Inl e \<Rightarrow> (Inl e, w)
      | Inr pkg \<Rightarrow>
         let b' = b\<lparr>b_package := InPackage pkg, b_sender := or_else (b_sender_card b) (or_else (b_sender b) (b_sender_id b)),
               b_sender_card := None, b_sender_id := None, b_receiver := or_else (b_receiver b) (b_receiver_identity b),
               b_receiver_identity := None\<rparr>
         in (case receive_route_of_type (pk_data_type pkg) of
            Some r \<Rightarrow>
              (case route_kind r of
                 Some ty \<Rightarrow> and_then (async_receive_kind P L is_dir F t b' ty w) (\<lambda>p w1. (Inr (GotFile p), w1))
               | None \<Rightarrow> in_thread (receive_any P L C is_dir F t rnd_key rnd_sid b') w)
          | None \<Rightarrow>
              (case async_secure_receive_payload P L F t (snd w) (b_sender b') (b_package b') (Some (lower (pk_data_type pkg)))
                 None (b_receiver b') None None (fst w) of
                 (r, y1) \<Rightarrow> (rbind r (\<lambda>raw. Inr (GotBytes raw)), y1, snd w))))"

section \<open>Streams\<close>

fun async_send_blocks :: "prims \<Rightarrow> pylib \<Rightarrow> fresh_identity \<Rightarrow> (nat \<Rightarrow> send_random) \<Rightarrow> send_args \<Rightarrow> (nat \<Rightarrow> dict) \<Rightarrow> string option \<Rightarrow>
    string option \<Rightarrow> nat \<Rightarrow> bytes list \<Rightarrow> ('k, 'n) aworld \<Rightarrow> package list \<times> exn option \<times> ('k, 'n) aworld" where
  \<comment> \<open>a generator of binary packages run to its end: the metadata of each, the file name, a data type to put in,
      the index of the next one\<close>
  "async_send_blocks P L F R a meta fname dt k [] w = ([], None, w)"
| "async_send_blocks P L F R a meta fname dt k (b # bs) w =
     (case in_thread (send_binary P L F (R k) (a\<lparr>a_metadata := Some (meta k), a_output_file := None\<rparr>) (ItemBytes b) fname
         ''application/octet-stream'') w of
        (Inl e, w1) \<Rightarrow> ([], Some e, w1)
      | (Inr pk, w1) \<Rightarrow>
          (case async_send_blocks P L F R a meta fname dt (k + 1) bs w1 of
             (pks, r, w2) \<Rightarrow> ((case dt of None \<Rightarrow> pk | Some ty \<Rightarrow> pk\<lparr>pk_data_type := ty\<rparr>) # pks, r, w2)))"

definition with_metadata :: "dict \<Rightarrow> dict option \<Rightarrow> dict" where
  \<comment> \<open>\<open>{..., **(metadata or {})}\<close>\<close>
  "with_metadata d metadata = fold (\<lambda>(k, v). AList.update k v) (case metadata of None \<Rightarrow> [] | Some m \<Rightarrow> m) d"

definition stream_source :: "files \<Rightarrow> string option \<Rightarrow> item \<Rightarrow> (string \<times> bytes) res" where
  "stream_source fs fname it =
     (let of_path = (\<lambda>p. case fs p of Some content \<Rightarrow> Inr (named fname (path_name p), content) | None \<Rightarrow> Inl OSError)
      in case it of ItemStr p \<Rightarrow> of_path p | ItemPath p \<Rightarrow> of_path p | ItemBytes b \<Rightarrow> Inr (named fname ''stream.bin'', b)
         | _ \<Rightarrow> Inl TypeError)"

definition stream_send_chunks :: "prims \<Rightarrow> pylib \<Rightarrow> fresh_identity \<Rightarrow> (nat \<Rightarrow> send_random) \<Rightarrow> string \<Rightarrow> send_args \<Rightarrow> item \<Rightarrow> int \<Rightarrow>
    string option \<Rightarrow> ('k, 'n) aworld \<Rightarrow> package list \<times> exn option \<times> ('k, 'n) aworld" where
  \<comment> \<open>the random values of each package and the transfer id\<close>
  "stream_send_chunks P L F R tid a it chunk_size fname w =
     (case rbind (stream_source (snd w) fname it) (\<lambda>(name, raw).
         rbind (create_chunked_transfer P L tid raw chunk_size (default_transfer\<lparr>m_filename := Some name\<rparr>)) (\<lambda>cs. Inr (name, cs))) of
        Inl e \<Rightarrow> ([], Some e, w)
      | Inr (name, cs) \<Rightarrow>
          async_send_blocks P L F R a (\<lambda>k. with_metadata [(''stream_chunk_index'', PInt (int k)),
            (''stream_total_chunks'', PInt (int (length cs))), (''stream_filename'', PStr name)] (a_metadata a)) None None 0 cs w)"

fun receive_bodies :: "prims \<Rightarrow> pylib \<Rightarrow> fresh_identity \<Rightarrow> (nat \<Rightarrow> nat \<Rightarrow> time) \<Rightarrow> receive_args \<Rightarrow> package_input list \<Rightarrow>
    ('k, 'n) aworld \<Rightarrow> bytes list res \<times> ('k, 'n) aworld" where
  "receive_bodies P L F t b [] w = (Inr [], w)"
| "receive_bodies P L F t b (inp # inps) w =
     and_then (in_thread (receive_binary P L (\<lambda>_. False) F (t (length inps)) (b\<lparr>b_package := inp, b_download := None\<rparr>)) w) (\<lambda>d w1.
     and_then (receive_bodies P L F t b inps w1) (\<lambda>ds w2. (Inr (d # ds), w2)))"

definition stream_receive_chunks :: "prims \<Rightarrow> pylib \<Rightarrow> fresh_identity \<Rightarrow> (nat \<Rightarrow> nat \<Rightarrow> time) \<Rightarrow> receive_args \<Rightarrow> package_input list \<Rightarrow>
    ('k, 'n) aworld \<Rightarrow> bytes res \<times> ('k, 'n) aworld" where
  "stream_receive_chunks P L F t b inps w =
     and_then (receive_bodies P L F t b inps w) (\<lambda>cs w1.
       (rbind (reassemble_chunked_transfer P cs) (\<lambda>(meta, data). Inr data), w1))"

definition async_send_stream :: "prims \<Rightarrow> pylib \<Rightarrow> fresh_identity \<Rightarrow> (nat \<Rightarrow> send_random) \<Rightarrow> send_args \<Rightarrow> string \<Rightarrow> int \<Rightarrow>
    string option \<Rightarrow> string \<Rightarrow> ('k, 'n) aworld \<Rightarrow> package list \<times> exn option \<times> ('k, 'n) aworld" where
  \<comment> \<open>\<open>SendStream\<close> of a path; an empty source yields one package without content\<close>
  "async_send_stream P L F R a path n fname dt w =
     (case snd w path of
        None \<Rightarrow> ([], Some TypeError, w)
      | Some content \<Rightarrow>
          let name = named fname (path_name path); blocks = stream_blocks n content
          in async_send_blocks P L F R a (\<lambda>k. stream_metadata k (Some name) (a_metadata a)) (Some name) (Some dt) 0
               (if blocks = [] then [[]] else blocks) w)"

fun async_receive_packages :: "prims \<Rightarrow> pylib \<Rightarrow> fresh_identity \<Rightarrow> (nat \<Rightarrow> nat \<Rightarrow> time) \<Rightarrow> receive_args \<Rightarrow> package list \<Rightarrow> bytes \<Rightarrow>
    ('k, 'n) aworld \<Rightarrow> unit res \<times> bytes \<times> ('k, 'n) aworld" where
  \<comment> \<open>the loop of \<open>ReceiveStream\<close>: the bytes written so far\<close>
  "async_receive_packages P L F t b [] out w = (Inr (), out, w)"
| "async_receive_packages P L F t b (pk # pks) out w =
     (case in_thread (receive_binary P L (\<lambda>_. False) F (t (length pks)) (b\<lparr>b_package := InPackage pk, b_download := None\<rparr>)) w of
        (Inl e, w1) \<Rightarrow> (Inl e, out, w1)
      | (Inr d, w1) \<Rightarrow> async_receive_packages P L F t b pks (out @ d) w1)"

definition async_receive_stream :: "prims \<Rightarrow> pylib \<Rightarrow> fresh_identity \<Rightarrow> (nat \<Rightarrow> nat \<Rightarrow> time) \<Rightarrow> receive_args \<Rightarrow> package list \<Rightarrow>
    string \<Rightarrow> ('k, 'n) aworld \<Rightarrow> string res \<times> ('k, 'n) aworld" where
  \<comment> \<open>\<open>ReceiveStream\<close> to a path, which is opened for writing first\<close>
  "async_receive_stream P L F t b pks path w =
     (case async_receive_packages P L F t b pks [] (fst w, (snd w)(path \<mapsto> [])) of
        (r, out, (y, fs)) \<Rightarrow> (rbind r (\<lambda>_. Inr path), y, fs(path \<mapsto> out)))"

section \<open>Lemmas: stores that are not asynchronous\<close>

definition plain_stores :: "('k, 'n) actx \<Rightarrow> bool" where
  "plain_stores y \<longleftrightarrow> \<not> y_async_keys y \<and> y_check y = None"

lemma on_ctx_and_then:
  "and_then (on_ctx f y) g = (case f (y_ctx y) of (Inl e, x) \<Rightarrow> (Inl e, y\<lparr>y_ctx := x\<rparr>) | (Inr a, x) \<Rightarrow> g a (y\<lparr>y_ctx := x\<rparr>))"
  by (simp add: on_ctx_def and_then_def split: prod.split sum.split)

lemma plain_default_identity: "\<not> y_async_keys y \<Longrightarrow> default_identity P L F y = on_ctx (get_identity P L F) y"
  by (auto simp: default_identity_def get_identity_def on_ctx_def async_safe_put_def with_identity_def and_then_def
      split: option.splits sum.splits prod.splits)

lemma plain_own_identity: "\<not> y_async_keys y \<Longrightarrow> async_own_identity P L F oi y = on_ctx (own_identity P L F oi) y"
  by (simp add: async_own_identity_def own_identity_def plain_default_identity on_ctx_def split: option.split)

lemma plain_resolve_party: "\<not> y_async_keys y \<Longrightarrow> async_resolve_party L op y = on_ctx (resolve_party L op) y"
  by (auto simp: async_resolve_party_def resolve_party_def on_ctx_def and_then_def split: option.splits peer.splits sum.splits prod.splits)

lemma plain_unseal: "async_unseal_package P L t None i pcard pk g = unseal_package P L t i pcard pk g"
  by (simp add: async_unseal_package_def unseal_package_def async_open_envelope_def split: sum.split)

lemma peer_or_truthy: "(\<And>p. a = Some p \<Longrightarrow> truthy_peer p) \<Longrightarrow> peer_or a b = or_else a b"
  by (cases a) (simp_all add: peer_or_def)

lemma on_ctx_fields [simp]:
  "y_async_keys (snd (on_ctx f y)) = y_async_keys y" "y_check (snd (on_ctx f y)) = y_check y"
  by (simp_all add: on_ctx_def split: prod.split)

text \<open>C27: The asynchronous engine is the synchronous one when the stores of the context are: sending (to a receiver
  that is not the empty text or the number 0) and receiving have the same results and leave the same
  context and files.\<close>

theorem async_engine_equals_sync:
  assumes "plain_stores y" and "\<And>p. receiver = Some p \<Longrightarrow> truthy_peer p"
  shows "async_secure_send_payload P L F R rid receiver sid sender payload dt out meta (y, fs) =
      (case secure_send_payload P L F R rid receiver sid sender payload dt out meta (y_ctx y, fs) of
         (r, x, fs') \<Rightarrow> (r, y\<lparr>y_ctx := x\<rparr>, fs')) \<and>
    async_secure_receive_payload P L F t fs from_id inp expected rcv_id rcv from from_card y =
      on_ctx (secure_receive_payload P L F t fs from_id inp expected rcv_id rcv from from_card) y"
proof
  have y: "\<not> y_async_keys (y\<lparr>y_ctx := x\<rparr>)" "y_check (y\<lparr>y_ctx := x\<rparr>) = None" for x
    using assms(1) by (simp_all add: plain_stores_def)
  from y(1) [of "y_ctx y"] have k: "\<not> y_async_keys y" by simp
  show "async_secure_send_payload P L F R rid receiver sid sender payload dt out meta (y, fs) =
      (case secure_send_payload P L F R rid receiver sid sender payload dt out meta (y_ctx y, fs) of
         (r, x, fs') \<Rightarrow> (r, y\<lparr>y_ctx := x\<rparr>, fs'))"
    by (simp add: async_secure_send_payload_def secure_send_payload_def plain_resolve_party [OF k] peer_or_truthy [OF assms(2)]
        plain_own_identity [OF y(1)] on_ctx_and_then and_then_def on_ctx_def split: prod.splits sum.splits)
  show "async_secure_receive_payload P L F t fs from_id inp expected rcv_id rcv from from_card y =
      on_ctx (secure_receive_payload P L F t fs from_id inp expected rcv_id rcv from from_card) y"
    by (simp add: async_secure_receive_payload_def secure_receive_payload_def plain_resolve_party [OF k]
        plain_own_identity [OF y(1)] y plain_unseal on_ctx_and_then and_then_def on_ctx_def split: prod.splits sum.splits)
qed

section \<open>Lemmas: asynchronous nonce stores\<close>

lemma async_resolve_keeps: "async_resolve_party L op y = (r, y1) \<Longrightarrow> y_check y1 = y_check y \<and> x_guard (y_ctx y1) = x_guard (y_ctx y)"
  by (auto simp: async_resolve_party_def on_ctx_def and_then_def stored_card_def get_peer_def
      split: option.splits peer.splits sum.splits prod.splits if_splits)

lemma async_identity_keeps: "async_own_identity P L F oi y = (r, y1) \<Longrightarrow> y_check y1 = y_check y"
  by (auto simp: async_own_identity_def default_identity_def async_safe_put_def with_identity_def on_ctx_def and_then_def
      split: option.splits sum.splits prod.splits if_splits)

lemma open_fresh_Inr:
  assumes "open_fresh P L g t1 t2 t3 d pcard i = Inr m"
  obtains c where "\<not> c_is_revoked pcard" "is_expired L t1 None pcard = Inr False" "check_freshness g t2 d = Inr ()"
    "verify_envelope P t3 d (c_public_keys pcard) (Some (entity_id i)) (Some (c_entity_id pcard)) (g_window g) (g_clock_skew g) False = Inr c"
    "decrypt_verified_envelope P c (keypair i) [] = Inr m"
  using assms by (auto simp: open_fresh_def res_Inr_iffs guard_Inr_iff verify_validity_def split: if_splits)

lemma async_open_Inr:
  assumes "async_open_envelope P L t (Some check) i pcard env g = (Inr m, g')"
  shows "check (t 0) (e_envelope_nonce env) (g_window (go_cfg g)) (go_state g) = (Inr True, go_state g')"
    and "open_fresh P L (go_cfg g) (t 1) (t 2) (t 3) (env_to_dict env) pcard i = Inr m"
  using assms by (auto simp: async_open_envelope_def check_async_replay_def guard_Inr_iff split: sum.splits prod.splits)

lemma async_receive_steps:
  assumes "async_secure_receive_payload P L F t fs from_id inp et rcv_id rcv from from_card y = (Inr m, y')"
  obtains pcard y1 pk j y3 g where
    "async_resolve_party L (or_else from_card (or_else from from_id)) y = (Inr (pcard, pk_sender_id pk), y1)"
    "resolve_package_input L fs inp = Inr pk" "async_own_identity P L F (or_else rcv rcv_id) y1 = (Inr j, y3)"
    "pk_receiver_id pk = entity_id j" "\<forall>ty. et = Some ty \<longrightarrow> pk_data_type pk = ty"
    "async_unseal_package P L t (y_check y3) j pcard pk (x_guard (y_ctx y3)) = (Inr m, g)"
    "y' = y3\<lparr>y_ctx := (y_ctx y3)\<lparr>x_guard := g\<rparr>\<rparr>"
proof -
  from assms obtain pcard sid y1 pk j y3 where r:
    "async_resolve_party L (or_else from_card (or_else from from_id)) y = (Inr (pcard, sid), y1)"
    "resolve_package_input L fs inp = Inr pk" "async_own_identity P L F (or_else rcv rcv_id) y1 = (Inr j, y3)"
    "check_container pk sid (entity_id j) et = Inr ()"
    and u: "(case async_unseal_package P L t (y_check y3) j pcard pk (x_guard (y_ctx y3)) of
       (Inl e, g) \<Rightarrow> (Inl (receive_error e), y3\<lparr>y_ctx := (y_ctx y3)\<lparr>x_guard := g\<rparr>\<rparr>)
     | (Inr m, g) \<Rightarrow> (Inr m, y3\<lparr>y_ctx := (y_ctx y3)\<lparr>x_guard := g\<rparr>\<rparr>)) = (Inr m, y')"
    unfolding async_secure_receive_payload_def and_then_Inr by (clarsimp simp: and_then_Inr)
  from u obtain g where g: "async_unseal_package P L t (y_check y3) j pcard pk (x_guard (y_ctx y3)) = (Inr m, g)"
    "y' = y3\<lparr>y_ctx := (y_ctx y3)\<lparr>x_guard := g\<rparr>\<rparr>" by (auto split: sum.splits prod.splits)
  have c: "pk_sender_id pk = sid" "pk_receiver_id pk = entity_id j" "\<forall>ty. et = Some ty \<longrightarrow> pk_data_type pk = ty"
    using r(4) by (simp_all add: check_container_def guard_Inr_iff split: option.splits)
  show ?thesis by (rule that [OF _ r(2,3) c(2,3) g]) (use r(1) c(1) in simp_all)
qed

text \<open>C28: What a payload is that the asynchronous engine returns with an asynchronous nonce store: the package
  names the party asked for as sender and the own identity as receiver, the nonce of its envelope was new
  to the store, which has recorded it, the card of the sender is neither revoked nor expired, the envelope
  is fresh and carries both signatures of the sender for this identity, and the payload is the decrypted
  envelope, or the chunks opened with it.\<close>

theorem async_receive_sound:
  assumes "async_secure_receive_payload P L F t fs from_id inp et rcv_id rcv from from_card y = (Inr m, y')"
    and "y_check y = Some check"
  shows "\<exists>pcard y1 pk j y3 env c k. async_resolve_party L (or_else from_card (or_else from from_id)) y = (Inr (pcard, pk_sender_id pk), y1) \<and>
    resolve_package_input L fs inp = Inr pk \<and> async_own_identity P L F (or_else rcv rcv_id) y1 = (Inr j, y3) \<and>
    pk_receiver_id pk = entity_id j \<and> (\<forall>ty. et = Some ty \<longrightarrow> pk_data_type pk = ty) \<and>
    \<not> c_is_revoked pcard \<and> is_expired L (t 1) None pcard = Inr False \<and>
    package_envelope L (pk_envelope pk) = Inr env \<and>
    check (t 0) (e_envelope_nonce env) (g_window (go_cfg (x_guard (y_ctx y3)))) (go_state (x_guard (y_ctx y3))) =
      (Inr True, go_state (x_guard (y_ctx y'))) \<and>
    check_freshness (go_cfg (x_guard (y_ctx y3))) (t 2) (env_to_dict env) = Inr () \<and>
    verify_envelope P (t 3) (env_to_dict env) (c_public_keys pcard) (Some (entity_id j)) (Some (c_entity_id pcard))
      (g_window (go_cfg (x_guard (y_ctx y3)))) (g_clock_skew (go_cfg (x_guard (y_ctx y3)))) False = Inr c \<and>
    decrypt_verified_envelope P c (keypair j) [] = Inr k \<and>
    (if pk_is_chunked pk then open_chunks P k (e_envelope_nonce env) (pk_chunks pk) = Inr m else m = k)"
proof -
  from assms(1) obtain pcard y1 pk j y3 g where r:
    "async_resolve_party L (or_else from_card (or_else from from_id)) y = (Inr (pcard, pk_sender_id pk), y1)"
    "resolve_package_input L fs inp = Inr pk" "async_own_identity P L F (or_else rcv rcv_id) y1 = (Inr j, y3)"
    "pk_receiver_id pk = entity_id j" "\<forall>ty. et = Some ty \<longrightarrow> pk_data_type pk = ty"
    and u: "async_unseal_package P L t (y_check y3) j pcard pk (x_guard (y_ctx y3)) = (Inr m, g)"
    and y': "y' = y3\<lparr>y_ctx := (y_ctx y3)\<lparr>x_guard := g\<rparr>\<rparr>" by (rule async_receive_steps)
  have "y_check y3 = Some check"
    using async_resolve_keeps [OF r(1)] async_identity_keeps [OF r(3)] assms(2) by simp
  with u obtain env k g1 where e: "package_envelope L (pk_envelope pk) = Inr env"
    "async_open_envelope P L t (Some check) j pcard env (x_guard (y_ctx y3)) = (Inr k, g1)" "g1 = g"
    "if pk_is_chunked pk then open_chunks P k (e_envelope_nonce env) (pk_chunks pk) = Inr m else m = k"
    by (auto simp: async_unseal_package_def and_then_Inr split: if_splits sum.splits)
  from async_open_Inr(2) [OF e(2)] obtain c where o: "\<not> c_is_revoked pcard" "is_expired L (t 1) None pcard = Inr False"
    "check_freshness (go_cfg (x_guard (y_ctx y3))) (t 2) (env_to_dict env) = Inr ()"
    "verify_envelope P (t 3) (env_to_dict env) (c_public_keys pcard) (Some (entity_id j)) (Some (c_entity_id pcard))
      (g_window (go_cfg (x_guard (y_ctx y3)))) (g_clock_skew (go_cfg (x_guard (y_ctx y3)))) False = Inr c"
    "decrypt_verified_envelope P c (keypair j) [] = Inr k" by (rule open_fresh_Inr)
  show ?thesis
    using r e(1,3,4) o async_open_Inr(1) [OF e(2)] y'
    by (intro exI [where x = pcard] exI [where x = y1] exI [where x = pk] exI [where x = j] exI [where x = y3]
        exI [where x = env] exI [where x = c] exI [where x = k] conjI) simp_all
qed

section \<open>What an asynchronous nonce store breaks\<close>

lemma mem_marks_once:
  assumes "mem_inv s" and "mem_mark_used t n ttl s = (Inr True, s1)" and "u < t + of_int ttl"
  shows "mem_mark_used u n k s1 = (Inr False, mem_tick u s1)"
proof -
  obtain e where e: "t + of_int ttl \<le> e" "mem_tracked s1 n = Some e"
    using mem.record_use [OF assms(1), of t n ttl] assms(2) by auto
  have "mem_inv s1" using mem_mark_inv [OF assms(1), of t n ttl] assms(2) by simp
  then have "mem_tracked (mem_tick u s1) n = Some e" by (rule mem_tick_keeps) (use e assms(3) in simp_all)
  then show ?thesis by (simp add: mem_mark_used_eq Let_def)
qed

definition addressed :: "package \<Rightarrow> public_card \<Rightarrow> identity \<Rightarrow> bool" where
  \<comment> \<open>a package that gets as far as the envelope: it names the two parties and has chunks if it is chunked\<close>
  "addressed pk c j \<longleftrightarrow> pk_sender_id pk = c_entity_id c \<and> pk_receiver_id pk = entity_id j \<and>
     (pk_is_chunked pk \<longrightarrow> py_truthy (pk_chunks pk))"

lemma async_receive_direct:
  assumes "addressed pk c j" and "et = None \<or> et = Some (pk_data_type pk)"
  shows "async_secure_receive_payload P L F t fs None (InPackage pk) et None (Some j) (Some (PeerCard c)) None y =
    (case async_unseal_package P L t (y_check y) j c pk (x_guard (y_ctx y)) of
       (Inl e, g) \<Rightarrow> (Inl (receive_error e), y\<lparr>y_ctx := (y_ctx y)\<lparr>x_guard := g\<rparr>\<rparr>)
     | (Inr m, g) \<Rightarrow> (Inr m, y\<lparr>y_ctx := (y_ctx y)\<lparr>x_guard := g\<rparr>\<rparr>))"
proof -
  have "check_container pk (c_entity_id c) (entity_id j) et = Inr ()"
    using assms by (auto simp: check_container_def addressed_def)
  then show ?thesis
    by (simp add: async_secure_receive_payload_def async_resolve_party_def resolve_package_input_def async_own_identity_def)
qed

lemma addressed_unseal:
  assumes "addressed pk c j" and "package_envelope L (pk_envelope pk) = Inr env"
  shows "async_unseal_package P L t ocheck j c pk g = and_then (async_open_envelope P L t ocheck j c env g) (\<lambda>m g1.
    if \<not> pk_is_chunked pk then (Inr m, g1) else (open_chunks P m (e_envelope_nonce env) (pk_chunks pk), g1))"
proof -
  have "pk_envelope pk \<noteq> PNone" using assms(2) by (auto simp: package_envelope_def)
  with assms show ?thesis by (auto simp: async_unseal_package_def addressed_def)
qed

lemma addressed_marks:
  assumes "addressed pk c j" and "package_envelope L (pk_envelope pk) = Inr env"
    and "check (t 0) (e_envelope_nonce env) (g_window (go_cfg g)) (go_state g) = (Inr True, s1)"
  shows "snd (async_unseal_package P L t (Some check) j c pk g) = g\<lparr>go_state := s1\<rparr>"
  by (simp add: addressed_unseal [OF assms(1,2)] async_open_envelope_def check_async_replay_def assms(3) and_then_def split: sum.split)

lemma addressed_refused:
  assumes "addressed pk c j" and "package_envelope L (pk_envelope pk) = Inr env"
    and "check (t 0) (e_envelope_nonce env) (g_window (go_cfg g)) (go_state g) = (Inr False, s1)"
  shows "async_unseal_package P L t (Some check) j c pk g = (Inl DuplicateMessageError, g\<lparr>go_state := s1\<rparr>)"
  by (simp add: addressed_unseal [OF assms(1,2)] async_open_envelope_def check_async_replay_def assms(3))

text \<open>C29: With an asynchronous nonce store the nonce is recorded before anything of the envelope is verified: any
  package that names the parties, whoever made it, signed or not, makes the receiver refuse the genuine
  package with the same nonce as a duplicate for the length of the window. (The synchronous engine records
  the nonce after the signatures.)\<close>

theorem async_forgery_burns_nonce:
  assumes "y_check y = Some mem_mark_used" and "go_state (x_guard (y_ctx y)) = s" and "mem_inv s"
    and "mem_tracked s n = None" and "length (mstore s) < MAX_NONCE_STORE_SIZE"
    and "addressed forged c j" and "package_envelope L (pk_envelope forged) = Inr env" and "e_envelope_nonce env = n"
    and "addressed genuine c j" and "package_envelope L (pk_envelope genuine) = Inr env'" and "e_envelope_nonce env' = n"
    and "u 0 < t 0 + of_int (g_window (go_cfg (x_guard (y_ctx y))))"
  shows "\<exists>r y'. async_secure_receive_payload P L F t fs None (InPackage forged) None None (Some j) (Some (PeerCard c)) None y = (r, y') \<and>
    fst (async_secure_receive_payload P L F u fs None (InPackage genuine) None None (Some j) (Some (PeerCard c)) None y') =
      Inl DuplicateMessageError"
proof -
  let ?g = "x_guard (y_ctx y)"
  obtain s1 where s1: "mem_mark_used (t 0) n (g_window (go_cfg ?g)) s = (Inr True, s1)"
    using mem_accepts(2) [OF assms(3-5)] by (metis prod.collapse)
  obtain r where u1: "async_unseal_package P L t (Some mem_mark_used) j c forged ?g = (r, ?g\<lparr>go_state := s1\<rparr>)"
    using addressed_marks [OF assms(6,7)] s1 assms(2,8) by (metis prod.collapse)
  have "mem_mark_used (u 0) n (g_window (go_cfg ?g)) s1 = (Inr False, mem_tick (u 0) s1)"
    by (rule mem_marks_once [OF assms(3) s1 assms(12)])
  then have u2: "async_unseal_package P L u (Some mem_mark_used) j c genuine (?g\<lparr>go_state := s1\<rparr>) =
      (Inl DuplicateMessageError, ?g\<lparr>go_state := mem_tick (u 0) s1\<rparr>)"
    using addressed_refused [OF assms(9,10), of mem_mark_used u "?g\<lparr>go_state := s1\<rparr>" "mem_tick (u 0) s1" P] assms(11)
    by simp
  let ?y1 = "y\<lparr>y_ctx := (y_ctx y)\<lparr>x_guard := ?g\<lparr>go_state := s1\<rparr>\<rparr>\<rparr>"
  have "snd (async_secure_receive_payload P L F t fs None (InPackage forged) None None (Some j) (Some (PeerCard c)) None y) = ?y1"
    using u1 assms(1) by (simp add: async_receive_direct [OF assms(6)] split: sum.split)
  moreover have "fst (async_secure_receive_payload P L F u fs None (InPackage genuine) None None (Some j) (Some (PeerCard c)) None ?y1) =
      Inl DuplicateMessageError"
    using u2 assms(1) by (simp add: async_receive_direct [OF assms(9)] receive_error_def)
  ultimately show ?thesis by (metis prod.collapse)
qed

text \<open>The time to live is the window alone, without the tolerance for clocks that are ahead: an envelope
  dated ahead is still fresh when its nonce is forgotten.\<close>

lemma async_nonce_forgotten:
  "let g = \<lparr>g_window = 300, g_clock_skew = 30\<rparr>; d = [(''timestamp'', PInt 1020), (''envelope_nonce'', PStr ''n'')];
       (r1, s1) = check_async_replay mem_mark_used g 1000 ''n'' mem_init; s2 = snd (mem_cleanup 1310 s1);
       (r2, s3) = check_async_replay mem_mark_used g 1310 ''n'' s2
   in r1 = Inr () \<and> check_freshness g 1000 d = Inr () \<and> r2 = Inr () \<and> check_freshness g 1310 d = Inr ()"
  by (simp add: check_async_replay_def mem_mark_used_eq mem_tick_def mem_room_def mem_tracked_def mem_init_def mem_cleanup_def
      mem_cleanup_unlocked_def MAX_NONCE_STORE_SIZE_def check_freshness_def check_freshness_normalised_def normalise_def age_of_ok
      norm_ts_def norm_nonce_def has_key_def dget_def)

lemma unseen_seen: "fst (unseen (\<lambda>t n s. (Inr True, s)) t nonce s) = Inl DuplicateNonceError"
  by (simp add: unseen_def)

lemma precheck_seen: "fst (precheck (\<lambda>t n s. (Inr True, s)) g t1 t2 d s) \<noteq> Inr u"
  unfolding precheck_def by (simp add: unseen_seen split: sum.split)

lemma open_from_seen: "fst (open_from P L mk (\<lambda>t n s. (Inr True, s)) og t1 t2 t3 t4 t5 t6 d pcard i s) \<noteq> Inr m"
proof (cases "guard (\<not> c_is_revoked pcard) CardRevokedError (verify_validity L t1 None pcard)")
  case (Inl e)
  then show ?thesis by (simp add: open_from_def)
next
  case v: (Inr u)
  show ?thesis
  proof (cases og)
    case None
    with v show ?thesis by (simp add: open_from_def)
  next
    case (Some g)
    obtain rp sp where p: "precheck (\<lambda>t n s. (Inr True, s)) g t2 t3 d s = (rp, sp)" by (rule prod.exhaust)
    then obtain e where "rp = Inl e" using precheck_seen [of g t2 t3 d s] by (cases rp) auto
    with v Some p show ?thesis by (simp add: open_from_def)
  qed
qed

lemma open_envelope_seen:
  "go_seen g = (\<lambda>t n s. (Inr True, s)) \<Longrightarrow> fst (open_envelope P L t i pcard env g) \<noteq> Inr m"
  using open_from_seen [of P L "go_mark g" "Some (go_cfg g)"] by (simp add: open_envelope_def split: prod.split) (metis fst_conv)

lemma unseal_seen:
  "go_seen g = (\<lambda>t n s. (Inr True, s)) \<Longrightarrow> fst (unseal_package P L t i pcard pk g) \<noteq> Inr m"
  using open_envelope_seen [of g P L t i pcard]
  by (auto simp: unseal_package_def and_then_def split: sum.split prod.split) (metis fst_conv)+

lemma receive_payload_seen:
  assumes "go_seen (x_guard x) = (\<lambda>t n s. (Inr True, s))"
  shows "fst (secure_receive_payload P L F t fs sender_id inp et rcv_id rcv sender sender_card x) \<noteq> Inr m"
proof
  assume "fst (secure_receive_payload P L F t fs sender_id inp et rcv_id rcv sender sender_card x) = Inr m"
  then obtain x' where "secure_receive_payload P L F t fs sender_id inp et rcv_id rcv sender sender_card x = (Inr m, x')"
    by (metis prod.collapse)
  then obtain pcard sid x1 pk j x3 where r: "resolve_party L (or_else sender_card (or_else sender sender_id)) x = (Inr (pcard, sid), x1)"
    "own_identity P L F (or_else rcv rcv_id) x1 = (Inr j, x3)"
    and u: "(case unseal_package P L t j pcard pk (x_guard x3) of
       (Inl e, g) \<Rightarrow> (Inl (receive_error e), x3\<lparr>x_guard := g\<rparr>) | (Inr m, g) \<Rightarrow> (Inr m, x3\<lparr>x_guard := g\<rparr>)) = (Inr m, x')"
    unfolding secure_receive_payload_def and_then_Inr by (clarsimp simp: and_then_Inr)
  have "x_guard x1 = x_guard x" using resolve_party_guard [OF r(1)] by simp
  moreover have "x_guard x3 = x_guard x1"
    using r(2) by (auto simp: own_identity_def get_identity_def and_then_def put_own_def put_card_def
        split: option.splits sum.splits prod.splits)
  moreover obtain g where "unseal_package P L t j pcard pk (x_guard x3) = (Inr m, g)" using u by (auto split: sum.splits prod.splits)
  ultimately show False using unseal_seen [of "x_guard x3" P L t j pcard pk m] assms by simp
qed

text \<open>With an asynchronous nonce store the receivers that run in a thread (texts, HTML, JSON, contacts,
  locations, binary data, live sessions) refuse every package: whatever arrives, \<open>Receive\<close> returns a value
  only for files, voice messages and unknown types.\<close>

theorem async_thread_receive_refuses:
  assumes "y_check y = Some check" and "resolve_package_input L fs (b_package b) = Inr pk"
    and "receive_route_of_type (pk_data_type pk) = Some ro" and "route_kind ro = None"
  shows "fst (async_receive_any P L C is_dir F t k i b (y, fs)) \<noteq> Inr v"
proof
  let ?b = "b\<lparr>b_package := InPackage pk, b_sender := or_else (b_sender_card b) (or_else (b_sender b) (b_sender_id b)),
    b_sender_card := None, b_sender_id := None, b_receiver := or_else (b_receiver b) (b_receiver_identity b), b_receiver_identity := None\<rparr>"
  assume "fst (async_receive_any P L C is_dir F t k i b (y, fs)) = Inr v"
  then have "fst (in_thread (receive_any P L C is_dir F t k i ?b) (y, fs)) = Inr v"
    using assms(2-4) by (simp add: async_receive_any_def Let_def)
  then obtain w where "receive_any P L C is_dir F t k i ?b (sync_view y, fs) = (Inr v, w)"
    by (auto simp: in_thread_def split: prod.splits)
  then have "first_received P L F t ?b (sync_view y, fs) w" by (rule receive_any_first) simp
  from receive_payload_of_first [OF this] obtain et m x' where
    "secure_receive_payload P L F t fs (b_sender_id ?b) (b_package ?b) et (b_receiver_identity ?b) (b_receiver ?b) (b_sender ?b)
      (b_sender_card ?b) (sync_view y) = (Inr m, x')" by blast
  moreover have "go_seen (x_guard (sync_view y)) = (\<lambda>t n s. (Inr True, s))" using assms(1) by (simp add: sync_view_def Let_def)
  ultimately show False using receive_payload_seen [of "sync_view y"] by (metis fst_conv)
qed

section \<open>Concrete runs\<close>

definition std_async :: "(cards, mem_store) actx" where
  \<comment> \<open>stores that are not asynchronous\<close>
  "std_async = \<lparr>y_ctx = context_init ''/home'', y_async_keys = False, y_check = None\<rparr>"

theorem async_engine_equals_sync_witness:
  "async_secure_receive_payload std_prims demo_lib std_fresh (\<lambda>_. 1700000010) (\<lambda>_. None) None (InStr ''{}'') None None None None
     (Some (PeerCard (std_card std_sender))) std_async =
   on_ctx (secure_receive_payload std_prims demo_lib std_fresh (\<lambda>_. 1700000010) (\<lambda>_. None) None (InStr ''{}'') None None None None
     (Some (PeerCard (std_card std_sender)))) std_async"
proof -
  have "plain_stores std_async" by (simp add: plain_stores_def std_async_def)
  then show ?thesis
    using async_engine_equals_sync [of std_async "Some (PeerCard (std_card std_receiver))"] by (simp add: truthy_peer_def)
qed

definition async_nonces :: "(cards, mem_store) actx" where
  "async_nonces = std_async\<lparr>y_check := Some mem_mark_used\<rparr>"

lemma std_async_guard:
  "x_guard (y_ctx std_async) = default_guard mem_mark_used mem_is_seen mem_init" "y_check async_nonces = Some mem_mark_used"
  "y_ctx async_nonces = y_ctx std_async"
  by (simp_all add: std_async_def async_nonces_def context_init_def)

lemma std_addressed:
  obtains pk env where "seal_package std_prims demo_lib std_random std_sender (entity_id std_receiver) (std_card std_receiver) [1, 2, 3]
      ''file'' [] = Inr pk" "addressed pk (std_card std_sender) std_receiver" "package_envelope demo_lib (pk_envelope pk) = Inr env"
    "\<not> pk_is_chunked pk"
proof -
  obtain pk where pk: "seal_package std_prims demo_lib std_random std_sender (entity_id std_receiver) (std_card std_receiver) [1, 2, 3]
      ''file'' [] = Inr pk" "\<not> pk_is_chunked pk" using std_sealed [of "[1, 2, 3]"] by auto
  from pk(1) obtain env m where e: "seal_for std_prims demo_lib (sr_seal std_random) (sr_t1 std_random) (sr_t2 std_random) m
      (std_card std_receiver) std_sender = Inr env"
    "pk_envelope pk = PDict (env_to_dict env)" "pk_sender_id pk = entity_id std_sender" "pk_receiver_id pk = entity_id std_receiver"
    by (rule seal_package_Inr) auto
  have "addressed pk (std_card std_sender) std_receiver" using e(3,4) pk(2) by (simp add: addressed_def std_card_def)
  moreover have "package_envelope demo_lib (pk_envelope pk) = Inr env"
    using seal_for_Inr(2) [OF e(1)] by (simp add: package_envelope_def e(2))
  ultimately show ?thesis using that pk by blast
qed

theorem async_forgery_burns_nonce_witness:
  "\<exists>forged genuine y'. pk_chunks forged = PList [PNone] \<and> \<not> pk_is_chunked genuine \<and>
    snd (async_secure_receive_payload std_prims demo_lib std_fresh (\<lambda>_. 1700000010) (\<lambda>_. None) None (InPackage forged) None None
      (Some std_receiver) (Some (PeerCard (std_card std_sender))) None async_nonces) = y' \<and>
    fst (async_secure_receive_payload std_prims demo_lib std_fresh (\<lambda>_. 1700000011) (\<lambda>_. None) None (InPackage genuine) None None
      (Some std_receiver) (Some (PeerCard (std_card std_sender))) None y') = Inl DuplicateMessageError"
proof -
  obtain pk env where pk: "addressed pk (std_card std_sender) std_receiver" "package_envelope demo_lib (pk_envelope pk) = Inr env"
    and n: "\<not> pk_is_chunked pk" using std_addressed by blast
  let ?f = "pk\<lparr>pk_is_chunked := True, pk_chunks := PList [PNone]\<rparr>"
  have f: "addressed ?f (std_card std_sender) std_receiver" "package_envelope demo_lib (pk_envelope ?f) = Inr env"
    using pk by (simp_all add: addressed_def py_truthy_def)
  have "\<exists>r y'. async_secure_receive_payload std_prims demo_lib std_fresh (\<lambda>_. 1700000010) (\<lambda>_. None) None (InPackage ?f) None None
      (Some std_receiver) (Some (PeerCard (std_card std_sender))) None async_nonces = (r, y') \<and>
    fst (async_secure_receive_payload std_prims demo_lib std_fresh (\<lambda>_. 1700000011) (\<lambda>_. None) None (InPackage pk) None None
      (Some std_receiver) (Some (PeerCard (std_card std_sender))) None y') = Inl DuplicateMessageError"
    by (rule async_forgery_burns_nonce [OF std_async_guard(2) refl _ _ _ f refl pk refl])
      (simp_all add: std_async_guard default_guard_def mem_inv_init mem_init_empty)
  then show ?thesis using n by (intro exI [of _ ?f] exI [of _ pk]) auto
qed

lemma open_from_fresh:
  assumes "open_from P L mk sn (Some g) t1 t2 t3 t4 t5 t6 d pcard i s = (Inr m, s')"
  shows "open_fresh P L g t1 t2 t4 d pcard i = Inr m"
proof -
  have v: "guard (\<not> c_is_revoked pcard) CardRevokedError (verify_validity L t1 None pcard) = Inr ()"
    using assms by (cases "guard (\<not> c_is_revoked pcard) CardRevokedError (verify_validity L t1 None pcard)") (auto simp: open_from_def)
  obtain rp sp where p: "precheck sn g t2 t3 d s = (rp, sp)" by (rule prod.exhaust)
  have i: "dget d ''recipient_id'' = PStr (entity_id i)" "dget d ''sender_id'' = PStr (c_entity_id pcard)"
    using assms v by (auto simp: open_from_def split: if_splits)
  with assms v p obtain u where "rp = Inr u" by (cases rp) (auto simp: open_from_def)
  with p have f: "check_freshness g t2 d = Inr ()"
    by (auto simp: precheck_def fresh_dict_def check_freshness_def rbind_def split: sum.splits)
  let ?v = "verify_envelope P t4 d (c_public_keys pcard) (Some (entity_id i)) (Some (c_entity_id pcard)) (g_window g) (g_clock_skew g) False"
  obtain c where c: "?v = Inr c" using assms v i p \<open>rp = Inr u\<close> by (cases ?v) (auto simp: open_from_def)
  obtain rc sc where k: "commit mk g t5 t6 d sp = (rc, sc)" by (rule prod.exhaust)
  have "decrypt_verified_envelope P c (keypair i) [] = Inr m"
    using assms v i p \<open>rp = Inr u\<close> c k by (cases rc) (auto simp: open_from_def)
  with v i f c show ?thesis by (simp add: open_fresh_def)
qed

theorem async_receive_sound_witness:
  "\<exists>pk y' s. async_secure_receive_payload std_prims demo_lib std_fresh (\<lambda>_. 1700000010) (\<lambda>_. None) None (InPackage pk) (Some ''file'')
      None (Some std_receiver) (Some (PeerCard (std_card std_sender))) None async_nonces = (Inr [1, 2, 3], y') \<and>
    (\<exists>n. mem_mark_used 1700000010 n 300 mem_init = (Inr True, go_state (x_guard (y_ctx y'))))"
proof -
  let ?g = "x_guard (y_ctx async_nonces)" and ?t = "\<lambda>_. 1700000010"
  obtain pk env where pk: "seal_package std_prims demo_lib std_random std_sender (entity_id std_receiver) (std_card std_receiver) [1, 2, 3]
      ''file'' [] = Inr pk" "addressed pk (std_card std_sender) std_receiver" "package_envelope demo_lib (pk_envelope pk) = Inr env"
    "\<not> pk_is_chunked pk" using std_addressed by blast
  have ty: "pk_data_type pk = ''file''" using pk(1) by (rule seal_package_Inr) auto
  obtain g' where "unseal_package std_prims demo_lib ?t std_receiver (std_card std_sender) pk (memory_guard mem_init) = (Inr [1, 2, 3], g')"
    using std_unsealed [OF pk(1)] by metis
  then have "fst (open_envelope std_prims demo_lib ?t std_receiver (std_card std_sender) env (memory_guard mem_init)) = Inr [1, 2, 3]"
    using pk(3,4) by (auto simp: unseal_package_def and_then_Inr split: if_splits)
  then have o: "open_fresh std_prims demo_lib (go_cfg ?g) 1700000010 1700000010 1700000010 (env_to_dict env) (std_card std_sender) std_receiver =
      Inr [1, 2, 3]"
    by (auto simp: open_envelope_def std_async_guard default_guard_def split: prod.splits intro: open_from_fresh)
  obtain s1 where m: "mem_mark_used 1700000010 (e_envelope_nonce env) 300 mem_init = (Inr True, s1)"
    using mem_accepts(2) [OF mem_inv_init mem_init_empty, of 1700000010 _ 300] by (metis fst_conv surj_pair)
  have u: "async_unseal_package std_prims demo_lib ?t (y_check async_nonces) std_receiver (std_card std_sender) pk ?g =
      (Inr [1, 2, 3], ?g\<lparr>go_state := s1\<rparr>)"
    using o m pk(4) by (simp add: addressed_unseal [OF pk(2,3)] async_open_envelope_def check_async_replay_def std_async_guard default_guard_def)
  have "Some ''file'' = None \<or> Some ''file'' = Some (pk_data_type pk)" by (simp add: ty)
  from async_receive_direct [OF pk(2) this, where y = async_nonces] obtain y' where r: "async_secure_receive_payload std_prims demo_lib std_fresh ?t (\<lambda>_. None) None (InPackage pk) (Some ''file'')
      None (Some std_receiver) (Some (PeerCard (std_card std_sender))) None async_nonces = (Inr [1, 2, 3], y')"
    by (simp add: u)
  from async_receive_sound [OF this std_async_guard(2)]
  have "\<exists>n. mem_mark_used 1700000010 n 300 mem_init = (Inr True, go_state (x_guard (y_ctx y')))"
    by (auto simp: async_resolve_party_def async_own_identity_def std_async_guard default_guard_def)
  with r show ?thesis by blast
qed

theorem async_thread_receive_refuses_witness:
  "\<exists>pk. seal_package std_prims demo_lib std_random std_sender (entity_id std_receiver) (std_card std_receiver) [1, 2, 3] ''text'' [] = Inr pk \<and>
    (\<forall>v. fst (async_receive_any std_prims demo_lib demo_codecs (\<lambda>_. False) std_fresh (\<lambda>_. 1700000010) [] []
      (std_receive\<lparr>b_package := InPackage pk\<rparr>) (async_nonces, \<lambda>_. None)) \<noteq> Inr v)"
proof -
  obtain pk where pk: "seal_package std_prims demo_lib std_random std_sender (entity_id std_receiver) (std_card std_receiver) [1, 2, 3]
      ''text'' [] = Inr pk" using std_sealed [of "[1, 2, 3]"] by auto
  then have ty: "pk_data_type pk = ''text''" by (rule seal_package_Inr) auto
  have "receive_route_of_type ''text'' = Some RText" by code_simp
  then have "receive_route_of_type (pk_data_type pk) = Some RText" by (simp add: ty)
  with pk show ?thesis
    using async_thread_receive_refuses [OF std_async_guard(2), of demo_lib "\<lambda>_. None" "std_receive\<lparr>b_package := InPackage pk\<rparr>" pk RText]
    by (simp add: resolve_package_input_def route_kind_def)
qed

end
