(* ===== verification/AsyncClient.thy ===== *)
theory AsyncClient
  imports Client Aio
begin

text \<open>
  \<open>uxsp/client/_async_client.py\<close> and the Redis cache of \<open>_cache.py\<close>. The asynchronous client takes the same
  steps as the synchronous one (\<open>fetch\<close> of the theory \<open>Client\<close>), with other operations under them: the
  asynchronous context, its senders and receivers, a card lookup of its own, and any cache. \<open>async_ops\<close>
  builds them; the lemmas about the wire hold for it by the locale \<open>client_net\<close>.
\<close>

section \<open>The Redis cache\<close>

text \<open>The client of Redis: \<open>GET\<close> (its reply is text or bytes), \<open>SET\<close> with \<open>EX\<close>, \<open>KEYS\<close> and \<open>DEL\<close>. The first
  argument of the operations of the cache says whether the client is an asynchronous one and the caller
  does not await it: then the coroutine is closed before it has run.\<close>

record 'r cap_redis =
  cr_get :: "string \<Rightarrow> 'r \<Rightarrow> (string + bytes) option res \<times> 'r"
  cr_set :: "string \<Rightarrow> string \<Rightarrow> int \<Rightarrow> 'r \<Rightarrow> unit res \<times> 'r"
  cr_keys :: "string \<Rightarrow> 'r \<Rightarrow> string list res \<times> 'r"
  cr_del :: "string list \<Rightarrow> 'r \<Rightarrow> unit res \<times> 'r"

definition opt_text :: "string option \<Rightarrow> pyval" where
  "opt_text o1 = (case o1 of None \<Rightarrow> PNone | Some s \<Rightarrow> PStr s)"

definition cap_to_dict :: "capability \<Rightarrow> dict" where
  "cap_to_dict c = [(''host'', PStr (h_host c)), (''supports_uxsp'', PBool (h_supports c)),
     (''selected_version'', opt_text (h_version c)), (''peer_id'', opt_text (h_peer c)),
     (''cached_at'', PFloat (Fin (h_cached_at c))), (''ttl'', PFloat (Fin (h_ttl c)))]"

definition text_entry :: "pyval \<Rightarrow> string option" where
  \<comment> \<open>what \<open>to_dict\<close> writes is text or \<open>None\<close>\<close>
  "text_entry v = (case v of PStr s \<Rightarrow> Some s | _ \<Rightarrow> None)"

definition cap_from_dict :: "pylib \<Rightarrow> (pyval \<Rightarrow> rat res) \<Rightarrow> time \<Rightarrow> pyval \<Rightarrow> capability res" where
  \<comment> \<open>\<open>float\<close> and the clock\<close>
  "cap_from_dict L to_float now v = (case v of
     PDict d \<Rightarrow>
       rbind (subscript d ''host'') (\<lambda>host. rbind (subscript d ''supports_uxsp'') (\<lambda>supports.
       rbind (to_float (dget_default d ''cached_at'' (PFloat (Fin now)))) (\<lambda>cached.
       rbind (to_float (dget_default d ''ttl'' (PFloat (Fin 3600)))) (\<lambda>ttl.
       Inr \<lparr>h_host = py_str L host, h_supports = py_truthy supports, h_version = text_entry (dget d ''selected_version''),
         h_peer = text_entry (dget d ''peer_id''), h_cached_at = cached, h_ttl = ttl\<rparr>))))
   | _ \<Rightarrow> Inl TypeError)"

definition reply_text :: "string + bytes \<Rightarrow> string res" where
  "reply_text r = (case r of Inl s \<Rightarrow> Inr s | Inr b \<Rightarrow> (case utf8_decode b of None \<Rightarrow> Inl UnicodeDecodeError | Some s \<Rightarrow> Inr s))"

definition rc_read :: "pylib \<Rightarrow> (pyval \<Rightarrow> rat res) \<Rightarrow> time \<Rightarrow> (string + bytes) option \<Rightarrow> capability option res" where
  "rc_read L to_float now raw = (case raw of
     None \<Rightarrow> Inr None
   | Some r \<Rightarrow>
       if (case r of Inl s \<Rightarrow> s = [] | Inr b \<Rightarrow> b = []) then Inr None
       else rbind (reply_text r) (\<lambda>s. rbind (loads s) (\<lambda>v. rbind (cap_from_dict L to_float now v) (\<lambda>c. Inr (Some c)))))"

definition rc_get :: "bool \<Rightarrow> pylib \<Rightarrow> (pyval \<Rightarrow> rat res) \<Rightarrow> 'r cap_redis \<Rightarrow> string \<Rightarrow> time \<Rightarrow> string \<Rightarrow> 'r \<Rightarrow>
    capability option res \<times> 'r" where
  "rc_get unawaited L to_float R prefix now k s =
     (if unawaited then (Inl RuntimeError, s)
      else and_then (cr_get R (prefix @ k) s) (\<lambda>raw s1. (rc_read L to_float now raw, s1)))"

definition rc_set :: "bool \<Rightarrow> pylib \<Rightarrow> 'r cap_redis \<Rightarrow> string \<Rightarrow> string \<Rightarrow> capability \<Rightarrow> 'r \<Rightarrow> unit res \<times> 'r" where
  "rc_set unawaited L R prefix k c s =
     (if unawaited then (Inl RuntimeError, s)
      else cr_set R (prefix @ k) (dumps (float_repr L) False (PDict (cap_to_dict c))) (trunc (h_ttl c)) s)"

definition rc_clear :: "bool \<Rightarrow> 'r cap_redis \<Rightarrow> string \<Rightarrow> 'r \<Rightarrow> unit res \<times> 'r" where
  "rc_clear unawaited R prefix s =
     (if unawaited then (Inl RuntimeError, s)
      else and_then (cr_keys R (prefix @ ''*'') s) (\<lambda>ks s1. if ks = [] then (Inr (), s1) else cr_del R ks s1))"

section \<open>The operations of the asynchronous client\<close>

record 'c cap_cache =
  cc_get :: "time \<Rightarrow> string \<Rightarrow> 'c \<Rightarrow> capability option res \<times> 'c"
  cc_set :: "string \<Rightarrow> capability \<Rightarrow> 'c \<Rightarrow> unit res \<times> 'c"

definition memory_cache :: "mem_cache cap_cache" where
  "memory_cache = \<lparr>cc_get = mc_get, cc_set = mc_set\<rparr>"

definition redis_cache :: "bool \<Rightarrow> pylib \<Rightarrow> (pyval \<Rightarrow> rat res) \<Rightarrow> 'r cap_redis \<Rightarrow> string \<Rightarrow> 'r cap_cache" where
  "redis_cache unawaited L to_float R prefix =
     \<lparr>cc_get = rc_get unawaited L to_float R prefix, cc_set = rc_set unawaited L R prefix\<rparr>"

record ('k, 'n, 'o, 'c, 'v) aclient_world =
  aw_world :: "('k, 'n) aworld"
  aw_own :: "((string \<Rightarrow> 'o \<Rightarrow> card option res \<times> 'o) \<times> 'o) option"
    \<comment> \<open>the \<open>get\<close> of the key store given to the client, awaited if it has to be\<close>
  aw_cache :: 'c
  aw_net :: 'v

definition in_aworld :: "(('k, 'n) aworld \<Rightarrow> 'a res \<times> ('k, 'n) aworld) \<Rightarrow> ('k, 'n, 'o, 'c, 'v) aclient_world \<Rightarrow>
    'a res \<times> ('k, 'n, 'o, 'c, 'v) aclient_world" where
  "in_aworld f w = (case f (aw_world w) of (r, x) \<Rightarrow> (r, w\<lparr>aw_world := x\<rparr>))"

definition on_actx :: "(('k, 'n) actx \<Rightarrow> 'a res \<times> ('k, 'n) actx) \<Rightarrow> ('k, 'n) aworld \<Rightarrow> 'a res \<times> ('k, 'n) aworld" where
  "on_actx f = (\<lambda>(y, fs). case f y of (r, y') \<Rightarrow> (r, y', fs))"

definition async_lookup :: "string \<Rightarrow> ('k, 'n, 'o, 'c, 'v) aclient_world \<Rightarrow>
    public_card option res \<times> ('k, 'n, 'o, 'c, 'v) aclient_world" where
  \<comment> \<open>a store of the client is the only one that is asked, also if it is empty; without one the context is, and
      whatever that raises means no card\<close>
  "async_lookup eid w = (case aw_own w of
     Some (get, s) \<Rightarrow> (case get eid s of
         (r, s1) \<Rightarrow> (rbind r (\<lambda>oc. Inr (map_option bare_card oc)), w\<lparr>aw_own := Some (get, s1)\<rparr>))
   | None \<Rightarrow> (case in_aworld (on_actx (async_get_peer (PeerId eid))) w of
         (Inl e, w1) \<Rightarrow> (Inr None, w1) | (Inr c, w1) \<Rightarrow> (Inr (Some c), w1)))"

definition async_ops :: "prims \<Rightarrow> pylib \<Rightarrow> codecs \<Rightarrow> (pyval \<Rightarrow> rat res) \<Rightarrow> client_env \<Rightarrow> 'c cap_cache \<Rightarrow>
    (request \<Rightarrow> 'v \<Rightarrow> (int \<times> headers \<times> bytes) res \<times> 'v) \<Rightarrow> ('k, 'n, 'o, 'c, 'v) aclient_world client_ops" where
  "async_ops P L C to_float E Ca N = \<lparr>
     op_identity = in_aworld (on_actx (async_get_identity P L (ce_fresh E))),
     op_lookup = async_lookup,
     op_send = (\<lambda>pc me it. in_aworld (async_send_any P L C (ce_guess E) to_float (ce_fresh E) (ce_random E) (ce_key E) (ce_sid E)
       \<lparr>a_receiver_id = None, a_receiver = Some (PeerCard pc), a_sender_identity = None, a_sender = Some me,
        a_output_file = None, a_metadata = None\<rparr> None it)),
     op_receive = (\<lambda>pc me pk. in_aworld (async_receive_any P L C (ce_is_dir E) (ce_fresh E) (ce_times E) (ce_key E) (ce_sid E)
       \<lparr>b_sender_id = None, b_sender = Some (PeerCard pc), b_sender_card = None, b_receiver_identity = None,
        b_receiver = Some me, b_package = InPackage pk, b_download = None\<rparr>)),
     op_net = (\<lambda>rq w. case N rq (aw_net w) of (r, v) \<Rightarrow> (r, w\<lparr>aw_net := v\<rparr>)),
     op_cache_get = (\<lambda>k w. case cc_get Ca (ce_now E) k (aw_cache w) of (r, s) \<Rightarrow> (r, w\<lparr>aw_cache := s\<rparr>)),
     op_cache_set = (\<lambda>k c w. case cc_set Ca k c (aw_cache w) of (r, s) \<Rightarrow> (r, w\<lparr>aw_cache := s\<rparr>))\<rparr>"

definition async_fetch :: "prims \<Rightarrow> pylib \<Rightarrow> codecs \<Rightarrow> (pyval \<Rightarrow> rat res) \<Rightarrow> client_env \<Rightarrow> 'c cap_cache \<Rightarrow>
    (request \<Rightarrow> 'v \<Rightarrow> (int \<times> headers \<times> bytes) res \<times> 'v) \<Rightarrow> (string \<Rightarrow> bool) \<Rightarrow> client \<Rightarrow> time \<Rightarrow> fetch_args \<Rightarrow>
    ('k, 'n, 'o, 'c, 'v) aclient_world \<Rightarrow> response res \<times> ('k, 'n, 'o, 'c, 'v) aclient_world" where
  "async_fetch P L C to_float E Ca N ip_ok cl now a = fetch L ip_ok (async_ops P L C to_float E Ca N) cl now a"

section \<open>What goes over the wire\<close>

definition async_wire_log :: "('k, 'n, 'o, 'c, request list \<times> 'v) aclient_world \<Rightarrow> request list" where
  "async_wire_log w = fst (aw_net w)"

lemma in_aworld_net [simp]: "aw_net (snd (in_aworld f w)) = aw_net w"
  by (simp add: in_aworld_def split: prod.split)

lemma async_lookup_net [simp]: "aw_net (snd (async_lookup p w)) = aw_net w"
proof (cases "aw_own w")
  case None
  have "aw_net (snd (in_aworld (on_actx (async_get_peer (PeerId p))) w)) = aw_net w" by simp
  then show ?thesis using None by (auto simp: async_lookup_def simp del: in_aworld_net split: prod.split sum.split)
qed (auto simp: async_lookup_def split: prod.split)

interpretation async: client_net "async_ops P L C to_float E Ca (logged N)" async_wire_log for P L C to_float E Ca N
  by unfold_locales (simp_all add: async_ops_def async_wire_log_def logged_def split: prod.split)

lemma async_cache_get [simp]: "fst (op_cache_get (async_ops P L C to_float E Ca N) k w) = fst (cc_get Ca (ce_now E) k (aw_cache w))"
  by (simp add: async_ops_def split: prod.split)

text \<open>C26: The asynchronous client too sends nothing but sealed requests when it is told to use the protocol, with any
  cache, stores that are asynchronous or not, and whatever the peer and the network do: a fetch with
  \<open>force_uxsp\<close>, or one without fall-back to a host that the cache knows to speak the protocol, makes no
  request, or one, whose body is a package that \<open>Send\<close> made for the peer.\<close>

theorem async_forced_fetch_is_sealed:
  fixes w w' :: "('k, 'n, 'o, 'c, request list \<times> 'v) aclient_world"
  assumes "given (fa_force_uxsp a) (cl_force_uxsp cl) \<or>
     \<not> given (fa_allow_fallback a) (cl_allow_fallback cl) \<and>
     (\<forall>k cap. normalize_host_key ip_ok (fa_url a) = Inr k \<longrightarrow> fst (cc_get Ca (ce_now E) k (aw_cache w)) = Inr cap \<longrightarrow>
        (\<exists>c. cap = Some c \<and> h_supports c))"
    and "async_fetch P L C to_float E Ca (logged N) ip_ok cl now a w = (r, w')"
  shows "async_wire_log w' = async_wire_log w \<or>
    (\<exists>pc me (w1 :: ('k, 'n, 'o, 'c, request list \<times> 'v) aclient_world) pk.
       fst (op_send (async_ops P L C to_float E Ca (logged N)) pc me
         (payload_item (fa_data a) (or_else (fa_json a) (fa_json_data a))) w1) = Inr (SentPackage pk) \<and>
       (\<forall>c. fa_peer_card a = Some (PeerCard c) \<longrightarrow> pc = c) \<and>
       async_wire_log w' = async_wire_log w @ [sealed_request L (fa_method a) (fa_url a) (fa_headers a) me pc pk])"
  using async.sealed_fetch [where a = a and cl = cl and ip_ok = ip_ok and w = w and P = P and L = L and La = L and C = C and E = E
      and Ca = Ca and to_float = to_float and N = N and now = now] assms(1)
  unfolding assms(2) [unfolded async_fetch_def] async_cache_get snd_conv by blast

definition demo_async_world :: "bool \<Rightarrow> (cards, mem_store, cards, mem_cache, request list \<times> unit) aclient_world" where
  \<comment> \<open>a host that the cache knows to speak the protocol, or an empty cache\<close>
  "demo_async_world known = \<lparr>aw_world = (std_async, Map.empty), aw_own = None,
     aw_cache = (if known then [(''api.example:443'', cap_new 1700000000 ''api.example:443'' True None None)] else []), aw_net = ([], ())\<rparr>"

definition demo_float :: "pyval \<Rightarrow> rat res" where
  "demo_float v = (case v of PFloat (Fin q) \<Rightarrow> Inr q | PInt n \<Rightarrow> Inr (of_int n) | _ \<Rightarrow> Inl TypeError)"

theorem async_forced_fetch_is_sealed_witness:
  "let w' = snd (async_fetch std_prims demo_lib demo_codecs demo_float demo_env_c memory_cache (logged demo_net) (\<lambda>_. True)
       demo_client 1700000010 ((demo_fetch False)\<lparr>fa_allow_fallback := Some False\<rparr>) (demo_async_world True)) in
   async_wire_log w' = [] \<or> (\<exists>me pk. async_wire_log w' =
     [sealed_request demo_lib ''POST'' ''https://api.example/x'' [] me (std_card std_receiver) pk])"
proof -
  let ?a = "(demo_fetch False)\<lparr>fa_allow_fallback := Some False\<rparr>"
  let ?w = "snd (async_fetch std_prims demo_lib demo_codecs demo_float demo_env_c memory_cache (logged demo_net) (\<lambda>_. True)
     demo_client 1700000010 ?a (demo_async_world True))"
  have k: "normalize_host_key (\<lambda>_. True) ''https://api.example/x'' = Inr ''api.example:443''" by code_simp
  have f: "given (fa_force_uxsp ?a) (cl_force_uxsp demo_client) \<or> \<not> given (fa_allow_fallback ?a) (cl_allow_fallback demo_client) \<and>
     (\<forall>k cap. normalize_host_key (\<lambda>_. True) (fa_url ?a) = Inr k \<longrightarrow>
        fst (cc_get memory_cache (ce_now demo_env_c) k (aw_cache (demo_async_world True))) = Inr cap \<longrightarrow> (\<exists>c. cap = Some c \<and> h_supports c))"
    by (auto simp: demo_fetch_def given_def k memory_cache_def mc_get_def demo_async_world_def cap_is_expired_def cap_new_def demo_env_c_def)
  have "async_wire_log (demo_async_world True) = []" by (simp add: async_wire_log_def demo_async_world_def)
  moreover have "fa_peer_card ?a = Some (PeerCard (std_card std_receiver))" "fa_method ?a = ''POST''"
    "fa_url ?a = ''https://api.example/x''" "fa_headers ?a = []"
    by (simp_all add: demo_fetch_def)
  ultimately show ?thesis
    using async_forced_fetch_is_sealed [OF f prod.collapse [symmetric], where P = std_prims and L = demo_lib and C = demo_codecs
        and to_float = demo_float and N = demo_net and now = 1700000010]
    unfolding Let_def by auto
qed

end
