(* ===== verification/Middleware.thy ===== *)
theory Middleware
  imports Http SecureDispatch
begin

text \<open>
  \<open>uxsp/contrib\<close>: the integrations for FastAPI, Flask and Django. A request passes through the same
  checks in all three (\<open>admit_request\<close>), reaches the endpoint, and the response is sealed if the
  request was; the frameworks differ in the second half. The framework is a parameter: requests and
  responses as records, its JSON responses as the function \<open>render\<close>, the endpoint as a function.
  The calls into the rest of the program are the fields of \<open>web_ops\<close>; \<open>server_ops\<close> builds them from
  the models. A response that is streamed is produced to its end.
\<close>

section \<open>Requests, responses, configuration\<close>

record web_request =
  wq_path :: string
  wq_headers :: headers
  wq_cached :: "bytes option"  \<comment> \<open>the body, if it has been read\<close>
  wq_stream :: "bytes list"

datatype web_body = Full bytes | Streaming "bytes list"

record web_response =
  wr_status :: int
  wr_headers :: headers
  wr_body :: web_body

record web_config =
  wc_require_encryption :: bool
  wc_exclude_paths :: "string list"
  wc_max_response :: int
  wc_max_request :: int

definition encryption_required :: "bool \<Rightarrow> string \<Rightarrow> bool option \<Rightarrow> bool" where
  \<comment> \<open>\<open>require_encryption\<close>, if it is given, overrides the two others\<close>
  "encryption_required fallback mode require =
     (case require of
        Some r \<Rightarrow> r \<or> mode = ''strict''
      | None \<Rightarrow> \<not> fallback \<or> lower_case mode = ''strict'')"

definition web_config_init :: "bool \<Rightarrow> string \<Rightarrow> bool option \<Rightarrow> string list \<Rightarrow> string list option \<Rightarrow> int \<Rightarrow> int \<Rightarrow> web_config" where
  \<comment> \<open>FastAPI and Flask; an empty list of paths counts as none given\<close>
  "web_config_init fallback mode require defaults excluded max_response max_request =
     \<lparr>wc_require_encryption = encryption_required fallback mode require,
      wc_exclude_paths = (case excluded of Some (p # ps) \<Rightarrow> p # ps | _ \<Rightarrow> defaults),
      wc_max_response = max_response, wc_max_request = max_request\<rparr>"

definition fastapi_excluded :: "string list" where
  "fastapi_excluded = [''/docs'', ''/openapi.json'', ''/redoc'']"

definition flask_excluded :: "string list" where "flask_excluded = [''/static'']"

definition django_excluded :: "string list" where "django_excluded = [''/admin/'', ''/static/'']"

definition django_config_init :: "bool \<Rightarrow> string \<Rightarrow> bool option \<Rightarrow> string list option \<Rightarrow> int \<Rightarrow> int \<Rightarrow> web_config" where
  \<comment> \<open>from the settings\<close>
  "django_config_init fallback mode require excluded max_response max_request =
     \<lparr>wc_require_encryption = encryption_required fallback mode require,
      wc_exclude_paths = (case excluded of Some ps \<Rightarrow> ps | None \<Rightarrow> django_excluded),
      wc_max_response = max_response, wc_max_request = max_request\<rparr>"

record web_state =
  wt_encrypted :: bool
  wt_payload :: "received option"
  wt_sender_id :: "string option"
  wt_sender_card :: "public_card option"
  wt_negotiated :: "string option"

record 'w web_ops =
  wo_identity :: "'w \<Rightarrow> identity res \<times> 'w"
  wo_peer :: "string \<Rightarrow> 'w \<Rightarrow> public_card option res \<times> 'w"
  wo_receive :: "peer \<Rightarrow> identity \<Rightarrow> package \<Rightarrow> 'w \<Rightarrow> received res \<times> 'w"
  wo_send :: "public_card \<Rightarrow> identity \<Rightarrow> string option \<Rightarrow> item \<Rightarrow> 'w \<Rightarrow> sent res \<times> 'w"

section \<open>Before the endpoint\<close>

definition excluded :: "web_config \<Rightarrow> web_request \<Rightarrow> bool" where
  "excluded cf rq \<longleftrightarrow> (\<exists>p \<in> set (wc_exclude_paths cf). starts_with p (wq_path rq))"

definition header_text :: "web_request \<Rightarrow> string \<Rightarrow> string" where
  \<comment> \<open>empty if it is missing\<close>
  "header_text rq name = (case header_value (wq_headers rq) name of None \<Rightarrow> [] | Some v \<Rightarrow> v)"

definition negotiated :: "web_request \<Rightarrow> string option" where
  "negotiated rq =
     (let s = header_text rq HEADER_SEC_UXSP_SUPPORT
      in if s = [] then None
         else case negotiate_protocol (Some s) of Some v \<Rightarrow> Some v | None \<Rightarrow> Some DEFAULT_UXSP_SELECTED)"

fun read_stream :: "int \<Rightarrow> int \<Rightarrow> bytes list \<Rightarrow> bytes option" where
  \<comment> \<open>the loop over the chunks; \<open>None\<close>: more than the limit\<close>
  "read_stream limit n [] = Some []"
| "read_stream limit n (b # bs) =
     (if limit < n + int (length b) then None
      else map_option ((@) b) (read_stream limit (n + int (length b)) bs))"

definition declared_too_large :: "web_config \<Rightarrow> web_request \<Rightarrow> bool" where
  \<comment> \<open>a \<open>Content-Length\<close> that is not a number is ignored\<close>
  "declared_too_large cf rq \<longleftrightarrow>
     (case int_of_str (header_text rq ''Content-Length'') of None \<Rightarrow> False | Some n \<Rightarrow> wc_max_request cf < n)"

definition request_body :: "web_config \<Rightarrow> web_request \<Rightarrow> bytes option" where
  "request_body cf rq = (case wq_cached rq of
     Some b \<Rightarrow> if wc_max_request cf < int (length b) then None else Some b
   | None \<Rightarrow> read_stream (wc_max_request cf) 0 (wq_stream rq))"

definition media_type :: "string \<Rightarrow> string" where
  "media_type ct = lower_case (strip (takeWhile (\<lambda>c. c \<noteq> CHR '';'') ct))"

definition looks_sealed :: "web_request \<Rightarrow> bytes \<Rightarrow> bool" where
  "looks_sealed rq body \<longleftrightarrow>
     (header_text rq ''X-UXSP-Package'' \<noteq> [] \<or> header_text rq ''X-UXSP-Sender'' \<noteq> [] \<or>
      media_type (header_text rq ''Content-Type'') = ''application/uxsp+json'') \<and>
     (case dropWhile (\<lambda>b. is_space (char_of (unat b))) body of [] \<Rightarrow> False | b # _ \<Rightarrow> b = 123)"

definition request_package :: "pylib \<Rightarrow> web_request \<Rightarrow> bytes \<Rightarrow> package option res" where
  \<comment> \<open>\<open>Inl\<close>: malformed\<close>
  "request_package L rq body =
     (if \<not> looks_sealed rq body then Inr None
      else case loads_bytes body of
        Inr (PDict d) \<Rightarrow>
          if has_key d ''sender_id'' \<and> (has_key d ''envelope'' \<or> has_key d ''chunks'')
          then rbind (package_from_dict L (PDict d)) (\<lambda>p. Inr (Some p)) else Inr None
      | _ \<Rightarrow> Inr None)"

definition parsed_payload :: "received \<Rightarrow> received" where
  "parsed_payload r = (case r of GotBytes b \<Rightarrow> (case loads_bytes b of Inr v \<Rightarrow> GotValue v | Inl e \<Rightarrow> r) | _ \<Rightarrow> r)"

definition error_page :: "(int \<Rightarrow> pyval \<Rightarrow> web_response) \<Rightarrow> int \<Rightarrow> string \<Rightarrow> web_response" where
  "error_page render status msg = render status (PDict [(''error'', PStr msg)])"

datatype admission = Refused web_response | Admitted identity web_state

definition admit_request :: "pylib \<Rightarrow> (int \<Rightarrow> pyval \<Rightarrow> web_response) \<Rightarrow> 'w web_ops \<Rightarrow> web_config \<Rightarrow> web_request \<Rightarrow> 'w \<Rightarrow>
    admission res \<times> 'w" where
  \<comment> \<open>an exception of the identity or of the key store is not caught; the \<open>detail\<close> texts are left out\<close>
  "admit_request L render M cf rq w =
     (let too_large = (Inr (Refused (error_page render 413 ''Payload Too Large'')), w);
          st = \<lparr>wt_encrypted = False, wt_payload = None, wt_sender_id = None, wt_sender_card = None,
            wt_negotiated = negotiated rq\<rparr>
      in if declared_too_large cf rq then too_large
         else case request_body cf rq of
           None \<Rightarrow> too_large
         | Some body \<Rightarrow>
             (case request_package L rq body of
                Inl e \<Rightarrow> (Inr (Refused (error_page render 400 ''Malformed UXSP request'')), w)
              | Inr op \<Rightarrow>
                  and_then (wo_identity M w) (\<lambda>me w1. case op of
                    None \<Rightarrow> (Inr (if wc_require_encryption cf
                       then Refused (error_page render 400 ''UXSP Encryption Required'') else Admitted me st), w1)
                  | Some pk \<Rightarrow>
                      and_then (wo_peer M (pk_sender_id pk) w1) (\<lambda>pc w2.
                      case wo_receive M (case pc of Some c \<Rightarrow> PeerCard c | None \<Rightarrow> PeerId (pk_sender_id pk)) me pk w2 of
                        (Inl e, w3) \<Rightarrow> (Inr (Refused (error_page render 400 ''UXSP Decryption Failed'')), w3)
                      | (Inr it, w3) \<Rightarrow> (Inr (Admitted me (st\<lparr>wt_encrypted := True, wt_payload := Some (parsed_payload it),
                          wt_sender_id := Some (pk_sender_id pk), wt_sender_card := pc\<rparr>)), w3)))))"

section \<open>After the endpoint\<close>

definition selected_version :: "web_request \<Rightarrow> web_state option \<Rightarrow> string option" where
  \<comment> \<open>for a path that was excluded there is no state\<close>
  "selected_version rq st =
     (case (case st of None \<Rightarrow> None | Some s \<Rightarrow> wt_negotiated s) of
        Some v \<Rightarrow> Some v
      | None \<Rightarrow> if header_text rq HEADER_SEC_UXSP_SUPPORT = [] then None else Some DEFAULT_UXSP_SELECTED)"

definition set_header :: "string \<Rightarrow> string \<Rightarrow> headers \<Rightarrow> headers" where
  \<comment> \<open>assignment to a header, whatever the case of its name\<close>
  "set_header k v hs = filter (\<lambda>(n, x). lower_case n \<noteq> lower_case k) hs @ [(k, v)]"

definition set_selected :: "string option \<Rightarrow> headers \<Rightarrow> headers" where
  "set_selected sel hs = (case sel of None \<Rightarrow> hs | Some v \<Rightarrow> set_header HEADER_SEC_UXSP_SELECTED v hs)"

definition sealed_headers :: "identity \<Rightarrow> string option \<Rightarrow> string option \<Rightarrow> headers \<Rightarrow> headers" where
  "sealed_headers me sid sel hs =
     set_selected sel (set_header ''X-UXSP-Version'' ''1'' (set_header ''X-UXSP-Recipient'' (case sid of None \<Rightarrow> [] | Some s \<Rightarrow> s)
       (set_header ''X-UXSP-Sender'' (entity_id me) (set_header ''X-UXSP-Package'' ''1'' hs))))"

definition plain_response :: "string option \<Rightarrow> web_response \<Rightarrow> web_response" where
  "plain_response sel rs = rs\<lparr>wr_headers := set_selected sel (wr_headers rs)\<rparr>"

text \<open>The item that is sent for the body of a response; \<open>replace\<close> decodes bytes that are not UTF-8.\<close>

definition response_item :: "(bytes \<Rightarrow> string) \<Rightarrow> bytes \<Rightarrow> item" where
  "response_item replace b = (case loads_bytes b of
     Inr (PStr s) \<Rightarrow> ItemStr s | Inr (PDict d) \<Rightarrow> ItemJson (PDict d) | Inr (PList vs) \<Rightarrow> ItemJson (PList vs)
   | Inr _ \<Rightarrow> ItemOther
   | Inl e \<Rightarrow> ItemStr (case utf8_decode b of Some s \<Rightarrow> s | None \<Rightarrow> replace b))"

definition as_package :: "sent \<Rightarrow> package res" where
  \<comment> \<open>\<open>to_dict\<close> or \<open>to_json\<close> of what \<open>Send\<close> returns\<close>
  "as_package s = (case s of SentPackage p \<Rightarrow> Inr p | SentStream p dt \<Rightarrow> Inl AttributeError)"

definition seal_item :: "'w web_ops \<Rightarrow> public_card \<Rightarrow> identity \<Rightarrow> string option \<Rightarrow> item \<Rightarrow> 'w \<Rightarrow> package res \<times> 'w" where
  "seal_item M pc me dt it w = and_then (wo_send M pc me dt it w) (\<lambda>s w1. (as_package s, w1))"

fun seal_stream :: "pylib \<Rightarrow> 'w web_ops \<Rightarrow> public_card \<Rightarrow> identity \<Rightarrow> bytes list \<Rightarrow> 'w \<Rightarrow> bytes list res \<times> 'w" where
  \<comment> \<open>one line for each chunk that is not empty\<close>
  "seal_stream L M pc me [] w = (Inr [], w)"
| "seal_stream L M pc me (b # bs) w =
     (if b = [] then seal_stream L M pc me bs w
      else and_then (seal_item M pc me (Some ''binary'') (ItemBytes b) w) (\<lambda>p w1.
        and_then (seal_stream L M pc me bs w1) (\<lambda>ls w2.
          (Inr (utf8 (package_to_json L False p @ [CHR 0x0A]) # ls), w2))))"

definition streamed_headers :: "headers \<Rightarrow> headers" where
  "streamed_headers hs = (''content-type'', ''application/x-ndjson'') #
     filter (\<lambda>(k, v). lower_case k \<notin> {''content-length'', ''content-type''}) hs"

definition seal_streamed :: "pylib \<Rightarrow> 'w web_ops \<Rightarrow> public_card \<Rightarrow> identity \<Rightarrow> string option \<Rightarrow> string option \<Rightarrow>
    web_response \<Rightarrow> bytes list \<Rightarrow> 'w \<Rightarrow> web_response res \<times> 'w" where
  "seal_streamed L M pc me sid sel rs bs w =
     and_then (seal_stream L M pc me bs w) (\<lambda>ls w1.
       (Inr \<lparr>wr_status = wr_status rs, wr_headers = sealed_headers me sid sel (streamed_headers (wr_headers rs)),
             wr_body = Streaming ls\<rparr>, w1))"

definition seal_full :: "(bytes \<Rightarrow> string) \<Rightarrow> 'w web_ops \<Rightarrow> web_config \<Rightarrow> public_card \<Rightarrow> identity \<Rightarrow> bytes \<Rightarrow> 'w \<Rightarrow>
    package res \<times> 'w" where
  "seal_full replace M cf pc me b w =
     (if wc_max_response cf < int (length b) then (Inl ValueError, w)
      else seal_item M pc me None (response_item replace b) w)"

definition to_seal :: "web_state option \<Rightarrow> bool \<Rightarrow> public_card option" where
  \<comment> \<open>the card to seal for: the request was sealed, or the endpoint asked for it, and the sender is known\<close>
  "to_seal st force = (case st of
     None \<Rightarrow> None
   | Some s \<Rightarrow> if wt_encrypted s \<or> force then wt_sender_card s else None)"

definition sender_of :: "web_state option \<Rightarrow> string option" where
  "sender_of st = (case st of None \<Rightarrow> None | Some s \<Rightarrow> wt_sender_id s)"

definition fastapi_respond :: "pylib \<Rightarrow> (int \<Rightarrow> pyval \<Rightarrow> web_response) \<Rightarrow> (bytes \<Rightarrow> string) \<Rightarrow> 'w web_ops \<Rightarrow> web_config \<Rightarrow>
    web_request \<Rightarrow> identity \<Rightarrow> web_state \<Rightarrow> bool \<Rightarrow> web_response \<Rightarrow> 'w \<Rightarrow> web_response res \<times> 'w" where
  \<comment> \<open>an empty body is left as it is; the headers of the endpoint's response are kept\<close>
  "fastapi_respond L render replace M cf rq me st force rs w =
     (let sel = selected_version rq (Some st); sid = wt_sender_id st
      in case (to_seal (Some st) force, wr_body rs) of
           (Some pc, Streaming bs) \<Rightarrow> seal_streamed L M pc me sid sel rs bs w
         | (Some pc, Full (b # bs)) \<Rightarrow>
             and_then (seal_full replace M cf pc me (b # bs) w) (\<lambda>p w1.
               (Inr \<lparr>wr_status = wr_status rs, wr_headers = sealed_headers me sid sel (wr_headers rs),
                     wr_body = wr_body (render (wr_status rs) (PDict (package_to_dict p)))\<rparr>, w1))
         | _ \<Rightarrow> (Inr (plain_response sel rs), w))"

definition flask_respond :: "pylib \<Rightarrow> (bytes \<Rightarrow> string) \<Rightarrow> 'w web_ops \<Rightarrow> web_config \<Rightarrow> web_request \<Rightarrow> web_state option \<Rightarrow>
    bool \<Rightarrow> web_response \<Rightarrow> 'w \<Rightarrow> web_response res \<times> 'w" where
  \<comment> \<open>\<open>_after_request\<close>, which also runs for responses that the middleware itself made\<close>
  "flask_respond L replace M cf rq st force rs w =
     and_then (wo_identity M w) (\<lambda>me w0.
     let sel = selected_version rq st; sid = sender_of st
     in case to_seal st force of
          None \<Rightarrow> (Inr (plain_response sel rs), w0)
        | Some pc \<Rightarrow>
            (case wr_body rs of
               Streaming bs \<Rightarrow> seal_streamed L M pc me sid sel rs bs w0
             | Full b \<Rightarrow>
                 and_then (seal_full replace M cf pc me b w0) (\<lambda>p w1.
                   (Inr \<lparr>wr_status = wr_status rs,
                         wr_headers = sealed_headers me sid sel (set_header ''Content-Type'' ''application/json'' (wr_headers rs)),
                         wr_body = Full (utf8 (package_to_json L False p))\<rparr>, w1))))"

definition django_respond :: "pylib \<Rightarrow> (int \<Rightarrow> pyval \<Rightarrow> web_response) \<Rightarrow> (bytes \<Rightarrow> string) \<Rightarrow> 'w web_ops \<Rightarrow> web_config \<Rightarrow>
    web_request \<Rightarrow> identity \<Rightarrow> web_state \<Rightarrow> bool \<Rightarrow> web_response \<Rightarrow> 'w \<Rightarrow> web_response res \<times> 'w" where
  \<comment> \<open>the sealed response is a new one, without the headers of the endpoint's response\<close>
  "django_respond L render replace M cf rq me st force rs w =
     (let sel = selected_version rq (Some st); sid = wt_sender_id st
      in case to_seal (Some st) force of
           None \<Rightarrow> (Inr (plain_response sel rs), w)
         | Some pc \<Rightarrow>
             (case wr_body rs of
                Streaming bs \<Rightarrow> seal_streamed L M pc me sid sel rs bs w
              | Full b \<Rightarrow>
                  and_then (seal_full replace M cf pc me b w) (\<lambda>p w1.
                    let new = render (wr_status rs) (PDict (package_to_dict p))
                    in (Inr (new\<lparr>wr_headers := sealed_headers me sid sel (wr_headers new)\<rparr>), w1))))"

section \<open>The whole pass\<close>

text \<open>An endpoint gets the request and the state, and says whether it asked for a sealed response.\<close>

type_synonym 'w endpoint = "web_request \<Rightarrow> web_state option \<Rightarrow> 'w \<Rightarrow> (web_response \<times> bool) res \<times> 'w"

definition protect :: "'w endpoint \<Rightarrow> 'w endpoint" where
  \<comment> \<open>the decorators \<open>protect\<close>, \<open>protect_route\<close>, \<open>protect_view\<close>\<close>
  "protect f rq st w =
     (case st of
        None \<Rightarrow> (Inl RuntimeError, w)
      | Some s \<Rightarrow> and_then (f rq st w) (\<lambda>(rs, force) w1. (Inr (rs, True), w1)))"

definition handed_body :: "pylib \<Rightarrow> (received \<Rightarrow> string) \<Rightarrow> received \<Rightarrow> bytes" where
  \<comment> \<open>FastAPI and Django: the body that the endpoint reads; \<open>str\<close> of a session object is the argument\<close>
  "handed_body L str_obj r = (case r of
     GotValue (PDict d) \<Rightarrow> utf8 (dumps (float_repr L) False (PDict d))
   | GotValue (PList vs) \<Rightarrow> utf8 (dumps (float_repr L) False (PList vs))
   | GotValue v \<Rightarrow> utf8 (py_str L v) | GotBytes b \<Rightarrow> b | GotText s \<Rightarrow> utf8 s | GotFile p \<Rightarrow> utf8 p
   | _ \<Rightarrow> utf8 (str_obj r))"

definition with_body :: "pylib \<Rightarrow> (received \<Rightarrow> string) \<Rightarrow> web_state \<Rightarrow> web_request \<Rightarrow> web_request" where
  "with_body L str_obj st rq = (case wt_payload st of
     None \<Rightarrow> rq | Some r \<Rightarrow> rq\<lparr>wq_cached := Some (handed_body L str_obj r), wq_stream := []\<rparr>)"

definition fastapi_dispatch :: "pylib \<Rightarrow> (int \<Rightarrow> pyval \<Rightarrow> web_response) \<Rightarrow> (bytes \<Rightarrow> string) \<Rightarrow> (received \<Rightarrow> string) \<Rightarrow>
    'w web_ops \<Rightarrow> web_config \<Rightarrow> 'w endpoint \<Rightarrow> web_request \<Rightarrow> 'w \<Rightarrow> web_response res \<times> 'w" where
  "fastapi_dispatch L render replace str_obj M cf app rq w =
     (if excluded cf rq then and_then (app rq None w) (\<lambda>(rs, force) w1. (Inr rs, w1))
      else and_then (admit_request L render M cf rq w) (\<lambda>a w1. case a of
        Refused rs \<Rightarrow> (Inr rs, w1)
      | Admitted me st \<Rightarrow>
          and_then (app (with_body L str_obj st rq) (Some st) w1) (\<lambda>(rs, force) w2.
            fastapi_respond L render replace M cf rq me st force rs w2)))"

definition flask_dispatch :: "pylib \<Rightarrow> (int \<Rightarrow> pyval \<Rightarrow> web_response) \<Rightarrow> (bytes \<Rightarrow> string) \<Rightarrow> 'w web_ops \<Rightarrow> web_config \<Rightarrow>
    'w endpoint \<Rightarrow> web_request \<Rightarrow> 'w \<Rightarrow> web_response res \<times> 'w" where
  "flask_dispatch L render replace M cf app rq w =
     (if excluded cf rq
      then and_then (app rq None w) (\<lambda>(rs, force) w1. flask_respond L replace M cf rq None force rs w1)
      else and_then (admit_request L render M cf rq w) (\<lambda>a w1. case a of
        Refused rs \<Rightarrow> flask_respond L replace M cf rq
          (Some \<lparr>wt_encrypted = False, wt_payload = None, wt_sender_id = None, wt_sender_card = None,
             wt_negotiated = negotiated rq\<rparr>) False rs w1
      | Admitted me st \<Rightarrow>
          and_then (app rq (Some st) w1) (\<lambda>(rs, force) w2. flask_respond L replace M cf rq (Some st) force rs w2)))"

definition django_dispatch :: "pylib \<Rightarrow> (int \<Rightarrow> pyval \<Rightarrow> web_response) \<Rightarrow> (bytes \<Rightarrow> string) \<Rightarrow> (received \<Rightarrow> string) \<Rightarrow>
    'w web_ops \<Rightarrow> web_config \<Rightarrow> 'w endpoint \<Rightarrow> web_request \<Rightarrow> 'w \<Rightarrow> web_response res \<times> 'w" where
  "django_dispatch L render replace str_obj M cf app rq w =
     (if excluded cf rq then and_then (app rq None w) (\<lambda>(rs, force) w1. (Inr rs, w1))
      else and_then (admit_request L render M cf rq w) (\<lambda>a w1. case a of
        Refused rs \<Rightarrow> (Inr rs, w1)
      | Admitted me st \<Rightarrow>
          and_then (app (with_body L str_obj st rq) (Some st) w1) (\<lambda>(rs, force) w2.
            django_respond L render replace M cf rq me st force rs w2)))"

section \<open>The calls into the program\<close>

text \<open>The state: the global context with the files, and the key store given to the middleware.\<close>

record ('k, 'n, 'o) web_world =
  wd_world :: "('k, 'n) world"
  wd_own :: "('o kstore \<times> 'o) option"

record web_env =
  we_identity :: "identity option"  \<comment> \<open>given to the middleware, or what the callable returns\<close>
  we_fresh :: fresh_identity
  we_random :: send_random
  we_times :: "nat \<Rightarrow> time"
  we_guess :: "string \<Rightarrow> string option"
  we_is_dir :: "string \<Rightarrow> bool"
  we_key :: bytes
  we_sid :: bytes

definition on_world :: "(('k, 'n) world \<Rightarrow> 'a res \<times> ('k, 'n) world) \<Rightarrow> ('k, 'n, 'o) web_world \<Rightarrow> 'a res \<times> ('k, 'n, 'o) web_world" where
  "on_world f w = (case f (wd_world w) of (r, x) \<Rightarrow> (r, w\<lparr>wd_world := x\<rparr>))"

definition web_identity :: "prims \<Rightarrow> pylib \<Rightarrow> web_env \<Rightarrow> ('k, 'n, 'o) web_world \<Rightarrow> identity res \<times> ('k, 'n, 'o) web_world" where
  "web_identity P L E w = (case we_identity E of
     Some i \<Rightarrow> (Inr i, w)
   | None \<Rightarrow> on_world (\<lambda>(x, fs). case get_identity P L (we_fresh E) x of (r, x') \<Rightarrow> (r, x', fs)) w)"

definition resolve_sender :: "string \<Rightarrow> ('k, 'n, 'o) web_world \<Rightarrow> public_card option res \<times> ('k, 'n, 'o) web_world" where
  \<comment> \<open>\<open>contrib.resolve_peer_card\<close>; every key store has \<open>public_card\<close>, which raises for an id it does not hold\<close>
  "resolve_sender sid w = (case wd_own w of
     Some (K, s) \<Rightarrow> (case ks_public_card K sid s of (r, s') \<Rightarrow> (rbind r (\<lambda>c. Inr (Some c)), w\<lparr>wd_own := Some (K, s')\<rparr>))
   | None \<Rightarrow> (case get_peer (PeerId sid) (fst (wd_world w)) of
       (r, x) \<Rightarrow> (Inr (case r of Inr c \<Rightarrow> Some c | Inl e \<Rightarrow> None), w\<lparr>wd_world := (x, snd (wd_world w))\<rparr>)))"

definition server_receive_args :: "peer \<Rightarrow> identity \<Rightarrow> package \<Rightarrow> receive_args" where
  "server_receive_args p me pk = \<lparr>b_sender_id = None, b_sender = Some p, b_sender_card = None, b_receiver_identity = None,
     b_receiver = Some me, b_package = InPackage pk, b_download = None\<rparr>"

definition server_send_args :: "public_card \<Rightarrow> identity \<Rightarrow> send_args" where
  "server_send_args pc me = \<lparr>a_receiver_id = None, a_receiver = Some (PeerCard pc), a_sender_identity = None, a_sender = Some me,
     a_output_file = None, a_metadata = None\<rparr>"

definition server_ops :: "prims \<Rightarrow> pylib \<Rightarrow> codecs \<Rightarrow> web_env \<Rightarrow> ('k, 'n, 'o) web_world web_ops" where
  "server_ops P L C E = \<lparr>
     wo_identity = web_identity P L E,
     wo_peer = resolve_sender,
     wo_receive = (\<lambda>p me pk. on_world (receive_any P L C (we_is_dir E) (we_fresh E) (we_times E) (we_key E) (we_sid E)
       (server_receive_args p me pk))),
     wo_send = (\<lambda>pc me dt it. on_world (send_any P L C (we_guess E) (we_fresh E) (we_random E) (we_key E) (we_sid E)
       (server_send_args pc me) dt it))\<rparr>"

section \<open>Lemmas: admission\<close>

lemma admit_cases:
  assumes "admit_request L render M cf rq w = (Inr (Admitted me st), w')"
  obtains (sealed) body pk it pc w1 w2 where "request_body cf rq = Some body" "request_package L rq body = Inr (Some pk)"
      "wo_identity M w = (Inr me, w1)" "wo_peer M (pk_sender_id pk) w1 = (Inr pc, w2)"
      "wo_receive M (case pc of Some c \<Rightarrow> PeerCard c | None \<Rightarrow> PeerId (pk_sender_id pk)) me pk w2 = (Inr it, w')"
      "st = \<lparr>wt_encrypted = True, wt_payload = Some (parsed_payload it), wt_sender_id = Some (pk_sender_id pk),
        wt_sender_card = pc, wt_negotiated = negotiated rq\<rparr>"
  | (plain) body where "request_body cf rq = Some body" "request_package L rq body = Inr None" "\<not> wc_require_encryption cf"
      "st = \<lparr>wt_encrypted = False, wt_payload = None, wt_sender_id = None, wt_sender_card = None, wt_negotiated = negotiated rq\<rparr>"
proof -
  from assms obtain body op where b: "request_body cf rq = Some body" "request_package L rq body = Inr op"
    by (auto simp: admit_request_def Let_def split: if_splits option.splits sum.splits)
  show ?thesis
  proof (cases op)
    case None
    with assms b show ?thesis
      by (intro plain [of body]) (auto simp: admit_request_def and_then_Inr Let_def split: if_splits)
  next
    case (Some pk)
    let ?rest = "\<lambda>me' pc w2. case wo_receive M (case pc of Some c \<Rightarrow> PeerCard c | None \<Rightarrow> PeerId (pk_sender_id pk)) me' pk w2 of
           (Inl e, w3) \<Rightarrow> (Inr (Refused (error_page render 400 ''UXSP Decryption Failed'')), w3)
         | (Inr it, w3) \<Rightarrow> (Inr (Admitted me' (\<lparr>wt_encrypted = False, wt_payload = None, wt_sender_id = None, wt_sender_card = None,
             wt_negotiated = negotiated rq\<rparr>\<lparr>wt_encrypted := True, wt_payload := Some (parsed_payload it),
             wt_sender_id := Some (pk_sender_id pk), wt_sender_card := pc\<rparr>)), w3)"
    have "\<not> declared_too_large cf rq" using assms by (auto simp: admit_request_def Let_def)
    with assms b Some have "and_then (wo_identity M w) (\<lambda>me' w1. and_then (wo_peer M (pk_sender_id pk) w1) (?rest me')) =
        (Inr (Admitted me st), w')"
      unfolding admit_request_def Let_def by simp
    then obtain me' w1 pc w2 where c: "wo_identity M w = (Inr me', w1)" "wo_peer M (pk_sender_id pk) w1 = (Inr pc, w2)"
      and d: "?rest me' pc w2 = (Inr (Admitted me st) :: admission res, w')"
      unfolding and_then_Inr by (elim exE conjE) (rule that)
    obtain ri w3 where r: "wo_receive M (case pc of Some c \<Rightarrow> PeerCard c | None \<Rightarrow> PeerId (pk_sender_id pk)) me' pk w2 = (ri, w3)"
      by (rule prod.exhaust)
    with d obtain it where it: "ri = Inr it" by (cases ri) auto
    with d r have e: "me' = me" "w3 = w'" "st = \<lparr>wt_encrypted = True, wt_payload = Some (parsed_payload it),
             wt_sender_id = Some (pk_sender_id pk), wt_sender_card = pc, wt_negotiated = negotiated rq\<rparr>" by simp_all
    from b Some c r it e show ?thesis by (intro sealed [of body pk w1 pc w2 it]) simp_all
  qed
qed

definition ignores_endpoint :: "('w endpoint \<Rightarrow> 'w \<Rightarrow> web_response res \<times> 'w) \<Rightarrow> 'w \<Rightarrow> bool" where
  \<comment> \<open>the answer is the same whatever the endpoint would do: it is not called\<close>
  "ignores_endpoint dispatch w \<longleftrightarrow> (\<forall>app app'. dispatch app w = dispatch app' w)"

lemma dispatch_ignores:
  assumes "\<not> excluded cf rq" and "\<nexists>me st. fst (admit_request L render M cf rq w) = Inr (Admitted me st)"
  shows "ignores_endpoint (\<lambda>app. fastapi_dispatch L render replace str_obj M cf app rq) w"
    and "ignores_endpoint (\<lambda>app. flask_dispatch L render replace M cf app rq) w"
    and "ignores_endpoint (\<lambda>app. django_dispatch L render replace str_obj M cf app rq) w"
  using assms
  by (auto simp: ignores_endpoint_def fastapi_dispatch_def flask_dispatch_def django_dispatch_def and_then_def
      split: prod.splits sum.splits admission.splits)

lemma dispatch_admitted:
  assumes "\<not> excluded cf rq" and "admit_request L render M cf rq w = (Inr (Admitted me st), w3)"
  shows "fastapi_dispatch L render replace str_obj M cf app rq w =
      and_then (app (with_body L str_obj st rq) (Some st) w3) (\<lambda>(rs, force). fastapi_respond L render replace M cf rq me st force rs)"
    and "flask_dispatch L render replace M cf app rq w =
      and_then (app rq (Some st) w3) (\<lambda>(rs, force). flask_respond L replace M cf rq (Some st) force rs)"
    and "django_dispatch L render replace str_obj M cf app rq w =
      and_then (app (with_body L str_obj st rq) (Some st) w3) (\<lambda>(rs, force). django_respond L render replace M cf rq me st force rs)"
  using assms
  by (simp_all add: fastapi_dispatch_def flask_dispatch_def django_dispatch_def and_then_def split_beta)

lemma server_receives:
  assumes "wo_receive (server_ops P L C E) p me pk w = (Inr it, w')"
  shows "wd_own w' = wd_own w \<and> (\<exists>expected payload. secure_receive_payload P L (we_fresh E) (we_times E) (snd (wd_world w)) None
    (InPackage pk) expected None (Some me) (Some p) None (fst (wd_world w)) = (Inr payload, fst (wd_world w')))"
proof -
  let ?b = "server_receive_args p me pk"
  from assms have "receive_any P L C (we_is_dir E) (we_fresh E) (we_times E) (we_key E) (we_sid E) ?b (wd_world w) =
      (Inr it, wd_world w')" and own: "wd_own w' = wd_own w"
    by (auto simp: server_ops_def on_world_def split: prod.splits)
  from this(1) have "first_received P L (we_fresh E) (we_times E) ?b (wd_world w) (wd_world w')"
    by (rule receive_any_first) (simp add: server_receive_args_def)
  then have "first_received P L (we_fresh E) (we_times E) ?b (fst (wd_world w), snd (wd_world w)) (wd_world w')" by simp
  from receive_payload_of_first [OF this] own show ?thesis by (simp add: server_receive_args_def)
qed

section \<open>Lemmas: responses\<close>

definition sent_as :: "'w web_ops \<Rightarrow> public_card \<Rightarrow> identity \<Rightarrow> string option \<Rightarrow> item \<Rightarrow> package \<Rightarrow> bool" where
  "sent_as M pc me dt it p \<longleftrightarrow> (\<exists>w. fst (wo_send M pc me dt it w) = Inr (SentPackage p))"

lemma seal_item_sent: "seal_item M pc me dt it w = (Inr p, w') \<Longrightarrow> sent_as M pc me dt it p"
proof -
  assume "seal_item M pc me dt it w = (Inr p, w')"
  then obtain s w1 where s: "wo_send M pc me dt it w = (Inr s, w1)" "as_package s = Inr p"
    by (auto simp: seal_item_def and_then_Inr)
  from s(2) have "s = SentPackage p" by (cases s) (simp_all add: as_package_def)
  with s(1) show "sent_as M pc me dt it p" by (auto simp: sent_as_def intro: exI [of _ w])
qed

lemma seal_stream_sent:
  "seal_stream L M pc me bs w = (Inr ls, w') \<Longrightarrow>
   \<exists>ps. ls = map (\<lambda>p. utf8 (package_to_json L False p @ [CHR 0x0A])) ps \<and>
     list_all2 (\<lambda>b p. sent_as M pc me (Some ''binary'') (ItemBytes b) p) (filter (\<lambda>b. b \<noteq> []) bs) ps"
proof (induction bs arbitrary: w ls)
  case (Cons b bs)
  show ?case
  proof (cases "b = []")
    case True
    with Cons show ?thesis by simp
  next
    case False
    with Cons.prems obtain p w1 ls1 where h: "seal_item M pc me (Some ''binary'') (ItemBytes b) w = (Inr p, w1)"
      "seal_stream L M pc me bs w1 = (Inr ls1, w')" "ls = utf8 (package_to_json L False p @ [CHR 0x0A]) # ls1"
      by (auto simp: and_then_Inr)
    from Cons.IH [OF h(2)] obtain ps where ps: "ls1 = map (\<lambda>p. utf8 (package_to_json L False p @ [CHR 0x0A])) ps"
      "list_all2 (\<lambda>b p. sent_as M pc me (Some ''binary'') (ItemBytes b) p) (filter (\<lambda>b. b \<noteq> []) bs) ps" by (elim exE conjE)
    from seal_item_sent [OF h(1)] h(3) ps False show ?thesis by (intro exI [of _ "p # ps"]) simp
  qed
qed simp

definition sealed_body :: "pylib \<Rightarrow> (int \<Rightarrow> pyval \<Rightarrow> web_response) \<Rightarrow> (bytes \<Rightarrow> string) \<Rightarrow> 'w web_ops \<Rightarrow> public_card \<Rightarrow> identity \<Rightarrow>
    int \<Rightarrow> web_body \<Rightarrow> web_body \<Rightarrow> bool" where
  \<comment> \<open>the second body is the first one, sealed for the card\<close>
  "sealed_body L render replace M pc me status b b' = (case b of
     Full c \<Rightarrow> \<exists>p. sent_as M pc me None (response_item replace c) p \<and>
       b' \<in> {Full (utf8 (package_to_json L False p)), wr_body (render status (PDict (package_to_dict p)))}
   | Streaming cs \<Rightarrow> \<exists>ps. b' = Streaming (map (\<lambda>p. utf8 (package_to_json L False p @ [CHR 0x0A])) ps) \<and>
       list_all2 (\<lambda>c p. sent_as M pc me (Some ''binary'') (ItemBytes c) p) (filter (\<lambda>c. c \<noteq> []) cs) ps)"

lemma seal_streamed_body:
  "seal_streamed L M pc me sid sel rs bs w = (Inr rs', w') \<Longrightarrow>
   sealed_body L render replace M pc me (wr_status rs) (Streaming bs) (wr_body rs')"
proof -
  assume "seal_streamed L M pc me sid sel rs bs w = (Inr rs', w')"
  then obtain ls w1 where ls: "seal_stream L M pc me bs w = (Inr ls, w1)" "wr_body rs' = Streaming ls"
    by (auto simp: seal_streamed_def and_then_Inr)
  from seal_stream_sent [OF ls(1)] ls(2) show ?thesis by (simp add: sealed_body_def)
qed

lemma seal_full_sent: "seal_full replace M cf pc me b w = (Inr p, w') \<Longrightarrow> sent_as M pc me None (response_item replace b) p"
  by (auto simp: seal_full_def seal_item_sent split: if_splits)

lemma fastapi_seals:
  assumes "fastapi_respond L render replace M cf rq me st force rs w = (Inr rs', w')" and "to_seal (Some st) force = Some pc"
  shows "if wr_body rs = Full [] then wr_body rs' = Full []
     else sealed_body L render replace M pc me (wr_status rs) (wr_body rs) (wr_body rs')"
proof (cases "wr_body rs")
  case (Full b)
  with assms show ?thesis
    by (cases b) (auto simp: fastapi_respond_def plain_response_def and_then_Inr Let_def sealed_body_def dest!: seal_full_sent)
qed (use assms in \<open>auto simp: fastapi_respond_def Let_def intro: seal_streamed_body\<close>)

lemma flask_seals:
  assumes "flask_respond L replace M cf rq (Some st) force rs w = (Inr rs', w')" and "to_seal (Some st) force = Some pc"
  shows "\<exists>me. fst (wo_identity M w) = Inr me \<and> sealed_body L render replace M pc me (wr_status rs) (wr_body rs) (wr_body rs')"
proof (cases "wr_body rs")
  case (Full b)
  with assms show ?thesis by (auto simp: flask_respond_def and_then_Inr Let_def sealed_body_def dest!: seal_full_sent)
qed (use assms in \<open>auto simp: flask_respond_def and_then_Inr Let_def intro: seal_streamed_body\<close>)

lemma django_seals:
  assumes "django_respond L render replace M cf rq me st force rs w = (Inr rs', w')" and "to_seal (Some st) force = Some pc"
  shows "sealed_body L render replace M pc me (wr_status rs) (wr_body rs) (wr_body rs')"
proof (cases "wr_body rs")
  case (Full b)
  with assms show ?thesis by (auto simp: django_respond_def and_then_Inr Let_def sealed_body_def dest!: seal_full_sent)
qed (use assms in \<open>auto simp: django_respond_def Let_def intro: seal_streamed_body\<close>)

section \<open>Properties\<close>

text \<open>C19: In strict mode an endpoint is reached only by sealed requests: for a path that is not excluded, either
  the answer does not depend on the endpoint at all, in each of the three frameworks, or the body of the
  request was a package that the receiving engine accepted: for the identity of the server, in the
  context of the server (where used nonces are remembered) and from the sender the package names, with
  the card that the key store, or else the context, holds for that sender, or with its id if there is
  none. The endpoint then runs in the context that the engine left, and is told this sender and this card.\<close>

theorem strict_mode_guards_endpoint:
  fixes w :: "('k, 'n, 'o) web_world"
  assumes "wc_require_encryption cf" and "\<not> excluded cf rq"
  shows "(ignores_endpoint (\<lambda>app. fastapi_dispatch L render replace str_obj (server_ops P L C E) cf app rq) w \<and>
      ignores_endpoint (\<lambda>app. flask_dispatch L render replace (server_ops P L C E) cf app rq) w \<and>
      ignores_endpoint (\<lambda>app. django_dispatch L render replace str_obj (server_ops P L C E) cf app rq) w) \<or>
    (\<exists>body pk me w1 pc w2 expected payload w3 st.
      request_body cf rq = Some body \<and> request_package L rq body = Inr (Some pk) \<and>
      web_identity P L E w = (Inr me, w1) \<and> resolve_sender (pk_sender_id pk) w1 = (Inr pc, w2) \<and>
      secure_receive_payload P L (we_fresh E) (we_times E) (snd (wd_world w2)) None (InPackage pk) expected None (Some me)
        (Some (case pc of Some c \<Rightarrow> PeerCard c | None \<Rightarrow> PeerId (pk_sender_id pk))) None (fst (wd_world w2)) =
        (Inr payload, fst (wd_world w3)) \<and> wd_own w3 = wd_own w2 \<and>
      wt_encrypted st \<and> wt_sender_id st = Some (pk_sender_id pk) \<and> wt_sender_card st = pc \<and>
      (\<forall>app. fastapi_dispatch L render replace str_obj (server_ops P L C E) cf app rq w =
          and_then (app (with_body L str_obj st rq) (Some st) w3)
            (\<lambda>(rs, force). fastapi_respond L render replace (server_ops P L C E) cf rq me st force rs) \<and>
        flask_dispatch L render replace (server_ops P L C E) cf app rq w =
          and_then (app rq (Some st) w3) (\<lambda>(rs, force). flask_respond L replace (server_ops P L C E) cf rq (Some st) force rs) \<and>
        django_dispatch L render replace str_obj (server_ops P L C E) cf app rq w =
          and_then (app (with_body L str_obj st rq) (Some st) w3)
            (\<lambda>(rs, force). django_respond L render replace (server_ops P L C E) cf rq me st force rs)))"
proof (cases "\<exists>me st. fst (admit_request L render (server_ops P L C E) cf rq w) = Inr (Admitted me st)")
  case False
  from dispatch_ignores [OF assms(2) False] show ?thesis by (intro disjI1 conjI)
next
  case True
  let ?M = "server_ops P L C E :: ('k, 'n, 'o) web_world web_ops"
  from True obtain me st w3 where a: "admit_request L render ?M cf rq w = (Inr (Admitted me st), w3)"
    by (metis prod.collapse)
  then show ?thesis
  proof (cases rule: admit_cases)
    case (sealed body pk it pc w1 w2)
    from sealed(3,4) have id: "web_identity P L E w = (Inr me, w1)" "resolve_sender (pk_sender_id pk) w1 = (Inr pc, w2)"
      by (simp_all add: server_ops_def)
    from server_receives [OF sealed(5)] obtain expected payload where
      r: "wd_own w3 = wd_own w2" "secure_receive_payload P L (we_fresh E) (we_times E) (snd (wd_world w2)) None (InPackage pk)
        expected None (Some me) (Some (case pc of Some c \<Rightarrow> PeerCard c | None \<Rightarrow> PeerId (pk_sender_id pk))) None
        (fst (wd_world w2)) = (Inr payload, fst (wd_world w3))" by blast
    have st: "wt_encrypted st" "wt_sender_id st = Some (pk_sender_id pk)" "wt_sender_card st = pc"
      using sealed(6) by simp_all
    show ?thesis
      by (intro disjI2 exI conjI allI) (rule sealed(1,2) id r st dispatch_admitted [OF assms(2) a])+
  qed (use assms(1) in simp)
qed

definition demo_config :: web_config where
  "demo_config = web_config_init True ''hybrid'' (Some True) flask_excluded None 10000 10000"

definition demo_request :: web_request where
  "demo_request = \<lparr>wq_path = ''/pay'', wq_headers = [(''Content-Type'', ''text/plain'')], wq_cached = Some [72, 105], wq_stream = []\<rparr>"

theorem strict_mode_guards_endpoint_witness:
  "\<forall>L render replace P C E w. ignores_endpoint
     (\<lambda>app. flask_dispatch L render replace (server_ops P L C E) demo_config app demo_request) (w :: ('k, 'n, 'o) web_world)"
proof (intro allI)
  fix L render replace P C E and w :: "('k, 'n, 'o) web_world"
  have "wc_require_encryption demo_config" "\<not> excluded demo_config demo_request"
    by (simp_all add: demo_config_def demo_request_def web_config_init_def encryption_required_def excluded_def flask_excluded_def starts_with_def)
  moreover have "\<not> looks_sealed demo_request b" for b
    by (simp add: looks_sealed_def header_text_def demo_request_def header_value_def media_type_def) code_simp
  then have "request_package L demo_request b = Inr None" for b by (simp add: request_package_def)
  ultimately show "ignores_endpoint (\<lambda>app. flask_dispatch L render replace (server_ops P L C E) demo_config app demo_request) w"
    using strict_mode_guards_endpoint [of demo_config demo_request L render replace undefined P C E w] by simp
qed

text \<open>C20: A sealed request gets a sealed response: when the body of a request, on a path that is not excluded and
  within the size limit, is a package, its sender is known and the receiver accepts it, then the endpoint runs
  on the payload received, and whatever it returns, the answer that the client gets, if sealing does not
  fail with an exception, is a package that \<open>Send\<close> made of the returned body for the card of that
  sender (or one package for each part of a stream), in each of the three frameworks. Only FastAPI's
  integration leaves an empty body as it is; the others seal it.\<close>

theorem sealed_request_sealed_response:
  assumes "\<not> excluded cf rq" and "\<not> declared_too_large cf rq"
    and "request_body cf rq = Some body" and "request_package L rq body = Inr (Some pk)"
    and "wo_identity M w = (Inr me, w1)" and "wo_peer M (pk_sender_id pk) w1 = (Inr (Some pc), w2)"
    and "wo_receive M (PeerCard pc) me pk w2 = (Inr it, w3)"
  shows "\<exists>st. wt_payload st = Some (parsed_payload it) \<and> wt_sender_id st = Some (pk_sender_id pk) \<and>
    (\<forall>app rs' w'. fastapi_dispatch L render replace str_obj M cf app rq w = (Inr rs', w') \<longrightarrow>
      (\<exists>rs force w4. app (with_body L str_obj st rq) (Some st) w3 = (Inr (rs, force), w4) \<and>
        (if wr_body rs = Full [] then wr_body rs' = Full []
         else sealed_body L render replace M pc me (wr_status rs) (wr_body rs) (wr_body rs')))) \<and>
    (\<forall>app rs' w'. flask_dispatch L render replace M cf app rq w = (Inr rs', w') \<longrightarrow>
      (\<exists>rs force w4 me'. app rq (Some st) w3 = (Inr (rs, force), w4) \<and> fst (wo_identity M w4) = Inr me' \<and>
        sealed_body L render replace M pc me' (wr_status rs) (wr_body rs) (wr_body rs'))) \<and>
    (\<forall>app rs' w'. django_dispatch L render replace str_obj M cf app rq w = (Inr rs', w') \<longrightarrow>
      (\<exists>rs force w4. app (with_body L str_obj st rq) (Some st) w3 = (Inr (rs, force), w4) \<and>
        sealed_body L render replace M pc me (wr_status rs) (wr_body rs) (wr_body rs')))"
proof -
  define st where "st = \<lparr>wt_encrypted = True, wt_payload = Some (parsed_payload it), wt_sender_id = Some (pk_sender_id pk),
    wt_sender_card = Some pc, wt_negotiated = negotiated rq\<rparr>"
  have a: "admit_request L render M cf rq w = (Inr (Admitted me st), w3)"
    using assms(2-7) by (simp add: admit_request_def Let_def and_then_def st_def)
  have t: "to_seal (Some st) force = Some pc" for force by (simp add: to_seal_def st_def)
  have s: "wt_payload st = Some (parsed_payload it)" "wt_sender_id st = Some (pk_sender_id pk)" by (simp_all add: st_def)
  note d = dispatch_admitted [OF assms(1) a]
  show ?thesis
  proof (intro exI [of _ st] conjI allI impI)
    show "wt_payload st = Some (parsed_payload it)" "wt_sender_id st = Some (pk_sender_id pk)" by (rule s)+
  next
    fix app rs' w' assume "fastapi_dispatch L render replace str_obj M cf app rq w = (Inr rs', w')"
    then obtain rs force w4 where r: "app (with_body L str_obj st rq) (Some st) w3 = (Inr (rs, force), w4)"
      "fastapi_respond L render replace M cf rq me st force rs w4 = (Inr rs', w')"
      unfolding d by (auto simp: and_then_Inr)
    from r(1) fastapi_seals [OF r(2) t] show "\<exists>rs force w4. app (with_body L str_obj st rq) (Some st) w3 = (Inr (rs, force), w4) \<and>
        (if wr_body rs = Full [] then wr_body rs' = Full []
         else sealed_body L render replace M pc me (wr_status rs) (wr_body rs) (wr_body rs'))" by blast
  next
    fix app rs' w' assume "flask_dispatch L render replace M cf app rq w = (Inr rs', w')"
    then obtain rs force w4 where r: "app rq (Some st) w3 = (Inr (rs, force), w4)"
      "flask_respond L replace M cf rq (Some st) force rs w4 = (Inr rs', w')"
      unfolding d by (auto simp: and_then_Inr)
    from r(1) flask_seals [OF r(2) t] show "\<exists>rs force w4 me'. app rq (Some st) w3 = (Inr (rs, force), w4) \<and>
        fst (wo_identity M w4) = Inr me' \<and>
        sealed_body L render replace M pc me' (wr_status rs) (wr_body rs) (wr_body rs')" by blast
  next
    fix app rs' w' assume "django_dispatch L render replace str_obj M cf app rq w = (Inr rs', w')"
    then obtain rs force w4 where r: "app (with_body L str_obj st rq) (Some st) w3 = (Inr (rs, force), w4)"
      "django_respond L render replace M cf rq me st force rs w4 = (Inr rs', w')"
      unfolding d by (auto simp: and_then_Inr)
    from r(1) django_seals [OF r(2) t] show "\<exists>rs force w4. app (with_body L str_obj st rq) (Some st) w3 = (Inr (rs, force), w4) \<and>
        sealed_body L render replace M pc me (wr_status rs) (wr_body rs) (wr_body rs')" by blast
  qed
qed

definition demo_package :: package where
  "demo_package = \<lparr>pk_sender_id = ''alice'', pk_receiver_id = ''bob'', pk_data_type = ''text'', pk_is_chunked = False,
     pk_envelope = PNone, pk_chunks = PNone, pk_metadata = PNone\<rparr>"

definition demo_body :: bytes where
  "demo_body = utf8 (package_to_json demo_lib False demo_package)"

definition demo_sealed_request :: "bytes \<Rightarrow> web_request" where
  "demo_sealed_request b = \<lparr>wq_path = ''/pay'', wq_headers = [(''X-UXSP-Package'', ''1'')], wq_cached = Some b, wq_stream = []\<rparr>"

definition demo_web_ops :: "unit web_ops" where
  \<comment> \<open>every package is accepted, and \<open>Send\<close> answers with a fixed one\<close>
  "demo_web_ops = \<lparr>wo_identity = (\<lambda>w. (Inr std_receiver, w)), wo_peer = (\<lambda>s w. (Inr (Some (std_card std_sender)), w)),
     wo_receive = (\<lambda>p me pk w. (Inr (GotText ''hi''), w)),
     wo_send = (\<lambda>pc me dt it w. (Inr (SentPackage demo_package), w))\<rparr>"

definition demo_app :: "unit endpoint" where
  "demo_app rq st w = (Inr (\<lparr>wr_status = 200, wr_headers = [], wr_body = Full [72, 105]\<rparr>, False), w)"

definition demo_render :: "int \<Rightarrow> pyval \<Rightarrow> web_response" where
  "demo_render st v = \<lparr>wr_status = st, wr_headers = [], wr_body = Full []\<rparr>"

lemma demo_sealed_package: "request_package demo_lib (demo_sealed_request demo_body) demo_body = Inr (Some demo_package)"
proof -
  have "json_ok (PDict (package_to_dict demo_package))" by (rule package_dict_json_ok) (simp add: package_ok_def demo_package_def)
  then have l: "loads_bytes demo_body = Inr (PDict (package_to_dict demo_package))"
    by (simp add: demo_body_def package_to_json_def loads_bytes_dumps del: dumps.simps json_ok.simps)
  have "demo_body = 123 # utf8 (dumps_members (float_repr demo_lib) False (package_to_dict demo_package) @ ''}'')"
    by (simp add: demo_body_def package_to_json_def) code_simp
  moreover have "looks_sealed (demo_sealed_request b) (123 # x)" for b x
  proof -
    have "header_text (demo_sealed_request b) ''X-UXSP-Package'' = ''1''"
      by (simp add: header_text_def demo_sealed_request_def header_value_def)
    moreover have "\<not> is_space (char_of (unat (123 :: byte)))" by code_simp
    ultimately show ?thesis by (simp add: looks_sealed_def)
  qed
  ultimately have "looks_sealed (demo_sealed_request demo_body) demo_body" by metis
  moreover have "has_key (package_to_dict demo_package) ''sender_id''" "has_key (package_to_dict demo_package) ''envelope''"
    by (simp_all add: package_to_dict_def has_key_def)
  ultimately show ?thesis using l by (simp add: request_package_def package_from_to_dict)
qed

lemma demo_body_small: "length demo_body \<le> 10000"
proof -
  have q: "length (quote s) \<le> 200" if "length s \<le> 30" for s using length_quote [of s] that by simp
  have "length (package_to_json demo_lib False demo_package) \<le> 4000"
    using q [of "''uxsp_package_version''"] q [of "''1.0''"] q [of "''sender_id''"] q [of "''alice''"] q [of "''receiver_id''"]
      q [of "''bob''"] q [of "''data_type''"] q [of "''text''"] q [of "''is_chunked''"] q [of "''envelope''"] q [of "''chunks''"]
      q [of "''metadata''"]
    by (simp add: package_to_json_def package_to_dict_def demo_package_def key_sep_def item_sep_def)
  then show ?thesis
    using length_utf8_le [of "package_to_json demo_lib False demo_package"] by (simp add: demo_body_def)
qed

theorem sealed_request_sealed_response_witness:
  "\<exists>rs'. flask_dispatch demo_lib demo_render (\<lambda>_. []) demo_web_ops demo_config demo_app (demo_sealed_request demo_body) () =
      (Inr rs', ()) \<and>
     sealed_body demo_lib demo_render (\<lambda>_. []) demo_web_ops (std_card std_sender) std_receiver 200 (Full [72, 105]) (wr_body rs')"
proof -
  let ?rq = "demo_sealed_request demo_body"
  have "\<not> excluded demo_config (demo_sealed_request b)" "\<not> declared_too_large demo_config (demo_sealed_request b)" for b
    by (code_simp, code_simp)
  moreover have "request_body demo_config ?rq = Some demo_body"
    using demo_body_small by (simp add: request_body_def demo_sealed_request_def demo_config_def web_config_init_def)
  ultimately have h: "\<not> excluded demo_config ?rq" "\<not> declared_too_large demo_config ?rq"
    "request_body demo_config ?rq = Some demo_body" "request_package demo_lib ?rq demo_body = Inr (Some demo_package)"
    using demo_sealed_package by blast+
  have o: "wo_identity demo_web_ops () = (Inr std_receiver, ())"
    "wo_peer demo_web_ops (pk_sender_id demo_package) () = (Inr (Some (std_card std_sender)), ())"
    "wo_receive demo_web_ops (PeerCard (std_card std_sender)) std_receiver demo_package () = (Inr (GotText ''hi''), ())"
    "wo_send demo_web_ops pc me dt it () = (Inr (SentPackage demo_package), ())" for pc me dt it
    by (simp_all add: demo_web_ops_def)
  have "\<exists>rs'. flask_dispatch demo_lib demo_render (\<lambda>_. []) demo_web_ops demo_config demo_app ?rq () = (Inr rs', ())"
    by (simp add: h o flask_dispatch_def admit_request_def and_then_def demo_app_def flask_respond_def to_seal_def
        seal_full_def seal_item_def as_package_def, simp add: demo_config_def web_config_init_def)
  then obtain rs' where r: "flask_dispatch demo_lib demo_render (\<lambda>_. []) demo_web_ops demo_config demo_app ?rq () = (Inr rs', ())"
    by blast
  from sealed_request_sealed_response [OF h o(1-3), of demo_render "\<lambda>_. []" "\<lambda>_. []", THEN exE] r
  obtain rs force w4 me' st where e: "demo_app ?rq (Some st) () = (Inr (rs, force), w4)"
    "fst (wo_identity demo_web_ops w4) = Inr me'" "sealed_body demo_lib demo_render (\<lambda>_. []) demo_web_ops (std_card std_sender) me'
      (wr_status rs) (wr_body rs) (wr_body rs')" by metis
  from e(1,2) o(1) have "wr_status rs = 200" "wr_body rs = Full [72, 105]" "me' = std_receiver" by (auto simp: demo_app_def)
  with e(3) r show ?thesis by metis
qed

section \<open>Two limits of the middleware\<close>

text \<open>A response whose text names a file of the server is answered with the file: the text goes to \<open>Send\<close>,
  which takes a string that is an existing path for the file.\<close>

lemma echoed_path_sends_file:
  assumes "snd (wd_world w) s = Some content"
  shows "seal_item (server_ops P L C E) pc me None (ItemStr s) w = seal_item (server_ops P L C E) pc me None (ItemPath s) w"
  using assms by (simp add: seal_item_def server_ops_def on_world_def send_any_def infer_item_def)

text \<open>Outside the strict mode the decorator \<open>protect\<close> does not keep a plain request from the endpoint, and its
  response is not sealed.\<close>

lemma protect_passes_plain:
  assumes "fst (f rq (Some st) w) = Inr (rs, force)" and "wt_sender_card st = None"
  shows "fst (protect f rq (Some st) w) = Inr (rs, True)" and "to_seal (Some st) True = None"
  using assms by (auto simp: protect_def to_seal_def and_then_def split: prod.splits)

end
