(* ===== verification/RateLimit.thy ===== *)
theory RateLimit
  imports Handshake
begin

text \<open>
  \<open>uxsp/core/rate_limit.py\<close>: the fixed-window and the sliding-window limiter in memory,
  their Redis versions over the commands the Lua scripts issue, and the guarded handshakes.
  The abstract class \<open>RateLimiterBase\<close> is the locale \<open>limiter\<close>, whose law bounds what one
  key is granted inside any window; the sliding limiter satisfies it with the configured
  maximum, the fixed-window limiter with twice the maximum less one.
\<close>

section \<open>The limiter interface\<close>

text \<open>
  \<open>admitted s k a b\<close> counts the requests of \<open>k\<close> granted in the half-open interval from \<open>a\<close>
  to \<open>b\<close>, as the limiter remembers them; a \<open>check\<close> at time \<open>t\<close> keeps the last window below
  \<open>quota\<close>. A run is a list of timed checks with non-decreasing clock readings.
\<close>

fun grants :: "(time \<Rightarrow> string \<Rightarrow> 's \<Rightarrow> unit res \<times> 's) \<Rightarrow> (time \<times> string) list \<Rightarrow> 's \<Rightarrow> (time \<times> string) list" where
  \<comment> \<open>the checks of a run that passed\<close>
  "grants check [] s = []"
| "grants check ((t, k) # cs) s =
     (case check t k s of (r, s') \<Rightarrow> (if is_ok r then [(t, k)] else []) @ grants check cs s')"

fun run_checks :: "(time \<Rightarrow> string \<Rightarrow> 's \<Rightarrow> unit res \<times> 's) \<Rightarrow> (time \<times> string) list \<Rightarrow> 's \<Rightarrow> 's" where
  "run_checks check [] s = s"
| "run_checks check ((t, k) # cs) s = run_checks check cs (snd (check t k s))"

definition in_window :: "rat \<Rightarrow> time \<Rightarrow> string \<Rightarrow> (time \<times> string) list \<Rightarrow> (time \<times> string) list" where
  \<comment> \<open>the entries for key \<open>k\<close> in the window of length \<open>w\<close> that ends at \<open>t\<close>\<close>
  "in_window w t k = filter (\<lambda>(u, j). j = k \<and> t - w < u \<and> u \<le> t)"

text \<open>
  The contract: \<open>log s\<close> is a history of grants that explains the state. A check that passes
  adds its grant at the end, and only when fewer than \<open>quota\<close> grants of the key lie in the
  window; nothing else is added.
\<close>

locale limiter =
  fixes check :: "time \<Rightarrow> string \<Rightarrow> 's \<Rightarrow> unit res \<times> 's"
    and reaches :: "(time \<times> string) list \<Rightarrow> time \<Rightarrow> 's \<Rightarrow> bool"
    and window :: rat
    and quota :: nat
  assumes granted: "reaches h t s \<Longrightarrow> t \<le> u \<Longrightarrow> check u k s = (Inr x, s') \<Longrightarrow>
      reaches (h @ [(u, k)]) u s' \<and> length (in_window window u k h) < quota"
    and refused: "reaches h t s \<Longrightarrow> t \<le> u \<Longrightarrow> check u k s = (Inl e, s') \<Longrightarrow> reaches h u s'"
begin

lemma quota_pos: "reaches h t s \<Longrightarrow> t \<le> u \<Longrightarrow> check u k s = (Inr x, s') \<Longrightarrow> 0 < quota"
  using granted by fastforce

text \<open>In a run every grant finds fewer than \<open>quota\<close> earlier ones of its key in its window.\<close>

lemma run_bound:
  "reaches h t s \<Longrightarrow> sorted (t # map fst cs) \<Longrightarrow> h' @ (u, k) # h'' = grants check cs s \<Longrightarrow>
   length (in_window window u k (h @ h')) < quota"
proof (induction cs arbitrary: h t s h')
  case (Cons c cs)
  obtain v j where c: "c = (v, j)" by (cases c)
  obtain r s' where r: "check v j s = (r, s')" by fastforce
  have tv: "t \<le> v" "sorted (v # map fst cs)" using Cons.prems(2) c by simp_all
  show ?case
  proof (cases r)
    case (Inl e)
    then have "reaches h v s'" using refused [OF Cons.prems(1) tv(1)] r by simp
    with Cons.IH [OF this tv(2)] Cons.prems(3) c r Inl show ?thesis by simp
  next
    case (Inr x)
    then have g: "reaches (h @ [(v, j)]) v s'" "length (in_window window v j h) < quota"
      using granted [OF Cons.prems(1) tv(1)] r by simp_all
    have e: "h' @ (u, k) # h'' = (v, j) # grants check cs s'"
      using Cons.prems(3) c r Inr by simp
    show ?thesis
    proof (cases h')
      case Nil
      with e g(2) show ?thesis by simp
    next
      case (Cons x xs)
      with e have "x = (v, j)" "xs @ (u, k) # h'' = grants check cs s'" by simp_all
      with Cons.IH [OF g(1) tv(2), of xs] Cons show ?thesis by simp
    qed
  qed
qed simp

lemma grants_sorted:
  "sorted (t # map fst cs) \<Longrightarrow> sorted (t # map fst (grants check cs s))"
proof (induction cs arbitrary: t s)
  case (Cons c cs)
  have "t \<le> fst c" using Cons.prems by simp
  moreover have "sorted (fst c # map fst (grants check cs (snd (check (fst c) (snd c) s))))"
    using Cons.prems by (intro Cons.IH) simp
  ultimately show ?case by (cases c) (auto split: prod.split, (force intro: order_trans)+)
qed simp

text \<open>So no window of a run contains more than \<open>quota\<close> grants of a key.\<close>

lemma window_bound:
  assumes "reaches [] t s" and "sorted (t # map fst cs)"
  shows "length (in_window window v k (grants check cs s)) \<le> quota"
proof (cases "in_window window v k (grants check cs s) = []")
  case False
  let ?P = "\<lambda>(u, j). j = k \<and> v - window < u \<and> u \<le> v"
  obtain e h' h'' where g: "grants check cs s = h' @ e # h''" and e: "?P e" and n: "\<forall>x \<in> set h''. \<not> ?P x"
    using False split_list_last_prop [of "grants check cs s" ?P]
    by (auto simp: in_window_def filter_empty_conv)
  obtain u where u: "e = (u, k)" "u \<le> v" "v - window < u" using e by auto
  have "\<forall>x \<in> set h'. fst x \<le> u"
    using grants_sorted [OF assms(2), of s] g u(1) by (auto simp: sorted_append)
  then have "length (in_window window v k h') \<le> length (in_window window u k h')"
    using u(2) unfolding in_window_def by (induction h') auto
  also have "\<dots> < quota" using run_bound [OF assms, of h' u k h''] g u(1) by simp
  finally show ?thesis
    using g e n by (simp add: in_window_def filter_empty_conv [THEN iffD2])
qed simp

end

section \<open>Fixed window, in memory\<close>

record rate_config =
  max_requests :: int
  window_seconds :: rat
  key_prefix :: string

definition rate_init :: "rate_config \<Rightarrow> rate_config res" where
  \<comment> \<open>the checks of every limiter's constructor\<close>
  "rate_init c = guard (0 \<le> max_requests c) ValueError (guard (0 < window_seconds c) ValueError (Inr c))"

record fixed_limiter =
  f_config :: rate_config
  counters :: "(string \<times> int \<times> time) list"
  f_last_cleanup :: time

definition FIXED_MAX_ENTRIES :: int where "FIXED_MAX_ENTRIES = 100000"

definition fixed_init :: "rate_config \<Rightarrow> time \<Rightarrow> fixed_limiter res" where
  "fixed_init c now = rbind (rate_init c) (\<lambda>c. Inr \<lparr>f_config = c, counters = [], f_last_cleanup = now\<rparr>)"

definition fixed_cleanup_locked :: "time \<Rightarrow> fixed_limiter \<Rightarrow> int \<times> fixed_limiter" where
  "fixed_cleanup_locked now s =
     (let expired = (\<lambda>(k, (n, ws)). window_seconds (f_config s) \<le> now - ws)
      in (int (length (filter expired (counters s))),
          s\<lparr>counters := filter (\<lambda>e. \<not> expired e) (counters s)\<rparr>))"

definition exceeded :: "string \<Rightarrow> rat \<Rightarrow> unit res" where
  "exceeded k retry_after = Inl (RateLimitExceededError k retry_after)"

definition fixed_check :: "time \<Rightarrow> string \<Rightarrow> fixed_limiter \<Rightarrow> unit res \<times> fixed_limiter" where
  "fixed_check now key s0 =
     (let full = key_prefix (f_config s0) @ key;
          s = (if 60 < now - f_last_cleanup s0
               then (snd (fixed_cleanup_locked now s0))\<lparr>f_last_cleanup := now\<rparr> else s0);
          mx = max_requests (f_config s); w = window_seconds (f_config s)
      in if mx \<le> 0 then (exceeded key w, s)
         else if map_of (counters s) full = None \<and> FIXED_MAX_ENTRIES \<le> int (length (counters s))
         then (exceeded key w, s)
         else case map_of (counters s) full of
           Some (count, ws) \<Rightarrow>
             let age = now - ws in
             if age < w
             then (if mx \<le> count then (exceeded key (w - age), s)
                   else (Inr (), s\<lparr>counters := AList.update full (count + 1, ws) (counters s)\<rparr>))
             else (Inr (), s\<lparr>counters := AList.update full (1, now) (counters s)\<rparr>)
         | None \<Rightarrow> (Inr (), s\<lparr>counters := AList.update full (1, now) (counters s)\<rparr>))"

definition fixed_reset :: "string \<Rightarrow> fixed_limiter \<Rightarrow> fixed_limiter" where
  "fixed_reset key s = s\<lparr>counters := AList.delete (key_prefix (f_config s) @ key) (counters s)\<rparr>"

definition fixed_cleanup :: "time \<Rightarrow> fixed_limiter \<Rightarrow> int \<times> fixed_limiter" where
  "fixed_cleanup now s = fixed_cleanup_locked now s"

definition fixed_remaining :: "time \<Rightarrow> string \<Rightarrow> fixed_limiter \<Rightarrow> int" where
  "fixed_remaining now key s =
     (let mx = max_requests (f_config s) in
      case map_of (counters s) (key_prefix (f_config s) @ key) of
        None \<Rightarrow> mx
      | Some (count, ws) \<Rightarrow>
          if window_seconds (f_config s) \<le> now - ws then mx else max 0 (mx - count))"

section \<open>Sliding window, in memory\<close>

record sliding_limiter =
  sl_config :: rate_config
  slog :: "(string \<times> time list) list"
  sl_last_cleanup :: time

definition SLIDING_MAX_ENTRIES :: int where "SLIDING_MAX_ENTRIES = 10000"

definition sliding_init :: "rate_config \<Rightarrow> time \<Rightarrow> sliding_limiter res" where
  "sliding_init c now = rbind (rate_init c) (\<lambda>c. Inr \<lparr>sl_config = c, slog = [], sl_last_cleanup = now\<rparr>)"

definition prune :: "time \<Rightarrow> time list \<Rightarrow> time list" where
  \<comment> \<open>\<open>popleft\<close> while the first entry is not after the cutoff\<close>
  "prune cutoff ts = dropWhile (\<lambda>t. t \<le> cutoff) ts"

definition sliding_cleanup_locked :: "time \<Rightarrow> sliding_limiter \<Rightarrow> int \<times> sliding_limiter" where
  "sliding_cleanup_locked now s =
     (let pruned = map (\<lambda>(k, ts). (k, prune (now - window_seconds (sl_config s)) ts)) (slog s)
      in (int (length (filter (\<lambda>(k, ts). ts = []) pruned)),
          s\<lparr>slog := filter (\<lambda>(k, ts). ts \<noteq> []) pruned\<rparr>))"

definition sliding_check :: "time \<Rightarrow> string \<Rightarrow> sliding_limiter \<Rightarrow> unit res \<times> sliding_limiter" where
  "sliding_check now key s0 =
     (let full = key_prefix (sl_config s0) @ key;
          s = (if 60 < now - sl_last_cleanup s0
               then (snd (sliding_cleanup_locked now s0))\<lparr>sl_last_cleanup := now\<rparr> else s0);
          mx = max_requests (sl_config s); w = window_seconds (sl_config s); cutoff = now - w
      in if mx \<le> 0 then (exceeded key w, s)
         else if map_of (slog s) full = None \<and> SLIDING_MAX_ENTRIES \<le> int (length (slog s))
         then (exceeded key w, s)
         else
           let ts = prune cutoff (case map_of (slog s) full of None \<Rightarrow> [] | Some ts \<Rightarrow> ts);
               s1 = s\<lparr>slog := AList.update full ts (slog s)\<rparr>
           in if mx \<le> int (length ts)
              then (exceeded key (max 0 (case ts of t # _ \<Rightarrow> t + w - now | [] \<Rightarrow> w)), s1)
              else (Inr (), s\<lparr>slog := AList.update full (ts @ [now]) (slog s)\<rparr>))"

definition sliding_reset :: "string \<Rightarrow> sliding_limiter \<Rightarrow> sliding_limiter" where
  "sliding_reset key s = s\<lparr>slog := AList.delete (key_prefix (sl_config s) @ key) (slog s)\<rparr>"

definition sliding_cleanup :: "time \<Rightarrow> sliding_limiter \<Rightarrow> int \<times> sliding_limiter" where
  "sliding_cleanup now s = sliding_cleanup_locked now s"

definition sliding_remaining :: "time \<Rightarrow> string \<Rightarrow> sliding_limiter \<Rightarrow> int" where
  "sliding_remaining now key s =
     (let mx = max_requests (sl_config s); cutoff = now - window_seconds (sl_config s) in
      case map_of (slog s) (key_prefix (sl_config s) @ key) of
        None \<Rightarrow> mx
      | Some ts \<Rightarrow>
          if ts = [] then mx
          else max 0 (mx - int (length (takeWhile (\<lambda>t. cutoff < t) (rev ts)))))"

section \<open>Redis limiters\<close>

text \<open>
  The scripts run atomically on the server. The fixed-window script is the server's
  \<open>INCR\<close>, \<open>EXPIRE\<close> when the count is one, and \<open>TTL\<close>, given here as operations on the
  server's state; the sliding script keeps a sorted set of scores per key, here the list of
  the scores in ascending order. Expiry of keys is the server's.
\<close>

record 'r redis_ops =
  r_incr :: "string \<Rightarrow> 'r \<Rightarrow> int \<times> 'r"
  r_expire :: "string \<Rightarrow> rat \<Rightarrow> 'r \<Rightarrow> unit res \<times> 'r"
  r_ttl :: "string \<Rightarrow> 'r \<Rightarrow> int"
  r_delete :: "string \<Rightarrow> 'r \<Rightarrow> 'r"

definition redis_script :: "'r redis_ops \<Rightarrow> string \<Rightarrow> rat \<Rightarrow> 'r \<Rightarrow> (int \<times> int) res \<times> 'r" where
  \<comment> \<open>an error of \<open>EXPIRE\<close> ends the script; the increment stays\<close>
  "redis_script ops key window r =
     (case r_incr ops key r of (current, r1) \<Rightarrow>
       (case (if current = 1 then r_expire ops key window r1 else (Inr (), r1)) of
          (Inl e, r2) \<Rightarrow> (Inl e, r2)
        | (Inr _, r2) \<Rightarrow> (Inr (current, r_ttl ops key r2), r2)))"

definition redis_check :: "'r redis_ops \<Rightarrow> rate_config \<Rightarrow> string \<Rightarrow> 'r \<Rightarrow> unit res \<times> 'r" where
  "redis_check ops c key r =
     (if max_requests c \<le> 0 then (exceeded key (window_seconds c), r)
      else case redis_script ops (key_prefix c @ key) (window_seconds c) r of
        (Inl e, r') \<Rightarrow> (Inl e, r')
      | (Inr (count, ttl), r') \<Rightarrow>
          (if max_requests c < count
           then exceeded key (if 0 < ttl then max 0 (of_int ttl) else window_seconds c)
           else Inr (), r'))"

definition redis_limiter_init :: "rate_config \<Rightarrow> rate_config res" where
  \<comment> \<open>the four Redis limiters, registering the script left out\<close>
  "redis_limiter_init c = rate_init c"

definition redis_reset :: "'r redis_ops \<Rightarrow> rate_config \<Rightarrow> string \<Rightarrow> 'r \<Rightarrow> 'r" where
  "redis_reset ops c key r = r_delete ops (key_prefix c @ key) r"

definition zset_script :: "time \<Rightarrow> rat \<Rightarrow> int \<Rightarrow> time list \<Rightarrow> rat option \<times> time list" where
  \<comment> \<open>the sliding Lua script on one key: \<open>None\<close> for its answer \<open>-1\<close>, else the retry time\<close>
  "zset_script now window max_req zs =
     (let zs1 = filter (\<lambda>z. now - window < z) zs
      in if max_req \<le> int (length zs1)
         then (Some (case zs1 of z # _ \<Rightarrow> z + window - now | [] \<Rightarrow> window), zs1)
         else (None, insort now zs1))"

definition redis_sliding_check :: "rate_config \<Rightarrow> time \<Rightarrow> string \<Rightarrow> (string \<Rightarrow> time list) \<Rightarrow>
    unit res \<times> (string \<Rightarrow> time list)" where
  "redis_sliding_check c now key r =
     (let full = key_prefix c @ key;
          (answer, zs) = zset_script now (window_seconds c) (max_requests c) (r full)
      in (case answer of None \<Rightarrow> Inr () | Some retry \<Rightarrow> exceeded key (max 0 retry), r(full := zs)))"

definition redis_sliding_reset :: "rate_config \<Rightarrow> string \<Rightarrow> (string \<Rightarrow> time list) \<Rightarrow> (string \<Rightarrow> time list)" where
  \<comment> \<open>a deleted sorted set is an empty one\<close>
  "redis_sliding_reset c key r = r(key_prefix c @ key := [])"

section \<open>Guarded handshakes\<close>

definition guarded_respond :: "(time \<Rightarrow> string \<Rightarrow> 'l \<Rightarrow> unit res \<times> 'l) \<Rightarrow> prims \<Rightarrow> pylib \<Rightarrow> 's marker \<Rightarrow>
    hs_random \<Rightarrow> time \<Rightarrow> time \<Rightarrow> time \<Rightarrow> time \<Rightarrow> time \<Rightarrow> identity \<Rightarrow> dict \<Rightarrow> public_card \<Rightarrow>
    session_config option \<Rightarrow> 'l \<Rightarrow> 's \<Rightarrow> handshake res \<times> 'l \<times> 's" where
  "guarded_respond check P L mk R t0 t1 t2 t3 t4 responder hello icard config l s =
     (case check t0 (c_entity_id icard) l of
        (Inl e, l') \<Rightarrow> (Inl e, l', s)
      | (Inr _, l') \<Rightarrow>
          (case respond P L mk R t1 t2 t3 t4 responder hello icard config s of (r, s') \<Rightarrow> (r, l', s')))"

definition equals_one :: "pyval \<Rightarrow> bool" where
  "equals_one v \<longleftrightarrow> v = PInt 1 \<or> v = PBool True \<or> v = PFloat (Fin 1)"

definition offers_version_one :: "pyval \<Rightarrow> bool" where
  \<comment> \<open>\<open>any(v in ("1", 1) for v in \<dots>)\<close>; \<open>True\<close> and \<open>1.0\<close> equal \<open>1\<close>\<close>
  "offers_version_one v = (case v of
     PList vs \<Rightarrow> (\<exists>x \<in> set vs. x = PStr ''1'' \<or> equals_one x) | _ \<Rightarrow> False)"

definition async_guarded_respond :: "(time \<Rightarrow> string \<Rightarrow> 'l \<Rightarrow> unit res \<times> 'l) \<Rightarrow> prims \<Rightarrow> pylib \<Rightarrow>
    ('s marker \<times> 's seer) option \<Rightarrow> hs_random \<Rightarrow> time \<Rightarrow> time \<Rightarrow> time \<Rightarrow> time \<Rightarrow> time \<Rightarrow> time \<Rightarrow> time \<Rightarrow> time \<Rightarrow> identity \<Rightarrow> dict \<Rightarrow>
    public_card \<Rightarrow> session_config option \<Rightarrow> 'l \<Rightarrow> 's \<Rightarrow> handshake res \<times> 'l \<times> 's" where
  \<comment> \<open>\<open>n1\<close> to \<open>n3\<close> are the clock readings of the three store calls; the dummy store of the
      delegation always answers that a nonce is new\<close>
  "async_guarded_respond check P L store R t0 n1 n2 n3 t1 t2 t3 t4 responder hello icard config l s =
     (case check t0 (c_entity_id icard) l of
        (Inl e, l') \<Rightarrow> (Inl e, l', s)
      | (Inr _, l') \<Rightarrow>
          if \<not> (dget hello ''type'' = PStr ''UXSP-HELLO'' \<and> offers_version_one (dget hello ''supported_versions'')
               \<or> equals_one (dget hello ''v''))
          then (Inl ValueError, l', s)
          else
            let n = (if py_truthy (dget hello ''n'') then dget hello ''n'' else dget hello ''session_id'') in
            case nonempty_str n of
              None \<Rightarrow> (Inl ValueError, l', s)
            | Some nonce \<Rightarrow>
                let delegate = (\<lambda>s'. (fst (respond P L (\<lambda>t n ttl u. (Inr True, u)) R t1 t2 t3 t4 responder
                      hello icard config ()), l', s'))
                in case store of
                     None \<Rightarrow> delegate s
                   | Some (mk, sn) \<Rightarrow>
                       (case mk n1 (hello_tag L hello) 90 s of
                          (Inl e, s1) \<Rightarrow> (Inl e, l', s1)
                        | (Inr False, s1) \<Rightarrow> (Inl HandshakeExpiredError, l', s1)
                        | (Inr True, s1) \<Rightarrow>
                            (case sn n2 nonce s1 of
                               (Inl e, s2) \<Rightarrow> (Inl e, l', s2)
                             | (Inr True, s2) \<Rightarrow> (Inl ValueError, l', s2)
                             | (Inr False, s2) \<Rightarrow>
                                 (case mk n3 nonce 300 s2 of
                                    (Inl e, s3) \<Rightarrow> (Inl e, l', s3)
                                  | (Inr _, s3) \<Rightarrow> delegate s3))))"

section \<open>Lemmas: the sliding limiters keep the contract\<close>

text \<open>
  \<open>tracks w p l h t\<close>: at time \<open>t\<close> the log \<open>l\<close> (by full key) holds, in ascending order, exactly
  the grants of the history \<open>h\<close> inside the last window, and possibly older ones.
\<close>

definition tracks :: "rat \<Rightarrow> string \<Rightarrow> (string \<Rightarrow> time list) \<Rightarrow> (time \<times> string) list \<Rightarrow> time \<Rightarrow> bool" where
  "tracks w p l h t \<longleftrightarrow> (\<forall>e \<in> set h. fst e \<le> t) \<and>
     (\<forall>k. sorted (l (p @ k)) \<and> (\<forall>x \<in> set (l (p @ k)). x \<le> t) \<and>
       filter (\<lambda>x. t - w < x) (l (p @ k)) = map fst (in_window w t k h))"

lemma in_window_later:
  "\<forall>e \<in> set h. fst e \<le> t \<Longrightarrow> t \<le> u \<Longrightarrow>
   map fst (in_window w u k h) = filter (\<lambda>x. u - w < x) (map fst (in_window w t k h))"
  by (auto simp: in_window_def filter_map o_def intro!: arg_cong [where f = "map fst"] filter_cong)

lemma prune_Nil [simp]: "prune c [] = []"
  by (simp add: prune_def)

lemma prune_filter: "sorted ts \<Longrightarrow> prune c ts = filter (\<lambda>x. c < x) ts"
  unfolding prune_def by (induction ts) (auto simp: not_le intro!: filter_True [symmetric])

lemma tracks_later:
  assumes "tracks w p l h t" and "t \<le> u"
  shows "tracks w p l h u"
proof -
  have "filter (\<lambda>x. u - w < x) (l (p @ k)) = map fst (in_window w u k h)" for k
  proof -
    have "filter (\<lambda>x. u - w < x) (l (p @ k)) = filter (\<lambda>x. u - w < x) (filter (\<lambda>x. t - w < x) (l (p @ k)))"
      using assms(2) by (auto simp: intro!: filter_cong)
    also have "\<dots> = map fst (in_window w u k h)"
      using assms in_window_later [of h t u w k] by (simp add: tracks_def)
    finally show ?thesis .
  qed
  with assms show ?thesis unfolding tracks_def by (meson order_trans)
qed

lemma tracks_prune:
  assumes "tracks w p l h t"
    and "\<And>k. l' (p @ k) = l (p @ k) \<or> l' (p @ k) = filter (\<lambda>x. t - w < x) (l (p @ k))"
  shows "tracks w p l' h t"
  unfolding tracks_def
proof (intro conjI allI)
  show "\<forall>e \<in> set h. fst e \<le> t" using assms(1) by (simp add: tracks_def)
  fix k
  have f: "filter (\<lambda>x. t - w < x) (map fst (in_window w t k h)) = map fst (in_window w t k h)"
    by (rule filter_True) (auto simp: in_window_def)
  show "sorted (l' (p @ k))" "\<forall>x \<in> set (l' (p @ k)). x \<le> t"
    "filter (\<lambda>x. t - w < x) (l' (p @ k)) = map fst (in_window w t k h)"
    using assms(1) assms(2) [of k] sorted_wrt_filter [of "(\<le>)" "l (p @ k)" "\<lambda>x. t - w < x"]
    by (auto simp: tracks_def f simp del: sorted_wrt_filter) (auto simp: in_window_def)
qed

lemma tracks_grant:
  assumes "tracks w p l h t" and "0 < w"
    and "\<And>j. l' (p @ j) = (if j = k then filter (\<lambda>x. t - w < x) (l (p @ k)) @ [t] else l (p @ j))"
  shows "tracks w p l' (h @ [(t, k)]) t"
  unfolding tracks_def
proof (intro conjI allI)
  show "\<forall>e \<in> set (h @ [(t, k)]). fst e \<le> t" using assms(1) by (simp add: tracks_def)
  fix j
  show "sorted (l' (p @ j))" "\<forall>x \<in> set (l' (p @ j)). x \<le> t"
    "filter (\<lambda>x. t - w < x) (l' (p @ j)) = map fst (in_window w t j (h @ [(t, k)]))"
    using assms(1,2) assms(3) [of j] sorted_wrt_filter [of "(\<le>)" "l (p @ k)" "\<lambda>x. t - w < x"]
    by (auto simp: tracks_def sorted_append in_window_def)
qed

lemma tracks_length:
  "tracks w p l h t \<Longrightarrow> length (in_window w t k h) = length (filter (\<lambda>x. t - w < x) (l (p @ k)))"
  by (simp add: tracks_def)

definition slog_of :: "sliding_limiter \<Rightarrow> string \<Rightarrow> time list" where
  "slog_of s k = (case map_of (slog s) k of None \<Rightarrow> [] | Some ts \<Rightarrow> ts)"

definition sliding_inv :: "rate_config \<Rightarrow> (time \<times> string) list \<Rightarrow> time \<Rightarrow> sliding_limiter \<Rightarrow> bool" where
  "sliding_inv c h t s \<longleftrightarrow> sl_config s = c \<and> keys_distinct (slog s) \<and>
     tracks (window_seconds c) (key_prefix c) (slog_of s) h t"

definition sliding_tick :: "time \<Rightarrow> sliding_limiter \<Rightarrow> sliding_limiter" where
  \<comment> \<open>the state after the periodic cleanup of a check\<close>
  "sliding_tick now s = (if 60 < now - sl_last_cleanup s
     then (snd (sliding_cleanup_locked now s))\<lparr>sl_last_cleanup := now\<rparr> else s)"

lemma sliding_check_eq:
  "sliding_check now key s0 =
     (let s = sliding_tick now s0; full = key_prefix (sl_config s0) @ key;
          mx = max_requests (sl_config s); w = window_seconds (sl_config s); ts = prune (now - w) (slog_of s full)
      in if mx \<le> 0 then (exceeded key w, s)
         else if map_of (slog s) full = None \<and> SLIDING_MAX_ENTRIES \<le> int (length (slog s))
         then (exceeded key w, s)
         else if mx \<le> int (length ts)
         then (exceeded key (max 0 (case ts of t # _ \<Rightarrow> t + w - now | [] \<Rightarrow> w)),
               s\<lparr>slog := AList.update full ts (slog s)\<rparr>)
         else (Inr (), s\<lparr>slog := AList.update full (ts @ [now]) (slog s)\<rparr>))"
  unfolding sliding_check_def sliding_tick_def slog_of_def Let_def by (rule refl)

lemma map_of_prune:
  "keys_distinct d \<Longrightarrow> map_of (filter (\<lambda>(k, ts). ts \<noteq> []) (map (\<lambda>(k, ts). (k, prune c ts)) d)) k =
     (case map_of d k of None \<Rightarrow> None | Some ts \<Rightarrow> if prune c ts = [] then None else Some (prune c ts))"
  by (induction d) (auto simp: map_of_eq_None_iff image_iff split: option.split)

lemma sliding_cleanup_inv:
  assumes "sliding_inv c h t s"
  shows "sliding_inv c h t (snd (sliding_cleanup_locked t s))"
proof -
  let ?s = "snd (sliding_cleanup_locked t s)"
  have c: "sl_config s = c" "keys_distinct (slog s)" and t: "tracks (window_seconds c) (key_prefix c) (slog_of s) h t"
    using assms by (simp_all add: sliding_inv_def)
  have "slog_of ?s k = prune (t - window_seconds c) (slog_of s k)" for k
    using c by (simp add: slog_of_def sliding_cleanup_locked_def Let_def map_of_prune split: option.split)
  then have f: "slog_of ?s (key_prefix c @ k) =
      filter (\<lambda>x. t - window_seconds c < x) (slog_of s (key_prefix c @ k))" for k
    using t by (simp add: prune_filter tracks_def)
  have "tracks (window_seconds c) (key_prefix c) (slog_of ?s) h t"
    by (rule tracks_prune [OF t]) (rule disjI2, rule f)
  moreover have "keys_distinct (slog ?s)"
    using c(2) by (auto simp: sliding_cleanup_locked_def Let_def o_def case_prod_unfold
        intro: distinct_map_filter)
  ultimately show ?thesis using c by (simp add: sliding_inv_def sliding_cleanup_locked_def Let_def)
qed

lemma sliding_tick_inv:
  assumes "sliding_inv c h t s" and "t \<le> u"
  shows "sliding_inv c h u (sliding_tick u s)"
proof -
  have "sliding_inv c h u s" using assms tracks_later by (auto simp: sliding_inv_def)
  moreover from sliding_cleanup_inv [OF this]
  have "sliding_inv c h u ((snd (sliding_cleanup_locked u s))\<lparr>sl_last_cleanup := u\<rparr>)"
    by (simp add: sliding_inv_def slog_of_def [abs_def])
  ultimately show ?thesis by (simp add: sliding_tick_def)
qed

lemma slog_of_update:
  "slog_of (s\<lparr>slog := AList.update f ts (slog s)\<rparr>) k = (if k = f then ts else slog_of s k)"
  by (simp add: slog_of_def)

lemma sliding_granted:
  assumes "0 < window_seconds c" and "sliding_inv c h t s" and "t \<le> u" and "sliding_check u k s = (Inr x, s')"
  shows "sliding_inv c (h @ [(u, k)]) u s' \<and>
    length (in_window (window_seconds c) u k h) < nat (max_requests c)"
proof -
  let ?s = "sliding_tick u s" and ?w = "window_seconds c"
  let ?ts = "prune (u - ?w) (slog_of ?s (key_prefix c @ k))"
  have i: "sliding_inv c h u ?s" by (rule sliding_tick_inv [OF assms(2,3)])
  then have c: "sl_config ?s = c" "sl_config s = c" and d: "keys_distinct (slog ?s)"
    and t: "tracks ?w (key_prefix c) (slog_of ?s) h u"
    using assms(2) by (simp_all add: sliding_inv_def)
  have f: "?ts = filter (\<lambda>x. u - ?w < x) (slog_of ?s (key_prefix c @ k))"
    using t by (simp add: prune_filter tracks_def)
  have a: "int (length ?ts) < max_requests c"
    "s' = ?s\<lparr>slog := AList.update (key_prefix c @ k) (?ts @ [u]) (slog ?s)\<rparr>"
    using assms(4) by (auto simp: sliding_check_eq Let_def c exceeded_def split: if_splits)
  have "tracks ?w (key_prefix c) (slog_of s') (h @ [(u, k)]) u"
    by (rule tracks_grant [OF t assms(1)]) (simp add: a(2) slog_of_update f)
  then show ?thesis
    using a c d tracks_length [OF t, of k] f by (simp add: sliding_inv_def)
qed

lemma sliding_refused:
  assumes "sliding_inv c h t s" and "t \<le> u" and "sliding_check u k s = (Inl e, s')"
  shows "sliding_inv c h u s'"
proof -
  let ?s = "sliding_tick u s" and ?w = "window_seconds c"
  let ?ts = "prune (u - ?w) (slog_of ?s (key_prefix c @ k))"
  have i: "sliding_inv c h u ?s" by (rule sliding_tick_inv [OF assms(1,2)])
  then have c: "sl_config ?s = c" "sl_config s = c" and d: "keys_distinct (slog ?s)"
    and t: "tracks ?w (key_prefix c) (slog_of ?s) h u"
    using assms(1) by (simp_all add: sliding_inv_def)
  have f: "?ts = filter (\<lambda>x. u - ?w < x) (slog_of ?s (key_prefix c @ k))"
    using t by (simp add: prune_filter tracks_def)
  have "s' = ?s \<or> s' = ?s\<lparr>slog := AList.update (key_prefix c @ k) ?ts (slog ?s)\<rparr>"
    using assms(3) by (auto simp: sliding_check_eq Let_def c exceeded_def split: if_splits)
  then show ?thesis
  proof
    assume s': "s' = ?s\<lparr>slog := AList.update (key_prefix c @ k) ?ts (slog ?s)\<rparr>"
    have "tracks ?w (key_prefix c) (slog_of s') h u"
      by (rule tracks_prune [OF t]) (simp add: s' slog_of_update f)
    with c d s' show ?thesis by (simp add: sliding_inv_def)
  qed (use i in simp)
qed
section \<open>Lemmas: the fixed-window limiter keeps the contract with twice the maximum less one\<close>

text \<open>
  The grants of a key split into those counted in its current window, which start it, and older
  ones. Fewer than the maximum of the older ones are less than a window older than its start:
  the first grant of their window is not.
\<close>

definition times_of :: "string \<Rightarrow> (time \<times> string) list \<Rightarrow> time list" where
  "times_of k h = map fst (filter (\<lambda>e. snd e = k) h)"

definition recent :: "time \<Rightarrow> time list \<Rightarrow> int" where
  "recent cutoff ts = int (length (filter (\<lambda>x. cutoff < x) ts))"

definition window_ok :: "rate_config \<Rightarrow> time list \<Rightarrow> time \<Rightarrow> (int \<times> time) option \<Rightarrow> bool" where
  "window_ok c ts t entry = (case entry of
     None \<Rightarrow> recent (t - window_seconds c) ts < max 1 (max_requests c)
   | Some (n, ws) \<Rightarrow> ws \<le> t \<and> n \<le> max_requests c \<and>
       (\<exists>old cur. ts = old @ ws # cur \<and> int (length cur) + 1 = n \<and> (\<forall>x \<in> set old. x \<le> ws) \<and>
          recent (ws - window_seconds c) old < max_requests c))"

definition fixed_inv :: "rate_config \<Rightarrow> (time \<times> string) list \<Rightarrow> time \<Rightarrow> fixed_limiter \<Rightarrow> bool" where
  "fixed_inv c h t s \<longleftrightarrow> f_config s = c \<and> keys_distinct (counters s) \<and> (\<forall>e \<in> set h. fst e \<le> t) \<and>
     (\<forall>k. window_ok c (times_of k h) t (map_of (counters s) (key_prefix c @ k)))"

lemma recent_append: "recent a (xs @ ys) = recent a xs + recent a ys"
  by (simp add: recent_def)

lemma recent_le: "recent a xs \<le> int (length xs)"
  by (simp add: recent_def)

lemma recent_mono: "a \<le> b \<Longrightarrow> recent b xs \<le> recent a xs"
  unfolding recent_def by (induction xs) auto

lemma recent_none: "\<forall>x \<in> set xs. x \<le> a \<Longrightarrow> recent a xs = 0"
  by (auto simp: recent_def filter_empty_conv not_less)

lemma times_of_snoc: "times_of k (h @ [(u, j)]) = (if j = k then times_of k h @ [u] else times_of k h)"
  by (simp add: times_of_def)

lemma in_window_recent:
  "\<forall>e \<in> set h. fst e \<le> u \<Longrightarrow> int (length (in_window w u k h)) = recent (u - w) (times_of k h)"
  by (induction h) (auto simp: in_window_def recent_def times_of_def)

lemma window_okI:
  "ws \<le> t \<Longrightarrow> n \<le> max_requests c \<Longrightarrow> int (length cur) + 1 = n \<Longrightarrow> \<forall>x \<in> set old. x \<le> ws \<Longrightarrow>
   recent (ws - window_seconds c) old < max_requests c \<Longrightarrow>
   window_ok c (old @ ws # cur) t (Some (n, ws))"
  unfolding window_ok_def by auto

lemma window_okE:
  assumes "window_ok c ts t (Some (n, ws))"
  obtains old cur where "ts = old @ ws # cur" "int (length cur) + 1 = n" "\<forall>x \<in> set old. x \<le> ws"
    "ws \<le> t" "n \<le> max_requests c" "recent (ws - window_seconds c) old < max_requests c"
  using assms by (auto simp: window_ok_def)

lemma window_ok_later: "window_ok c ts t e \<Longrightarrow> t \<le> u \<Longrightarrow> window_ok c ts u e"
  using recent_mono [of "t - window_seconds c" "u - window_seconds c" ts]
  by (auto simp: window_ok_def split: option.splits)

lemma window_ok_expired:
  assumes "window_ok c ts t (Some (n, ws))" and "window_seconds c \<le> t - ws"
  shows "window_ok c ts t None"
  using assms(1)
proof (rule window_okE)
  fix old cur
  assume o: "ts = old @ ws # cur" "int (length cur) + 1 = n" "\<forall>x \<in> set old. x \<le> ws" "n \<le> max_requests c"
  have "recent (t - window_seconds c) (old @ [ws]) = 0"
    by (rule recent_none) (use o(3) assms(2) in force)
  then show ?thesis
    using o recent_le [of "t - window_seconds c" cur] recent_append [of _ "old @ [ws]" cur]
    by (simp add: window_ok_def)
qed

lemma window_ok_start:
  assumes "window_ok c ts t None" and "\<forall>x \<in> set ts. x \<le> t" and "0 < max_requests c"
  shows "window_ok c (ts @ [t]) t (Some (1, t))"
  by (rule window_okI) (use assms in \<open>auto simp: window_ok_def\<close>)

lemma window_ok_count:
  assumes "window_ok c ts t (Some (n, ws))" and "n < max_requests c"
  shows "window_ok c (ts @ [t]) t (Some (n + 1, ws))"
  using assms(1)
  by (rule window_okE) (use assms(2) window_okI [of ws t "n + 1" c] in fastforce)

lemma window_ok_bound:
  assumes "window_ok c ts t (Some (n, ws))" and "n < max_requests c"
  shows "recent (t - window_seconds c) ts < 2 * max_requests c - 1"
  using assms(1)
proof (rule window_okE)
  fix old cur
  assume o: "ts = old @ ws # cur" "int (length cur) + 1 = n" "ws \<le> t"
    "recent (ws - window_seconds c) old < max_requests c"
  have "recent (t - window_seconds c) old \<le> recent (ws - window_seconds c) old"
    by (rule recent_mono) (use o(3) in simp)
  with o assms(2) recent_le [of "t - window_seconds c" "ws # cur"] show ?thesis by (simp add: recent_append)
qed

definition fixed_tick :: "time \<Rightarrow> fixed_limiter \<Rightarrow> fixed_limiter" where
  \<comment> \<open>the state after the periodic cleanup of a check\<close>
  "fixed_tick now s = (if 60 < now - f_last_cleanup s
     then (snd (fixed_cleanup_locked now s))\<lparr>f_last_cleanup := now\<rparr> else s)"

lemma fixed_cleanup_inv:
  assumes "fixed_inv c h t s"
  shows "fixed_inv c h t (snd (fixed_cleanup_locked t s))"
proof -
  let ?P = "\<lambda>(k, (n, ws)). window_seconds (f_config s) \<le> t - ws"
  have d: "keys_distinct (counters s)" "f_config s = c"
    and w: "\<And>k. window_ok c (times_of k h) t (map_of (counters s) (key_prefix c @ k))"
    using assms by (simp_all add: fixed_inv_def)
  have "window_ok c (times_of k h) t (map_of (filter (\<lambda>e. \<not> ?P e) (counters s)) (key_prefix c @ k))" for k
  proof (cases "map_of (filter (\<lambda>e. \<not> ?P e) (counters s)) (key_prefix c @ k)")
    case None
    show ?thesis
    proof (cases "map_of (counters s) (key_prefix c @ k)")
      case (Some e)
      obtain n ws where e: "e = (n, ws)" by (cases e)
      have "window_seconds c \<le> t - ws"
      proof (rule ccontr)
        assume "\<not> window_seconds c \<le> t - ws"
        then have "map_of (filter (\<lambda>e. \<not> ?P e) (counters s)) (key_prefix c @ k) = Some e"
          using Some d e by (simp add: map_of_filter_Some)
        with None show False by simp
      qed
      with w [of k] Some e None show ?thesis by (simp add: window_ok_expired)
    qed (use w [of k] None in simp)
  next
    case (Some e)
    then have "map_of (counters s) (key_prefix c @ k) = Some e" using d by (simp add: map_of_filter_Some)
    with w [of k] Some show ?thesis by simp
  qed
  with assms show ?thesis by (simp add: fixed_inv_def fixed_cleanup_locked_def Let_def)
qed

lemma fixed_tick_inv:
  assumes "fixed_inv c h t s" and "t \<le> u"
  shows "fixed_inv c h u (fixed_tick u s)"
proof -
  have i: "fixed_inv c h u s"
    using assms window_ok_later unfolding fixed_inv_def by (meson order_trans)
  from fixed_cleanup_inv [OF this] have "fixed_inv c h u ((snd (fixed_cleanup_locked u s))\<lparr>f_last_cleanup := u\<rparr>)"
    by (simp add: fixed_inv_def)
  with i show ?thesis by (simp add: fixed_tick_def)
qed

text \<open>A passing check either starts a window, when none is open, or counts in the open one.\<close>

lemma fixed_check_cases:
  assumes "fixed_check u k s = (r, s')"
  obtains "is_ok r = False" "s' = fixed_tick u s"
  | n ws where "is_ok r" "0 < max_requests (f_config s)"
      "map_of (counters (fixed_tick u s)) (key_prefix (f_config s) @ k) = Some (n, ws)"
      "u - ws < window_seconds (f_config s)" "n < max_requests (f_config s)"
      "s' = (fixed_tick u s)\<lparr>counters := AList.update (key_prefix (f_config s) @ k) (n + 1, ws)
         (counters (fixed_tick u s))\<rparr>"
  | "is_ok r" "0 < max_requests (f_config s)"
      "\<And>n ws. map_of (counters (fixed_tick u s)) (key_prefix (f_config s) @ k) = Some (n, ws) \<Longrightarrow>
         window_seconds (f_config s) \<le> u - ws"
      "s' = (fixed_tick u s)\<lparr>counters := AList.update (key_prefix (f_config s) @ k) (1, u)
         (counters (fixed_tick u s))\<rparr>"
proof -
  let ?s = "fixed_tick u s"
  have c: "f_config ?s = f_config s" by (simp add: fixed_tick_def fixed_cleanup_locked_def Let_def)
  have "fixed_check u k s =
     (let s = ?s; full = key_prefix (f_config s) @ k; mx = max_requests (f_config s); w = window_seconds (f_config s)
      in if mx \<le> 0 then (exceeded k w, s)
         else if map_of (counters s) full = None \<and> FIXED_MAX_ENTRIES \<le> int (length (counters s))
         then (exceeded k w, s)
         else case map_of (counters s) full of
           Some (count, ws) \<Rightarrow>
             if u - ws < w
             then (if mx \<le> count then (exceeded k (w - (u - ws)), s)
                   else (Inr (), s\<lparr>counters := AList.update full (count + 1, ws) (counters s)\<rparr>))
             else (Inr (), s\<lparr>counters := AList.update full (1, u) (counters s)\<rparr>)
         | None \<Rightarrow> (Inr (), s\<lparr>counters := AList.update full (1, u) (counters s)\<rparr>))"
    unfolding fixed_check_def fixed_tick_def [symmetric] Let_def c by (rule refl)
  with assms that show ?thesis
    unfolding Let_def c exceeded_def
    by (cases "map_of (counters ?s) (key_prefix (f_config s) @ k)") (auto split: if_splits prod.splits)
qed

lemma fixed_granted:
  assumes "fixed_inv c h t s" and "t \<le> u" and "fixed_check u k s = (Inr x, s')"
  shows "fixed_inv c (h @ [(u, k)]) u s' \<and>
    length (in_window (window_seconds c) u k h) < nat (2 * max_requests c - 1)"
proof -
  let ?s = "fixed_tick u s" and ?f = "key_prefix c @ k"
  have i: "fixed_inv c h u ?s" by (rule fixed_tick_inv [OF assms(1,2)])
  then have c: "f_config s = c" and h: "\<forall>e \<in> set h. fst e \<le> u"
    and w: "\<And>j. window_ok c (times_of j h) u (map_of (counters ?s) (key_prefix c @ j))"
    using assms(1) by (simp_all add: fixed_inv_def)
  have new: "fixed_inv c (h @ [(u, k)]) u (?s\<lparr>counters := AList.update ?f e (counters ?s)\<rparr>)"
    if "window_ok c (times_of k h @ [u]) u (Some e)" for e
    using i that by (auto simp: fixed_inv_def times_of_snoc)
  from assms(3) show ?thesis
  proof (cases rule: fixed_check_cases)
    case 1
    then show ?thesis by simp
  next
    case (2 n ws)
    then have o: "window_ok c (times_of k h) u (Some (n, ws))" "n < max_requests c"
      using w [of k] c by simp_all
    show ?thesis
      using new [OF window_ok_count [OF o]] window_ok_bound [OF o] in_window_recent [OF h] 2 c by (simp add: zless_nat_eq_int_zless)
  next
    case 3
    have o: "window_ok c (times_of k h) u None"
      using w [of k] 3(3) c window_ok_expired
      by (cases "map_of (counters ?s) ?f") auto
    then have "recent (u - window_seconds c) (times_of k h) < 2 * max_requests c - 1"
      using 3(2) c by (simp add: window_ok_def)
    moreover have "\<forall>x \<in> set (times_of k h). x \<le> u" using h by (auto simp: times_of_def)
    ultimately show ?thesis
      using new [OF window_ok_start [OF o]] in_window_recent [OF h] 3 c by (simp add: zless_nat_eq_int_zless)
  qed
qed

lemma fixed_refused:
  assumes "fixed_inv c h t s" and "t \<le> u" and "fixed_check u k s = (Inl e, s')"
  shows "fixed_inv c h u s'"
  using assms(3) by (cases rule: fixed_check_cases) (simp_all add: fixed_tick_inv [OF assms(1,2)])
section \<open>The limiters implement the contract\<close>

interpretation fixed: limiter fixed_check "fixed_inv c" "window_seconds c" "nat (2 * max_requests c - 1)" for c
  by unfold_locales (use fixed_granted fixed_refused in blast)+

interpretation sliding: limiter sliding_check "\<lambda>h t s. 0 < window_seconds c \<and> sliding_inv c h t s"
    "window_seconds c" "nat (max_requests c)" for c
  by unfold_locales (use sliding_granted sliding_refused in blast)+

lemma insort_last: "sorted xs \<Longrightarrow> \<forall>x \<in> set xs. x \<le> u \<Longrightarrow> insort u xs = xs @ [u]" for xs :: "time list"
  by (induction xs) (auto simp: insort_is_Cons)

lemma zset_granted:
  assumes "0 < window_seconds c" and "tracks (window_seconds c) (key_prefix c) r h t" and "t \<le> u"
    and "redis_sliding_check c u k r = (Inr x, r')"
  shows "tracks (window_seconds c) (key_prefix c) r' (h @ [(u, k)]) u \<and>
    length (in_window (window_seconds c) u k h) < nat (max_requests c)"
proof -
  let ?w = "window_seconds c" and ?zs = "filter (\<lambda>z. u - window_seconds c < z) (r (key_prefix c @ k))"
  have t: "tracks ?w (key_prefix c) r h u" by (rule tracks_later [OF assms(2,3)])
  have a: "int (length ?zs) < max_requests c" "r' = r(key_prefix c @ k := insort u ?zs)"
    using assms(4) by (auto simp: redis_sliding_check_def zset_script_def Let_def exceeded_def split: if_splits)
  have "sorted (r (key_prefix c @ k))" "\<forall>x \<in> set (r (key_prefix c @ k)). x \<le> u"
    using t unfolding tracks_def by blast+
  then have "sorted ?zs" "\<forall>x \<in> set ?zs. x \<le> u" by (auto simp: sorted_wrt_filter)
  then have i: "insort u ?zs = ?zs @ [u]" by (rule insort_last)
  have "tracks ?w (key_prefix c) r' (h @ [(u, k)]) u"
    by (rule tracks_grant [OF t assms(1)]) (simp add: a(2) i)
  with a(1) tracks_length [OF t, of k] show ?thesis by simp
qed

lemma zset_refused:
  assumes "tracks (window_seconds c) (key_prefix c) r h t" and "t \<le> u"
    and "redis_sliding_check c u k r = (Inl e, r')"
  shows "tracks (window_seconds c) (key_prefix c) r' h u"
proof -
  have t: "tracks (window_seconds c) (key_prefix c) r h u" by (rule tracks_later [OF assms(1,2)])
  have "r' = r(key_prefix c @ k := filter (\<lambda>z. u - window_seconds c < z) (r (key_prefix c @ k)))"
    using assms(3) by (auto simp: redis_sliding_check_def zset_script_def Let_def exceeded_def split: if_splits)
  then show ?thesis by (intro tracks_prune [OF t]) simp
qed

interpretation zset: limiter "redis_sliding_check c"
    "\<lambda>h t r. 0 < window_seconds c \<and> tracks (window_seconds c) (key_prefix c) r h t"
    "window_seconds c" "nat (max_requests c)" for c
  by unfold_locales (use zset_granted zset_refused in blast)+

lemma fixed_init_inv: "fixed_init c t = Inr s \<Longrightarrow> fixed_inv c [] t s"
  by (auto simp: fixed_init_def rate_init_def res_Inr_iffs fixed_inv_def window_ok_def times_of_def recent_def)

lemma sliding_init_inv: "sliding_init c t = Inr s \<Longrightarrow> 0 < window_seconds c \<and> sliding_inv c [] t s"
  by (auto simp: sliding_init_def rate_init_def res_Inr_iffs sliding_inv_def tracks_def slog_of_def in_window_def)
section \<open>Lemmas: the guarded handshake on a store of its own\<close>

text \<open>Whatever follows the first \<open>mark_used\<close> is at most a look-up and a second one.\<close>

lemma async_store_run:
  assumes "check t0 (c_entity_id icard) l = (Inr (), l')"
    and "dget hello ''type'' = PStr ''UXSP-HELLO''" and "offers_version_one (dget hello ''supported_versions'')"
    and "nonempty_str (if py_truthy (dget hello ''n'') then dget hello ''n'' else dget hello ''session_id'') = Some nonce"
    and "mk n1 (hello_tag L hello) 90 s = (Inr True, s1)"
  shows "\<exists>xs \<in> {[], [IsSeen n2 nonce], [IsSeen n2 nonce, MarkUsed n3 nonce 300]}.
    snd (snd (async_guarded_respond check P L (Some (mk, sn)) R t0 n1 n2 n3 t1 t2 t3 t4 r hello icard config l s)) =
    run_ops mk sn cl xs s1"
proof -
  obtain a s2 where a: "sn n2 nonce s1 = (a, s2)" by fastforce
  obtain b s3 where b: "mk n3 nonce 300 s2 = (b, s3)" by fastforce
  have "snd (snd (async_guarded_respond check P L (Some (mk, sn)) R t0 n1 n2 n3 t1 t2 t3 t4 r hello icard config l s)) =
      (if a = Inr False then s3 else s2)"
    using assms a b
    by (simp add: async_guarded_respond_def Let_def split: sum.split bool.split)
  then show ?thesis
    using a b by (cases "a = Inr False") (simp_all add: run_ops_def)
qed

lemma async_refuses:
  assumes "fst (mk n1 (hello_tag L hello) 90 s) \<noteq> Inr True"
  shows "\<not> is_ok (fst (async_guarded_respond check P L (Some (mk, sn)) R t0 n1 n2 n3 t1 t2 t3 t4 r hello icard config l s))"
proof -
  let ?n = "nonempty_str (if py_truthy (dget hello ''n'') then dget hello ''n'' else dget hello ''session_id'')"
  obtain a s1 where a: "mk n1 (hello_tag L hello) 90 s = (a, s1)" "a = Inr False \<or> (\<exists>e. a = Inl e)"
    using assms by (cases "mk n1 (hello_tag L hello) 90 s"; cases "fst (mk n1 (hello_tag L hello) 90 s)") auto
  obtain c l' where c: "check t0 (c_entity_id icard) l = (c, l')" by fastforce
  show ?thesis
    using a(2) by (cases c; cases ?n) (auto simp: async_guarded_respond_def Let_def a(1) c)
qed

section \<open>Properties\<close>

text \<open>C34: The sliding limiter never grants a key more than \<open>max_requests\<close> requests inside any
  window of \<open>window_seconds\<close>, over any run of checks of any keys with a clock that does not go
  back, the periodic cleanups included.\<close>

theorem sliding_rate_bound:
  assumes "sliding_init c t0 = Inr s" and "sorted (t0 # map fst cs)"
  shows "length (in_window (window_seconds c) v k (grants sliding_check cs s)) \<le> nat (max_requests c)"
  using sliding_init_inv [OF assms(1)] assms(2) by (intro sliding.window_bound [of c t0]) simp_all

theorem sliding_rate_bound_witness:
  "length (in_window 60 65 ''a'' (grants sliding_check [(1, ''a''), (2, ''a''), (3, ''a''), (62, ''a'')]
     \<lparr>sl_config = \<lparr>max_requests = 2, window_seconds = 60, key_prefix = []\<rparr>, slog = [], sl_last_cleanup = 0\<rparr>)) \<le> 2"
  using sliding_rate_bound [of "\<lparr>max_requests = 2, window_seconds = 60, key_prefix = []\<rparr>" 0
      "\<lparr>sl_config = \<lparr>max_requests = 2, window_seconds = 60, key_prefix = []\<rparr>, slog = [], sl_last_cleanup = 0\<rparr>"
      "[(1, ''a''), (2, ''a''), (3, ''a''), (62, ''a'')]" 65 "''a''"]
  by (simp add: sliding_init_def rate_init_def)

text \<open>C32: The fixed-window limiter can grant a burst across the boundary of two windows, but never
  more than twice \<open>max_requests\<close> less one to one key inside any span of \<open>window_seconds\<close>, whatever calls
  come for whatever keys, on a clock that does not run backwards. The witness
  reaches the bound: three grants within 60 seconds with a maximum of two.\<close>

theorem fixed_rate_bound:
  assumes "fixed_init c t0 = Inr s" and "sorted (t0 # map fst cs)"
  shows "length (in_window (window_seconds c) v k (grants fixed_check cs s)) \<le> nat (2 * max_requests c - 1)"
  using fixed.window_bound [OF fixed_init_inv [OF assms(1)] assms(2)] .

theorem fixed_rate_bound_witness:
  "length (in_window 60 61 ''a'' (grants fixed_check [(0, ''a''), (59, ''a''), (60, ''a''), (61, ''a'')]
     \<lparr>f_config = \<lparr>max_requests = 2, window_seconds = 60, key_prefix = []\<rparr>, counters = [], f_last_cleanup = 0\<rparr>)) \<le> 3 \<and>
   length (in_window 60 61 ''a'' (grants fixed_check [(0, ''a''), (59, ''a''), (60, ''a''), (61, ''a'')]
     \<lparr>f_config = \<lparr>max_requests = 2, window_seconds = 60, key_prefix = []\<rparr>, counters = [], f_last_cleanup = 0\<rparr>)) = 3"
  using fixed_rate_bound [of "\<lparr>max_requests = 2, window_seconds = 60, key_prefix = []\<rparr>" 0
      "\<lparr>f_config = \<lparr>max_requests = 2, window_seconds = 60, key_prefix = []\<rparr>, counters = [], f_last_cleanup = 0\<rparr>"
      "[(0, ''a''), (59, ''a''), (60, ''a''), (61, ''a'')]" 61 "''a''"]
  by (simp add: fixed_init_def rate_init_def fixed_check_def fixed_cleanup_locked_def FIXED_MAX_ENTRIES_def
      in_window_def Let_def)

text \<open>The Lua script of the Redis sliding limiter keeps the same bound as the sliding limiter in
  memory, starting from keys without entries.\<close>

theorem redis_sliding_rate_bound:
  assumes "0 < window_seconds c" and "sorted (t0 # map fst cs)"
  shows "length (in_window (window_seconds c) v k (grants (redis_sliding_check c) cs (\<lambda>k. []))) \<le> nat (max_requests c)"
  using assms by (intro zset.window_bound [OF _ assms(2)]) (simp_all add: tracks_def in_window_def)

theorem redis_sliding_rate_bound_witness:
  "length (in_window 60 65 ''a'' (grants (redis_sliding_check \<lparr>max_requests = 2, window_seconds = 60, key_prefix = []\<rparr>)
     [(1, ''a''), (2, ''a''), (3, ''a''), (62, ''a'')] (\<lambda>k. []))) \<le> 2"
  using redis_sliding_rate_bound [of "\<lparr>max_requests = 2, window_seconds = 60, key_prefix = []\<rparr>" 0
      "[(1, ''a''), (2, ''a''), (3, ''a''), (62, ''a'')]" 65 "''a''"] by simp

text \<open>\<open>AsyncGuardedHandshake.respond\<close> marks the HELLO's session id before any signature is
  verified: anybody who knows the session id of a HELLO on its way can send a forged one with the
  same id and no signature, after which the genuine HELLO is refused for 90 seconds, whatever the
  genuine message contains. (\<open>Handshake.respond\<close> verifies first and leaves the store alone for a
  forged message.)\<close>

theorem async_burns_nonce:
  assumes "mem_inv s" and "check t0 (c_entity_id icard) l = (Inr (), l')"
    and "dget forged ''type'' = PStr ''UXSP-HELLO''" and "offers_version_one (dget forged ''supported_versions'')"
    and "dget forged ''n'' = PNone" and "dget forged ''session_id'' = PStr sid" and "sid \<noteq> []"
    and "fst (mem_mark_used n1 (''hello:'' @ sid) 90 s) = Inr True"
    and "dget hello ''session_id'' = PStr sid"
    and "n2 < n1 + 90" and "n3 < n1 + 90" and "m1 < n1 + 90"
  shows "\<not> is_ok (fst (async_guarded_respond check' P' L (Some (mem_mark_used, mem_is_seen)) R' u0 m1 m2 m3 u1 u2 u3 u4
      r hello icard' config' l2
      (snd (snd (async_guarded_respond check P L (Some (mem_mark_used, mem_is_seen)) R t0 n1 n2 n3 t1 t2 t3 t4
         r forged icard config l s)))))"
proof (rule async_refuses)
  have tags: "hello_tag L forged = ''hello:'' @ sid" "hello_tag L hello = ''hello:'' @ sid"
    using assms(6,9) by (simp_all add: hello_tag_def)
  obtain s1 where s1: "mem_mark_used n1 (hello_tag L forged) 90 s = (Inr True, s1)"
    using assms(8) tags by (metis prod.collapse)
  have n: "nonempty_str (if py_truthy (dget forged ''n'') then dget forged ''n'' else dget forged ''session_id'') = Some sid"
    using assms(5-7) by (simp add: py_truthy_def)
  obtain xs where xs: "xs \<in> {[], [IsSeen n2 sid], [IsSeen n2 sid, MarkUsed n3 sid 300]}"
    and s: "snd (snd (async_guarded_respond check P L (Some (mem_mark_used, mem_is_seen)) R t0 n1 n2 n3 t1 t2 t3 t4
         r forged icard config l s)) = run_ops mem_mark_used mem_is_seen mem_cleanup xs s1"
    by (rule bexE [OF async_store_run [where mk = mem_mark_used and ?n1.0 = n1 and check = check, OF assms(2-4) n s1]])
  have "fst (mem_mark_used m1 (''hello:'' @ sid) 90 (run_ops mem_mark_used mem_is_seen mem_cleanup xs
      (snd (mem_mark_used n1 (''hello:'' @ sid) 90 s)))) \<noteq> Inr True"
    by (rule mem.once_per_ttl) (use assms(1,8,10-12) xs in auto)
  then show "fst (mem_mark_used m1 (hello_tag L hello) 90 (snd (snd (async_guarded_respond check P L
      (Some (mem_mark_used, mem_is_seen)) R t0 n1 n2 n3 t1 t2 t3 t4 r forged icard config l s)))) \<noteq> Inr True"
    unfolding s using s1 tags by simp
qed

definition demo_forgery :: dict where
  \<comment> \<open>a HELLO with the session id of the demonstration handshake and no signature\<close>
  "demo_forgery = [(''type'', PStr ''UXSP-HELLO''), (''supported_versions'', PList [PStr ''1'']),
     (''session_id'', PStr demo_uuid)]"

theorem async_burns_nonce_witness:
  "\<exists>hello. is_ok (fst (respond demo_prims demo_lib mem_mark_used (demo_hs_random 4) 101 101 101 101
       demo_responder hello demo_card None mem_init)) \<and>
     \<not> is_ok (fst (async_guarded_respond (\<lambda>t k l. (Inr (), l)) demo_prims demo_lib (Some (mem_mark_used, mem_is_seen))
       (demo_hs_random 4) 101 101 101 101 101 101 101 101 demo_responder hello demo_card None ()
       (snd (snd (async_guarded_respond (\<lambda>t k l. (Inr (), l)) demo_prims demo_lib (Some (mem_mark_used, mem_is_seen))
         (demo_hs_random 9) 100 100 100 100 100 100 100 100 demo_responder demo_forgery demo_card None () mem_init)))))"
proof -
  obtain hello hr s1 where h: "respond demo_prims demo_lib mem_mark_used (demo_hs_random 4) 101 101 101 101
     demo_responder hello demo_card None mem_init = (Inr hr, s1)" "dget hello ''session_id'' = PStr demo_uuid"
    using demo_respond by blast
  have f: "dget demo_forgery ''type'' = PStr ''UXSP-HELLO''"
    "offers_version_one (dget demo_forgery ''supported_versions'')" "dget demo_forgery ''n'' = PNone"
    "dget demo_forgery ''session_id'' = PStr demo_uuid" "demo_uuid \<noteq> []"
    by (simp_all add: demo_forgery_def dget_def offers_version_one_def demo_uuid_def)
  have m: "fst (mem_mark_used 100 (''hello:'' @ demo_uuid) 90 mem_init) = Inr True"
    by (simp add: mem_mark_used_def mem_init_def MAX_NONCE_STORE_SIZE_def)
  have "\<not> is_ok (fst (async_guarded_respond (\<lambda>t k l. (Inr (), l)) demo_prims demo_lib (Some (mem_mark_used, mem_is_seen))
       (demo_hs_random 4) 101 101 101 101 101 101 101 101 demo_responder hello demo_card None ()
       (snd (snd (async_guarded_respond (\<lambda>t k l. (Inr (), l)) demo_prims demo_lib (Some (mem_mark_used, mem_is_seen))
         (demo_hs_random 9) 100 100 100 100 100 100 100 100 demo_responder demo_forgery demo_card None () mem_init)))))"
    by (rule async_burns_nonce [where l = "()" and l' = "()", OF mem_inv_init _ f m h(2)]) simp_all
  moreover have "is_ok (fst (respond demo_prims demo_lib mem_mark_used (demo_hs_random 4) 101 101 101 101
       demo_responder hello demo_card None mem_init))" by (simp add: h(1))
  ultimately show ?thesis by (intro exI [of _ hello] conjI)
qed

end
