(* ===== verification/FileStore.thy ===== *)
theory FileStore
  imports KeyStore
begin

text \<open>
  \<open>FileKeyStore\<close> of \<open>uxsp/storage/keystore.py\<close>: the cards as one JSON file, with a cache in
  every process that is keyed on the modification time and size of the file. One call runs
  under the thread lock and the lock file, so it is one step on the process's object
  (\<open>file_proc\<close>) and the file (\<open>disk\<close>). The lemmas show that any number of processes on one
  file agree with a single map, and what a failing write leaves behind.
\<close>

section \<open>One process and the file\<close>

record file_proc =
  f_mtime :: int
  f_size :: int
  f_version :: pyval
  f_hash :: "string option"
  f_cache :: "cards option"

definition fp_init :: file_proc where
  "fp_init = \<lparr>f_mtime = 0, f_size = 0, f_version = PInt 0, f_hash = None, f_cache = None\<rparr>"

type_synonym disk = "(bytes \<times> int) option"  \<comment> \<open>contents and modification time\<close>

definition split_file :: "pyval \<Rightarrow> (pyval \<times> pyval) res" where
  \<comment> \<open>\<open>raw_cards\<close> and \<open>file_version\<close>; what is no object fails in \<open>in\<close>, in the subscript or in \<open>items\<close>\<close>
  "split_file raw =
     (case raw of
        PDict d \<Rightarrow>
          if has_key d ''_cards'' then Inr (dget d ''_cards'', dget_default d ''_version'' (PInt 0))
          else Inr (PDict (filter (\<lambda>(k, v). \<not> starts_with ''_'' k) d), PInt 0)
      | PList xs \<Rightarrow> Inl (if PStr ''_cards'' \<in> set xs then TypeError else AttributeError)
      | PStr s \<Rightarrow> Inl (if contains_text ''_cards'' s then TypeError else AttributeError)
      | _ \<Rightarrow> Inl TypeError)"

definition read_cards :: "pyval \<Rightarrow> cards res" where
  "read_cards v = (case v of
     PDict d \<Rightarrow> res_map (\<lambda>(eid, entry). rbind (deserialise_card entry) (\<lambda>c. Inr (eid, c))) d
   | _ \<Rightarrow> Inl AttributeError)"

definition number_of :: "pyval \<Rightarrow> rat option" where
  "number_of v = (case v of PInt n \<Rightarrow> Some (of_int n) | PBool b \<Rightarrow> Some (if b then 1 else 0)
     | PFloat (Fin q) \<Rightarrow> Some q | _ \<Rightarrow> None)"

definition same_version :: "pyval \<Rightarrow> pyval \<Rightarrow> bool" where
  \<comment> \<open>\<open>==\<close>: numbers by value; \<open>NaN\<close> differs from itself\<close>
  "same_version a b = (case (number_of a, number_of b) of
     (Some x, Some y) \<Rightarrow> x = y | _ \<Rightarrow> a = b \<and> a \<noteq> PFloat NaN)"

definition fs_load :: "prims \<Rightarrow> disk \<Rightarrow> file_proc \<Rightarrow> cards res \<times> file_proc" where
  "fs_load P d p =
     (case d of
        None \<Rightarrow> (Inr [], \<lparr>f_mtime = 0, f_size = 0, f_version = PInt 0, f_hash = None, f_cache = Some []\<rparr>)
      | Some (content, mtime) \<Rightarrow>
          let fsize = int (length content);
              stale = (case rbind (loads_bytes content) split_file of
                  Inl e \<Rightarrow> (Inl e, p)
                | Inr (raw_cards, file_version) \<Rightarrow>
                    let file_hash = hex (sha256 P content);
                        reread = (case read_cards raw_cards of
                            Inl e \<Rightarrow> (Inl e, p)
                          | Inr cs \<Rightarrow> (Inr cs, \<lparr>f_mtime = mtime, f_size = fsize, f_version = file_version,
                                             f_hash = Some file_hash, f_cache = Some cs\<rparr>))
                    in (case f_cache p of
                          None \<Rightarrow> reread
                        | Some cs \<Rightarrow>
                            if f_hash p = Some file_hash \<and> same_version (f_version p) file_version
                            then (Inr cs, p\<lparr>f_mtime := mtime, f_size := fsize\<rparr>) else reread))
          in (case f_cache p of
                None \<Rightarrow> stale
              | Some cs \<Rightarrow> if mtime = f_mtime p \<and> fsize = f_size p then (Inr cs, p) else stale))"

definition bump_version :: "pyval \<Rightarrow> pyval res" where
  \<comment> \<open>\<open>self._version += 1\<close>\<close>
  "bump_version v = (case v of
     PInt n \<Rightarrow> Inr (PInt (n + 1)) | PBool b \<Rightarrow> Inr (PInt (if b then 2 else 1))
   | PFloat (Fin q) \<Rightarrow> Inr (PFloat (Fin (q + 1))) | PFloat x \<Rightarrow> Inr (PFloat x) | _ \<Rightarrow> Inl TypeError)"

definition raw_cards_of :: "cards \<Rightarrow> pyval" where
  "raw_cards_of store = PDict (map (\<lambda>(eid, c). (eid, PDict (serialise_card c))) store)"

definition file_content :: "prims \<Rightarrow> pylib \<Rightarrow> pyval \<Rightarrow> cards \<Rightarrow> bytes" where
  "file_content P L version store =
     (let cards_bytes = utf8 (dumps (float_repr L) False (sort_keys (raw_cards_of store)))
      in utf8 (pretty (float_repr L) 0 (PDict
           [(''_version'', version), (''_hash'', PStr (hex (sha256 P cards_bytes))),
            (''_cards'', raw_cards_of store)])))"

definition fs_flush :: "prims \<Rightarrow> pylib \<Rightarrow> int \<Rightarrow> exn option \<Rightarrow> cards \<Rightarrow> file_proc \<times> disk \<Rightarrow> unit res \<times> file_proc \<times> disk" where
  \<comment> \<open>the modification time of the new file, and the error of writing or renaming the temporary file\<close>
  "fs_flush P L now io store = (\<lambda>(p, d).
     case bump_version (f_version p) of
       Inl e \<Rightarrow> (Inl e, p, d)
     | Inr version \<Rightarrow>
         let p1 = p\<lparr>f_version := version\<rparr>; content = file_content P L version store
         in (case io of
               Some e \<Rightarrow> (Inl e, p1, d)
             | None \<Rightarrow>
                 (Inr (), p1\<lparr>f_mtime := now, f_size := int (length content),
                           f_hash := Some (hex (sha256 P content)), f_cache := Some store\<rparr>,
                  Some (content, now))))"

text \<open>\<open>store\<close> is the dictionary in \<open>_cache\<close> itself, so it changes before the file is written.\<close>

definition fs_put :: "prims \<Rightarrow> pylib \<Rightarrow> int \<Rightarrow> exn option \<Rightarrow> card \<Rightarrow> bool \<Rightarrow> file_proc \<times> disk \<Rightarrow> unit res \<times> file_proc \<times> disk" where
  "fs_put P L now io c overwrite = (\<lambda>(p, d).
     case fs_load P d p of
       (Inl e, p1) \<Rightarrow> (Inl e, p1, d)
     | (Inr store, p1) \<Rightarrow>
         if \<not> overwrite \<and> map_of store (card_id c) \<noteq> None then (Inl DuplicateCardError, p1, d)
         else let store' = AList.update (card_id c) c store
              in fs_flush P L now io store' (p1\<lparr>f_cache := Some store'\<rparr>, d))"

definition fs_get :: "prims \<Rightarrow> string \<Rightarrow> file_proc \<times> disk \<Rightarrow> card option res \<times> file_proc \<times> disk" where
  "fs_get P eid = (\<lambda>(p, d).
     case fs_load P d p of (Inl e, p1) \<Rightarrow> (Inl e, p1, d) | (Inr store, p1) \<Rightarrow> (Inr (map_of store eid), p1, d))"

definition fs_delete :: "prims \<Rightarrow> pylib \<Rightarrow> int \<Rightarrow> exn option \<Rightarrow> string \<Rightarrow> file_proc \<times> disk \<Rightarrow> bool res \<times> file_proc \<times> disk" where
  "fs_delete P L now io eid = (\<lambda>(p, d).
     case fs_load P d p of
       (Inl e, p1) \<Rightarrow> (Inl e, p1, d)
     | (Inr store, p1) \<Rightarrow>
         if map_of store eid = None then (Inr False, p1, d)
         else let store' = AList.delete eid store
              in (case fs_flush P L now io store' (p1\<lparr>f_cache := Some store'\<rparr>, d) of
                    (Inl e, p2, d') \<Rightarrow> (Inl e, p2, d') | (Inr _, p2, d') \<Rightarrow> (Inr True, p2, d')))"

definition fs_list :: "prims \<Rightarrow> file_proc \<times> disk \<Rightarrow> string list res \<times> file_proc \<times> disk" where
  "fs_list P = (\<lambda>(p, d).
     case fs_load P d p of (Inl e, p1) \<Rightarrow> (Inl e, p1, d) | (Inr store, p1) \<Rightarrow> (Inr (map fst store), p1, d))"

section \<open>Several processes on one file\<close>

text \<open>The objects of the processes, the file, and a clock of modification times that advances with
  every call.\<close>

record file_world =
  procs :: "nat \<Rightarrow> file_proc"
  disk :: disk
  clock_ns :: int

definition on_proc :: "nat \<Rightarrow> (int \<Rightarrow> file_proc \<times> disk \<Rightarrow> 'a \<times> file_proc \<times> disk) \<Rightarrow> file_world \<Rightarrow> 'a \<times> file_world" where
  "on_proc i f w =
     (case f (clock_ns w) (procs w i, disk w) of
        (r, p, d) \<Rightarrow> (r, \<lparr>procs = (procs w)(i := p), disk = d, clock_ns = clock_ns w + 1\<rparr>))"

definition file_store_of :: "prims \<Rightarrow> pylib \<Rightarrow> nat \<Rightarrow> file_world kstore" where
  \<comment> \<open>the store as process \<open>i\<close> sees it, when no write fails\<close>
  "file_store_of P L i = \<lparr>
     ks_put = (\<lambda>c ow. on_proc i (\<lambda>now. fs_put P L now None c ow)),
     ks_get = (\<lambda>eid. on_proc i (\<lambda>now. fs_get P eid)),
     ks_delete = (\<lambda>eid. on_proc i (\<lambda>now. fs_delete P L now None eid)),
     ks_list = (\<lambda>w. Some (on_proc i (\<lambda>now. fs_list P) w))\<rparr>"

section \<open>Lemmas: the file\<close>

definition disk_cards :: "disk \<Rightarrow> cards" where
  \<comment> \<open>what the file holds\<close>
  "disk_cards d = (case d of
     None \<Rightarrow> []
   | Some (content, t) \<Rightarrow>
       (case rbind (rbind (loads_bytes content) split_file) (\<lambda>(raw, v). read_cards raw) of Inl e \<Rightarrow> [] | Inr cs \<Rightarrow> cs))"

definition cards_ok :: "cards \<Rightarrow> bool" where
  "cards_ok m \<longleftrightarrow> keys_distinct m \<and> cards_inv m"

lemma cards_ok_in: "cards_ok m \<Longrightarrow> (eid, c) \<in> set m \<Longrightarrow> storable c \<and> card_id c = eid"
  by (simp add: cards_ok_def cards_inv_def)

lemma read_raw_cards: "\<forall>(eid, c) \<in> set m. storable c \<Longrightarrow> read_cards (raw_cards_of m) = Inr m"
  by (induction m) (auto simp: read_cards_def raw_cards_of_def storable_def)

lemma raw_cards_json_ok: "cards_ok m \<Longrightarrow> json_ok (raw_cards_of m)"
  using cards_ok_in [of m]
  by (force simp: raw_cards_of_def cards_ok_def storable_def comp_def case_prod_unfold simp del: json_ok.simps(3) intro: json_ok.simps(3) [THEN iffD2])

lemma parse_content:
  assumes "cards_ok m" and "json_ok v"
  shows "rbind (loads_bytes (file_content P L v m)) split_file = Inr (raw_cards_of m, v)"
proof -
  have "json_ok (PDict [(''_version'', v), (''_hash'', PStr h), (''_cards'', raw_cards_of m)])" for h
    using assms(2) raw_cards_json_ok [OF assms(1)] by simp
  then show ?thesis
    by (simp add: file_content_def Let_def loads_bytes_pretty split_file_def has_key_def dget_def dget_default_def
        del: json_ok.simps pretty.simps)
qed

definition disk_version :: "disk \<Rightarrow> int" where
  "disk_version d = (case d of
     None \<Rightarrow> 0
   | Some (content, t) \<Rightarrow> (case rbind (loads_bytes content) split_file of Inr (raw, PInt k) \<Rightarrow> k | _ \<Rightarrow> 0))"

lemma disk_version_content: "cards_ok m \<Longrightarrow> disk_version (Some (file_content P L (PInt k) m, t)) = k"
  by (simp add: disk_version_def parse_content)

lemma disk_cards_content:
  assumes "cards_ok m" and "json_ok v"
  shows "disk_cards (Some (file_content P L v m, t)) = m"
proof -
  have "read_cards (raw_cards_of m) = Inr m"
    by (rule read_raw_cards) (use cards_ok_in [OF assms(1)] in blast)
  then show ?thesis by (simp add: disk_cards_def parse_content [OF assms])
qed

lemma cards_ok_update: "cards_ok m \<Longrightarrow> storable c \<Longrightarrow> cards_ok (AList.update (card_id c) c m)"
  by (auto simp: cards_ok_def cards_inv_def update_conv' split: if_splits)

lemma cards_ok_delete: "cards_ok m \<Longrightarrow> cards_ok (AList.delete eid m)"
  by (auto simp: cards_ok_def cards_inv_def delete_conv' split: if_splits)

section \<open>Lemmas: the processes agree\<close>

text \<open>
  With version \<open>k\<close> of the file written at time \<open>t\<close>: a process has either loaded or written this
  version, or an earlier one, whose modification time is smaller.
\<close>

definition proc_ok :: "cards \<Rightarrow> int \<Rightarrow> int \<Rightarrow> int \<Rightarrow> file_proc \<Rightarrow> bool" where
  "proc_ok m k t n p \<longleftrightarrow> (\<exists>v. f_version p = PInt v \<and>
     (v = k \<and> f_cache p = Some m \<and> f_mtime p = t \<and> f_size p = n \<or> v < k \<and> f_mtime p < t))"

definition file_inv :: "prims \<Rightarrow> pylib \<Rightarrow> file_world \<Rightarrow> bool" where
  "file_inv P L w \<longleftrightarrow> 0 < clock_ns w \<and>
     (case disk w of
        None \<Rightarrow> \<forall>i. f_version (procs w i) = PInt 0 \<and> f_mtime (procs w i) = 0
      | Some (content, t) \<Rightarrow> t < clock_ns w \<and> 0 < t \<and> 0 < disk_version (disk w) \<and> cards_ok (disk_cards (disk w)) \<and>
          content = file_content P L (PInt (disk_version (disk w))) (disk_cards (disk w)) \<and>
          (\<forall>i. proc_ok (disk_cards (disk w)) (disk_version (disk w)) t (int (length content)) (procs w i)))"

definition loaded :: "disk \<Rightarrow> file_proc \<Rightarrow> bool" where
  \<comment> \<open>a process that has just read the file\<close>
  "loaded d p \<longleftrightarrow> f_version p = PInt (disk_version d) \<and>
     (case d of None \<Rightarrow> f_mtime p = 0
      | Some (content, t) \<Rightarrow> f_cache p = Some (disk_cards d) \<and> f_mtime p = t \<and> f_size p = int (length content))"

lemma file_inv_cards: "file_inv P L w \<Longrightarrow> cards_ok (disk_cards (disk w))"
  by (cases "disk w") (auto simp: file_inv_def disk_cards_def cards_ok_def cards_inv_def)

lemma load_current:
  assumes "cards_ok m" and "proc_ok m k t n p" and "n = int (length (file_content P L (PInt k) m))"
  shows "\<exists>p'. fs_load P (Some (file_content P L (PInt k) m, t)) p = (Inr m, p') \<and>
    f_version p' = PInt k \<and> f_cache p' = Some m \<and> f_mtime p' = t \<and> f_size p' = n"
proof -
  let ?c = "file_content P L (PInt k) m"
  have r: "read_cards (raw_cards_of m) = Inr m"
    by (rule read_raw_cards) (use cards_ok_in [OF assms(1)] in blast)
  have l: "rbind (loads_bytes ?c) split_file = Inr (raw_cards_of m, PInt k)"
    by (rule parse_content [OF assms(1)]) simp
  obtain v where v: "f_version p = PInt v"
    "v = k \<and> f_cache p = Some m \<and> f_mtime p = t \<and> f_size p = n \<or> v < k \<and> f_mtime p < t"
    using assms(2) by (auto simp: proc_ok_def)
  from v(2) show ?thesis
  proof
    assume "v = k \<and> f_cache p = Some m \<and> f_mtime p = t \<and> f_size p = n"
    then show ?thesis using v(1) assms(3) by (simp add: fs_load_def Let_def)
  next
    assume "v < k \<and> f_mtime p < t"
    then have "\<not> same_version (f_version p) (PInt k)" "t \<noteq> f_mtime p"
      by (simp_all add: v(1) same_version_def number_of_def)
    then show ?thesis using l r assms(3) by (cases "f_cache p") (simp_all add: fs_load_def Let_def)
  qed
qed

text \<open>Loading gives what the file holds, to every process, and a write then makes the next version.\<close>

lemma load_world:
  assumes "file_inv P L w"
  shows "\<exists>p. fs_load P (disk w) (procs w i) = (Inr (disk_cards (disk w)), p) \<and> loaded (disk w) p"
proof (cases "disk w")
  case None
  then show ?thesis by (simp add: fs_load_def disk_cards_def loaded_def disk_version_def)
next
  case (Some ct)
  obtain content t where ct: "ct = (content, t)" by (cases ct)
  define m k where mk: "m = disk_cards (disk w)" "k = disk_version (disk w)"
  have c: "cards_ok m" unfolding mk by (rule file_inv_cards [OF assms])
  have "content = file_content P L (PInt k) m" "proc_ok m k t (int (length content)) (procs w i)"
    using assms by (simp_all add: file_inv_def Some ct mk)
  with load_current [OF c, of k t "int (length content)" "procs w i" P L]
  have "\<exists>p'. fs_load P (Some (content, t)) (procs w i) = (Inr m, p') \<and> f_version p' = PInt k \<and>
      f_cache p' = Some m \<and> f_mtime p' = t \<and> f_size p' = int (length content)" by simp
  then show ?thesis by (simp add: loaded_def Some ct mk)
qed

lemma keep_world:
  assumes "file_inv P L w" and "loaded (disk w) p"
  shows "file_inv P L \<lparr>procs = (procs w)(i := p), disk = disk w, clock_ns = clock_ns w + 1\<rparr>"
proof (cases "disk w")
  case None
  with assms show ?thesis by (simp add: file_inv_def loaded_def disk_version_def)
next
  case (Some ct)
  with assms show ?thesis by (cases ct) (simp add: file_inv_def loaded_def proc_ok_def)
qed

lemma flush_world:
  assumes "file_inv P L w" and "loaded (disk w) p" and "cards_ok store"
  shows "\<exists>p' d'. fs_flush P L (clock_ns w) None store (p\<lparr>f_cache := u\<rparr>, disk w) = (Inr (), p', d') \<and>
    file_inv P L \<lparr>procs = (procs w)(i := p'), disk = d', clock_ns = clock_ns w + 1\<rparr> \<and> disk_cards d' = store"
proof -
  let ?k = "disk_version (disk w)"
  let ?c = "file_content P L (PInt (?k + 1)) store"
  let ?d = "Some (?c, clock_ns w)"
  have f: "fs_flush P L (clock_ns w) None store (p\<lparr>f_cache := u\<rparr>, disk w) =
      (Inr (), p\<lparr>f_version := PInt (?k + 1), f_mtime := clock_ns w, f_size := int (length ?c),
         f_hash := Some (hex (sha256 P ?c)), f_cache := Some store\<rparr>, ?d)"
    (is "_ = (_, ?p, _)")
    using assms(2) by (simp add: fs_flush_def loaded_def bump_version_def Let_def)
  have d: "disk_cards ?d = store" "disk_version ?d = ?k + 1"
    by (simp_all add: disk_cards_content [OF assms(3)] disk_version_content [OF assms(3)])
  have k: "0 \<le> ?k" "0 < clock_ns w"
    using assms(1) by (auto simp: file_inv_def disk_version_def split: option.splits)
  have "proc_ok store (?k + 1) (clock_ns w) n (procs w j)" for j n
    using assms(1) k by (cases "disk w") (auto simp: file_inv_def proc_ok_def disk_version_def)
  then have "file_inv P L \<lparr>procs = (procs w)(i := ?p), disk = ?d, clock_ns = clock_ns w + 1\<rparr>"
    using d k assms(3) by (simp add: file_inv_def proc_ok_def)
  with f d show ?thesis by blast
qed

section \<open>Lemmas: one call\<close>

lemma load_worldE:
  assumes "file_inv P L w"
  obtains p where "fs_load P (disk w) (procs w i) = (Inr (disk_cards (disk w)), p)" "loaded (disk w) p"
  using load_world [OF assms] by blast

lemma file_put:
  assumes "file_inv P L w" and "storable c" and "ks_put (file_store_of P L i) c ow w = (r, w')"
  shows "mks_put c ow (disk_cards (disk w)) = (r, disk_cards (disk w')) \<and> file_inv P L w'"
proof -
  let ?m = "disk_cards (disk w)"
  obtain p where p: "fs_load P (disk w) (procs w i) = (Inr ?m, p)" "loaded (disk w) p"
    by (rule load_worldE [OF assms(1)])
  show ?thesis
  proof (cases "\<not> ow \<and> map_of ?m (card_id c) \<noteq> None")
    case True
    then have "r = Inl DuplicateCardError" "w' = \<lparr>procs = (procs w)(i := p), disk = disk w, clock_ns = clock_ns w + 1\<rparr>"
      using assms(3) p(1) by (auto simp: file_store_of_def on_proc_def fs_put_def)
    with True keep_world [OF assms(1) p(2)] show ?thesis by (simp add: mks_put_def)
  next
    case False
    let ?s = "AList.update (card_id c) c ?m"
    obtain p' d' where f: "fs_flush P L (clock_ns w) None ?s (p\<lparr>f_cache := Some ?s\<rparr>, disk w) = (Inr (), p', d')"
      "file_inv P L \<lparr>procs = (procs w)(i := p'), disk = d', clock_ns = clock_ns w + 1\<rparr>" "disk_cards d' = ?s"
      using flush_world [OF assms(1) p(2) cards_ok_update [OF file_inv_cards [OF assms(1)] assms(2)]] by blast
    have "r = Inr ()" "w' = \<lparr>procs = (procs w)(i := p'), disk = d', clock_ns = clock_ns w + 1\<rparr>"
      using assms(3) p(1) f(1) False by (auto simp: file_store_of_def on_proc_def fs_put_def Let_def)
    with f(2,3) False show ?thesis by (simp add: mks_put_def Let_def)
  qed
qed

lemma file_get:
  assumes "file_inv P L w" and "ks_get (file_store_of P L i) eid w = (r, w')"
  shows "mks_get eid (disk_cards (disk w)) = (r, disk_cards (disk w')) \<and> file_inv P L w'"
proof -
  obtain p where p: "fs_load P (disk w) (procs w i) = (Inr (disk_cards (disk w)), p)" "loaded (disk w) p"
    by (rule load_worldE [OF assms(1)])
  have "r = Inr (map_of (disk_cards (disk w)) eid)"
    "w' = \<lparr>procs = (procs w)(i := p), disk = disk w, clock_ns = clock_ns w + 1\<rparr>"
    using assms(2) p(1) by (simp_all add: file_store_of_def on_proc_def fs_get_def)
  with keep_world [OF assms(1) p(2)] show ?thesis by (simp add: mks_get_def)
qed

lemma file_delete:
  assumes "file_inv P L w" and "ks_delete (file_store_of P L i) eid w = (r, w')"
  shows "mks_delete eid (disk_cards (disk w)) = (r, disk_cards (disk w')) \<and> file_inv P L w'"
proof -
  let ?m = "disk_cards (disk w)"
  obtain p where p: "fs_load P (disk w) (procs w i) = (Inr ?m, p)" "loaded (disk w) p"
    by (rule load_worldE [OF assms(1)])
  show ?thesis
  proof (cases "map_of ?m eid = None")
    case True
    then have "r = Inr False" "w' = \<lparr>procs = (procs w)(i := p), disk = disk w, clock_ns = clock_ns w + 1\<rparr>"
      using assms(2) p(1) by (simp_all add: file_store_of_def on_proc_def fs_delete_def)
    with True keep_world [OF assms(1) p(2)] show ?thesis by (simp add: mks_delete_def)
  next
    case False
    let ?s = "AList.delete eid ?m"
    obtain p' d' where f: "fs_flush P L (clock_ns w) None ?s (p\<lparr>f_cache := Some ?s\<rparr>, disk w) = (Inr (), p', d')"
      "file_inv P L \<lparr>procs = (procs w)(i := p'), disk = d', clock_ns = clock_ns w + 1\<rparr>" "disk_cards d' = ?s"
      using flush_world [OF assms(1) p(2) cards_ok_delete [OF file_inv_cards [OF assms(1)]]] by blast
    have "r = Inr True" "w' = \<lparr>procs = (procs w)(i := p'), disk = d', clock_ns = clock_ns w + 1\<rparr>"
      using assms(2) p(1) f(1) False by (auto simp: file_store_of_def on_proc_def fs_delete_def Let_def)
    with f(2,3) False show ?thesis by (auto simp: mks_delete_def)
  qed
qed

lemma file_list:
  assumes "file_inv P L w" and "ks_list (file_store_of P L i) w = Some (r, w')"
  shows "mks_list (disk_cards (disk w)) = Some (r, disk_cards (disk w')) \<and> file_inv P L w'"
proof -
  obtain p where p: "fs_load P (disk w) (procs w i) = (Inr (disk_cards (disk w)), p)" "loaded (disk w) p"
    by (rule load_worldE [OF assms(1)])
  have "r = Inr (map fst (disk_cards (disk w)))"
    "w' = \<lparr>procs = (procs w)(i := p), disk = disk w, clock_ns = clock_ns w + 1\<rparr>"
    using assms(2) p(1) by (simp_all add: file_store_of_def on_proc_def fs_list_def)
  with keep_world [OF assms(1) p(2)] show ?thesis by (simp add: mks_list_def)
qed

lemma file_list_returns: "\<exists>r w'. ks_list (file_store_of P L i) w = Some (r, w')"
  by (simp add: file_store_of_def)

interpretation on_disk: reliable_key_store "file_store_of P L i" "\<lambda>w. map_of (disk_cards (disk w))" "file_inv P L" for P L i
proof (unfold_locales, goal_cases)
  case (1 s c ow u s')
  with file_put [OF 1(1,2,3)] show ?case
    using memory.put_ok [of "disk_cards (disk s)" c ow u "disk_cards (disk s')"] file_inv_cards [OF 1(1)]
    by (simp add: memory_store_def cards_ok_def)
next
  case (2 s c ow e s')
  with file_put [OF 2(1,2,3)] show ?case
    using memory.put_fails [of "disk_cards (disk s)" c ow e "disk_cards (disk s')"] file_inv_cards [OF 2(1)]
    by (simp add: memory_store_def cards_ok_def)
next
  case (3 s c ow s')
  with file_put [OF 3(1,2,3)] show ?case
    using memory.put_duplicate [of "disk_cards (disk s)" c ow "disk_cards (disk s')"] file_inv_cards [OF 3(1)]
    by (simp add: memory_store_def cards_ok_def)
next
  case (4 s eid r s')
  with file_get [OF 4] show ?case by (auto simp: mks_get_def)
next
  case (5 s eid r s')
  with file_get [OF 5] show ?case by (simp add: mks_get_def)
next
  case (6 s eid b s')
  with file_delete [OF 6] show ?case
    using memory.delete_ok [of "disk_cards (disk s)" eid b "disk_cards (disk s')"] file_inv_cards [OF 6(1)]
    by (simp add: memory_store_def cards_ok_def)
next
  case (7 s eid e s')
  with file_delete [OF 7] show ?case by (simp add: mks_delete_def split: if_splits)
next
  case (8 s eid c)
  with file_inv_cards [OF 8(1)] show ?case by (simp add: cards_ok_def cards_inv_def)
next
  case (9 s c ow e s')
  with file_put [OF 9(1,2,3)] show ?case by (auto simp: mks_put_def Let_def split: if_splits)
next
  case (10 s eid e s')
  with file_delete [OF 10] show ?case by (simp add: mks_delete_def split: if_splits)
next
  case (11 s c)
  obtain r s' where r: "ks_put (file_store_of P L i) c True s = (r, s')"
    by (cases "ks_put (file_store_of P L i) c True s")
  with file_put [OF 11 r] show ?case by (simp add: mks_put_def Let_def)
next
  case (12 s eid)
  obtain r s' where r: "ks_get (file_store_of P L i) eid s = (r, s')"
    by (cases "ks_get (file_store_of P L i) eid s")
  with file_get [OF 12 r] show ?case by (auto simp: mks_get_def)
next
  case (13 s eid)
  obtain r s' where r: "ks_delete (file_store_of P L i) eid s = (r, s')"
    by (cases "ks_delete (file_store_of P L i) eid s")
  with file_delete [OF 13 r] show ?case by (auto simp: mks_delete_def split: if_splits)
qed

lemma file_step:
  assumes "file_inv P L w" and "storable_op x" and "ks_step (file_store_of P L i) x w = (a, w')"
  shows "ks_step memory_store x (disk_cards (disk w)) = (a, disk_cards (disk w')) \<and> file_inv P L w'"
proof (cases x)
  case (PutOp c ow)
  with assms file_put [OF assms(1), of c i ow] show ?thesis
    by (auto simp: memory_store_def split: prod.splits)
next
  case (GetOp eid)
  with assms file_get [OF assms(1), of i eid] show ?thesis
    by (auto simp: memory_store_def split: prod.splits)
next
  case (DelOp eid)
  with assms file_delete [OF assms(1), of i eid] show ?thesis
    by (auto simp: memory_store_def split: prod.splits)
next
  case ListOp
  obtain r s where "ks_list (file_store_of P L i) w = Some (r, s)" using file_list_returns by blast
  with ListOp assms(3) file_list [OF assms(1)] show ?thesis
    by (auto simp: memory_store_def split: prod.splits)
qed

definition new_world :: "int \<Rightarrow> file_world" where
  \<comment> \<open>no file yet, and no process has used the store\<close>
  "new_world t = \<lparr>procs = (\<lambda>_. fp_init), disk = None, clock_ns = t\<rparr>"

lemma new_world_inv: "0 < t \<Longrightarrow> file_inv P L (new_world t)"
  by (simp add: new_world_def file_inv_def fp_init_def)

section \<open>Lemmas: a cache in front of the file\<close>

interpretation cached_disk: caching memory_store map_of cards_inv "file_store_of P L i"
    "\<lambda>w. map_of (disk_cards (disk w))" "file_inv P L" for P L i
  by unfold_locales

lemma cached_step:
  assumes "coherent map_of cards_inv (\<lambda>w. map_of (disk_cards (disk w))) (file_inv P L) s" and "storable_op x"
    and "ks_step (caching_store memory_store (file_store_of P L i)) x s = (a, s')"
  shows "ks_step memory_store x (disk_cards (disk (snd s))) = (a, disk_cards (disk (snd s'))) \<and>
    coherent map_of cards_inv (\<lambda>w. map_of (disk_cards (disk w))) (file_inv P L) s'"
proof -
  obtain cs w cs' w' where s: "s = (cs, w)" "s' = (cs', w')" by (cases s; cases s')
  have inv: "file_inv P L w" using assms(1) by (simp add: s coherent_def)
  show ?thesis
  proof (cases x)
    case (PutOp c ow)
    then obtain r where r: "a = APut r" "cks_put memory_store (file_store_of P L i) c ow (cs, w) = (r, cs', w')"
      using assms(3) by (auto simp: s caching_store_def split: prod.splits)
    have st: "storable c" using assms(2) PutOp by simp
    note c = cached_disk.cks_put_cases [OF assms(1) [unfolded s] st r(2)]
    then have "ks_put (file_store_of P L i) c ow w = (r, w')" by (cases r) auto
    with file_put [OF inv st] c r(1) PutOp show ?thesis by (simp add: s memory_store_def)
  next
    case (GetOp eid)
    then obtain r where r: "a = AGet r" "cks_get memory_store (file_store_of P L i) eid (cs, w) = (r, cs', w')"
      using assms(3) by (auto simp: s caching_store_def split: prod.splits)
    note c = cached_disk.cks_get_cases [OF assms(1) [unfolded s] r(2)]
    have "mks_get eid (disk_cards (disk w)) = (r, disk_cards (disk w'))"
    proof (cases "w' = w \<and> is_ok r")
      case True
      with c show ?thesis by (auto simp: mks_get_def is_ok_iff)
    next
      case False
      with c have "ks_get (file_store_of P L i) eid w = (r, w')" by (metis prod.collapse)
      with file_get [OF inv] show ?thesis by blast
    qed
    with c r(1) GetOp show ?thesis by (simp add: s memory_store_def)
  next
    case (DelOp eid)
    then obtain r where r: "a = ADel r" "cks_delete memory_store (file_store_of P L i) eid (cs, w) = (r, cs', w')"
      using assms(3) by (auto simp: s caching_store_def split: prod.splits)
    note c = cached_disk.cks_delete_cases [OF assms(1) [unfolded s] r(2)]
    with file_delete [OF inv] r(1) DelOp show ?thesis by (auto simp: s memory_store_def)
  next
    case ListOp
    obtain r u where l: "ks_list (file_store_of P L i) w = Some (r, u)" using file_list_returns by blast
    with ListOp assms(3) have "a = AList r" "w' = u" "cs' = cs"
      by (auto simp: s caching_store_def cks_list_def)
    with file_list [OF inv l] assms(1) ListOp show ?thesis
      by (auto simp: s memory_store_def coherent_def mks_list_def)
  qed
qed

section \<open>Properties\<close>

text \<open>C39: Any number of processes that use one card file agree: however their calls of \<open>put\<close>, \<open>get\<close>,
  \<open>delete\<close> and \<open>list_ids\<close> interleave, every call returns what a single in-memory store would
  return, in spite of the caches in the processes. Assumed are cards that survive their own
  serialised form, writes that succeed and modification times that increase.\<close>

theorem file_store_refines_memory:
  assumes "0 < t" and "\<forall>x \<in> set xs. storable_op (snd x)"
  shows "ks_run (file_store_of P L) xs (new_world t) = ks_run (\<lambda>_. memory_store) xs []"
  using ks_run_simulates [of "file_inv P L" "file_store_of P L" "\<lambda>w. disk_cards (disk w)", OF file_step
      new_world_inv [OF assms(1)] assms(2)]
  by (simp add: new_world_def disk_cards_def)

text \<open>C40: An in-memory cache in front of the card file is invisible to the process that uses it, under three
  conditions: this process is the only one that writes the file while it runs, all its calls go through
  \<open>CachingKeyStore\<close>, and neither the cache nor the file fails. From any state of the file and of the processes
  that earlier runs can have left, and any cache whose cards are those of the file, every run of calls,
  with cards that survive their serialised form, returns what a single in-memory store with the cards of
  the file would return. (A card that another process writes stays hidden behind an older one in the cache,
  and so does a card whose write to the cache fails.)\<close>

theorem caching_refines_memory:
  assumes "file_inv P L w" and "cards_inv cs" and "\<forall>eid c. map_of cs eid = Some c \<longrightarrow> map_of (disk_cards (disk w)) eid = Some c"
    and "\<forall>x \<in> set xs. storable_op (snd x)"
  shows "ks_run (\<lambda>_. caching_store memory_store (file_store_of P L i)) xs (cs, w) =
    ks_run (\<lambda>_. memory_store) xs (disk_cards (disk w))"
proof -
  have "coherent map_of cards_inv (\<lambda>w. map_of (disk_cards (disk w))) (file_inv P L) (cs, w)"
    using assms(1-3) by (simp add: coherent_def)
  from ks_run_simulates [of "coherent map_of cards_inv (\<lambda>w. map_of (disk_cards (disk w))) (file_inv P L)"
      "\<lambda>_. caching_store memory_store (file_store_of P L i)" "\<lambda>s. disk_cards (disk (snd s))", OF cached_step this assms(4)]
  show ?thesis by simp
qed

text \<open>When the temporary file cannot be written, \<open>put\<close> reports the error and leaves the file as
  it was, but the process has the new card in its cache: as long as nobody else writes the file, its \<open>get\<close>
  returns the card that was never stored, while every other process still gets the old answer.\<close>

theorem file_failed_put_visible:
  assumes "file_inv P L w" and "storable c"
    and "fs_put P L now (Some e) c True (procs w i, disk w) = (r, p', d')"
    and "fs_get P (card_id c) (p', d') = (mine, p'', d'')" and "fs_get P (card_id c) (fp_init, disk w) = (other, q, d3)"
    and "disk w \<noteq> None"
  shows "r = Inl e \<and> d' = disk w \<and> mine = Inr (Some c) \<and> other = Inr (map_of (disk_cards (disk w)) (card_id c))"
proof -
  let ?m = "disk_cards (disk w)" and ?s = "AList.update (card_id c) c (disk_cards (disk w))"
  obtain content t where d: "disk w = Some (content, t)" using assms(6) by auto
  obtain p where p: "fs_load P (disk w) (procs w i) = (Inr ?m, p)" "loaded (disk w) p"
    by (rule load_worldE [OF assms(1)])
  have put: "fs_put P L now (Some e) c True (procs w i, disk w) =
      (Inl e, p\<lparr>f_cache := Some ?s, f_version := PInt (disk_version (disk w) + 1)\<rparr>, disk w)"
    using p by (simp add: fs_put_def fs_flush_def loaded_def bump_version_def Let_def)
  have r: "r = Inl e" "d' = disk w" "p' = p\<lparr>f_cache := Some ?s, f_version := PInt (disk_version (disk w) + 1)\<rparr>"
    using assms(3) put by auto
  have "fs_load P (disk w) p' = (Inr ?s, p')"
    using p(2) by (simp add: r fs_load_def d loaded_def Let_def)
  then have "mine = Inr (Some c)"
    using assms(4) by (simp add: fs_get_def r(2) split_beta)
  moreover have "other = Inr (map_of ?m (card_id c))"
  proof -
    have c: "cards_ok ?m" and e: "content = file_content P L (PInt (disk_version (disk w))) ?m"
      using assms(1) by (simp_all add: file_inv_def d)
    have "proc_ok ?m (disk_version (disk w)) t (int (length content)) fp_init"
      using assms(1) by (simp add: file_inv_def d proc_ok_def fp_init_def)
    with load_current [OF c, of "disk_version (disk w)" t "int (length content)" fp_init P L] e
    obtain q' where "fs_load P (Some (content, t)) fp_init = (Inr ?m, q')" by auto
    with assms(5) show ?thesis by (auto simp: fs_get_def d)
  qed
  ultimately show ?thesis using r by simp
qed

section \<open>A concrete run\<close>

lemma demo_storable: "storable (Public demo_card)"
proof (rule storable_public)
  have "validate_role (c_role demo_card) = Inr (c_role demo_card)" by code_simp
  then show "card_ok demo_card" by (simp add: card_ok_def demo_card_def demo_pubkeys_def)
qed

definition demo_calls :: "(nat \<times> ks_op) list" where
  "demo_calls = [(0, PutOp (Public demo_card) True), (1, GetOp ''alice''), (1, DelOp ''alice''), (0, GetOp ''alice'')]"

lemma demo_calls_memory: "ks_run (\<lambda>_. memory_store) demo_calls [] =
    [APut (Inr ()), AGet (Inr (Some (Public demo_card))), ADel (Inr True), AGet (Inr None)]"
  by (simp add: demo_calls_def memory_store_def mks_put_def mks_get_def mks_delete_def card_id_def demo_card_def)

theorem file_store_refines_memory_witness:
  "ks_run (file_store_of demo_prims demo_lib) demo_calls (new_world 5) =
     [APut (Inr ()), AGet (Inr (Some (Public demo_card))), ADel (Inr True), AGet (Inr None)]"
  using file_store_refines_memory [of 5 demo_calls demo_prims demo_lib] demo_storable
  by (simp add: demo_calls_memory) (simp add: demo_calls_def)

theorem caching_refines_memory_witness:
  "ks_run (\<lambda>_. caching_store memory_store (file_store_of demo_prims demo_lib 0)) demo_calls ([], new_world 5) =
     [APut (Inr ()), AGet (Inr (Some (Public demo_card))), ADel (Inr True), AGet (Inr None)]"
proof -
  have "\<forall>x \<in> set demo_calls. storable_op (snd x)" using demo_storable by (simp add: demo_calls_def)
  then show ?thesis
    using caching_refines_memory [OF new_world_inv [of 5], of "[]" demo_calls demo_prims demo_lib 0] demo_calls_memory
    by (simp add: cards_inv_def) (simp add: new_world_def disk_cards_def)
qed

definition renamed_card :: public_card where
  "renamed_card = demo_card\<lparr>c_name := ''Eve''\<rparr>"

lemma renamed_storable: "storable (Public renamed_card)"
proof (rule storable_public)
  have "validate_role (c_role renamed_card) = Inr (c_role renamed_card)" by code_simp
  then show "card_ok renamed_card" by (simp add: card_ok_def renamed_card_def demo_card_def demo_pubkeys_def)
qed

theorem file_failed_put_visible_witness:
  "\<exists>p d p' d'. fs_put demo_prims demo_lib 9 (Some OSError) (Public renamed_card) True (p, d) = (Inl OSError, p', d') \<and>
     fst (fs_get demo_prims ''alice'' (p', d')) = Inr (Some (Public renamed_card)) \<and>
     fst (fs_get demo_prims ''alice'' (fp_init, d)) = Inr (Some (Public demo_card))"
proof -
  let ?K = "file_store_of demo_prims demo_lib 0"
  obtain r w where w: "ks_put ?K (Public demo_card) True (new_world 5) = (r, w)" by fastforce
  have "mks_put (Public demo_card) True (disk_cards (disk (new_world 5))) = (r, disk_cards (disk w)) \<and>
      file_inv demo_prims demo_lib w"
    by (rule file_put [OF new_world_inv demo_storable w]) simp
  then have i: "file_inv demo_prims demo_lib w" and d: "disk_cards (disk w) = [(''alice'', Public demo_card)]"
    by (auto simp: mks_put_def new_world_def disk_cards_def card_id_def demo_card_def)
  then have n: "disk w \<noteq> None" by (cases "disk w") (auto simp: disk_cards_def)
  obtain r p' d' where p: "fs_put demo_prims demo_lib 9 (Some OSError) (Public renamed_card) True (procs w 0, disk w) = (r, p', d')"
    using prod_cases3 by blast
  obtain m p2 d2 where g: "fs_get demo_prims (card_id (Public renamed_card)) (p', d') = (m, p2, d2)"
    using prod_cases3 by blast
  obtain h p3 d3 where h: "fs_get demo_prims (card_id (Public renamed_card)) (fp_init, disk w) = (h, p3, d3)"
    using prod_cases3 by blast
  have k: "card_id (Public renamed_card) = ''alice''" by (simp add: card_id_def renamed_card_def demo_card_def)
  from file_failed_put_visible [OF i renamed_storable p g h n] p g h show ?thesis
    unfolding k by (intro exI [of _ "procs w 0"] exI [of _ "disk w"] exI [of _ p'] exI [of _ d']) (simp add: d)
qed

end
