(* ===== verification/Schema.thy ===== *)
theory Schema
  imports SecureGuarantees
begin

text \<open>
  \<open>uxsp/schema/__init__.py\<close>: the checks of parsed envelopes, packages and public cards against the rules of
  their JSON schemas, and how they stand to what the other parts write: every envelope, every public card
  and every package in one piece passes, no package in chunks does. The functions that return the schema
  files themselves only parse them and are left out.
\<close>

section \<open>The checks\<close>

definition all_present :: "string list \<Rightarrow> dict \<Rightarrow> bool" where
  \<comment> \<open>no \<open>missing\<close> fields\<close>
  "all_present ks d \<longleftrightarrow> list_all (has_key d) ks"

definition ENVELOPE_REQUIRED :: "string list" where
  "ENVELOPE_REQUIRED = [''version'', ''sender_id'', ''recipient_id'', ''timestamp'', ''envelope_nonce'', ''ciphertext'', ''nonce'',
     ''ephemeral_pub'', ''kem_ciphertext'', ''classical_sig'', ''pqc_sig'']"

definition ENVELOPE_STRINGS :: "string list" where
  "ENVELOPE_STRINGS = [''sender_id'', ''recipient_id'', ''envelope_nonce'', ''ciphertext'', ''nonce'', ''ephemeral_pub'',
     ''kem_ciphertext'', ''classical_sig'', ''pqc_sig'']"

definition PACKAGE_REQUIRED :: "string list" where
  "PACKAGE_REQUIRED = [''uxsp_package_version'', ''sender_id'', ''receiver_id'', ''data_type'', ''is_chunked'']"

definition CARD_REQUIRED :: "string list" where
  "CARD_REQUIRED = [''version'', ''entity_id'', ''name'', ''role'', ''created_at'', ''public_keys'']"

definition CARD_KEYS :: "string list" where
  "CARD_KEYS = [''exchange_pub'', ''kem_pub'', ''signing_pub'', ''pqc_sig_pub'']"

definition is_int :: "pyval \<Rightarrow> bool" where
  \<comment> \<open>\<open>isinstance(v, int)\<close>, which holds of \<open>True\<close> and \<open>False\<close> too\<close>
  "is_int v \<longleftrightarrow> (case v of PInt n \<Rightarrow> True | PBool b \<Rightarrow> True | _ \<Rightarrow> False)"

definition validate_envelope :: "pyval \<Rightarrow> unit res" where
  "validate_envelope v = (case v of
     PDict d \<Rightarrow>
       guard (all_present ENVELOPE_REQUIRED d) SchemaValidationError
        (guard (dget d ''version'' = PStr ''UXSP-1'') SchemaValidationError
          (guard (list_all (\<lambda>k. is_PStr (dget d k)) ENVELOPE_STRINGS) SchemaValidationError
            (guard (is_int (dget d ''timestamp'')) SchemaValidationError (Inr ()))))
   | _ \<Rightarrow> Inl SchemaValidationError)"

fun validate_chunks :: "pyval list \<Rightarrow> unit res" where
  \<comment> \<open>each chunk is checked as an envelope; the error is raised again with the index in its text\<close>
  "validate_chunks [] = Inr ()"
| "validate_chunks (c # cs) = rbind (validate_envelope c) (\<lambda>_. validate_chunks cs)"

definition validate_package :: "pyval \<Rightarrow> unit res" where
  "validate_package v = (case v of
     PDict d \<Rightarrow>
       guard (all_present PACKAGE_REQUIRED d) SchemaValidationError
        (guard (dget d ''uxsp_package_version'' = PStr ''1.0'') SchemaValidationError
          (guard (\<exists>b \<in> {True, False}. dget d ''is_chunked'' = PBool b) SchemaValidationError
            (rbind (if dget d ''envelope'' \<noteq> PNone then validate_envelope (dget d ''envelope'') else Inr ()) (\<lambda>_.
             case dget d ''chunks'' of PList cs \<Rightarrow> validate_chunks cs | _ \<Rightarrow> Inr ()))))
   | _ \<Rightarrow> Inl SchemaValidationError)"

definition validate_public_card :: "pyval \<Rightarrow> unit res" where
  "validate_public_card v = (case v of
     PDict d \<Rightarrow>
       guard (all_present CARD_REQUIRED d) SchemaValidationError
        (guard (dget d ''version'' = PStr ''UXSP-PUBCARD-1'') SchemaValidationError
          (case dget d ''public_keys'' of
             PDict pk \<Rightarrow> guard (all_present CARD_KEYS pk) SchemaValidationError (Inr ())
           | _ \<Rightarrow> Inl SchemaValidationError))
   | _ \<Rightarrow> Inl SchemaValidationError)"

section \<open>What passes\<close>

lemmas present_simps = all_present_def has_key_def dget_def

lemma envelope_passes: "validate_envelope (PDict (env_to_dict e)) = guard (e_version e = ''UXSP-1'') SchemaValidationError (Inr ())"
  by (simp add: validate_envelope_def env_to_dict_def present_simps ENVELOPE_REQUIRED_def ENVELOPE_STRINGS_def is_int_def)

lemma card_passes:
  "validate_public_card (PDict (card_to_dict c)) = Inr () \<longleftrightarrow> set CARD_KEYS \<subseteq> fst ` set (c_public_keys c)"
proof -
  have m: "map_of (hex_keys ks) k \<noteq> None \<longleftrightarrow> k \<in> fst ` set ks" for ks k
    by (induction ks) (auto simp: hex_keys_def)
  have "validate_public_card (PDict (card_to_dict c)) = Inr () \<longleftrightarrow> all_present CARD_KEYS (hex_keys (c_public_keys c))"
    by (simp add: validate_public_card_def card_to_dict_def opt_entry_def present_simps CARD_REQUIRED_def guard_Inr_iff split: option.split)
  also have "\<dots> \<longleftrightarrow> set CARD_KEYS \<subseteq> fst ` set (c_public_keys c)"
    unfolding all_present_def has_key_def list_all_iff m by blast
  finally show ?thesis .
qed

lemma sealed_version: "seal_for P L R t1 t2 m pc i = Inr env \<Longrightarrow> e_version env = ''UXSP-1''"
  using seal_for_Inr(1) [of P L R t1 t2 m pc i env] by (auto elim!: seal_Inr simp: env_to_dict_def)

lemma sealed_chunk_fails:
  assumes "seal_chunk P key n ns c = Inr v"
  shows "validate_envelope v = Inl SchemaValidationError"
proof -
  obtain a b where "v = PDict [(''c'', PStr a), (''n'', PStr b)]"
    using assms by (auto simp: seal_chunk_def res_Inr_iffs split: prod.splits)
  then show ?thesis by (simp add: validate_envelope_def present_simps ENVELOPE_REQUIRED_def)
qed

lemma create_nonempty:
  assumes "create_chunked_transfer P L tid data n m = Inr cs"
  shows "cs \<noteq> []"
proof -
  have "0 < n" and "length cs = length (split_body (nat n) data)"
    using assms by (auto simp: create_chunked_transfer_def res_Inr_iffs Let_def res_map_Inr_iff dest!: list_all2_lengthD)
  then show ?thesis using split_body_nonempty [of "nat n" data] by auto
qed

lemma package_check:
  "validate_package (PDict (package_to_dict p)) =
     rbind (if pk_envelope p \<noteq> PNone then validate_envelope (pk_envelope p) else Inr ()) (\<lambda>_.
       case pk_chunks p of PList cs \<Rightarrow> validate_chunks cs | _ \<Rightarrow> Inr ())"
  by (simp add: validate_package_def package_to_dict_def present_simps PACKAGE_REQUIRED_def)

lemma schema_check:
  assumes "seal_package P L R i rid pcard payload dt meta = Inr pk"
  shows "validate_package (PDict (package_to_dict pk)) =
    (if length payload \<le> SINGLE_LIMIT then Inr () else Inl SchemaValidationError)"
proof -
  from assms obtain env chunks sealed m where e: "seal_for P L (sr_seal R) (sr_t1 R) (sr_t2 R) m pcard i = Inr env"
    and pk: "pk_envelope pk = PDict (env_to_dict env)" "pk_chunks pk = PList sealed"
    and big: "SINGLE_LIMIT < length payload \<Longrightarrow> create_chunked_transfer P L (sr_transfer R) payload CHUNK_SIZE default_transfer = Inr chunks \<and>
       res_map (seal_chunk P (sr_key R) (e_envelope_nonce env) (sr_nonces R)) (enumerate 0 chunks) = Inr sealed"
    and small: "length payload \<le> SINGLE_LIMIT \<Longrightarrow> sealed = []"
    by (rule seal_package_Inr) auto
  have c: "validate_package (PDict (package_to_dict pk)) = validate_chunks sealed"
    by (simp add: package_check pk envelope_passes sealed_version [OF e])
  show ?thesis
  proof (cases "length payload \<le> SINGLE_LIMIT")
    case False
    then have b: "create_chunked_transfer P L (sr_transfer R) payload CHUNK_SIZE default_transfer = Inr chunks"
      "list_all2 (\<lambda>c v. seal_chunk P (sr_key R) (e_envelope_nonce env) (sr_nonces R) c = Inr v) (enumerate 0 chunks) sealed"
      using big by (simp_all add: res_map_Inr_iff)
    obtain c0 cs where "chunks = c0 # cs" using create_nonempty [OF b(1)] by (cases chunks) auto
    with b(2) obtain v vs where "sealed = v # vs" "seal_chunk P (sr_key R) (e_envelope_nonce env) (sr_nonces R) (0, c0) = Inr v"
      by (auto simp: list_all2_Cons1)
    with False c show ?thesis by (simp add: sealed_chunk_fails)
  qed (simp add: c small)
qed

text \<open>The schema check accepts a package that the engine made if and only if it is in one piece: a payload above
  30 KiB travels in chunks, which are pairs of a ciphertext and a nonce, and the check takes each of them
  for an envelope.\<close>

theorem schema_accepts_unchunked:
  assumes "seal_package P L R i rid pcard payload dt meta = Inr pk"
  shows "validate_package (PDict (package_to_dict pk)) =
    (if length payload \<le> SINGLE_LIMIT then Inr () else Inl SchemaValidationError)"
  using assms by (rule schema_check)

theorem schema_accepts_unchunked_witness:
  "\<exists>pk. seal_package std_prims demo_lib std_random std_sender (entity_id std_receiver) (std_card std_receiver) [1, 2, 3] ''file'' [] = Inr pk \<and>
     validate_package (PDict (package_to_dict pk)) = Inr ()"
proof -
  obtain pk where pk: "seal_package std_prims demo_lib std_random std_sender (entity_id std_receiver) (std_card std_receiver)
      [1, 2, 3] ''file'' [] = Inr pk" using std_sealed [of "[1, 2, 3]"] by auto
  then show ?thesis using schema_accepts_unchunked [OF pk] by (intro exI [of _ pk] conjI) (simp_all add: SINGLE_LIMIT_def)
qed

end
