(* ===== verification/Browser.thy ===== *)
theory Browser
  imports SecureDispatch Schema
begin

text \<open>
  \<open>uxsp/wasm.py\<close> and \<open>uxsp/pyodide.py\<close>: the bridge through which a browser uses the workflow of \<open>uxsp/secure\<close>
  with JSON texts in and out. The bridge holds the identity of the browser, which it also puts into the
  global context. The test for the platform is not modelled.
\<close>

section \<open>The bridge\<close>

type_synonym ('k, 'n) bridge = "identity \<times> ('k, 'n) world"

definition card_of_text :: "string \<Rightarrow> public_card res" where
  \<comment> \<open>\<open>PublicCard.from_dict(json.loads(s))\<close>; what is no dictionary has no \<open>get\<close>\<close>
  "card_of_text s = rbind (loads s) (\<lambda>v. case v of PDict d \<Rightarrow> card_from_dict d | _ \<Rightarrow> Inl AttributeError)"

definition card_to_text :: "pylib \<Rightarrow> public_card \<Rightarrow> string" where
  "card_to_text L c = pretty (float_repr L) 0 (PDict (card_to_dict c))"

definition use_identity :: "pylib \<Rightarrow> identity \<Rightarrow> ('k, 'n) world \<Rightarrow> unit res \<times> ('k, 'n) world" where
  \<comment> \<open>\<open>secure.set_identity\<close>\<close>
  "use_identity L i = (\<lambda>(x, fs). case set_identity L i x of (r, x') \<Rightarrow> (r, x', fs))"

definition bridge_new :: "prims \<Rightarrow> pylib \<Rightarrow> fresh_identity \<Rightarrow> string \<Rightarrow> string \<Rightarrow> ('k, 'n) world \<Rightarrow> identity res \<times> ('k, 'n) world" where
  "bridge_new P L F name role w =
     (case identity_create P L (f_time F) (f_uuid F) (f_exchange F) (f_kem F) (f_signing F) (f_pqc F) name role of
        Inl e \<Rightarrow> (Inl e, w)
      | Inr i \<Rightarrow> and_then (use_identity L i w) (\<lambda>_ w1. (Inr i, w1)))"

definition get_public_card_json :: "pylib \<Rightarrow> identity \<Rightarrow> string res" where
  "get_public_card_json L i = rbind (own_card L i) (\<lambda>c. Inr (card_to_text L c))"

definition browser_args :: "public_card \<Rightarrow> identity \<Rightarrow> send_args" where
  "browser_args pc i = \<lparr>a_receiver_id = None, a_receiver = Some (PeerCard pc), a_sender_identity = None, a_sender = Some i,
     a_output_file = None, a_metadata = None\<rparr>"

definition sealed_text :: "pylib \<Rightarrow> (identity \<Rightarrow> public_card \<Rightarrow> ('k, 'n) world \<Rightarrow> package res \<times> ('k, 'n) world) \<Rightarrow> string \<Rightarrow>
    ('k, 'n) bridge \<Rightarrow> string res \<times> ('k, 'n) bridge" where
  \<comment> \<open>the frame of the three sealing methods: read the card, send, \<open>to_json\<close>\<close>
  "sealed_text L send card_json = (\<lambda>(i, w). case card_of_text card_json of
     Inl e \<Rightarrow> (Inl e, i, w)
   | Inr pc \<Rightarrow> (case send i pc w of (r, w1) \<Rightarrow> (rbind r (\<lambda>pk. Inr (package_to_json L False pk)), i, w1)))"

definition bridge_seal_text :: "prims \<Rightarrow> pylib \<Rightarrow> codecs \<Rightarrow> fresh_identity \<Rightarrow> send_random \<Rightarrow> string \<Rightarrow> string \<Rightarrow>
    ('k, 'n) bridge \<Rightarrow> string res \<times> ('k, 'n) bridge" where
  "bridge_seal_text P L C F R txt =
     sealed_text L (\<lambda>i pc. send_text P L C F R (browser_args pc i) (ItemStr txt) ''utf-8'')"

definition bridge_seal_binary :: "prims \<Rightarrow> pylib \<Rightarrow> fresh_identity \<Rightarrow> send_random \<Rightarrow> bytes \<Rightarrow> string \<Rightarrow>
    ('k, 'n) bridge \<Rightarrow> string res \<times> ('k, 'n) bridge" where
  "bridge_seal_binary P L F R data =
     sealed_text L (\<lambda>i pc. send_binary P L F R (browser_args pc i) (ItemBytes data) None ''application/octet-stream'')"

definition json_item :: "pyval \<Rightarrow> item" where
  "json_item v = (case v of PStr s \<Rightarrow> ItemStr s | PDict d \<Rightarrow> ItemJson v | PList vs \<Rightarrow> ItemJson v | _ \<Rightarrow> ItemOther)"

definition bridge_seal_json :: "prims \<Rightarrow> pylib \<Rightarrow> fresh_identity \<Rightarrow> send_random \<Rightarrow> string \<Rightarrow> string \<Rightarrow>
    ('k, 'n) bridge \<Rightarrow> string res \<times> ('k, 'n) bridge" where
  "bridge_seal_json P L F R data_json card_json = (\<lambda>(i, w). case card_of_text card_json of
     Inl e \<Rightarrow> (Inl e, i, w)
   | Inr pc \<Rightarrow> (case loads data_json of
       Inl e \<Rightarrow> (Inl e, i, w)
     | Inr v \<Rightarrow> sealed_text L (\<lambda>i pc. send_json P L F R (browser_args pc i) (json_item v)) card_json (i, w)))"

definition open_args :: "pylib \<Rightarrow> identity \<Rightarrow> string \<Rightarrow> string option \<Rightarrow> receive_args res" where
  \<comment> \<open>the package and, if a card is given and not empty, the sender\<close>
  "open_args L i package_json sender_json =
     rbind (rbind (loads package_json) (package_from_dict L)) (\<lambda>pk.
     rbind (case sender_json of
         Some s \<Rightarrow> if s = [] then Inr None else rbind (card_of_text s) (\<lambda>c. Inr (Some (PeerCard c)))
       | None \<Rightarrow> Inr None) (\<lambda>snd.
     Inr \<lparr>b_sender_id = None, b_sender = snd, b_sender_card = None, b_receiver_identity = None, b_receiver = Some i,
       b_package = InPackage pk, b_download = None\<rparr>))"

definition opened :: "pylib \<Rightarrow> (receive_args \<Rightarrow> ('k, 'n) world \<Rightarrow> 'a res \<times> ('k, 'n) world) \<Rightarrow> string \<Rightarrow> string option \<Rightarrow>
    ('k, 'n) bridge \<Rightarrow> 'a res \<times> ('k, 'n) bridge" where
  "opened L receive package_json sender_json = (\<lambda>(i, w). case open_args L i package_json sender_json of
     Inl e \<Rightarrow> (Inl e, i, w) | Inr b \<Rightarrow> (case receive b w of (r, w1) \<Rightarrow> (r, i, w1)))"

definition bridge_open_text :: "prims \<Rightarrow> pylib \<Rightarrow> codecs \<Rightarrow> fresh_identity \<Rightarrow> (nat \<Rightarrow> time) \<Rightarrow> string \<Rightarrow> string option \<Rightarrow>
    ('k, 'n) bridge \<Rightarrow> string res \<times> ('k, 'n) bridge" where
  "bridge_open_text P L C F t = opened L (receive_text P L C (\<lambda>_. False) F t)"

definition bridge_open_binary :: "prims \<Rightarrow> pylib \<Rightarrow> fresh_identity \<Rightarrow> (nat \<Rightarrow> time) \<Rightarrow> string \<Rightarrow> string option \<Rightarrow>
    ('k, 'n) bridge \<Rightarrow> bytes res \<times> ('k, 'n) bridge" where
  "bridge_open_binary P L F t = opened L (receive_binary P L (\<lambda>_. False) F t)"

definition bridge_open_json :: "prims \<Rightarrow> pylib \<Rightarrow> codecs \<Rightarrow> fresh_identity \<Rightarrow> (nat \<Rightarrow> time) \<Rightarrow> string \<Rightarrow> string option \<Rightarrow>
    ('k, 'n) bridge \<Rightarrow> string res \<times> ('k, 'n) bridge" where
  "bridge_open_json P L C F t package_json sender_json b =
     and_then (opened L (receive_json P L C (\<lambda>_. False) F t) package_json sender_json b) (\<lambda>v b1.
       (Inr (dumps (float_repr L) False v), b1))"

definition bridge_rotate_keys :: "prims \<Rightarrow> pylib \<Rightarrow> fresh_identity \<Rightarrow> ('k, 'n) bridge \<Rightarrow> string res \<times> ('k, 'n) bridge" where
  \<comment> \<open>the identity of the context is the same object, so it changes with the bridge's\<close>
  "bridge_rotate_keys P L F = (\<lambda>(i, x, fs).
     case rotate_keys P L (f_time F) (f_exchange F) (f_kem F) (f_signing F) (f_pqc F) i of
       (Inl e, i1) \<Rightarrow> (Inl e, i1, x\<lparr>x_identity := Some i1\<rparr>, fs)
     | (Inr _, i1) \<Rightarrow> (case use_identity L i1 (x, fs) of
         (r, w1) \<Rightarrow> (rbind r (\<lambda>_. get_public_card_json L i1), i1, w1)))"

definition bridge_validate :: "string \<Rightarrow> bool" where
  "bridge_validate package_json = is_ok (rbind (loads package_json) validate_package)"

text \<open>\<open>pyodide.py\<close>: one bridge for the page, made when it is first needed.\<close>

definition get_bridge :: "prims \<Rightarrow> pylib \<Rightarrow> fresh_identity \<Rightarrow> string \<Rightarrow> string \<Rightarrow> identity option \<Rightarrow> ('k, 'n) world \<Rightarrow>
    identity res \<times> ('k, 'n) world" where
  "get_bridge P L F name role instance w = (case instance of Some i \<Rightarrow> (Inr i, w) | None \<Rightarrow> bridge_new P L F name role w)"

definition js_call :: "prims \<Rightarrow> pylib \<Rightarrow> fresh_identity \<Rightarrow> (('k, 'n) bridge \<Rightarrow> 'a res \<times> ('k, 'n) bridge) \<Rightarrow>
    identity option \<Rightarrow> ('k, 'n) world \<Rightarrow> 'a res \<times> identity option \<times> ('k, 'n) world" where
  \<comment> \<open>\<open>js_seal_text\<close> and \<open>js_open_text\<close>\<close>
  "js_call P L F f instance w = (case get_bridge P L F ''BrowserClient'' ''CLIENT'' instance w of
     (Inl e, w1) \<Rightarrow> (Inl e, instance, w1)
   | (Inr i, w1) \<Rightarrow> (case f (i, w1) of (r, i1, w2) \<Rightarrow> (r, Some i1, w2)))"

section \<open>Lemmas\<close>

lemma card_text_back: "card_ok c \<Longrightarrow> card_of_text (card_to_text L c) = Inr c"
  using card_dict_json_ok [of c]
  by (simp add: card_of_text_def card_to_text_def loads_pretty card_dict_back card_ok_def del: pretty.simps json_ok.simps)

lemma package_text_back:
  assumes "package_ok pk"
  shows "loads (package_to_json L False pk) = Inr (PDict (package_to_dict pk))"
  using package_dict_json_ok [OF assms] by (simp add: package_to_json_def loads_dumps del: dumps.simps json_ok.simps)

lemma browser_direct: "direct_send (browser_args pc i) i pc"
  by (simp add: direct_send_def browser_args_def)

lemma sealed_text_Inr:
  assumes "bridge_seal_text P L C F R txt card_json (i, x, fs) = (Inr s, b')" and "card_of_text card_json = Inr cj"
    and "c_entity_id cj = entity_id j" and "x_hook x = None"
  obtains payload pk where "pack_text L C txt ''utf-8'' = Inr payload"
    "seal_package P L R i (entity_id j) cj payload ''text'' [] = Inr pk" "s = package_to_json L False pk" "b' = (i, x, fs)"
proof -
  obtain r w1 where r: "send_text P L C F R (browser_args cj i) (ItemStr txt) ''utf-8'' (x, fs) = (r, w1)" by (rule prod.exhaust)
  with assms(1,2) obtain pk where pk: "r = Inr pk" "s = package_to_json L False pk" "b' = (i, w1)"
    by (auto simp: bridge_seal_text_def sealed_text_def res_Inr_iffs)
  with r obtain payload where p: "pack_text L C txt ''utf-8'' = Inr payload"
      "send_with P L F R (browser_args cj i) payload ''text'' (x, fs) = (Inr pk, w1)"
    by (auto simp: send_text_def send_packed_Inr)
  have "seal_package P L R i (entity_id j) cj payload ''text'' [] = Inr pk" "w1 = (x, fs)"
    using send_with_direct [OF browser_direct assms(3,4) p(2)] by (simp_all add: browser_args_def)
  with p(1) pk that show ?thesis by blast
qed

text \<open>C33: Two browsers: a text that the bridge of one seals for the card of the other is a JSON text from which the
  bridge of the other, given the card of the first, opens the same text, if the clock is honest; sealing
  changes nothing of the bridge. But the validation that the bridge offers for such texts accepts it only if
  the packed text is at most 30 KiB long.\<close>

theorem browser_text_roundtrip:
  assumes "crypto_laws P" and "parties_ok P i ci j cj" and "random_ok R" and "timely L ci R t"
    and "\<forall>raw. encode_with C ''utf-8'' txt = Inr raw \<longrightarrow> decode_with C ''utf-8'' raw = Inr txt"
    and "card_of_text cj_json = Inr cj" and "card_of_text ci_json = Inr ci" and "ci_json \<noteq> []" and "x_hook x = None"
    and "bridge_seal_text P L C F R txt cj_json (i, x, fs) = (Inr s, b')"
    and "x_guard y = memory_guard st" and "room_for 1 st" and "mem_tracked st (nonce_of R) = None"
  shows "b' = (i, x, fs) \<and> fst (bridge_open_text P L C F' t s (Some ci_json) (j, y, fs')) = Inr txt \<and>
    (\<exists>payload. pack_text L C txt ''utf-8'' = Inr payload \<and> (bridge_validate s \<longleftrightarrow> length payload \<le> SINGLE_LIMIT))"
proof -
  have cj: "c_entity_id cj = entity_id j" using assms(2) by (simp add: parties_ok_def)
  obtain payload pk where p: "pack_text L C txt ''utf-8'' = Inr payload"
      "seal_package P L R i (entity_id j) cj payload ''text'' [] = Inr pk" "s = package_to_json L False pk" "b' = (i, x, fs)"
    by (rule sealed_text_Inr [OF assms(10,6) cj assms(9)])
  have l: "loads s = Inr (PDict (package_to_dict pk))"
    using package_text_back [OF seal_package_ok [OF p(2) assms(1,3)]] by (simp add: p(3))
  let ?b = "\<lparr>b_sender_id = None, b_sender = Some (PeerCard ci), b_sender_card = None, b_receiver_identity = None, b_receiver = Some j,
       b_package = InPackage pk, b_download = None\<rparr>"
  have a: "open_args L j s (Some ci_json) = Inr ?b"
    using assms(7,8) by (simp add: open_args_def l package_from_to_dict)
  have "direct_receive ?b j ci" by (simp add: direct_receive_def)
  then obtain s2 where "receive_with P L F' t ?b (Some ''text'') (y, fs') = (Inr payload, y\<lparr>x_guard := memory_guard s2\<rparr>, fs')"
    using exchange_payload [OF assms(1-4) p(2) _ assms(11-13), of ?b F' fs'] by fastforce
  moreover have "unpack_text C payload = Inr txt"
    using payload_roundtrip [of C "''utf-8''" "txt" L] assms(5) p(1) by simp
  ultimately have "fst (bridge_open_text P L C F' t s (Some ci_json) (j, y, fs')) = Inr txt"
    by (simp add: bridge_open_text_def opened_def a receive_text_def after_receive_def keep_copy_def)
  moreover have "bridge_validate s \<longleftrightarrow> length payload \<le> SINGLE_LIMIT"
    using schema_check [OF p(2)] by (simp add: bridge_validate_def l)
  ultimately show ?thesis using p(1,4) by blast
qed

lemma std_card_ok: "card_ok (std_card i) \<longleftrightarrow> keys_distinct (i_pub i)"
proof -
  have "validate_role ''USER'' = Inr ''USER''" by code_simp
  then show ?thesis by (simp add: card_ok_def std_card_def demo_card_def)
qed

lemma std_cards_text:
  "card_of_text (card_to_text L (std_card std_sender)) = Inr (std_card std_sender)"
  "card_of_text (card_to_text L (std_card std_receiver)) = Inr (std_card std_receiver)"
  by (rule card_text_back, simp add: std_card_ok std_sender_def std_receiver_def demo_identity_def demo_recipient_def demo_pubkeys_def)+

lemma demo_codecs_law: "\<forall>raw. encode_with demo_codecs ''utf-8'' s = Inr raw \<longrightarrow> decode_with demo_codecs ''utf-8'' raw = Inr s"
  by (simp add: demo_codecs_def)

lemma card_text_nonempty: "card_to_text L c \<noteq> []"
  by (simp add: card_to_text_def card_to_dict_def)

theorem browser_text_roundtrip_witness:
  "\<exists>s. fst (bridge_seal_text std_prims demo_lib demo_codecs std_fresh (std_randoms 0) ''hello''
       (card_to_text demo_lib (std_card std_receiver)) (std_sender, std_world)) = Inr s \<and> bridge_validate s \<and>
     fst (bridge_open_text std_prims demo_lib demo_codecs std_fresh (\<lambda>_. 1700000010) s
       (Some (card_to_text demo_lib (std_card std_sender))) (std_receiver, std_world)) = Inr ''hello''"
proof -
  let ?p = "\<lparr>p_kind = ''text'', p_body = utf8 ''hello'', p_filename = None, p_content_type = ''text/plain'', p_encoding = Some ''utf-8''\<rparr>"
  have u: "length (utf8 ''hello'') \<le> 10" by code_simp
  obtain b where b: "payload_to_bytes demo_lib ?p = Inr b" "length b \<le> 28098"
    using payload_short [of ?p demo_lib] u by auto
  have t: "pack_text demo_lib demo_codecs ''hello'' ''utf-8'' = Inr b" using b(1) by (simp add: pack_text_def demo_codecs_def)
  obtain pk where "send_with std_prims demo_lib std_fresh (std_randoms 0) (browser_args (std_card std_receiver) std_sender) b ''text'' std_world =
      (Inr pk, std_world)"
    using std_send_with [OF b(2) browser_direct, of "context_init ''/home''" std_fresh 0 "''text''"]
    by (auto simp: browser_args_def context_init_def)
  then have s: "bridge_seal_text std_prims demo_lib demo_codecs std_fresh (std_randoms 0) ''hello''
       (card_to_text demo_lib (std_card std_receiver)) (std_sender, std_world) = (Inr (package_to_json demo_lib False pk), std_sender, std_world)"
    by (simp add: bridge_seal_text_def sealed_text_def std_cards_text send_text_def send_packed_def t)
  have "(std_sender, std_world) = (std_sender, std_world) \<and> fst (bridge_open_text std_prims demo_lib demo_codecs std_fresh (\<lambda>_. 1700000010)
       (package_to_json demo_lib False pk) (Some (card_to_text demo_lib (std_card std_sender))) (std_receiver, std_world)) = Inr ''hello'' \<and>
    (\<exists>payload. pack_text demo_lib demo_codecs ''hello'' ''utf-8'' = Inr payload \<and>
      (bridge_validate (package_to_json demo_lib False pk) \<longleftrightarrow> length payload \<le> SINGLE_LIMIT))"
    by (rule browser_text_roundtrip [OF std_laws std_parties std_randoms_ok demo_codecs_law std_cards_text(2,1) card_text_nonempty _ s std_context])
      (simp_all add: context_init_def room_for_def mem_inv_init mem_init_empty Suc_leI)
  then show ?thesis using s t b(2) by (auto simp: SINGLE_LIMIT_def)
qed

end
