(* ===== verification/IdentityFiles.thy ===== *)
theory IdentityFiles
  imports Signing SecureTypes JsonIndent
begin

text \<open>
  The files that \<open>uxsp/core/identity.py\<close> and \<open>uxsp/core/signing.py\<close> write and read: identities and trust
  anchors encrypted under a password, and trust stores. A file is written to a temporary name and then
  renamed, which is one step here; making directories, file modes and failures of the disk are left out.
  A path is text in the normal form of \<open>pathlib\<close>. The lemmas show that what is saved is loaded again.
\<close>

section \<open>Identities\<close>

definition from_encrypted_value :: "prims \<Rightarrow> pylib \<Rightarrow> time \<Rightarrow> pyval \<Rightarrow> string \<Rightarrow> identity res" where
  \<comment> \<open>\<open>from_encrypted_dict\<close> of parsed JSON, which need not be a dictionary\<close>
  "from_encrypted_value P L now v password =
     (case v of PDict d \<Rightarrow> from_encrypted_dict P L now d password | _ \<Rightarrow> Inl ValueError)"

definition to_encrypted_json :: "prims \<Rightarrow> pylib \<Rightarrow> bytes \<Rightarrow> bytes \<Rightarrow> string \<Rightarrow> bool \<Rightarrow> identity \<Rightarrow> string res" where
  \<comment> \<open>\<open>indented\<close>: an indentation of 2 instead of none\<close>
  "to_encrypted_json P L salt nonce password indented i =
     rbind (to_encrypted_dict P L salt nonce password i) (\<lambda>d.
     Inr (if indented then pretty (float_repr L) 0 (PDict d) else dumps (float_repr L) False (PDict d)))"

definition from_encrypted_json :: "prims \<Rightarrow> pylib \<Rightarrow> time \<Rightarrow> string + bytes \<Rightarrow> string \<Rightarrow> identity res" where
  \<comment> \<open>every error of the parser becomes a \<open>ValueError\<close>, but not that of the decoding\<close>
  "from_encrypted_json P L now text password =
     rbind (case text of Inl s \<Rightarrow> Inr s | Inr b \<Rightarrow> decode_utf8 b) (\<lambda>s.
     rbind (rescue (\<lambda>_. True) ValueError (loads s)) (\<lambda>v. from_encrypted_value P L now v password))"

definition read_json :: "string \<Rightarrow> files \<Rightarrow> pyval res" where
  \<comment> \<open>\<open>with open(path) as f: json.load(f)\<close>\<close>
  "read_json path fs = (case fs path of None \<Rightarrow> Inl OSError | Some b \<Rightarrow> loads_bytes b)"

definition json_file :: "pylib \<Rightarrow> dict \<Rightarrow> bytes" where
  \<comment> \<open>what \<open>json.dump(d, f, indent=2)\<close> leaves in the file\<close>
  "json_file L d = utf8 (pretty (float_repr L) 0 (PDict d))"

definition identity_save :: "prims \<Rightarrow> pylib \<Rightarrow> bytes \<Rightarrow> bytes \<Rightarrow> string \<Rightarrow> string \<Rightarrow> identity \<Rightarrow> files \<Rightarrow> unit res \<times> files" where
  "identity_save P L salt nonce path password i fs =
     (case to_encrypted_dict P L salt nonce password i of
        Inl e \<Rightarrow> (Inl e, fs)
      | Inr d \<Rightarrow> (Inr (), fs(path \<mapsto> json_file L d)))"

definition identity_load :: "prims \<Rightarrow> pylib \<Rightarrow> time \<Rightarrow> string \<Rightarrow> string \<Rightarrow> files \<Rightarrow> identity res" where
  "identity_load P L now path password fs =
     rbind (read_json path fs) (\<lambda>v. from_encrypted_value P L now v password)"

section \<open>Trust anchors and trust stores\<close>

definition anchor_save :: "prims \<Rightarrow> pylib \<Rightarrow> bytes \<Rightarrow> bytes \<Rightarrow> string \<Rightarrow> string \<Rightarrow> identity \<Rightarrow> files \<Rightarrow> unit res \<times> files" where
  "anchor_save P L salt nonce path password i fs = identity_save P L salt nonce path password i fs"

definition anchor_load :: "prims \<Rightarrow> pylib \<Rightarrow> time \<Rightarrow> string \<Rightarrow> string \<Rightarrow> files \<Rightarrow> identity res" where
  \<comment> \<open>the role of the identity is not looked at\<close>
  "anchor_load P L now path password fs = identity_load P L now path password fs"

definition store_save :: "pylib \<Rightarrow> string \<Rightarrow> trust_store \<Rightarrow> files \<Rightarrow> files" where
  \<comment> \<open>the lock file is opened for appending, so that it exists afterwards, and stays\<close>
  "store_save L path s fs =
     (let lock_path = path @ ''.lock'';
          fs1 = fs(lock_path \<mapsto> (case fs lock_path of None \<Rightarrow> [] | Some b \<Rightarrow> b))
      in fs1(path \<mapsto> json_file L (store_to_dict s)))"

definition store_open :: "time \<Rightarrow> string \<Rightarrow> files \<Rightarrow> trust_store res" where
  "store_open now path fs = rbind (read_json path fs) (store_load now)"

section \<open>Lemmas: parsing what was written\<close>

lemma read_json_file:
  assumes "fs path = Some (json_file L d)" and "json_ok (PDict d)"
  shows "read_json path fs = Inr (PDict d)"
  using loads_bytes_pretty [OF assms(2), of "float_repr L"] assms(1) by (simp only: read_json_def json_file_def option.case)

lemma hex_keys_ok: "json_ok (PDict (hex_keys ks)) = keys_distinct ks"
proof -
  have "map fst (hex_keys ks) = map fst ks \<and> (\<forall>q \<in> set (hex_keys ks). json_ok (snd q))"
    by (induction ks) (auto simp: hex_keys_def split: prod.splits)
  then show ?thesis by simp
qed

lemma encrypted_json_ok:
  assumes "to_encrypted_dict P L salt nonce pw i = Inr d"
  shows "json_ok (PDict d)"
  using assms by (auto simp: to_encrypted_dict_def public_dict_def res_Inr_iffs Let_def hex_keys_def simp del: dumps.simps
      split: prod.splits option.splits)

lemma anchor_json_ok: "keys_distinct (a_public_keys a) \<Longrightarrow> json_ok (PDict (anchor_to_dict a))"
  using hex_keys_ok [of "a_public_keys a"] by (simp add: anchor_to_dict_def del: json_ok.simps(3)) simp

lemma anchor_dict_back: "anchor_from_dict (anchor_to_dict a) = Inr a"
  by (simp add: anchor_from_dict_def anchor_to_dict_def parse_hex_keys)

lemma signed_json_ok: "keys_distinct (c_public_keys (sc_card sc)) \<Longrightarrow> json_ok (PDict (signed_to_dict sc))"
  using card_dict_json_ok [of "sc_card sc"] by (simp add: signed_to_dict_def)

lemma signed_dict_back: "card_ok (sc_card sc) \<Longrightarrow> signed_from_dict (signed_to_dict sc) = Inr sc"
  by (simp add: signed_from_dict_def signed_to_dict_def card_dict_back)

section \<open>Lemmas: saving and loading\<close>

text \<open>An identity that is loaded has every attribute and key of the one saved; only the names of the two
  post-quantum algorithms are lost from its key pair, which makes \<open>reloaded i\<close>.\<close>

definition reloaded :: "identity \<Rightarrow> identity" where
  "reloaded i = i\<lparr>keypair := drop_algorithms (keypair i)\<rparr>"

lemma reloaded_simps [simp]:
  "entity_id (reloaded i) = entity_id i" "i_name (reloaded i) = i_name i" "i_role (reloaded i) = i_role i"
  "i_created_at (reloaded i) = i_created_at i" "i_key_version (reloaded i) = i_key_version i"
  "i_pub (reloaded i) = i_pub i" "keys_rotated_at (reloaded i) = keys_rotated_at i"
  by (simp_all add: reloaded_def)

lemma identity_file_back:
  assumes "aead_laws P" and "argon2_law P" and "identity_ok P i" and "8 \<le> length salt" and "length nonce = NONCE_SIZE"
  shows "\<exists>b. identity_save P L salt nonce path pw i fs = (Inr (), fs(path \<mapsto> b)) \<and>
    (\<forall>now fs'. fs' path = Some b \<longrightarrow> identity_load P L now path pw fs' = Inr (reloaded i))"
proof -
  obtain d where d: "to_encrypted_dict P L salt nonce pw i = Inr d"
    using encrypted_roundtrip [OF assms] by blast
  have "from_encrypted_dict P L now d pw = Inr (reloaded i)" for now
    using encrypted_roundtrip [OF assms, of L pw now] d by (simp add: reloaded_def)
  then have "identity_load P L now path pw fs' = Inr (reloaded i)"
    if "fs' path = Some (json_file L d)" for now fs'
    using read_json_file [of fs' path, OF that encrypted_json_ok [OF d]] by (simp add: identity_load_def from_encrypted_value_def)
  then show ?thesis using d by (intro exI [of _ "json_file L d"]) (simp add: identity_save_def)
qed

lemma reloaded_signs: 
  assumes "is_keypair P (keypair i) pks"
  shows "hybrid_sign P rnd m (keypair (reloaded i)) = hybrid_sign P rnd m (keypair i)"
proof -
  obtain ssk qsk where "private_key (keypair i) ''signing'' = Inr ssk" "private_key (keypair i) ''pqc_sig'' = Inr qsk"
    by (rule is_keypairE [OF assms])
  then have "private_key (drop_algorithms (keypair i)) k = private_key (keypair i) k" if "k = ''signing'' \<or> k = ''pqc_sig''" for k
    using that by (auto simp: drop_algorithms_def private_key_def [of "_ # _"])
  then show ?thesis by (simp add: hybrid_sign_def reloaded_def)
qed

lemma reloaded_issues:
  "is_keypair P (keypair i) pks \<Longrightarrow> issue P rnd now cid c days start (reloaded i) = issue P rnd now cid c days start i"
  by (simp add: issue_def reloaded_signs)

lemma store_file_back:
  assumes "store_ok s" and "\<forall>(k, a) \<in> set (anchors s). keys_distinct (a_public_keys a)"
    and "\<forall>(k, d) \<in> set (revoked_certs s). json_ok (PDict d)"
  shows "store_open now path (store_save L path s fs) =
    Inr \<lparr>anchors = anchors s, revoked_certs = map (\<lambda>(cid, info). (cid, stored_info now info)) (revoked_certs s)\<rparr>"
proof -
  have "json_ok (PDict (map (\<lambda>(k, d). (k, PDict d)) (revoked_certs s)))"
    using assms(1,3) by (auto simp: store_ok_def comp_def case_prod_unfold)
  moreover have "json_ok (PList (map (\<lambda>(_, a). PDict (anchor_to_dict a)) (anchors s)))"
    using assms(2) anchor_json_ok by (auto simp del: json_ok.simps(3))
  ultimately have "json_ok (PDict (store_to_dict s))" by (simp add: store_to_dict_def)
  then have "read_json path (store_save L path s fs) = Inr (PDict (store_to_dict s))"
    by (intro read_json_file [of _ _ L]) (simp_all add: store_save_def Let_def)
  then show ?thesis by (simp add: store_open_def store_load_eq [OF assms(1)])
qed

end
