(* ===== verification/Accounts.thy ===== *)
theory Accounts
  imports Aio IdentityFiles
begin

text \<open>
  The helpers of accounts: the password hashes of \<open>uxsp/crypto/kdf.py\<close>, with the hasher of the package
  argon2 as a parameter, and the functions of \<open>uxsp/secure/_identity_helpers.py\<close> and \<open>uxsp/aio/secure.py\<close>
  that create identities and rotate their keys. The asynchronous ones run the same code in a thread.
\<close>

section \<open>Password hashes\<close>

datatype verdict = Verified | Rejected | Broken exn
  \<comment> \<open>\<open>Rejected\<close>: one of the three exceptions that mean that the password or the hash is wrong\<close>

record hasher =
  h_hash :: "bytes \<Rightarrow> string \<Rightarrow> string"  \<comment> \<open>the random salt is an argument\<close>
  h_verify :: "string \<Rightarrow> string \<Rightarrow> verdict"
  h_outdated :: "string \<Rightarrow> bool res"

definition argon2id_hash :: "hasher \<Rightarrow> bytes \<Rightarrow> pyval \<Rightarrow> string res" where
  "argon2id_hash H salt password = (case password of PStr pw \<Rightarrow> Inr (h_hash H salt pw) | _ \<Rightarrow> Inl TypeError)"

definition argon2id_verify :: "hasher \<Rightarrow> pyval \<Rightarrow> pyval \<Rightarrow> bool res" where
  "argon2id_verify H stored_hash password =
     (case (stored_hash, password) of
        (PStr h, PStr pw) \<Rightarrow> (case h_verify H h pw of Verified \<Rightarrow> Inr True | Rejected \<Rightarrow> Inr False | Broken e \<Rightarrow> Inl e)
      | _ \<Rightarrow> Inl TypeError)"

definition argon2id_needs_rehash :: "hasher \<Rightarrow> pyval \<Rightarrow> bool res" where
  "argon2id_needs_rehash H stored_hash = (case stored_hash of PStr h \<Rightarrow> h_outdated H h | _ \<Rightarrow> Inl TypeError)"

definition hasher_law :: "hasher \<Rightarrow> bool" where
  \<comment> \<open>\<open>verify\<close> accepts what \<open>hash\<close> made of the password, and of no other\<close>
  "hasher_law H \<longleftrightarrow> (\<forall>salt pw pw'. h_verify H (h_hash H salt pw) pw' = (if pw' = pw then Verified else Rejected))"

lemma argon2id_verify_hash:
  assumes "hasher_law H" and "argon2id_hash H salt (PStr pw) = Inr h"
  shows "argon2id_verify H (PStr h) (PStr pw') = Inr (pw' = pw)"
  using assms by (auto simp: hasher_law_def argon2id_hash_def argon2id_verify_def)

section \<open>Identities\<close>

definition create_identity :: "prims \<Rightarrow> pylib \<Rightarrow> fresh_identity \<Rightarrow> string \<Rightarrow> string \<Rightarrow> identity res" where
  "create_identity P L F name role =
     identity_create P L (f_time F) (f_uuid F) (f_exchange F) (f_kem F) (f_signing F) (f_pqc F) name role"

definition rotated_keys :: "prims \<Rightarrow> pylib \<Rightarrow> fresh_identity \<Rightarrow> identity \<Rightarrow> unit res \<times> identity" where
  \<comment> \<open>\<open>ident.rotate_keys()\<close>, which changes the object\<close>
  "rotated_keys P L G i = Identity.rotate_keys P L (f_time G) (f_exchange G) (f_kem G) (f_signing G) (f_pqc G) i"

definition rotate_own_keys :: "prims \<Rightarrow> pylib \<Rightarrow> fresh_identity \<Rightarrow> fresh_identity \<Rightarrow> ('k, 'n) ctx \<Rightarrow> identity res \<times> ('k, 'n) ctx" where
  \<comment> \<open>\<open>rotate_keys(None)\<close>; the identity of the context is the object that is changed\<close>
  "rotate_own_keys P L F G x =
     and_then (get_identity P L F x) (\<lambda>i x1.
       case rotated_keys P L G i of
         (Inl e, i1) \<Rightarrow> (Inl e, x1\<lparr>x_identity := Some i1\<rparr>)
       | (Inr _, i1) \<Rightarrow> and_then (set_identity L i1 x1) (\<lambda>_ x2. (Inr i1, x2)))"

definition async_rotate_own_keys :: "prims \<Rightarrow> pylib \<Rightarrow> fresh_identity \<Rightarrow> fresh_identity \<Rightarrow> ('k, 'n) actx \<Rightarrow>
    identity res \<times> ('k, 'n) actx" where
  "async_rotate_own_keys P L F G y =
     and_then (async_get_identity P L F y) (\<lambda>i y1.
       case rotated_keys P L G i of
         (Inl e, i1) \<Rightarrow> (Inl e, with_identity i1 y1)
       | (Inr _, i1) \<Rightarrow> and_then (async_set_identity L i1 y1) (\<lambda>_ y2. (Inr i1, y2)))"

lemma rotated_keys_Inr:
  assumes "rotated_keys P L G i = (Inr u, i1)"
  obtains kp pub where "generate_hybrid_keypair P (f_exchange G) (f_kem G) (f_signing G) (f_pqc G) = Inr kp"
    "extract_public_keys kp = Inr pub"
    "i1 = i\<lparr>keypair := kp, i_pub := pub, i_key_version := i_key_version i + 1, keys_rotated_at := Some (isoformat L (f_time G))\<rparr>"
  using assms by (auto simp: rotated_keys_def Identity.rotate_keys_def Let_def split: sum.splits)

text \<open>Rotating the keys of a good identity gives a good one with the same id, the next version and the new keys.\<close>

lemma rotation_ok:
  assumes "identity_ok P i" and "rotated_keys P L G i = (Inr u, i1)" and "acceptable_keys P (f_exchange G) (f_kem G) (f_signing G) (f_pqc G)"
  shows "identity_ok P i1 \<and> entity_id i1 = entity_id i \<and> i_key_version i1 = i_key_version i + 1"
proof (rule rotated_keys_Inr [OF assms(2)])
  fix kp pub
  assume k: "generate_hybrid_keypair P (f_exchange G) (f_kem G) (f_signing G) (f_pqc G) = Inr kp" "extract_public_keys kp = Inr pub"
    and i1: "i1 = i\<lparr>keypair := kp, i_pub := pub, i_key_version := i_key_version i + 1, keys_rotated_at := Some (isoformat L (f_time G))\<rparr>"
  have "is_keypair P kp pub" unfolding is_keypair_def using k assms(3) by blast
  then show ?thesis using assms(1) by (simp add: i1 identity_ok_def)
qed

lemma rotate_own_keys_Inr:
  assumes "rotate_own_keys P L F G x = (Inr i1, x')" and "x_identity x = Some i"
  shows "x_identity x' = Some i1 \<and> rotated_keys P L G i = (Inr (), i1)"
  using assms by (auto simp: rotate_own_keys_def get_identity_def and_then_def set_identity_def put_own_def put_card_def
      split: prod.splits sum.splits option.splits)

end
