(* ===== verification/Cli.thy ===== *)
theory Cli
  imports IdentityFiles
begin

text \<open>
  \<open>uxsp/cli\<close>: the command \<open>uxsp\<close>. What \<open>argparse\<close> makes of the command line is a value of \<open>command\<close>. A
  command works on the files and on standard output, and ends by returning, by an exception, which \<open>main\<close>
  turns into exit status 1, or by \<open>sys.exit\<close>. What the user types, the clock and all randomness are fields
  of the environment, and so is which paths can be written: a write to any other path raises \<open>OSError\<close>.
  Standard error is left out, and so is the effect of calls that always fail, because a method, an argument
  or a protocol is missing; that they fail is computed from the lists of what the classes and functions have.
\<close>

section \<open>Commands\<close>

record cli_env =
  ev_prims :: prims
  ev_lib :: pylib
  ev_codecs :: codecs
  ev_guess :: "string \<Rightarrow> string option"  \<comment> \<open>MIME guessing\<close>
  ev_typed :: "nat \<Rightarrow> string"  \<comment> \<open>what \<open>getpass\<close> returns, call by call\<close>
  ev_password :: "string option"  \<comment> \<open>the variable \<open>UXSP_PASSWORD\<close>\<close>
  ev_cwd :: string
  ev_writable :: "string \<Rightarrow> bool"
  ev_version :: string
  ev_fresh :: fresh_identity
  ev_now :: time
  ev_salt :: bytes
  ev_nonce :: bytes
  ev_sign :: bytes
  ev_cert :: string
  ev_send :: "nat \<Rightarrow> send_random"

datatype stop = Raised exn | Exited int

record cli_state =
  cl_files :: files
  cl_out :: "string list"  \<comment> \<open>the lines on standard output\<close>

type_synonym 'a cmd = "cli_state \<Rightarrow> (stop + 'a) \<times> cli_state"

definition cmd_return :: "'a \<Rightarrow> 'a cmd" where
  "cmd_return x s = (Inr x, s)"

definition cmd_bind :: "'a cmd \<Rightarrow> ('a \<Rightarrow> 'b cmd) \<Rightarrow> 'b cmd" where
  "cmd_bind m f s = (case m s of (Inl e, s1) \<Rightarrow> (Inl e, s1) | (Inr x, s1) \<Rightarrow> f x s1)"

definition halt :: "stop \<Rightarrow> 'a cmd" where
  "halt e s = (Inl e, s)"

definition of_res :: "'a res \<Rightarrow> 'a cmd" where
  "of_res r s = (case r of Inl e \<Rightarrow> (Inl (Raised e), s) | Inr x \<Rightarrow> (Inr x, s))"

definition look :: "(files \<Rightarrow> 'a res) \<Rightarrow> 'a cmd" where
  "look f s = of_res (f (cl_files s)) s"

definition change :: "(files \<Rightarrow> 'a res \<times> files) \<Rightarrow> 'a cmd" where
  "change f s = (case f (cl_files s) of (r, fs) \<Rightarrow> of_res r (s\<lparr>cl_files := fs\<rparr>))"

definition if_writable :: "cli_env \<Rightarrow> string \<Rightarrow> (files \<Rightarrow> 'a res \<times> files) \<Rightarrow> files \<Rightarrow> 'a res \<times> files" where
  \<comment> \<open>a call that ends by writing the path; the files are written whole, under a temporary name, or opened first\<close>
  "if_writable E path f fs =
     (case f fs of (Inl e, fs') \<Rightarrow> (Inl e, fs)
      | (Inr x, fs') \<Rightarrow> if ev_writable E path then (Inr x, fs') else (Inl OSError, fs))"

definition write_bytes :: "cli_env \<Rightarrow> string \<Rightarrow> bytes \<Rightarrow> unit cmd" where
  "write_bytes E path b = change (if_writable E path (\<lambda>fs. (Inr (), fs(path \<mapsto> b))))"

definition say :: "string \<Rightarrow> unit cmd" where
  "say l s = (Inr (), s\<lparr>cl_out := cl_out s @ [l]\<rparr>)"

section \<open>Paths and passwords\<close>

definition path_root :: "string \<Rightarrow> string" where
  \<comment> \<open>two slashes at the start are kept, three or more count as one\<close>
  "path_root s = (if starts_with ''/'' s then (if starts_with ''//'' s \<and> \<not> starts_with ''///'' s then ''//'' else ''/'') else [])"

fun join_slash :: "string list \<Rightarrow> string" where
  "join_slash [] = []"
| "join_slash (x # xs) = x @ (if xs = [] then [] else CHR ''/'' # join_slash xs)"

definition path_stem :: "string \<Rightarrow> string" where
  "path_stem s = (let n = path_name s in take (length n - length (path_suffix s)) n)"

definition sibling :: "string \<Rightarrow> string \<Rightarrow> string" where
  \<comment> \<open>\<open>str(Path(s).parent / (Path(s).stem + ext))\<close>\<close>
  "sibling s ext =
     path_root s @ join_slash (butlast (filter (\<lambda>p. p \<noteq> [] \<and> p \<noteq> ''.'') (split_slash s)) @ [path_stem s @ ext])"

definition given_or :: "string option \<Rightarrow> string \<Rightarrow> string" where
  \<comment> \<open>\<open>args.out or default\<close>\<close>
  "given_or out dflt = (case out of Some p \<Rightarrow> if p = [] then dflt else p | None \<Rightarrow> dflt)"

definition prompt_password :: "cli_env \<Rightarrow> nat \<Rightarrow> bool \<Rightarrow> string cmd" where
  \<comment> \<open>the number of the first call of \<open>getpass\<close>\<close>
  "prompt_password E k confirm =
     (let pw = ev_typed E k in
      if confirm \<and> pw \<noteq> ev_typed E (Suc k) then halt (Exited 1)
      else if pw = [] then halt (Exited 1) else cmd_return pw)"

section \<open>Attributes and arguments\<close>

text \<open>What an object or a function has, as far as the commands ask for it.\<close>

definition IDENTITY_ATTRIBUTES :: "string list" where
  "IDENTITY_ATTRIBUTES = [''_VERSION'', ''__init__'', ''create'', ''rotate_keys'', ''public_card'', ''seal_for'', ''open_from'',
     ''to_encrypted_dict'', ''to_encrypted_json'', ''from_encrypted_dict'', ''from_encrypted_json'', ''save'', ''load'',
     ''hash_password'', ''verify_password'', ''__repr__'', ''__eq__'', ''entity_id'', ''name'', ''role'', ''keypair'', ''created_at'',
     ''key_version'', ''keys_rotated_at'', ''_pub'']"

definition PACKAGE_ATTRIBUTES :: "string list" where
  "PACKAGE_ATTRIBUTES = [''sender_id'', ''receiver_id'', ''data_type'', ''is_chunked'', ''envelope'', ''chunks'', ''metadata'',
     ''to_dict'', ''to_json'', ''save'', ''to_file'', ''from_dict'', ''from_json'', ''from_file'']"

definition FETCH_PARAMETERS :: "string list" where
  "FETCH_PARAMETERS = [''url'', ''data'', ''json'', ''json_data'', ''method'', ''headers'', ''peer_id'', ''peer_card'', ''allow_fallback'',
     ''force_uxsp'', ''timeout'']"

definition RECEIVE_STREAM_PARAMETERS :: "string list" where
  "RECEIVE_STREAM_PARAMETERS = [''packages_or_stream'', ''output_file'', ''sender_id'', ''sender'', ''sender_card'', ''receiver'',
     ''receiver_identity'']"

definition py_getattr :: "string list \<Rightarrow> string \<Rightarrow> unit res" where
  "py_getattr attributes name = guard (name \<in> set attributes) AttributeError (Inr ())"

definition py_len :: "string list \<Rightarrow> unit res" where
  \<comment> \<open>\<open>len(x)\<close> of an object with these attributes\<close>
  "py_len attributes = guard (''__len__'' \<in> set attributes) TypeError (Inr ())"

definition py_buffer :: "string list \<Rightarrow> unit res" where
  \<comment> \<open>what \<open>write\<close> of a binary file asks of its argument\<close>
  "py_buffer attributes = guard (''__buffer__'' \<in> set attributes) TypeError (Inr ())"

definition bind_arguments :: "string list \<Rightarrow> string list \<Rightarrow> string list \<Rightarrow> unit res" where
  \<comment> \<open>the parameters without a default, all parameters, the arguments given\<close>
  "bind_arguments required params given =
     guard (set required \<subseteq> set given \<and> set given \<subseteq> set params) TypeError (Inr ())"

section \<open>Identities\<close>

definition load_key :: "cli_env \<Rightarrow> string \<Rightarrow> string \<Rightarrow> identity cmd" where
  "load_key E path pw = look (identity_load (ev_prims E) (ev_lib E) (ev_now E) path pw)"

definition save_key :: "cli_env \<Rightarrow> string \<Rightarrow> string \<Rightarrow> identity \<Rightarrow> unit cmd" where
  "save_key E path pw i =
     change (if_writable E path (identity_save (ev_prims E) (ev_lib E) (ev_salt E) (ev_nonce E) path pw i))"

definition write_json :: "cli_env \<Rightarrow> string \<Rightarrow> dict \<Rightarrow> unit cmd" where
  \<comment> \<open>\<open>to_json\<close> with indentation 2, to a temporary file that is renamed\<close>
  "write_json E path d = write_bytes E path (json_file (ev_lib E) d)"

definition card_file :: "string \<Rightarrow> files \<Rightarrow> public_card res" where
  \<comment> \<open>\<open>with open(path) as f: PublicCard.from_json(f.read())\<close>\<close>
  "card_file path fs = rbind (read_json path fs) (\<lambda>v. case v of PDict d \<Rightarrow> card_from_dict d | _ \<Rightarrow> Inl AttributeError)"

definition new_identity :: "cli_env \<Rightarrow> string \<Rightarrow> string \<Rightarrow> identity res" where
  "new_identity E name role = (let F = ev_fresh E in
     identity_create (ev_prims E) (ev_lib E) (f_time F) (f_uuid F) (f_exchange F) (f_kem F) (f_signing F) (f_pqc F) name role)"

definition keygen :: "cli_env \<Rightarrow> string \<Rightarrow> string \<Rightarrow> string \<Rightarrow> unit cmd" where
  "keygen E name role out =
     cmd_bind (prompt_password E 0 True) (\<lambda>pw.
     cmd_bind (of_res (new_identity E name role)) (\<lambda>i.
     cmd_bind (save_key E out pw i) (\<lambda>_.
     cmd_bind (say (''Identity created: '' @ entity_id i)) (\<lambda>_.
     say (''Saved to: '' @ out)))))"

definition pubcard :: "cli_env \<Rightarrow> string \<Rightarrow> string option \<Rightarrow> unit cmd" where
  "pubcard E key out =
     cmd_bind (prompt_password E 0 False) (\<lambda>pw.
     cmd_bind (load_key E key pw) (\<lambda>i.
     cmd_bind (of_res (identity_card (ev_lib E) (ev_now E) None None i)) (\<lambda>c.
     let path = given_or out (sibling key ''.card.json'') in
     cmd_bind (write_json E path (card_to_dict c)) (\<lambda>_.
     cmd_bind (say (''Public card for '' @ [CHR 0x27] @ c_name c @ [CHR 0x27] @ '' ('' @ c_role c @ '')'')) (\<lambda>_.
     cmd_bind (say (''Entity ID : '' @ c_entity_id c)) (\<lambda>_.
     say (''Saved to  : '' @ path)))))))"

definition cli_info :: "cli_env \<Rightarrow> string \<Rightarrow> unit cmd" where
  "cli_info E key =
     cmd_bind (prompt_password E 0 False) (\<lambda>pw.
     cmd_bind (load_key E key pw) (\<lambda>i.
     cmd_bind (say (''Entity ID  : '' @ entity_id i)) (\<lambda>_.
     cmd_bind (say (''Name       : '' @ i_name i)) (\<lambda>_.
     cmd_bind (say (''Role       : '' @ i_role i)) (\<lambda>_.
     say (''Created    : '' @ i_created_at i))))))"

definition rotated :: "cli_env \<Rightarrow> identity \<Rightarrow> identity res" where
  "rotated E i = (let F = ev_fresh E in
     case Identity.rotate_keys (ev_prims E) (ev_lib E) (ev_now E) (f_exchange F) (f_kem F) (f_signing F) (f_pqc F) i of
       (Inl e, i1) \<Rightarrow> Inl e | (Inr _, i1) \<Rightarrow> Inr i1)"

definition cli_rotate :: "cli_env \<Rightarrow> string \<Rightarrow> unit cmd" where
  "cli_rotate E key =
     cmd_bind (prompt_password E 0 False) (\<lambda>pw.
     cmd_bind (load_key E key pw) (\<lambda>i.
     cmd_bind (of_res (rotated E i)) (\<lambda>i1.
     cmd_bind (prompt_password E 1 True) (\<lambda>new_pw.
     cmd_bind (save_key E key new_pw i1) (\<lambda>_.
     cmd_bind (say (''Keys rotated for Entity ID: '' @ entity_id i1)) (\<lambda>_.
     say (''Saved to: '' @ key)))))))"

definition cli_revoke :: "cli_env \<Rightarrow> string \<Rightarrow> string \<Rightarrow> unit cmd" where
  \<comment> \<open>there is no method whose effect on the identity could be modelled\<close>
  "cli_revoke E key reason =
     cmd_bind (prompt_password E 0 False) (\<lambda>pw.
     cmd_bind (load_key E key pw) (\<lambda>i.
     cmd_bind (of_res (py_getattr IDENTITY_ATTRIBUTES ''revoke'')) (\<lambda>_.
     cmd_bind (save_key E key pw i) (\<lambda>_.
     cmd_bind (say (''Identity revoked: '' @ entity_id i)) (\<lambda>_.
     cmd_bind (say (''Reason: '' @ reason)) (\<lambda>_.
     say (''Saved to: '' @ key)))))))"

section \<open>Trust anchors\<close>

definition cli_anchor_create :: "cli_env \<Rightarrow> string \<Rightarrow> string \<Rightarrow> unit cmd" where
  "cli_anchor_create E name out =
     cmd_bind (prompt_password E 0 True) (\<lambda>pw.
     cmd_bind (of_res (new_identity E name ''TRUST-ANCHOR'')) (\<lambda>i.
     cmd_bind (save_key E out pw i) (\<lambda>_.
     cmd_bind (of_res (public_anchor_of (ev_lib E) (ev_now E) i)) (\<lambda>a.
     let pub_path = sibling out ''.pub.json'' in
     cmd_bind (write_json E pub_path (anchor_to_dict a)) (\<lambda>_.
     cmd_bind (say (''Trust anchor created: '' @ entity_id i)) (\<lambda>_.
     cmd_bind (say (''Anchor key  : '' @ out @ ''  (keep private)'')) (\<lambda>_.
     say (''Anchor pubkey: '' @ pub_path @ ''  (distribute to all verifiers)''))))))))"

definition cli_anchor_issue :: "cli_env \<Rightarrow> string \<Rightarrow> string \<Rightarrow> int \<Rightarrow> string option \<Rightarrow> unit cmd" where
  "cli_anchor_issue E anchor cfile days out =
     cmd_bind (prompt_password E 0 False) (\<lambda>pw.
     cmd_bind (look (anchor_load (ev_prims E) (ev_lib E) (ev_now E) anchor pw)) (\<lambda>i.
     cmd_bind (look (card_file cfile)) (\<lambda>c.
     cmd_bind (of_res (issue (ev_prims E) (ev_sign E) (ev_now E) (ev_cert E) c days None i)) (\<lambda>sc.
     let path = given_or out (sibling cfile ''.signed.json'') in
     cmd_bind (write_json E path (signed_to_dict sc)) (\<lambda>_.
     cmd_bind (say (''Signed card for '' @ [CHR 0x27] @ c_name c @ [CHR 0x27] @ '' ('' @ c_role c @ '')'')) (\<lambda>_.
     cmd_bind (say (''Cert ID      : '' @ cert_id sc)) (\<lambda>_.
     cmd_bind (say (''Valid days   : '' @ str_int days)) (\<lambda>_.
     say (''Saved to     : '' @ path)))))))))"

section \<open>Packages, streams and live sessions\<close>

definition direct_args :: "peer option \<Rightarrow> identity \<Rightarrow> public_card \<Rightarrow> send_args" where
  "direct_args rid sender pcard = \<lparr>a_receiver_id = rid, a_receiver = Some (PeerCard pcard), a_sender_identity = None,
     a_sender = Some sender, a_output_file = None, a_metadata = None\<rparr>"

definition send_item :: "cli_env \<Rightarrow> string \<Rightarrow> identity \<Rightarrow> public_card \<Rightarrow> files \<Rightarrow> sent res \<times> files" where
  \<comment> \<open>\<open>Send(x, sender=sender, receiver=card)\<close> in a new process: \<open>x\<close> is the receiver id, and the item is \<open>None\<close>\<close>
  "send_item E x sender pcard fs =
     (case send_any (ev_prims E) (ev_lib E) (ev_codecs E) (ev_guess E) (ev_fresh E) (ev_send E 0) (ev_salt E) (ev_nonce E)
         (direct_args (Some (PeerId x)) sender pcard) None ItemOther (context_init (ev_cwd E), fs) of
       (r, x', fs') \<Rightarrow> (r, fs'))"

definition secure_send :: "cli_env \<Rightarrow> string \<Rightarrow> string \<Rightarrow> string option \<Rightarrow> string option \<Rightarrow> string option \<Rightarrow> unit cmd" where
  "secure_send E sender receiver file text_arg out =
     cmd_bind (prompt_password E 0 False) (\<lambda>pw.
     cmd_bind (load_key E sender pw) (\<lambda>i.
     cmd_bind (look (card_file receiver)) (\<lambda>c.
     cmd_bind (say (''Sending to '' @ c_name c @ ''...'')) (\<lambda>_.
     cmd_bind (if given_or file [] \<noteq> [] then change (send_item E (given_or file []) i c)
               else if given_or text_arg [] \<noteq> [] then change (send_item E (given_or text_arg []) i c)
               else halt (Raised ValueError)) (\<lambda>pkg.
     let out_path = given_or out ''payload.uxsp'' in
     cmd_bind (write_bytes E out_path []) (\<lambda>_.
     cmd_bind (of_res (py_getattr PACKAGE_ATTRIBUTES ''serialize'')) (\<lambda>_.
     say (''Secure payload saved to '' @ out_path))))))))"

definition secure_receive :: "cli_env \<Rightarrow> string \<Rightarrow> string \<Rightarrow> string option \<Rightarrow> unit cmd" where
  \<comment> \<open>\<open>SecurePackage.deserialize\<close> would have to return what is then received\<close>
  "secure_receive E receiver payload out =
     cmd_bind (prompt_password E 0 False) (\<lambda>pw.
     cmd_bind (load_key E receiver pw) (\<lambda>i.
     cmd_bind (look (\<lambda>fs. case fs payload of None \<Rightarrow> Inl OSError | Some b \<Rightarrow> Inr b)) (\<lambda>b.
     cmd_bind (of_res (py_getattr PACKAGE_ATTRIBUTES ''deserialize'')) (\<lambda>_.
     say ''Decrypting payload...''))))"

definition first_package :: "cli_env \<Rightarrow> string \<Rightarrow> identity \<Rightarrow> public_card \<Rightarrow> files \<Rightarrow> package option res" where
  \<comment> \<open>what the generator \<open>SendStream(path, sender=sender, receiver=card)\<close> does first\<close>
  "first_package E path sender pcard fs =
     (case send_stream (ev_prims E) (ev_lib E) (ev_fresh E) (ev_send E) (direct_args None sender pcard) path (64 * 1024) None ''binary''
         (context_init (ev_cwd E), fs) of
       (pk # pks, r, w) \<Rightarrow> Inr (Some pk) | ([], Some e, w) \<Rightarrow> Inl e | ([], None, w) \<Rightarrow> Inr None)"

definition stream_send :: "cli_env \<Rightarrow> string \<Rightarrow> string \<Rightarrow> string \<Rightarrow> string option \<Rightarrow> unit cmd" where
  \<comment> \<open>the loop, up to the attempt to write its first package\<close>
  "stream_send E sender receiver file out =
     cmd_bind (prompt_password E 0 False) (\<lambda>pw.
     cmd_bind (load_key E sender pw) (\<lambda>i.
     cmd_bind (look (card_file receiver)) (\<lambda>c.
     cmd_bind (say (''Streaming '' @ file @ '' to '' @ c_name c @ ''...'')) (\<lambda>_.
     let out_path = given_or out (file @ ''.uxsp'') in
     cmd_bind (write_bytes E out_path []) (\<lambda>_.
     cmd_bind (look (first_package E file i c)) (\<lambda>p.
     cmd_bind (of_res (case p of Some pk \<Rightarrow> py_buffer PACKAGE_ATTRIBUTES | None \<Rightarrow> Inr ())) (\<lambda>_.
     say (''Stream saved to '' @ out_path))))))))"

definition stream_receive :: "cli_env \<Rightarrow> string \<Rightarrow> string \<Rightarrow> string option \<Rightarrow> unit cmd" where
  \<comment> \<open>\<open>ReceiveStream(f_in, receiver=receiver)\<close>\<close>
  "stream_receive E receiver payload out =
     cmd_bind (prompt_password E 0 False) (\<lambda>pw.
     cmd_bind (load_key E receiver pw) (\<lambda>i.
     cmd_bind (say (''Receiving stream from '' @ payload @ ''...'')) (\<lambda>_.
     cmd_bind (look (\<lambda>fs. case fs payload of None \<Rightarrow> Inl OSError | Some b \<Rightarrow> Inr b)) (\<lambda>b.
     let out_path = given_or out ''received_stream_file'' in
     cmd_bind (write_bytes E out_path []) (\<lambda>_.
     cmd_bind (of_res (bind_arguments [''packages_or_stream'', ''output_file''] RECEIVE_STREAM_PARAMETERS
       [''packages_or_stream'', ''receiver''])) (\<lambda>_.
     say (''Stream received and saved to '' @ out_path)))))))"

definition live_call :: "cli_env \<Rightarrow> string \<Rightarrow> string \<Rightarrow> string \<Rightarrow> string \<Rightarrow> unit cmd" where
  \<comment> \<open>\<open>live_session\<close> and \<open>live_voice\<close>: the identity is handed over as the key, of which the constructor takes the length\<close>
  "live_call E kind done_kind identity_path peer_path =
     cmd_bind (prompt_password E 0 False) (\<lambda>pw.
     cmd_bind (load_key E identity_path pw) (\<lambda>i.
     cmd_bind (look (card_file peer_path)) (\<lambda>c.
     cmd_bind (say (''Initiating '' @ kind @ '' with '' @ c_name c @ ''...'')) (\<lambda>_.
     cmd_bind (of_res (py_len IDENTITY_ATTRIBUTES)) (\<lambda>_.
     say (done_kind @ '' established with '' @ c_name c))))))"

section \<open>Requests\<close>

record fetch_opts =
  fo_data :: "string option"
  fo_sender :: "string option"
  fo_peer :: "string option"

definition fetch_data :: "fetch_opts \<Rightarrow> bytes option cmd" where
  \<comment> \<open>the body: a file after a sign \<open>@\<close>, or the text itself\<close>
  "fetch_data o' = (case fo_data o' of
     None \<Rightarrow> cmd_return None
   | Some d \<Rightarrow>
       if starts_with ''@'' d
       then (\<lambda>s. case cl_files s (tl d) of None \<Rightarrow> halt (Exited 1) s | Some b \<Rightarrow> cmd_return (Some b) s)
       else cmd_return (Some (utf8 d)))"

definition fetch_sender :: "cli_env \<Rightarrow> fetch_opts \<Rightarrow> identity option cmd" where
  "fetch_sender E o' =
     (if given_or (fo_sender o') [] = [] then cmd_return None
      else (\<lambda>s. if cl_files s (given_or (fo_sender o') []) = None then halt (Exited 1) s
        else cmd_bind (if given_or (ev_password E) [] = [] then prompt_password E 0 False
                       else cmd_return (given_or (ev_password E) [])) (\<lambda>pw.
             cmd_bind (load_key E (given_or (fo_sender o') []) pw) (\<lambda>i. cmd_return (Some i))) s))"

definition fetch_peer :: "fetch_opts \<Rightarrow> peer option cmd" where
  "fetch_peer o' s =
     (let p = given_or (fo_peer o') [] in
      if p = [] then cmd_return None s
      else if cl_files s p = None then cmd_return (Some (PeerId p)) s
      else (case card_file p (cl_files s) of Inl e \<Rightarrow> halt (Exited 1) s | Inr c \<Rightarrow> cmd_return (Some (PeerCard c)) s))"

definition client_request :: "unit res" where
  \<comment> \<open>\<open>request(method, url, headers=.., data=.., peer=..)\<close> hands its arguments on to \<open>fetch\<close>\<close>
  "client_request = bind_arguments [''url''] FETCH_PARAMETERS [''url'', ''method'', ''headers'', ''data'', ''peer'']"

definition cli_fetch :: "cli_env \<Rightarrow> fetch_opts \<Rightarrow> unit cmd" where
  \<comment> \<open>every exception of the request ends the program; what is done with a response is left out\<close>
  "cli_fetch E o' =
     cmd_bind (fetch_data o') (\<lambda>d.
     cmd_bind (fetch_sender E o') (\<lambda>i.
     cmd_bind (fetch_peer o') (\<lambda>p.
     case client_request of Inl e \<Rightarrow> halt (Exited 1) | Inr u \<Rightarrow> cmd_return u)))"

section \<open>The program\<close>

datatype command =
    Keygen string string string
  | Pubcard string "string option"
  | Info string
  | Rotate string
  | Revoke string string
  | AnchorCreate string string
  | AnchorIssue string string int "string option"
  | SecureSendCmd string string "string option" "string option" "string option"
  | SecureReceiveCmd string string "string option"
  | StreamSendCmd string string string "string option"
  | StreamReceiveCmd string string "string option"
  | LiveSessionCmd string string
  | LiveVoiceCmd string string
  | Fetch fetch_opts
  | Version

fun run_command :: "cli_env \<Rightarrow> command \<Rightarrow> unit cmd" where
  "run_command E (Keygen name role out) = keygen E name role out"
| "run_command E (Pubcard key out) = pubcard E key out"
| "run_command E (Info key) = cli_info E key"
| "run_command E (Rotate key) = cli_rotate E key"
| "run_command E (Revoke key reason) = cli_revoke E key reason"
| "run_command E (AnchorCreate name out) = cli_anchor_create E name out"
| "run_command E (AnchorIssue anchor cfile days out) = cli_anchor_issue E anchor cfile days out"
| "run_command E (SecureSendCmd sender receiver file txt out) = secure_send E sender receiver file txt out"
| "run_command E (SecureReceiveCmd receiver payload out) = secure_receive E receiver payload out"
| "run_command E (StreamSendCmd sender receiver file out) = stream_send E sender receiver file out"
| "run_command E (StreamReceiveCmd receiver payload out) = stream_receive E receiver payload out"
| "run_command E (LiveSessionCmd ident peer) = live_call E ''Live Session'' ''Session'' ident peer"
| "run_command E (LiveVoiceCmd ident peer) = live_call E ''Live Voice Call'' ''Voice session'' ident peer"
| "run_command E (Fetch o') = cli_fetch E o'"
| "run_command E Version = say (''uxsp '' @ ev_version E)"

definition cli_main :: "cli_env \<Rightarrow> command \<Rightarrow> cli_state \<Rightarrow> int \<times> cli_state" where
  \<comment> \<open>the exit status\<close>
  "cli_main E c s = (case run_command E c s of
     (Inr _, s1) \<Rightarrow> (0, s1) | (Inl (Raised e), s1) \<Rightarrow> (1, s1) | (Inl (Exited n), s1) \<Rightarrow> (n, s1))"

section \<open>Lemmas: commands that return\<close>

lemma cmd_bind_Inr:
  "cmd_bind m f s = (Inr y, s2) \<longleftrightarrow> (\<exists>x s1. m s = (Inr x, s1) \<and> f x s1 = (Inr y, s2))"
  by (auto simp: cmd_bind_def split: prod.splits sum.splits)

lemma of_res_Inr: "of_res r s = (Inr x, s1) \<longleftrightarrow> r = Inr x \<and> s1 = s"
  by (auto simp: of_res_def split: sum.splits)

lemma change_Inr: "change f s = (Inr x, s1) \<longleftrightarrow> (\<exists>fs. f (cl_files s) = (Inr x, fs) \<and> s1 = s\<lparr>cl_files := fs\<rparr>)"
  by (auto simp: change_def of_res_Inr split: prod.splits)

lemma if_writable_Inr: "if_writable E path f fs = (Inr x, fs1) \<longleftrightarrow> f fs = (Inr x, fs1) \<and> ev_writable E path"
  by (auto simp: if_writable_def split: prod.splits sum.splits)

lemma if_writable_Inl: "if_writable E path f fs = (Inl e, fs1) \<Longrightarrow> fs1 = fs"
  by (auto simp: if_writable_def split: prod.splits sum.splits if_splits)

lemma write_bytes_Inr:
  "write_bytes E path b s = (Inr u, s1) \<longleftrightarrow> s1 = s\<lparr>cl_files := (cl_files s)(path \<mapsto> b)\<rparr> \<and> ev_writable E path"
  by (auto simp: write_bytes_def change_Inr if_writable_Inr)

lemma prompt_Inr:
  "prompt_password E k confirm s = (Inr pw, s1) \<longleftrightarrow>
     s1 = s \<and> pw = ev_typed E k \<and> pw \<noteq> [] \<and> (confirm \<longrightarrow> ev_typed E (Suc k) = pw)"
  by (auto simp: prompt_password_def Let_def halt_def cmd_return_def)

lemmas cmd_Inr = cmd_bind_Inr of_res_Inr change_Inr write_bytes_Inr prompt_Inr if_writable_Inr look_def say_def halt_def
  cmd_return_def load_key_def save_key_def write_json_def Let_def

text \<open>What each command of a chain of trust leaves behind when it returns.\<close>

lemma keygen_Inr:
  assumes "keygen E name role out s = (Inr u, s')"
  obtains i fs where "new_identity E name role = Inr i" "ev_typed E 0 \<noteq> []"
    "identity_save (ev_prims E) (ev_lib E) (ev_salt E) (ev_nonce E) out (ev_typed E 0) i (cl_files s) = (Inr (), fs)"
    "cl_files s' = fs"
  using assms by (auto simp: keygen_def cmd_Inr)

lemma pubcard_Inr:
  assumes "pubcard E key out s = (Inr u, s')"
  obtains i c where "identity_load (ev_prims E) (ev_lib E) (ev_now E) key (ev_typed E 0) (cl_files s) = Inr i"
    "identity_card (ev_lib E) (ev_now E) None None i = Inr c"
    "cl_files s' = (cl_files s)(given_or out (sibling key ''.card.json'') \<mapsto> json_file (ev_lib E) (card_to_dict c))"
  using assms by (auto simp: pubcard_def cmd_Inr)

lemma anchor_create_Inr:
  assumes "cli_anchor_create E name out s = (Inr u, s')"
  obtains i a fs where "new_identity E name ''TRUST-ANCHOR'' = Inr i"
    "identity_save (ev_prims E) (ev_lib E) (ev_salt E) (ev_nonce E) out (ev_typed E 0) i (cl_files s) = (Inr (), fs)"
    "public_anchor_of (ev_lib E) (ev_now E) i = Inr a"
    "cl_files s' = fs(sibling out ''.pub.json'' \<mapsto> json_file (ev_lib E) (anchor_to_dict a))"
  using assms by (auto simp: cli_anchor_create_def cmd_Inr)

lemma anchor_issue_Inr:
  assumes "cli_anchor_issue E anchor cfile days out s = (Inr u, s')"
  obtains i c sc where "identity_load (ev_prims E) (ev_lib E) (ev_now E) anchor (ev_typed E 0) (cl_files s) = Inr i"
    "card_file cfile (cl_files s) = Inr c" "issue (ev_prims E) (ev_sign E) (ev_now E) (ev_cert E) c days None i = Inr sc"
    "cl_files s' = (cl_files s)(given_or out (sibling cfile ''.signed.json'') \<mapsto> json_file (ev_lib E) (signed_to_dict sc))"
  using assms by (auto simp: cli_anchor_issue_def anchor_load_def cmd_Inr)

section \<open>Lemmas: exit statuses\<close>

definition stops_with_one :: "'a cmd \<Rightarrow> bool" where
  "stops_with_one m \<longleftrightarrow> (\<forall>s n s1. m s = (Inl (Exited n), s1) \<longrightarrow> n = 1)"

lemma stops_bind [intro!]: "stops_with_one m \<Longrightarrow> (\<And>x. stops_with_one (f x)) \<Longrightarrow> stops_with_one (cmd_bind m f)"
  unfolding stops_with_one_def cmd_bind_def by (auto split: prod.splits sum.splits)

lemma stops_simps [simp]:
  "stops_with_one (of_res r)" "stops_with_one (say l)" "stops_with_one (look g)" "stops_with_one (change h)"
  "stops_with_one (write_bytes E path b)" "stops_with_one (cmd_return x)" "stops_with_one (halt (Raised e))"
  "stops_with_one (halt (Exited 1))" "stops_with_one (prompt_password E k confirm)"
  by (auto simp: stops_with_one_def of_res_def say_def look_def change_def write_bytes_def cmd_return_def halt_def
      prompt_password_def Let_def split: sum.splits prod.splits if_splits)

lemma stops_fetch [simp]: "stops_with_one (fetch_data o')" "stops_with_one (fetch_sender E o')" "stops_with_one (fetch_peer o')"
proof -
  show "stops_with_one (fetch_data o')"
    by (auto simp: stops_with_one_def fetch_data_def cmd_return_def halt_def split: option.splits if_splits)
  let ?p = "cmd_bind (if given_or (ev_password E) [] = [] then prompt_password E 0 False
                       else cmd_return (given_or (ev_password E) [])) (\<lambda>pw.
             cmd_bind (load_key E (given_or (fo_sender o') []) pw) (\<lambda>i. cmd_return (Some i)))"
  have "stops_with_one ?p" by (auto simp: load_key_def)
  then show "stops_with_one (fetch_sender E o')"
    by (simp add: stops_with_one_def fetch_sender_def halt_def cmd_return_def)
  show "stops_with_one (fetch_peer o')"
    by (auto simp: stops_with_one_def fetch_peer_def cmd_return_def halt_def Let_def split: sum.splits if_splits)
qed

lemma stops_run: "stops_with_one (run_command E c)"
proof (cases c)
  case (Fetch o')
  have "stops_with_one (case client_request of Inl e \<Rightarrow> halt (Exited 1) | Inr u \<Rightarrow> cmd_return u)"
    by (simp split: sum.split)
  with Fetch show ?thesis by (auto simp: cli_fetch_def)
qed (auto simp: stream_send_def keygen_def pubcard_def cli_info_def cli_rotate_def cli_revoke_def cli_anchor_create_def cli_anchor_issue_def
    secure_send_def secure_receive_def stream_receive_def live_call_def load_key_def save_key_def write_json_def Let_def)

lemma stops_exit: "run_command E c s = (Inl (Exited n), s1) \<Longrightarrow> n = 1"
  using stops_run [of E c] unfolding stops_with_one_def by blast

lemma exit_zero: "cli_main E c s = (0, s') \<longleftrightarrow> run_command E c s = (Inr (), s')"
  by (auto simp: cli_main_def split: prod.splits sum.splits stop.splits dest: stops_exit)

lemma exit_one: "fst (cli_main E c s) = 1 \<longleftrightarrow> (\<exists>e s1. run_command E c s = (Inl e, s1))"
  by (auto simp: cli_main_def split: prod.splits sum.splits stop.splits dest: stops_exit)

section \<open>Lemmas: commands that fail\<close>

definition reads :: "'a cmd \<Rightarrow> bool" where
  "reads m \<longleftrightarrow> (\<forall>s r s1. m s = (r, s1) \<longrightarrow> cl_files s1 = cl_files s)"

definition fails_clean :: "'a cmd \<Rightarrow> bool" where
  \<comment> \<open>a failure leaves the files as they were\<close>
  "fails_clean m \<longleftrightarrow> (\<forall>s e s1. m s = (Inl e, s1) \<longrightarrow> cl_files s1 = cl_files s)"

definition returns :: "'a cmd \<Rightarrow> bool" where
  "returns m \<longleftrightarrow> (\<forall>s e s1. m s \<noteq> (Inl e, s1))"

lemma reads_simps [simp]:
  "reads (of_res r)" "reads (say l)" "reads (look g)" "reads (halt e)" "reads (cmd_return x)" "reads (prompt_password E k confirm)"
  by (auto simp: reads_def of_res_def say_def look_def halt_def cmd_return_def prompt_password_def Let_def split: sum.splits if_splits)

lemma returns_simps [simp]: "returns (say l)" "returns (cmd_return x)"
  by (auto simp: returns_def say_def cmd_return_def)

lemma returns_bind [intro!]: "returns m \<Longrightarrow> (\<And>x. returns (f x)) \<Longrightarrow> returns (cmd_bind m f)"
  by (auto simp: returns_def cmd_bind_def split: prod.splits sum.splits)

lemma reads_bind: "reads m \<Longrightarrow> (\<And>x. reads (f x)) \<Longrightarrow> reads (cmd_bind m f)"
  unfolding reads_def cmd_bind_def by (fastforce split: prod.splits sum.splits)

lemma reads_clean: "reads m \<Longrightarrow> fails_clean m"
  by (auto simp: reads_def fails_clean_def)

lemma returns_clean: "returns m \<Longrightarrow> fails_clean m"
  by (auto simp: returns_def fails_clean_def)

lemma read_then: "reads m \<Longrightarrow> (\<And>x. fails_clean (f x)) \<Longrightarrow> fails_clean (cmd_bind m f)"
  unfolding reads_def fails_clean_def cmd_bind_def by (fastforce split: prod.splits sum.splits)

lemma then_return: "fails_clean m \<Longrightarrow> (\<And>x. returns (f x)) \<Longrightarrow> fails_clean (cmd_bind m f)"
  unfolding returns_def fails_clean_def cmd_bind_def by (auto split: prod.splits sum.splits)

lemma save_key_clean: "fails_clean (save_key E path pw i)"
  by (auto simp: fails_clean_def save_key_def change_def of_res_def dest: if_writable_Inl split: sum.splits prod.splits)

lemma write_bytes_clean: "fails_clean (write_bytes E path b)"
  by (auto simp: fails_clean_def write_bytes_def change_def of_res_def dest: if_writable_Inl split: sum.splits prod.splits)

lemma write_json_clean: "fails_clean (write_json E path d)"
  by (simp add: write_json_def write_bytes_clean)

lemmas clean_steps = read_then [OF reads_simps(1)] read_then [OF reads_simps(2)] read_then [OF reads_simps(3)]
  read_then [OF reads_simps(6)] then_return [OF save_key_clean] then_return [OF write_json_clean]
  reads_clean [OF reads_simps(2)] reads_clean [OF reads_simps(4)]

lemma send_item_fails: "send_item E x i c fs = (Inl SecureSendError, fs)"
  by (simp add: send_item_def send_any_def infer_item_def)

fun stream_target :: "command \<Rightarrow> string option" where
  \<comment> \<open>the file that a command empties before it has anything to put into it\<close>
  "stream_target (StreamSendCmd sender receiver file out) = Some (given_or out (file @ ''.uxsp''))"
| "stream_target (StreamReceiveCmd receiver payload out) = Some (given_or out ''received_stream_file'')"
| "stream_target c = None"

fun single_write :: "command \<Rightarrow> bool" where
  "single_write (AnchorCreate name out) = False"
| "single_write (StreamSendCmd sender receiver file out) = False"
| "single_write (StreamReceiveCmd receiver payload out) = False"
| "single_write c = True"

lemma fetch_reads [simp]: "reads (fetch_data o')" "reads (fetch_sender E o')" "reads (fetch_peer o')"
proof -
  show "reads (fetch_data o')"
    by (auto simp: reads_def fetch_data_def cmd_return_def halt_def split: option.splits if_splits)
  let ?p = "cmd_bind (if given_or (ev_password E) [] = [] then prompt_password E 0 False
                       else cmd_return (given_or (ev_password E) [])) (\<lambda>pw.
             cmd_bind (load_key E (given_or (fo_sender o') []) pw) (\<lambda>i. cmd_return (Some i)))"
  have "reads ?p" by (auto simp: load_key_def intro!: reads_bind)
  then show "reads (fetch_sender E o')"
    by (simp add: reads_def fetch_sender_def halt_def cmd_return_def)
  show "reads (fetch_peer o')"
    by (auto simp: reads_def fetch_peer_def cmd_return_def halt_def Let_def split: sum.splits if_splits)
qed

lemma run_clean: "single_write c \<Longrightarrow> fails_clean (run_command E c)"
proof (cases c)
  case (SecureSendCmd s r f x out)
  have k: "fails_clean (cmd_bind (if given_or f [] \<noteq> [] then change (send_item E (given_or f []) i pc)
               else if given_or x [] \<noteq> [] then change (send_item E (given_or x []) i pc)
               else halt (Raised ValueError)) g)" for i pc and g :: "sent \<Rightarrow> unit cmd"
    by (auto simp: fails_clean_def cmd_bind_def change_def send_item_fails of_res_def halt_def)
  show ?thesis unfolding SecureSendCmd run_command.simps secure_send_def load_key_def by (intro clean_steps k)
next
  case (Fetch o')
  have "reads (case client_request of Inl e \<Rightarrow> halt (Exited 1) | Inr u \<Rightarrow> cmd_return u)" by (simp split: sum.split)
  with Fetch show ?thesis by (auto simp: cli_fetch_def intro!: reads_clean reads_bind)
qed (auto simp: keygen_def pubcard_def cli_info_def cli_rotate_def cli_revoke_def cli_anchor_issue_def
    secure_receive_def live_call_def load_key_def Let_def intro!: clean_steps)

definition may_write :: "cli_env \<Rightarrow> string \<Rightarrow> bytes \<Rightarrow> 'a cmd \<Rightarrow> bool" where
  "may_write E p b m \<longleftrightarrow> (\<forall>s r s1. m s = (r, s1) \<longrightarrow>
     cl_files s1 = cl_files s \<or> ev_writable E p \<and> cl_files s1 = (cl_files s)(p \<mapsto> b))"

lemma read_may_write: "reads m \<Longrightarrow> (\<And>x. may_write E p b (f x)) \<Longrightarrow> may_write E p b (cmd_bind m f)"
  unfolding reads_def may_write_def cmd_bind_def by (fastforce split: prod.splits sum.splits)

lemma write_then_read:
  assumes "\<And>x. reads (f x)"
  shows "may_write E p b (cmd_bind (write_bytes E p b) f)"
  unfolding may_write_def
proof (intro allI impI)
  fix s r s1 assume r: "cmd_bind (write_bytes E p b) f s = (r, s1)"
  obtain q s2 where q: "write_bytes E p b s = (q, s2)" by (rule prod.exhaust)
  show "cl_files s1 = cl_files s \<or> ev_writable E p \<and> cl_files s1 = (cl_files s)(p \<mapsto> b)"
  proof (cases q)
    case (Inl e)
    with q r write_bytes_clean show ?thesis by (auto simp: cmd_bind_def fails_clean_def)
  next
    case (Inr u)
    with q have w: "ev_writable E p" "cl_files s2 = (cl_files s)(p \<mapsto> b)" by (simp_all add: write_bytes_Inr)
    have "f u s2 = (r, s1)" using q r Inr by (simp add: cmd_bind_def)
    then have "cl_files s1 = cl_files s2" using assms [of u] unfolding reads_def by blast
    with w show ?thesis by simp
  qed
qed

lemmas write_steps = read_may_write [OF reads_simps(1)] read_may_write [OF reads_simps(2)] read_may_write [OF reads_simps(3)]
  read_may_write [OF reads_simps(6)] write_then_read reads_bind

lemma stream_may_write: "stream_target c = Some p \<Longrightarrow> may_write E p [] (run_command E c)"
  by (cases c) (auto simp: stream_send_def stream_receive_def load_key_def Let_def intro!: write_steps)

text \<open>\<open>anchor create\<close> is the one command that writes two files.\<close>

lemma anchor_create_fails:
  assumes "cli_anchor_create E name out s = (Inl e, s1)"
  shows "cl_files s1 = cl_files s \<or>
    (\<exists>i. new_identity E name ''TRUST-ANCHOR'' = Inr i \<and> ev_writable E out \<and>
      identity_save (ev_prims E) (ev_lib E) (ev_salt E) (ev_nonce E) out (ev_typed E 0) i (cl_files s) = (Inr (), cl_files s1) \<and>
      (is_ok (public_anchor_of (ev_lib E) (ev_now E) i) \<longrightarrow> \<not> ev_writable E (sibling out ''.pub.json'')))"
proof (cases "\<exists>i. new_identity E name ''TRUST-ANCHOR'' = Inr i \<and> prompt_password E 0 True s = (Inr (ev_typed E 0), s)")
  case False
  then have "cl_files s1 = cl_files s"
    using assms by (auto simp: cli_anchor_create_def cmd_bind_def of_res_def prompt_password_def halt_def cmd_return_def
        Let_def split: sum.splits if_splits)
  then show ?thesis by simp
next
  case True
  then obtain i where i: "new_identity E name ''TRUST-ANCHOR'' = Inr i" "prompt_password E 0 True s = (Inr (ev_typed E 0), s)"
    by blast
  obtain q s2 where q: "save_key E out (ev_typed E 0) i s = (q, s2)" by (rule prod.exhaust)
  show ?thesis
  proof (cases q)
    case (Inl x)
    with q have "cl_files s2 = cl_files s" using save_key_clean by (auto simp: fails_clean_def)
    with assms i q Inl show ?thesis by (auto simp: cli_anchor_create_def cmd_bind_def of_res_def)
  next
    case (Inr u)
    with q have w: "ev_writable E out"
      "identity_save (ev_prims E) (ev_lib E) (ev_salt E) (ev_nonce E) out (ev_typed E 0) i (cl_files s) = (Inr (), cl_files s2)"
      by (auto simp: save_key_def change_Inr if_writable_Inr)
    have "cl_files s1 = cl_files s2 \<and> (is_ok (public_anchor_of (ev_lib E) (ev_now E) i) \<longrightarrow> \<not> ev_writable E (sibling out ''.pub.json''))"
      using assms i q Inr
      by (auto simp: cli_anchor_create_def cmd_bind_def of_res_def write_json_def write_bytes_def change_def if_writable_def
          say_def Let_def is_ok_iff split: sum.splits if_splits)
    with i(1) w show ?thesis by auto
  qed
qed

text \<open>Commands that cannot succeed, because what they call does not exist or does not take what it is given.\<close>

fun unfinished :: "command \<Rightarrow> bool" where
  "unfinished (Keygen name role out) = False"
| "unfinished (Pubcard key out) = False"
| "unfinished (Info key) = False"
| "unfinished (Rotate key) = False"
| "unfinished (AnchorCreate name out) = False"
| "unfinished (AnchorIssue anchor cfile days out) = False"
| "unfinished Version = False"
| "unfinished c = True"

lemma send_blocks_some: "bs \<noteq> [] \<Longrightarrow> send_blocks P L F R a f dt k bs w \<noteq> ([], None, w')"
  by (cases bs) (auto split: prod.splits sum.splits)

lemma stream_packages_some: "stream_packages P L F R a f dt bs w \<noteq> ([], None, w')"
  by (auto simp: stream_packages_def send_blocks_some split: prod.splits sum.splits)

lemma first_package_some: "first_package E path i c fs \<noteq> Inr None"
proof -
  have "send_stream P L F R a path n f dt w \<noteq> ([], None, w')" for P L F R a n f dt and w w' :: "(cards, mem_store) world"
    by (simp add: send_stream_def stream_packages_some split: option.split)
  then show ?thesis by (auto simp: first_package_def split: prod.splits list.splits option.splits)
qed

lemma missing [simp]:
  "py_getattr IDENTITY_ATTRIBUTES ''revoke'' = Inl AttributeError" "py_getattr PACKAGE_ATTRIBUTES ''serialize'' = Inl AttributeError"
  "py_getattr PACKAGE_ATTRIBUTES ''deserialize'' = Inl AttributeError" "py_len IDENTITY_ATTRIBUTES = Inl TypeError"
  "py_buffer PACKAGE_ATTRIBUTES = Inl TypeError" "client_request = Inl TypeError"
  "bind_arguments [''packages_or_stream'', ''output_file''] RECEIVE_STREAM_PARAMETERS [''packages_or_stream'', ''receiver''] = Inl TypeError"
  by code_simp+

lemma unfinished_never_return: "unfinished c \<Longrightarrow> run_command E c s \<noteq> (Inr u, s1)"
proof (cases c)
  case (StreamSendCmd sd r f out)
  then show ?thesis using first_package_some
    by (fastforce simp: stream_send_def cmd_Inr split: option.splits)
qed (auto simp: cli_revoke_def secure_send_def secure_receive_def stream_receive_def live_call_def cli_fetch_def cmd_Inr)

section \<open>Lemmas: a chain of trust\<close>

definition read_anchor :: "string \<Rightarrow> files \<Rightarrow> public_anchor res" where
  \<comment> \<open>\<open>PublicAnchor.from_json\<close> of a file\<close>
  "read_anchor path fs = rbind (read_json path fs) load_anchor"

definition read_signed :: "string \<Rightarrow> files \<Rightarrow> signed_card res" where
  \<comment> \<open>\<open>SignedCard.from_json\<close> of a file\<close>
  "read_signed path fs = rbind (read_json path fs) (\<lambda>v. case v of PDict d \<Rightarrow> signed_from_dict d | _ \<Rightarrow> Inl TypeError)"

definition key_card :: "identity \<Rightarrow> public_card" where
  "key_card i = \<lparr>c_entity_id = entity_id i, c_name = i_name i, c_role = i_role i, c_public_keys = i_pub i,
     c_created_at = i_created_at i, c_valid_until = None, c_is_revoked = False, c_revocation_reason = None,
     c_revoked_at = None, c_key_version = i_key_version i\<rparr>"

definition key_anchor :: "identity \<Rightarrow> public_anchor" where
  "key_anchor i = \<lparr>anchor_id = entity_id i, a_name = i_name i, a_public_keys = i_pub i, a_created_at = i_created_at i\<rparr>"

definition fresh_ok :: "prims \<Rightarrow> fresh_identity \<Rightarrow> bool" where
  "fresh_ok P F \<longleftrightarrow> acceptable_keys P (f_exchange F) (f_kem F) (f_signing F) (f_pqc F)"

definition env_ok :: "prims \<Rightarrow> pylib \<Rightarrow> cli_env \<Rightarrow> bool" where
  \<comment> \<open>the random values have their sizes, a time stamp is not empty, and a password is typed, twice the same\<close>
  "env_ok P L E \<longleftrightarrow> ev_prims E = P \<and> ev_lib E = L \<and> fresh_ok P (ev_fresh E) \<and> 8 \<le> length (ev_salt E) \<and>
     length (ev_nonce E) = NONCE_SIZE \<and> isoformat L (f_time (ev_fresh E)) \<noteq> [] \<and> ev_typed E 0 \<noteq> [] \<and>
     ev_typed E 1 = ev_typed E 0"

lemma new_identity_ok:
  assumes "env_ok P L E" and "new_identity E name role = Inr i"
  shows "identity_ok P i"
proof -
  let ?F = "ev_fresh E"
  obtain kp where k: "generate_hybrid_keypair P (f_exchange ?F) (f_kem ?F) (f_signing ?F) (f_pqc ?F) = Inr kp"
    and i: "identity_new L (f_time ?F) (f_uuid ?F) (strip name) role kp None 1 None = Inr i"
    using assms by (auto simp: env_ok_def new_identity_def identity_create_def Let_def res_Inr_iffs)
  have "extract_public_keys kp = Inr (i_pub i)" "keypair i = kp" using i by (auto simp: identity_new_def res_Inr_iffs)
  with k assms(1) have "is_keypair P (keypair i) (i_pub i)" unfolding is_keypair_def env_ok_def fresh_ok_def by blast
  with i assms(1) show ?thesis by (auto simp: identity_ok_def identity_new_def res_Inr_iffs validate_role_idem env_ok_def)
qed

lemma identity_ok_keys: "identity_ok P i \<Longrightarrow> keys_distinct (i_pub i)"
  unfolding identity_ok_def by (auto elim!: is_keypair_explicit)

lemma identity_card_ok: "identity_ok P i \<Longrightarrow> identity_card L now None None i = Inr (key_card i)"
  by (simp add: identity_card_def card_new_def identity_ok_def key_card_def)

lemma reloaded_card: "identity_ok P i \<Longrightarrow> identity_card L now None None (reloaded i) = Inr (key_card i)"
  by (simp add: identity_card_def card_new_def identity_ok_def key_card_def)

lemma key_card_ok: "identity_ok P i \<Longrightarrow> card_ok (key_card i)"
  using identity_ok_keys by (auto simp: card_ok_def key_card_def identity_ok_def)

lemma public_anchor_ok: "identity_ok P i \<Longrightarrow> public_anchor_of L now i = Inr (key_anchor i)"
  using identity_card_ok [of P i L now] by (simp add: public_anchor_of_def key_anchor_def key_card_def)

lemma card_file_back: "fs path = Some (json_file L (card_to_dict c)) \<Longrightarrow> card_ok c \<Longrightarrow> card_file path fs = Inr c"
  using read_json_file [of fs path L "card_to_dict c"] card_dict_json_ok [of c]
  by (simp add: card_file_def card_dict_back card_ok_def del: json_ok.simps)

lemma read_anchor_back:
  "fs path = Some (json_file L (anchor_to_dict a)) \<Longrightarrow> keys_distinct (a_public_keys a) \<Longrightarrow> read_anchor path fs = Inr a"
  using read_json_file [of fs path L "anchor_to_dict a"] anchor_json_ok [of a]
  by (simp add: read_anchor_def load_anchor_def anchor_dict_back del: json_ok.simps)

lemma read_signed_back:
  "fs path = Some (json_file L (signed_to_dict sc)) \<Longrightarrow> card_ok (sc_card sc) \<Longrightarrow> read_signed path fs = Inr sc"
  using read_json_file [of fs path L "signed_to_dict sc"] signed_json_ok [of sc]
  by (simp add: read_signed_def signed_dict_back card_ok_def del: json_ok.simps)

lemma keygen_returns:
  assumes "env_ok P L E" and "new_identity E name role = Inr i"
    and "identity_save P L (ev_salt E) (ev_nonce E) out (ev_typed E 0) i (cl_files s) = (Inr (), fs)" and "ev_writable E out"
  shows "\<exists>s'. keygen E name role out s = (Inr (), s') \<and> cl_files s' = fs"
  using assms by (simp add: keygen_def cmd_bind_def prompt_password_def env_ok_def cmd_return_def of_res_def save_key_def
      change_def if_writable_def say_def)

lemma pubcard_returns:
  assumes "ev_prims E = P" and "ev_lib E = L" and "ev_typed E 0 \<noteq> []"
    and "identity_load P L (ev_now E) key (ev_typed E 0) (cl_files s) = Inr j" and "identity_card L (ev_now E) None None j = Inr c"
    and "ev_writable E (sibling key ''.card.json'')"
  shows "\<exists>s'. pubcard E key None s = (Inr (), s') \<and>
    cl_files s' = (cl_files s)(sibling key ''.card.json'' \<mapsto> json_file L (card_to_dict c))"
  using assms by (simp add: pubcard_def cmd_bind_def prompt_password_def cmd_return_def of_res_def load_key_def look_def
      write_json_def write_bytes_def change_def if_writable_def say_def given_or_def Let_def)

lemma anchor_create_returns:
  assumes "env_ok P L E" and "new_identity E name ''TRUST-ANCHOR'' = Inr i"
    and "identity_save P L (ev_salt E) (ev_nonce E) out (ev_typed E 0) i (cl_files s) = (Inr (), fs)"
    and "public_anchor_of L (ev_now E) i = Inr a" and "ev_writable E out" and "ev_writable E (sibling out ''.pub.json'')"
  shows "\<exists>s'. cli_anchor_create E name out s = (Inr (), s') \<and>
    cl_files s' = fs(sibling out ''.pub.json'' \<mapsto> json_file L (anchor_to_dict a))"
  using assms by (simp add: cli_anchor_create_def cmd_bind_def prompt_password_def env_ok_def cmd_return_def of_res_def
      save_key_def write_json_def write_bytes_def change_def if_writable_def say_def Let_def)

lemma anchor_issue_returns:
  assumes "ev_prims E = P" and "ev_lib E = L" and "ev_typed E 0 \<noteq> []"
    and "identity_load P L (ev_now E) anchor (ev_typed E 0) (cl_files s) = Inr j" and "card_file cfile (cl_files s) = Inr c"
    and "issue P (ev_sign E) (ev_now E) (ev_cert E) c days None j = Inr sc"
    and "ev_writable E (sibling cfile ''.signed.json'')"
  shows "\<exists>s'. cli_anchor_issue E anchor cfile days None s = (Inr (), s') \<and>
    cl_files s' = (cl_files s)(sibling cfile ''.signed.json'' \<mapsto> json_file L (signed_to_dict sc))"
  using assms by (simp add: cli_anchor_issue_def anchor_load_def cmd_bind_def prompt_password_def cmd_return_def of_res_def
      look_def write_json_def write_bytes_def change_def if_writable_def say_def given_or_def Let_def)

lemma issue_now: "issue P rnd now cid c days None i = issue P rnd now cid c days (Some (trunc now)) i"
  by (simp add: issue_def)

definition opens_with :: "prims \<Rightarrow> pylib \<Rightarrow> string \<Rightarrow> string \<Rightarrow> bytes \<Rightarrow> identity \<Rightarrow> bool" where
  \<comment> \<open>wherever the file at the path has this content, the password opens it as the identity\<close>
  "opens_with P L path pw b i \<longleftrightarrow> (\<forall>now fs. fs path = Some b \<longrightarrow> identity_load P L now path pw fs = Inr (reloaded i))"

lemma saved_key_opens:
  assumes "aead_laws P" and "argon2_law P" and "env_ok P L E" and "identity_ok P i"
  obtains b where "identity_save P L (ev_salt E) (ev_nonce E) path (ev_typed E 0) i fs = (Inr (), fs(path \<mapsto> b))"
    "opens_with P L path (ev_typed E 0) b i"
proof -
  have "8 \<le> length (ev_salt E)" "length (ev_nonce E) = NONCE_SIZE" using assms(3) by (simp_all add: env_ok_def)
  from identity_file_back [OF assms(1,2,4) this] show ?thesis using that unfolding opens_with_def by blast
qed

lemma anchor_made:
  assumes "aead_laws P" and "argon2_law P" and "env_ok P L E" and "new_identity E name ''TRUST-ANCHOR'' = Inr i"
    and "ev_writable E anchor" and "ev_writable E (sibling anchor ''.pub.json'')"
  obtains b s1 where "cli_main E (AnchorCreate name anchor) s = (0, s1)" "opens_with P L anchor (ev_typed E 0) b i"
    "cl_files s1 = (cl_files s)(anchor \<mapsto> b, sibling anchor ''.pub.json'' \<mapsto> json_file L (anchor_to_dict (key_anchor i)))"
proof -
  have ok: "identity_ok P i" by (rule new_identity_ok [OF assms(3,4)])
  obtain b where b: "identity_save P L (ev_salt E) (ev_nonce E) anchor (ev_typed E 0) i (cl_files s) = (Inr (), (cl_files s)(anchor \<mapsto> b))"
    "opens_with P L anchor (ev_typed E 0) b i" by (rule saved_key_opens [OF assms(1-3) ok])
  then show ?thesis
    using anchor_create_returns [OF assms(3,4) b(1) public_anchor_ok [OF ok] assms(5,6)] that by (auto simp: exit_zero)
qed

lemma key_made:
  assumes "aead_laws P" and "argon2_law P" and "env_ok P L E" and "new_identity E name role = Inr i" and "ev_writable E key"
  obtains b s1 where "cli_main E (Keygen name role key) s = (0, s1)" "opens_with P L key (ev_typed E 0) b i"
    "cl_files s1 = (cl_files s)(key \<mapsto> b)"
proof -
  obtain b where b: "identity_save P L (ev_salt E) (ev_nonce E) key (ev_typed E 0) i (cl_files s) = (Inr (), (cl_files s)(key \<mapsto> b))"
    "opens_with P L key (ev_typed E 0) b i" by (rule saved_key_opens [OF assms(1-3) new_identity_ok [OF assms(3,4)]])
  then show ?thesis using keygen_returns [OF assms(3,4) b(1) assms(5)] that by (auto simp: exit_zero)
qed

lemma card_made:
  assumes "ev_prims E = P \<and> ev_lib E = L \<and> ev_typed E 0 = pw" and "pw \<noteq> []" and "identity_ok P i"
    and "opens_with P L key pw b i" and "cl_files s key = Some b" and "ev_writable E (sibling key ''.card.json'')"
  obtains s1 where "cli_main E (Pubcard key None) s = (0, s1)"
    "cl_files s1 = (cl_files s)(sibling key ''.card.json'' \<mapsto> json_file L (card_to_dict (key_card i)))"
proof -
  have "identity_load P L (ev_now E) key (ev_typed E 0) (cl_files s) = Inr (reloaded i)"
    using assms(1,4,5) by (simp add: opens_with_def)
  from pubcard_returns [OF _ _ _ this reloaded_card [OF assms(3)] assms(6)] show ?thesis
    using assms(1,2) that by (auto simp: exit_zero)
qed

lemma card_signed:
  assumes "signature_laws P" and "ev_prims E = P \<and> ev_lib E = L \<and> ev_typed E 0 = pw" and "pw \<noteq> []" and "identity_ok P i"
    and "opens_with P L anchor pw b i" and "cl_files s anchor = Some b"
    and "cl_files s cfile = Some (json_file L (card_to_dict c))" and "card_ok c" and "0 < days" and "days \<le> 730"
    and "is_ok (card_signable c (trunc (ev_now E)) (trunc (ev_now E) + days * 86400) (ev_cert E))"
    and "ev_writable E (sibling cfile ''.signed.json'')"
  obtains s1 sc where "cli_main E (AnchorIssue anchor cfile days None) s = (0, s1)"
    "cl_files s1 = (cl_files s)(sibling cfile ''.signed.json'' \<mapsto> json_file L (signed_to_dict sc))"
    "issue P (ev_sign E) (ev_now E) (ev_cert E) c days None i = Inr sc"
proof -
  have kp: "is_keypair P (keypair i) (i_pub i)" using assms(4) by (simp add: identity_ok_def)
  obtain sc where sc: "issue P (ev_sign E) (ev_now E) (ev_cert E) c days None i = Inr sc"
    using issue_ok [OF assms(1) kp assms(9-11)] issue_now by metis
  have l: "identity_load P L (ev_now E) anchor (ev_typed E 0) (cl_files s) = Inr (reloaded i)"
    using assms(2,5,6) by (simp add: opens_with_def)
  have iss: "issue P (ev_sign E) (ev_now E) (ev_cert E) c days None (reloaded i) = Inr sc" using reloaded_issues [OF kp] sc by simp
  have rc: "card_file cfile (cl_files s) = Inr c" by (rule card_file_back) (rule assms(7,8))+
  show ?thesis using anchor_issue_returns [OF _ _ _ l rc iss assms(12)] assms(2,3) that sc by (auto simp: exit_zero)
qed

section \<open>Properties\<close>

text \<open>C30: The chain of trust through files: an authority makes an anchor, a user makes an identity and exports
  its card, and the authority signs the card. With passwords that are typed right, valid names, random
  values of their sizes, and files that can be written and do not overwrite each other, all four commands exit with status 0, and
  a verifier who reads nothing but the anchor's public file accepts the signed card of the last file for its
  whole validity: it is the card of the identity that the user's password still opens.\<close>

theorem cli_trust_chain:
  assumes "aead_laws P" and "argon2_law P" and "signature_laws P" and "env_ok P L EA" and "env_ok P L EU"
    and "ev_prims EP = P \<and> ev_lib EP = L \<and> ev_typed EP 0 = ev_typed EU 0"
    and "ev_prims EI = P \<and> ev_lib EI = L \<and> ev_typed EI 0 = ev_typed EA 0"
    and "new_identity EA aname ''TRUST-ANCHOR'' = Inr ia" and "new_identity EU uname role = Inr iu"
    and "card_path = sibling key ''.card.json''" and "signed_path = sibling card_path ''.signed.json''"
    and "distinct [anchor, sibling anchor ''.pub.json'', key, card_path, signed_path]"
    and "0 < days" and "days \<le> 730"
    and "is_ok (card_signable (key_card iu) (trunc (ev_now EI)) (trunc (ev_now EI) + days * 86400) (ev_cert EI))"
    and "ev_writable EA anchor \<and> ev_writable EA (sibling anchor ''.pub.json'') \<and> ev_writable EU key \<and>
      ev_writable EP card_path \<and> ev_writable EI signed_path"
  shows "\<exists>s1 s2 s3 s4 sc. cli_main EA (AnchorCreate aname anchor) s0 = (0, s1) \<and> cli_main EU (Keygen uname role key) s1 = (0, s2) \<and>
    cli_main EP (Pubcard key None) s2 = (0, s3) \<and> cli_main EI (AnchorIssue anchor card_path days None) s3 = (0, s4) \<and>
    read_anchor (sibling anchor ''.pub.json'') (cl_files s4) = Inr (key_anchor ia) \<and>
    read_signed signed_path (cl_files s4) = Inr sc \<and> sc_card sc = key_card iu \<and>
    not_before sc = trunc (ev_now EI) \<and> not_after sc = not_before sc + days * 86400 \<and>
    (\<forall>clock t. is_time_valid clock t sc \<longrightarrow>
       ts_verify P clock sc t (Some (entity_id iu)) (from_anchors [key_anchor ia]) = Inr (key_card iu)) \<and>
    (\<forall>now. identity_load P L now key (ev_typed EU 0) (cl_files s4) = Inr (reloaded iu))"
proof -
  let ?pub = "sibling anchor ''.pub.json''"
  have w: "ev_writable EA anchor" "ev_writable EA ?pub" "ev_writable EU key" "ev_writable EP (sibling key ''.card.json'')"
    "ev_writable EI (sibling card_path ''.signed.json'')" using assms(10,11,16) by simp_all
  have ok: "identity_ok P ia" "identity_ok P iu" using new_identity_ok assms(4,5,8,9) by blast+
  have pw: "ev_typed EA 0 \<noteq> []" "ev_typed EU 0 \<noteq> []" using assms(4,5) by (simp_all add: env_ok_def)
  obtain ba s1 where s1: "cli_main EA (AnchorCreate aname anchor) s0 = (0, s1)" "opens_with P L anchor (ev_typed EA 0) ba ia"
    "cl_files s1 = (cl_files s0)(anchor \<mapsto> ba, ?pub \<mapsto> json_file L (anchor_to_dict (key_anchor ia)))"
    by (rule anchor_made [OF assms(1,2,4,8) w(1,2)])
  obtain bu s2 where s2: "cli_main EU (Keygen uname role key) s1 = (0, s2)" "opens_with P L key (ev_typed EU 0) bu iu"
    "cl_files s2 = (cl_files s1)(key \<mapsto> bu)"
    by (rule key_made [OF assms(1,2,5,9) w(3)])
  have "cl_files s2 key = Some bu" by (simp add: s2(3))
  then obtain s3 where s3: "cli_main EP (Pubcard key None) s2 = (0, s3)"
    "cl_files s3 = (cl_files s2)(card_path \<mapsto> json_file L (card_to_dict (key_card iu)))"
    unfolding assms(10) by (rule card_made [OF assms(6) pw(2) ok(2) s2(2) _ w(4)])
  have "cl_files s3 anchor = Some ba" "cl_files s3 card_path = Some (json_file L (card_to_dict (key_card iu)))"
    using s1(3) s2(3) s3(2) assms(12) by auto
  then obtain s4 sc where s4: "cli_main EI (AnchorIssue anchor card_path days None) s3 = (0, s4)"
    "cl_files s4 = (cl_files s3)(signed_path \<mapsto> json_file L (signed_to_dict sc))"
    and sc: "issue P (ev_sign EI) (ev_now EI) (ev_cert EI) (key_card iu) days None ia = Inr sc"
    unfolding assms(11) by (rule card_signed [OF assms(3,7) pw(1) ok(1) s1(2) _ _ key_card_ok [OF ok(2)] assms(13-15) w(5)])
  have kp: "is_keypair P (keypair ia) (i_pub ia)" using ok(1) by (simp add: identity_ok_def)
  have n: "not_before sc = trunc (ev_now EI)" "not_after sc = not_before sc + days * 86400" "sc_card sc = key_card iu"
    by (rule issue_Inr [OF assms(3) kp sc], simp)+
  have v: "ts_verify P clock sc t (Some (entity_id iu)) (from_anchors [key_anchor ia]) = Inr (key_card iu)"
    if "is_time_valid clock t sc" for clock t
    by (rule issued_card_verifies [THEN conjunct1, OF assms(3) kp sc public_anchor_ok [OF ok(1), of L 0] _ _ _ that])
      (simp_all add: from_anchors_def ts_add_def ts_init_def ts_is_revoked_def key_anchor_def key_card_def)
  have f4: "cl_files s4 ?pub = Some (json_file L (anchor_to_dict (key_anchor ia)))" "cl_files s4 key = Some bu"
    "cl_files s4 signed_path = Some (json_file L (signed_to_dict sc))"
    using s1(3) s2(3) s3(2) s4(2) assms(12) by auto
  have "read_anchor ?pub (cl_files s4) = Inr (key_anchor ia)"
    by (rule read_anchor_back, rule f4(1)) (use identity_ok_keys [OF ok(1)] in \<open>simp add: key_anchor_def\<close>)
  moreover have "read_signed signed_path (cl_files s4) = Inr sc"
    by (rule read_signed_back, rule f4(3)) (simp add: n key_card_ok [OF ok(2)])
  ultimately show ?thesis using s1(1) s2(1) s3(1) s4(1) n v s2(2) f4(2) unfolding opens_with_def by blast
qed

definition demo_cli :: "8 word \<Rightarrow> string \<Rightarrow> cli_env" where
  "demo_cli n pw = \<lparr>ev_prims = demo_prims, ev_lib = demo_lib, ev_codecs = demo_codecs, ev_guess = (\<lambda>_. None), ev_typed = (\<lambda>_. pw),
     ev_password = None, ev_cwd = ''/home'', ev_writable = (\<lambda>_. True), ev_version = ''1.3.2'',
     ev_fresh = \<lparr>f_time = 1000, f_uuid = pw, f_exchange = replicate 32 n, f_kem = [n], f_signing = [n], f_pqc = [n]\<rparr>,
     ev_now = 1000, ev_salt = replicate 16 n, ev_nonce = replicate 12 n, ev_sign = [n], ev_cert = ''cert-1'',
     ev_send = (\<lambda>_. \<lparr>sr_seal = demo_random, sr_t1 = 1000, sr_t2 = 1000, sr_key = replicate 32 n, sr_transfer = ''t'',
       sr_nonces = (\<lambda>_. replicate 12 n)\<rparr>)\<rparr>"

definition demo_key :: "8 word \<Rightarrow> string \<Rightarrow> string \<Rightarrow> string \<Rightarrow> identity" where
  "demo_key n pw name role = \<lparr>entity_id = pw, i_name = name, i_role = role, keypair = demo_keypair n,
     i_created_at = isoformat demo_lib 1000, i_key_version = 1, keys_rotated_at = None, i_pub = demo_pubkeys n\<rparr>"

lemma demo_writable: "ev_writable (demo_cli n pw) path" by (simp add: demo_cli_def)

lemma demo_env_ok: "pw \<noteq> [] \<Longrightarrow> env_ok demo_prims demo_lib (demo_cli n pw)"
  by (simp add: env_ok_def fresh_ok_def acceptable_keys_def demo_prims_def demo_cli_def demo_lib_def NONCE_SIZE_def str_int_def)

lemma demo_new_identity:
  assumes "strip name = name" and "name \<noteq> []" and "validate_role role = Inr r"
  shows "new_identity (demo_cli n pw) name role = Inr (demo_key n pw name r)"
proof -
  have "generate_hybrid_keypair demo_prims (replicate 32 n) [n] [n] [n] = Inr (demo_keypair n)"
    "extract_public_keys (demo_keypair n) = Inr (demo_pubkeys n)"
    by (simp_all add: generate_defs extract_public_keys_def public_key_def demo_keypair_def demo_pubkeys_def demo_prims_def
        algorithm_defs)
  then show ?thesis using assms by (simp add: new_identity_def identity_create_def identity_new_def demo_cli_def demo_key_def Let_def)
qed

lemma demo_signable: "is_ok (card_signable (key_card (demo_key 1 ''ann-id'' ''Ann'' ''USER'')) 1000 (1000 + 30 * 86400) ''cert-1'')"
proof -
  have u: "length (utf8 t) \<le> 0xFFFFFFFF" if "length t \<le> 20" for t
    using that length_utf8_le [of t] by simp
  have n: "length (str_int k) \<le> 20" if "\<bar>k\<bar> < 10 ^ 18" for k
    using length_str_int [OF that] by simp
  have "\<exists>b. card_signable (key_card (demo_key 1 ''ann-id'' ''Ann'' ''USER'')) 1000 (1000 + 30 * 86400) ''cert-1'' = Inr b"
    by (simp add: card_signable_def key_card_def demo_key_def demo_pubkeys_def demo_lib_def trunc_def bind_fields_ok u n del: bind_fields.simps)
  then show ?thesis by (auto simp: is_ok_iff)
qed

theorem cli_trust_chain_witness:
  "\<exists>s1 s2 s3 s4 sc. cli_main (demo_cli 3 ''root-id'') (AnchorCreate ''Root'' ''ca.uxsp'') \<lparr>cl_files = (\<lambda>_. None), cl_out = []\<rparr> = (0, s1) \<and>
     cli_main (demo_cli 1 ''ann-id'') (Keygen ''Ann'' ''user'' ''ann.uxsp'') s1 = (0, s2) \<and>
     cli_main (demo_cli 1 ''ann-id'') (Pubcard ''ann.uxsp'' None) s2 = (0, s3) \<and>
     cli_main (demo_cli 3 ''root-id'') (AnchorIssue ''ca.uxsp'' ''ann.card.json'' 30 None) s3 = (0, s4) \<and>
     read_signed ''ann.card.signed.json'' (cl_files s4) = Inr sc \<and>
     ts_verify demo_prims 1500 sc None (Some ''ann-id'') (from_anchors [key_anchor (demo_key 3 ''root-id'' ''Root'' ''TRUST-ANCHOR'')]) =
       Inr (key_card (demo_key 1 ''ann-id'' ''Ann'' ''USER''))"
proof -
  let ?ia = "demo_key 3 ''root-id'' ''Root'' ''TRUST-ANCHOR''" and ?iu = "demo_key 1 ''ann-id'' ''Ann'' ''USER''"
  let ?EA = "demo_cli 3 ''root-id''" and ?EU = "demo_cli 1 ''ann-id''"
  have p: "''ann.card.json'' = sibling ''ann.uxsp'' ''.card.json''" "''ann.card.signed.json'' = sibling ''ann.card.json'' ''.signed.json''"
    "distinct [''ca.uxsp'', sibling ''ca.uxsp'' ''.pub.json'', ''ann.uxsp'', ''ann.card.json'', ''ann.card.signed.json'']"
    by code_simp+
  have r: "strip ''Root'' = ''Root''" "validate_role ''TRUST-ANCHOR'' = Inr ''TRUST-ANCHOR''" "strip ''Ann'' = ''Ann''"
    "validate_role ''user'' = Inr ''USER''"
    by code_simp+
  have n: "new_identity ?EA ''Root'' ''TRUST-ANCHOR'' = Inr ?ia" "new_identity ?EU ''Ann'' ''user'' = Inr ?iu"
    using r by (simp_all add: demo_new_identity)
  have c: "is_ok (card_signable (key_card ?iu) (trunc (ev_now ?EA)) (trunc (ev_now ?EA) + 30 * 86400) (ev_cert ?EA))"
    using demo_signable by (simp add: demo_cli_def trunc_def)
  have e: "env_ok demo_prims demo_lib ?EA" "env_ok demo_prims demo_lib ?EU" by (rule demo_env_ok, simp)+
  have f: "ev_prims (demo_cli k pw) = demo_prims \<and> ev_lib (demo_cli k pw) = demo_lib \<and> ev_typed (demo_cli k pw) 0 = ev_typed (demo_cli k pw) 0" for k pw
    by (simp add: demo_cli_def)
  have w: "ev_writable ?EA ''ca.uxsp'' \<and> ev_writable ?EA (sibling ''ca.uxsp'' ''.pub.json'') \<and> ev_writable ?EU ''ann.uxsp'' \<and>
      ev_writable ?EU ''ann.card.json'' \<and> ev_writable ?EA ''ann.card.signed.json''"
    by (simp only: demo_writable simp_thms)
  obtain s1 s2 s3 s4 sc where s: "cli_main ?EA (AnchorCreate ''Root'' ''ca.uxsp'') \<lparr>cl_files = (\<lambda>_. None), cl_out = []\<rparr> = (0, s1)"
     "cli_main ?EU (Keygen ''Ann'' ''user'' ''ann.uxsp'') s1 = (0, s2)" "cli_main ?EU (Pubcard ''ann.uxsp'' None) s2 = (0, s3)"
     "cli_main ?EA (AnchorIssue ''ca.uxsp'' ''ann.card.json'' 30 None) s3 = (0, s4)"
     "read_signed ''ann.card.signed.json'' (cl_files s4) = Inr sc" "not_before sc = trunc (ev_now ?EA)" "not_after sc = not_before sc + 30 * 86400"
     and v: "\<forall>clock t. is_time_valid clock t sc \<longrightarrow>
       ts_verify demo_prims clock sc t (Some (entity_id ?iu)) (from_anchors [key_anchor ?ia]) = Inr (key_card ?iu)"
    using cli_trust_chain [OF demo_aead demo_argon2 demo_signature e f f n p _ _ c w] by fastforce
  have "is_time_valid 1500 None sc" using s(6,7) by (simp add: is_time_valid_def demo_cli_def trunc_def)
  then have "ts_verify demo_prims 1500 sc None (Some ''ann-id'') (from_anchors [key_anchor ?ia]) = Inr (key_card ?iu)"
    using v by (simp add: demo_key_def)
  then show ?thesis using s(1-5) by blast
qed

text \<open>C31: Whatever makes a command fail, a wrong password, passwords that differ, a damaged file, an invalid name
  or validity, a method that does not exist or a file that cannot be written: of all commands only two kinds
  leave a file changed. \<open>stream send\<close> and \<open>stream receive\<close> may have emptied their output file, and \<open>anchor create\<close>,
  when it cannot write the public file of the anchor, leaves the new anchor's key file. All others leave
  every file as it was; in particular a failing \<open>rotate\<close> never damages the key file.\<close>

theorem cli_failure_keeps_files:
  assumes "fst (cli_main E c s) = 1" and "s' = snd (cli_main E c s)"
  shows "cl_files s' = cl_files s \<or>
    (\<exists>p. stream_target c = Some p \<and> ev_writable E p \<and> cl_files s' = (cl_files s)(p \<mapsto> [])) \<or>
    (\<exists>name out i. c = AnchorCreate name out \<and> new_identity E name ''TRUST-ANCHOR'' = Inr i \<and> ev_writable E out \<and>
      identity_save (ev_prims E) (ev_lib E) (ev_salt E) (ev_nonce E) out (ev_typed E 0) i (cl_files s) = (Inr (), cl_files s') \<and>
      (is_ok (public_anchor_of (ev_lib E) (ev_now E) i) \<longrightarrow> \<not> ev_writable E (sibling out ''.pub.json'')))"
proof -
  obtain e where e: "run_command E c s = (Inl e, s')"
    using assms exit_one [of E c s] by (auto simp: cli_main_def split: stop.splits)
  show ?thesis
  proof (cases "single_write c")
    case True
    with run_clean [OF this] e show ?thesis by (auto simp: fails_clean_def)
  next
    case False
    show ?thesis
    proof (cases "stream_target c")
      case None
      with False obtain name out where c: "c = AnchorCreate name out" by (cases c) auto
      with e anchor_create_fails [of E name out s e s'] show ?thesis by auto
    next
      case (Some p)
      with stream_may_write [OF Some, of E] e show ?thesis by (fastforce simp: may_write_def)
    qed
  qed
qed

theorem cli_failure_keeps_files_witness:
  "\<exists>s'. cli_main (demo_cli 1 []) (Rotate ''ann.uxsp'') \<lparr>cl_files = [''ann.uxsp'' \<mapsto> [1]], cl_out = []\<rparr> = (1, s') \<and>
     cl_files s' = [''ann.uxsp'' \<mapsto> [1]]"
proof -
  let ?r = "cli_main (demo_cli 1 []) (Rotate ''ann.uxsp'') \<lparr>cl_files = [''ann.uxsp'' \<mapsto> [1]], cl_out = []\<rparr>"
  have f: "fst ?r = 1"
    by (simp add: cli_main_def cli_rotate_def cmd_bind_def prompt_password_def demo_cli_def halt_def)
  from cli_failure_keeps_files [OF f refl] have "cl_files (snd ?r) = [''ann.uxsp'' \<mapsto> [1]]" by simp
  with f show ?thesis by (intro exI [of _ "snd ?r"]) (simp add: prod_eq_iff)
qed

end
