(* ===== verification/Spec2Isabelle.thy ===== *)
theory Spec2Isabelle
  imports SessionGuarantees WebSocket KeyBackends AsyncClient Middleware RateLimit FileStore Browser Accounts Cli
begin

text \<open>
  A model of UXSP, the Universal Exchange Security Protocol (the Python package \<open>src/uxsp\<close>): hybrid
  (classical and post-quantum) sealing of messages, a handshake with encrypted sessions, identities with
  signed cards, and the transports, stores, client and server integrations around them.

  \<^bold>\<open>The program.\<close> At the bottom are the primitives of \<open>uxsp/crypto\<close>, thin layers over the packages
  \<open>cryptography\<close>, \<open>argon2\<close> and \<open>oqs\<close>. On them \<open>crypto/hybrid.py\<close> builds the hybrid key exchange, the
  double signature and the sealed envelope. \<open>uxsp/core\<close> holds the protocol: envelopes, the replay guard over
  a nonce store, identities and public cards, trust anchors with certificates and revocation lists, the
  two-message handshake that sets up a session, sessions, rate limiters, chunked transfers, payloads and live
  frames. \<open>uxsp/storage\<close> implements the nonce stores and key stores on Redis, PostgreSQL, files and memory.
  \<open>uxsp/secure\<close> is the simplified workflow: a process-wide context and \<open>Send\<close> and \<open>Receive\<close> for typed
  items. \<open>uxsp/transport\<close> carries envelopes over HTTP and frames over WebSockets, \<open>uxsp/client\<close> is an HTTP
  client that seals its requests where the peer can read them, \<open>uxsp/contrib\<close> the server side of this for
  three web frameworks. \<open>uxsp/aio\<close> repeats the workflow for coroutines, \<open>uxsp/schema\<close> checks parsed messages,
  \<open>wasm.py\<close> and \<open>pyodide.py\<close> bring the workflow into a browser, and \<open>uxsp/cli\<close> is the command \<open>uxsp\<close>.

  \<^bold>\<open>How it is modelled.\<close> Every operation is a function from its arguments and the state before it to a
  result, which is a value or an exception (\<open>'a res\<close>, exceptions without their messages), and the state
  after it. Readings of the clock and random bytes are arguments, so that nothing is assumed about them but
  what a theorem says. The packages and servers that are not part of the sources are parameters: the record
  \<open>prims\<close> (cryptography), \<open>pylib\<close> (the few functions of the standard library that have no closed form:
  the text of a float, ISO dates, \<open>str\<close> of other values), \<open>codecs\<close> (text encodings), and one record of
  commands for each server (Redis, PostgreSQL), file system or network. Their laws are hypotheses of the
  theorems, stated as predicates (\<open>aead_laws\<close>, \<open>signature_laws\<close>, ...), and each such theorem is applied to
  a concrete instance that satisfies them (\<open>std_prims\<close> and others) by its witness. Laws about private keys
  hold for the keys that the package accepts (\<open>acceptable_keys\<close>), and the theorems for identities with such
  keys (\<open>is_keypair\<close>). Bytes are \<open>8 word\<close>s,
  Python's integers \<open>int\<close>, times rational numbers, strings lists of characters (code points below 256).
  JSON values are the datatype \<open>pyval\<close>, with parser and printer in \<open>Json\<close>. A method that holds a lock is one
  atomic step; where the code gives up the lock in the middle (\<open>Session.encrypt\<close>) it is two. A coroutine is run
  to its end; where the code hands a function to a thread, or drops a coroutine without awaiting it, the model
  does what then happens. A file system is a map from paths to contents.

  \<^bold>\<open>The theories\<close>, bottom up:
  \<^item> \<open>Prelude\<close>: exceptions, results, bytes, strings and their encodings, \<open>pyval\<close>. \<open>Json\<close>, \<open>JsonIndent\<close>:
    \<open>json.loads\<close>, \<open>json.dumps\<close> compact and indented, with their round trips.
  \<^item> \<open>Crypto\<close> (\<open>crypto/symmetric.py\<close>, \<open>kdf.py\<close>, \<open>asymmetric.py\<close>, \<open>pqc.py\<close>) and \<open>Hybrid\<close>
    (\<open>crypto/hybrid.py\<close>): opening inverts sealing, what acceptance means, the binding of fields is injective.
  \<^item> \<open>Nonce\<close> (\<open>core/nonce.py\<close>): the contract of a nonce store as the locale \<open>nonce_store\<close>, with the store in
    memory. \<open>NonceBackends\<close> (\<open>storage/noncestore.py\<close>): the stores on Redis and PostgreSQL and the tiered
    store, each an interpretation of that locale. \<open>Replay\<close> (\<open>core/replay.py\<close>): the replay guard over any such store.
  \<^item> \<open>Session\<close>, \<open>SessionGuarantees\<close> (\<open>core/session.py\<close>): the channel; order, replay window, limits, life cycle
    over runs of arbitrary calls.
  \<^item> \<open>Envelope\<close> (\<open>core/envelope.py\<close>), \<open>Identity\<close> (\<open>core/identity.py\<close>), \<open>Signing\<close> (\<open>core/signing.py\<close>),
    \<open>Handshake\<close> (\<open>core/handshake.py\<close>), \<open>RateLimit\<close> (\<open>core/rate_limit.py\<close>, locale \<open>limiter\<close>), \<open>Chunking\<close>,
    \<open>Payload\<close>, \<open>Live\<close> (the files of these names in \<open>core\<close>).
  \<^item> \<open>KeyStore\<close>, \<open>FileStore\<close> (\<open>storage/keystore.py\<close>): the contract of a key store as the locales
    \<open>key_store\<close>, \<open>atomic_key_store\<close> and \<open>reliable_key_store\<close>, the locale \<open>caching\<close> for a cache in front of
    another store, and the stores as their interpretations; the file store refines the one in memory.
    \<open>KeyBackends\<close>: the stores on PostgreSQL, with the texts of their statements, and on asynchronous Redis.
  \<^item> \<open>IdentityFiles\<close> (\<open>save\<close> and \<open>load\<close> of \<open>core/identity.py\<close> and \<open>core/signing.py\<close>): encrypted identities, trust
    anchors and trust stores as files. \<open>Accounts\<close>: password hashes and the rotation of the own keys.
  \<^item> \<open>SecureEngine\<close>, \<open>SecureTypes\<close>, \<open>SecureGuarantees\<close> (\<open>uxsp/secure\<close>): packages, the context, sealing and
    receiving of payloads, the typed senders and receivers, streams, \<open>Send\<close> and \<open>Receive\<close>; \<open>SecureDispatch\<close>: every
    receiver that \<open>Receive\<close> selects starts with the engine and leaves the context as the engine left it. \<open>Aio\<close> (\<open>uxsp/aio\<close>): the asynchronous workflow, equal
    to the synchronous one where no store is asynchronous.
  \<^item> \<open>Http\<close>, \<open>WebSocket\<close> (\<open>uxsp/transport\<close>), \<open>Client\<close> (\<open>uxsp/client\<close>, locale \<open>client_net\<close>), \<open>Middleware\<close>
    (\<open>uxsp/contrib\<close>). \<open>AsyncClient\<close>: the asynchronous client as an interpretation of the same locale, and the
    capability cache on Redis.
  \<^item> \<open>Schema\<close> (\<open>uxsp/schema\<close>), \<open>Browser\<close> (\<open>wasm.py\<close>, \<open>pyodide.py\<close>), \<open>Cli\<close> (\<open>uxsp/cli\<close>): what is built on top.
    Commands are functions on a state of files and output lines, composed with \<open>cmd_bind\<close>; each ends with an
    exit status. Any write may fail. The commands that call what does not exist (\<open>revoke\<close>, \<open>secure\<close>, \<open>stream\<close>,
    \<open>live\<close>, \<open>curl\<close>) are modelled up to that call, which fails in the lists of attributes and parameters.

  \<^bold>\<open>What the theorems show.\<close> Round trips (sealing, identities, envelopes, chunks, payloads, HTTP, a whole send
  and receive); soundness of acceptance (envelopes, handshake messages, certificates, packages, HTTP
  requests, requests that reach an endpoint in strict mode): what must have verified before a value is
  returned; sealed answers to sealed requests; protection against repetition for nonces, envelopes, handshakes and sequence numbers under any
  interleaving; bounds (messages of a session, requests of a limiter); invariants over all runs (order of a
  stream, life cycle, well-formedness of sessions, the session of a connection); refinement of the file store
  by the one in memory, for any number of processes, and for one process behind a cache; the chain of trust that
  four commands build through files, and which files a failing command can have changed. Where the code falls short of its documentation the failure
  is stated and proved for a concrete run.

  \<^bold>\<open>Termination.\<close> All functions are total except for two. The JSON parser takes fuel, one step for each
  level and item; \<open>loads\<close> gives it twice the length of the text and two, and \<open>loads_fuel\<close> shows that more
  never changes the result. \<open>scan_loop\<close>, which repeats \<open>SCAN\<close> until the server says it is done, is a partial
  function; \<open>redis_list_returns\<close> shows that it returns on every server that completes its scans.

  \<^bold>\<open>Not modelled.\<close> Python's recursion limit and its limit on the digits of an integer; text with code points from
  256; UTF-16 and UTF-32 detection in \<open>json.loads\<close>; the overwriting of keys in memory (except where it is
  visible, in \<open>Session.revoke\<close>); log output and standard error; failures of the disk outside the commands and
  the file key store; file modes and the making of directories; the parsing of command lines by \<open>argparse\<close>; streams on file descriptors of the caller; closing of
  HTTP connections and the accessors of responses; the schema files themselves; \<open>__repr__\<close> and hashes; the test for
  the platform in \<open>wasm.py\<close>; and the modules that only re-export.
\<close>

end
